(* ===== verification/Prelude.thy ===== *)
theory Prelude
  imports Main "HOL-Library.Word" "HOL-Library.Char_ord" "HOL-Library.List_Lexorder"
    "HOL-Library.Product_Lexorder" "HOL-Library.Signed_Division"
begin

text \<open>
  Shared vocabulary of the development: instants and durations of Go's package time, the
  early-return loop over a slice, Go's machine arithmetic on 64-bit signed integers, decimal and
  hexadecimal printing, and the generic lemmas on lists and maps that the component theories use.

  Conventions. A Go string is a \<^typ>\<open>string\<close> (a list of bytes). An instant is its number of
  nanoseconds since the Unix epoch, a duration a number of nanoseconds; a nil slice and an empty
  slice are both \<open>[]\<close>; a nil pointer is \<open>None\<close>. A call that may fail returns a sum with
  \<open>Inl\<close> for the error; a call that also changes state returns the result paired with the new
  state, on the error branches too.
\<close>

section \<open>Collections used by the proofs\<close>

named_theorems preserves \<open>operations that keep the invariant of their table\<close>

section \<open>Instants and durations\<close>

type_synonym go_time = int
type_synonym go_duration = int

definition Nanosecond :: go_duration where "Nanosecond = 1"
definition Second :: go_duration where "Second = 1000000000"
definition Hour :: go_duration where "Hour = 3600 * Second"

text \<open>\<open>t.After(u)\<close> and \<open>t.Before(u)\<close>.\<close>

definition time_After :: "go_time \<Rightarrow> go_time \<Rightarrow> bool" where
  "time_After t u \<longleftrightarrow> t > u"

definition time_Before :: "go_time \<Rightarrow> go_time \<Rightarrow> bool" where
  "time_Before t u \<longleftrightarrow> t < u"

section \<open>Machine integers\<close>

text \<open>Two's complement wrap-around of a Go \<open>int64\<close> result.\<close>

definition wrap64 :: "int \<Rightarrow> int" where
  "wrap64 x = (x + 2 ^ 63) mod 2 ^ 64 - 2 ^ 63"

lemma wrap64_id [simp]: "- (2 ^ 63) \<le> x \<Longrightarrow> x < 2 ^ 63 \<Longrightarrow> wrap64 x = x"
  by (simp add: wrap64_def)

lemma wrap64_range: "- (2 ^ 63) \<le> wrap64 x \<and> wrap64 x < 2 ^ 63"
proof -
  have "0 \<le> (x + 2 ^ 63) mod (2 ^ 64 :: int)" "(x + 2 ^ 63) mod (2 ^ 64 :: int) < 2 ^ 64"
    by simp_all
  then show ?thesis by (simp add: wrap64_def)
qed

text \<open>\<open>t.Sub(u)\<close> saturates at the ends of the duration range.\<close>

definition time_Sub :: "go_time \<Rightarrow> go_time \<Rightarrow> go_duration" where
  "time_Sub t u = max (- (2 ^ 63)) (min (2 ^ 63 - 1) (t - u))"

lemma time_Sub_exact: "\<bar>t - u\<bar> < 2 ^ 63 \<Longrightarrow> time_Sub t u = t - u"
  by (simp add: time_Sub_def)

section \<open>The early-return loop\<close>

text \<open>
  \<open>for _, x := range xs { y, err := f(x); if err != nil { return nil, err }; out = append(out, y) }\<close>
\<close>

fun res_map :: "('a \<Rightarrow> 'e + 'b) \<Rightarrow> 'a list \<Rightarrow> 'e + 'b list" where
  "res_map f [] = Inr []"
| "res_map f (x # xs) =
     (case f x of
        Inl e \<Rightarrow> Inl e
      | Inr y \<Rightarrow> (case res_map f xs of Inl e \<Rightarrow> Inl e | Inr ys \<Rightarrow> Inr (y # ys)))"

lemma res_map_Inr: "res_map f xs = Inr ys \<longleftrightarrow> list_all2 (\<lambda>x y. f x = Inr y) xs ys"
proof (induction xs arbitrary: ys)
  case (Cons a xs)
  show ?case by (auto simp: list_all2_Cons1 Cons.IH [symmetric] split: sum.splits)
qed auto

lemma res_map_total: "(\<And>x. x \<in> set xs \<Longrightarrow> f x = Inr (g x)) \<Longrightarrow> res_map f xs = Inr (map g xs)"
  by (induction xs) auto

lemma res_map_length: "res_map f xs = Inr ys \<Longrightarrow> length ys = length xs"
  by (auto simp: res_map_Inr dest: list_all2_lengthD)

section \<open>Printing\<close>

text \<open>\<open>fmt.Sprintf("%d", n)\<close> for an unsigned \<open>n\<close>.\<close>

definition digit_char :: "nat \<Rightarrow> char" where
  "digit_char d = char_of (48 + d)"

fun itoa :: "nat \<Rightarrow> string" where
  "itoa n = (if n < 10 then [digit_char n] else itoa (n div 10) @ [digit_char (n mod 10)])"

declare itoa.simps [simp del]

definition char_digit :: "char \<Rightarrow> nat" where
  "char_digit c = of_char c - 48"

fun atoi :: "nat \<Rightarrow> string \<Rightarrow> nat" where
  "atoi acc [] = acc"
| "atoi acc (c # cs) = atoi (10 * acc + char_digit c) cs"

lemma char_digit_char [simp]: "d < 10 \<Longrightarrow> char_digit (digit_char d) = d"
  by (simp add: char_digit_def digit_char_def)

lemma atoi_append: "atoi acc (xs @ ys) = atoi (atoi acc xs) ys"
  by (induction xs arbitrary: acc) auto

lemma atoi_itoa: "atoi 0 (itoa n) = n"
proof (induction n rule: itoa.induct)
  case (1 n)
  show ?case
  proof (cases "n < 10")
    case True
    then show ?thesis by (simp add: itoa.simps [of n])
  next
    case False
    with 1 have "atoi 0 (itoa (n div 10)) = n div 10" by blast
    with False show ?thesis by (simp add: itoa.simps [of n] atoi_append)
  qed
qed

lemma itoa_inject [simp]: "itoa m = itoa n \<longleftrightarrow> m = n"
  by (metis atoi_itoa)

lemma itoa_nonempty [simp]: "itoa n \<noteq> []"
  by (subst itoa.simps) simp

text \<open>\<open>hex.EncodeToString\<close>: two lower-case digits per byte.\<close>

definition hex_char :: "nat \<Rightarrow> char" where
  "hex_char d = (if d < 10 then char_of (48 + d) else char_of (87 + d))"

definition hex_byte :: "char \<Rightarrow> string" where
  "hex_byte c = [hex_char (of_char c div 16), hex_char (of_char c mod 16)]"

definition hex_encode :: "string \<Rightarrow> string" where
  "hex_encode s = concat (map hex_byte s)"

lemma of_char_hex_char: "d < 16 \<Longrightarrow> of_char (hex_char d) = (if d < 10 then 48 + d else 87 + d)"
  by (simp add: hex_char_def)

lemma hex_char_inject:
  assumes "d < 16" "e < 16"
  shows "hex_char d = hex_char e \<longleftrightarrow> d = e"
proof
  assume "hex_char d = hex_char e"
  then have "(of_char (hex_char d) :: nat) = of_char (hex_char e)" by simp
  then show "d = e" using assms by (simp add: of_char_hex_char split: if_splits)
qed simp

lemma of_char_bound: "(of_char c :: nat) < 256"
  by simp

lemma hex_byte_inject [simp]: "hex_byte a = hex_byte b \<longleftrightarrow> a = b"
proof
  assume *: "hex_byte a = hex_byte b"
  have a: "(of_char a :: nat) < 256" and b: "(of_char b :: nat) < 256"
    by (rule of_char_bound)+
  from * have "of_char a div 16 = (of_char b div 16 :: nat)" "of_char a mod 16 = (of_char b mod 16 :: nat)"
    using a b by (auto simp: hex_byte_def hex_char_inject)
  then have "of_char a = (of_char b :: nat)" by (metis mult_div_mod_eq)
  then show "a = b" by simp
qed simp

lemma hex_encode_inject [simp]: "hex_encode s = hex_encode t \<longleftrightarrow> s = t"
proof (induction s arbitrary: t)
  case Nil
  show ?case by (cases t) (auto simp: hex_encode_def hex_byte_def)
next
  case (Cons c s)
  show ?case
  proof (cases t)
    case Nil
    then show ?thesis by (simp add: hex_encode_def hex_byte_def)
  next
    case (Cons d t')
    have "hex_encode (c # s) = hex_encode (d # t') \<longleftrightarrow> hex_byte c = hex_byte d \<and> hex_encode s = hex_encode t'"
      by (auto simp: hex_encode_def hex_byte_def)
    with Cons Cons.IH show ?thesis by simp
  qed
qed

section \<open>Lists and maps\<close>

lemma distinct_map_filter: "distinct (map f xs) \<Longrightarrow> distinct (map f (filter P xs))"
  by (induction xs) auto

lemma distinct_remove1_append:
  "distinct xs \<Longrightarrow> distinct ys \<Longrightarrow> set ys \<inter> set xs = {} \<Longrightarrow> distinct (remove1 x xs @ ys)"
  by (auto dest: notin_set_remove1)

lemma find_Some_iff_distinct:
  "distinct (map f xs) \<Longrightarrow> find (\<lambda>x. f x = k) xs = Some y \<longleftrightarrow> y \<in> set xs \<and> f y = k"
proof (induction xs)
  case (Cons a xs)
  then show ?case by (auto split: if_splits)
qed simp

lemma find_None_iff_key: "find (\<lambda>x. f x = k) xs = None \<longleftrightarrow> k \<notin> f ` set xs"
  by (auto simp: find_None_iff)

lemma map_add_upd_notin: "i \<notin> dom n \<Longrightarrow> (m ++ n)(i := x) = m(i := x) ++ n"
  by (auto simp: map_add_def fun_eq_iff domIff split: option.splits)

lemma set_map_filter: "set (List.map_filter f xs) = {y. \<exists>x \<in> set xs. f x = Some y}"
  by (induction xs) (auto simp: map_filter_simps split: option.splits)

lemma length_filter_update:
  assumes "k < length xs"
  shows "length (filter P (xs[k := y])) + (if P (xs ! k) then 1 else 0) =
    length (filter P xs) + (if P y then 1 else 0)"
proof -
  have "length (filter P xs) = length (filter P (take k xs @ xs ! k # drop (Suc k) xs))"
    using assms by (simp add: id_take_nth_drop [symmetric])
  with assms show ?thesis by (simp add: upd_conv_take_nth_drop)
qed

lemma length_filter_drop_nth:
  assumes "k < length xs"
  shows "length (filter P (take k xs @ drop (Suc k) xs)) + (if P (xs ! k) then 1 else 0) =
    length (filter P xs)"
proof -
  have "length (filter P xs) = length (filter P (take k xs @ xs ! k # drop (Suc k) xs))"
    using assms by (simp add: id_take_nth_drop [symmetric])
  then show ?thesis by simp
qed

lemma find_split:
  "find P xs = Some x \<Longrightarrow> \<exists>us vs. xs = us @ x # vs \<and> P x \<and> (\<forall>y \<in> set us. \<not> P y)"
proof (induction xs)
  case (Cons a xs)
  show ?case
  proof (cases "P a")
    case True
    with Cons.prems show ?thesis by (intro exI [of _ "[]"] exI [of _ xs]) auto
  next
    case False
    with Cons obtain us vs where "xs = us @ x # vs" "P x" "\<forall>y \<in> set us. \<not> P y" by auto
    with False show ?thesis by (intro exI [of _ "a # us"] exI [of _ vs]) auto
  qed
qed simp

lemma if_memI: "x \<in> S \<Longrightarrow> y \<in> S \<Longrightarrow> (if b then x else y) \<in> S"
  by simp

lemma list_all2_map_eq: "list_all2 R xs ys \<Longrightarrow> (\<And>x y. R x y \<Longrightarrow> g y = f x) \<Longrightarrow> map g ys = map f xs"
  by (induction rule: list_all2_induct) auto

lemma list_all2_ex: "list_all2 R xs ys \<Longrightarrow> x \<in> set xs \<Longrightarrow> \<exists>y \<in> set ys. R x y"
  by (induction rule: list_all2_induct) auto

end
