(* ===== verification/Cells.thy ===== *)
theory Cells
  imports Prelude
begin

text \<open>
  The data model of the runtime: cell.go (Cell, CellRequest, Sequence and the functions that build
  them), result.go (handler outcomes), the sentinel errors of the package, and the validation and
  cloning helpers of memory_store.go that every store shares.

  Cloning (\<open>cloneCell\<close>, \<open>cloneSteps\<close>, \<open>cloneBytes\<close>, \<open>cloneTimePtr\<close>) copies slices and
  pointers so that the caller and the store do not alias; values of the model never alias, so a
  clone is the value itself and the clones are not repeated in the definitions.
\<close>

section \<open>Errors\<close>

text \<open>
  One constructor per sentinel error of the packages (\<open>errors.New\<close> at package level). \<open>Err m\<close> is
  an error made on the spot by \<open>errors.New\<close> or by \<open>fmt.Errorf\<close> without \<open>%w\<close>; \<open>Wrapped e m\<close> is
  \<open>fmt.Errorf\<close> with \<open>%w\<close>: it wraps \<open>e\<close> and \<open>m\<close> is what the format adds to it.
  \<open>Joined a b\<close> is \<open>errors.Join(a, b)\<close>. \<open>RequestExceedsCapacityError\<close> is the error type of components/ratelimit.
\<close>

datatype gerror =
    ErrCellNotFound | ErrCellAlreadyExists | ErrCellNotClaimed
  | ErrCellNil | ErrCellarStarted | ErrStoreNil | ErrHandlerNotRegistered | ErrHandlerNil
  | ErrRegistryFrozen | ErrRegistrationNil | ErrHandlerNameRequired | ErrHandlerAlreadyRegistered
  | ErrCellarNil | ErrTimerNil | ErrTimerIntervalInvalid | ErrTimerModeInvalid
  | ErrTimerDailyAtInvalid | ErrTimerLocationInvalid | ErrTimerCallbackNil | ErrTimerAlreadyExists
  | ErrFanoutNil | ErrFanoutExpanderNil | ErrFanoutAlreadyExists | ErrFanoutTargetKeyRequired
  | ErrFanoutTargetCellRequired | ErrFanoutTargetKeyDuplicate
  | ErrClaimRejected | ErrNoRows
  | ErrVenueNotFound | ErrCacheMiss | ErrMalformedDocument | ErrPersistence
  | ErrProfileNotFound | ErrUnknownKind
  | ErrNilCallback | ErrTemplateExists | ErrTemplateNameEmpty | ErrTemplateNotFound | ErrNoRecipients
  | ErrAmbiguousVerification | ErrDisabled | ErrUnauthenticated
  | RequestExceedsCapacityError string int int
  | Err string
  | Wrapped gerror string
  | Joined gerror gerror

text \<open>\<open>errors.Is(err, target)\<close> follows the chain of wrapped errors.\<close>

fun errors_Is :: "gerror \<Rightarrow> gerror \<Rightarrow> bool" where
  "errors_Is (Wrapped e m) t = (Wrapped e m = t \<or> errors_Is e t)"
| "errors_Is (Joined a b) t = (Joined a b = t \<or> errors_Is a t \<or> errors_Is b t)"
| "errors_Is e t = (e = t)"

section \<open>Cells and requests\<close>

type_synonym cell_id = string
type_synonym handler_name = string
type_synonym cell_state = string

definition CellStateReady :: cell_state where "CellStateReady = ''READY''"
definition CellStateClaimed :: cell_state where "CellStateClaimed = ''CLAIMED''"

lemma cell_state_distinct [simp]:
  "CellStateReady \<noteq> CellStateClaimed" "CellStateClaimed \<noteq> CellStateReady"
  by (simp_all add: CellStateReady_def CellStateClaimed_def)

record cell_step =
  HandlerName :: handler_name
  Payload :: string

record cell =
  Steps :: "cell_step list"
  CurrentStep :: int
  ID :: cell_id
  State :: cell_state
  NotBefore :: "go_time option"

record cell_request =
  req_Steps :: "cell_step list"
  req_ID :: cell_id
  req_NotBefore :: "go_time option"

text \<open>A typed handler invocation, before its payload is encoded.\<close>

record 'p step =
  step_HandlerName :: handler_name
  step_Payload :: 'p

text \<open>
  \<open>cellRequestFromSteps\<close>: \<open>marshalJSON\<close> is the JSON encoding of the payload type, a parameter
  because the payload is an arbitrary Go value.
\<close>

definition cellStepFromStep :: "('p \<Rightarrow> gerror + string) \<Rightarrow> 'p step \<Rightarrow> gerror + cell_step" where
  "cellStepFromStep marshalJSON s =
     (if step_HandlerName s = '''' then Inl (Err ''handler name is required'')
      else case marshalJSON (step_Payload s) of
             Inl e \<Rightarrow> Inl (Wrapped e ''encode cell payload'')
           | Inr raw \<Rightarrow> Inr \<lparr>HandlerName = step_HandlerName s, Payload = raw\<rparr>)"

definition cellRequestFromSteps ::
  "('p \<Rightarrow> gerror + string) \<Rightarrow> 'p step list \<Rightarrow> gerror + cell_request" where
  "cellRequestFromSteps marshalJSON ss =
     (if ss = [] then Inl (Err ''sequence must contain at least one step'')
      else case res_map (cellStepFromStep marshalJSON) ss of
             Inl e \<Rightarrow> Inl e
           | Inr cs \<Rightarrow> Inr \<lparr>req_Steps = cs, req_ID = '''', req_NotBefore = None\<rparr>)"

text \<open>
  A \<open>CellDefinition\<close> is an interface with the single operation \<open>CellRequest()\<close>, so a value of it is
  represented by what that operation returns; \<open>*Sequence\<close> is the implementation of the package.
\<close>

type_synonym cell_definition = "gerror + cell_request"

definition NewSequence ::
  "('p \<Rightarrow> gerror + string) \<Rightarrow> 'p step list \<Rightarrow> gerror + cell_definition" where
  "NewSequence marshalJSON ss =
     (case cellRequestFromSteps marshalJSON ss of
        Inl e \<Rightarrow> Inl e
      | Inr request \<Rightarrow> Inr (Inr request))"

definition NewCellDefinition ::
  "('p \<Rightarrow> gerror + string) \<Rightarrow> handler_name \<Rightarrow> 'p \<Rightarrow> gerror + cell_definition" where
  "NewCellDefinition marshalJSON name payload =
     NewSequence marshalJSON [\<lparr>step_HandlerName = name, step_Payload = payload\<rparr>]"

section \<open>Handler results\<close>

text \<open>
  \<open>ApplicationWork\<close> is a Go function of the transaction it is given. The memory store gives it the
  transaction that does nothing (\<open>noopApplicationTx\<close>) and only looks at the error; the SQLite store
  gives it the open transaction on the application's tables, of type \<open>'db\<close>.
\<close>

datatype (dead 'db) application_tx = NoopApplicationTx | SqlTx 'db

type_synonym 'db application_work = "'db application_tx \<Rightarrow> gerror + 'db application_tx"

text \<open>
  The outcomes of a handler. \<open>OtherResult\<close> is every value of the interface that the type switches
  do not match: a nil result or a pointer to one of the structs.
\<close>

datatype (dead 'db) result =
    Complete "cell_request list" "'db application_work option list"
  | Retry "go_time option" "cell_request list" "'db application_work option list"
  | RetrySequence go_duration "cell_request list" "'db application_work option list"
  | Kill "cell_request list" "'db application_work option list"
  | ErrorResult string "gerror option"
  | OtherResult

section \<open>Validation and construction\<close>

definition validateSteps :: "cell_step list \<Rightarrow> gerror option" where
  "validateSteps ss =
     (if ss = [] then Some (Err ''handler name is required'')
      else if list_ex (\<lambda>s. HandlerName s = '''') ss then Some (Err ''handler name is required'')
      else None)"

definition validateCellRequest :: "cell_request \<Rightarrow> gerror option" where
  "validateCellRequest req = validateSteps (req_Steps req)"

definition validateCellForPersistence :: "cell \<Rightarrow> gerror option" where
  "validateCellForPersistence c =
     (if ID c = '''' then Some (Err ''cell id is required'')
      else if Steps c = [] then Some (Err ''handler name is required'')
      else if CurrentStep c < 0 \<or> CurrentStep c > int (length (Steps c))
           then Some (Err ''invalid current step'')
      else if list_ex (\<lambda>s. HandlerName s = '''') (Steps c)
           then Some (Err ''handler name is required'')
      else if State c \<noteq> CellStateReady \<and> State c \<noteq> CellStateClaimed
           then Some (Err ''invalid cell state'')
      else None)"

text \<open>The cell a request becomes when it is persisted.\<close>

definition newCell :: "cell_request \<Rightarrow> cell" where
  "newCell req = \<lparr>Steps = req_Steps req, CurrentStep = 0, ID = req_ID req,
                  State = CellStateReady, NotBefore = req_NotBefore req\<rparr>"

text \<open>The step the cursor points at; \<open>currentStep\<close> of inspect.go and \<open>currentStepPayload\<close>.\<close>

definition currentStep :: "cell \<Rightarrow> cell_step" where
  "currentStep c =
     (if CurrentStep c \<ge> 0 \<and> CurrentStep c < int (length (Steps c))
      then Steps c ! nat (CurrentStep c)
      else \<lparr>HandlerName = '''', Payload = ''''\<rparr>)"

definition currentStepPayload :: "cell \<Rightarrow> string" where
  "currentStepPayload c =
     (if length (Steps c) > 0 \<and> CurrentStep c \<ge> 0 \<and> CurrentStep c < int (length (Steps c))
      then Payload (Steps c ! nat (CurrentStep c))
      else '''')"

section \<open>Well-formed cells\<close>

definition wf_steps :: "cell_step list \<Rightarrow> bool" where
  "wf_steps ss \<longleftrightarrow> ss \<noteq> [] \<and> (\<forall>s \<in> set ss. HandlerName s \<noteq> '''')"

definition wf_cell :: "cell \<Rightarrow> bool" where
  "wf_cell c \<longleftrightarrow> ID c \<noteq> '''' \<and> wf_steps (Steps c) \<and>
     0 \<le> CurrentStep c \<and> CurrentStep c \<le> int (length (Steps c)) \<and>
     (State c = CellStateReady \<or> State c = CellStateClaimed)"

text \<open>A cell whose cursor points at one of its steps: what the lifecycle operations maintain.\<close>

definition runnable_cell :: "cell \<Rightarrow> bool" where
  "runnable_cell c \<longleftrightarrow> wf_cell c \<and> CurrentStep c < int (length (Steps c))"

lemma validateSteps_None [simp]: "validateSteps ss = None \<longleftrightarrow> wf_steps ss"
  by (auto simp: validateSteps_def wf_steps_def list_ex_iff)

lemma validateCellRequest_None [simp]: "validateCellRequest r = None \<longleftrightarrow> wf_steps (req_Steps r)"
  by (simp add: validateCellRequest_def)

lemma validateCellForPersistence_None: "validateCellForPersistence c = None \<longleftrightarrow> wf_cell c"
  by (auto simp: validateCellForPersistence_def wf_cell_def wf_steps_def list_ex_iff)

lemma newCell_sel [simp]:
  "Steps (newCell r) = req_Steps r" "CurrentStep (newCell r) = 0" "ID (newCell r) = req_ID r"
  "State (newCell r) = CellStateReady" "NotBefore (newCell r) = req_NotBefore r"
  by (simp_all add: newCell_def)

lemma runnable_newCell: "req_ID r \<noteq> '''' \<Longrightarrow> wf_steps (req_Steps r) \<Longrightarrow> runnable_cell (newCell r)"
  by (auto simp: runnable_cell_def wf_cell_def wf_steps_def)

lemma runnable_wf: "runnable_cell c \<Longrightarrow> wf_cell c"
  by (simp add: runnable_cell_def)

lemma runnable_set_state:
  "runnable_cell c \<Longrightarrow> st = CellStateReady \<or> st = CellStateClaimed \<Longrightarrow> runnable_cell (c\<lparr>State := st\<rparr>)"
  by (auto simp: runnable_cell_def wf_cell_def)

lemma currentStepPayload_currentStep: "currentStepPayload c = Payload (currentStep c)"
  by (auto simp: currentStepPayload_def currentStep_def)

lemma NewSequence_Inr:
  "NewSequence m ss = Inr d \<longleftrightarrow>
     (\<exists>cs. ss \<noteq> [] \<and> res_map (cellStepFromStep m) ss = Inr cs \<and>
        d = Inr \<lparr>req_Steps = cs, req_ID = '''', req_NotBefore = None\<rparr>)"
  by (auto simp: NewSequence_def cellRequestFromSteps_def split: sum.splits if_splits)

lemma cellStepFromStep_Inr:
  "cellStepFromStep m s = Inr c \<longleftrightarrow>
     step_HandlerName s \<noteq> '''' \<and> HandlerName c = step_HandlerName s \<and>
     m (step_Payload s) = Inr (Payload c)"
  by (cases c) (auto simp: cellStepFromStep_def split: sum.splits)

end
