(* ===== verification/StoreSpec.thy ===== *)
theory StoreSpec
  imports Cells
begin

text \<open>
  The contract of a cell store (the interfaces Store and ResultStore of store.go) as a locale, over
  the abstract contents of the store: a map from identifiers to cells. The memory store and the
  SQLite store interpret it; the runtime's properties are proved once, inside the locale.
\<close>

section \<open>The abstract lifecycle\<close>

fun result_additions :: "'db result \<Rightarrow> cell_request list" where
  "result_additions (Complete adds ws) = adds"
| "result_additions (Retry nb adds ws) = adds"
| "result_additions (RetrySequence d adds ws) = adds"
| "result_additions (Kill adds ws) = adds"
| "result_additions _ = []"

fun result_works :: "'db result \<Rightarrow> 'db application_work option list" where
  "result_works (Complete adds ws) = ws"
| "result_works (Retry nb adds ws) = ws"
| "result_works (RetrySequence d adds ws) = ws"
| "result_works (Kill adds ws) = ws"
| "result_works _ = []"

text \<open>
  What a result makes of the claimed cell: \<open>None\<close> when the result is not applicable, otherwise the
  cell's next content, \<open>Some None\<close> for its removal.
\<close>

fun after_result :: "go_time \<Rightarrow> cell \<Rightarrow> 'db result \<Rightarrow> cell option option" where
  "after_result now c (Complete adds ws) =
     Some (if CurrentStep c + 1 = int (length (Steps c)) then None
           else Some (c\<lparr>CurrentStep := CurrentStep c + 1, State := CellStateReady\<rparr>))"
| "after_result now c (Retry nb adds ws) = Some (Some (c\<lparr>State := CellStateReady, NotBefore := nb\<rparr>))"
| "after_result now c (RetrySequence d adds ws) =
     (if d < 0 then None
      else Some (Some (c\<lparr>CurrentStep := 0, State := CellStateReady, NotBefore := Some (now + d)\<rparr>)))"
| "after_result now c (Kill adds ws) = Some None"
| "after_result now c _ = None"

text \<open>Cells added beside the current ones: fresh identifiers, ready at their first step.\<close>

definition fresh_cells :: "(cell_id \<rightharpoonup> cell) \<Rightarrow> (cell_id \<rightharpoonup> cell) \<Rightarrow> bool" where
  "fresh_cells m news \<longleftrightarrow> dom news \<inter> dom m = {} \<and>
     (\<forall>i c. news i = Some c \<longrightarrow>
        ID c = i \<and> runnable_cell c \<and> State c = CellStateReady \<and> CurrentStep c = 0)"

text \<open>The transition of the contents that a successful \<open>ApplyResult\<close> makes.\<close>

definition applies ::
  "go_time \<Rightarrow> cell \<Rightarrow> 'db result \<Rightarrow> (cell_id \<rightharpoonup> cell) \<Rightarrow> (cell_id \<rightharpoonup> cell) \<Rightarrow> bool" where
  "applies now claimed r m m' \<longleftrightarrow>
     (\<exists>c c' news. m (ID claimed) = Some c \<and> State c = CellStateClaimed \<and>
        CurrentStep c = CurrentStep claimed \<and> after_result now c r = Some c' \<and>
        fresh_cells m news \<and> length (result_additions r) = card (dom news) \<and>
        m' = m(ID claimed := c') ++ news)"

definition claimable :: "go_time \<Rightarrow> cell \<Rightarrow> bool" where
  "claimable now c \<longleftrightarrow> State c = CellStateReady \<and>
     (case NotBefore c of None \<Rightarrow> True | Some t \<Rightarrow> t \<le> now)"

definition recoverCell :: "cell \<Rightarrow> cell" where
  "recoverCell c = (if State c = CellStateClaimed then c\<lparr>State := CellStateReady\<rparr> else c)"

definition wf_contents :: "(cell_id \<rightharpoonup> cell) \<Rightarrow> bool" where
  "wf_contents m \<longleftrightarrow> (\<forall>i c. m i = Some c \<longrightarrow> ID c = i \<and> runnable_cell c)"

lemma wf_contentsD: "wf_contents m \<Longrightarrow> m i = Some c \<Longrightarrow> ID c = i \<and> runnable_cell c"
  by (simp add: wf_contents_def)

lemma wf_contents_upd: "wf_contents m \<Longrightarrow> ID c = i \<Longrightarrow> runnable_cell c \<Longrightarrow> wf_contents (m(i \<mapsto> c))"
  by (auto simp: wf_contents_def)

lemma wf_contents_del: "wf_contents m \<Longrightarrow> wf_contents (m(i := None))"
  by (auto simp: wf_contents_def)

lemma wf_contents_add: "wf_contents m \<Longrightarrow> fresh_cells m' news \<Longrightarrow> wf_contents (m ++ news)"
  by (auto simp: wf_contents_def fresh_cells_def)

lemma after_result_runnable:
  assumes "runnable_cell c" "after_result now c r = Some (Some c')"
  shows "runnable_cell c' \<and> ID c' = ID c \<and> State c' = CellStateReady"
  using assms
  by (cases r) (auto simp: runnable_cell_def wf_cell_def wf_steps_def split: if_splits)

lemma applies_wf:
  assumes "wf_contents m" "applies now claimed r m m'"
  shows "wf_contents m'"
proof -
  from assms(2) obtain c c' news where
    c: "m (ID claimed) = Some c" and c': "after_result now c r = Some c'"
    and news: "fresh_cells m news" and m': "m' = m(ID claimed := c') ++ news"
    by (auto simp: applies_def)
  from assms(1) c have "ID c = ID claimed" "runnable_cell c"
    by (auto dest: wf_contentsD)
  with c' assms(1) have "wf_contents (m(ID claimed := c'))"
    by (cases c') (auto intro!: wf_contents_upd wf_contents_del dest: after_result_runnable)
  then show ?thesis using news m' by (auto intro: wf_contents_add)
qed

lemma fresh_cells_None: "fresh_cells m news \<Longrightarrow> m i = Some d \<Longrightarrow> news i = None"
  by (auto simp: fresh_cells_def)

text \<open>Cells other than the claimed one are never touched by applying its result.\<close>

lemma applies_frame:
  assumes "applies now claimed r m m'" "i \<noteq> ID claimed" "m i = Some d"
  shows "m' i = Some d"
  using assms by (auto simp: applies_def map_add_def fresh_cells_None)

section \<open>The contract\<close>

locale cell_store =
  fixes inv :: "'s \<Rightarrow> bool"
    and view :: "'s \<Rightarrow> cell_id \<rightharpoonup> cell"
    and claim :: "go_time \<Rightarrow> 's \<Rightarrow> (gerror + cell option) \<times> 's"
    and apply_result :: "go_time \<Rightarrow> cell \<Rightarrow> 'db result \<Rightarrow> 's \<Rightarrow> (gerror + unit) \<times> 's"
    and add :: "go_time \<Rightarrow> cell_request list \<Rightarrow> 's \<Rightarrow> (gerror + cell_id list) \<times> 's"
    and recover :: "'s \<Rightarrow> (gerror + unit) \<times> 's"
  assumes inv_wf: "inv s \<Longrightarrow> wf_contents (view s)"
    and claim_inv: "inv s \<Longrightarrow> claim now s = (cr, s') \<Longrightarrow> inv s'"
    and claim_Some: "inv s \<Longrightarrow> claim now s = (Inr (Some c), s') \<Longrightarrow>
      (\<exists>c0. view s (ID c) = Some c0 \<and> claimable now c0 \<and> c = c0\<lparr>State := CellStateClaimed\<rparr>) \<and>
      view s' = (view s)(ID c \<mapsto> c)"
    and claim_None: "inv s \<Longrightarrow> claim now s = (Inr None, s') \<Longrightarrow>
      view s' = view s \<and> (\<forall>i c. view s i = Some c \<longrightarrow> \<not> claimable now c)"
    and claim_Inl: "inv s \<Longrightarrow> claim now s = (Inl e, s') \<Longrightarrow> view s' = view s"
    and apply_inv: "inv s \<Longrightarrow> apply_result now c r s = (ar, s') \<Longrightarrow>
      (\<forall>c0. view s (ID c) = Some c0 \<longrightarrow> Steps c0 = Steps c) \<Longrightarrow> inv s'"
    and apply_Inr: "inv s \<Longrightarrow> apply_result now c r s = (Inr (), s') \<Longrightarrow>
      (\<forall>c0. view s (ID c) = Some c0 \<longrightarrow> Steps c0 = Steps c) \<Longrightarrow> applies now c r (view s) (view s')"
    and apply_Inl: "inv s \<Longrightarrow> apply_result now c r s = (Inl e, s') \<Longrightarrow> view s' = view s"
    and add_inv: "inv s \<Longrightarrow> add now reqs s = (ir, s') \<Longrightarrow> inv s'"
    and add_Inr: "inv s \<Longrightarrow> add now reqs s = (Inr ids, s') \<Longrightarrow>
      (\<exists>news. fresh_cells (view s) news \<and> dom news = set ids \<and> distinct ids \<and>
         length ids = length reqs \<and> view s' = view s ++ news)"
    and add_Inl: "inv s \<Longrightarrow> add now reqs s = (Inl e, s') \<Longrightarrow> view s' = view s"
    and recover_inv: "inv s \<Longrightarrow> recover s = (rr, s') \<Longrightarrow> inv s'"
    and recover_Inr: "inv s \<Longrightarrow> recover s = (Inr (), s') \<Longrightarrow>
      view s' = (\<lambda>i. map_option recoverCell (view s i))"
begin

lemma claim_not_claimed_before:
  assumes "inv s" "claim now s = (Inr (Some c), s')"
  shows "\<exists>c0. view s (ID c) = Some c0 \<and> State c0 = CellStateReady"
  using claim_Some [OF assms] by (auto simp: claimable_def)

lemma claim_frame:
  assumes "inv s" "claim now s = (x, s')" "view s i = Some d" "State d = CellStateClaimed"
  shows "view s' i = Some d"
proof (cases x)
  case (Inl e)
  with assms claim_Inl show ?thesis by auto
next
  case (Inr o')
  show ?thesis
  proof (cases o')
    case None
    with assms Inr claim_None show ?thesis by auto
  next
    case (Some c)
    with assms Inr have x: "claim now s = (Inr (Some c), s')" by simp
    from claim_not_claimed_before [OF assms(1) x] assms(3,4) have "i \<noteq> ID c" by auto
    with claim_Some [OF assms(1) x] assms(3) show ?thesis by auto
  qed
qed

lemma add_frame:
  assumes "inv s" "add now reqs s = (x, s')" "view s i = Some d"
  shows "view s' i = Some d"
proof (cases x)
  case (Inl e)
  with assms add_Inl show ?thesis by auto
next
  case (Inr ids)
  with assms add_Inr obtain news where "fresh_cells (view s) news" "view s' = view s ++ news"
    by blast
  with assms(3) show ?thesis by (simp add: map_add_def fresh_cells_None)
qed

end

text \<open>A store that can also list its cells.\<close>

locale listing_store = cell_store +
  fixes list_active :: "'a \<Rightarrow> gerror + cell list"
  assumes list_active_Inr: "inv s \<Longrightarrow> list_active s = Inr cs \<Longrightarrow> set cs = ran (view s) \<and> distinct (map ID cs)"

end
