(* ===== verification/MemoryStore.thy ===== *)
theory MemoryStore
  imports StoreSpec
begin

text \<open>
  allocator.go and memory_store.go: the identifier allocators and the in-memory reference store.
  Every operation runs under the store's mutex, so it is one atomic function of the store state;
  it returns its Go results paired with the new state. A store that failed an operation may still
  have advanced its allocator, which is why the error branches return a state too.
\<close>

section \<open>Identifier allocators\<close>

text \<open>
  \<open>CellIDAllocator\<close> is an interface with the operation \<open>Next\<close>; \<open>'a\<close> is the allocator's state. The
  UUID allocator draws from the random source of a library and stays a parameter; the sequential
  allocator is modelled, its \<open>uint64\<close> counter as a 64-bit word.
\<close>

type_synonym 'a allocator_next = "'a \<Rightarrow> (gerror + cell_id) \<times> 'a"

record sequential_allocator =
  sa_next :: "64 word"
  sa_prefix :: string

definition NewSequentialAllocator :: "string \<Rightarrow> 64 word \<Rightarrow> sequential_allocator" where
  "NewSequentialAllocator p start = \<lparr>sa_next = start, sa_prefix = p\<rparr>"

definition SequentialAllocator_Next :: "sequential_allocator allocator_next" where
  "SequentialAllocator_Next a =
     (Inr (sa_prefix a @ itoa (unat (sa_next a))), a\<lparr>sa_next := sa_next a + 1\<rparr>)"

fun sequential_ids :: "nat \<Rightarrow> sequential_allocator \<Rightarrow> cell_id list" where
  "sequential_ids 0 a = []"
| "sequential_ids (Suc n) a =
     (case SequentialAllocator_Next a of
        (Inl e, a') \<Rightarrow> sequential_ids n a'
      | (Inr i, a') \<Rightarrow> i # sequential_ids n a')"

section \<open>State\<close>

record 'a memory_store =
  allocator :: 'a
  cells :: "cell_id \<rightharpoonup> cell"
  ms_order :: "cell_id list"

definition NewMemoryStore :: "'a \<Rightarrow> 'a memory_store" where
  "NewMemoryStore a = \<lparr>allocator = a, cells = Map.empty, ms_order = []\<rparr>"

section \<open>Requests\<close>

fun identifyRequests ::
  "'a allocator_next \<Rightarrow> 'a \<Rightarrow> cell_request list \<Rightarrow>
     (gerror + cell_request list \<times> cell_id list) \<times> 'a" where
  "identifyRequests nxt a [] = (Inr ([], []), a)"
| "identifyRequests nxt a (req # reqs) =
     (case validateCellRequest req of
        Some e \<Rightarrow> (Inl e, a)
      | None \<Rightarrow>
          (case (if req_ID req = ''''
                 then (case nxt a of
                         (Inl e, a') \<Rightarrow> (Inl (Wrapped e ''allocate cell id''), a')
                       | (Inr i, a') \<Rightarrow> (Inr (req\<lparr>req_ID := i\<rparr>), a'))
                 else (Inr req, a)) of
             (Inl e, a') \<Rightarrow> (Inl e, a')
           | (Inr req', a') \<Rightarrow>
               (case identifyRequests nxt a' reqs of
                  (Inl e, a'') \<Rightarrow> (Inl e, a'')
                | (Inr (identified, ids), a'') \<Rightarrow>
                    (Inr (req' # identified, req_ID req' # ids), a''))))"

text \<open>\<open>buildNewCellsLocked\<close>: \<open>batch\<close> is the set of identifiers already used by the batch.\<close>

fun buildNewCells :: "(cell_id \<rightharpoonup> cell) \<Rightarrow> cell_id list \<Rightarrow> cell_request list \<Rightarrow> gerror + cell list" where
  "buildNewCells m batch [] = Inr []"
| "buildNewCells m batch (req # reqs) =
     (if req_ID req = '''' then Inl (Err ''cell id is required'')
      else case validateCellRequest req of
             Some e \<Rightarrow> Inl e
           | None \<Rightarrow>
               if m (req_ID req) \<noteq> None then Inl (Wrapped ErrCellAlreadyExists (req_ID req))
               else if req_ID req \<in> set batch then Inl (Wrapped ErrCellAlreadyExists (req_ID req))
               else (case buildNewCells m (req_ID req # batch) reqs of
                       Inl e \<Rightarrow> Inl e
                     | Inr cs \<Rightarrow> Inr (newCell req # cs)))"

definition buildNewCellsLocked :: "'a memory_store \<Rightarrow> cell_request list \<Rightarrow> gerror + cell list" where
  "buildNewCellsLocked s reqs = buildNewCells (cells s) [] reqs"

text \<open>\<open>s.cells[cell.ID] = cell; s.order = append(s.order, cell.ID)\<close> for every new cell.\<close>

definition insertCell :: "cell \<Rightarrow> 'a memory_store \<Rightarrow> 'a memory_store" where
  "insertCell c s = s\<lparr>cells := (cells s)(ID c \<mapsto> c), ms_order := ms_order s @ [ID c]\<rparr>"

definition insertCells :: "cell list \<Rightarrow> 'a memory_store \<Rightarrow> 'a memory_store" where
  "insertCells cs s = fold insertCell cs s"

definition removeFromOrderLocked :: "cell_id \<Rightarrow> 'a memory_store \<Rightarrow> 'a memory_store" where
  "removeFromOrderLocked i s = s\<lparr>ms_order := remove1 i (ms_order s)\<rparr>"

definition deleteCell :: "cell_id \<Rightarrow> 'a memory_store \<Rightarrow> 'a memory_store" where
  "deleteCell i s = removeFromOrderLocked i (s\<lparr>cells := (cells s)(i := None)\<rparr>)"

section \<open>Application work\<close>

fun runNoopWork :: "'db application_work option list \<Rightarrow> gerror option" where
  "runNoopWork [] = None"
| "runNoopWork (None # ws) = runNoopWork ws"
| "runNoopWork (Some w # ws) =
     (case w NoopApplicationTx of Inl e \<Rightarrow> Some e | Inr _ \<Rightarrow> runNoopWork ws)"

definition applyResultWorkLocked ::
  "'a allocator_next \<Rightarrow> 'a memory_store \<Rightarrow> cell_request list \<Rightarrow> 'db application_work option list \<Rightarrow>
     (gerror + cell list) \<times> 'a memory_store" where
  "applyResultWorkLocked nxt s additions works =
     (case runNoopWork works of
        Some e \<Rightarrow> (Inl e, s)
      | None \<Rightarrow>
          (case identifyRequests nxt (allocator s) additions of
             (Inl e, a') \<Rightarrow> (Inl e, s\<lparr>allocator := a'\<rparr>)
           | (Inr (identified, _), a') \<Rightarrow>
               (let s' = s\<lparr>allocator := a'\<rparr> in (buildNewCellsLocked s' identified, s'))))"

section \<open>The store operations\<close>

definition Add ::
  "'a allocator_next \<Rightarrow> cell_request list \<Rightarrow> 'a memory_store \<Rightarrow>
     (gerror + cell_id list) \<times> 'a memory_store" where
  "Add nxt requests s =
     (case identifyRequests nxt (allocator s) requests of
        (Inl e, a') \<Rightarrow> (Inl e, s\<lparr>allocator := a'\<rparr>)
      | (Inr (identified, ids), a') \<Rightarrow>
          (let s' = s\<lparr>allocator := a'\<rparr> in
           case buildNewCellsLocked s' identified of
             Inl e \<Rightarrow> (Inl e, s')
           | Inr cs \<Rightarrow> (Inr ids, insertCells cs s')))"

fun claimScan ::
  "go_time \<Rightarrow> cell_id list \<Rightarrow> 'a memory_store \<Rightarrow> (gerror + cell option) \<times> 'a memory_store" where
  "claimScan now [] s = (Inr None, s)"
| "claimScan now (i # ids) s =
     (case cells s i of
        None \<Rightarrow> claimScan now ids s
      | Some c \<Rightarrow>
          if State c \<noteq> CellStateReady then claimScan now ids s
          else if (case NotBefore c of None \<Rightarrow> False | Some t \<Rightarrow> time_After t now)
               then claimScan now ids s
          else (let c' = c\<lparr>State := CellStateClaimed\<rparr> in
                (Inr (Some c'), s\<lparr>cells := (cells s)(i \<mapsto> c')\<rparr>)))"

definition ClaimNext ::
  "go_time \<Rightarrow> 'a memory_store \<Rightarrow> (gerror + cell option) \<times> 'a memory_store" where
  "ClaimNext now s = claimScan now (ms_order s) s"

definition CompleteCell ::
  "'a allocator_next \<Rightarrow> cell_id \<Rightarrow> cell_request list \<Rightarrow> 'db application_work option list \<Rightarrow>
     'a memory_store \<Rightarrow> (gerror + unit) \<times> 'a memory_store" where
  "CompleteCell nxt i additions works s =
     (case cells s i of
        None \<Rightarrow> (Inl ErrCellNotFound, s)
      | Some parent \<Rightarrow>
          if State parent \<noteq> CellStateClaimed then (Inl ErrCellNotClaimed, s)
          else (case applyResultWorkLocked nxt s additions works of
                  (Inl e, s') \<Rightarrow> (Inl e, s')
                | (Inr newCells, s') \<Rightarrow> (Inr (), insertCells newCells (deleteCell i s'))))"

text \<open>
  \<open>ApplyResult\<close>; \<open>now\<close> is the instant \<open>time.Now()\<close> returns in the \<open>RetrySequence\<close> case.
\<close>

definition ApplyResult ::
  "'a allocator_next \<Rightarrow> go_time \<Rightarrow> cell \<Rightarrow> 'db result \<Rightarrow> 'a memory_store \<Rightarrow>
     (gerror + unit) \<times> 'a memory_store" where
  "ApplyResult nxt now claimed r s =
     (case cells s (ID claimed) of
        None \<Rightarrow> (Inl ErrCellNotFound, s)
      | Some c \<Rightarrow>
          if State c \<noteq> CellStateClaimed then (Inl ErrCellNotClaimed, s)
          else if CurrentStep c \<noteq> CurrentStep claimed
               then (Inl (Err ''cell current step changed''), s)
          else (case r of
             Complete additions works \<Rightarrow>
               (case applyResultWorkLocked nxt s additions works of
                  (Inl e, s') \<Rightarrow> (Inl e, s')
                | (Inr newCells, s') \<Rightarrow>
                    (let c' = c\<lparr>CurrentStep := CurrentStep c + 1\<rparr> in
                     if CurrentStep c' = int (length (Steps c'))
                     then (Inr (), insertCells newCells (deleteCell (ID c') s'))
                     else (Inr (), insertCells newCells
                             (s'\<lparr>cells := (cells s')(ID c' \<mapsto> c'\<lparr>State := CellStateReady\<rparr>)\<rparr>))))
           | Retry nb additions works \<Rightarrow>
               (case applyResultWorkLocked nxt s additions works of
                  (Inl e, s') \<Rightarrow> (Inl e, s')
                | (Inr newCells, s') \<Rightarrow>
                    (let s'' = insertCells newCells s' in
                     (Inr (), s''\<lparr>cells := (cells s'')
                        (ID c \<mapsto> c\<lparr>State := CellStateReady, NotBefore := nb\<rparr>)\<rparr>)))
           | RetrySequence delay additions works \<Rightarrow>
               if delay < 0 then (Inl (Err ''retry sequence delay must not be negative''), s)
               else (case applyResultWorkLocked nxt s additions works of
                  (Inl e, s') \<Rightarrow> (Inl e, s')
                | (Inr newCells, s') \<Rightarrow>
                    (let s'' = insertCells newCells s' in
                     (Inr (), s''\<lparr>cells := (cells s'')
                        (ID c \<mapsto> c\<lparr>CurrentStep := 0, State := CellStateReady,
                                    NotBefore := Some (now + delay)\<rparr>)\<rparr>)))
           | Kill additions works \<Rightarrow>
               (case applyResultWorkLocked nxt s additions works of
                  (Inl e, s') \<Rightarrow> (Inl e, s')
                | (Inr newCells, s') \<Rightarrow> (Inr (), insertCells newCells (deleteCell (ID c) s')))
           | _ \<Rightarrow> (Inl (Err ''unsupported result''), s)))"

definition RetryCell ::
  "cell_id \<Rightarrow> go_time option \<Rightarrow> 'a memory_store \<Rightarrow> (gerror + unit) \<times> 'a memory_store" where
  "RetryCell i nb s =
     (case cells s i of
        None \<Rightarrow> (Inl ErrCellNotFound, s)
      | Some c \<Rightarrow>
          if State c \<noteq> CellStateClaimed then (Inl ErrCellNotClaimed, s)
          else (Inr (), s\<lparr>cells := (cells s)(i \<mapsto> c\<lparr>State := CellStateReady, NotBefore := nb\<rparr>)\<rparr>))"

definition Recover :: "'a memory_store \<Rightarrow> (gerror + unit) \<times> 'a memory_store" where
  "Recover s = (Inr (), s\<lparr>cells := (\<lambda>i. map_option recoverCell (cells s i))\<rparr>)"

definition ListAll :: "'a memory_store \<Rightarrow> gerror + cell list" where
  "ListAll s = Inr (List.map_filter (cells s) (ms_order s))"

definition ListActive :: "'a memory_store \<Rightarrow> gerror + cell list" where
  "ListActive s = ListAll s"

definition GetCell :: "cell_id \<Rightarrow> 'a memory_store \<Rightarrow> gerror + cell" where
  "GetCell i s = (case cells s i of None \<Rightarrow> Inl ErrCellNotFound | Some c \<Rightarrow> Inr c)"

definition ForceUpdate :: "cell \<Rightarrow> 'a memory_store \<Rightarrow> (gerror + unit) \<times> 'a memory_store" where
  "ForceUpdate c s =
     (case validateCellForPersistence c of
        Some e \<Rightarrow> (Inl e, s)
      | None \<Rightarrow>
          (let s' = (if cells s (ID c) = None then s\<lparr>ms_order := ms_order s @ [ID c]\<rparr> else s)
           in (Inr (), s'\<lparr>cells := (cells s')(ID c \<mapsto> c)\<rparr>)))"

definition ForceDelete :: "cell_id \<Rightarrow> 'a memory_store \<Rightarrow> (gerror + unit) \<times> 'a memory_store" where
  "ForceDelete i s =
     (if cells s i = None then (Inl ErrCellNotFound, s) else (Inr (), deleteCell i s))"

section \<open>The invariant\<close>

text \<open>
  The order slice lists exactly the stored identifiers, once each, and every stored cell is runnable
  and filed under its own identifier.
\<close>

definition mem_inv :: "'a memory_store \<Rightarrow> bool" where
  "mem_inv s \<longleftrightarrow> distinct (ms_order s) \<and> set (ms_order s) = dom (cells s) \<and> wf_contents (cells s)"

lemma mem_inv_New: "mem_inv (NewMemoryStore a)"
  by (simp add: mem_inv_def NewMemoryStore_def wf_contents_def)

lemma mem_inv_allocator [simp]: "mem_inv (s\<lparr>allocator := a\<rparr>) = mem_inv s"
  by (simp add: mem_inv_def)

lemma mem_inv_cell: "mem_inv s \<Longrightarrow> cells s i = Some c \<Longrightarrow> ID c = i \<and> runnable_cell c"
  by (auto simp: mem_inv_def dest: wf_contentsD)

lemma mem_inv_update:
  "mem_inv s \<Longrightarrow> cells s i = Some c0 \<Longrightarrow> ID c = i \<Longrightarrow> runnable_cell c \<Longrightarrow>
   mem_inv (s\<lparr>cells := (cells s)(i \<mapsto> c)\<rparr>)"
  by (auto simp: mem_inv_def intro!: wf_contents_upd)

lemma deleteCell_sel [simp]:
  "cells (deleteCell i s) = (cells s)(i := None)"
  "ms_order (deleteCell i s) = remove1 i (ms_order s)"
  "allocator (deleteCell i s) = allocator s"
  by (simp_all add: deleteCell_def removeFromOrderLocked_def)

lemma mem_inv_delete: "mem_inv s \<Longrightarrow> mem_inv (deleteCell i s)"
  by (auto simp: mem_inv_def intro!: wf_contents_del)

section \<open>Requests become fresh cells\<close>

lemma identifyRequests_Inr:
  "identifyRequests nxt a reqs = (Inr (identified, ids), a') \<Longrightarrow>
   ids = map req_ID identified \<and> length identified = length reqs"
  by (induction nxt a reqs arbitrary: identified ids a' rule: identifyRequests.induct)
    (auto split: option.splits prod.splits sum.splits if_splits)

text \<open>An explicit identifier is kept; only empty ones are replaced by the allocator's.\<close>

lemma identifyRequests_explicit:
  "(\<And>r. r \<in> set reqs \<Longrightarrow> req_ID r \<noteq> '''' \<and> wf_steps (req_Steps r)) \<Longrightarrow>
   identifyRequests nxt a reqs = (Inr (reqs, map req_ID reqs), a)"
  by (induction reqs) (auto split: option.splits simp flip: validateCellRequest_None)

lemma buildNewCells_Inr:
  "buildNewCells m batch reqs = Inr cs \<longleftrightarrow>
   cs = map newCell reqs \<and> distinct (map req_ID reqs) \<and>
   (\<forall>r \<in> set reqs. req_ID r \<noteq> '''' \<and> wf_steps (req_Steps r) \<and> m (req_ID r) = None \<and>
      req_ID r \<notin> set batch)"
proof (induction reqs arbitrary: batch cs)
  case (Cons r reqs)
  note IH = Cons.IH [of "req_ID r # batch"]
  show ?case
  proof (cases "buildNewCells m (req_ID r # batch) reqs")
    case (Inl e)
    with IH [of "map newCell reqs"] have
      "\<not> (distinct (map req_ID reqs) \<and> (\<forall>q \<in> set reqs. req_ID q \<noteq> [] \<and> wf_steps (req_Steps q) \<and>
          m (req_ID q) = None \<and> req_ID q \<notin> set (req_ID r # batch)))"
      by simp
    with Inl show ?thesis by (auto split: option.splits intro: rev_image_eqI)
  next
    case (Inr cs')
    with IH [of cs'] show ?thesis
      by (auto split: option.splits simp flip: validateCellRequest_None)
  qed
qed auto

definition cells_map :: "cell list \<Rightarrow> cell_id \<rightharpoonup> cell" where
  "cells_map cs = map_of (map (\<lambda>c. (ID c, c)) cs)"

lemma cells_map_simps [simp]:
  "cells_map [] = Map.empty" "cells_map (c # cs) = (cells_map cs)(ID c \<mapsto> c)"
  by (simp_all add: cells_map_def)

lemma dom_cells_map [simp]: "dom (cells_map cs) = ID ` set cs"
  by (simp add: cells_map_def dom_map_of_conv_image_fst image_image)

lemma cells_map_SomeD: "cells_map cs i = Some c \<Longrightarrow> c \<in> set cs \<and> ID c = i"
  by (induction cs) (auto split: if_splits)

lemma insertCells_order [simp]: "ms_order (insertCells cs s) = ms_order s @ map ID cs"
  by (induction cs arbitrary: s) (auto simp: insertCells_def insertCell_def)

lemma insertCells_allocator [simp]: "allocator (insertCells cs s) = allocator s"
  by (induction cs arbitrary: s) (auto simp: insertCells_def insertCell_def)

lemma insertCells_cells:
  "distinct (map ID cs) \<Longrightarrow> cells (insertCells cs s) = cells s ++ cells_map cs"
proof (induction cs arbitrary: s)
  case (Cons c cs)
  then have "cells (insertCells cs (insertCell c s)) = (cells s)(ID c \<mapsto> c) ++ cells_map cs"
    by (simp add: insertCell_def)
  also have "\<dots> = (cells s ++ cells_map cs)(ID c \<mapsto> c)"
    using Cons.prems by (intro map_add_upd_left) auto
  finally show ?case by (simp add: insertCells_def map_add_upd del: fun_upd_apply)
qed (simp add: insertCells_def)

lemma buildNewCells_fresh:
  assumes "buildNewCells m [] reqs = Inr cs"
  shows "fresh_cells m (cells_map cs)" "distinct (map ID cs)" "map ID cs = map req_ID reqs"
    "card (dom (cells_map cs)) = length reqs"
proof -
  from assms have cs: "cs = map newCell reqs" and d: "distinct (map req_ID reqs)"
    and r: "\<And>r. r \<in> set reqs \<Longrightarrow> req_ID r \<noteq> '''' \<and> wf_steps (req_Steps r) \<and> m (req_ID r) = None"
    by (auto simp: buildNewCells_Inr)
  show ids: "map ID cs = map req_ID reqs" by (simp add: cs)
  then show "distinct (map ID cs)" using d by simp
  then have "card (set (map ID cs)) = length (map ID cs)" by (rule distinct_card)
  then show "card (dom (cells_map cs)) = length reqs" by (simp add: cs image_image)
  show "fresh_cells m (cells_map cs)"
    unfolding fresh_cells_def
    using r by (auto simp: cs runnable_newCell dest!: cells_map_SomeD)
qed

lemma mem_inv_insert:
  assumes "mem_inv s" "fresh_cells m (cells_map cs)" "dom (cells s) \<subseteq> dom m" "distinct (map ID cs)"
  shows "mem_inv (insertCells cs s)"
proof -
  have "set (map ID cs) \<inter> set (ms_order s) = {}"
    using assms by (auto simp: mem_inv_def fresh_cells_def)
  then show ?thesis
    using assms by (auto simp: mem_inv_def insertCells_cells intro: wf_contents_add)
qed

section \<open>Adding\<close>

lemma Add_cases:
  assumes "Add nxt reqs s = (x, s')"
  obtains (Inl) e a where "x = Inl e" "s' = s\<lparr>allocator := a\<rparr>"
  | (Inr) identified a cs where "x = Inr (map req_ID identified)"
      "length identified = length reqs"
      "buildNewCells (cells s) [] identified = Inr cs"
      "s' = insertCells cs (s\<lparr>allocator := a\<rparr>)"
proof -
  obtain y a where y: "identifyRequests nxt (allocator s) reqs = (y, a)" by fastforce
  show thesis
  proof (cases y)
    case (Inl e)
    with y assms Inl show ?thesis by (auto simp: Add_def intro: that(1))
  next
    case (Inr p)
    then obtain identified ids where p: "y = Inr (identified, ids)" by (cases p) auto
    with y have ids: "ids = map req_ID identified" "length identified = length reqs"
      by (auto dest: identifyRequests_Inr)
    show ?thesis
    proof (cases "buildNewCells (cells s) [] identified")
      case (Inl e)
      with y p assms show ?thesis
        by (auto simp: Add_def buildNewCellsLocked_def Let_def intro: that(1))
    next
      case (Inr cs)
      with y p ids assms show ?thesis
        by (auto simp: Add_def buildNewCellsLocked_def Let_def intro: that(2))
    qed
  qed
qed

lemma mem_inv_Add:
  assumes "mem_inv s" "Add nxt reqs s = (x, s')"
  shows "mem_inv s'"
  using assms(2)
proof (cases rule: Add_cases)
  case Inl
  with assms(1) show ?thesis by simp
next
  case (Inr identified a cs)
  note fr = buildNewCells_fresh [OF Inr(3)]
  from assms(1) fr(1,2) show ?thesis
    unfolding Inr(4) by (intro mem_inv_insert [where m = "cells s"]) auto
qed

lemma Add_Inr:
  assumes "Add nxt reqs s = (Inr ids, s')"
  shows "\<exists>news. fresh_cells (cells s) news \<and> dom news = set ids \<and> distinct ids \<and>
     length ids = length reqs \<and> cells s' = cells s ++ news"
  using assms
proof (cases rule: Add_cases)
  case (Inr identified a cs)
  note fr = buildNewCells_fresh [OF Inr(3)]
  have ids: "ids = map ID cs" using Inr fr(3) by simp
  then have len: "length cs = length reqs" using Inr(1,2) by (metis length_map sum.inject(2))
  show ?thesis
    by (intro exI [of _ "cells_map cs"]) (simp add: ids len fr(1,2) Inr(4) insertCells_cells)
qed simp

lemma Add_Inl: "Add nxt reqs s = (Inl e, s') \<Longrightarrow> cells s' = cells s \<and> ms_order s' = ms_order s"
  by (erule Add_cases) auto

section \<open>Claiming\<close>

lemma claimScan_find:
  "claimScan now ids s =
     (case find (\<lambda>i. case cells s i of None \<Rightarrow> False | Some c \<Rightarrow> claimable now c) ids of
        None \<Rightarrow> (Inr None, s)
      | Some i \<Rightarrow> (let c' = (the (cells s i))\<lparr>State := CellStateClaimed\<rparr> in
                  (Inr (Some c'), s\<lparr>cells := (cells s)(i \<mapsto> c')\<rparr>)))"
proof (induction ids)
  case (Cons i ids)
  show ?case
  proof (cases "cells s i")
    case None
    with Cons show ?thesis by simp
  next
    case (Some c)
    have "claimable now c \<longleftrightarrow> State c = CellStateReady \<and>
        \<not> (case NotBefore c of None \<Rightarrow> False | Some t \<Rightarrow> time_After t now)"
      by (auto simp: claimable_def time_After_def split: option.splits)
    with Some Cons show ?thesis by (simp del: fun_upd_apply)
  qed
qed simp

lemma ClaimNext_Some:
  assumes "mem_inv s" "ClaimNext now s = (Inr (Some c), s')"
  obtains c0 where "cells s (ID c) = Some c0" "claimable now c0" "c = c0\<lparr>State := CellStateClaimed\<rparr>"
    "s' = s\<lparr>cells := (cells s)(ID c \<mapsto> c)\<rparr>"
proof -
  let ?P = "\<lambda>i. case cells s i of None \<Rightarrow> False | Some c \<Rightarrow> claimable now c"
  from assms(2) obtain i where i: "find ?P (ms_order s) = Some i"
    and c: "c = (the (cells s i))\<lparr>State := CellStateClaimed\<rparr>" "s' = s\<lparr>cells := (cells s)(i \<mapsto> c)\<rparr>"
    by (auto simp: ClaimNext_def claimScan_find Let_def split: option.splits)
  from i have "?P i" by (auto simp: find_Some_iff)
  then obtain c0 where c0: "cells s i = Some c0" "claimable now c0" by (auto split: option.splits)
  with assms(1) have "ID c0 = i" by (auto dest: mem_inv_cell)
  with c c0 show thesis by (intro that [of c0]) auto
qed

lemma ClaimNext_None:
  assumes "mem_inv s" "ClaimNext now s = (Inr None, s')"
  shows "s' = s \<and> (\<forall>i c. cells s i = Some c \<longrightarrow> \<not> claimable now c)"
proof -
  from assms(2) have s': "s' = s"
    and n: "find (\<lambda>i. case cells s i of None \<Rightarrow> False | Some c \<Rightarrow> claimable now c) (ms_order s) = None"
    by (auto simp: ClaimNext_def claimScan_find Let_def split: option.splits)
  have "\<not> claimable now c" if "cells s i = Some c" for i c
  proof -
    from that assms(1) have "i \<in> set (ms_order s)" by (auto simp: mem_inv_def)
    with n that show ?thesis by (auto simp: find_None_iff)
  qed
  with s' show ?thesis by blast
qed

lemma ClaimNext_not_Inl: "ClaimNext now s \<noteq> (Inl e, s')"
  by (auto simp: ClaimNext_def claimScan_find Let_def split: option.splits)

lemma mem_inv_ClaimNext:
  assumes "mem_inv s" "ClaimNext now s = (x, s')"
  shows "mem_inv s'"
proof (cases x)
  case (Inl e)
  with assms ClaimNext_not_Inl show ?thesis by auto
next
  case (Inr y)
  show ?thesis
  proof (cases y)
    case None
    with Inr assms ClaimNext_None show ?thesis by auto
  next
    case (Some c)
    with Inr assms(2) have "ClaimNext now s = (Inr (Some c), s')" by simp
    from ClaimNext_Some [OF assms(1) this] obtain c0 where
      "cells s (ID c) = Some c0" "c = c0\<lparr>State := CellStateClaimed\<rparr>"
      "s' = s\<lparr>cells := (cells s)(ID c \<mapsto> c)\<rparr>" by blast
    with assms(1) show ?thesis
      by (auto intro!: mem_inv_update runnable_set_state dest: mem_inv_cell)
  qed
qed

section \<open>Applying results\<close>

definition setCell :: "cell_id \<Rightarrow> cell option \<Rightarrow> 'a memory_store \<Rightarrow> 'a memory_store" where
  "setCell i c s = (case c of None \<Rightarrow> deleteCell i s | Some c' \<Rightarrow> s\<lparr>cells := (cells s)(i \<mapsto> c')\<rparr>)"

lemma setCell_sel [simp]:
  "cells (setCell i c s) = (cells s)(i := c)"
  "ms_order (setCell i c s) = (if c = None then remove1 i (ms_order s) else ms_order s)"
  by (auto simp: setCell_def split: option.splits)

lemma insertCells_update_commute:
  "i \<notin> ID ` set cs \<Longrightarrow>
   (insertCells cs s)\<lparr>cells := (cells (insertCells cs s))(i \<mapsto> c)\<rparr> =
   insertCells cs (s\<lparr>cells := (cells s)(i \<mapsto> c)\<rparr>)"
proof (induction cs arbitrary: s)
  case (Cons d cs)
  then have "insertCell d (s\<lparr>cells := (cells s)(i \<mapsto> c)\<rparr>) =
      (insertCell d s)\<lparr>cells := (cells (insertCell d s))(i \<mapsto> c)\<rparr>"
    by (auto simp: insertCell_def fun_upd_twist)
  with Cons.IH [of "insertCell d s"] Cons.prems show ?case
    by (simp add: insertCells_def del: fun_upd_apply)
qed (simp add: insertCells_def)

lemma applyResultWork_cases:
  assumes "applyResultWorkLocked nxt s additions works = (x, s')"
  obtains (Inl) e a where "x = Inl e" "s' = s\<lparr>allocator := a\<rparr>"
  | (Inr) cs a where "x = Inr cs" "s' = s\<lparr>allocator := a\<rparr>" "runNoopWork works = None"
      "fresh_cells (cells s) (cells_map cs)" "distinct (map ID cs)"
      "length additions = card (dom (cells_map cs))"
proof (cases "runNoopWork works")
  case (Some e)
  with assms show ?thesis by (auto simp: applyResultWorkLocked_def intro: that(1) [of e "allocator s"])
next
  case None
  obtain y a where y: "identifyRequests nxt (allocator s) additions = (y, a)" by fastforce
  show ?thesis
  proof (cases y)
    case (Inl e)
    with None y assms show ?thesis by (auto simp: applyResultWorkLocked_def intro: that(1))
  next
    case (Inr p)
    then obtain identified ids where p: "y = Inr (identified, ids)" by (cases p) auto
    with None y assms have x: "x = buildNewCells (cells s) [] identified" "s' = s\<lparr>allocator := a\<rparr>"
      by (auto simp: applyResultWorkLocked_def buildNewCellsLocked_def Let_def)
    show ?thesis
    proof (cases x)
      case Inl': (Inl e)
      show ?thesis using that(1) Inl' x by blast
    next
      case Inr': (Inr cs)
      with x have b: "buildNewCells (cells s) [] identified = Inr cs" by simp
      from y p have "length identified = length additions" by (auto dest: identifyRequests_Inr)
      with buildNewCells_fresh [OF b] Inr' x None show ?thesis by (intro that(2)) auto
    qed
  qed
qed

lemma ApplyResult_Inl:
  "ApplyResult nxt now c r s = (Inl e, s') \<Longrightarrow> cells s' = cells s \<and> ms_order s' = ms_order s"
  unfolding ApplyResult_def
  by (auto split: option.splits if_splits result.splits prod.splits sum.splits
      simp: Let_def elim!: applyResultWork_cases)

lemma ApplyResult_Inr:
  assumes "mem_inv s" "ApplyResult nxt now claimed r s = (Inr (), s')"
  obtains c c' cs a where
    "cells s (ID claimed) = Some c" "State c = CellStateClaimed" "CurrentStep c = CurrentStep claimed"
    "after_result now c r = Some c'" "runNoopWork (result_works r) = None"
    "fresh_cells (cells s) (cells_map cs)" "distinct (map ID cs)"
    "length (result_additions r) = card (dom (cells_map cs))"
    "s' = insertCells cs (setCell (ID claimed) c' (s\<lparr>allocator := a\<rparr>))"
    "applyResultWorkLocked nxt s (result_additions r) (result_works r) = (Inr cs, s\<lparr>allocator := a\<rparr>)"
proof -
  from assms(2) obtain c where c: "cells s (ID claimed) = Some c" "State c = CellStateClaimed"
    "CurrentStep c = CurrentStep claimed"
    by (auto simp: ApplyResult_def split: option.splits if_splits)
  with assms(1) have id: "ID c = ID claimed" by (auto dest: mem_inv_cell)
  obtain y s1 where w: "applyResultWorkLocked nxt s (result_additions r) (result_works r) = (y, s1)"
    by fastforce
  from w show thesis
  proof (cases rule: applyResultWork_cases)
    case (Inl e a)
    with assms(2) c w have False
      by (cases r) (auto simp: ApplyResult_def split: if_splits)
    then show ?thesis ..
  next
    case (Inr cs a)
    from c have fr: "ID claimed \<notin> ID ` set cs"
      using Inr(4) by (auto simp: fresh_cells_def)
    note comm = insertCells_update_commute [OF fr, of "s\<lparr>allocator := a\<rparr>"]
    have eq: "ApplyResult nxt now claimed r s =
        (Inr (), insertCells cs (setCell (ID claimed) c' (s\<lparr>allocator := a\<rparr>)))"
      if "after_result now c r = Some c'" for c'
      using that c w Inr(1,2) id comm
      by (cases r) (auto simp: ApplyResult_def Let_def setCell_def simp del: fun_upd_apply
          split: if_splits)
    have "after_result now c r \<noteq> None"
    proof
      assume "after_result now c r = None"
      with assms(2) c show False by (cases r) (auto simp: ApplyResult_def split: if_splits)
    qed
    then obtain c' where c': "after_result now c r = Some c'" by blast
    from eq [OF c'] assms(2) have "s' = insertCells cs (setCell (ID claimed) c' (s\<lparr>allocator := a\<rparr>))"
      by simp
    then show ?thesis using w Inr(1,2) by (intro that [OF c c' Inr(3-6)]) simp_all
  qed
qed

lemma mem_inv_setCell:
  assumes "mem_inv s" "cells s i = Some c" "after_result now c r = Some c'"
  shows "mem_inv (setCell i c' s)"
proof (cases c')
  case None
  with assms(1) show ?thesis by (simp add: setCell_def mem_inv_delete)
next
  case (Some d)
  with assms have "runnable_cell d" "ID d = i"
    by (auto dest: mem_inv_cell after_result_runnable)
  with assms Some show ?thesis by (auto simp: setCell_def intro: mem_inv_update)
qed

lemma mem_inv_ApplyResult:
  assumes "mem_inv s" "ApplyResult nxt now claimed r s = (x, s')"
  shows "mem_inv s'"
proof (cases x)
  case (Inl e)
  with assms ApplyResult_Inl [of nxt now claimed r s e s'] show ?thesis by (simp add: mem_inv_def)
next
  case (Inr u)
  with assms(2) have "ApplyResult nxt now claimed r s = (Inr (), s')" by simp
  from ApplyResult_Inr [OF assms(1) this] obtain c c' cs a where
    c: "cells s (ID claimed) = Some c" "after_result now c r = Some c'"
    and cs: "fresh_cells (cells s) (cells_map cs)" "distinct (map ID cs)"
    and s': "s' = insertCells cs (setCell (ID claimed) c' (s\<lparr>allocator := a\<rparr>))" by metis
  have "mem_inv (setCell (ID claimed) c' (s\<lparr>allocator := a\<rparr>))"
    using assms(1) c by (intro mem_inv_setCell) auto
  then show ?thesis
    unfolding s' using c cs by (intro mem_inv_insert [where m = "cells s"]) auto
qed

lemma ApplyResult_applies:
  assumes "mem_inv s" "ApplyResult nxt now claimed r s = (Inr (), s')"
  shows "applies now claimed r (cells s) (cells s')"
proof -
  from ApplyResult_Inr [OF assms] obtain c c' cs a where
    "cells s (ID claimed) = Some c" "State c = CellStateClaimed" "CurrentStep c = CurrentStep claimed"
    "after_result now c r = Some c'" "fresh_cells (cells s) (cells_map cs)" "distinct (map ID cs)"
    "length (result_additions r) = card (dom (cells_map cs))"
    "s' = insertCells cs (setCell (ID claimed) c' (s\<lparr>allocator := a\<rparr>))" by metis
  then show ?thesis
    unfolding applies_def by (auto simp: insertCells_cells simp del: fun_upd_apply)
qed

section \<open>The one-step operations\<close>

text \<open>
  \<open>Complete\<close> and \<open>Retry\<close> predate \<open>ApplyResult\<close>; on a stored cell they are the \<open>Kill\<close> and the plain
  \<open>Retry\<close> result.
\<close>

lemma CompleteCell_eq_Kill:
  assumes "mem_inv s" "cells s i = Some c"
  shows "CompleteCell nxt i adds ws s = ApplyResult nxt now c (Kill adds ws) s"
proof -
  from assms have "ID c = i" by (auto dest: mem_inv_cell)
  with assms(2) show ?thesis
    by (auto simp: CompleteCell_def ApplyResult_def split: prod.splits sum.splits)
qed

lemma RetryCell_eq_Retry:
  fixes works :: "'db application_work option list"
  assumes "mem_inv s" "cells s i = Some c" "works = []"
  shows "RetryCell i nb s = ApplyResult nxt now c (Retry nb [] works) s"
proof -
  from assms have "ID c = i" by (auto dest: mem_inv_cell)
  with assms(2,3) show ?thesis
    by (auto simp: RetryCell_def ApplyResult_def applyResultWorkLocked_def buildNewCellsLocked_def
        insertCells_def Let_def)
qed

lemma mem_inv_CompleteCell:
  fixes ws :: "'db application_work option list"
  assumes "mem_inv s" "CompleteCell nxt i adds ws s = (x, s')"
  shows "mem_inv s'"
proof (cases "cells s i")
  case None
  with assms show ?thesis by (simp add: CompleteCell_def)
next
  case (Some c)
  from CompleteCell_eq_Kill [OF assms(1) this] assms show ?thesis
    by (metis mem_inv_ApplyResult)
qed

lemma mem_inv_RetryCell:
  assumes "mem_inv s" "RetryCell i nb s = (x, s')"
  shows "mem_inv s'"
proof (cases "cells s i")
  case None
  with assms show ?thesis by (simp add: RetryCell_def)
next
  case (Some c)
  from assms(1) Some have "ID c = i" "runnable_cell c" by (auto dest: mem_inv_cell)
  then have "runnable_cell (c\<lparr>State := CellStateReady, NotBefore := nb\<rparr>)"
    by (auto simp: runnable_cell_def wf_cell_def)
  with assms Some \<open>ID c = i\<close> show ?thesis
    by (auto simp: RetryCell_def intro: mem_inv_update split: if_splits)
qed

lemma recoverCell_sel [simp]:
  "ID (recoverCell c) = ID c" "Steps (recoverCell c) = Steps c"
  "CurrentStep (recoverCell c) = CurrentStep c" "NotBefore (recoverCell c) = NotBefore c"
  by (simp_all add: recoverCell_def)

lemma recoverCell_runnable: "runnable_cell c \<Longrightarrow> runnable_cell (recoverCell c)"
  by (simp add: recoverCell_def runnable_set_state)

lemma mem_inv_Recover: "mem_inv s \<Longrightarrow> Recover s = (x, s') \<Longrightarrow> mem_inv s'"
  by (auto simp: Recover_def mem_inv_def wf_contents_def recoverCell_runnable)

lemma mem_inv_ForceDelete: "mem_inv s \<Longrightarrow> ForceDelete i s = (x, s') \<Longrightarrow> mem_inv s'"
  by (auto simp: ForceDelete_def mem_inv_delete split: if_splits)

text \<open>\<open>ForceUpdate\<close> keeps the invariant exactly when the cursor it writes points at a step.\<close>

lemma mem_inv_ForceUpdate:
  assumes "mem_inv s" "ForceUpdate c s = (Inr (), s')"
  shows "mem_inv s' \<longleftrightarrow> CurrentStep c < int (length (Steps c))"
proof -
  from assms(2) have wf: "wf_cell c"
    by (auto simp: ForceUpdate_def validateCellForPersistence_None [symmetric] split: option.splits)
  have s': "cells s' = (cells s)(ID c \<mapsto> c)"
    "ms_order s' = (if cells s (ID c) = None then ms_order s @ [ID c] else ms_order s)"
    using assms(2) by (auto simp: ForceUpdate_def Let_def split: option.splits)
  have "distinct (ms_order s')" "set (ms_order s') = dom (cells s')"
    using assms(1) by (auto simp: s' mem_inv_def)
  moreover have "wf_contents (cells s') \<longleftrightarrow> runnable_cell c"
    using assms(1) by (auto simp: s' mem_inv_def wf_contents_def)
  ultimately show ?thesis
    using wf by (auto simp: mem_inv_def runnable_cell_def)
qed

section \<open>The memory store meets the contract\<close>

lemma ListActive_cells:
  assumes "mem_inv s" "ListActive s = Inr cs"
  shows "set cs = ran (cells s) \<and> distinct (map ID cs)"
proof -
  from assms(2) have cs: "cs = List.map_filter (cells s) (ms_order s)"
    by (simp add: ListActive_def ListAll_def)
  have some: "\<exists>c. cells s i = Some c \<and> ID c = i" if "i \<in> set (ms_order s)" for i
    using that assms(1) by (auto simp: mem_inv_def dest: wf_contentsD)
  have "map ID (List.map_filter (cells s) xs) = xs" if "set xs \<subseteq> set (ms_order s)" for xs
    using that by (induction xs) (use some in \<open>fastforce simp: map_filter_simps\<close>)+
  then have ids: "map ID cs = ms_order s" by (simp add: cs)
  have "set cs = ran (cells s)"
    using assms(1) by (auto simp: cs mem_inv_def ran_def set_map_filter)
  with ids assms(1) show ?thesis by (simp add: mem_inv_def)
qed

interpretation mem: listing_store mem_inv cells ClaimNext "ApplyResult nxt" "\<lambda>now. Add nxt" Recover
    ListActive
  for nxt :: "'a allocator_next"
proof unfold_locales
  fix s s' :: "'a memory_store" and now
  show "wf_contents (cells s)" if "mem_inv s" using that by (simp add: mem_inv_def)
  show "mem_inv s'" if "mem_inv s" "ClaimNext now s = (x, s')" for x
    using that by (rule mem_inv_ClaimNext)
  show "(\<exists>c0. cells s (ID c) = Some c0 \<and> claimable now c0 \<and> c = c0\<lparr>State := CellStateClaimed\<rparr>) \<and>
      cells s' = (cells s)(ID c \<mapsto> c)" if "mem_inv s" "ClaimNext now s = (Inr (Some c), s')" for c
    using that by (elim ClaimNext_Some) auto
  show "cells s' = cells s \<and> (\<forall>i c. cells s i = Some c \<longrightarrow> \<not> claimable now c)"
    if "mem_inv s" "ClaimNext now s = (Inr None, s')"
    using ClaimNext_None [OF that] by simp
  show "cells s' = cells s" if "ClaimNext now s = (Inl e, s')" for e
    using that ClaimNext_not_Inl by blast
  show "mem_inv s'" if "mem_inv s" "ApplyResult nxt now c r s = (x, s')" for c x and r :: "'db result"
    using that by (rule mem_inv_ApplyResult)
  show "applies now c r (cells s) (cells s')"
    if "mem_inv s" "ApplyResult nxt now c r s = (Inr (), s')" for c and r :: "'db result"
    using that by (rule ApplyResult_applies)
  show "cells s' = cells s" if "ApplyResult nxt now c r s = (Inl e, s')" for c e and r :: "'db result"
    using ApplyResult_Inl [OF that] by simp
  show "mem_inv s'" if "mem_inv s" "Add nxt reqs s = (x, s')" for reqs x
    using that by (rule mem_inv_Add)
  show "\<exists>news. fresh_cells (cells s) news \<and> dom news = set ids \<and> distinct ids \<and>
      length ids = length reqs \<and> cells s' = cells s ++ news"
    if "Add nxt reqs s = (Inr ids, s')" for reqs ids
    using that by (rule Add_Inr)
  show "cells s' = cells s" if "Add nxt reqs s = (Inl e, s')" for reqs e
    using Add_Inl [OF that] by simp
  show "mem_inv s'" if "mem_inv s" "Recover s = (x, s')" for x
    using that by (rule mem_inv_Recover)
  show "cells s' = (\<lambda>i. map_option recoverCell (cells s i))" if "Recover s = (Inr (), s')"
    using that by (auto simp: Recover_def)
  show "set cs = ran (cells s) \<and> distinct (map ID cs)" if "mem_inv s" "ListActive s = Inr cs" for cs
    using that by (rule ListActive_cells)
qed

section \<open>Sequential identifiers\<close>

lemma sequential_ids_eq:
  "sequential_ids n a = map (\<lambda>k. sa_prefix a @ itoa (unat (sa_next a + of_nat k))) [0..<n]"
proof (induction n arbitrary: a)
  case (Suc n)
  have "map (\<lambda>k. sa_prefix a @ itoa (unat (sa_next a + of_nat k))) [0..<Suc n] =
    (sa_prefix a @ itoa (unat (sa_next a))) #
      map (\<lambda>k. sa_prefix a @ itoa (unat (sa_next a + 1 + of_nat k))) [0..<n]"
    by (subst upt_conv_Cons, simp) (simp add: map_Suc_upt [symmetric] add.assoc del: upt_Suc)
  with Suc show ?case by (simp add: SequentialAllocator_Next_def del: upt_Suc)
qed simp

lemma distinct_sequential_ids: "n \<le> 2 ^ 64 \<Longrightarrow> distinct (sequential_ids n a)"
proof -
  assume n: "n \<le> 2 ^ 64"
  have "inj_on (\<lambda>k. sa_prefix a @ itoa (unat (sa_next a + of_nat k))) {0..<n}"
  proof (rule inj_onI)
    fix j k assume jk: "j \<in> {0..<n}" "k \<in> {0..<n}"
      and "sa_prefix a @ itoa (unat (sa_next a + of_nat j)) = sa_prefix a @ itoa (unat (sa_next a + of_nat k))"
    then have "unat (sa_next a + of_nat j) = unat (sa_next a + of_nat k)" by simp
    then have "sa_next a + of_nat j = sa_next a + of_nat k" by (rule unsigned_word_eqI)
    then have "(of_nat j :: 64 word) = of_nat k" by simp
    then have "unat (of_nat j :: 64 word) = unat (of_nat k :: 64 word)" by simp
    with jk n show "j = k" by (simp add: unat_of_nat)
  qed
  then show ?thesis by (simp add: sequential_ids_eq distinct_map)
qed

section \<open>Properties of the memory store\<close>

text \<open>The lifecycle operations, as a sequence of calls on one store.\<close>

datatype (dead 'db) store_call =
    CallAdd "cell_request list"
  | CallClaimNext go_time
  | CallApplyResult go_time cell "'db result"
  | CallComplete cell_id "cell_request list" "'db application_work option list"
  | CallRetry cell_id "go_time option"
  | CallRecover
  | CallForceDelete cell_id

fun mem_call :: "'a allocator_next \<Rightarrow> 'db store_call \<Rightarrow> 'a memory_store \<Rightarrow> 'a memory_store" where
  "mem_call nxt (CallAdd reqs) s = snd (Add nxt reqs s)"
| "mem_call nxt (CallClaimNext now) s = snd (ClaimNext now s)"
| "mem_call nxt (CallApplyResult now c r) s = snd (ApplyResult nxt now c r s)"
| "mem_call nxt (CallComplete i adds ws) s = snd (CompleteCell nxt i adds ws s)"
| "mem_call nxt (CallRetry i nb) s = snd (RetryCell i nb s)"
| "mem_call nxt CallRecover s = snd (Recover s)"
| "mem_call nxt (CallForceDelete i) s = snd (ForceDelete i s)"

lemma mem_inv_call: "mem_inv s \<Longrightarrow> mem_inv (mem_call nxt c s)"
  by (cases c)
    (auto intro: mem_inv_Add mem_inv_ClaimNext mem_inv_ApplyResult mem_inv_CompleteCell
      mem_inv_RetryCell mem_inv_Recover mem_inv_ForceDelete intro!: prod.collapse [symmetric])

lemma mem_inv_calls: "mem_inv s \<Longrightarrow> mem_inv (fold (mem_call nxt) cs s)"
  by (induction cs arbitrary: s) (simp_all add: mem_inv_call)

text \<open>
  After any sequence of lifecycle calls, successful or failing and in any order, a memory store
  created by \<open>NewMemoryStore\<close> lists exactly its stored cells in its order slice, each once, and every
  stored cell is filed under its identifier, has a name for each step, a cursor pointing at one of
  its steps and one of the two states.
\<close>

theorem memory_store_invariant:
  "distinct (ms_order (fold (mem_call nxt) cs (NewMemoryStore a))) \<and>
   set (ms_order (fold (mem_call nxt) cs (NewMemoryStore a))) =
     dom (cells (fold (mem_call nxt) cs (NewMemoryStore a))) \<and>
   wf_contents (cells (fold (mem_call nxt) cs (NewMemoryStore a)))"
proof -
  have "mem_inv (fold (mem_call nxt) cs (NewMemoryStore a))" by (rule mem_inv_calls [OF mem_inv_New])
  then show ?thesis by (simp add: mem_inv_def)
qed

text \<open>
  \<open>ClaimNext\<close> is first in, first out among the runnable cells: it returns the cell that comes first
  in insertion order among those that are READY and due, marked CLAIMED, and changes nothing else.
\<close>

theorem claim_next_fifo:
  assumes "mem_inv s" "ClaimNext now s = (Inr (Some c), s')"
  shows "\<exists>c0 earlier later. ms_order s = earlier @ ID c # later \<and> cells s (ID c) = Some c0 \<and>
    claimable now c0 \<and> (\<forall>i \<in> set earlier. \<forall>d. cells s i = Some d \<longrightarrow> \<not> claimable now d) \<and>
    c = c0\<lparr>State := CellStateClaimed\<rparr> \<and> s' = s\<lparr>cells := (cells s)(ID c \<mapsto> c)\<rparr>"
proof -
  let ?P = "\<lambda>i. case cells s i of None \<Rightarrow> False | Some c \<Rightarrow> claimable now c"
  from ClaimNext_Some [OF assms] obtain c0 where c0: "cells s (ID c) = Some c0" "claimable now c0"
    "c = c0\<lparr>State := CellStateClaimed\<rparr>" "s' = s\<lparr>cells := (cells s)(ID c \<mapsto> c)\<rparr>" by blast
  from assms(2) obtain i where i: "find ?P (ms_order s) = Some i" "ID c = ID (the (cells s i))"
    by (auto simp: ClaimNext_def claimScan_find Let_def split: option.splits)
  from find_split [OF i(1)] obtain earlier later where o: "ms_order s = earlier @ i # later" "?P i"
    "\<forall>j \<in> set earlier. \<not> ?P j" by blast
  moreover have "i = ID c"
    using o(2) i(2) mem_inv_cell [OF assms(1)] by (auto split: option.splits)
  ultimately show ?thesis using c0 by (auto split: option.splits)
qed

definition demo_step :: cell_step where
  "demo_step = \<lparr>HandlerName = ''h'', Payload = ''null''\<rparr>"

definition demo_request :: "cell_id \<Rightarrow> cell_request" where
  "demo_request i = \<lparr>req_Steps = [demo_step, demo_step], req_ID = i, req_NotBefore = None\<rparr>"

lemma demo_request_ID [simp]: "req_ID (demo_request i) = i"
  by (simp add: demo_request_def)

definition demo_store :: "sequential_allocator memory_store" where
  "demo_store = snd (Add SequentialAllocator_Next [demo_request ''a'', demo_request '''']
     (NewMemoryStore (NewSequentialAllocator ''c'' 7)))"

lemma demo_store_inv: "mem_inv demo_store"
  unfolding demo_store_def by (rule mem_inv_Add [OF mem_inv_New]) (rule prod.collapse [symmetric])

lemma itoa_7: "itoa 7 = ''7''"
  by (subst itoa.simps) (simp add: digit_char_def char_of_def bit_0)

lemma demo_store_eq:
  "demo_store = \<lparr>allocator = \<lparr>sa_next = 8, sa_prefix = ''c''\<rparr>,
     cells = [''a'' \<mapsto> newCell (demo_request ''a''), ''c7'' \<mapsto> newCell (demo_request ''c7'')],
     ms_order = [''a'', ''c7'']\<rparr>"
  by (simp add: demo_store_def Add_def demo_request_def demo_step_def validateCellRequest_def
      validateSteps_def SequentialAllocator_Next_def NewSequentialAllocator_def NewMemoryStore_def
      buildNewCellsLocked_def insertCells_def insertCell_def itoa_7 newCell_def)

theorem claim_next_fifo_witness:
  "\<exists>c s'. ClaimNext 5 demo_store = (Inr (Some c), s') \<and> ID c = ''a'' \<and>
     ms_order demo_store = [] @ ID c # [''c7'']"
proof -
  obtain c s' where c: "ClaimNext 5 demo_store = (Inr (Some c), s')" "ID c = ''a''"
    by (simp add: demo_store_eq ClaimNext_def newCell_def demo_request_def Let_def)
  from claim_next_fifo [OF demo_store_inv c(1)] c show ?thesis by (auto simp: demo_store_eq)
qed


definition demo_claimed :: "cell \<times> sequential_allocator memory_store" where
  "demo_claimed = (case ClaimNext 5 demo_store of
     (Inr (Some c), s') \<Rightarrow> (c, s') | _ \<Rightarrow> (newCell (demo_request ''''), demo_store))"

lemma demo_claimed_eq:
  "demo_claimed = ((newCell (demo_request ''a''))\<lparr>State := CellStateClaimed\<rparr>,
     demo_store\<lparr>cells := (cells demo_store)(''a'' \<mapsto>
       (newCell (demo_request ''a''))\<lparr>State := CellStateClaimed\<rparr>)\<rparr>)"
  by (simp add: demo_claimed_def demo_store_eq ClaimNext_def newCell_def demo_request_def Let_def)

lemma demo_claimed_inv: "mem_inv (snd demo_claimed)"
proof -
  have "ClaimNext 5 demo_store = (Inr (Some (fst demo_claimed)), snd demo_claimed)"
    unfolding demo_claimed_eq
    by (simp add: demo_store_eq ClaimNext_def newCell_def demo_request_def Let_def)
  with demo_store_inv show ?thesis by (rule mem_inv_ClaimNext)
qed


section \<open>Adding and reading back\<close>

lemma identifyRequests_nth:
  "identifyRequests nxt a reqs = (Inr (identified, ids), a') \<Longrightarrow> k < length reqs \<Longrightarrow>
   identified ! k = (reqs ! k)\<lparr>req_ID := ids ! k\<rparr> \<and>
   (req_ID (reqs ! k) \<noteq> '''' \<longrightarrow> ids ! k = req_ID (reqs ! k))"
proof (induction nxt a reqs arbitrary: identified ids a' k rule: identifyRequests.induct)
  case (2 nxt a req reqs)
  then show ?case
    by (cases k) (auto split: option.splits prod.splits sum.splits if_splits)
qed simp

lemma cells_map_nth:
  "distinct (map ID cs) \<Longrightarrow> k < length cs \<Longrightarrow> cells_map cs (ID (cs ! k)) = Some (cs ! k)"
  unfolding cells_map_def by (subst map_of_eq_Some_iff) (auto simp: comp_def)

text \<open>
  C40: reading back what was added: after a successful \<open>Add\<close>, \<open>Get\<close> of the \<open>k\<close>-th returned identifier is
  the READY cell of the \<open>k\<close>-th request at its first step; an explicit identifier is kept; cells that
  were there before are unchanged.
\<close>

theorem add_get_roundtrip:
  assumes "Add nxt reqs s = (Inr ids, s')" "k < length reqs"
  shows "GetCell (ids ! k) s' = Inr (newCell ((reqs ! k)\<lparr>req_ID := ids ! k\<rparr>)) \<and>
    (req_ID (reqs ! k) \<noteq> '''' \<longrightarrow> ids ! k = req_ID (reqs ! k)) \<and>
    (\<forall>i c. GetCell i s = Inr c \<longrightarrow> GetCell i s' = Inr c)"
proof -
  obtain y a where y: "identifyRequests nxt (allocator s) reqs = (y, a)" by fastforce
  with assms(1) obtain identified where i: "y = Inr (identified, ids)"
    by (cases y) (auto simp: Add_def Let_def split: sum.splits)
  with y assms(1) obtain cs where cs: "buildNewCells (cells s) [] identified = Inr cs"
    "s' = insertCells cs (s\<lparr>allocator := a\<rparr>)"
    by (auto simp: Add_def buildNewCellsLocked_def Let_def split: sum.splits)
  from y i have ids: "ids = map req_ID identified" "length identified = length reqs"
    by (auto dest: identifyRequests_Inr)
  note nth = identifyRequests_nth [OF y [unfolded i] assms(2)]
  note fresh = buildNewCells_fresh [OF cs(1)]
  have eq: "cs = map newCell identified" using cs(1) by (simp add: buildNewCells_Inr)
  have v: "cells s' = cells s ++ cells_map cs" using fresh(2) by (simp add: cs(2) insertCells_cells)
  have "cells_map cs (ids ! k) = Some (newCell (identified ! k))"
    using cells_map_nth [OF fresh(2), of k] assms(2) ids by (simp add: eq)
  with v nth have "GetCell (ids ! k) s' = Inr (newCell ((reqs ! k)\<lparr>req_ID := ids ! k\<rparr>))"
    by (simp add: GetCell_def map_add_def)
  moreover have "GetCell i s' = Inr c" if "GetCell i s = Inr c" for i c
    using that fresh(1) by (auto simp: GetCell_def v map_add_def fresh_cells_None split: option.splits)
  ultimately show ?thesis using nth by blast
qed

theorem add_get_roundtrip_witness:
  "\<exists>s'. Add SequentialAllocator_Next [demo_request '''', demo_request ''x''] demo_store =
       (Inr [''c8'', ''x''], s') \<and>
     GetCell ([''c8'', ''x''] ! 0) s' = Inr (newCell (demo_request ''c8'')) \<and>
     GetCell ([''c8'', ''x''] ! 1) s' = Inr (newCell (demo_request ''x''))"
proof -
  have i8: "itoa 8 = ''8''" by (subst itoa.simps) (simp add: digit_char_def char_of_def bit_0)
  obtain s' where s': "Add SequentialAllocator_Next [demo_request '''', demo_request ''x''] demo_store =
       (Inr [''c8'', ''x''], s')"
    by (simp add: demo_store_eq Add_def demo_request_def demo_step_def validateCellRequest_def
        validateSteps_def SequentialAllocator_Next_def buildNewCellsLocked_def i8 newCell_def Let_def)
  from add_get_roundtrip [OF s', of 0] add_get_roundtrip [OF s', of 1] s' show ?thesis
    by (simp add: demo_request_def)
qed

section \<open>Sequences\<close>

text \<open>Claiming and completing, again and again: the steps executed and the final store.\<close>

fun drive :: "'a allocator_next \<Rightarrow> go_time \<Rightarrow> nat \<Rightarrow> 'a memory_store \<Rightarrow> cell_step list \<times> 'a memory_store" where
  "drive nxt now 0 s = ([], s)"
| "drive nxt now (Suc n) s =
     (case ClaimNext now s of
        (Inr (Some c), s1) \<Rightarrow>
          (let (_, s2) = ApplyResult nxt now c (Complete [] [] :: unit result) s1;
               (trace, s3) = drive nxt now n s2
           in (currentStep c # trace, s3))
      | (_, s1) \<Rightarrow> ([], s1))"

lemma drive_one:
  assumes "cells s = [ID c \<mapsto> c]" "ms_order s = [ID c]" "claimable now c"
    "0 \<le> CurrentStep c" "CurrentStep c < int (length (Steps c))"
  shows "drive nxt now (length (Steps c) - nat (CurrentStep c)) s =
    (drop (nat (CurrentStep c)) (Steps c), s\<lparr>cells := Map.empty, ms_order := []\<rparr>)"
  using assms
proof (induction "length (Steps c) - nat (CurrentStep c)" arbitrary: s c)
  case (Suc m)
  let ?c = "c\<lparr>State := CellStateClaimed\<rparr>" and ?k = "nat (CurrentStep c)"
  have cl: "ClaimNext now s = (Inr (Some ?c), s\<lparr>cells := [ID c \<mapsto> ?c]\<rparr>)"
    using Suc.prems by (auto simp: ClaimNext_def claimable_def time_After_def Let_def split: option.splits)
  have k: "?k < length (Steps c)" using Suc.prems by linarith
  have tr: "drop ?k (Steps c) = currentStep ?c # drop (Suc ?k) (Steps c)"
    using k Suc.prems(4,5) by (simp add: currentStep_def Cons_nth_drop_Suc)
  have ap: "applyResultWorkLocked nxt t [] ([] :: unit application_work option list) = (Inr [], t)"
    for t by (simp add: applyResultWorkLocked_def buildNewCellsLocked_def)
  show ?case
  proof (cases "CurrentStep c + 1 = int (length (Steps c))")
    case True
    then have m: "m = 0" "length (Steps c) - ?k = Suc 0" using Suc.hyps(2) Suc.prems by linarith+
    have "ApplyResult nxt now ?c (Complete [] [] :: unit result) (s\<lparr>cells := [ID c \<mapsto> ?c]\<rparr>) =
        (Inr (), s\<lparr>cells := Map.empty, ms_order := []\<rparr>)"
      using True Suc.prems(2) by (simp add: ApplyResult_def ap Let_def insertCells_def deleteCell_def
          removeFromOrderLocked_def)
    with cl tr m True show ?thesis by simp
  next
    case False
    let ?d = "c\<lparr>CurrentStep := CurrentStep c + 1, State := CellStateReady\<rparr>"
    let ?s = "s\<lparr>cells := [ID c \<mapsto> ?d]\<rparr>"
    have "ApplyResult nxt now ?c (Complete [] [] :: unit result) (s\<lparr>cells := [ID c \<mapsto> ?c]\<rparr>) = (Inr (), ?s)"
      using False by (simp add: ApplyResult_def ap Let_def insertCells_def)
    moreover have n: "nat (CurrentStep ?d) = Suc ?k" using Suc.prems(4) by simp
    moreover have m: "m = length (Steps c) - Suc ?k" using Suc.hyps(2) by linarith
    moreover have "drive nxt now m ?s =
        (drop (Suc ?k) (Steps c), ?s\<lparr>cells := Map.empty, ms_order := []\<rparr>)"
      using Suc.hyps(1) [of ?d ?s] Suc.prems False n m
      by (simp add: claimable_def)
    ultimately show ?thesis using cl tr Suc.hyps(2) by (simp flip: Suc.hyps(2))
  qed
qed auto



end
