(* ===== verification/Sql.thy ===== *)
theory Sql
  imports Prelude
begin

text \<open>
  The meaning of the SQL statements the Go sources send to SQLite, on a table represented as the
  list of its rows in rowid order: UPDATE with a WHERE clause, DELETE, INSERT under a primary key,
  SELECT with ORDER BY. A statement can also fail for reasons of the database (I/O, a busy lock, a
  cancelled context); which of them fail in a call is the caller's parameter of type
  \<open>db_call \<Rightarrow> 'e option\<close>.
\<close>

text \<open>
  The database calls of one operation, in the order in which it makes them: opening the transaction,
  its query, the inserts (numbered), its final write, the commit.
\<close>

datatype db_call = DbBegin | DbQuery | DbInsert nat | DbWrite | DbCommit

definition sql_update :: "('r \<Rightarrow> bool) \<Rightarrow> ('r \<Rightarrow> 'r) \<Rightarrow> 'r list \<Rightarrow> 'r list" where
  "sql_update P f t = map (\<lambda>r. if P r then f r else r) t"

definition sql_delete :: "('r \<Rightarrow> bool) \<Rightarrow> 'r list \<Rightarrow> 'r list" where
  "sql_delete P t = filter (\<lambda>r. \<not> P r) t"

definition sql_count :: "('r \<Rightarrow> bool) \<Rightarrow> 'r list \<Rightarrow> nat" where
  "sql_count P t = length (filter P t)"

definition sql_select :: "('r \<Rightarrow> bool) \<Rightarrow> ('r \<Rightarrow> 'k::linorder) \<Rightarrow> 'r list \<Rightarrow> 'r list" where
  "sql_select P k t = sort_key k (filter P t)"

text \<open>\<open>SELECT ... WHERE key = ?\<close> for a key that is unique in the table.\<close>

definition sql_row :: "('r \<Rightarrow> 'k) \<Rightarrow> 'k \<Rightarrow> 'r list \<Rightarrow> 'r option" where
  "sql_row key k t = find (\<lambda>r. key r = k) t"

text \<open>\<open>INSERT ... ON CONFLICT(key) DO UPDATE\<close> of every other column.\<close>

definition sql_upsert :: "('r \<Rightarrow> 'k) \<Rightarrow> 'r \<Rightarrow> 'r list \<Rightarrow> 'r list" where
  "sql_upsert key r t =
     (if sql_row key (key r) t = None then t @ [r] else sql_update (\<lambda>q. key q = key r) (\<lambda>_. r) t)"

lemma sql_update_keys [simp]:
  "(\<And>r. key (f r) = key r) \<Longrightarrow> map key (sql_update P f t) = map key t"
  by (simp add: sql_update_def)

lemma sql_row_update:
  assumes "\<And>r. key (f r) = key r"
  shows "sql_row key k (sql_update P f t) =
    map_option (\<lambda>r. if P r then f r else r) (sql_row key k t)"
  using assms by (induction t) (auto simp: sql_row_def sql_update_def)

lemma sql_row_append:
  "sql_row key k (t @ u) = (case sql_row key k t of None \<Rightarrow> sql_row key k u | Some r \<Rightarrow> Some r)"
  by (induction t) (auto simp: sql_row_def)

lemma sql_row_Nil [simp]: "sql_row key k [] = None"
  by (simp add: sql_row_def)

lemma sql_row_Cons [simp]: "sql_row key k (r # t) = (if key r = k then Some r else sql_row key k t)"
  by (simp add: sql_row_def)

lemma sql_row_Some: "sql_row key k t = Some r \<Longrightarrow> r \<in> set t \<and> key r = k"
  by (induction t) (auto split: if_splits)

lemma sql_row_None: "sql_row key k t = None \<longleftrightarrow> k \<notin> key ` set t"
  by (induction t) auto

lemma sql_row_mem: "distinct (map key t) \<Longrightarrow> r \<in> set t \<Longrightarrow> sql_row key (key r) t = Some r"
  by (induction t) (auto simp: image_iff)

lemma sql_row_exists: "k \<in> key ` set t \<Longrightarrow> \<exists>r. sql_row key k t = Some r"
  using sql_row_None [of key k t] by auto

lemma sql_row_upsert: "(\<lambda>k. sql_row key k (sql_upsert key r t)) = (\<lambda>k. sql_row key k t)(key r \<mapsto> r)"
proof -
  have "sql_row key k (sql_update (\<lambda>q. key q = key r) (\<lambda>_. r) t) =
      (if k = key r then map_option (\<lambda>_. r) (sql_row key k t) else sql_row key k t)" for k
    by (induction t) (auto simp: sql_update_def)
  then show ?thesis by (auto simp: sql_upsert_def sql_row_append fun_eq_iff split: option.splits)
qed

lemma sql_row_delete_key: "(\<lambda>k. sql_row key k (sql_delete (\<lambda>q. key q = i) t)) = (\<lambda>k. sql_row key k t)(i := None)"
proof -
  have "sql_row key k (sql_delete (\<lambda>q. key q = i) t) = (if k = i then None else sql_row key k t)" for k
    by (induction t) (auto simp: sql_delete_def)
  then show ?thesis by auto
qed

lemma sql_upsert_distinct:
  assumes "distinct (map key t)"
  shows "distinct (map key (sql_upsert key r t))"
proof (cases "sql_row key (key r) t = None")
  case True
  with assms show ?thesis by (simp add: sql_upsert_def sql_row_None)
next
  case False
  have "map key (sql_update (\<lambda>q. key q = key r) (\<lambda>_. r) t) = map key t" by (induction t) (auto simp: sql_update_def)
  with False assms show ?thesis by (auto simp: sql_upsert_def)
qed

lemma sql_delete_distinct: "distinct (map key t) \<Longrightarrow> distinct (map key (sql_delete P t))"
  by (simp add: sql_delete_def distinct_map_filter)

lemma set_sql_delete [simp]: "set (sql_delete P t) = {r \<in> set t. \<not> P r}"
  by (auto simp: sql_delete_def)

lemma sql_row_delete:
  assumes "distinct (map key t)"
  shows "sql_row key k (sql_delete P t) =
    (case sql_row key k t of None \<Rightarrow> None | Some r \<Rightarrow> if P r then None else Some r)"
  using assms
proof (induction t)
  case (Cons r t)
  have "sql_row key k (sql_delete P t) = None" if "key r = k"
    using that Cons.prems by (auto simp: sql_row_None)
  with Cons show ?case by (auto simp: sql_delete_def)
qed (simp add: sql_delete_def)

lemma set_sql_update [simp]: "set (sql_update P f t) = (\<lambda>r. if P r then f r else r) ` set t"
  by (simp add: sql_update_def)

lemma sql_update_hit: "r \<in> set t \<Longrightarrow> P r \<Longrightarrow> f r \<in> set (sql_update P f t)"
  by (auto intro: rev_image_eqI)

lemma sql_update_miss: "r \<in> set t \<Longrightarrow> \<not> P r \<Longrightarrow> r \<in> set (sql_update P f t)"
  by (auto intro: rev_image_eqI)

lemma set_sql_select [simp]: "set (sql_select P k t) = {r \<in> set t. P r}"
  by (auto simp: sql_select_def)

lemma sql_select_hd:
  "sql_select P k t = r # rs \<Longrightarrow> r \<in> set t \<and> P r \<and> (\<forall>q \<in> set t. P q \<longrightarrow> k r \<le> k q)"
proof -
  assume a: "sql_select P k t = r # rs"
  have s: "sorted (map k (r # rs))" unfolding a [symmetric] by (simp add: sql_select_def)
  have "set (r # rs) = {q \<in> set t. P q}" unfolding a [symmetric] by simp
  with s show ?thesis by (auto simp: set_eq_iff)
qed

lemma sql_select_Nil: "sql_select P k t = [] \<longleftrightarrow> (\<forall>q \<in> set t. \<not> P q)"
  by (metis (mono_tags, lifting) empty_Collect_eq set_empty set_sql_select)

lemma sql_count_0: "sql_count P t = 0 \<longleftrightarrow> (\<forall>r \<in> set t. \<not> P r)"
  by (auto simp: sql_count_def filter_empty_conv)

end
