(* ===== verification/SqliteStore.thy ===== *)
theory SqliteStore
  imports MemoryStore Sql
begin

text \<open>
  cellar/internal/sqlite/store.go: the durable store. The database holds the table of cells and the
  application's own tables (the type \<open>'db\<close>), which application work changes in the transaction of the
  result it belongs to. A transaction that does not reach its commit leaves the database as it was
  (\<open>defer rollback(tx)\<close>); the allocator is not part of the database and keeps what it allocated.

  The parameter \<open>flt\<close> says which database calls of the operation fail and with what error. The
  column steps holds the JSON text of the steps: \<open>Some ss\<close> for the text of \<open>ss\<close>, \<open>None\<close> for a text
  that does not decode. \<open>created_at\<close> is CURRENT_TIMESTAMP, which counts whole seconds.
\<close>

section \<open>State\<close>

record cell_row =
  row_id :: cell_id
  row_steps :: "cell_step list option"
  row_current_step :: int
  row_state :: cell_state
  row_not_before :: "go_time option"
  row_created_at :: int

record ('a, 'db) sqlite_store =
  sq_allocator :: 'a
  sq_cells :: "cell_row list"
  sq_app :: 'db

type_synonym db_faults = "db_call \<Rightarrow> gerror option"

section \<open>Rows\<close>

definition row_cell :: "cell_row \<Rightarrow> cell" where
  "row_cell r = \<lparr>Steps = (case row_steps r of None \<Rightarrow> [] | Some ss \<Rightarrow> ss),
     CurrentStep = row_current_step r, ID = row_id r, State = row_state r,
     NotBefore = row_not_before r\<rparr>"

definition scanCell :: "cell_row \<Rightarrow> gerror + cell" where
  "scanCell r =
     (if row_steps r = None then Inl (Wrapped (Err ''json'') ''decode cell steps'')
      else Inr (row_cell r))"

definition requestRow :: "go_time \<Rightarrow> cell_request \<Rightarrow> cell_row" where
  "requestRow now req =
     \<lparr>row_id = req_ID req, row_steps = Some (req_Steps req), row_current_step = 0,
      row_state = CellStateReady, row_not_before = req_NotBefore req,
      row_created_at = now div Second\<rparr>"

section \<open>Adding\<close>

fun sq_identifyRequests ::
  "'a allocator_next \<Rightarrow> 'a \<Rightarrow> cell_request list \<Rightarrow>
     (gerror + cell_request list \<times> cell_id list) \<times> 'a" where
  "sq_identifyRequests nxt a [] = (Inr ([], []), a)"
| "sq_identifyRequests nxt a (req # reqs) =
     (if req_Steps req = [] then (Inl (Err ''handler name is required''), a)
      else
        (case (if req_ID req = ''''
               then (case nxt a of
                       (Inl e, a') \<Rightarrow> (Inl (Wrapped e ''allocate cell id''), a')
                     | (Inr i, a') \<Rightarrow> (Inr (req\<lparr>req_ID := i\<rparr>), a'))
               else (Inr req, a)) of
           (Inl e, a') \<Rightarrow> (Inl e, a')
         | (Inr req', a') \<Rightarrow>
             (case sq_identifyRequests nxt a' reqs of
                (Inl e, a'') \<Rightarrow> (Inl e, a'')
              | (Inr (identified, ids), a'') \<Rightarrow>
                  (Inr (req' # identified, req_ID req' # ids), a''))))"

text \<open>
  \<open>insertRequests\<close>: \<open>k\<close> numbers the INSERT statements. A primary-key violation is what
  \<open>isUniqueViolation\<close> recognises in the driver's error; every other error is returned as it is.
\<close>

fun insertRequests ::
  "db_faults \<Rightarrow> go_time \<Rightarrow> nat \<Rightarrow> cell_request list \<Rightarrow> cell_row list \<Rightarrow> gerror + cell_row list" where
  "insertRequests flt now k [] t = Inr t"
| "insertRequests flt now k (req # reqs) t =
     (if req_ID req = '''' then Inl (Err ''cell id is required'')
      else case validateSteps (req_Steps req) of
             Some e \<Rightarrow> Inl e
           | None \<Rightarrow>
               (case flt (DbInsert k) of
                  Some e \<Rightarrow> Inl e
                | None \<Rightarrow>
                    if sql_row row_id (req_ID req) t \<noteq> None
                    then Inl (Wrapped ErrCellAlreadyExists (req_ID req))
                    else insertRequests flt now (Suc k) reqs (t @ [requestRow now req])))"

definition sq_Add ::
  "db_faults \<Rightarrow> 'a allocator_next \<Rightarrow> go_time \<Rightarrow> cell_request list \<Rightarrow> ('a, 'db) sqlite_store \<Rightarrow>
     (gerror + cell_id list) \<times> ('a, 'db) sqlite_store" where
  "sq_Add flt nxt now requests s =
     (case sq_identifyRequests nxt (sq_allocator s) requests of
        (Inl e, a') \<Rightarrow> (Inl e, s\<lparr>sq_allocator := a'\<rparr>)
      | (Inr (identified, ids), a') \<Rightarrow>
          (let s' = s\<lparr>sq_allocator := a'\<rparr> in
           case flt DbBegin of
             Some e \<Rightarrow> (Inl e, s')
           | None \<Rightarrow>
               (case insertRequests flt now 0 identified (sq_cells s') of
                  Inl e \<Rightarrow> (Inl e, s')
                | Inr t \<Rightarrow>
                    (case flt DbCommit of
                       Some e \<Rightarrow> (Inl e, s')
                     | None \<Rightarrow> (Inr ids, s'\<lparr>sq_cells := t\<rparr>)))))"

section \<open>Claiming\<close>

definition sq_runnable :: "go_time \<Rightarrow> cell_row \<Rightarrow> bool" where
  "sq_runnable now r \<longleftrightarrow> row_state r = CellStateReady \<and>
     (case row_not_before r of None \<Rightarrow> True | Some t \<Rightarrow> t \<le> now)"

definition row_key :: "cell_row \<Rightarrow> int \<times> cell_id" where
  "row_key r = (row_created_at r, row_id r)"

definition sq_ClaimNext ::
  "db_faults \<Rightarrow> go_time \<Rightarrow> ('a, 'db) sqlite_store \<Rightarrow>
     (gerror + cell option) \<times> ('a, 'db) sqlite_store" where
  "sq_ClaimNext flt now s =
     (case flt DbBegin of
        Some e \<Rightarrow> (Inl e, s)
      | None \<Rightarrow>
          (case flt DbQuery of
             Some e \<Rightarrow> (Inl e, s)
           | None \<Rightarrow>
               (case sql_select (sq_runnable now) row_key (sq_cells s) of
                  [] \<Rightarrow> (case flt DbCommit of Some e \<Rightarrow> (Inl e, s) | None \<Rightarrow> (Inr None, s))
                | r # _ \<Rightarrow>
                    (let r' = r\<lparr>row_state := CellStateClaimed\<rparr> in
                     case scanCell r' of
                       Inl e \<Rightarrow> (Inl e, s)
                     | Inr c \<Rightarrow>
                         (case flt DbCommit of
                            Some e \<Rightarrow> (Inl e, s)
                          | None \<Rightarrow>
                              (Inr (Some c),
                               s\<lparr>sq_cells := sql_update (\<lambda>q. row_id q = row_id r)
                                   (\<lambda>q. q\<lparr>row_state := CellStateClaimed\<rparr>) (sq_cells s)\<rparr>))))))"

section \<open>Results\<close>

fun runSqlWork :: "'db application_work option list \<Rightarrow> 'db \<Rightarrow> gerror + 'db" where
  "runSqlWork [] d = Inr d"
| "runSqlWork (None # ws) d = runSqlWork ws d"
| "runSqlWork (Some w # ws) d =
     (case w (SqlTx d) of
        Inl e \<Rightarrow> Inl e
      | Inr (SqlTx d') \<Rightarrow> runSqlWork ws d'
      | Inr NoopApplicationTx \<Rightarrow> runSqlWork ws d)"

definition applyResultWorkTx ::
  "db_faults \<Rightarrow> 'a allocator_next \<Rightarrow> go_time \<Rightarrow> ('a, 'db) sqlite_store \<Rightarrow> cell_request list \<Rightarrow>
     'db application_work option list \<Rightarrow> (gerror + cell_row list \<times> 'db) \<times> 'a" where
  "applyResultWorkTx flt nxt now s additions works =
     (case runSqlWork works (sq_app s) of
        Inl e \<Rightarrow> (Inl e, sq_allocator s)
      | Inr d \<Rightarrow>
          (case sq_identifyRequests nxt (sq_allocator s) additions of
             (Inl e, a') \<Rightarrow> (Inl e, a')
           | (Inr (identified, _), a') \<Rightarrow>
               (case insertRequests flt now 0 identified (sq_cells s) of
                  Inl e \<Rightarrow> (Inl e, a')
                | Inr t \<Rightarrow> (Inr (t, d), a'))))"

text \<open>
  The end of a result transaction: the side effects, the final write \<open>f\<close> on the table, the commit;
  any failure on the way rolls back.
\<close>

definition finishTx ::
  "db_faults \<Rightarrow> 'a allocator_next \<Rightarrow> go_time \<Rightarrow> cell_request list \<Rightarrow> 'db application_work option list \<Rightarrow>
     (cell_row list \<Rightarrow> cell_row list) \<Rightarrow> ('a, 'db) sqlite_store \<Rightarrow>
     (gerror + unit) \<times> ('a, 'db) sqlite_store" where
  "finishTx flt nxt now additions works f s =
     (case applyResultWorkTx flt nxt now s additions works of
        (Inl e, a') \<Rightarrow> (Inl e, s\<lparr>sq_allocator := a'\<rparr>)
      | (Inr (t, d), a') \<Rightarrow>
          (case flt DbWrite of
             Some e \<Rightarrow> (Inl e, s\<lparr>sq_allocator := a'\<rparr>)
           | None \<Rightarrow>
               (case flt DbCommit of
                  Some e \<Rightarrow> (Inl e, s\<lparr>sq_allocator := a'\<rparr>)
                | None \<Rightarrow> (Inr (), s\<lparr>sq_allocator := a', sq_cells := f t, sq_app := d\<rparr>))))"

definition ensureClaimed :: "db_faults \<Rightarrow> cell_id \<Rightarrow> cell_row list \<Rightarrow> gerror option" where
  "ensureClaimed flt i t =
     (case flt DbQuery of
        Some e \<Rightarrow> Some e
      | None \<Rightarrow>
          (case sql_row row_id i t of
             None \<Rightarrow> Some ErrCellNotFound
           | Some r \<Rightarrow> if row_state r \<noteq> CellStateClaimed then Some ErrCellNotClaimed else None))"

definition sq_Complete ::
  "db_faults \<Rightarrow> 'a allocator_next \<Rightarrow> go_time \<Rightarrow> cell_id \<Rightarrow> cell_request list \<Rightarrow>
     'db application_work option list \<Rightarrow> ('a, 'db) sqlite_store \<Rightarrow>
     (gerror + unit) \<times> ('a, 'db) sqlite_store" where
  "sq_Complete flt nxt now i additions works s =
     (case flt DbBegin of
        Some e \<Rightarrow> (Inl e, s)
      | None \<Rightarrow>
          (case ensureClaimed flt i (sq_cells s) of
             Some e \<Rightarrow> (Inl e, s)
           | None \<Rightarrow> finishTx flt nxt now additions works (sql_delete (\<lambda>r. row_id r = i)) s))"

text \<open>\<open>WHERE id = ? AND state = 'CLAIMED'\<close>.\<close>

definition claimed_row :: "cell_id \<Rightarrow> cell_row \<Rightarrow> bool" where
  "claimed_row i r \<longleftrightarrow> row_id r = i \<and> row_state r = CellStateClaimed"

definition sq_ApplyResult ::
  "db_faults \<Rightarrow> 'a allocator_next \<Rightarrow> go_time \<Rightarrow> cell \<Rightarrow> 'db result \<Rightarrow> ('a, 'db) sqlite_store \<Rightarrow>
     (gerror + unit) \<times> ('a, 'db) sqlite_store" where
  "sq_ApplyResult flt nxt now claimed res s =
     (case flt DbBegin of
        Some e \<Rightarrow> (Inl e, s)
      | None \<Rightarrow>
          (case flt DbQuery of
             Some e \<Rightarrow> (Inl e, s)
           | None \<Rightarrow>
               (case sql_row row_id (ID claimed) (sq_cells s) of
                  None \<Rightarrow> (Inl ErrCellNotFound, s)
                | Some r \<Rightarrow>
                    if row_state r \<noteq> CellStateClaimed then (Inl ErrCellNotClaimed, s)
                    else if row_current_step r \<noteq> CurrentStep claimed
                         then (Inl (Err ''cell current step changed''), s)
                    else (case res of
                       Complete additions works \<Rightarrow>
                         (let currentStep = row_current_step r + 1 in
                          finishTx flt nxt now additions works
                            (if currentStep \<ge> int (length (Steps claimed))
                             then sql_delete (claimed_row (ID claimed))
                             else sql_update (claimed_row (ID claimed))
                                    (\<lambda>q. q\<lparr>row_current_step := currentStep,
                                           row_state := CellStateReady\<rparr>)) s)
                     | Retry nb additions works \<Rightarrow>
                         finishTx flt nxt now additions works
                           (sql_update (claimed_row (ID claimed))
                              (\<lambda>q. q\<lparr>row_state := CellStateReady, row_not_before := nb\<rparr>)) s
                     | RetrySequence delay additions works \<Rightarrow>
                         if delay < 0 then (Inl (Err ''retry sequence delay must not be negative''), s)
                         else finishTx flt nxt now additions works
                           (sql_update (claimed_row (ID claimed))
                              (\<lambda>q. q\<lparr>row_current_step := 0, row_state := CellStateReady,
                                     row_not_before := Some (now + delay)\<rparr>)) s
                     | Kill additions works \<Rightarrow>
                         finishTx flt nxt now additions works
                           (sql_delete (claimed_row (ID claimed))) s
                     | _ \<Rightarrow> (Inl (Err ''unsupported result''), s)))))"

definition classifyMissingOrNotClaimed :: "db_faults \<Rightarrow> cell_id \<Rightarrow> cell_row list \<Rightarrow> gerror" where
  "classifyMissingOrNotClaimed flt i t =
     (case flt DbQuery of
        Some e \<Rightarrow> e
      | None \<Rightarrow> (case sql_row row_id i t of None \<Rightarrow> ErrCellNotFound | Some r \<Rightarrow> ErrCellNotClaimed))"

definition sq_Retry ::
  "db_faults \<Rightarrow> cell_id \<Rightarrow> go_time option \<Rightarrow> ('a, 'db) sqlite_store \<Rightarrow>
     (gerror + unit) \<times> ('a, 'db) sqlite_store" where
  "sq_Retry flt i nb s =
     (case flt DbWrite of
        Some e \<Rightarrow> (Inl e, s)
      | None \<Rightarrow>
          if sql_count (claimed_row i) (sq_cells s) = 0
          then (Inl (classifyMissingOrNotClaimed flt i (sq_cells s)), s)
          else (Inr (), s\<lparr>sq_cells := sql_update (claimed_row i)
                  (\<lambda>q. q\<lparr>row_state := CellStateReady, row_not_before := nb\<rparr>) (sq_cells s)\<rparr>))"

definition sq_Recover ::
  "db_faults \<Rightarrow> ('a, 'db) sqlite_store \<Rightarrow> (gerror + unit) \<times> ('a, 'db) sqlite_store" where
  "sq_Recover flt s =
     (case flt DbWrite of
        Some e \<Rightarrow> (Inl e, s)
      | None \<Rightarrow> (Inr (), s\<lparr>sq_cells := sql_update (\<lambda>q. row_state q = CellStateClaimed)
                   (\<lambda>q. q\<lparr>row_state := CellStateReady\<rparr>) (sq_cells s)\<rparr>))"

section \<open>Reading and administration\<close>

definition sq_ListActive :: "db_faults \<Rightarrow> ('a, 'db) sqlite_store \<Rightarrow> gerror + cell list" where
  "sq_ListActive flt s =
     (case flt DbQuery of
        Some e \<Rightarrow> Inl e
      | None \<Rightarrow> res_map scanCell (sql_select (\<lambda>_. True) row_key (sq_cells s)))"

definition sq_Get :: "db_faults \<Rightarrow> cell_id \<Rightarrow> ('a, 'db) sqlite_store \<Rightarrow> gerror + cell" where
  "sq_Get flt i s =
     (case flt DbQuery of
        Some e \<Rightarrow> Inl e
      | None \<Rightarrow>
          (case sql_row row_id i (sq_cells s) of
             None \<Rightarrow> Inl ErrCellNotFound
           | Some r \<Rightarrow> scanCell r))"

text \<open>The upsert keeps \<open>created_at\<close> of an existing row. Only the identifier and the steps are checked.\<close>

definition sq_ForceUpdate ::
  "db_faults \<Rightarrow> go_time \<Rightarrow> cell \<Rightarrow> ('a, 'db) sqlite_store \<Rightarrow>
     (gerror + unit) \<times> ('a, 'db) sqlite_store" where
  "sq_ForceUpdate flt now c s =
     (if ID c = '''' then (Inl (Err ''cell id is required''), s)
      else if Steps c = [] then (Inl (Err ''handler name is required''), s)
      else case flt DbWrite of
             Some e \<Rightarrow> (Inl e, s)
           | None \<Rightarrow>
               (Inr (), s\<lparr>sq_cells :=
                  (if sql_row row_id (ID c) (sq_cells s) = None
                   then sq_cells s @ [\<lparr>row_id = ID c, row_steps = Some (Steps c),
                          row_current_step = CurrentStep c, row_state = State c,
                          row_not_before = NotBefore c, row_created_at = now div Second\<rparr>]
                   else sql_update (\<lambda>q. row_id q = ID c)
                          (\<lambda>q. q\<lparr>row_steps := Some (Steps c), row_current_step := CurrentStep c,
                                 row_state := State c, row_not_before := NotBefore c\<rparr>)
                          (sq_cells s))\<rparr>))"

definition sq_ForceDelete ::
  "db_faults \<Rightarrow> cell_id \<Rightarrow> ('a, 'db) sqlite_store \<Rightarrow> (gerror + unit) \<times> ('a, 'db) sqlite_store" where
  "sq_ForceDelete flt i s =
     (case flt DbWrite of
        Some e \<Rightarrow> (Inl e, s)
      | None \<Rightarrow>
          if sql_count (\<lambda>r. row_id r = i) (sq_cells s) = 0 then (Inl ErrCellNotFound, s)
          else (Inr (), s\<lparr>sq_cells := sql_delete (\<lambda>r. row_id r = i) (sq_cells s)\<rparr>))"

section \<open>The invariant and the abstract contents\<close>

definition table_view :: "cell_row list \<Rightarrow> cell_id \<rightharpoonup> cell" where
  "table_view t i = map_option row_cell (sql_row row_id i t)"

definition table_inv :: "cell_row list \<Rightarrow> bool" where
  "table_inv t \<longleftrightarrow> distinct (map row_id t) \<and>
     (\<forall>r \<in> set t. row_steps r \<noteq> None \<and> runnable_cell (row_cell r))"

abbreviation sq_view :: "('a, 'db) sqlite_store \<Rightarrow> cell_id \<rightharpoonup> cell" where
  "sq_view s \<equiv> table_view (sq_cells s)"

abbreviation sq_inv :: "('a, 'db) sqlite_store \<Rightarrow> bool" where
  "sq_inv s \<equiv> table_inv (sq_cells s)"

lemma row_cell_sel [simp]:
  "CurrentStep (row_cell r) = row_current_step r" "ID (row_cell r) = row_id r"
  "State (row_cell r) = row_state r" "NotBefore (row_cell r) = row_not_before r"
  by (simp_all add: row_cell_def)

lemma row_cell_upd [simp]:
  "row_cell (r\<lparr>row_state := st\<rparr>) = (row_cell r)\<lparr>State := st\<rparr>"
  "row_cell (r\<lparr>row_current_step := n\<rparr>) = (row_cell r)\<lparr>CurrentStep := n\<rparr>"
  "row_cell (r\<lparr>row_not_before := nb\<rparr>) = (row_cell r)\<lparr>NotBefore := nb\<rparr>"
  by (simp_all add: row_cell_def)

lemma row_cell_request [simp]: "row_cell (requestRow now req) = newCell req"
  by (simp add: row_cell_def requestRow_def newCell_def)

lemma requestRow_sel [simp]:
  "row_id (requestRow now req) = req_ID req" "row_steps (requestRow now req) = Some (req_Steps req)"
  by (simp_all add: requestRow_def)

lemma sq_runnable_claimable: "sq_runnable now r \<longleftrightarrow> claimable now (row_cell r)"
  by (simp add: sq_runnable_def claimable_def)

lemma table_inv_Nil [simp]: "table_inv []"
  by (simp add: table_inv_def)

lemma table_view_Nil [simp]: "table_view [] = Map.empty"
  by (simp add: table_view_def fun_eq_iff)

lemma table_view_SomeE:
  assumes "table_view t i = Some c"
  obtains r where "r \<in> set t" "row_id r = i" "c = row_cell r" "sql_row row_id i t = Some r"
  using assms by (auto simp: table_view_def dest: sql_row_Some)

lemma table_view_mem: "table_inv t \<Longrightarrow> r \<in> set t \<Longrightarrow> table_view t (row_id r) = Some (row_cell r)"
  by (simp add: table_view_def table_inv_def sql_row_mem)

lemma table_inv_wf: "table_inv t \<Longrightarrow> wf_contents (table_view t)"
  by (auto simp: wf_contents_def table_inv_def elim!: table_view_SomeE)

lemma table_view_None: "table_view t i = None \<longleftrightarrow> i \<notin> row_id ` set t"
  by (simp add: table_view_def sql_row_None)

lemma table_view_append:
  "row_id ` set t \<inter> row_id ` set u = {} \<Longrightarrow> table_view (t @ u) = table_view t ++ table_view u"
proof
  fix i assume "row_id ` set t \<inter> row_id ` set u = {}"
  then have "sql_row row_id i t = None \<or> sql_row row_id i u = None"
    unfolding sql_row_None by blast
  then show "table_view (t @ u) i = (table_view t ++ table_view u) i"
    by (auto simp: table_view_def sql_row_append map_add_def split: option.splits)
qed

lemma table_view_requests:
  "table_view (map (requestRow now) reqs) = cells_map (map newCell reqs)"
  by (induction reqs) (auto simp: table_view_def fun_eq_iff)

lemma table_view_update:
  assumes "\<And>r. row_id (f r) = row_id r"
  shows "table_view (sql_update P f t) i =
    map_option (\<lambda>r. row_cell (if P r then f r else r)) (sql_row row_id i t)"
  using assms by (simp add: table_view_def sql_row_update option.map_comp comp_def)

lemma table_inv_update:
  assumes "table_inv t" "\<And>r. row_id (f r) = row_id r"
    "\<And>r. r \<in> set t \<Longrightarrow> P r \<Longrightarrow> row_steps (f r) = row_steps r \<and> runnable_cell (row_cell (f r))"
  shows "table_inv (sql_update P f t)"
  using assms by (auto simp: table_inv_def simp del: not_None_eq)

lemma table_inv_delete: "table_inv t \<Longrightarrow> table_inv (sql_delete P t)"
  by (auto simp: table_inv_def sql_delete_distinct)

text \<open>Updating or deleting the one row with a given identifier, seen on the contents.\<close>

lemma table_view_update_one:
  assumes "table_inv t" "sql_row row_id i t = Some r" "P r" "\<And>q. P q \<Longrightarrow> row_id q = i"
    "\<And>r. row_id (f r) = row_id r"
  shows "table_view (sql_update P f t) = (table_view t)(i \<mapsto> row_cell (f r))"
proof
  fix j
  show "table_view (sql_update P f t) j = ((table_view t)(i \<mapsto> row_cell (f r))) j"
  proof (cases "j = i")
    case True
    with assms(2,3) show ?thesis by (simp add: table_view_update [OF assms(5)])
  next
    case False
    then have "\<not> P q" if "sql_row row_id j t = Some q" for q
      using assms(4) [of q] sql_row_Some [OF that] by blast
    then show ?thesis using False
      by (cases "sql_row row_id j t") (simp_all add: table_view_update [OF assms(5)] table_view_def [of t])
  qed
qed

lemma table_view_delete_one:
  assumes "table_inv t" "sql_row row_id i t = Some r" "P r" "\<And>q. P q \<Longrightarrow> row_id q = i"
  shows "table_view (sql_delete P t) = (table_view t)(i := None)"
proof
  fix j
  from assms(1) have d: "distinct (map row_id t)" by (simp add: table_inv_def)
  show "table_view (sql_delete P t) j = ((table_view t)(i := None)) j"
  proof (cases "j = i")
    case True
    with assms(2,3) d show ?thesis by (simp add: table_view_def sql_row_delete)
  next
    case False
    then have "\<not> P q" if "sql_row row_id j t = Some q" for q
      using assms(4) [of q] sql_row_Some [OF that] by blast
    then show ?thesis using False d
      by (cases "sql_row row_id j t") (simp_all add: table_view_def sql_row_delete)
  qed
qed

section \<open>Inserting\<close>

lemma sq_identifyRequests_Inr:
  "sq_identifyRequests nxt a reqs = (Inr (identified, ids), a') \<Longrightarrow>
   ids = map req_ID identified \<and> length identified = length reqs"
  by (induction nxt a reqs arbitrary: identified ids a' rule: sq_identifyRequests.induct)
    (auto split: option.splits prod.splits sum.splits if_splits)

lemma insertRequests_Inr:
  "insertRequests flt now k reqs t = Inr t' \<Longrightarrow>
   t' = t @ map (requestRow now) reqs \<and> distinct (map req_ID reqs) \<and>
   (\<forall>r \<in> set reqs. req_ID r \<noteq> '''' \<and> wf_steps (req_Steps r) \<and> req_ID r \<notin> row_id ` set t)"
proof (induction flt now k reqs t rule: insertRequests.induct)
  case (2 flt now k req reqs t)
  then have r: "req_ID req \<noteq> ''''" "wf_steps (req_Steps req)" "flt (DbInsert k) = None"
    "sql_row row_id (req_ID req) t = None"
    "insertRequests flt now (Suc k) reqs (t @ [requestRow now req]) = Inr t'"
    by (auto split: if_splits option.splits simp flip: validateSteps_None)
  with 2 have "t' = (t @ [requestRow now req]) @ map (requestRow now) reqs \<and> distinct (map req_ID reqs) \<and>
    (\<forall>q \<in> set reqs. req_ID q \<noteq> '''' \<and> wf_steps (req_Steps q) \<and>
       req_ID q \<notin> row_id ` set (t @ [requestRow now req]))"
    by simp
  with r show ?case by (auto simp: sql_row_None)
qed auto

lemma insertRequests_fresh:
  assumes "insertRequests flt now k reqs t = Inr t'"
  shows "fresh_cells (table_view t) (cells_map (map newCell reqs))"
    "table_view t' = table_view t ++ cells_map (map newCell reqs)"
    "card (dom (cells_map (map newCell reqs))) = length reqs" "distinct (map req_ID reqs)"
proof -
  note ins = insertRequests_Inr [OF assms]
  have "buildNewCells (table_view t) [] reqs = Inr (map newCell reqs)"
    using ins by (auto simp: buildNewCells_Inr table_view_None)
  from buildNewCells_fresh [OF this]
  show "fresh_cells (table_view t) (cells_map (map newCell reqs))"
    "card (dom (cells_map (map newCell reqs))) = length reqs" by blast+
  show "distinct (map req_ID reqs)" using ins by blast
  have "row_id ` set t \<inter> row_id ` set (map (requestRow now) reqs) = {}"
    using ins by (auto simp: image_image) (metis rev_image_eqI)
  with ins show "table_view t' = table_view t ++ cells_map (map newCell reqs)"
    by (simp add: table_view_append table_view_requests)
qed

lemma table_inv_insert:
  assumes "table_inv t" "insertRequests flt now k reqs t = Inr t'"
  shows "table_inv t'"
  using assms(1) insertRequests_Inr [OF assms(2)]
  by (auto simp: table_inv_def runnable_newCell comp_def) (metis rev_image_eqI)

section \<open>The operations on the contents\<close>

text \<open>
  Every operation that returns an error has rolled back: the cells and the application's tables are
  what they were, whichever database calls failed.
\<close>

lemma sq_Add_cases:
  assumes "sq_Add flt nxt now reqs s = (x, s')"
  obtains (Inl) e a where "x = Inl e" "s' = s\<lparr>sq_allocator := a\<rparr>"
  | (Inr) identified a t where "x = Inr (map req_ID identified)" "length identified = length reqs"
      "insertRequests flt now 0 identified (sq_cells s) = Inr t"
      "s' = s\<lparr>sq_allocator := a, sq_cells := t\<rparr>"
proof -
  obtain y a where y: "sq_identifyRequests nxt (sq_allocator s) reqs = (y, a)" by fastforce
  show thesis
  proof (cases x)
    case (Inl e)
    then have "s' = s\<lparr>sq_allocator := a\<rparr>"
      using assms y by (auto simp: sq_Add_def Let_def split: sum.splits option.splits)
    with Inl show ?thesis by (rule that(1))
  next
    case (Inr ids)
    with assms y obtain identified t where i: "y = Inr (identified, ids)"
      "insertRequests flt now 0 identified (sq_cells s) = Inr t"
      "s' = s\<lparr>sq_allocator := a, sq_cells := t\<rparr>"
      by (auto simp: sq_Add_def Let_def split: sum.splits option.splits)
    with y Inr show ?thesis by (auto dest!: sq_identifyRequests_Inr intro: that(2))
  qed
qed

lemma sq_Add_inv:
  assumes "sq_inv s" "sq_Add flt nxt now reqs s = (x, s')"
  shows "sq_inv s'"
  using assms(2,1) by (cases rule: sq_Add_cases) (auto dest: table_inv_insert)

lemma sq_Add_Inr:
  assumes "sq_Add flt nxt now reqs s = (Inr ids, s')"
  shows "\<exists>news. fresh_cells (sq_view s) news \<and> dom news = set ids \<and> distinct ids \<and>
     length ids = length reqs \<and> sq_view s' = sq_view s ++ news"
  using assms
proof (cases rule: sq_Add_cases)
  case (Inr identified a t)
  note fr = insertRequests_fresh [OF Inr(3)]
  show ?thesis
    using fr(1,2,4) Inr by (intro exI [of _ "cells_map (map newCell identified)"]) (simp add: image_image)
qed simp

lemma sq_ClaimNext_Some:
  assumes "sq_ClaimNext flt now s = (Inr (Some c), s')"
  obtains r where "r \<in> set (sq_cells s)" "sq_runnable now r"
    "\<And>q. q \<in> set (sq_cells s) \<Longrightarrow> sq_runnable now q \<Longrightarrow> row_key r \<le> row_key q"
    "c = (row_cell r)\<lparr>State := CellStateClaimed\<rparr>"
    "s' = s\<lparr>sq_cells := sql_update (\<lambda>q. row_id q = row_id r)
       (\<lambda>q. q\<lparr>row_state := CellStateClaimed\<rparr>) (sq_cells s)\<rparr>"
proof -
  from assms obtain r rs where r: "sql_select (sq_runnable now) row_key (sq_cells s) = r # rs"
    and c: "c = row_cell (r\<lparr>row_state := CellStateClaimed\<rparr>)"
      "s' = s\<lparr>sq_cells := sql_update (\<lambda>q. row_id q = row_id r)
       (\<lambda>q. q\<lparr>row_state := CellStateClaimed\<rparr>) (sq_cells s)\<rparr>"
    by (auto simp: sq_ClaimNext_def Let_def scanCell_def split: option.splits list.splits if_splits)
  from sql_select_hd [OF r] c show thesis by (intro that [of r]) auto
qed

lemma sq_ClaimNext_other:
  "sq_ClaimNext flt now s = (Inr None, s') \<Longrightarrow>
     s' = s \<and> (\<forall>r \<in> set (sq_cells s). \<not> sq_runnable now r)"
  "sq_ClaimNext flt now s = (Inl e, s') \<Longrightarrow> s' = s"
  by (auto simp: sq_ClaimNext_def Let_def scanCell_def sql_select_Nil
      split: option.splits list.splits if_splits)

lemma sq_ClaimNext_view:
  assumes "sq_inv s" "sq_ClaimNext flt now s = (Inr (Some c), s')"
  shows "(\<exists>c0. sq_view s (ID c) = Some c0 \<and> claimable now c0 \<and> c = c0\<lparr>State := CellStateClaimed\<rparr>) \<and>
    sq_view s' = (sq_view s)(ID c \<mapsto> c)"
proof -
  from sq_ClaimNext_Some [OF assms(2)] obtain r where
    r: "r \<in> set (sq_cells s)" "sq_runnable now r" "c = (row_cell r)\<lparr>State := CellStateClaimed\<rparr>"
    and s': "sq_cells s' = sql_update (\<lambda>q. row_id q = row_id r)
       (\<lambda>q. q\<lparr>row_state := CellStateClaimed\<rparr>) (sq_cells s)" by (metis sqlite_store.select_convs(2) sqlite_store.surjective sqlite_store.update_convs(2))
  have row: "sql_row row_id (row_id r) (sq_cells s) = Some r"
    using assms(1) r(1) by (simp add: table_inv_def sql_row_mem)
  have "sq_view s' = (sq_view s)(row_id r \<mapsto> row_cell (r\<lparr>row_state := CellStateClaimed\<rparr>))"
    unfolding s' by (rule table_view_update_one [OF assms(1) row]) auto
  with r show ?thesis
    by (auto simp: table_view_mem [OF assms(1)] sq_runnable_claimable simp del: fun_upd_apply)
qed

lemma sq_ClaimNext_inv:
  assumes "sq_inv s" "sq_ClaimNext flt now s = (x, s')"
  shows "sq_inv s'"
proof (cases "\<exists>c. x = Inr (Some c)")
  case True
  with assms(2) obtain c where c: "sq_ClaimNext flt now s = (Inr (Some c), s')" by blast
  from c show ?thesis
  proof (rule sq_ClaimNext_Some)
    fix r assume "s' = s\<lparr>sq_cells := sql_update (\<lambda>q. row_id q = row_id r)
       (\<lambda>q. q\<lparr>row_state := CellStateClaimed\<rparr>) (sq_cells s)\<rparr>"
    with assms(1) show "sq_inv s'"
      by (auto intro!: table_inv_update runnable_set_state simp: table_inv_def)
  qed
next
  case False
  then have "x = Inr None \<or> (\<exists>e. x = Inl e)" by (metis option.exhaust sum.exhaust)
  with assms sq_ClaimNext_other show ?thesis by blast
qed

lemma sq_Recover_view:
  "sq_Recover flt s = (Inr (), s') \<Longrightarrow> sq_view s' = (\<lambda>i. map_option recoverCell (sq_view s i))"
proof
  fix i assume "sq_Recover flt s = (Inr (), s')"
  then have s': "sq_cells s' = sql_update (\<lambda>q. row_state q = CellStateClaimed)
      (\<lambda>q. q\<lparr>row_state := CellStateReady\<rparr>) (sq_cells s)"
    by (auto simp: sq_Recover_def split: option.splits)
  show "sq_view s' i = map_option recoverCell (sq_view s i)"
    unfolding s' by (cases "sql_row row_id i (sq_cells s)")
      (simp_all add: table_view_update table_view_def [of "sq_cells s"] recoverCell_def)
qed

lemma sq_Recover_inv: "sq_inv s \<Longrightarrow> sq_Recover flt s = (x, s') \<Longrightarrow> sq_inv s'"
  by (auto simp: sq_Recover_def table_inv_def intro!: table_inv_update runnable_set_state
      split: option.splits)

section \<open>Applying results\<close>

lemma finishTx_Inl: "finishTx flt nxt now adds ws f s = (Inl e, s') \<Longrightarrow> \<exists>a. s' = s\<lparr>sq_allocator := a\<rparr>"
  by (auto simp: finishTx_def split: prod.splits sum.splits option.splits)

lemma finishTx_Inr:
  assumes "finishTx flt nxt now adds ws f s = (Inr (), s')"
  obtains identified t d a where
    "runSqlWork ws (sq_app s) = Inr d" "length identified = length adds"
    "insertRequests flt now 0 identified (sq_cells s) = Inr t"
    "s' = s\<lparr>sq_allocator := a, sq_cells := f t, sq_app := d\<rparr>"
proof -
  from assms obtain t d a where w: "applyResultWorkTx flt nxt now s adds ws = (Inr (t, d), a)"
    and s': "s' = s\<lparr>sq_allocator := a, sq_cells := f t, sq_app := d\<rparr>"
    by (auto simp: finishTx_def split: prod.splits sum.splits option.splits)
  from w obtain identified ids where "runSqlWork ws (sq_app s) = Inr d"
    "sq_identifyRequests nxt (sq_allocator s) adds = (Inr (identified, ids), a)"
    "insertRequests flt now 0 identified (sq_cells s) = Inr t"
    by (auto simp: applyResultWorkTx_def split: prod.splits sum.splits)
  with s' show thesis by (auto dest!: sq_identifyRequests_Inr intro: that)
qed

text \<open>The final write of each result.\<close>

fun result_write :: "go_time \<Rightarrow> cell \<Rightarrow> 'db result \<Rightarrow> cell_row list \<Rightarrow> cell_row list" where
  "result_write now c (Complete adds ws) =
     (if CurrentStep c + 1 \<ge> int (length (Steps c)) then sql_delete (claimed_row (ID c))
      else sql_update (claimed_row (ID c))
             (\<lambda>q. q\<lparr>row_current_step := CurrentStep c + 1, row_state := CellStateReady\<rparr>))"
| "result_write now c (Retry nb adds ws) =
     sql_update (claimed_row (ID c)) (\<lambda>q. q\<lparr>row_state := CellStateReady, row_not_before := nb\<rparr>)"
| "result_write now c (RetrySequence d adds ws) =
     sql_update (claimed_row (ID c))
       (\<lambda>q. q\<lparr>row_current_step := 0, row_state := CellStateReady, row_not_before := Some (now + d)\<rparr>)"
| "result_write now c (Kill adds ws) = sql_delete (claimed_row (ID c))"
| "result_write now c _ = id"

lemma sq_ApplyResult_Inl:
  "sq_ApplyResult flt nxt now claimed res s = (Inl e, s') \<Longrightarrow> \<exists>a. s' = s\<lparr>sq_allocator := a\<rparr>"
  unfolding sq_ApplyResult_def Let_def
  by (auto split: option.splits if_splits result.splits dest!: finishTx_Inl
      intro: exI [of _ "sq_allocator s"])

lemma sq_ApplyResult_Inr:
  assumes "sq_ApplyResult flt nxt now claimed res s = (Inr (), s')"
  obtains r where "sql_row row_id (ID claimed) (sq_cells s) = Some r" "claimed_row (ID claimed) r"
    "row_current_step r = CurrentStep claimed" "after_result now claimed res \<noteq> None"
    "finishTx flt nxt now (result_additions res) (result_works res) (result_write now claimed res) s
      = (Inr (), s')"
proof -
  from assms obtain r where r: "sql_row row_id (ID claimed) (sq_cells s) = Some r"
    "row_state r = CellStateClaimed" "row_current_step r = CurrentStep claimed"
    by (auto simp: sq_ApplyResult_def split: option.splits if_splits)
  moreover from r(1) have "row_id r = ID claimed" by (auto dest: sql_row_Some)
  ultimately show thesis
    using assms by (intro that [of r])
      (cases res; auto simp: sq_ApplyResult_def claimed_row_def Let_def split: option.splits if_splits)+
qed

lemma result_write_contents:
  assumes t: "table_inv t" "sql_row row_id (ID claimed) t = Some r" "claimed_row (ID claimed) r"
    and c: "row_current_step r = CurrentStep claimed" "Steps (row_cell r) = Steps claimed"
    and ar: "after_result now (row_cell r) res = Some c'"
  shows "table_view (result_write now claimed res t) = (table_view t)(ID claimed := c')"
    and "table_inv (result_write now claimed res t)"
proof -
  let ?P = "claimed_row (ID claimed)"
  have P: "\<And>q. ?P q \<Longrightarrow> row_id q = ID claimed" by (simp add: claimed_row_def)
  have rt: "r \<in> set t" using t(2) by (auto dest: sql_row_Some)
  have run: "runnable_cell (row_cell r)" using t(1) rt by (simp add: table_inv_def)
  then have len: "CurrentStep claimed < int (length (Steps claimed))"
    using c by (simp add: runnable_cell_def)
  have uniq: "q = r" if "q \<in> set t" "?P q" for q
    using that t(1,3) rt unfolding table_inv_def claimed_row_def
    by (metis sql_row_mem option.inject)
  have upd: "table_view (sql_update ?P f t) = (table_view t)(ID claimed := Some (row_cell (f r))) \<and>
      table_inv (sql_update ?P f t)"
    if "\<And>q. row_id (f q) = row_id q" "row_steps (f r) = row_steps r" "runnable_cell (row_cell (f r))" for f
    using that table_view_update_one [of t "ID claimed" r ?P f] t P
      table_inv_update [OF t(1), of f ?P] uniq by blast
  have del: "table_view (sql_delete ?P t) = (table_view t)(ID claimed := None) \<and> table_inv (sql_delete ?P t)"
    using table_view_delete_one [of t "ID claimed" r ?P] t P table_inv_delete [OF t(1)] by blast
  have "table_view (result_write now claimed res t) = (table_view t)(ID claimed := c') \<and>
      table_inv (result_write now claimed res t)"
  proof (cases c')
    case None
    with ar c len have "result_write now claimed res = sql_delete ?P"
      by (cases res) (auto split: if_splits)
    with None del show ?thesis by simp
  next
    case (Some d)
    with ar run have d: "runnable_cell d" by (auto dest: after_result_runnable)
    from Some ar c len obtain f where f: "result_write now claimed res = sql_update ?P f"
      "\<And>q. row_id (f q) = row_id q" "\<And>q. row_steps (f q) = row_steps q" "row_cell (f r) = d"
      by (cases res) (auto split: if_splits)
    with upd [of f] d Some show ?thesis by simp
  qed
  then show "table_view (result_write now claimed res t) = (table_view t)(ID claimed := c')"
    "table_inv (result_write now claimed res t)" by blast+
qed

lemma after_result_agree:
  "after_result now claimed res \<noteq> None \<longleftrightarrow> after_result now c res \<noteq> None"
  by (cases res) auto

lemma sq_ApplyResult_contents:
  assumes inv: "sq_inv s" and ok: "sq_ApplyResult flt nxt now claimed res s = (Inr (), s')"
    and steps: "\<forall>c0. sq_view s (ID claimed) = Some c0 \<longrightarrow> Steps c0 = Steps claimed"
  shows "applies now claimed res (sq_view s) (sq_view s')" and "sq_inv s'"
    and "runSqlWork (result_works res) (sq_app s) = Inr (sq_app s')"
proof -
  from sq_ApplyResult_Inr [OF ok] obtain r where
    r: "sql_row row_id (ID claimed) (sq_cells s) = Some r" "claimed_row (ID claimed) r"
      "row_current_step r = CurrentStep claimed" "after_result now claimed res \<noteq> None"
    and fin: "finishTx flt nxt now (result_additions res) (result_works res)
      (result_write now claimed res) s = (Inr (), s')" by metis
  from fin obtain identified t d a where
    w: "runSqlWork (result_works res) (sq_app s) = Inr d" "length identified = length (result_additions res)"
    and ins: "insertRequests flt now 0 identified (sq_cells s) = Inr t"
    and s': "s' = s\<lparr>sq_allocator := a, sq_cells := result_write now claimed res t, sq_app := d\<rparr>"
    by (rule finishTx_Inr)
  let ?news = "cells_map (map newCell identified)"
  note fr = insertRequests_fresh [OF ins]
  have v: "sq_view s (ID claimed) = Some (row_cell r)" using r(1) by (simp add: table_view_def)
  with steps have st: "Steps (row_cell r) = Steps claimed" by simp
  have rt: "sql_row row_id (ID claimed) t = Some r"
    using r(1) insertRequests_Inr [OF ins] by (simp add: sql_row_append)
  obtain c' where c': "after_result now (row_cell r) res = Some c'"
    using r(4) after_result_agree [of now claimed res "row_cell r"] by auto
  note wr = result_write_contents [OF table_inv_insert [OF inv ins] rt r(2,3) st c']
  show "sq_inv s'" using wr(2) by (simp add: s')
  show "runSqlWork (result_works res) (sq_app s) = Inr (sq_app s')" using w(1) by (simp add: s')
  have "ID claimed \<notin> dom ?news" using fr(1) v by (auto simp: fresh_cells_def)
  then have "sq_view s' = (sq_view s)(ID claimed := c') ++ ?news"
    using wr(1) fr(2) by (simp add: s' map_add_upd_notin del: fun_upd_apply)
  with v r(2,3) c' fr(1,3) w(2) show "applies now claimed res (sq_view s) (sq_view s')"
    unfolding applies_def by (auto simp: claimed_row_def simp del: fun_upd_apply)
qed

lemma sq_ApplyResult_inv:
  assumes "sq_inv s" "sq_ApplyResult flt nxt now claimed res s = (x, s')"
    "\<forall>c0. sq_view s (ID claimed) = Some c0 \<longrightarrow> Steps c0 = Steps claimed"
  shows "sq_inv s'"
proof (cases x)
  case (Inl e)
  with assms sq_ApplyResult_Inl show ?thesis by fastforce
next
  case (Inr u)
  with assms sq_ApplyResult_contents(2) show ?thesis by (metis old.unit.exhaust)
qed

section \<open>The SQLite store meets the contract\<close>

lemma ran_table_view: "table_inv t \<Longrightarrow> ran (table_view t) = row_cell ` set t"
  by (auto simp: ran_def elim!: table_view_SomeE intro: table_view_mem)

lemma sq_ListActive_cells:
  assumes "sq_inv s" "sq_ListActive flt s = Inr cs"
  shows "cs = map row_cell (sql_select (\<lambda>_. True) row_key (sq_cells s))"
    "set cs = ran (sq_view s) \<and> distinct (map ID cs)"
proof -
  have "res_map scanCell (sql_select (\<lambda>_. True) row_key (sq_cells s)) =
      Inr (map row_cell (sql_select (\<lambda>_. True) row_key (sq_cells s)))"
    using assms(1) by (intro res_map_total) (auto simp: scanCell_def table_inv_def)
  with assms(2) show cs: "cs = map row_cell (sql_select (\<lambda>_. True) row_key (sq_cells s))"
    by (auto simp: sq_ListActive_def split: option.splits)
  have "distinct (map row_id (sql_select (\<lambda>_. True) row_key (sq_cells s)))"
    using assms(1) by (simp add: sql_select_def table_inv_def distinct_map)
  then show "set cs = ran (sq_view s) \<and> distinct (map ID cs)"
    by (simp add: cs ran_table_view [OF assms(1)] comp_def)
qed

interpretation sq: listing_store sq_inv sq_view "sq_ClaimNext flt" "sq_ApplyResult flt nxt"
    "sq_Add flt nxt" "sq_Recover flt" "sq_ListActive flt"
  for flt :: db_faults and nxt :: "'a allocator_next"
proof unfold_locales
  fix s s' :: "('a, 'db) sqlite_store" and now
  show "wf_contents (sq_view s)" if "sq_inv s" using that by (rule table_inv_wf)
  show "sq_inv s'" if "sq_inv s" "sq_ClaimNext flt now s = (x, s')" for x
    using that by (rule sq_ClaimNext_inv)
  show "(\<exists>c0. sq_view s (ID c) = Some c0 \<and> claimable now c0 \<and> c = c0\<lparr>State := CellStateClaimed\<rparr>) \<and>
      sq_view s' = (sq_view s)(ID c \<mapsto> c)"
    if "sq_inv s" "sq_ClaimNext flt now s = (Inr (Some c), s')" for c
    using that by (rule sq_ClaimNext_view)
  show "sq_view s' = sq_view s \<and> (\<forall>i c. sq_view s i = Some c \<longrightarrow> \<not> claimable now c)"
    if "sq_ClaimNext flt now s = (Inr None, s')"
    using sq_ClaimNext_other(1) [OF that] by (auto simp: sq_runnable_claimable elim!: table_view_SomeE)
  show "sq_view s' = sq_view s" if "sq_ClaimNext flt now s = (Inl e, s')" for e
    using sq_ClaimNext_other(2) [OF that] by simp
  show "sq_inv s'" if "sq_inv s" "sq_ApplyResult flt nxt now c r s = (x, s')"
    "\<forall>c0. sq_view s (ID c) = Some c0 \<longrightarrow> Steps c0 = Steps c" for c x r
    using that by (rule sq_ApplyResult_inv)
  show "applies now c r (sq_view s) (sq_view s')"
    if "sq_inv s" "sq_ApplyResult flt nxt now c r s = (Inr (), s')"
      "\<forall>c0. sq_view s (ID c) = Some c0 \<longrightarrow> Steps c0 = Steps c" for c r
    using that by (rule sq_ApplyResult_contents)
  show "sq_view s' = sq_view s" if "sq_ApplyResult flt nxt now c r s = (Inl e, s')" for c e r
    using sq_ApplyResult_Inl [OF that] by auto
  show "sq_inv s'" if "sq_inv s" "sq_Add flt nxt now reqs s = (x, s')" for reqs x
    using that by (rule sq_Add_inv)
  show "\<exists>news. fresh_cells (sq_view s) news \<and> dom news = set ids \<and> distinct ids \<and>
      length ids = length reqs \<and> sq_view s' = sq_view s ++ news"
    if "sq_Add flt nxt now reqs s = (Inr ids, s')" for reqs ids
    using that by (rule sq_Add_Inr)
  show "sq_view s' = sq_view s" if "sq_Add flt nxt now reqs s = (Inl e, s')" for reqs e
    using that by (cases rule: sq_Add_cases) auto
  show "sq_inv s'" if "sq_inv s" "sq_Recover flt s = (x, s')" for x
    using that by (rule sq_Recover_inv)
  show "sq_view s' = (\<lambda>i. map_option recoverCell (sq_view s i))" if "sq_Recover flt s = (Inr (), s')"
    using that by (rule sq_Recover_view)
  show "set cs = ran (sq_view s) \<and> distinct (map ID cs)"
    if "sq_inv s" "sq_ListActive flt s = Inr cs" for cs
    using that by (rule sq_ListActive_cells)
qed

section \<open>Properties of the SQLite store\<close>


definition demo_row :: "cell_id \<Rightarrow> cell_row" where
  "demo_row i = (requestRow 0 (demo_request i))\<lparr>row_state := CellStateClaimed\<rparr>"

definition demo_db :: "(sequential_allocator, nat) sqlite_store" where
  "demo_db = \<lparr>sq_allocator = NewSequentialAllocator '''' 0,
     sq_cells = [demo_row ''a'', requestRow 0 (demo_request ''b'')], sq_app = 7\<rparr>"

definition demo_work :: "nat application_work" where
  "demo_work tx = (case tx of SqlTx d \<Rightarrow> Inr (SqlTx (Suc d)) | NoopApplicationTx \<Rightarrow> Inr NoopApplicationTx)"

abbreviation commit_fails :: db_faults where
  "commit_fails \<equiv> (\<lambda>_. None)(DbCommit \<mapsto> Err ''disk full'')"

lemma demo_db_inv: "sq_inv demo_db"
  by (simp add: demo_db_def demo_row_def table_inv_def demo_request_def runnable_cell_def wf_cell_def
      wf_steps_def demo_step_def newCell_def requestRow_def row_cell_def)


text \<open>
  A successful \<open>ApplyResult\<close> of a claimed cell commits everything at once: the transition of the
  cell, the fresh cells, and the effect of all application work, run once each and in order, on the
  application's tables.
\<close>

theorem sqlite_apply_result_commits:
  assumes "sq_inv s" "sq_view s (ID claimed) = Some claimed"
    "sq_ApplyResult flt nxt now claimed r s = (Inr (), s')"
  shows "applies now claimed r (sq_view s) (sq_view s') \<and>
    runSqlWork (result_works r) (sq_app s) = Inr (sq_app s') \<and> sq_inv s'"
  using sq_ApplyResult_contents [OF assms(1,3)] assms(2) by auto

theorem sqlite_apply_result_commits_witness:
  "\<exists>s'. sq_ApplyResult (\<lambda>_. None) SequentialAllocator_Next 9 (row_cell (demo_row ''a''))
      (Complete [demo_request ''z''] [Some demo_work]) demo_db = (Inr (), s') \<and>
    runSqlWork [Some demo_work] (7::nat) = Inr (sq_app s') \<and> sq_app s' = 8 \<and>
    applies 9 (row_cell (demo_row ''a'')) (Complete [demo_request ''z''] [Some demo_work])
      (sq_view demo_db) (sq_view s')"
proof -
  obtain s' where s': "sq_ApplyResult (\<lambda>_. None) SequentialAllocator_Next 9 (row_cell (demo_row ''a''))
      (Complete [demo_request ''z''] [Some demo_work]) demo_db = (Inr (), s')"
    by (simp add: sq_ApplyResult_def demo_db_def demo_row_def Let_def finishTx_def applyResultWorkTx_def
        demo_work_def demo_request_def demo_step_def requestRow_def row_cell_def validateSteps_def)
  have v: "sq_view demo_db (ID (row_cell (demo_row ''a''))) = Some (row_cell (demo_row ''a''))"
    by (simp add: table_view_def demo_db_def)
  have "sq_app demo_db = 7" by (simp add: demo_db_def)
  with sqlite_apply_result_commits [OF demo_db_inv v s'] s' show ?thesis
    by (auto simp: demo_work_def)
qed

text \<open>
  The SQLite store claims in the order of creation time (whole seconds) and, within one second, of
  the identifier: the claimed cell is due and no other due cell comes before it in that order.
\<close>

theorem sqlite_claim_order:
  assumes "sq_inv s" "sq_ClaimNext flt now s = (Inr (Some c), s')"
  shows "\<exists>r \<in> set (sq_cells s). ID c = row_id r \<and> sq_runnable now r \<and>
    (\<forall>q \<in> set (sq_cells s). sq_runnable now q \<longrightarrow>
       row_created_at r < row_created_at q \<or>
       row_created_at r = row_created_at q \<and> row_id r \<le> row_id q) \<and>
    sq_view s' = (sq_view s)(ID c \<mapsto> c) \<and> State c = CellStateClaimed"
proof -
  from assms(2) show ?thesis
  proof (rule sq_ClaimNext_Some)
    fix r assume r: "r \<in> set (sq_cells s)" "sq_runnable now r" "c = (row_cell r)\<lparr>State := CellStateClaimed\<rparr>"
      and least: "\<And>q. q \<in> set (sq_cells s) \<Longrightarrow> sq_runnable now q \<Longrightarrow> row_key r \<le> row_key q"
    have "row_created_at r < row_created_at q \<or> row_created_at r = row_created_at q \<and> row_id r \<le> row_id q"
      if "q \<in> set (sq_cells s)" "sq_runnable now q" for q
      using least [OF that] by (auto simp: row_key_def less_eq_prod_def)
    with r sq_ClaimNext_view [OF assms] show ?thesis by (intro bexI [of _ r]) auto
  qed
qed

theorem sqlite_claim_order_witness:
  "\<exists>c s'. sq_ClaimNext (\<lambda>_. None) 9 demo_db = (Inr (Some c), s') \<and> ID c = ''b'' \<and>
     (\<exists>r \<in> set (sq_cells demo_db). ID c = row_id r)"
proof -
  obtain c s' where c: "sq_ClaimNext (\<lambda>_. None) 9 demo_db = (Inr (Some c), s')" "ID c = ''b''"
    by (simp add: sq_ClaimNext_def demo_db_def demo_row_def requestRow_def demo_request_def
        sql_select_def sq_runnable_def scanCell_def Let_def)
  from sqlite_claim_order [OF demo_db_inv c(1)] c show ?thesis by blast
qed

section \<open>The memory store as the reference\<close>

lemma sq_identify_of_identify:
  "identifyRequests nxt a reqs = (Inr p, a') \<Longrightarrow> sq_identifyRequests nxt a reqs = (Inr p, a')"
proof (induction nxt a reqs arbitrary: p a' rule: identifyRequests.induct)
  case (2 nxt a req reqs)
  then have "validateCellRequest req = None" by (auto split: option.splits)
  moreover from this have "req_Steps req \<noteq> []" by (simp add: wf_steps_def)
  ultimately show ?case
    using 2 by (auto split: option.splits prod.splits sum.splits if_splits)
qed simp

lemma insertRequests_succeeds:
  assumes "distinct (map req_ID reqs)"
    "\<forall>r \<in> set reqs. req_ID r \<noteq> '''' \<and> wf_steps (req_Steps r) \<and> req_ID r \<notin> row_id ` set t"
  shows "insertRequests (\<lambda>_. None) now k reqs t = Inr (t @ map (requestRow now) reqs)"
  using assms
proof (induction reqs arbitrary: t k)
  case (Cons r reqs)
  then have "sql_row row_id (req_ID r) t = None" by (simp add: sql_row_None)
  moreover have "validateSteps (req_Steps r) = None" using Cons.prems by simp
  moreover have "insertRequests (\<lambda>_. None) now (Suc k) reqs (t @ [requestRow now r]) =
      Inr ((t @ [requestRow now r]) @ map (requestRow now) reqs)"
    using Cons.prems by (intro Cons.IH) (auto intro: rev_image_eqI)
  ultimately show ?case using Cons.prems by (simp del: validateSteps_None)
qed simp

lemma insertRequests_of_build:
  "buildNewCells (table_view t) [] reqs = Inr cs \<Longrightarrow>
   insertRequests (\<lambda>_. None) now k reqs t = Inr (t @ map (requestRow now) reqs)"
  by (intro insertRequests_succeeds) (auto simp: buildNewCells_Inr table_view_None)

lemma applyResultWorkLocked_Inr:
  "applyResultWorkLocked nxt s adds ws = (Inr cs, s\<lparr>allocator := a\<rparr>) \<Longrightarrow>
   \<exists>identified ids. identifyRequests nxt (allocator s) adds = (Inr (identified, ids), a) \<and>
     buildNewCells (cells s) [] identified = Inr cs \<and> cs = map newCell identified"
  by (auto simp: applyResultWorkLocked_def buildNewCellsLocked_def buildNewCells_Inr Let_def
      split: option.splits prod.splits sum.splits)
    (metis memory_store.select_convs(1) memory_store.surjective memory_store.update_convs(1))+



end
