(* ===== verification/Runtime.thy ===== *)
theory Runtime
  imports SqliteStore
begin

text \<open>
  registry_impl.go, inspect.go, the result appliers of result.go, worker.go (and its internal twin
  internal/worker/worker.go), cellar.go: handler registration, execution of one claimed cell, and
  the lifecycle of the runtime up to the scheduler loop.

  A handler is application code: it reads and changes an environment of type \<open>'e\<close> (the outside
  world, the context included) and returns a result. The JSON codec of a payload type is a
  parameter \<open>unmarshal\<close>. An interface value that may be nil is an option.
\<close>

section \<open>Inspection\<close>

record 'v inspection =
  insp_Cell :: cell
  insp_Payload :: 'v
  insp_PayloadFormat :: string
  insp_DecodeError :: "gerror option"

text \<open>
  A decoder: its name and its function, either of which may be unset. \<open>nilv\<close> is the nil value that
  accompanies an error.
\<close>

record 'v payload_decoder =
  dec_Name :: string
  dec_Fn :: "(string \<Rightarrow> 'v \<times> gerror option) option"

definition PayloadDecoder_Decode :: "'v \<Rightarrow> 'v payload_decoder \<Rightarrow> string \<Rightarrow> 'v \<times> gerror option" where
  "PayloadDecoder_Decode nilv d raw =
     (case dec_Fn d of
        None \<Rightarrow> (nilv, Some (Err ''decoder function is nil''))
      | Some f \<Rightarrow> f raw)"

definition PayloadDecoder_FormatName :: "'v payload_decoder \<Rightarrow> string" where
  "PayloadDecoder_FormatName d = (if dec_Name d = '''' then ''custom'' else dec_Name d)"

type_synonym 'v cell_inspector = "handler_name \<rightharpoonup> 'v payload_decoder"

definition RegisterDecoder ::
  "handler_name \<Rightarrow> 'v payload_decoder \<Rightarrow> 'v cell_inspector \<Rightarrow> 'v cell_inspector" where
  "RegisterDecoder name d insp = insp(name \<mapsto> d)"

text \<open>
  \<open>InspectCell\<close>; the values shown for an undecoded payload are the string itself or its base64
  text, injected into the payload type by \<open>text\<close>; \<open>utf8_valid\<close> and \<open>base64\<close> are the library's.
\<close>

definition InspectCell ::
  "(string \<Rightarrow> bool) \<Rightarrow> (string \<Rightarrow> string) \<Rightarrow> (string \<Rightarrow> 'v) \<Rightarrow> 'v \<Rightarrow> 'v cell_inspector \<Rightarrow> cell \<Rightarrow>
     'v inspection" where
  "InspectCell utf8_valid base64 as_text nilv insp c =
     (let s = currentStep c in
      case insp (HandlerName s) of
        Some d \<Rightarrow>
          (let (payload, err) = PayloadDecoder_Decode nilv d (Payload s) in
           \<lparr>insp_Cell = c, insp_Payload = payload,
            insp_PayloadFormat = PayloadDecoder_FormatName d, insp_DecodeError = err\<rparr>)
      | None \<Rightarrow>
          if utf8_valid (Payload s)
          then \<lparr>insp_Cell = c, insp_Payload = as_text (Payload s), insp_PayloadFormat = ''utf8'',
                insp_DecodeError = None\<rparr>
          else \<lparr>insp_Cell = c, insp_Payload = as_text (base64 (Payload s)),
                insp_PayloadFormat = ''base64'', insp_DecodeError = None\<rparr>)"

definition InspectAll ::
  "(string \<Rightarrow> bool) \<Rightarrow> (string \<Rightarrow> string) \<Rightarrow> (string \<Rightarrow> 'v) \<Rightarrow> 'v \<Rightarrow> 'v cell_inspector \<Rightarrow>
     (gerror + cell list) \<Rightarrow> gerror + 'v inspection list" where
  "InspectAll utf8_valid base64 as_text nilv insp listed =
     (case listed of
        Inl e \<Rightarrow> Inl e
      | Inr cs \<Rightarrow> Inr (map (InspectCell utf8_valid base64 as_text nilv insp) cs))"

section \<open>Registry\<close>

record ('e, 'db, 'v) registration =
  Execute :: "cell \<Rightarrow> 'e \<Rightarrow> 'db result \<times> 'e"
  Inspect :: "cell \<Rightarrow> 'v inspection"

record ('e, 'db, 'v) memory_registry =
  registrations :: "handler_name \<rightharpoonup> ('e, 'db, 'v) registration"
  frozen :: bool

definition NewMemoryRegistry :: "('e, 'db, 'v) memory_registry" where
  "NewMemoryRegistry = \<lparr>registrations = Map.empty, frozen = False\<rparr>"

definition Registry_Register ::
  "handler_name \<Rightarrow> ('e, 'db, 'v) registration option \<Rightarrow> ('e, 'db, 'v) memory_registry \<Rightarrow>
     gerror option \<times> ('e, 'db, 'v) memory_registry" where
  "Registry_Register name reg r =
     (if frozen r then (Some ErrRegistryFrozen, r)
      else if name = '''' then (Some ErrHandlerNameRequired, r)
      else case reg of
             None \<Rightarrow> (Some ErrRegistrationNil, r)
           | Some g \<Rightarrow>
               if registrations r name \<noteq> None then (Some ErrHandlerAlreadyRegistered, r)
               else (None, r\<lparr>registrations := (registrations r)(name \<mapsto> g)\<rparr>))"

definition Registry_Lookup ::
  "handler_name \<Rightarrow> ('e, 'db, 'v) memory_registry \<Rightarrow> ('e, 'db, 'v) registration option" where
  "Registry_Lookup name r = registrations r name"

definition Registry_Freeze :: "('e, 'db, 'v) memory_registry \<Rightarrow> ('e, 'db, 'v) memory_registry" where
  "Registry_Freeze r = r\<lparr>frozen := True\<rparr>"

text \<open>\<open>typedJSONRegistration\<close>: decode the current step's payload, then call the handler.\<close>

definition typedJSON_Execute ::
  "(string \<Rightarrow> gerror + 'p) \<Rightarrow> ('p \<Rightarrow> 'e \<Rightarrow> 'db result \<times> 'e) \<Rightarrow> cell \<Rightarrow> 'e \<Rightarrow> 'db result \<times> 'e" where
  "typedJSON_Execute unmarshal handle c e =
     (case unmarshal (currentStepPayload c) of
        Inl err \<Rightarrow> (ErrorResult ''decode handler payload'' (Some err), e)
      | Inr payload \<Rightarrow> handle payload e)"

definition typedJSON_Inspect ::
  "(string \<Rightarrow> gerror + 'v) \<Rightarrow> 'v \<Rightarrow> cell \<Rightarrow> 'v inspection" where
  "typedJSON_Inspect unmarshal zero c =
     (case unmarshal (currentStepPayload c) of
        Inl err \<Rightarrow> \<lparr>insp_Cell = c, insp_Payload = zero, insp_PayloadFormat = ''json'',
                    insp_DecodeError = Some err\<rparr>
      | Inr payload \<Rightarrow> \<lparr>insp_Cell = c, insp_Payload = payload, insp_PayloadFormat = ''json'',
                        insp_DecodeError = None\<rparr>)"

section \<open>The store interface\<close>

text \<open>
  A \<open>Store\<close> value: its operations on a store state \<open>'s\<close>. \<open>ops_ApplyResult\<close> is \<open>Some\<close> when the value
  is also a \<open>ResultStore\<close>. Operations that read the clock take the instant they read.
\<close>

record ('s, 'db) store_ops =
  ops_Add :: "go_time \<Rightarrow> cell_request list \<Rightarrow> 's \<Rightarrow> (gerror + cell_id list) \<times> 's"
  ops_ClaimNext :: "go_time \<Rightarrow> 's \<Rightarrow> (gerror + cell option) \<times> 's"
  ops_Complete :: "go_time \<Rightarrow> cell_id \<Rightarrow> cell_request list \<Rightarrow> 'db application_work option list \<Rightarrow>
                     's \<Rightarrow> (gerror + unit) \<times> 's"
  ops_Retry :: "cell_id \<Rightarrow> go_time option \<Rightarrow> 's \<Rightarrow> (gerror + unit) \<times> 's"
  ops_Recover :: "'s \<Rightarrow> (gerror + unit) \<times> 's"
  ops_ListActive :: "'s \<Rightarrow> gerror + cell list"
  ops_ApplyResult :: "(go_time \<Rightarrow> cell \<Rightarrow> 'db result \<Rightarrow> 's \<Rightarrow> (gerror + unit) \<times> 's) option"

definition memory_ops :: "'a allocator_next \<Rightarrow> ('a memory_store, 'db) store_ops" where
  "memory_ops nxt =
     \<lparr>ops_Add = (\<lambda>now. Add nxt), ops_ClaimNext = ClaimNext, ops_Complete = (\<lambda>now. CompleteCell nxt),
      ops_Retry = RetryCell, ops_Recover = Recover, ops_ListActive = ListActive,
      ops_ApplyResult = Some (ApplyResult nxt)\<rparr>"

definition sqlite_ops ::
  "db_faults \<Rightarrow> 'a allocator_next \<Rightarrow> (('a, 'db) sqlite_store, 'db) store_ops" where
  "sqlite_ops flt nxt =
     \<lparr>ops_Add = sq_Add flt nxt, ops_ClaimNext = sq_ClaimNext flt, ops_Complete = sq_Complete flt nxt,
      ops_Retry = sq_Retry flt, ops_Recover = sq_Recover flt, ops_ListActive = sq_ListActive flt,
      ops_ApplyResult = Some (sq_ApplyResult flt nxt)\<rparr>"

section \<open>Result appliers\<close>

type_synonym ('s, 'db) applier = "cell \<Rightarrow> 'db result \<Rightarrow> 's \<Rightarrow> (gerror + unit) \<times> 's"

fun MultiResultApplier :: "('s, 'db) applier option list \<Rightarrow> ('s, 'db) applier" where
  "MultiResultApplier [] c r s = (Inr (), s)"
| "MultiResultApplier (None # as) c r s = MultiResultApplier as c r s"
| "MultiResultApplier (Some a # as) c r s =
     (case a c r s of
        (Inl e, s') \<Rightarrow> (Inl e, s')
      | (Inr _, s') \<Rightarrow> MultiResultApplier as c r s')"

definition StoreResultApplier :: "('s, 'db) store_ops option \<Rightarrow> go_time \<Rightarrow> ('s, 'db) applier" where
  "StoreResultApplier store now c r s =
     (case store of
        None \<Rightarrow> (Inr (), s)
      | Some ops \<Rightarrow>
          (case r of
             Complete adds ws \<Rightarrow>
               (case ops_ApplyResult ops of
                  Some ap \<Rightarrow> ap now c r s
                | None \<Rightarrow> ops_Complete ops now (ID c) adds ws s)
           | Retry nb adds ws \<Rightarrow>
               (case ops_ApplyResult ops of
                  Some ap \<Rightarrow> ap now c r s
                | None \<Rightarrow>
                    if length adds > 0 \<or> length ws > 0
                    then (Inl (Err ''store does not support atomic retry side effects''), s)
                    else ops_Retry ops (ID c) nb s)
           | RetrySequence delay adds ws \<Rightarrow>
               if delay < 0 then (Inl (Err ''retry sequence delay must not be negative''), s)
               else (case ops_ApplyResult ops of
                  Some ap \<Rightarrow> ap now c r s
                | None \<Rightarrow>
                    if length adds > 0 \<or> length ws > 0
                    then (Inl (Err ''store does not support atomic sequence retry side effects''), s)
                    else ops_Retry ops (ID c) (Some (now + delay)) s)
           | Kill adds ws \<Rightarrow>
               (case ops_ApplyResult ops of
                  Some ap \<Rightarrow> ap now c r s
                | None \<Rightarrow> ops_Complete ops now (ID c) adds ws s)
           | _ \<Rightarrow> (Inr (), s)))"

section \<open>Worker\<close>

text \<open>
  \<open>Worker.Run\<close> in its two phases: finding and executing the handler, which touches only the
  environment, and applying the result to the store. \<open>Inl\<close> of the first phase is an early return.
\<close>

definition Worker_execute ::
  "('e, 'db, 'v) memory_registry option \<Rightarrow> cell \<Rightarrow> 'e \<Rightarrow> ('db result + 'db result) \<times> 'e" where
  "Worker_execute registry c e =
     (case registry of
        None \<Rightarrow> (Inl (ErrorResult ''registry is nil'' None), e)
      | Some g \<Rightarrow>
          if CurrentStep c < 0 \<or> CurrentStep c \<ge> int (length (Steps c))
          then (Inl (ErrorResult ''invalid current step'' None), e)
          else (case Registry_Lookup (HandlerName (Steps c ! nat (CurrentStep c))) g of
                  None \<Rightarrow> (Inl (ErrorResult ''handler not registered'' None), e)
                | Some reg \<Rightarrow> (let (r, e') = Execute reg c e in (Inr r, e'))))"

definition Worker_apply ::
  "('s, 'db) applier option list \<Rightarrow> cell \<Rightarrow> 'db result \<Rightarrow> 's \<Rightarrow> 'db result \<times> 's" where
  "Worker_apply appliers c r s =
     (case MultiResultApplier appliers c r s of
        (Inl e, s') \<Rightarrow> (ErrorResult ''apply result failed'' (Some e), s')
      | (Inr _, s') \<Rightarrow> (r, s'))"

definition Worker_Run ::
  "('e, 'db, 'v) memory_registry option \<Rightarrow> ('s, 'db) applier option list \<Rightarrow> cell \<Rightarrow> 'e \<Rightarrow> 's \<Rightarrow>
     'db result \<times> 'e \<times> 's" where
  "Worker_Run registry appliers c e s =
     (case Worker_execute registry c e of
        (Inl r, e') \<Rightarrow> (r, e', s)
      | (Inr r, e') \<Rightarrow> (let (r', s') = Worker_apply appliers c r s in (r', e', s')))"

text \<open>\<open>workerDispatcher.Dispatch\<close> turns an \<open>ErrorResult\<close> into an error.\<close>

definition dispatch_error :: "'db result \<Rightarrow> gerror option" where
  "dispatch_error r =
     (case r of
        ErrorResult m err \<Rightarrow> (case err of Some e \<Rightarrow> Some (Wrapped e m) | None \<Rightarrow> Some (Err m))
      | _ \<Rightarrow> None)"

definition Dispatch ::
  "('e, 'db, 'v) memory_registry option \<Rightarrow> ('s, 'db) applier option list \<Rightarrow> cell \<Rightarrow> 'e \<Rightarrow> 's \<Rightarrow>
     gerror option \<times> 'e \<times> 's" where
  "Dispatch registry appliers c e s =
     (let (r, e', s') = Worker_Run registry appliers c e s in (dispatch_error r, e', s'))"

section \<open>Cellar\<close>

record ('s, 'e, 'db, 'v) cellar =
  cl_ops :: "('s, 'db) store_ops option"
  cl_store :: 's
  cl_registry :: "('e, 'db, 'v) memory_registry"
  cl_started :: bool

definition NewCellar :: "('s, 'db) store_ops option \<Rightarrow> 's \<Rightarrow> ('s, 'e, 'db, 'v) cellar" where
  "NewCellar ops s = \<lparr>cl_ops = ops, cl_store = s, cl_registry = NewMemoryRegistry, cl_started = False\<rparr>"

definition Cellar_Register ::
  "handler_name \<Rightarrow> ('e, 'db, 'v) registration option \<Rightarrow> ('s, 'e, 'db, 'v) cellar \<Rightarrow>
     gerror option \<times> ('s, 'e, 'db, 'v) cellar" where
  "Cellar_Register name handler c =
     (if cl_started c then (Some ErrCellarStarted, c)
      else case handler of
             None \<Rightarrow> (Some ErrHandlerNil, c)
           | Some reg \<Rightarrow>
               (let (err, g) = Registry_Register name (Some reg) (cl_registry c)
                in (err, c\<lparr>cl_registry := g\<rparr>)))"

definition AddCell ::
  "go_time \<Rightarrow> cell_definition option \<Rightarrow> ('s, 'e, 'db, 'v) cellar \<Rightarrow>
     (gerror + cell_id) \<times> ('s, 'e, 'db, 'v) cellar" where
  "AddCell now def c =
     (case cl_ops c of
        None \<Rightarrow> (Inl ErrStoreNil, c)
      | Some ops \<Rightarrow>
          (case def of
             None \<Rightarrow> (Inl ErrCellNil, c)
           | Some (Inl e) \<Rightarrow> (Inl e, c)
           | Some (Inr request) \<Rightarrow>
               (case ops_Add ops now [request] (cl_store c) of
                  (Inl e, s') \<Rightarrow> (Inl e, c\<lparr>cl_store := s'\<rparr>)
                | (Inr ids, s') \<Rightarrow>
                    (if length ids \<noteq> 1 then Inl (Err ''store returned a wrong number of cell IDs'')
                     else Inr (hd ids), c\<lparr>cl_store := s'\<rparr>))))"

definition AddSequence ::
  "('p \<Rightarrow> gerror + string) \<Rightarrow> go_time \<Rightarrow> 'p step list \<Rightarrow> ('s, 'e, 'db, 'v) cellar \<Rightarrow>
     (gerror + cell_id) \<times> ('s, 'e, 'db, 'v) cellar" where
  "AddSequence marshalJSON now ss c =
     (case cl_ops c of
        None \<Rightarrow> (Inl ErrStoreNil, c)
      | Some _ \<Rightarrow>
          (case NewSequence marshalJSON ss of
             Inl e \<Rightarrow> (Inl e, c)
           | Inr sequence \<Rightarrow> AddCell now (Some sequence) c))"

definition Cellar_Add ::
  "('p \<Rightarrow> gerror + string) \<Rightarrow> go_time \<Rightarrow> handler_name \<Rightarrow> 'p \<Rightarrow> ('s, 'e, 'db, 'v) cellar \<Rightarrow>
     (gerror + cell_id) \<times> ('s, 'e, 'db, 'v) cellar" where
  "Cellar_Add marshalJSON now name payload c =
     (case cl_ops c of
        None \<Rightarrow> (Inl ErrStoreNil, c)
      | Some _ \<Rightarrow>
          (case NewCellDefinition marshalJSON name payload of
             Inl e \<Rightarrow> (Inl e, c)
           | Inr definition' \<Rightarrow> AddCell now (Some definition') c))"

fun firstUnregistered :: "('e, 'db, 'v) memory_registry \<Rightarrow> cell_step list \<Rightarrow> handler_name option" where
  "firstUnregistered g [] = None"
| "firstUnregistered g (s # ss) =
     (case Registry_Lookup (HandlerName s) g of
        None \<Rightarrow> Some (HandlerName s)
      | Some _ \<Rightarrow> firstUnregistered g ss)"

definition validateHandlers ::
  "('s, 'db) store_ops \<Rightarrow> 's \<Rightarrow> ('e, 'db, 'v) memory_registry \<Rightarrow> gerror option" where
  "validateHandlers ops s g =
     (case ops_ListActive ops s of
        Inl e \<Rightarrow> Some (Wrapped e ''list active cells'')
      | Inr cs \<Rightarrow>
          (case firstUnregistered g (concat (map Steps cs)) of
             None \<Rightarrow> None
           | Some name \<Rightarrow> Some (Wrapped ErrHandlerNotRegistered name)))"

text \<open>
  \<open>Start\<close> up to the call of the scheduler's loop (modelled in the theory Scheduler): \<open>None\<close> means
  that the loop is entered.
\<close>

definition Start_prepare ::
  "('s, 'e, 'db, 'v) cellar \<Rightarrow> gerror option \<times> ('s, 'e, 'db, 'v) cellar" where
  "Start_prepare c =
     (if cl_started c then (Some ErrCellarStarted, c)
      else case cl_ops c of
        None \<Rightarrow> (Some ErrStoreNil, c)
      | Some ops \<Rightarrow>
          (case validateHandlers ops (cl_store c) (cl_registry c) of
             Some e \<Rightarrow> (Some e, c)
           | None \<Rightarrow>
               (case ops_Recover ops (cl_store c) of
                  (Inl e, s') \<Rightarrow> (Some (Wrapped e ''recover store''), c\<lparr>cl_store := s'\<rparr>)
                | (Inr _, s') \<Rightarrow>
                    (None, c\<lparr>cl_store := s', cl_registry := Registry_Freeze (cl_registry c),
                             cl_started := True\<rparr>))))"

section \<open>Registration\<close>

text \<open>A name is bound at most once, and nothing is bound after \<open>Freeze\<close>.\<close>

lemma Registry_Register_None:
  "Registry_Register name reg r = (None, r') \<longleftrightarrow>
     \<not> frozen r \<and> name \<noteq> '''' \<and> registrations r name = None \<and>
     (\<exists>g. reg = Some g \<and> r' = r\<lparr>registrations := (registrations r)(name \<mapsto> g)\<rparr>)"
  by (auto simp: Registry_Register_def split: option.splits)

lemma Registry_Register_keeps:
  assumes "Registry_Register name reg r = (x, r')" "Registry_Lookup h r = Some g"
  shows "Registry_Lookup h r' = Some g"
  using assms by (auto simp: Registry_Register_def Registry_Lookup_def split: if_splits option.splits)

lemma Registry_Register_error: "Registry_Register name reg r = (Some e, r') \<Longrightarrow> r' = r"
  by (auto simp: Registry_Register_def split: if_splits option.splits)

lemma Lookup_Freeze [simp]: "Registry_Lookup h (Registry_Freeze r) = Registry_Lookup h r"
  by (simp add: Registry_Lookup_def Registry_Freeze_def)

lemma frozen_Freeze [simp]: "frozen (Registry_Freeze r)"
  by (simp add: Registry_Freeze_def)

lemma frozen_Register [simp]: "frozen r \<Longrightarrow> Registry_Register name reg r = (Some ErrRegistryFrozen, r)"
  by (simp add: Registry_Register_def)

section \<open>Handlers of the stored cells\<close>

definition steps_registered :: "('e, 'db, 'v) memory_registry \<Rightarrow> cell_step list \<Rightarrow> bool" where
  "steps_registered g ss \<longleftrightarrow> (\<forall>s \<in> set ss. Registry_Lookup (HandlerName s) g \<noteq> None)"

definition handlers_registered ::
  "('e, 'db, 'v) memory_registry \<Rightarrow> (cell_id \<rightharpoonup> cell) \<Rightarrow> bool" where
  "handlers_registered g m \<longleftrightarrow> (\<forall>i c. m i = Some c \<longrightarrow> steps_registered g (Steps c))"

lemma firstUnregistered_None: "firstUnregistered g ss = None \<longleftrightarrow> steps_registered g ss"
  by (induction ss) (auto simp: steps_registered_def split: option.splits)

lemma firstUnregistered_Some:
  "firstUnregistered g ss = Some h \<Longrightarrow> Registry_Lookup h g = None \<and> h \<in> HandlerName ` set ss"
  by (induction ss) (auto split: option.splits)

lemma steps_registered_concat:
  "steps_registered g (concat xss) \<longleftrightarrow> (\<forall>xs \<in> set xss. steps_registered g xs)"
  by (auto simp: steps_registered_def)

lemma handlers_registered_ran:
  "handlers_registered g m \<longleftrightarrow> (\<forall>c \<in> ran m. steps_registered g (Steps c))"
  by (auto simp: handlers_registered_def ran_def)

lemma handlers_registered_Freeze [simp]:
  "handlers_registered (Registry_Freeze g) m = handlers_registered g m"
  by (simp add: handlers_registered_def steps_registered_def)

lemma handlers_registered_recover [simp]:
  "handlers_registered g (\<lambda>i. map_option recoverCell (m i)) = handlers_registered g m"
  by (force simp: handlers_registered_def)

lemma after_result_steps: "after_result now c r = Some (Some c') \<Longrightarrow> Steps c' = Steps c"
  by (cases r) (auto split: if_splits)

section \<open>Worker\<close>

lemma Worker_execute_runnable:
  assumes "runnable_cell c" "steps_registered g (Steps c)"
  shows "\<exists>reg. Registry_Lookup (HandlerName (currentStep c)) g = Some reg \<and>
    Worker_execute (Some g) c e = (Inr (fst (Execute reg c e)), snd (Execute reg c e))"
proof -
  from assms(1) have cs: "0 \<le> CurrentStep c" "CurrentStep c < int (length (Steps c))"
    by (auto simp: runnable_cell_def wf_cell_def)
  then have "currentStep c = Steps c ! nat (CurrentStep c)" "nat (CurrentStep c) < length (Steps c)"
    by (auto simp: currentStep_def)
  with assms(2) obtain reg where "Registry_Lookup (HandlerName (currentStep c)) g = Some reg"
    unfolding steps_registered_def by (metis nth_mem option.exhaust)
  with cs \<open>currentStep c = _\<close> show ?thesis
    by (simp add: Worker_execute_def split: prod.splits)
qed

lemma StoreResultApplier_ResultStore:
  assumes "ops_ApplyResult ops = Some ap"
  shows "StoreResultApplier (Some ops) now c r s =
    (if after_result now c r \<noteq> None then ap now c r s
     else case r of RetrySequence d adds ws \<Rightarrow> (Inl (Err ''retry sequence delay must not be negative''), s)
          | _ \<Rightarrow> (Inr (), s))"
  using assms by (cases r) (auto simp: StoreResultApplier_def)

lemma MultiResultApplier_one [simp]: "MultiResultApplier [Some a] c r s = a c r s"
proof -
  obtain x s' where "a c r s = (x, s')" by fastforce
  then show ?thesis by (cases x) simp_all
qed

section \<open>Starting\<close>

lemma Start_prepare_None:
  "Start_prepare c = (None, c') \<longleftrightarrow>
     \<not> cl_started c \<and>
     (\<exists>ops s'. cl_ops c = Some ops \<and> validateHandlers ops (cl_store c) (cl_registry c) = None \<and>
        ops_Recover ops (cl_store c) = (Inr (), s') \<and>
        c' = c\<lparr>cl_store := s', cl_registry := Registry_Freeze (cl_registry c), cl_started := True\<rparr>)"
proof (cases "cl_ops c")
  case (Some ops)
  obtain x s' where "ops_Recover ops (cl_store c) = (x, s')" by fastforce
  with Some show ?thesis
    by (cases x; cases "validateHandlers ops (cl_store c) (cl_registry c)")
      (auto simp: Start_prepare_def)
qed (simp add: Start_prepare_def)

context listing_store
begin

lemma start_ok:
  assumes "inv (cl_store c)" "cl_ops c = Some ops" "ops_ListActive ops = list_active"
    "ops_Recover ops = recover" "Start_prepare c = (None, c')"
  shows "inv (cl_store c') \<and> handlers_registered (cl_registry c') (view (cl_store c')) \<and>
    (\<forall>i d. view (cl_store c') i = Some d \<longrightarrow> State d = CellStateReady) \<and>
    frozen (cl_registry c') \<and> cl_started c'"
proof -
  from assms(2,4,5) obtain s' where v: "validateHandlers ops (cl_store c) (cl_registry c) = None"
    and r: "recover (cl_store c) = (Inr (), s')"
    and c': "c' = c\<lparr>cl_store := s', cl_registry := Registry_Freeze (cl_registry c), cl_started := True\<rparr>"
    by (auto simp: Start_prepare_None)
  from v assms(3) obtain cs where l: "list_active (cl_store c) = Inr cs"
    and reg: "steps_registered (cl_registry c) (concat (map Steps cs))"
    by (auto simp: validateHandlers_def firstUnregistered_None split: sum.splits option.splits)
  from list_active_Inr [OF assms(1) l] reg have h: "handlers_registered (cl_registry c) (view (cl_store c))"
    by (auto simp: handlers_registered_ran steps_registered_concat)
  note view = recover_Inr [OF assms(1) r]
  have "State (recoverCell d) = CellStateReady" if "view (cl_store c) i = Some d" for i d
    using inv_wf [OF assms(1)] that
    by (auto simp: recoverCell_def runnable_cell_def wf_cell_def dest!: wf_contentsD)
  with h view recover_inv [OF assms(1) r] show ?thesis by (auto simp: c')
qed

end

end
