(* ===== verification/Scheduler.thy ===== *)
theory Scheduler
  imports Runtime
begin

text \<open>
  scheduler.go: \<open>Scheduler.Run\<close> and the goroutines it starts, as a step relation. One step is one
  communication of the main loop, one store call, or one action of a dispatch goroutine; the steps of
  the loop, of the goroutines, of the context that may be cancelled at any time and of the
  application that may add cells at any time interleave freely.

  \<open>sc_capacity\<close> and \<open>sc_errors\<close> are the buffered channels \<open>capacity\<close> (\<open>n\<close> slots) and \<open>dispatchErrors\<close>
  (one slot); \<open>sc_running\<close> is the wait group's set of goroutines with what each does next;
  \<open>sc_log\<close> is a history variable: the cells whose dispatch has ended and the result \<open>Worker.Run\<close>
  returned for them.
\<close>

section \<open>Construction\<close>

record scheduler =
  pollDelay :: go_duration
  workers :: int

definition NewScheduler :: "int \<Rightarrow> go_duration \<Rightarrow> scheduler" where
  "NewScheduler n d =
     \<lparr>pollDelay = (if d \<le> 0 then Second else d), workers = (if n \<le> 0 then 1 else n)\<rparr>"

section \<open>State\<close>

text \<open>
  Where the main loop is: at the first \<open>select\<close>, at the second one, before \<open>ClaimNext\<close>, at the poll
  timer's \<open>select\<close>, in \<open>stop(err)\<close> waiting for the goroutines, returned.
\<close>

datatype sched_pc =
    AtSelect | AtRecheck | AtClaim | AtPoll | AtWait "gerror option" | AtReturn "gerror option"

text \<open>
  What a dispatch goroutine does next: execute the handler, apply its result, report an error, give
  its token back, leave the wait group.
\<close>

datatype (dead 'db) phase = Executing | Applying "'db result" | Reporting gerror | Releasing | Finishing

record ('s, 'e, 'db) sched =
  sc_pc :: sched_pc
  sc_capacity :: nat
  sc_errors :: "gerror option"
  sc_cancelled :: bool
  sc_running :: "(cell \<times> 'db phase) list"
  sc_store :: 's
  sc_env :: 'e
  sc_log :: "(cell \<times> 'db result) list"

definition sched_init :: "nat \<Rightarrow> 's \<Rightarrow> 'e \<Rightarrow> ('s, 'e, 'db) sched" where
  "sched_init n s e = \<lparr>sc_pc = AtSelect, sc_capacity = n, sc_errors = None, sc_cancelled = False,
     sc_running = [], sc_store = s, sc_env = e, sc_log = []\<rparr>"

text \<open>\<open>stop(err)\<close> begins with \<open>cancel()\<close>.\<close>

definition stop_with :: "gerror option \<Rightarrow> ('s, 'e, 'db) sched \<Rightarrow> ('s, 'e, 'db) sched" where
  "stop_with r S = S\<lparr>sc_pc := AtWait r, sc_cancelled := True\<rparr>"

definition set_phase :: "nat \<Rightarrow> cell \<Rightarrow> 'db phase \<Rightarrow> ('s, 'e, 'db) sched \<Rightarrow> ('s, 'e, 'db) sched" where
  "set_phase k c p S = S\<lparr>sc_running := (sc_running S)[k := (c, p)]\<rparr>"

text \<open>The end of \<open>Dispatch\<close>: an error goes to the reporting branch.\<close>

definition after_dispatch :: "'db result \<Rightarrow> 'db phase" where
  "after_dispatch r = (case dispatch_error r of None \<Rightarrow> Releasing | Some e \<Rightarrow> Reporting e)"

definition end_dispatch ::
  "nat \<Rightarrow> cell \<Rightarrow> 'db result \<Rightarrow> ('s, 'e, 'db) sched \<Rightarrow> ('s, 'e, 'db) sched" where
  "end_dispatch k c r S = (set_phase k c (after_dispatch r) S)\<lparr>sc_log := sc_log S @ [(c, r)]\<rparr>"

definition drop_goroutine :: "nat \<Rightarrow> ('s, 'e, 'db) sched \<Rightarrow> ('s, 'e, 'db) sched" where
  "drop_goroutine k S = S\<lparr>sc_running := take k (sc_running S) @ drop (Suc k) (sc_running S)\<rparr>"

section \<open>Steps\<close>

inductive sched_step ::
  "('s, 'db) store_ops \<Rightarrow> ('e, 'db, 'v) memory_registry \<Rightarrow> nat \<Rightarrow>
     ('s, 'e, 'db) sched \<Rightarrow> ('s, 'e, 'db) sched \<Rightarrow> bool"
  for ops :: "('s, 'db) store_ops" and g :: "('e, 'db, 'v) memory_registry" and n :: nat where
  ctx_cancel: "sched_step ops g n S (S\<lparr>sc_cancelled := True\<rparr>)"
| app_add: "ops_Add ops now reqs (sc_store S) = (x, s') \<Longrightarrow>
    sched_step ops g n S (S\<lparr>sc_store := s'\<rparr>)"
| select_done: "sc_pc S = AtSelect \<Longrightarrow> sc_cancelled S \<Longrightarrow> sched_step ops g n S (stop_with None S)"
| select_error: "sc_pc S = AtSelect \<Longrightarrow> sc_errors S = Some e \<Longrightarrow>
    sched_step ops g n S (stop_with (Some e) (S\<lparr>sc_errors := None\<rparr>))"
| select_capacity: "sc_pc S = AtSelect \<Longrightarrow> sc_capacity S = Suc k \<Longrightarrow>
    sched_step ops g n S (S\<lparr>sc_capacity := k, sc_pc := AtRecheck\<rparr>)"
| recheck_done: "sc_pc S = AtRecheck \<Longrightarrow> sc_cancelled S \<Longrightarrow> sc_capacity S < n \<Longrightarrow>
    sched_step ops g n S (stop_with None (S\<lparr>sc_capacity := Suc (sc_capacity S)\<rparr>))"
| recheck_error: "sc_pc S = AtRecheck \<Longrightarrow> sc_errors S = Some e \<Longrightarrow> sc_capacity S < n \<Longrightarrow>
    sched_step ops g n S
      (stop_with (Some e) (S\<lparr>sc_errors := None, sc_capacity := Suc (sc_capacity S)\<rparr>))"
| recheck_default: "sc_pc S = AtRecheck \<Longrightarrow> \<not> sc_cancelled S \<Longrightarrow> sc_errors S = None \<Longrightarrow>
    sched_step ops g n S (S\<lparr>sc_pc := AtClaim\<rparr>)"
| claim_error: "sc_pc S = AtClaim \<Longrightarrow> ops_ClaimNext ops now (sc_store S) = (Inl e, s') \<Longrightarrow>
    sc_capacity S < n \<Longrightarrow>
    sched_step ops g n S (stop_with (Some (Wrapped e ''claim next cell''))
      (S\<lparr>sc_store := s', sc_capacity := Suc (sc_capacity S)\<rparr>))"
| claim_none: "sc_pc S = AtClaim \<Longrightarrow> ops_ClaimNext ops now (sc_store S) = (Inr None, s') \<Longrightarrow>
    sc_capacity S < n \<Longrightarrow>
    sched_step ops g n S (S\<lparr>sc_store := s', sc_capacity := Suc (sc_capacity S), sc_pc := AtPoll\<rparr>)"
| claim_cell: "sc_pc S = AtClaim \<Longrightarrow> ops_ClaimNext ops now (sc_store S) = (Inr (Some c), s') \<Longrightarrow>
    sched_step ops g n S (S\<lparr>sc_store := s', sc_running := sc_running S @ [(c, Executing)],
      sc_pc := AtSelect\<rparr>)"
| poll_done: "sc_pc S = AtPoll \<Longrightarrow> sc_cancelled S \<Longrightarrow> sched_step ops g n S (stop_with None S)"
| poll_error: "sc_pc S = AtPoll \<Longrightarrow> sc_errors S = Some e \<Longrightarrow>
    sched_step ops g n S (stop_with (Some e) (S\<lparr>sc_errors := None\<rparr>))"
| poll_timer: "sc_pc S = AtPoll \<Longrightarrow> sched_step ops g n S (S\<lparr>sc_pc := AtSelect\<rparr>)"
| wait_error: "sc_pc S = AtWait (Some e) \<Longrightarrow> sc_running S = [] \<Longrightarrow>
    sched_step ops g n S (S\<lparr>sc_pc := AtReturn (Some e)\<rparr>)"
| wait_nil: "sc_pc S = AtWait None \<Longrightarrow> sc_running S = [] \<Longrightarrow>
    sched_step ops g n S (S\<lparr>sc_pc := AtReturn (sc_errors S), sc_errors := None\<rparr>)"
| exec_early: "k < length (sc_running S) \<Longrightarrow> sc_running S ! k = (c, Executing) \<Longrightarrow>
    Worker_execute (Some g) c (sc_env S) = (Inl r, e') \<Longrightarrow>
    sched_step ops g n S (end_dispatch k c r (S\<lparr>sc_env := e'\<rparr>))"
| exec_handler: "k < length (sc_running S) \<Longrightarrow> sc_running S ! k = (c, Executing) \<Longrightarrow>
    Worker_execute (Some g) c (sc_env S) = (Inr r, e') \<Longrightarrow>
    sched_step ops g n S (set_phase k c (Applying r) (S\<lparr>sc_env := e'\<rparr>))"
| apply_result: "k < length (sc_running S) \<Longrightarrow> sc_running S ! k = (c, Applying r) \<Longrightarrow>
    Worker_apply [Some (StoreResultApplier (Some ops) now)] c r (sc_store S) = (r', s') \<Longrightarrow>
    sched_step ops g n S (end_dispatch k c r' (S\<lparr>sc_store := s'\<rparr>))"
| report: "k < length (sc_running S) \<Longrightarrow> sc_running S ! k = (c, Reporting e) \<Longrightarrow>
    sched_step ops g n S
      (set_phase k c Releasing
        (S\<lparr>sc_errors := (case sc_errors S of None \<Rightarrow> Some (Wrapped e (ID c)) | Some e' \<Rightarrow> Some e')\<rparr>))"
| release: "k < length (sc_running S) \<Longrightarrow> sc_running S ! k = (c, Releasing) \<Longrightarrow> sc_capacity S < n \<Longrightarrow>
    sched_step ops g n S (set_phase k c Finishing (S\<lparr>sc_capacity := Suc (sc_capacity S)\<rparr>))"
| finish: "k < length (sc_running S) \<Longrightarrow> sc_running S ! k = (c, Finishing) \<Longrightarrow>
    sched_step ops g n S (drop_goroutine k S)"

definition sched_reachable ::
  "('s, 'db) store_ops \<Rightarrow> ('e, 'db, 'v) memory_registry \<Rightarrow> nat \<Rightarrow> ('s, 'e, 'db) sched \<Rightarrow>
     ('s, 'e, 'db) sched \<Rightarrow> bool" where
  "sched_reachable ops g n = (sched_step ops g n)\<^sup>*\<^sup>*"

section \<open>Tokens and goroutines\<close>

definition holds_token :: "'db phase \<Rightarrow> bool" where
  "holds_token p \<longleftrightarrow> p \<noteq> Finishing"

text \<open>The goroutine has not yet ended its \<open>Dispatch\<close> call.\<close>

fun dispatching :: "'db phase \<Rightarrow> bool" where
  "dispatching Executing = True"
| "dispatching (Applying r) = True"
| "dispatching _ = False"

definition pc_token :: "sched_pc \<Rightarrow> nat" where
  "pc_token pc = (if pc = AtRecheck \<or> pc = AtClaim then 1 else 0)"

definition tokens :: "('s, 'e, 'db) sched \<Rightarrow> nat" where
  "tokens S = sc_capacity S + length (filter (\<lambda>(c, p). holds_token p) (sc_running S)) + pc_token (sc_pc S)"

definition flight_cells :: "(cell \<times> 'db phase) list \<Rightarrow> cell list" where
  "flight_cells gs = map fst (filter (\<lambda>(c, p). dispatching p) gs)"

definition in_flight :: "('s, 'e, 'db) sched \<Rightarrow> cell list" where
  "in_flight S = flight_cells (sc_running S)"

definition reporting :: "('s, 'e, 'db) sched \<Rightarrow> bool" where
  "reporting S \<longleftrightarrow> (\<exists>c e. (c, Reporting e) \<in> set (sc_running S))"

definition stopping_with_error :: "sched_pc \<Rightarrow> bool" where
  "stopping_with_error pc = (case pc of AtWait (Some _) \<Rightarrow> True | AtReturn (Some _) \<Rightarrow> True | _ \<Rightarrow> False)"

text \<open>A dispatch that ended without changing the state of its cell.\<close>

fun unsettled :: "'db result \<Rightarrow> bool" where
  "unsettled (ErrorResult m e) = True"
| "unsettled OtherResult = True"
| "unsettled _ = False"

inductive_cases sched_stepE: "sched_step ops g n S S'"

lemma goroutine_split:
  assumes "k < length gs" "gs ! k = p"
  shows "\<exists>us vs. gs = us @ p # vs \<and> gs[k := q] = us @ q # vs \<and> take k gs @ drop (Suc k) gs = us @ vs"
  using assms
  by (intro exI [of _ "take k gs"] exI [of _ "drop (Suc k) gs"])
    (auto simp: upd_conv_take_nth_drop id_take_nth_drop [symmetric])

lemma flight_cells_simps [simp]:
  "flight_cells [] = []"
  "flight_cells (us @ vs) = flight_cells us @ flight_cells vs"
  "flight_cells ((c, p) # vs) = (if dispatching p then c # flight_cells vs else flight_cells vs)"
  by (simp_all add: flight_cells_def)

lemma holds_token_simps [simp]:
  "holds_token Executing" "holds_token (Applying r)" "holds_token (Reporting e)"
  "holds_token Releasing" "\<not> holds_token Finishing" "holds_token (after_dispatch r)"
  by (auto simp: holds_token_def after_dispatch_def split: option.splits)

lemma dispatching_after [simp]: "\<not> dispatching (after_dispatch r)"
  by (auto simp: after_dispatch_def split: option.splits)

lemmas sched_update_defs = stop_with_def set_phase_def end_dispatch_def drop_goroutine_def

text \<open>
  Every step conserves the tokens: each is in the channel, with a goroutine that has not released it,
  or with the main loop between its first \<open>select\<close> and the claim.
\<close>

lemma tokens_set_phase:
  assumes "k < length (sc_running S)" "sc_running S ! k = (c, p)"
  shows "tokens (set_phase k c q S) + (if holds_token p then 1 else 0) =
    tokens S + (if holds_token q then 1 else 0)"
  using length_filter_update [OF assms(1), of "\<lambda>(c, p). holds_token p" "(c, q)"] assms(2)
  by (simp add: tokens_def set_phase_def)

lemma tokens_drop:
  assumes "k < length (sc_running S)" "sc_running S ! k = (c, Finishing)"
  shows "tokens (drop_goroutine k S) = tokens S"
  using length_filter_drop_nth [OF assms(1), of "\<lambda>(c, p). holds_token p"] assms(2)
  by (simp add: tokens_def drop_goroutine_def)

lemma tokens_fields [simp]:
  "tokens (S\<lparr>sc_env := x1\<rparr>) = tokens S" "tokens (S\<lparr>sc_store := x2\<rparr>) = tokens S"
  "tokens (S\<lparr>sc_errors := x3\<rparr>) = tokens S" "tokens (S\<lparr>sc_log := x4\<rparr>) = tokens S"
  "tokens (S\<lparr>sc_cancelled := x5\<rparr>) = tokens S"
  by (simp_all add: tokens_def)

lemma tokens_step:
  assumes "sched_step ops g n S S'"
  shows "tokens S' = tokens S"
  using assms
proof cases
  case (exec_early k c r e')
  then show ?thesis using tokens_set_phase [of k "S\<lparr>sc_env := e'\<rparr>" c Executing "after_dispatch r"]
    by (simp add: end_dispatch_def)
next
  case (exec_handler k c r e')
  then show ?thesis using tokens_set_phase [of k "S\<lparr>sc_env := e'\<rparr>" c Executing "Applying r"] by simp
next
  case (apply_result k c r now r' s')
  then show ?thesis using tokens_set_phase [of k "S\<lparr>sc_store := s'\<rparr>" c "Applying r" "after_dispatch r'"]
    by (simp add: end_dispatch_def)
next
  case (report k c e)
  then show ?thesis
    using tokens_set_phase [of k "S\<lparr>sc_errors := sc_errors S'\<rparr>" c "Reporting e" Releasing] by (simp add: set_phase_def)
next
  case (release k c)
  then show ?thesis
    using tokens_set_phase [of k S c Releasing Finishing] by (simp add: tokens_def set_phase_def)
next
  case (finish k c)
  then show ?thesis by (simp add: tokens_drop)
qed (simp_all add: tokens_def pc_token_def stop_with_def)

lemma tokens_reachable:
  assumes "sched_reachable ops g n (sched_init n s e) S"
  shows "tokens S = n"
  using assms unfolding sched_reachable_def
proof induction
  case base
  show ?case by (simp add: tokens_def sched_init_def pc_token_def)
qed (simp add: tokens_step)

lemma in_flight_le_holders:
  "length (flight_cells gs) \<le> length (filter (\<lambda>(c, p). holds_token p) gs)"
proof (induction gs)
  case (Cons x gs)
  then show ?case by (cases x; cases "snd x") auto
qed simp

text \<open>An error of a dispatch is never lost.\<close>

definition errors_kept :: "('s, 'e, 'db) sched \<Rightarrow> bool" where
  "errors_kept S \<longleftrightarrow>
     ((\<exists>c r. (c, r) \<in> set (sc_log S) \<and> dispatch_error r \<noteq> None) \<longrightarrow>
        sc_errors S \<noteq> None \<or> reporting S \<or> stopping_with_error (sc_pc S)) \<and>
     ((\<exists>r. sc_pc S = AtReturn r) \<longrightarrow> sc_running S = [])"

lemma errors_kept_init: "errors_kept (sched_init n s e)"
  by (simp add: errors_kept_def sched_init_def)

lemma reporting_split:
  "sc_running S = us @ (c, p) # vs \<Longrightarrow>
   reporting S \<longleftrightarrow> (\<exists>d e. (d, Reporting e) \<in> set us \<union> set vs) \<or> (\<exists>e. p = Reporting e)"
  by (auto simp: reporting_def)

lemma after_dispatch_reporting: "dispatch_error r \<noteq> None \<Longrightarrow> \<exists>e. after_dispatch r = Reporting e"
  by (auto simp: after_dispatch_def)

lemma set_phase_running:
  assumes "k < length (sc_running S)" "sc_running S ! k = (c, p)"
  shows "\<exists>us vs. sc_running S = us @ (c, p) # vs \<and> sc_running (set_phase k c q S) = us @ (c, q) # vs"
  using goroutine_split [OF assms, of "(c, q)"] by (auto simp: set_phase_def)

lemma drop_running:
  assumes "k < length (sc_running S)" "sc_running S ! k = (c, p)"
  shows "\<exists>us vs. sc_running S = us @ (c, p) # vs \<and> sc_running (drop_goroutine k S) = us @ vs"
  using goroutine_split [OF assms, of undefined] by (auto simp: drop_goroutine_def)

lemma set_phase_sel [simp]:
  "sc_pc (set_phase k c p S) = sc_pc S" "sc_errors (set_phase k c p S) = sc_errors S"
  "sc_log (set_phase k c p S) = sc_log S" "sc_store (set_phase k c p S) = sc_store S"
  "sc_capacity (set_phase k c p S) = sc_capacity S" "sc_cancelled (set_phase k c p S) = sc_cancelled S"
  by (simp_all add: set_phase_def)

lemma drop_goroutine_sel [simp]:
  "sc_pc (drop_goroutine k S) = sc_pc S" "sc_errors (drop_goroutine k S) = sc_errors S"
  "sc_log (drop_goroutine k S) = sc_log S" "sc_store (drop_goroutine k S) = sc_store S"
  "sc_cancelled (drop_goroutine k S) = sc_cancelled S"
  by (simp_all add: drop_goroutine_def)

lemma end_dispatch_sel [simp]:
  "sc_pc (end_dispatch k c r S) = sc_pc S" "sc_errors (end_dispatch k c r S) = sc_errors S"
  "sc_log (end_dispatch k c r S) = sc_log S @ [(c, r)]"
  "sc_running (end_dispatch k c r S) = sc_running (set_phase k c (after_dispatch r) S)"
  "sc_store (end_dispatch k c r S) = sc_store S" "sc_cancelled (end_dispatch k c r S) = sc_cancelled S"
  by (simp_all add: end_dispatch_def)

lemma stop_with_sel [simp]:
  "sc_pc (stop_with r S) = AtWait r" "sc_errors (stop_with r S) = sc_errors S"
  "sc_log (stop_with r S) = sc_log S" "sc_running (stop_with r S) = sc_running S"
  "sc_store (stop_with r S) = sc_store S" "sc_cancelled (stop_with r S)"
  by (simp_all add: stop_with_def)

lemma stopping_with_error_simps [simp]:
  "\<not> stopping_with_error AtSelect" "\<not> stopping_with_error AtRecheck" "\<not> stopping_with_error AtClaim"
  "\<not> stopping_with_error AtPoll" "stopping_with_error (AtWait r) = (r \<noteq> None)"
  "stopping_with_error (AtReturn r) = (r \<noteq> None)"
  by (auto simp: stopping_with_error_def split: option.splits)

text \<open>What the end of a dispatch leaves pending.\<close>

lemma errors_kept_end:
  assumes "errors_kept S" "k < length (sc_running S)" "sc_running S ! k = (c, p)" "dispatching p"
    "sc_running S0 = sc_running S" "sc_pc S0 = sc_pc S" "sc_errors S0 = sc_errors S"
    "sc_log S0 = sc_log S"
  shows "errors_kept (end_dispatch k c r S0)"
proof -
  obtain us vs where s: "sc_running S0 = us @ (c, p) # vs"
    "sc_running (set_phase k c (after_dispatch r) S0) = us @ (c, after_dispatch r) # vs"
    using set_phase_running [of k S0 c p "after_dispatch r"] assms(2,3,5) by metis
  have "reporting S \<Longrightarrow> reporting (end_dispatch k c r S0)"
    using s assms(4,5) by (auto simp: reporting_def)
  moreover have "dispatch_error r \<noteq> None \<Longrightarrow> reporting (end_dispatch k c r S0)"
    using s after_dispatch_reporting [of r] unfolding reporting_def end_dispatch_sel
    by (metis in_set_conv_decomp)
  ultimately show ?thesis
    using assms s by (auto simp: errors_kept_def)
qed

lemma errors_kept_step:
  assumes "sched_step ops g n S S'" "errors_kept S"
  shows "errors_kept S'"
  using assms(1)
proof cases
  case (exec_early k c r e')
  with assms(2) show ?thesis by (auto intro: errors_kept_end)
next
  case (apply_result k c r now r' s')
  with assms(2) show ?thesis by (auto intro: errors_kept_end)
next
  case (exec_handler k c r e')
  then obtain us vs where "sc_running S = us @ (c, Executing) # vs" "sc_running S' = us @ (c, Applying r) # vs"
    using set_phase_running [of k "S\<lparr>sc_env := e'\<rparr>" c Executing "Applying r"] by auto
  with assms(2) exec_handler(1) show ?thesis by (auto simp: errors_kept_def reporting_def)
next
  case (report k c e)
  then have "sc_errors S' \<noteq> None" by (auto split: option.splits)
  with assms(2) report(1-3) show ?thesis by (auto simp: errors_kept_def)
next
  case (release k c)
  then obtain us vs where "sc_running S = us @ (c, Releasing) # vs" "sc_running S' = us @ (c, Finishing) # vs"
    using set_phase_running [of k "S\<lparr>sc_capacity := Suc (sc_capacity S)\<rparr>" c Releasing Finishing]
    by auto
  with assms(2) release(1) show ?thesis by (auto simp: errors_kept_def reporting_def)
next
  case (finish k c)
  then obtain us vs where "sc_running S = us @ (c, Finishing) # vs" "sc_running S' = us @ vs"
    using drop_running by blast
  with assms(2) finish(1) show ?thesis by (auto simp: errors_kept_def reporting_def)
qed (use assms(2) in \<open>auto simp: errors_kept_def reporting_def\<close>)

text \<open>A nil return has emptied the error channel.\<close>

definition return_ok :: "('s, 'e, 'db) sched \<Rightarrow> bool" where
  "return_ok S \<longleftrightarrow> (sc_pc S = AtReturn None \<longrightarrow> sc_errors S = None \<and> sc_running S = [])"

lemma return_ok_step:
  assumes "sched_step ops g n S S'" "return_ok S"
  shows "return_ok S'"
  using assms(1)
  by cases (use assms(2) in \<open>auto simp: return_ok_def drop_goroutine_def\<close>)

lemma return_ok_reachable:
  assumes "sched_reachable ops g n (sched_init n s e) S"
  shows "return_ok S"
  using assms unfolding sched_reachable_def
proof induction
  case base
  show ?case by (simp add: return_ok_def sched_init_def)
qed (rule return_ok_step)

lemma returned_errors:
  "sched_reachable ops g n (sched_init n s e) S \<Longrightarrow> sc_pc S = AtReturn r \<Longrightarrow> sc_errors S = None \<or> r \<noteq> None"
  using return_ok_reachable by (fastforce simp: return_ok_def)

lemma errors_kept_reachable:
  assumes "sched_reachable ops g n (sched_init n s e) S"
  shows "errors_kept S"
  using assms unfolding sched_reachable_def
  by induction (simp_all add: errors_kept_init errors_kept_step)

section \<open>The scheduler on a store that meets the contract\<close>

text \<open>
  Every cell being dispatched is claimed in the store, with the content the goroutine holds, and by
  that goroutine only.
\<close>

definition exclusive_claims :: "('s \<Rightarrow> cell_id \<rightharpoonup> cell) \<Rightarrow> ('s, 'e, 'db) sched \<Rightarrow> bool" where
  "exclusive_claims view S \<longleftrightarrow> distinct (map ID (in_flight S)) \<and>
     (\<forall>c \<in> set (in_flight S). view (sc_store S) (ID c) = Some c \<and> State c = CellStateClaimed)"

text \<open>
  Every claimed cell is being dispatched, or its dispatch ended without a transition.
\<close>

definition claims_accounted :: "('s \<Rightarrow> cell_id \<rightharpoonup> cell) \<Rightarrow> ('s, 'e, 'db) sched \<Rightarrow> bool" where
  "claims_accounted view S \<longleftrightarrow>
     (\<forall>i d. view (sc_store S) i = Some d \<longrightarrow> State d = CellStateClaimed \<longrightarrow>
        d \<in> set (in_flight S) \<or> (\<exists>c r. (c, r) \<in> set (sc_log S) \<and> ID c = i \<and> unsettled r))"

definition sched_ok ::
  "('s \<Rightarrow> bool) \<Rightarrow> ('s \<Rightarrow> cell_id \<rightharpoonup> cell) \<Rightarrow> ('s, 'e, 'db) sched \<Rightarrow> bool" where
  "sched_ok iv view S \<longleftrightarrow> iv (sc_store S) \<and> exclusive_claims view S \<and> claims_accounted view S"

lemma sched_ok_cong:
  assumes "sc_store S' = sc_store S" "in_flight S' = in_flight S" "set (sc_log S) \<subseteq> set (sc_log S')"
    "sched_ok iv view S"
  shows "sched_ok iv view S'"
  using assms by (simp add: sched_ok_def exclusive_claims_def claims_accounted_def) blast

lemma in_flight_set_phase:
  assumes "k < length (sc_running S)" "sc_running S ! k = (c, p)" "dispatching p" "\<not> dispatching q"
  obtains us vs where "in_flight S = us @ c # vs" "in_flight (set_phase k c q S) = us @ vs"
proof -
  from set_phase_running [OF assms(1,2), of q] obtain us vs where
    "sc_running S = us @ (c, p) # vs" "sc_running (set_phase k c q S) = us @ (c, q) # vs" by blast
  with assms(3,4) show thesis
    by (intro that [of "flight_cells us" "flight_cells vs"]) (simp_all add: in_flight_def)
qed

lemma in_flight_set_phase_same:
  assumes "k < length (sc_running S)" "sc_running S ! k = (c, p)" "dispatching p = dispatching q"
  shows "in_flight (set_phase k c q S) = in_flight S"
  using set_phase_running [OF assms(1,2), of q] assms(3) by (auto simp: in_flight_def)

lemma in_flight_drop:
  assumes "k < length (sc_running S)" "sc_running S ! k = (c, p)" "\<not> dispatching p"
  shows "in_flight (drop_goroutine k S) = in_flight S"
  using drop_running [OF assms(1,2)] assms(3) by (auto simp: in_flight_def)

lemma in_flight_fields [simp]:
  "in_flight (S\<lparr>sc_env := x1\<rparr>) = in_flight S" "in_flight (S\<lparr>sc_store := x2\<rparr>) = in_flight S"
  "in_flight (S\<lparr>sc_errors := x3\<rparr>) = in_flight S" "in_flight (S\<lparr>sc_log := x4\<rparr>) = in_flight S"
  "in_flight (S\<lparr>sc_cancelled := x5\<rparr>) = in_flight S" "in_flight (S\<lparr>sc_pc := x6\<rparr>) = in_flight S"
  "in_flight (S\<lparr>sc_capacity := x7\<rparr>) = in_flight S" "in_flight (stop_with r S) = in_flight S"
  by (simp_all add: in_flight_def stop_with_def)

lemma in_flight_end [simp]:
  "in_flight (end_dispatch k c r S) = in_flight (set_phase k c (after_dispatch r) S)"
  by (simp add: in_flight_def)

lemma unsettled_dispatch_error: "dispatch_error r \<noteq> None \<Longrightarrow> unsettled r"
  by (cases r) (auto simp: dispatch_error_def)

lemma Worker_execute_early: "Worker_execute (Some g) c e = (Inl r, e') \<Longrightarrow> unsettled r"
  by (auto simp: Worker_execute_def split: if_splits option.splits prod.splits)

lemma applies_claimed:
  assumes "applies now claimed r m m'" "m' i = Some d" "State d = CellStateClaimed"
  shows "i \<noteq> ID claimed \<and> m i = Some d"
proof -
  from assms(1) obtain c c' news where c: "after_result now c r = Some c'"
    and news: "fresh_cells m news" and m': "m' = m(ID claimed := c') ++ news" by (auto simp: applies_def)
  from news assms(2,3) m' have "news i = None"
    by (cases "news i") (auto simp: fresh_cells_def)
  with assms(2) m' have "(m(ID claimed := c')) i = Some d" by (simp add: map_add_def)
  moreover have "c' \<noteq> Some d" using c assms(3) by (cases r) (auto split: if_splits)
  ultimately show ?thesis by (auto split: if_splits)
qed

text \<open>The runtime sees the store through its interface value.\<close>

locale runtime_store = listing_store +
  fixes ops :: "('a, 'b) store_ops"
  assumes ops_claim: "ops_ClaimNext ops = claim"
    and ops_apply: "ops_ApplyResult ops = Some apply_result"
    and ops_add: "ops_Add ops = add"
    and ops_recover: "ops_Recover ops = recover"
    and ops_list: "ops_ListActive ops = list_active"
begin

text \<open>Applying a result through the worker: the transition of the contract, or no transition.\<close>

lemma Worker_apply_cases:
  assumes "inv s" "view s (ID c) = Some c" "State c = CellStateClaimed"
    "Worker_apply [Some (StoreResultApplier (Some ops) now)] c r s = (r', s')"
  shows "inv s' \<and> (if unsettled r' then view s' = view s else r' = r \<and> applies now c r (view s) (view s'))"
proof -
  have steps: "\<forall>c0. view s (ID c) = Some c0 \<longrightarrow> Steps c0 = Steps c" using assms(2) by simp
  show ?thesis
  proof (cases "after_result now c r")
    case None
    with assms(1,4) show ?thesis
      by (cases r) (auto simp: Worker_apply_def StoreResultApplier_ResultStore [OF ops_apply]
          split: if_splits)
  next
    case (Some c')
    then have settled: "\<not> unsettled r" by (cases r) auto
    obtain x t where x: "apply_result now c r s = (x, t)" by fastforce
    from Some x have m: "StoreResultApplier (Some ops) now c r s = (x, t)"
      by (simp add: StoreResultApplier_ResultStore [OF ops_apply])
    have inv: "inv t" using apply_inv [OF assms(1) x steps] .
    show ?thesis
    proof (cases x)
      case (Inl e)
      with assms(4) m have "r' = ErrorResult ''apply result failed'' (Some e)" "s' = t"
        by (auto simp: Worker_apply_def)
      with inv apply_Inl [OF assms(1)] x Inl show ?thesis by simp
    next
      case (Inr u)
      with assms(4) m have "r' = r" "s' = t" by (auto simp: Worker_apply_def)
      with inv settled apply_Inr [OF assms(1) _ steps] x Inr show ?thesis by simp
    qed
  qed
qed

lemma exclusive_frame:
  assumes "exclusive_claims view S" "sc_running S' = sc_running S"
    "\<And>i d. view (sc_store S) i = Some d \<Longrightarrow> State d = CellStateClaimed \<Longrightarrow> view (sc_store S') i = Some d"
  shows "exclusive_claims view S'"
  using assms by (simp add: exclusive_claims_def in_flight_def)

lemma sched_ok_add:
  assumes "sched_ok inv view S" "add now reqs (sc_store S) = (x, s')"
  shows "sched_ok inv view (S\<lparr>sc_store := s'\<rparr>)"
proof -
  from assms(1) have inv: "inv (sc_store S)" and ex: "exclusive_claims view S"
    and acc: "claims_accounted view S" by (auto simp: sched_ok_def)
  have "exclusive_claims view (S\<lparr>sc_store := s'\<rparr>)"
    using ex add_frame [OF inv assms(2)] by (auto intro: exclusive_frame)
  moreover have "view (sc_store S) i = Some d"
    if "view s' i = Some d" "State d = CellStateClaimed" for i d
  proof (cases x)
    case (Inl e)
    with that assms(2) add_Inl [OF inv] show ?thesis by simp
  next
    case (Inr ids)
    with assms(2) add_Inr [OF inv] obtain news where
      "fresh_cells (view (sc_store S)) news" "view s' = view (sc_store S) ++ news" by blast
    with that show ?thesis by (auto simp: fresh_cells_def map_add_def split: option.splits)
  qed
  ultimately show ?thesis
    using acc add_inv [OF inv assms(2)] by (auto simp: sched_ok_def claims_accounted_def)
qed

lemma sched_ok_claim:
  assumes "sched_ok inv view S" "claim now (sc_store S) = (Inr (Some c), s')"
    "sc_store S' = s'" "sc_running S' = sc_running S @ [(c, Executing)]" "sc_log S' = sc_log S"
  shows "sched_ok inv view S'"
proof -
  from assms(1) have inv: "inv (sc_store S)" and ex: "exclusive_claims view S"
    and acc: "claims_accounted view S" by (auto simp: sched_ok_def)
  from claim_Some [OF inv assms(2)] obtain c0 where c0: "view (sc_store S) (ID c) = Some c0"
    "claimable now c0" "c = c0\<lparr>State := CellStateClaimed\<rparr>"
    and v: "view s' = (view (sc_store S))(ID c \<mapsto> c)" by blast
  have fl: "in_flight S' = in_flight S @ [c]" by (simp add: in_flight_def assms(4))
  have new: "ID c \<notin> ID ` set (in_flight S)"
  proof
    assume "ID c \<in> ID ` set (in_flight S)"
    with ex c0(1) have "State c0 = CellStateClaimed" by (auto simp: exclusive_claims_def)
    with c0(2) show False by (simp add: claimable_def)
  qed
  have "State c = CellStateClaimed" by (simp add: c0(3))
  with ex new have "exclusive_claims view S'"
    unfolding exclusive_claims_def fl assms(3) v by (auto intro: rev_image_eqI)
  moreover have "claims_accounted view S'"
    using acc by (auto simp: claims_accounted_def fl assms(3,5) v)
  ultimately show ?thesis
    using claim_inv [OF inv assms(2)] by (simp add: sched_ok_def assms(3))
qed

lemma sched_ok_end:
  assumes "sched_ok inv view S" "k < length (sc_running S)" "sc_running S ! k = (c, p)"
    "dispatching p" "sc_running S0 = sc_running S" "sc_log S0 = sc_log S" "inv (sc_store S0)"
    "if unsettled r then view (sc_store S0) = view (sc_store S)
     else applies now c r (view (sc_store S)) (view (sc_store S0))"
  shows "sched_ok inv view (end_dispatch k c r S0)"
proof -
  let ?S = "end_dispatch k c r S0" and ?m = "view (sc_store S)" and ?m' = "view (sc_store S0)"
  have "k < length (sc_running S0)" "sc_running S0 ! k = (c, p)" using assms(2,3,5) by simp_all
  then obtain us vs where fl: "in_flight S0 = us @ c # vs"
    "in_flight (set_phase k c (after_dispatch r) S0) = us @ vs"
    using assms(4) by (elim in_flight_set_phase [of k S0 c p "after_dispatch r"]) simp_all
  have flS: "in_flight S = us @ c # vs" using fl(1) assms(5) by (simp add: in_flight_def)
  from assms(1) have ex: "exclusive_claims view S" and acc: "claims_accounted view S"
    by (auto simp: sched_ok_def)
  have other: "?m' (ID d) = Some d" if "d \<in> set (us @ vs)" for d
  proof -
    from that ex flS have "ID d \<noteq> ID c" "?m (ID d) = Some d"
      by (auto simp: exclusive_claims_def) (metis rev_image_eqI)+
    with assms(8) show ?thesis by (auto dest: applies_frame split: if_splits)
  qed
  with ex flS have "exclusive_claims view ?S" by (simp add: exclusive_claims_def fl(2))
  moreover have "claims_accounted view ?S"
    unfolding claims_accounted_def
  proof (intro allI impI)
    fix i d assume d: "view (sc_store ?S) i = Some d" "State d = CellStateClaimed"
    show "d \<in> set (in_flight ?S) \<or> (\<exists>c' r'. (c', r') \<in> set (sc_log ?S) \<and> ID c' = i \<and> unsettled r')"
    proof (cases "unsettled r")
      case True
      with d(1) assms(8) have "?m i = Some d" by simp
      with acc d(2) flS have "d \<in> set (us @ c # vs) \<or> (\<exists>c' r'. (c', r') \<in> set (sc_log S) \<and> ID c' = i \<and> unsettled r')"
        by (auto simp: claims_accounted_def)
      moreover have "ID d = i" using \<open>?m i = Some d\<close> assms(1) inv_wf
        by (auto simp: sched_ok_def dest: wf_contentsD)
      ultimately show ?thesis using True by (auto simp: fl(2) assms(6))
    next
      case False
      with assms(8) have ap: "applies now c r ?m ?m'" by simp
      from applies_claimed [OF ap, of i d] d have "i \<noteq> ID c" "?m i = Some d" by auto
      with acc d(2) flS have "d \<in> set (us @ c # vs) \<or> (\<exists>c' r'. (c', r') \<in> set (sc_log S) \<and> ID c' = i \<and> unsettled r')"
        by (auto simp: claims_accounted_def)
      moreover have "d \<noteq> c" using \<open>i \<noteq> ID c\<close> \<open>?m i = Some d\<close> assms(1) inv_wf
        by (auto simp: sched_ok_def dest: wf_contentsD)
      ultimately show ?thesis by (auto simp: fl(2) assms(6))
    qed
  qed
  ultimately show ?thesis using assms(7) by (simp add: sched_ok_def)
qed

lemma sched_ok_step:
  assumes "sched_step ops g n S S'" "sched_ok inv view S"
  shows "sched_ok inv view S'"
  using assms(1)
proof cases
  case (app_add now reqs x s')
  with assms(2) show ?thesis by (simp add: ops_add sched_ok_add)
next
  case (claim_error now e s')
  with assms(2) have "inv s'" "view s' = view (sc_store S)"
    using claim_inv claim_Inl by (auto simp: ops_claim sched_ok_def)
  with assms(2) claim_error(1) show ?thesis
    by (simp add: sched_ok_def exclusive_claims_def claims_accounted_def)
next
  case (claim_none now s')
  with assms(2) have "inv s'" "view s' = view (sc_store S)"
    using claim_inv claim_None by (auto simp: ops_claim sched_ok_def)
  with assms(2) claim_none(1) show ?thesis
    by (simp add: sched_ok_def exclusive_claims_def claims_accounted_def)
next
  case (claim_cell now c s')
  with assms(2) show ?thesis by (auto simp: ops_claim intro: sched_ok_claim)
next
  case (exec_early k c r e')
  from Worker_execute_early [OF exec_early(4)] show ?thesis
    unfolding exec_early(1) using assms(2) exec_early(2,3)
    by (intro sched_ok_end [where S = S and p = Executing]) (auto simp: sched_ok_def)
next
  case (exec_handler k c r e')
  then have "in_flight S' = in_flight S"
    using in_flight_set_phase_same [of k "S\<lparr>sc_env := e'\<rparr>" c Executing "Applying r"] by simp
  with exec_handler(1) assms(2) show ?thesis by (intro sched_ok_cong [of S' S]) auto
next
  case (apply_result k c r now r' s')
  then have "c \<in> set (in_flight S)"
    by (auto simp: in_flight_def flight_cells_def intro!: rev_image_eqI [of "(c, Applying r)"]
        simp: in_set_conv_nth)
  with assms(2) have "view (sc_store S) (ID c) = Some c" "State c = CellStateClaimed" "inv (sc_store S)"
    by (auto simp: sched_ok_def exclusive_claims_def)
  from Worker_apply_cases [OF this(3,1,2) apply_result(4)] show ?thesis
    unfolding apply_result(1) using assms(2) apply_result(2,3)
    by (intro sched_ok_end [where S = S and p = "Applying r" and now = now]) (auto split: if_splits)
next
  case (report k c e)
  then have "in_flight S' = in_flight S"
    using in_flight_set_phase_same [of k "S\<lparr>sc_errors := sc_errors S'\<rparr>" c "Reporting e" Releasing]
    by simp
  with report(1) assms(2) show ?thesis by (intro sched_ok_cong [of S' S]) auto
next
  case (release k c)
  then have "in_flight S' = in_flight S"
    using in_flight_set_phase_same [of k "S\<lparr>sc_capacity := Suc (sc_capacity S)\<rparr>" c Releasing Finishing]
    by simp
  with release(1) assms(2) show ?thesis by (intro sched_ok_cong [of S' S]) auto
next
  case (finish k c)
  then have "in_flight S' = in_flight S" using in_flight_drop by fastforce
  with finish(1) assms(2) show ?thesis by (intro sched_ok_cong [of S' S]) auto
qed (use assms(2) in \<open>simp_all add: sched_ok_def exclusive_claims_def claims_accounted_def\<close>)

lemma sched_ok_reachable:
  assumes "inv s" "\<forall>i d. view s i = Some d \<longrightarrow> State d = CellStateReady"
    "sched_reachable ops g n (sched_init n s e) S"
  shows "sched_ok inv view S"
  using assms(3) unfolding sched_reachable_def
proof induction
  case base
  show ?case using assms(1,2)
    by (auto simp: sched_ok_def exclusive_claims_def claims_accounted_def sched_init_def in_flight_def)
qed (rule sched_ok_step)

end

section \<open>Progress\<close>

lemma goroutine_progress:
  assumes "sc_running S = (c, p) # gs" "tokens S = n"
  shows "\<exists>S'. sched_step ops g n S S' \<and> sc_running S' \<noteq> sc_running S"
proof -
  have k: "0 < length (sc_running S)" "sc_running S ! 0 = (c, p)" using assms(1) by simp_all
  have ne: "sc_running (set_phase 0 c q T) \<noteq> sc_running S" if "sc_running T = sc_running S" "q \<noteq> p" for q T
    using that assms(1) by (simp add: set_phase_def)
  show ?thesis
  proof (cases p)
    case Executing
    obtain x e' where x: "Worker_execute (Some g) c (sc_env S) = (x, e')" by fastforce
    show ?thesis
    proof (cases x)
      case (Inl r)
      have "after_dispatch r \<noteq> Executing" by (auto simp: after_dispatch_def split: option.splits)
      then have "sc_running (end_dispatch 0 c r (S\<lparr>sc_env := e'\<rparr>)) \<noteq> sc_running S"
        using ne [of "S\<lparr>sc_env := e'\<rparr>" "after_dispatch r"] Executing by simp
      moreover have "sched_step ops g n S (end_dispatch 0 c r (S\<lparr>sc_env := e'\<rparr>))"
        using k x Executing Inl by (intro sched_step.exec_early) auto
      ultimately show ?thesis by blast
    next
      case (Inr r)
      with k x Executing have "sched_step ops g n S (set_phase 0 c (Applying r) (S\<lparr>sc_env := e'\<rparr>))"
        by (intro sched_step.exec_handler) auto
      with ne [of "S\<lparr>sc_env := e'\<rparr>" "Applying r"] Executing show ?thesis by auto
    qed
  next
    case (Applying r)
    obtain r' s' where x: "Worker_apply [Some (StoreResultApplier (Some ops) 0)] c r (sc_store S) = (r', s')"
      by fastforce
    have "after_dispatch r' \<noteq> Applying r" by (auto simp: after_dispatch_def split: option.splits)
    then have "sc_running (end_dispatch 0 c r' (S\<lparr>sc_store := s'\<rparr>)) \<noteq> sc_running S"
      using ne [of "S\<lparr>sc_store := s'\<rparr>" "after_dispatch r'"] Applying by simp
    moreover have "sched_step ops g n S (end_dispatch 0 c r' (S\<lparr>sc_store := s'\<rparr>))"
      using k x Applying by (intro sched_step.apply_result) auto
    ultimately show ?thesis by blast
  next
    case (Reporting e)
    then have ne': "sc_running (set_phase 0 c Releasing T) \<noteq> sc_running S" if "sc_running T = sc_running S" for T
      using ne [OF that] by simp
    from sched_step.report [OF k(1), of c e] k(2) Reporting show ?thesis
      by (rule_tac exI, rule_tac conjI) (assumption | simp add: ne')+
  next
    case Releasing
    with assms have "sc_capacity S < n" by (auto simp: tokens_def)
    with k Releasing have
      "sched_step ops g n S (set_phase 0 c Finishing (S\<lparr>sc_capacity := Suc (sc_capacity S)\<rparr>))"
      by (intro sched_step.release) auto
    with ne [of "S\<lparr>sc_capacity := Suc (sc_capacity S)\<rparr>" Finishing] Releasing show ?thesis by auto
  next
    case Finishing
    with k have "sched_step ops g n S (drop_goroutine 0 S)" by (intro sched_step.finish) auto
    moreover have "sc_running (drop_goroutine 0 S) \<noteq> sc_running S"
      using assms(1) by (simp add: drop_goroutine_def)
    ultimately show ?thesis by blast
  qed
qed

lemma loop_progress:
  assumes "sc_running S = []" "tokens S = n" "0 < n" "\<And>r. sc_pc S \<noteq> AtReturn r"
  shows "\<exists>S'. sched_step ops g n S S' \<and> (sc_pc S' \<noteq> sc_pc S \<or> sc_running S' \<noteq> sc_running S)"
proof (cases "sc_pc S")
  case AtSelect
  with assms(1-3) obtain k where "sc_capacity S = Suc k"
    by (cases "sc_capacity S") (auto simp: tokens_def pc_token_def)
  from sched_step.select_capacity [OF AtSelect this] AtSelect show ?thesis by fastforce
next
  case AtRecheck
  with assms(1,2) have cap: "sc_capacity S < n" by (auto simp: tokens_def pc_token_def)
  consider "sc_cancelled S" | e where "sc_errors S = Some e" | "\<not> sc_cancelled S" "sc_errors S = None"
    by (cases "sc_errors S") auto
  then show ?thesis
  proof cases
    case 1
    from sched_step.recheck_done [OF AtRecheck 1 cap] AtRecheck show ?thesis by fastforce
  next
    case (2 e)
    from sched_step.recheck_error [OF AtRecheck 2 cap] AtRecheck show ?thesis by fastforce
  next
    case 3
    from sched_step.recheck_default [OF AtRecheck 3] AtRecheck show ?thesis by fastforce
  qed
next
  case AtClaim
  with assms(1,2) have cap: "sc_capacity S < n" by (auto simp: tokens_def pc_token_def)
  obtain x s' where x: "ops_ClaimNext ops 0 (sc_store S) = (x, s')" by fastforce
  show ?thesis
  proof (cases x)
    case (Inl e)
    from sched_step.claim_error [OF AtClaim _ cap] x Inl AtClaim show ?thesis by fastforce
  next
    case (Inr y)
    show ?thesis
    proof (cases y)
      case None
      from sched_step.claim_none [OF AtClaim _ cap] x Inr None AtClaim show ?thesis by fastforce
    next
      case (Some c)
      from sched_step.claim_cell [OF AtClaim] x Inr Some AtClaim show ?thesis by fastforce
    qed
  qed
next
  case AtPoll
  from sched_step.poll_timer [OF AtPoll] AtPoll show ?thesis by fastforce
next
  case (AtWait r)
  show ?thesis
  proof (cases r)
    case None
    with AtWait sched_step.wait_nil [OF _ assms(1)] show ?thesis by fastforce
  next
    case (Some e)
    with AtWait sched_step.wait_error [OF _ assms(1)] show ?thesis by fastforce
  qed
next
  case (AtReturn r)
  with assms(4) show ?thesis by blast
qed

text \<open>The work left once the loop has stopped: it bounds the steps until \<open>Run\<close> returns.\<close>

fun phase_work :: "'db phase \<Rightarrow> nat" where
  "phase_work Executing = 5"
| "phase_work (Applying r) = 4"
| "phase_work (Reporting e) = 3"
| "phase_work Releasing = 2"
| "phase_work Finishing = 1"

definition stop_work :: "('s, 'e, 'db) sched \<Rightarrow> nat" where
  "stop_work S = (\<Sum>(c, p)\<leftarrow>sc_running S. phase_work p) +
     (case sc_pc S of AtReturn r \<Rightarrow> 0 | _ \<Rightarrow> 1)"

lemma phase_work_after: "phase_work (after_dispatch r) \<le> 3"
  by (auto simp: after_dispatch_def split: option.splits)

lemma stop_work_set_phase:
  assumes "k < length (sc_running S)" "sc_running S ! k = (c, p)" "phase_work q < phase_work p"
    "sc_running T = sc_running S" "sc_pc T = sc_pc S"
  shows "stop_work (set_phase k c q T) < stop_work S"
proof -
  obtain us vs where "sc_running T = us @ (c, p) # vs" "sc_running (set_phase k c q T) = us @ (c, q) # vs"
    using set_phase_running [of k T c p q] assms by auto
  with assms(3-5) show ?thesis by (simp add: stop_work_def assms(4) [symmetric])
qed

lemma stop_work_end:
  assumes "k < length (sc_running S)" "sc_running S ! k = (c, p)" "3 < phase_work p"
    "sc_running T = sc_running S" "sc_pc T = sc_pc S"
  shows "stop_work (end_dispatch k c r T) < stop_work S"
  using stop_work_set_phase [of k S c p "after_dispatch r" T] phase_work_after [of r] assms
  by (simp add: stop_work_def)

lemma stopped_step:
  assumes "sched_step ops g n S S'" "sc_pc S = AtWait r"
  shows "stop_work S' < stop_work S \<or> (sc_pc S' = sc_pc S \<and> sc_running S' = sc_running S)"
  using assms(1)
proof cases
  case (finish k c)
  then obtain us vs where "sc_running S = us @ (c, Finishing) # vs" "sc_running S' = us @ vs"
    using drop_running by blast
  with finish(1) show ?thesis by (simp add: stop_work_def)
next
  case (exec_early k c r' e')
  then show ?thesis using stop_work_end [of k S c Executing "S\<lparr>sc_env := e'\<rparr>"] by simp
next
  case (exec_handler k c r' e')
  then show ?thesis
    using stop_work_set_phase [of k S c Executing "Applying r'" "S\<lparr>sc_env := e'\<rparr>"] by simp
next
  case (apply_result k c r1 now r' s')
  then show ?thesis using stop_work_end [of k S c "Applying r1" "S\<lparr>sc_store := s'\<rparr>"] by simp
next
  case (report k c e)
  then show ?thesis
    unfolding report(1) by (intro disjI1 stop_work_set_phase [of k S c "Reporting e"]) simp_all
next
  case (release k c)
  then show ?thesis
    using stop_work_set_phase [of k S c Releasing Finishing "S\<lparr>sc_capacity := Suc (sc_capacity S)\<rparr>"]
    by simp
qed (use assms(2) in \<open>auto simp: stop_work_def\<close>)

section \<open>Both stores\<close>

interpretation memr: runtime_store mem_inv cells ClaimNext "ApplyResult nxt" "\<lambda>now. Add nxt" Recover
    ListActive "memory_ops nxt"
  for nxt :: "'a allocator_next"
  by unfold_locales (simp_all add: memory_ops_def)

interpretation sqr: runtime_store sq_inv sq_view "sq_ClaimNext flt" "sq_ApplyResult flt nxt"
    "sq_Add flt nxt" "sq_Recover flt" "sq_ListActive flt" "sqlite_ops flt nxt"
  for flt :: db_faults and nxt :: "'a allocator_next"
  by unfold_locales (simp_all add: sqlite_ops_def)

section \<open>A run\<close>

text \<open>A registry with one handler, and a run of one worker that executes one cell and stops.\<close>

definition demo_registry :: "(nat, unit, string) memory_registry" where
  "demo_registry = snd (Registry_Register ''h''
     (Some \<lparr>Execute = (\<lambda>c e. (Complete [] [], Suc e)),
            Inspect = typedJSON_Inspect (\<lambda>raw. Inr raw) ''''\<rparr>) NewMemoryRegistry)"

definition demo_ops :: "(sequential_allocator memory_store, unit) store_ops" where
  "demo_ops = memory_ops SequentialAllocator_Next"

definition demo_cell :: cell where
  "demo_cell = newCell \<lparr>req_Steps = [demo_step], req_ID = ''a'', req_NotBefore = None\<rparr>"

definition demo_ready :: "sequential_allocator memory_store" where
  "demo_ready = \<lparr>allocator = NewSequentialAllocator '''' 0, cells = [''a'' \<mapsto> demo_cell], ms_order = [''a'']\<rparr>"

definition demo_busy :: "sequential_allocator memory_store" where
  "demo_busy = demo_ready\<lparr>cells := [''a'' \<mapsto> demo_cell\<lparr>State := CellStateClaimed\<rparr>]\<rparr>"

definition demo_done :: "sequential_allocator memory_store" where
  "demo_done = demo_ready\<lparr>cells := Map.empty, ms_order := []\<rparr>"

type_synonym demo_sched = "(sequential_allocator memory_store, nat, unit) sched"

definition demo_S1 :: demo_sched where
  "demo_S1 = \<lparr>sc_pc = AtSelect, sc_capacity = 0, sc_errors = None, sc_cancelled = False,
     sc_running = [(demo_cell\<lparr>State := CellStateClaimed\<rparr>, Executing)], sc_store = demo_busy,
     sc_env = 0, sc_log = []\<rparr>"

definition demo_S2 :: demo_sched where
  "demo_S2 = demo_S1\<lparr>sc_running := [(demo_cell\<lparr>State := CellStateClaimed\<rparr>, Applying (Complete [] []))],
     sc_env := 1\<rparr>"

definition demo_S3 :: demo_sched where
  "demo_S3 = demo_S2\<lparr>sc_running := [(demo_cell\<lparr>State := CellStateClaimed\<rparr>, Releasing)],
     sc_store := demo_done, sc_log := [(demo_cell\<lparr>State := CellStateClaimed\<rparr>, Complete [] [])]\<rparr>"

definition demo_S4 :: demo_sched where
  "demo_S4 = demo_S3\<lparr>sc_running := [], sc_capacity := 1, sc_cancelled := True, sc_pc := AtWait None\<rparr>"

definition demo_S5 :: demo_sched where
  "demo_S5 = demo_S4\<lparr>sc_pc := AtReturn None\<rparr>"

lemmas demo_run_defs = demo_S1_def demo_S2_def demo_S3_def demo_S4_def demo_S5_def demo_done_def
  demo_busy_def demo_ready_def sched_init_def demo_ops_def memory_ops_def

lemma demo_run_1:
  "sched_reachable demo_ops demo_registry 1 (sched_init 1 demo_ready 0) demo_S1"
proof -
  let ?S0 = "sched_init 1 demo_ready 0 :: demo_sched"
  let ?Sa = "?S0\<lparr>sc_capacity := 0, sc_pc := AtRecheck\<rparr>" and ?R = "sched_step demo_ops demo_registry 1"
  have "?R ?S0 ?Sa" by (rule sched_step.select_capacity) (simp_all add: sched_init_def)
  moreover have "?R ?Sa (?Sa\<lparr>sc_pc := AtClaim\<rparr>)"
    by (rule sched_step.recheck_default) (simp_all add: sched_init_def)
  moreover have "?R (?Sa\<lparr>sc_pc := AtClaim\<rparr>) (?Sa\<lparr>sc_pc := AtClaim, sc_store := demo_busy,
      sc_running := sc_running (?Sa\<lparr>sc_pc := AtClaim\<rparr>) @ [(demo_cell\<lparr>State := CellStateClaimed\<rparr>, Executing)],
      sc_pc := AtSelect\<rparr>)"
    by (rule sched_step.claim_cell [where now = 5])
      (simp_all add: demo_run_defs ClaimNext_def demo_cell_def Let_def)
  ultimately have "?R\<^sup>*\<^sup>* ?S0 (?Sa\<lparr>sc_pc := AtClaim, sc_store := demo_busy,
      sc_running := sc_running (?Sa\<lparr>sc_pc := AtClaim\<rparr>) @ [(demo_cell\<lparr>State := CellStateClaimed\<rparr>, Executing)],
      sc_pc := AtSelect\<rparr>)"
    by (meson rtranclp.rtrancl_into_rtrancl rtranclp.rtrancl_refl)
  then show ?thesis by (simp add: sched_reachable_def demo_S1_def sched_init_def)
qed

lemma demo_execute:
  "Worker_execute (Some demo_registry) (demo_cell\<lparr>State := CellStateClaimed\<rparr>) e = (Inr (Complete [] []), Suc e)"
  by (simp add: Worker_execute_def demo_registry_def Registry_Register_def Registry_Lookup_def
      NewMemoryRegistry_def demo_cell_def demo_step_def)

lemma demo_apply:
  "Worker_apply [Some (StoreResultApplier (Some demo_ops) 5)] (demo_cell\<lparr>State := CellStateClaimed\<rparr>)
     (Complete [] []) demo_busy = (Complete [] [], demo_done)"
  by (simp add: Worker_apply_def StoreResultApplier_def demo_run_defs ApplyResult_def
      applyResultWorkLocked_def buildNewCellsLocked_def insertCells_def deleteCell_def
      removeFromOrderLocked_def demo_cell_def Let_def)

lemma demo_run_3: "sched_reachable demo_ops demo_registry 1 demo_S1 demo_S3"
proof -
  let ?R = "sched_step demo_ops demo_registry 1" and ?c = "demo_cell\<lparr>State := CellStateClaimed\<rparr>"
  have "?R demo_S1 (set_phase 0 ?c (Applying (Complete [] [])) (demo_S1\<lparr>sc_env := 1\<rparr>))"
    by (rule sched_step.exec_handler) (simp_all add: demo_S1_def demo_execute)
  then have "?R demo_S1 demo_S2" by (simp add: demo_S1_def demo_S2_def set_phase_def)
  moreover have "?R demo_S2 (end_dispatch 0 ?c (Complete [] []) (demo_S2\<lparr>sc_store := demo_done\<rparr>))"
    by (rule sched_step.apply_result [where now = 5 and r = "Complete [] []"])
      (simp_all add: demo_S1_def demo_S2_def demo_apply)
  then have "?R demo_S2 demo_S3"
    by (simp add: demo_S1_def demo_S2_def demo_S3_def end_dispatch_def set_phase_def after_dispatch_def
        dispatch_error_def)
  ultimately show ?thesis by (simp add: sched_reachable_def)
qed

lemma demo_run_5: "sched_reachable demo_ops demo_registry 1 demo_S3 demo_S5"
proof -
  let ?R = "sched_step demo_ops demo_registry 1" and ?c = "demo_cell\<lparr>State := CellStateClaimed\<rparr>"
  let ?Sa = "set_phase 0 ?c Finishing (demo_S3\<lparr>sc_capacity := Suc (sc_capacity demo_S3)\<rparr>)"
  let ?Sb = "drop_goroutine 0 ?Sa"
  have "?R demo_S3 ?Sa" by (rule sched_step.release) (simp_all add: demo_run_defs)
  moreover have "?R ?Sa ?Sb"
    by (rule sched_step.finish [where c = ?c]) (simp_all add: demo_run_defs set_phase_def)
  moreover have "?R ?Sb (?Sb\<lparr>sc_cancelled := True\<rparr>)" by (rule sched_step.ctx_cancel)
  moreover have "?R (?Sb\<lparr>sc_cancelled := True\<rparr>) (stop_with None (?Sb\<lparr>sc_cancelled := True\<rparr>))"
    by (rule sched_step.select_done) (simp_all add: demo_run_defs)
  ultimately have "?R\<^sup>*\<^sup>* demo_S3 (stop_with None (?Sb\<lparr>sc_cancelled := True\<rparr>))"
    by (meson rtranclp.rtrancl_into_rtrancl rtranclp.rtrancl_refl)
  moreover have "stop_with None (?Sb\<lparr>sc_cancelled := True\<rparr>) = demo_S4"
    by (simp add: demo_run_defs set_phase_def drop_goroutine_def stop_with_def)
  moreover have "?R demo_S4 (demo_S4\<lparr>sc_pc := AtReturn (sc_errors demo_S4), sc_errors := None\<rparr>)"
    by (rule sched_step.wait_nil) (simp_all add: demo_run_defs)
  moreover have "demo_S4\<lparr>sc_pc := AtReturn (sc_errors demo_S4), sc_errors := None\<rparr> = demo_S5"
    by (simp add: demo_run_defs)
  ultimately show ?thesis by (simp add: sched_reachable_def)
qed

lemma demo_run: "sched_reachable demo_ops demo_registry 1 (sched_init 1 demo_ready 0) demo_S5"
  using demo_run_1 demo_run_3 demo_run_5 unfolding sched_reachable_def by (meson rtranclp_trans)

lemma demo_ready_inv: "mem_inv demo_ready"
  by (simp add: mem_inv_def demo_ready_def wf_contents_def demo_cell_def runnable_newCell wf_steps_def
      demo_step_def)

section \<open>Properties of the scheduler\<close>

text \<open>
  At most \<open>n\<close> handlers run at the same time, and returning a token to the capacity channel never
  blocks, neither for the main loop nor for a dispatch goroutine.
\<close>

theorem scheduler_capacity:
  assumes "sched_reachable ops g n (sched_init n s e) S"
  shows "length (in_flight S) \<le> n \<and>
    (sc_pc S = AtRecheck \<or> sc_pc S = AtClaim \<longrightarrow> sc_capacity S < n) \<and>
    (\<forall>c. (c, Releasing) \<in> set (sc_running S) \<longrightarrow> sc_capacity S < n)"
proof -
  note t = tokens_reachable [OF assms]
  have h: "0 < length (filter (\<lambda>(c, p). holds_token p) (sc_running S))"
    if "(c, Releasing) \<in> set (sc_running S)" for c
    using that by (auto simp: length_greater_0_conv filter_empty_conv intro!: bexI [of _ "(c, Releasing)"])
  show ?thesis
    using t in_flight_le_holders [of "sc_running S"] h
    by (fastforce simp: tokens_def pc_token_def in_flight_def)
qed

theorem scheduler_capacity_witness:
  "sched_reachable demo_ops demo_registry 1 (sched_init 1 demo_ready 0) demo_S1 \<and>
   length (in_flight demo_S1) \<le> 1 \<and> in_flight demo_S1 = [demo_cell\<lparr>State := CellStateClaimed\<rparr>]"
  using scheduler_capacity [OF demo_run_1] demo_run_1 by (simp add: in_flight_def demo_S1_def)

text \<open>
  C1: from a successful start on the SQLite store and under any interleaving of loop, goroutines,
  cancellation, faults of the database and cells added by the application, no two goroutines hold the
  same cell, and each cell being dispatched is stored as CLAIMED with exactly the content its
  goroutine holds.
\<close>

theorem scheduler_exclusive_claims:
  assumes "sq_inv (cl_store c)" "cl_ops c = Some (sqlite_ops flt nxt)" "Start_prepare c = (None, c')"
    "sched_reachable (sqlite_ops flt nxt) (cl_registry c') n (sched_init n (cl_store c') e) S"
  shows "distinct (map ID (in_flight S)) \<and>
    (\<forall>d \<in> set (in_flight S). sq_view (sc_store S) (ID d) = Some d \<and> State d = CellStateClaimed)"
proof -
  have "sq_inv (cl_store c') \<and> (\<forall>i d. sq_view (cl_store c') i = Some d \<longrightarrow> State d = CellStateReady)"
    using sq.start_ok [OF assms(1,2) _ _ assms(3)] by (simp add: sqlite_ops_def)
  then show ?thesis
    using sqr.sched_ok_reachable [OF _ _ assms(4)] by (simp add: sched_ok_def exclusive_claims_def)
qed

definition demo_sqlite_ops :: "((sequential_allocator, unit) sqlite_store, unit) store_ops" where
  "demo_sqlite_ops = sqlite_ops (\<lambda>_. None) SequentialAllocator_Next"

definition demo_cellar :: "((sequential_allocator, unit) sqlite_store, nat, unit, string) cellar" where
  "demo_cellar = \<lparr>cl_ops = Some demo_sqlite_ops,
     cl_store = \<lparr>sq_allocator = NewSequentialAllocator '''' 0, sq_cells = [demo_row ''a''], sq_app = ()\<rparr>,
     cl_registry = demo_registry, cl_started = False\<rparr>"

lemma demo_cellar_inv: "sq_inv (cl_store demo_cellar)"
  by (simp add: demo_cellar_def demo_row_def table_inv_def demo_request_def runnable_cell_def wf_cell_def
      wf_steps_def demo_step_def requestRow_def row_cell_def)

definition demo_started :: "((sequential_allocator, unit) sqlite_store, nat, unit, string) cellar" where
  "demo_started = demo_cellar\<lparr>cl_store := (cl_store demo_cellar)\<lparr>sq_cells := [(demo_row ''a'')\<lparr>row_state := CellStateReady\<rparr>]\<rparr>,
     cl_registry := Registry_Freeze demo_registry, cl_started := True\<rparr>"

lemma demo_start: "Start_prepare demo_cellar = (None, demo_started)"
  by (simp add: Start_prepare_None demo_cellar_def demo_started_def demo_sqlite_ops_def sqlite_ops_def
      validateHandlers_def sq_ListActive_def sql_select_def scanCell_def demo_row_def requestRow_def
      demo_request_def row_cell_def demo_step_def Registry_Lookup_def demo_registry_def
      Registry_Register_def NewMemoryRegistry_def sq_Recover_def sql_update_def)

definition demo_sq_claimed :: "((sequential_allocator, unit) sqlite_store, nat, unit) sched" where
  "demo_sq_claimed = (sched_init 2 (cl_store demo_cellar) 0)\<lparr>sc_capacity := 1,
     sc_running := [(row_cell (demo_row ''a''), Executing)]\<rparr>"

lemma demo_sq_run:
  "sched_reachable demo_sqlite_ops (cl_registry demo_started) 2
     (sched_init 2 (cl_store demo_started) 0) demo_sq_claimed"
proof -
  let ?S0 = "sched_init 2 (cl_store demo_started) 0 :: ((sequential_allocator, unit) sqlite_store, nat, unit) sched"
  let ?Sa = "?S0\<lparr>sc_capacity := 1, sc_pc := AtRecheck\<rparr>"
  let ?R = "sched_step demo_sqlite_ops (cl_registry demo_started) 2"
  have "?R ?S0 ?Sa" by (rule sched_step.select_capacity) (simp_all add: sched_init_def)
  moreover have "?R ?Sa (?Sa\<lparr>sc_pc := AtClaim\<rparr>)"
    by (rule sched_step.recheck_default) (simp_all add: sched_init_def)
  moreover have "?R (?Sa\<lparr>sc_pc := AtClaim\<rparr>) (?Sa\<lparr>sc_pc := AtClaim, sc_store := cl_store demo_cellar,
      sc_running := sc_running (?Sa\<lparr>sc_pc := AtClaim\<rparr>) @ [(row_cell (demo_row ''a''), Executing)],
      sc_pc := AtSelect\<rparr>)"
    by (rule sched_step.claim_cell [where now = 5])
      (simp_all add: demo_started_def demo_cellar_def demo_sqlite_ops_def sqlite_ops_def sched_init_def
        sq_ClaimNext_def sql_select_def sq_runnable_def scanCell_def demo_row_def requestRow_def
        demo_request_def row_cell_def Let_def sql_update_def)
  ultimately have "?R\<^sup>*\<^sup>* ?S0 (?Sa\<lparr>sc_pc := AtClaim, sc_store := cl_store demo_cellar,
      sc_running := sc_running (?Sa\<lparr>sc_pc := AtClaim\<rparr>) @ [(row_cell (demo_row ''a''), Executing)],
      sc_pc := AtSelect\<rparr>)"
    by (meson rtranclp.rtrancl_into_rtrancl rtranclp.rtrancl_refl)
  then show ?thesis by (simp add: sched_reachable_def demo_sq_claimed_def sched_init_def)
qed

theorem scheduler_exclusive_claims_witness:
  "in_flight demo_sq_claimed = [row_cell (demo_row ''a'')] \<and>
   sq_view (sc_store demo_sq_claimed) (ID (row_cell (demo_row ''a''))) = Some (row_cell (demo_row ''a''))"
proof -
  have "cl_ops demo_cellar = Some (sqlite_ops (\<lambda>_. None) SequentialAllocator_Next)"
    by (simp add: demo_cellar_def demo_sqlite_ops_def)
  from scheduler_exclusive_claims [OF demo_cellar_inv this demo_start demo_sq_run [unfolded demo_sqlite_ops_def]]
  show ?thesis by (simp add: in_flight_def demo_sq_claimed_def sched_init_def)
qed



text \<open>
  C7: the scheduler never deadlocks: with at least one worker, in every reachable state in which
  \<open>Run\<close> has not returned, the main loop or one of the goroutines can take a step.
\<close>

theorem scheduler_progress:
  assumes "sched_reachable ops g n (sched_init n s e) S" "0 < n" "\<forall>r. sc_pc S \<noteq> AtReturn r"
  shows "\<exists>S'. sched_step ops g n S S' \<and> (sc_pc S' \<noteq> sc_pc S \<or> sc_running S' \<noteq> sc_running S)"
proof (cases "sc_running S")
  case Nil
  with loop_progress [OF _ tokens_reachable [OF assms(1)] assms(2)] assms(3) show ?thesis by blast
next
  case (Cons x gs)
  with goroutine_progress [OF _ tokens_reachable [OF assms(1)]] show ?thesis
    by (cases x) blast
qed

theorem scheduler_progress_witness:
  "\<exists>S'. sched_step demo_ops demo_registry 1 demo_S1 S' \<and>
     (sc_pc S' \<noteq> sc_pc demo_S1 \<or> sc_running S' \<noteq> sc_running demo_S1)"
proof -
  have "\<forall>r. sc_pc demo_S1 \<noteq> AtReturn r" by (simp add: demo_S1_def)
  with scheduler_progress [OF demo_run_1] show ?thesis by simp
qed

text \<open>
  C8: once the loop has decided to stop, \<open>Run\<close> returns: every step either lowers the work left, which
  is at most five units per goroutine and one for the return, or is an action of the outside world
  that touches neither the loop nor the goroutines.
\<close>

theorem scheduler_stop_terminates:
  assumes "sched_step ops g n S S'" "sc_pc S = AtWait r"
  shows "(stop_work S' < stop_work S \<or> sc_pc S' = sc_pc S \<and> sc_running S' = sc_running S) \<and>
    stop_work S \<le> 5 * length (sc_running S) + 1"
proof -
  have "(\<Sum>(c, p)\<leftarrow>gs. phase_work p) \<le> 5 * length gs" for gs :: "(cell \<times> 'b phase) list"
  proof (induction gs)
    case (Cons x gs)
    have "phase_work (snd x) \<le> 5" by (cases "snd x") auto
    with Cons show ?case by (cases x) simp
  qed simp
  then have "stop_work S \<le> 5 * length (sc_running S) + 1"
    by (auto simp: stop_work_def assms(2) intro: add_mono)
  with stopped_step [OF assms] show ?thesis by blast
qed

theorem scheduler_stop_terminates_witness:
  "sched_step demo_ops demo_registry 1 demo_S4 demo_S5 \<and> stop_work demo_S5 < stop_work demo_S4"
proof -
  have "sched_step demo_ops demo_registry 1 demo_S4
      (demo_S4\<lparr>sc_pc := AtReturn (sc_errors demo_S4), sc_errors := None\<rparr>)"
    by (rule sched_step.wait_nil) (simp_all add: demo_run_defs)
  then have s: "sched_step demo_ops demo_registry 1 demo_S4 demo_S5"
    by (simp add: demo_run_defs)
  have "sc_pc demo_S4 = AtWait None" by (simp add: demo_S4_def)
  from scheduler_stop_terminates [OF s this] s show ?thesis by (simp add: demo_run_defs)
qed

end
