(* ===== verification/EmailStore.thy ===== *)
theory EmailStore
  imports Cells Sql
begin

text \<open>
  durable_email/store.go: the tables of durable email in the application's database, the progress of
  each recipient, and the pieces of work that change it in a cellar transaction.

  The JSON codec is a parameter: \<open>marshal\<close> encodes a map, \<open>unmarshal\<close> decodes a text and \<open>same\<close> is
  \<open>sameJSON\<close> (both texts decode, to equal values). The random source of \<open>newMessageID\<close> is a
  parameter. Which database calls fail is the parameter \<open>flt\<close>, as for the SQLite store; a statement
  that fails inside a piece of work makes the work fail, which cellar rolls back as a whole, so the
  pieces of work are modelled without faults of their own. One instant \<open>now\<close> stands for the
  successive readings of the clock inside one operation.
\<close>

section \<open>Progress states and events\<close>

type_synonym progress_state = string
type_synonym delivery_event = string

definition StatePending :: progress_state where "StatePending = ''Pending''"
definition StateAccepted :: progress_state where "StateAccepted = ''Accepted''"
definition StateRecovery :: progress_state where "StateRecovery = ''Recovery''"
definition StateRecoveryWaiting :: progress_state where "StateRecoveryWaiting = ''RecoveryWaiting''"
definition StateRefused :: progress_state where "StateRefused = ''Refused''"
definition StateSent :: progress_state where "StateSent = ''Sent''"
definition StateDelivered :: progress_state where "StateDelivered = ''Delivered''"
definition StateOpened :: progress_state where "StateOpened = ''Opened''"
definition StateClicked :: progress_state where "StateClicked = ''Clicked''"
definition StateSpamComplaint :: progress_state where "StateSpamComplaint = ''SpamComplaint''"
definition StateHardBounced :: progress_state where "StateHardBounced = ''HardBounced''"

lemmas progress_state_defs = StatePending_def StateAccepted_def StateRecovery_def
  StateRecoveryWaiting_def StateRefused_def StateSent_def StateDelivered_def StateOpened_def
  StateClicked_def StateSpamComplaint_def StateHardBounced_def

definition EventSent :: delivery_event where "EventSent = ''Sent''"
definition EventDelivered :: delivery_event where "EventDelivered = ''Delivered''"
definition EventSoftBounce :: delivery_event where "EventSoftBounce = ''SoftBounce''"
definition EventHardBounce :: delivery_event where "EventHardBounce = ''HardBounce''"
definition EventProxyOpen :: delivery_event where "EventProxyOpen = ''ProxyOpen''"
definition EventHumanOpen :: delivery_event where "EventHumanOpen = ''HumanOpen''"
definition EventClick :: delivery_event where "EventClick = ''Click''"
definition EventSpamComplaint :: delivery_event where "EventSpamComplaint = ''SpamComplaint''"

lemmas delivery_event_defs = EventSent_def EventDelivered_def EventSoftBounce_def EventHardBounce_def
  EventProxyOpen_def EventHumanOpen_def EventClick_def EventSpamComplaint_def

definition validDeliveryEvent :: "delivery_event \<Rightarrow> bool" where
  "validDeliveryEvent ev \<longleftrightarrow>
     ev = EventSent \<or> ev = EventDelivered \<or> ev = EventSoftBounce \<or> ev = EventHardBounce \<or>
     ev = EventProxyOpen \<or> ev = EventHumanOpen \<or> ev = EventClick \<or> ev = EventSpamComplaint"

definition eventState :: "progress_state \<Rightarrow> delivery_event \<Rightarrow> progress_state" where
  "eventState state ev =
     (if state = StateRefused \<or> state = StateHardBounced \<or> state = StateSpamComplaint then state
      else
        let advance = (\<lambda>target.
          if state = StatePending \<or> state = StateRecovery \<or> state = StateRecoveryWaiting \<or>
             state = StateAccepted
          then target else state)
        in
        if ev = EventSent \<or> ev = EventSoftBounce \<or> ev = EventProxyOpen then advance StateSent
        else if ev = EventDelivered
        then (if state = StateSent then StateDelivered else advance StateDelivered)
        else if ev = EventHumanOpen
        then (if state = StateSent \<or> state = StateDelivered then StateOpened else advance StateOpened)
        else if ev = EventClick
        then (if state = StateSent \<or> state = StateDelivered \<or> state = StateOpened then StateClicked
              else advance StateClicked)
        else if ev = EventSpamComplaint then StateSpamComplaint
        else if ev = EventHardBounce
        then (if state = StateClicked \<or> state = StateOpened \<or> state = StateDelivered then state
              else StateHardBounced)
        else state)"

section \<open>Tables\<close>

record request_row =
  er_token :: string
  er_message_id :: string
  er_sender_email :: string
  er_sender_name :: string
  er_subject :: string
  er_template_id :: string
  er_text :: string
  er_variables :: string
  er_headers :: string
  er_metadata :: string

record progress_row =
  pr_token :: string
  pr_recipient :: string
  pr_recipient_name :: string
  pr_state :: progress_state
  pr_pmuid :: "string option"
  pr_variables :: string
  pr_submitted_at :: "go_time option"

record event_row =
  ev_token :: string
  ev_recipient :: string
  ev_event :: delivery_event
  ev_recorded_at :: go_time

record ownership_row =
  ow_user_id :: string
  ow_token :: string
  ow_recipient :: string
  ow_created_at :: go_time

record email_db =
  email_requests :: "request_row list"
  email_progress :: "progress_row list"
  email_events :: "event_row list"
  email_ownership :: "ownership_row list"

definition NewEmailDb :: email_db where
  "NewEmailDb = \<lparr>email_requests = [], email_progress = [], email_events = [], email_ownership = []\<rparr>"

definition pr_key :: "progress_row \<Rightarrow> string \<times> string" where
  "pr_key p = (pr_token p, pr_recipient p)"

definition set_progress :: "(progress_row \<Rightarrow> bool) \<Rightarrow> (progress_row \<Rightarrow> progress_row) \<Rightarrow> email_db \<Rightarrow> email_db" where
  "set_progress P f d = d\<lparr>email_progress := sql_update P f (email_progress d)\<rparr>"

section \<open>Startup and webhooks\<close>

definition RecoverSubmissions ::
  "(db_call \<Rightarrow> gerror option) \<Rightarrow> email_db \<Rightarrow> gerror option \<times> email_db" where
  "RecoverSubmissions flt d =
     (case flt DbWrite of
        Some e \<Rightarrow> (Some e, d)
      | None \<Rightarrow>
          (None, set_progress (\<lambda>p. pr_state p = StatePending \<and> pr_submitted_at p \<noteq> None)
                   (\<lambda>p. p\<lparr>pr_state := StateRecovery\<rparr>) d))"

text \<open>The row a webhook's message identifier and recipient correlate with.\<close>

definition deliveryRow :: "string \<Rightarrow> string \<Rightarrow> email_db \<Rightarrow> progress_row option" where
  "deliveryRow messageID recipient d =
     find (\<lambda>p. pr_recipient p = recipient \<and>
        list_ex (\<lambda>r. er_token r = pr_token p \<and> er_message_id r = messageID) (email_requests d))
       (email_progress d)"

definition RecordEvent ::
  "(db_call \<Rightarrow> gerror option) \<Rightarrow> go_time \<Rightarrow> string \<Rightarrow> string \<Rightarrow> delivery_event \<Rightarrow> email_db \<Rightarrow>
     gerror option \<times> email_db" where
  "RecordEvent flt now messageID recipient ev d =
     (if \<not> validDeliveryEvent ev then (Some (Err ''unknown delivery event''), d)
      else case flt DbBegin of
        Some e \<Rightarrow> (Some (Wrapped e ''begin delivery event''), d)
      | None \<Rightarrow>
          (case flt DbQuery of
             Some e \<Rightarrow> (Some (Wrapped e ''find delivery recipient''), d)
           | None \<Rightarrow>
               (case deliveryRow messageID recipient d of
                  None \<Rightarrow> (Some (Wrapped ErrNoRows ''find delivery recipient''), d)
                | Some p \<Rightarrow>
                    (let token = pr_token p; state = pr_state p; next = eventState state ev in
                     if next \<noteq> state \<and> flt DbWrite \<noteq> None
                     then (Some (Wrapped (the (flt DbWrite)) ''update delivery progress''), d)
                     else
                       let d' = (if next \<noteq> state
                                 then set_progress
                                   (\<lambda>q. pr_token q = token \<and> pr_recipient q = recipient)
                                   (\<lambda>q. q\<lparr>pr_state := next\<rparr>) d
                                 else d) in
                       case flt (DbInsert 0) of
                         Some e \<Rightarrow> (Some (Wrapped e ''record delivery event''), d)
                       | None \<Rightarrow>
                           (case flt DbCommit of
                              Some e \<Rightarrow> (Some e, d)
                            | None \<Rightarrow>
                                (None, d'\<lparr>email_events := email_events d' @
                                   [\<lparr>ev_token = token, ev_recipient = recipient, ev_event = ev,
                                     ev_recorded_at = now\<rparr>]\<rparr>))))))"

section \<open>Send requests\<close>

text \<open>A \<open>map[string]string\<close>; template variables are values of an arbitrary type \<open>'v\<close>.\<close>

type_synonym string_map = "string \<rightharpoonup> string"

record 'v send_recipient =
  sr_UserID :: string
  sr_Email :: string
  sr_Name :: string
  sr_Variables :: 'v

record 'v send_request =
  rq_IdempotencyToken :: string
  rq_SenderEmail :: string
  rq_SenderName :: string
  rq_Subject :: string
  rq_TemplateID :: string
  rq_Text :: string
  rq_Variables :: 'v
  rq_Headers :: string_map
  rq_Metadata :: string_map
  rq_Recipients :: "'v send_recipient list"

record recipient_row =
  rr_userID :: string
  rr_email :: string
  rr_name :: string
  rr_variables :: string

text \<open>What \<open>insertRequestWork\<close> computes before it returns the work.\<close>

record prepared_request =
  pp_request :: request_row
  pp_rows :: "recipient_row list"

definition marshalObject :: "('v \<Rightarrow> gerror + string) \<Rightarrow> 'v \<Rightarrow> gerror + string" where
  "marshalObject marshal v =
     (case marshal v of
        Inl e \<Rightarrow> Inl e
      | Inr t \<Rightarrow> Inr (if t = ''null'' then ''{}'' else t))"

definition newMessageID :: "gerror + string \<Rightarrow> gerror + string" where
  "newMessageID rand =
     (case rand of
        Inl e \<Rightarrow> Inl (Wrapped e ''generate message ID'')
      | Inr bytes \<Rightarrow> Inr (hex_encode bytes))"

fun recipientRows ::
  "('v \<Rightarrow> gerror + string) \<Rightarrow> string list \<Rightarrow> 'v send_recipient list \<Rightarrow> gerror + recipient_row list" where
  "recipientRows marshal wanted [] = Inr []"
| "recipientRows marshal wanted (r # rs) =
     (case marshalObject marshal (sr_Variables r) of
        Inl e \<Rightarrow> Inl (Wrapped e (''encode variables for '' @ sr_Email r))
      | Inr variables \<Rightarrow>
          if sr_Email r \<in> set wanted then Inl (Err (''duplicate recipient '' @ sr_Email r))
          else (case recipientRows marshal (sr_Email r # wanted) rs of
                  Inl e \<Rightarrow> Inl e
                | Inr rows \<Rightarrow>
                    Inr (\<lparr>rr_userID = sr_UserID r, rr_email = sr_Email r, rr_name = sr_Name r,
                          rr_variables = variables\<rparr> # rows)))"

definition prepareRequest ::
  "('v \<Rightarrow> gerror + string) \<Rightarrow> (string_map \<Rightarrow> gerror + string) \<Rightarrow> gerror + string \<Rightarrow>
     'v send_request \<Rightarrow> gerror + prepared_request" where
  "prepareRequest marshal marshalMap rand request =
     (case newMessageID rand of
        Inl e \<Rightarrow> Inl e
      | Inr messageID \<Rightarrow>
     (case marshalObject marshal (rq_Variables request) of
        Inl e \<Rightarrow> Inl (Wrapped e ''encode request variables'')
      | Inr commonVariables \<Rightarrow>
     (case marshalObject marshalMap (rq_Headers request) of
        Inl e \<Rightarrow> Inl (Wrapped e ''encode request headers'')
      | Inr headers \<Rightarrow>
     (case marshalObject marshalMap (rq_Metadata request) of
        Inl e \<Rightarrow> Inl (Wrapped e ''encode request metadata'')
      | Inr metadata \<Rightarrow>
     (case recipientRows marshal [] (rq_Recipients request) of
        Inl e \<Rightarrow> Inl e
      | Inr rows \<Rightarrow>
          Inr \<lparr>pp_request = \<lparr>er_token = rq_IdempotencyToken request, er_message_id = messageID,
                 er_sender_email = rq_SenderEmail request, er_sender_name = rq_SenderName request,
                 er_subject = rq_Subject request, er_template_id = rq_TemplateID request,
                 er_text = rq_Text request, er_variables = commonVariables, er_headers = headers,
                 er_metadata = metadata\<rparr>, pp_rows = rows\<rparr>)))))"

text \<open>The stored request agrees with the new one, the message identifier aside.\<close>

definition sameRequest :: "(string \<Rightarrow> string \<Rightarrow> bool) \<Rightarrow> request_row \<Rightarrow> request_row \<Rightarrow> bool" where
  "sameRequest same stored new \<longleftrightarrow>
     er_sender_email stored = er_sender_email new \<and> er_sender_name stored = er_sender_name new \<and>
     er_subject stored = er_subject new \<and> er_template_id stored = er_template_id new \<and>
     er_text stored = er_text new \<and> same (er_variables stored) (er_variables new) \<and>
     same (er_headers stored) (er_headers new) \<and> same (er_metadata stored) (er_metadata new)"

definition ownerOf :: "email_db \<Rightarrow> progress_row \<Rightarrow> string" where
  "ownerOf d p =
     (case find (\<lambda>w. ow_token w = pr_token p \<and> ow_recipient w = pr_recipient p) (email_ownership d) of
        None \<Rightarrow> '''' | Some w \<Rightarrow> ow_user_id w)"

definition sameRecipient ::
  "(string \<Rightarrow> string \<Rightarrow> bool) \<Rightarrow> email_db \<Rightarrow> recipient_row list \<Rightarrow> progress_row \<Rightarrow> bool" where
  "sameRecipient same d wanted p =
     (case find (\<lambda>row. rr_email row = pr_recipient p) wanted of
        None \<Rightarrow> False
      | Some row \<Rightarrow> rr_userID row = ownerOf d p \<and> rr_name row = pr_recipient_name p \<and>
                    same (rr_variables row) (pr_variables p))"

text \<open>The two INSERTs of one recipient, under the primary and unique keys of the tables.\<close>

definition insertRecipient ::
  "go_time \<Rightarrow> string \<Rightarrow> recipient_row \<Rightarrow> email_db \<Rightarrow> gerror + email_db" where
  "insertRecipient now token row d =
     (if list_ex (\<lambda>p. pr_token p = token \<and> pr_recipient p = rr_email row) (email_progress d)
      then Inl (Wrapped (Err ''UNIQUE'') (''insert progress for '' @ rr_email row))
      else
        let d' = d\<lparr>email_progress := email_progress d @
                [\<lparr>pr_token = token, pr_recipient = rr_email row, pr_recipient_name = rr_name row,
                  pr_state = StatePending, pr_pmuid = None, pr_variables = rr_variables row,
                  pr_submitted_at = None\<rparr>]\<rparr>
        in if rr_userID row = '''' then Inr d'
           else if list_ex (\<lambda>w. ow_token w = token \<and> ow_recipient w = rr_email row) (email_ownership d')
           then Inl (Wrapped (Err ''UNIQUE'') ''insert email ownership'')
           else Inr (d'\<lparr>email_ownership := email_ownership d' @
                  [\<lparr>ow_user_id = rr_userID row, ow_token = token, ow_recipient = rr_email row,
                    ow_created_at = now\<rparr>]\<rparr>))"

fun insertRecipients ::
  "go_time \<Rightarrow> string \<Rightarrow> recipient_row list \<Rightarrow> email_db \<Rightarrow> gerror + email_db" where
  "insertRecipients now token [] d = Inr d"
| "insertRecipients now token (row # rows) d =
     (case insertRecipient now token row d of
        Inl e \<Rightarrow> Inl e
      | Inr d' \<Rightarrow> insertRecipients now token rows d')"

text \<open>The body of the work: a request already stored is compared, a new one is inserted.\<close>

definition insertRequestTx ::
  "(string \<Rightarrow> string \<Rightarrow> bool) \<Rightarrow> go_time \<Rightarrow> prepared_request \<Rightarrow> email_db \<Rightarrow> gerror + email_db" where
  "insertRequestTx same now pp d =
     (let new = pp_request pp; token = er_token new in
      case sql_row er_token token (email_requests d) of
        Some stored \<Rightarrow>
          if \<not> sameRequest same stored new
          then Inl (Err (''conflicting request for idempotency token '' @ token))
          else
            (let storedRows = filter (\<lambda>p. pr_token p = token) (email_progress d) in
             if \<not> list_all (sameRecipient same d (pp_rows pp)) storedRows
             then Inl (Err (''conflicting recipients for idempotency token '' @ token))
             else if length storedRows \<noteq> length (pp_rows pp)
             then Inl (Err (''conflicting recipients for idempotency token '' @ token))
             else Inr d)
      | None \<Rightarrow>
          if list_ex (\<lambda>r. er_message_id r = er_message_id new) (email_requests d)
          then Inl (Wrapped (Err ''UNIQUE'') ''insert email request'')
          else insertRecipients now token (pp_rows pp)
                 (d\<lparr>email_requests := email_requests d @ [new]\<rparr>))"

text \<open>
  A piece of work as cellar runs it. On the transaction that does nothing \<open>QueryRow\<close> returns a nil
  row, so work that reads cannot run there.
\<close>

definition tx_work :: "(email_db \<Rightarrow> gerror + email_db) \<Rightarrow> email_db application_work" where
  "tx_work f tx =
     (case tx of
        SqlTx d \<Rightarrow> (case f d of Inl e \<Rightarrow> Inl e | Inr d' \<Rightarrow> Inr (SqlTx d'))
      | NoopApplicationTx \<Rightarrow> Inl (Err ''nil row''))"

definition exec_work :: "(email_db \<Rightarrow> email_db) \<Rightarrow> email_db application_work" where
  "exec_work f tx =
     (case tx of SqlTx d \<Rightarrow> Inr (SqlTx (f d)) | NoopApplicationTx \<Rightarrow> Inr NoopApplicationTx)"

definition insertRequestWork ::
  "(string \<Rightarrow> string \<Rightarrow> bool) \<Rightarrow> ('v \<Rightarrow> gerror + string) \<Rightarrow> (string_map \<Rightarrow> gerror + string) \<Rightarrow>
     gerror + string \<Rightarrow> go_time \<Rightarrow> 'v send_request \<Rightarrow> gerror + email_db application_work" where
  "insertRequestWork same marshal marshalMap rand now request =
     (case prepareRequest marshal marshalMap rand request of
        Inl e \<Rightarrow> Inl e
      | Inr pp \<Rightarrow> Inr (tx_work (insertRequestTx same now pp)))"

section \<open>Reading\<close>

text \<open>
  Reads of the store. A text column that does not decode makes the read fail; a NULL
  \<open>submitted_at\<close> does not scan into a \<open>time.Time\<close>.
\<close>

record 'v durable_request =
  dr_messageID :: string
  dr_senderEmail :: string
  dr_senderName :: string
  dr_subject :: string
  dr_templateID :: string
  dr_text :: string
  dr_variables :: 'v
  dr_headers :: string_map
  dr_metadata :: string_map

record 'v durable_recipient =
  rc_email :: string
  rc_name :: string
  rc_variables :: 'v

record verify_candidate =
  vc_recipient :: string
  vc_submittedAt :: go_time

definition readRequest ::
  "(db_call \<Rightarrow> gerror option) \<Rightarrow> (string \<Rightarrow> gerror + 'v) \<Rightarrow> (string \<Rightarrow> gerror + string_map) \<Rightarrow>
     string \<Rightarrow> email_db \<Rightarrow> gerror + 'v durable_request" where
  "readRequest flt unmarshal unmarshalMap token d =
     (case flt DbQuery of
        Some e \<Rightarrow> Inl e
      | None \<Rightarrow>
     (case sql_row er_token token (email_requests d) of
        None \<Rightarrow> Inl ErrNoRows
      | Some r \<Rightarrow>
     (case unmarshal (er_variables r) of
        Inl e \<Rightarrow> Inl (Wrapped e ''decode request variables'')
      | Inr variables \<Rightarrow>
     (case unmarshalMap (er_headers r) of
        Inl e \<Rightarrow> Inl (Wrapped e ''decode request headers'')
      | Inr headers \<Rightarrow>
     (case unmarshalMap (er_metadata r) of
        Inl e \<Rightarrow> Inl (Wrapped e ''decode request metadata'')
      | Inr metadata \<Rightarrow>
          Inr \<lparr>dr_messageID = er_message_id r, dr_senderEmail = er_sender_email r,
               dr_senderName = er_sender_name r, dr_subject = er_subject r,
               dr_templateID = er_template_id r, dr_text = er_text r, dr_variables = variables,
               dr_headers = headers, dr_metadata = metadata\<rparr>)))))"

definition in_state :: "string \<Rightarrow> progress_state \<Rightarrow> progress_row \<Rightarrow> bool" where
  "in_state token st p \<longleftrightarrow> pr_token p = token \<and> pr_state p = st"

definition pendingRow ::
  "(string \<Rightarrow> gerror + 'v) \<Rightarrow> progress_row \<Rightarrow> gerror + 'v durable_recipient" where
  "pendingRow unmarshal p =
     (case unmarshal (pr_variables p) of
        Inl e \<Rightarrow> Inl (Wrapped e (''decode variables for '' @ pr_recipient p))
      | Inr v \<Rightarrow> Inr \<lparr>rc_email = pr_recipient p, rc_name = pr_recipient_name p, rc_variables = v\<rparr>)"

definition pendingRecipients ::
  "(db_call \<Rightarrow> gerror option) \<Rightarrow> (string \<Rightarrow> gerror + 'v) \<Rightarrow> string \<Rightarrow> email_db \<Rightarrow>
     gerror + 'v durable_recipient list" where
  "pendingRecipients flt unmarshal token d =
     (case flt DbQuery of
        Some e \<Rightarrow> Inl e
      | None \<Rightarrow>
          res_map (pendingRow unmarshal)
            (sql_select (in_state token StatePending) pr_recipient (email_progress d)))"

definition candidateRow :: "progress_row \<Rightarrow> gerror + verify_candidate" where
  "candidateRow p =
     (case pr_submitted_at p of
        None \<Rightarrow> Inl (Err ''converting NULL to time.Time'')
      | Some t \<Rightarrow> Inr \<lparr>vc_recipient = pr_recipient p, vc_submittedAt = t\<rparr>)"

definition recoveryCandidates ::
  "(db_call \<Rightarrow> gerror option) \<Rightarrow> string \<Rightarrow> email_db \<Rightarrow> gerror + verify_candidate list" where
  "recoveryCandidates flt token d =
     (case flt DbQuery of
        Some e \<Rightarrow> Inl e
      | None \<Rightarrow>
          res_map candidateRow
            (sql_select (in_state token StateRecovery) pr_recipient (email_progress d)))"

definition waitingRecipients ::
  "(db_call \<Rightarrow> gerror option) \<Rightarrow> string \<Rightarrow> email_db \<Rightarrow> gerror + verify_candidate list" where
  "waitingRecipients flt token d =
     (case flt DbQuery of
        Some e \<Rightarrow> Inl e
      | None \<Rightarrow>
          res_map candidateRow
            (sql_select (in_state token StateRecoveryWaiting) pr_recipient (email_progress d)))"

definition waitingRecipient ::
  "(db_call \<Rightarrow> gerror option) \<Rightarrow> string \<Rightarrow> string \<Rightarrow> email_db \<Rightarrow> gerror + go_time option" where
  "waitingRecipient flt token recipient d =
     (case flt DbQuery of
        Some e \<Rightarrow> Inl e
      | None \<Rightarrow>
          (case find (\<lambda>p. in_state token StateRecoveryWaiting p \<and> pr_recipient p = recipient)
                  (email_progress d) of
             None \<Rightarrow> Inr None
           | Some p \<Rightarrow>
               (case candidateRow p of Inl e \<Rightarrow> Inl e | Inr c \<Rightarrow> Inr (Some (vc_submittedAt c)))))"

definition hasUnresolved ::
  "(db_call \<Rightarrow> gerror option) \<Rightarrow> string \<Rightarrow> email_db \<Rightarrow> gerror + bool" where
  "hasUnresolved flt token d =
     (case flt DbQuery of
        Some e \<Rightarrow> Inl e
      | None \<Rightarrow>
          Inr (sql_count (\<lambda>p. pr_token p = token \<and>
                 (pr_state p = StateRecovery \<or> pr_state p = StateRecoveryWaiting))
               (email_progress d) > 0))"

section \<open>Writing\<close>

definition suppressedID :: "string \<Rightarrow> nat \<Rightarrow> string" where
  "suppressedID messageID index = ''suppressed:'' @ messageID @ '':'' @ itoa index"

fun acceptBestEffortRows ::
  "(db_call \<Rightarrow> gerror option) \<Rightarrow> string \<Rightarrow> string \<Rightarrow> nat \<Rightarrow> 'v durable_recipient list \<Rightarrow> email_db \<Rightarrow>
     gerror + email_db" where
  "acceptBestEffortRows flt token messageID index [] d = Inr d"
| "acceptBestEffortRows flt token messageID index (r # rs) d =
     (case flt (DbInsert index) of
        Some e \<Rightarrow> Inl e
      | None \<Rightarrow>
          (let P = (\<lambda>p. pr_token p = token \<and> pr_recipient p = rc_email r \<and>
                        pr_state p = StatePending \<and> pr_submitted_at p = None) in
           if sql_count P (email_progress d) \<noteq> 1
           then Inl (Err ''best-effort recipient is no longer pending'')
           else acceptBestEffortRows flt token messageID (Suc index) rs
                  (set_progress P (\<lambda>p. p\<lparr>pr_state := StateAccepted,
                       pr_pmuid := Some (suppressedID messageID index), pr_submitted_at := None\<rparr>) d)))"

definition acceptBestEffort ::
  "(db_call \<Rightarrow> gerror option) \<Rightarrow> string \<Rightarrow> string \<Rightarrow> 'v durable_recipient list \<Rightarrow> email_db \<Rightarrow>
     gerror option \<times> email_db" where
  "acceptBestEffort flt token messageID pending d =
     (case flt DbBegin of
        Some e \<Rightarrow> (Some e, d)
      | None \<Rightarrow>
          (case acceptBestEffortRows flt token messageID 0 pending d of
             Inl e \<Rightarrow> (Some e, d)
           | Inr d' \<Rightarrow> (case flt DbCommit of Some e \<Rightarrow> (Some e, d) | None \<Rightarrow> (None, d'))))"

definition markSubmitted ::
  "(db_call \<Rightarrow> gerror option) \<Rightarrow> string \<Rightarrow> go_time \<Rightarrow> email_db \<Rightarrow> gerror option \<times> email_db" where
  "markSubmitted flt token now d =
     (case flt DbWrite of
        Some e \<Rightarrow> (Some e, d)
      | None \<Rightarrow> (None, set_progress (in_state token StatePending)
                   (\<lambda>p. p\<lparr>pr_submitted_at := Some now\<rparr>) d))"

text \<open>The updates of the pieces of work.\<close>

definition recoverUpdate :: "string \<Rightarrow> email_db \<Rightarrow> email_db" where
  "recoverUpdate token =
     set_progress (\<lambda>p. in_state token StatePending p \<and> pr_submitted_at p \<noteq> None)
       (\<lambda>p. p\<lparr>pr_state := StateRecovery\<rparr>)"

definition waitUpdate :: "string \<Rightarrow> email_db \<Rightarrow> email_db" where
  "waitUpdate token =
     set_progress (in_state token StateRecovery) (\<lambda>p. p\<lparr>pr_state := StateRecoveryWaiting\<rparr>)"

definition absentUpdate :: "string \<Rightarrow> string \<Rightarrow> email_db \<Rightarrow> email_db" where
  "absentUpdate token recipient =
     set_progress (\<lambda>p. in_state token StateRecoveryWaiting p \<and> pr_recipient p = recipient)
       (\<lambda>p. p\<lparr>pr_state := StatePending, pr_submitted_at := None\<rparr>)"

definition afterSubmission :: "progress_state list" where
  "afterSubmission = [StateSent, StateDelivered, StateOpened, StateClicked, StateSpamComplaint,
     StateHardBounced, StateAccepted]"

definition acceptUpdate ::
  "progress_state \<Rightarrow> string \<Rightarrow> string \<Rightarrow> string \<Rightarrow> email_db \<Rightarrow> email_db" where
  "acceptUpdate from token recipient pmuid =
     set_progress (\<lambda>p. pr_token p = token \<and> pr_recipient p = recipient \<and>
                       pr_state p \<in> set (from # afterSubmission))
       (\<lambda>p. p\<lparr>pr_state := (if pr_state p = from then StateAccepted else pr_state p),
              pr_pmuid := (case pr_pmuid p of None \<Rightarrow> Some pmuid | Some x \<Rightarrow> Some x)\<rparr>)"

definition recoverWork :: "string \<Rightarrow> email_db application_work" where
  "recoverWork token = exec_work (recoverUpdate token)"

definition waitWork :: "string \<Rightarrow> email_db application_work" where
  "waitWork token = exec_work (waitUpdate token)"

definition absentWork :: "string \<Rightarrow> string \<Rightarrow> email_db application_work" where
  "absentWork token recipient = exec_work (absentUpdate token recipient)"

definition acceptWork :: "string \<Rightarrow> string \<Rightarrow> string \<Rightarrow> email_db application_work" where
  "acceptWork token recipient pmuid = exec_work (acceptUpdate StatePending token recipient pmuid)"

definition acceptRecoveredWork :: "string \<Rightarrow> string \<Rightarrow> string \<Rightarrow> email_db application_work" where
  "acceptRecoveredWork token recipient pmuid =
     exec_work (acceptUpdate StateRecoveryWaiting token recipient pmuid)"

section \<open>Operations on the tables\<close>

text \<open>Everything that changes the tables, as a sequence of operations, with the database's faults.\<close>

datatype (dead 'v) email_change =
    OpRecoverSubmissions "db_call \<Rightarrow> gerror option"
  | OpRecordEvent "db_call \<Rightarrow> gerror option" go_time string string delivery_event
  | OpInsertRequest go_time prepared_request
  | OpAcceptBestEffort "db_call \<Rightarrow> gerror option" string string "'v durable_recipient list"
  | OpMarkSubmitted "db_call \<Rightarrow> gerror option" string go_time
  | OpRecover string
  | OpWait string
  | OpAbsent string string
  | OpAccept string string string
  | OpAcceptRecovered string string string

fun email_op :: "(string \<Rightarrow> string \<Rightarrow> bool) \<Rightarrow> 'v email_change \<Rightarrow> email_db \<Rightarrow> email_db" where
  "email_op same (OpRecoverSubmissions flt) d = snd (RecoverSubmissions flt d)"
| "email_op same (OpRecordEvent flt now m r ev) d = snd (RecordEvent flt now m r ev d)"
| "email_op same (OpInsertRequest now pp) d =
     (case insertRequestTx same now pp d of Inl e \<Rightarrow> d | Inr d' \<Rightarrow> d')"
| "email_op same (OpAcceptBestEffort flt t m rs) d = snd (acceptBestEffort flt t m rs d)"
| "email_op same (OpMarkSubmitted flt t now) d = snd (markSubmitted flt t now d)"
| "email_op same (OpRecover t) d = recoverUpdate t d"
| "email_op same (OpWait t) d = waitUpdate t d"
| "email_op same (OpAbsent t r) d = absentUpdate t r d"
| "email_op same (OpAccept t r u) d = acceptUpdate StatePending t r u d"
| "email_op same (OpAcceptRecovered t r u) d = acceptUpdate StateRecoveryWaiting t r u d"

text \<open>The states in which a recipient may still be submitted, now or after verification.\<close>

definition unsubmitted :: "progress_state \<Rightarrow> bool" where
  "unsubmitted st \<longleftrightarrow> st = StatePending \<or> st = StateRecovery \<or> st = StateRecoveryWaiting"

definition progress_states :: "progress_state set" where
  "progress_states = {StatePending, StateAccepted, StateRecovery, StateRecoveryWaiting, StateRefused,
     StateSent, StateDelivered, StateOpened, StateClicked, StateSpamComplaint, StateHardBounced}"

text \<open>
  One row under one operation: it keeps its key; a settled row stays settled and its provider
  identifier never changes.
\<close>

definition row_ok :: "progress_row \<Rightarrow> bool" where
  "row_ok p \<longleftrightarrow> pr_state p \<in> progress_states \<and>
     (pr_state p = StateRecovery \<or> pr_state p = StateRecoveryWaiting \<longrightarrow> pr_submitted_at p \<noteq> None) \<and>
     (unsubmitted (pr_state p) \<longrightarrow> pr_pmuid p = None)"

definition row_step :: "progress_row \<Rightarrow> progress_row \<Rightarrow> bool" where
  "row_step p q \<longleftrightarrow> pr_key q = pr_key p \<and> (row_ok p \<longrightarrow> row_ok q) \<and>
     (\<not> unsubmitted (pr_state p) \<longrightarrow> \<not> unsubmitted (pr_state q)) \<and>
     (\<forall>u. row_ok p \<longrightarrow> pr_pmuid p = Some u \<longrightarrow> pr_pmuid q = Some u)"

definition progress_inv :: "email_db \<Rightarrow> bool" where
  "progress_inv d \<longleftrightarrow> distinct (map pr_key (email_progress d)) \<and>
     distinct (map er_token (email_requests d)) \<and> (\<forall>p \<in> set (email_progress d). row_ok p) \<and>
     pr_token ` set (email_progress d) \<subseteq> er_token ` set (email_requests d) \<and>
     ow_token ` set (email_ownership d) \<subseteq> er_token ` set (email_requests d)"

text \<open>The rows a new request inserts.\<close>

definition newProgress :: "string \<Rightarrow> recipient_row \<Rightarrow> progress_row" where
  "newProgress t row = \<lparr>pr_token = t, pr_recipient = rr_email row, pr_recipient_name = rr_name row,
     pr_state = StatePending, pr_pmuid = None, pr_variables = rr_variables row, pr_submitted_at = None\<rparr>"

definition newOwnership :: "go_time \<Rightarrow> string \<Rightarrow> recipient_row list \<Rightarrow> ownership_row list" where
  "newOwnership now t rows = map (\<lambda>row. \<lparr>ow_user_id = rr_userID row, ow_token = t,
     ow_recipient = rr_email row, ow_created_at = now\<rparr>) (filter (\<lambda>row. rr_userID row \<noteq> []) rows)"

section \<open>Rows under the operations\<close>

lemma row_step_refl [simp]: "row_step p p"
  by (simp add: row_step_def)

lemma row_step_trans: "row_step p q \<Longrightarrow> row_step q r \<Longrightarrow> row_step p r"
  by (auto simp: row_step_def)

lemma row_step_key: "row_step p q \<Longrightarrow> pr_key q = pr_key p"
  by (simp add: row_step_def)

lemma unsubmitted_simps [simp]:
  "unsubmitted StatePending" "unsubmitted StateRecovery" "unsubmitted StateRecoveryWaiting"
  "\<not> unsubmitted StateAccepted" "\<not> unsubmitted StateSent" "\<not> unsubmitted StateDelivered"
  "\<not> unsubmitted StateOpened" "\<not> unsubmitted StateClicked" "\<not> unsubmitted StateSpamComplaint"
  "\<not> unsubmitted StateHardBounced" "\<not> unsubmitted StateRefused"
  by (simp_all add: unsubmitted_def progress_state_defs)

lemma progress_states_mem [simp]:
  "StatePending \<in> progress_states" "StateRecovery \<in> progress_states"
  "StateRecoveryWaiting \<in> progress_states" "StateAccepted \<in> progress_states"
  "StateSent \<in> progress_states" "StateDelivered \<in> progress_states" "StateOpened \<in> progress_states"
  "StateClicked \<in> progress_states" "StateSpamComplaint \<in> progress_states"
  "StateHardBounced \<in> progress_states"
  by (simp_all add: progress_states_def)

lemma state_neq [simp]:
  "StatePending \<noteq> StateRecovery" "StatePending \<noteq> StateRecoveryWaiting" "StateRecovery \<noteq> StateRecoveryWaiting"
  "StateRecovery \<noteq> StatePending" "StateRecoveryWaiting \<noteq> StatePending" "StateRecoveryWaiting \<noteq> StateRecovery"
  "StateAccepted \<noteq> StateRecovery" "StateAccepted \<noteq> StateRecoveryWaiting" "StateAccepted \<noteq> StatePending"
  by (simp_all add: progress_state_defs)

lemma settled_neq: "\<not> unsubmitted st \<Longrightarrow> st \<noteq> StatePending \<and> st \<noteq> StateRecovery \<and> st \<noteq> StateRecoveryWaiting"
  by (auto simp: unsubmitted_def)

lemma eventState_cases:
  "eventState st ev \<in> {st, StateSent, StateDelivered, StateOpened, StateClicked, StateSpamComplaint,
     StateHardBounced}"
  unfolding eventState_def Let_def by (intro if_memI insertI1 insertI2)

lemma eventState_settled: "eventState st ev = st \<or> \<not> unsubmitted (eventState st ev) \<and> eventState st ev \<in> progress_states"
  using eventState_cases [of st ev] by auto

lemma row_step_event: "row_step p (p\<lparr>pr_state := eventState (pr_state p) ev\<rparr>)"
proof (cases "eventState (pr_state p) ev = pr_state p")
  case False
  with eventState_settled [of "pr_state p" ev] have
    "\<not> unsubmitted (eventState (pr_state p) ev)" "eventState (pr_state p) ev \<in> progress_states" by auto
  then show ?thesis by (auto simp: row_step_def row_ok_def pr_key_def dest: settled_neq)
qed simp

lemma row_step_recovery:
  "pr_submitted_at p \<noteq> None \<Longrightarrow> pr_state p = StatePending \<Longrightarrow> row_step p (p\<lparr>pr_state := StateRecovery\<rparr>)"
  by (auto simp: row_step_def row_ok_def pr_key_def)

lemma row_step_waiting: "pr_state p = StateRecovery \<Longrightarrow> row_step p (p\<lparr>pr_state := StateRecoveryWaiting\<rparr>)"
  by (auto simp: row_step_def row_ok_def pr_key_def)

lemma row_step_absent:
  "pr_state p = StateRecoveryWaiting \<Longrightarrow> row_step p (p\<lparr>pr_state := StatePending, pr_submitted_at := None\<rparr>)"
  by (auto simp: row_step_def row_ok_def pr_key_def)

lemma row_step_mark: "pr_state p = StatePending \<Longrightarrow> row_step p (p\<lparr>pr_submitted_at := t\<rparr>)"
  by (auto simp: row_step_def row_ok_def pr_key_def)

lemma row_step_best_effort:
  "pr_state p = StatePending \<Longrightarrow>
   row_step p (p\<lparr>pr_state := StateAccepted, pr_pmuid := Some u, pr_submitted_at := None\<rparr>)"
  by (auto simp: row_step_def row_ok_def pr_key_def)

lemma row_step_accept:
  assumes "pr_state p \<in> set (from # afterSubmission)" "unsubmitted from"
  shows "row_step p (p\<lparr>pr_state := (if pr_state p = from then StateAccepted else pr_state p),
    pr_pmuid := (case pr_pmuid p of None \<Rightarrow> Some u | Some x \<Rightarrow> Some x)\<rparr>)"
proof (cases "pr_state p = from")
  case True
  with assms(2) show ?thesis by (auto simp: row_step_def row_ok_def pr_key_def split: option.splits)
next
  case False
  with assms(1) have "\<not> unsubmitted (pr_state p)" by (auto simp: afterSubmission_def)
  with False show ?thesis by (auto simp: row_step_def row_ok_def pr_key_def split: option.splits)
qed

text \<open>The table as a whole: the old rows each made a step, and new rows follow them.\<close>

definition progress_extends :: "email_db \<Rightarrow> email_db \<Rightarrow> bool" where
  "progress_extends d d' \<longleftrightarrow>
     (\<exists>us vs. email_progress d' = us @ vs \<and> list_all2 row_step (email_progress d) us)"

lemma progress_extends_refl [simp]: "progress_extends d d"
  unfolding progress_extends_def by (intro exI [of _ "email_progress d"] exI [of _ "[]"]) (simp add: list_all2_same)

lemma progress_extends_trans:
  assumes "progress_extends d d'" "progress_extends d' d''"
  shows "progress_extends d d''"
proof -
  from assms(1) obtain us vs where 1: "email_progress d' = us @ vs" "list_all2 row_step (email_progress d) us"
    by (auto simp: progress_extends_def)
  from assms(2) obtain xs ys where 2: "email_progress d'' = xs @ ys" "list_all2 row_step (us @ vs) xs"
    by (auto simp: progress_extends_def 1)
  from 2(2) obtain xs1 xs2 where 3: "xs = xs1 @ xs2" "list_all2 row_step us xs1"
    by (auto simp: list_all2_append1)
  have "list_all2 row_step (email_progress d) xs1"
    using 1(2) 3(2) by (rule list_all2_trans [of row_step row_step row_step, rotated]) (rule row_step_trans)
  with 2 3 show ?thesis by (auto simp: progress_extends_def)
qed

lemma list_all2_sql_update:
  "(\<And>p. p \<in> set t \<Longrightarrow> P p \<Longrightarrow> row_step p (f p)) \<Longrightarrow> list_all2 row_step t (sql_update P f t)"
  by (induction t) (auto simp: sql_update_def)

lemma set_progress_extends:
  "(\<And>p. p \<in> set (email_progress d) \<Longrightarrow> P p \<Longrightarrow> row_step p (f p)) \<Longrightarrow> progress_extends d (set_progress P f d)"
  unfolding progress_extends_def set_progress_def
  by (intro exI [of _ "sql_update P f (email_progress d)"] exI [of _ "[]"]) (simp add: list_all2_sql_update)

lemma list_all2_row_step_keys: "list_all2 row_step t u \<Longrightarrow> map pr_key u = map pr_key t"
  by (induction rule: list_all2_induct) (auto dest: row_step_key)

lemma list_all2_row_step_ok: "list_all2 row_step t u \<Longrightarrow> \<forall>p \<in> set t. row_ok p \<Longrightarrow> \<forall>q \<in> set u. row_ok q"
  by (induction rule: list_all2_induct) (auto simp: row_step_def)

lemma set_progress_sel [simp]:
  "email_progress (set_progress P f d) = sql_update P f (email_progress d)"
  "email_requests (set_progress P f d) = email_requests d"
  "email_ownership (set_progress P f d) = email_ownership d"
  "email_events (set_progress P f d) = email_events d"
  by (simp_all add: set_progress_def)

lemma progress_inv_set_progress:
  assumes "progress_inv d" "\<And>p. p \<in> set (email_progress d) \<Longrightarrow> P p \<Longrightarrow> row_step p (f p)"
  shows "progress_inv (set_progress P f d)"
proof -
  have l: "list_all2 row_step (email_progress d) (sql_update P f (email_progress d))"
    by (rule list_all2_sql_update) (rule assms(2))
  have k: "map pr_key (sql_update P f (email_progress d)) = map pr_key (email_progress d)"
    using list_all2_row_step_keys [OF l] .
  have "pr_token ` set t = fst ` set (map pr_key t)" for t by (auto simp: pr_key_def image_image)
  then have tok: "pr_token ` set (sql_update P f (email_progress d)) = pr_token ` set (email_progress d)"
    by (simp only: k)
  have "\<forall>q \<in> set (sql_update P f (email_progress d)). row_ok q"
    using list_all2_row_step_ok [OF l] assms(1) [unfolded progress_inv_def] by blast
  then show ?thesis
    unfolding progress_inv_def set_progress_sel k tok using assms(1) [unfolded progress_inv_def] by blast
qed

lemma update_ok:
  assumes "progress_inv d" "\<And>p. p \<in> set (email_progress d) \<Longrightarrow> P p \<Longrightarrow> row_step p (f p)"
  shows "progress_inv (set_progress P f d) \<and> progress_extends d (set_progress P f d)"
  using progress_inv_set_progress [OF assms] set_progress_extends [OF assms(2)] by blast

lemma progress_fields [simp]:
  "progress_inv (d\<lparr>email_events := x\<rparr>) = progress_inv d"
  "progress_extends c (d\<lparr>email_events := x\<rparr>) = progress_extends c d"
  by (simp_all add: progress_inv_def progress_extends_def)

lemma progress_inv_unique:
  "progress_inv d \<Longrightarrow> p \<in> set (email_progress d) \<Longrightarrow> q \<in> set (email_progress d) \<Longrightarrow>
   pr_token p = pr_token q \<Longrightarrow> pr_recipient p = pr_recipient q \<Longrightarrow> p = q"
  by (auto simp: progress_inv_def distinct_map inj_on_def pr_key_def)

lemma RecordEvent_error: "fst (RecordEvent flt now m r ev d) = Some e \<Longrightarrow> snd (RecordEvent flt now m r ev d) = d"
  by (simp add: RecordEvent_def Let_def split: if_splits option.splits)

lemma RecordEvent_success:
  assumes "fst (RecordEvent flt now m r ev d) = None"
  shows "\<exists>p x. deliveryRow m r d = Some p \<and> snd (RecordEvent flt now m r ev d) =
    (if eventState (pr_state p) ev \<noteq> pr_state p
     then set_progress (\<lambda>q. pr_token q = pr_token p \<and> pr_recipient q = r)
       (\<lambda>q. q\<lparr>pr_state := eventState (pr_state p) ev\<rparr>) d
     else d)\<lparr>email_events := x\<rparr>"
proof -
  from assms have v: "validDeliveryEvent ev" "flt DbBegin = None" "flt DbQuery = None"
    and "deliveryRow m r d \<noteq> None"
    by (auto simp: RecordEvent_def split: if_splits option.splits)
  then obtain p where p: "deliveryRow m r d = Some p" by blast
  let ?n = "eventState (pr_state p) ev"
  from assms v p have w: "\<not> (?n \<noteq> pr_state p \<and> flt DbWrite \<noteq> None)" "flt (DbInsert 0) = None" "flt DbCommit = None"
    by (auto simp: RecordEvent_def Let_def split: if_splits option.splits)
  show ?thesis
    unfolding RecordEvent_def Let_def p
    using v w by (cases "?n = pr_state p") (auto simp: p)
qed

lemma RecordEvent_ok:
  assumes "progress_inv d"
  shows "progress_inv (snd (RecordEvent flt now m r ev d)) \<and>
    progress_extends d (snd (RecordEvent flt now m r ev d))"
proof (cases "deliveryRow m r d")
  case None
  with assms show ?thesis by (auto simp: RecordEvent_def split: option.splits)
next
  case (Some p)
  let ?P = "\<lambda>q. pr_token q = pr_token p \<and> pr_recipient q = r"
  let ?f = "\<lambda>q. q\<lparr>pr_state := eventState (pr_state p) ev\<rparr>"
  from Some have p: "p \<in> set (email_progress d)" "pr_recipient p = r"
    by (auto simp: deliveryRow_def find_Some_iff)
  have step: "row_step q (?f q)" if "q \<in> set (email_progress d)" "?P q" for q
  proof -
    from that p have "q = p" by (intro progress_inv_unique [OF assms]) auto
    then show ?thesis by (simp add: row_step_event)
  qed
  have ok: "progress_inv (set_progress ?P ?f d) \<and> progress_extends d (set_progress ?P ?f d)"
    by (rule update_ok [OF assms step])
  show ?thesis
  proof (cases "fst (RecordEvent flt now m r ev d)")
    case (Some e)
    then have "snd (RecordEvent flt now m r ev d) = d" by (rule RecordEvent_error)
    with assms show ?thesis by simp
  next
    case None
    from RecordEvent_success [OF None] obtain p' x where p': "deliveryRow m r d = Some p'"
      "snd (RecordEvent flt now m r ev d) =
        (if eventState (pr_state p') ev \<noteq> pr_state p'
         then set_progress (\<lambda>q. pr_token q = pr_token p' \<and> pr_recipient q = r)
           (\<lambda>q. q\<lparr>pr_state := eventState (pr_state p') ev\<rparr>) d
         else d)\<lparr>email_events := x\<rparr>" by blast
    with Some have eq: "p' = p" by simp
    have "progress_inv (if b then set_progress ?P ?f d else d) \<and>
        progress_extends d (if b then set_progress ?P ?f d else d)" for b
      using ok assms by (cases b) (simp_all only: if_True if_False progress_extends_refl)
    then show ?thesis unfolding p'(2) eq progress_fields by blast
  qed
qed

lemma acceptBestEffortRows_ok:
  "acceptBestEffortRows flt t m k rs d = Inr d' \<Longrightarrow> progress_inv d \<Longrightarrow>
   progress_inv d' \<and> progress_extends d d'"
proof (induction flt t m k rs d rule: acceptBestEffortRows.induct)
  case (2 flt t m k r rs d)
  let ?P = "\<lambda>p. pr_token p = t \<and> pr_recipient p = rc_email r \<and> pr_state p = StatePending \<and>
      pr_submitted_at p = None"
  let ?f = "\<lambda>p. p\<lparr>pr_state := StateAccepted, pr_pmuid := Some (suppressedID m k), pr_submitted_at := None\<rparr>"
  have s: "progress_inv (set_progress ?P ?f d) \<and> progress_extends d (set_progress ?P ?f d)"
    by (rule update_ok [OF 2(3)]) (simp add: row_step_best_effort)
  from 2(2) have "flt (DbInsert k) = None" "sql_count ?P (email_progress d) = 1"
    "acceptBestEffortRows flt t m (Suc k) rs (set_progress ?P ?f d) = Inr d'"
    by (auto simp: Let_def split: option.splits if_splits)
  with 2(1) s show ?case using progress_extends_trans by blast
qed simp

lemma insertRecipients_Inr:
  "insertRecipients now t rows d = Inr d' \<Longrightarrow>
   email_requests d' = email_requests d \<and> distinct (map rr_email rows) \<and>
     (\<forall>row \<in> set rows. \<forall>p \<in> set (email_progress d). pr_key p \<noteq> (t, rr_email row)) \<and>
     email_progress d' = email_progress d @ map (newProgress t) rows \<and>
     email_ownership d' = email_ownership d @ newOwnership now t rows \<and> email_events d' = email_events d"
proof (induction rows arbitrary: d)
  case (Cons row rows)
  then obtain d1 where d1: "insertRecipient now t row d = Inr d1" "insertRecipients now t rows d1 = Inr d'"
    by (auto split: sum.splits)
  then have "email_requests d1 = email_requests d"
    "\<forall>p \<in> set (email_progress d). pr_key p \<noteq> (t, rr_email row)"
    "email_progress d1 = email_progress d @ [newProgress t row]"
    "email_ownership d1 = email_ownership d @ newOwnership now t [row]" "email_events d1 = email_events d"
    by (auto simp: insertRecipient_def Let_def list_ex_iff pr_key_def newProgress_def newOwnership_def
        split: if_splits)
  with Cons.IH [OF d1(2)] show ?case by (auto simp: pr_key_def newProgress_def newOwnership_def)
qed (auto simp: newOwnership_def)

lemma insertRequestTx_ok:
  assumes "progress_inv d" "insertRequestTx same now pp d = Inr d'"
  shows "progress_inv d' \<and> progress_extends d d'"
proof (cases "sql_row er_token (er_token (pp_request pp)) (email_requests d)")
  case (Some stored)
  with assms show ?thesis by (auto simp: insertRequestTx_def Let_def split: if_splits)
next
  case None
  let ?t = "er_token (pp_request pp)"
  from None assms(2) have
    "insertRecipients now ?t (pp_rows pp) (d\<lparr>email_requests := email_requests d @ [pp_request pp]\<rparr>) = Inr d'"
    by (auto simp: insertRequestTx_def Let_def split: if_splits)
  from insertRecipients_Inr [OF this] None assms(1) show ?thesis
    by (auto simp: progress_inv_def progress_extends_def sql_row_None row_ok_def pr_key_def list_all2_same
        comp_def distinct_map inj_on_def image_iff newProgress_def newOwnership_def)
qed

lemma acceptUpdate_ok:
  assumes "progress_inv d" "unsubmitted from"
  shows "progress_inv (acceptUpdate from t r u d) \<and> progress_extends d (acceptUpdate from t r u d)"
  unfolding acceptUpdate_def using assms by (intro update_ok row_step_accept) blast+

lemma email_op_ok:
  assumes "progress_inv d"
  shows "progress_inv (email_op same c d) \<and> progress_extends d (email_op same c d)"
proof (cases c)
  case (OpRecoverSubmissions flt)
  then show ?thesis using assms
    by (auto simp: RecoverSubmissions_def intro!: progress_inv_set_progress set_progress_extends
        row_step_recovery split: option.splits)
next
  case (OpRecordEvent flt now m r ev)
  then show ?thesis using RecordEvent_ok [OF assms] by simp
next
  case (OpInsertRequest now pp)
  then show ?thesis using assms insertRequestTx_ok by (auto split: sum.splits)
next
  case (OpAcceptBestEffort flt t m rs)
  then show ?thesis using assms
    by (auto simp: acceptBestEffort_def split: option.splits sum.splits dest: acceptBestEffortRows_ok)
next
  case (OpMarkSubmitted flt t now)
  then show ?thesis using assms
    by (auto simp: markSubmitted_def in_state_def intro!: progress_inv_set_progress set_progress_extends
        row_step_mark split: option.splits)
next
  case (OpRecover t)
  then show ?thesis using assms
    by (auto simp: recoverUpdate_def in_state_def intro!: progress_inv_set_progress set_progress_extends
        row_step_recovery)
next
  case (OpWait t)
  then show ?thesis using assms
    by (auto simp: waitUpdate_def in_state_def intro!: progress_inv_set_progress set_progress_extends
        row_step_waiting)
next
  case (OpAbsent t r)
  then show ?thesis using assms
    by (auto simp: absentUpdate_def in_state_def intro!: progress_inv_set_progress set_progress_extends
        row_step_absent)
next
  case (OpAccept t r u)
  then show ?thesis using acceptUpdate_ok [OF assms] by simp
next
  case (OpAcceptRecovered t r u)
  then show ?thesis using acceptUpdate_ok [OF assms] by simp
qed

lemma email_ops_ok:
  "progress_inv d \<Longrightarrow> progress_inv (fold (email_op same) cs d) \<and> progress_extends d (fold (email_op same) cs d)"
proof (induction cs arbitrary: d)
  case (Cons c cs)
  note s = email_op_ok [OF Cons.prems, of same c]
  from Cons.IH [of "email_op same c d"] s show ?case using progress_extends_trans by auto
qed simp

lemma progress_inv_New: "progress_inv NewEmailDb"
  by (simp add: progress_inv_def NewEmailDb_def)

section \<open>Properties of the email store\<close>

text \<open>
  C24: from the empty tables and under any sequence of operations with any faults of the database, the
  progress table has one row per request and recipient, every row belongs to a stored request, a
  recipient that is being recovered has a submission time (so reading the recovery candidates cannot
  fail on a NULL), and only submitted recipients have a provider identifier.
\<close>

theorem email_store_invariant:
  "progress_inv (fold (email_op same) cs NewEmailDb) \<and>
   (\<exists>xs. recoveryCandidates (\<lambda>_. None) t (fold (email_op same) cs NewEmailDb) = Inr xs) \<and>
   (\<exists>ys. waitingRecipients (\<lambda>_. None) t (fold (email_op same) cs NewEmailDb) = Inr ys)"
proof -
  let ?d = "fold (email_op same) cs NewEmailDb"
  have inv: "progress_inv ?d" using email_ops_ok [OF progress_inv_New] by blast
  have "candidateRow p = Inr \<lparr>vc_recipient = pr_recipient p, vc_submittedAt = the (pr_submitted_at p)\<rparr>"
    if "p \<in> set (email_progress ?d)" "pr_state p = StateRecovery \<or> pr_state p = StateRecoveryWaiting" for p
    using inv that by (auto simp: progress_inv_def row_ok_def candidateRow_def)
  then have "res_map candidateRow (sql_select (in_state t st) pr_recipient (email_progress ?d)) =
      Inr (map (\<lambda>p. \<lparr>vc_recipient = pr_recipient p, vc_submittedAt = the (pr_submitted_at p)\<rparr>)
        (sql_select (in_state t st) pr_recipient (email_progress ?d)))"
    if "st = StateRecovery \<or> st = StateRecoveryWaiting" for st
    using that by (intro res_map_total) (auto simp: in_state_def)
  with inv show ?thesis by (simp add: recoveryCandidates_def waitingRecipients_def)
qed

lemma pendingRecipients_Inr:
  "pendingRecipients flt unmarshal t d = Inr rs \<Longrightarrow>
   map rc_email rs = map pr_recipient (sql_select (in_state t StatePending) pr_recipient (email_progress d))"
  by (auto simp: pendingRecipients_def res_map_Inr pendingRow_def split: option.splits sum.splits
      elim!: list_all2_map_eq)

text \<open>
  C16: a recipient that was accepted by the provider or reported by a webhook is never submitted again:
  whatever happens afterwards, its row stays in a submitted state, keeps its provider identifier, and
  is not among the pending recipients of its request.
\<close>

theorem submitted_recipient_never_pending_again:
  assumes "progress_inv d" "p \<in> set (email_progress d)" "\<not> unsubmitted (pr_state p)"
  shows "(\<exists>q \<in> set (email_progress (fold (email_op same) cs d)). pr_key q = pr_key p \<and>
      \<not> unsubmitted (pr_state q) \<and> (\<forall>u. pr_pmuid p = Some u \<longrightarrow> pr_pmuid q = Some u)) \<and>
    (\<forall>flt unmarshal. \<forall>rs :: 'v durable_recipient list.
       pendingRecipients flt unmarshal (pr_token p) (fold (email_op same) cs d) = Inr rs \<longrightarrow>
       pr_recipient p \<notin> rc_email ` set rs)"
proof -
  let ?d = "fold (email_op same) cs d"
  note ok = email_ops_ok [OF assms(1), of same cs]
  then obtain us vs where us: "email_progress ?d = us @ vs" "list_all2 row_step (email_progress d) us"
    by (auto simp: progress_extends_def)
  from list_all2_ex [OF us(2) assms(2)] obtain q where q: "q \<in> set us" "row_step p q" by blast
  have rp: "row_ok p" using assms(1,2) by (simp add: progress_inv_def)
  with q(2) assms(3) have k: "pr_key q = pr_key p" "\<not> unsubmitted (pr_state q)"
    "\<forall>u. pr_pmuid p = Some u \<longrightarrow> pr_pmuid q = Some u" by (auto simp: row_step_def)
  have "pr_recipient p \<notin> rc_email ` set rs"
    if "pendingRecipients flt unmarshal (pr_token p) ?d = Inr rs" for flt unmarshal and rs :: "'v durable_recipient list"
  proof
    note eq = pendingRecipients_Inr [OF that]
    assume "pr_recipient p \<in> rc_email ` set rs"
    then have "pr_recipient p \<in> set (map rc_email rs)" by simp
    then obtain x where x: "x \<in> set (email_progress ?d)" "pr_token x = pr_token p" "pr_state x = StatePending"
      "pr_recipient x = pr_recipient p"
      unfolding eq by (auto simp: in_state_def)
    have "x = q" using ok x q(1) us(1) k(1) by (intro progress_inv_unique [of ?d]) (auto simp: pr_key_def)
    with x(3) k(2) show False by simp
  qed
  with k q(1) us(1) show ?thesis by auto
qed

definition demo_accepted :: email_db where
  "demo_accepted = \<lparr>email_requests = [\<lparr>er_token = ''t'', er_message_id = ''m'', er_sender_email = ''s'',
       er_sender_name = '''', er_subject = '''', er_template_id = '''', er_text = '''',
       er_variables = ''{}'', er_headers = ''{}'', er_metadata = ''{}''\<rparr>],
     email_progress = [\<lparr>pr_token = ''t'', pr_recipient = ''r'', pr_recipient_name = '''',
       pr_state = StateAccepted, pr_pmuid = Some ''u'', pr_variables = ''{}'', pr_submitted_at = Some 3\<rparr>],
     email_events = [], email_ownership = []\<rparr>"

lemma demo_accepted_inv: "progress_inv demo_accepted"
  by (simp add: progress_inv_def demo_accepted_def row_ok_def)

theorem submitted_recipient_never_pending_again_witness:
  "map pr_pmuid (email_progress (fold (email_op (=))
      [OpRecordEvent (\<lambda>_. None) 9 ''m'' ''r'' EventDelivered, OpAbsent ''t'' ''r'' :: unit email_change]
      demo_accepted)) = [Some ''u''] \<and>
   pr_key (hd (email_progress demo_accepted)) = (''t'', ''r'') \<and>
   (\<exists>q \<in> set (email_progress (fold (email_op (=))
      [OpRecordEvent (\<lambda>_. None) 9 ''m'' ''r'' EventDelivered, OpAbsent ''t'' ''r'' :: unit email_change]
      demo_accepted)). pr_key q = (''t'', ''r'') \<and> \<not> unsubmitted (pr_state q))"
proof -
  let ?p = "hd (email_progress demo_accepted)"
  have p: "?p \<in> set (email_progress demo_accepted)" "\<not> unsubmitted (pr_state ?p)" "pr_key ?p = (''t'', ''r'')"
    by (simp_all add: demo_accepted_def pr_key_def)
  have "map pr_pmuid (email_progress (fold (email_op (=))
      [OpRecordEvent (\<lambda>_. None) 9 ''m'' ''r'' EventDelivered, OpAbsent ''t'' ''r'' :: unit email_change]
      demo_accepted)) = [Some ''u'']"
    by (simp add: RecordEvent_def validDeliveryEvent_def deliveryRow_def demo_accepted_def Let_def
        set_progress_def sql_update_def absentUpdate_def in_state_def)
  moreover from submitted_recipient_never_pending_again [OF demo_accepted_inv p(1,2), of "(=)"
      "[OpRecordEvent (\<lambda>_. None) 9 ''m'' ''r'' EventDelivered, OpAbsent ''t'' ''r'' :: unit email_change]"] p(3)
  have "\<exists>q \<in> set (email_progress (fold (email_op (=))
      [OpRecordEvent (\<lambda>_. None) 9 ''m'' ''r'' EventDelivered, OpAbsent ''t'' ''r'' :: unit email_change]
      demo_accepted)). pr_key q = (''t'', ''r'') \<and> \<not> unsubmitted (pr_state q)" by metis
  ultimately show ?thesis using p(3) by blast
qed

section \<open>Webhook events\<close>

text \<open>How far a recipient's progress has come.\<close>

definition progress_rank :: "progress_state \<Rightarrow> nat" where
  "progress_rank st =
     (if st = StateAccepted then 1 else if st = StateSent then 2 else if st = StateDelivered then 3
      else if st = StateOpened then 4 else if st = StateClicked then 5
      else if st = StateSpamComplaint \<or> st = StateHardBounced \<or> st = StateRefused then 6 else 0)"

definition progress_state_list :: "progress_state list" where
  "progress_state_list = [StatePending, StateAccepted, StateRecovery, StateRecoveryWaiting, StateRefused,
     StateSent, StateDelivered, StateOpened, StateClicked, StateSpamComplaint, StateHardBounced]"

definition delivery_event_list :: "delivery_event list" where
  "delivery_event_list = [EventSent, EventDelivered, EventSoftBounce, EventHardBounce, EventProxyOpen,
     EventHumanOpen, EventClick, EventSpamComplaint]"

lemma eventState_table:
  "list_all (\<lambda>st. list_all (\<lambda>ev. progress_rank st \<le> progress_rank (eventState st ev) \<and>
      eventState (eventState st ev) ev = eventState st ev) delivery_event_list) progress_state_list"
  by code_simp

text \<open>
  Webhook events only move a recipient forward, and delivering the same event twice is the same as
  delivering it once, in every progress state and for every event the store accepts.
\<close>

theorem webhook_events_monotone:
  assumes "st \<in> progress_states" "validDeliveryEvent ev"
  shows "progress_rank st \<le> progress_rank (eventState st ev) \<and>
    eventState (eventState st ev) ev = eventState st ev"
proof -
  have "st \<in> set progress_state_list" using assms(1) by (auto simp: progress_states_def progress_state_list_def)
  moreover have "ev \<in> set delivery_event_list"
    using assms(2) by (auto simp: validDeliveryEvent_def delivery_event_list_def)
  ultimately show ?thesis using eventState_table by (auto simp: list_all_iff)
qed

theorem webhook_events_monotone_witness:
  "eventState StateSent EventClick = StateClicked \<and>
   eventState (eventState StateSent EventClick) EventClick = eventState StateSent EventClick \<and>
   eventState StateClicked EventHardBounce = StateClicked"
proof -
  have "StateSent \<in> progress_states" "validDeliveryEvent EventClick"
    by (simp_all add: validDeliveryEvent_def)
  from webhook_events_monotone [OF this] show ?thesis
    by (simp add: eventState_def progress_state_defs delivery_event_defs Let_def)
qed

section \<open>Idempotent setup\<close>

lemma find_distinct_key:
  "distinct (map f xs) \<Longrightarrow> x \<in> set xs \<Longrightarrow> find (\<lambda>y. f y = f x) xs = Some x"
  by (simp add: find_Some_iff_distinct)

lemma ownerOf_new:
  assumes "distinct (map rr_email rows)" "row \<in> set rows"
    "\<forall>w \<in> set ows. ow_token w \<noteq> t" "email_ownership d = ows @ newOwnership now t rows"
  shows "ownerOf d (newProgress t row) = rr_userID row"
proof -
  let ?P = "\<lambda>w. ow_token w = t \<and> ow_recipient w = rr_email row"
  have "find ?P (ows @ xs) = find ?P xs" for xs
    using assms(3) by (induction ows) auto
  then have "find ?P (email_ownership d) = find ?P (newOwnership now t rows)"
    by (simp add: assms(4))
  also have "\<dots> = (if rr_userID row = '''' then None else Some \<lparr>ow_user_id = rr_userID row, ow_token = t,
      ow_recipient = rr_email row, ow_created_at = now\<rparr>)"
    using assms(1,2)
  proof (induction rows)
    case (Cons r rows)
    have "find ?P (newOwnership now t rows) = None" if "rr_email r = rr_email row"
      using that Cons.prems by (auto simp: find_None_iff newOwnership_def intro: rev_image_eqI)
    with Cons show ?case by (auto simp: newOwnership_def)
  qed simp
  finally show ?thesis by (simp add: ownerOf_def newProgress_def)
qed

definition request_texts :: "prepared_request \<Rightarrow> string set" where
  "request_texts pp = {er_variables (pp_request pp), er_headers (pp_request pp), er_metadata (pp_request pp)} \<union>
     rr_variables ` set (pp_rows pp)"

text \<open>
  Setting up a request twice is setting it up once: after the work of the setup step has succeeded,
  running it again for the same request, with a new message identifier and at another time, succeeds
  and changes nothing. The hypothesis on \<open>same\<close> is that a JSON text is the same as itself.
\<close>

theorem setup_idempotent:
  assumes "progress_inv d" "insertRequestTx same now pp d = Inr d'"
    and refl: "\<forall>x \<in> request_texts pp. same x x"
  shows "insertRequestTx same now' (pp\<lparr>pp_request := (pp_request pp)\<lparr>er_message_id := m\<rparr>\<rparr>) d' = Inr d'"
proof (cases "sql_row er_token (er_token (pp_request pp)) (email_requests d)")
  case (Some stored)
  with assms(2) have "d' = d" by (auto simp: insertRequestTx_def Let_def split: if_splits)
  with Some assms(2) show ?thesis
    by (auto simp: insertRequestTx_def Let_def sameRequest_def split: if_splits)
next
  case None
  let ?t = "er_token (pp_request pp)" and ?d = "d\<lparr>email_requests := email_requests d @ [pp_request pp]\<rparr>"
  from None assms(2) have "insertRecipients now ?t (pp_rows pp) ?d = Inr d'"
    by (auto simp: insertRequestTx_def Let_def split: if_splits)
  note ins = insertRecipients_Inr [OF this]
  have row: "sql_row er_token ?t (email_requests d') = Some (pp_request pp)"
    using ins None by (simp add: sql_row_append)
  have old: "?t \<notin> pr_token ` set (email_progress d)" "?t \<notin> ow_token ` set (email_ownership d)"
    using None assms(1) by (auto simp: sql_row_None progress_inv_def)
  then have stored: "filter (\<lambda>p. pr_token p = ?t) (email_progress d') = map (newProgress ?t) (pp_rows pp)"
    using ins by (auto simp: filter_empty_conv newProgress_def filter_map comp_def intro: rev_image_eqI)
  have "sameRecipient same d' (pp_rows pp) (newProgress ?t r)" if "r \<in> set (pp_rows pp)" for r
  proof -
    have "find (\<lambda>q. rr_email q = rr_email r) (pp_rows pp) = Some r"
      using find_distinct_key [of rr_email "pp_rows pp" r] that ins by simp
    moreover have "ownerOf d' (newProgress ?t r) = rr_userID r"
    proof (rule ownerOf_new)
      show "distinct (map rr_email (pp_rows pp))" using ins by blast
      show "\<forall>w \<in> set (email_ownership d). ow_token w \<noteq> ?t" using old(2) by (metis rev_image_eqI)
      show "email_ownership d' = email_ownership d @ newOwnership now ?t (pp_rows pp)" using ins by simp
    qed (rule that)
    moreover have "same (rr_variables r) (rr_variables r)" using refl that by (auto simp: request_texts_def)
    ultimately show ?thesis by (simp add: sameRecipient_def newProgress_def)
  qed
  moreover have "sameRequest same (pp_request pp) ((pp_request pp)\<lparr>er_message_id := m\<rparr>)"
    using refl by (simp add: sameRequest_def request_texts_def)
  ultimately show ?thesis
    by (simp add: insertRequestTx_def Let_def row stored list_all_iff)
qed

definition demo_prepared :: "string \<Rightarrow> prepared_request" where
  "demo_prepared m = \<lparr>pp_request = \<lparr>er_token = ''t2'', er_message_id = m, er_sender_email = ''s'',
       er_sender_name = '''', er_subject = '''', er_template_id = '''', er_text = '''',
       er_variables = ''{}'', er_headers = ''{}'', er_metadata = ''{}''\<rparr>,
     pp_rows = [\<lparr>rr_userID = ''u1'', rr_email = ''a'', rr_name = ''A'', rr_variables = ''{}''\<rparr>,
                \<lparr>rr_userID = '''', rr_email = ''b'', rr_name = ''B'', rr_variables = ''{}''\<rparr>]\<rparr>"

theorem setup_idempotent_witness:
  "\<exists>d'. insertRequestTx (=) 5 (demo_prepared ''m1'') demo_accepted = Inr d' \<and>
     length (email_progress d') = 3 \<and> insertRequestTx (=) 9 (demo_prepared ''m2'') d' = Inr d'"
proof -
  obtain d' where d': "insertRequestTx (=) 5 (demo_prepared ''m1'') demo_accepted = Inr d'"
    "length (email_progress d') = 3"
    by (simp add: insertRequestTx_def demo_prepared_def demo_accepted_def Let_def insertRecipient_def)
  have "\<forall>x \<in> request_texts (demo_prepared ''m1''). x = x" by simp
  from setup_idempotent [OF demo_accepted_inv d'(1) this, of 9 "''m2''"] d' show ?thesis
    by (simp add: demo_prepared_def)
qed

end
