(* ===== verification/EmailQuery.thy ===== *)
theory EmailQuery
  imports EmailStore SqliteStore
begin

text \<open>
  durable_email/query.go: the reporting view of the email tables. A query is built from a filter
  whose populated fields add conditions; its meaning on the tables is given directly: the join of
  the progress rows with their requests and owners, the conditions, the order, the page.

  Text columns compare byte by byte (the BINARY collation) and a NULL instant sorts before every
  instant, last in a descending order. A query that fails, on opening or while its rows are read,
  is the fault of \<open>DbQuery\<close>.
\<close>

section \<open>Filters and pages\<close>

record progress_filter =
  pf_UserID :: string
  pf_LatestFirst :: bool
  pf_IdempotencyToken :: string
  pf_Recipient :: string
  pf_States :: "progress_state list"
  pf_Limit :: int
  pf_Offset :: int

record progress_report =
  rep_IdempotencyToken :: string
  rep_Recipient :: string
  rep_RecipientName :: string
  rep_State :: progress_state
  rep_PMUID :: string
  rep_SubmittedAt :: "go_time option"
  rep_CreatedAt :: "go_time option"
  rep_Subject :: string
  rep_SenderEmail :: string
  rep_SenderName :: string
  rep_TemplateID :: string

text \<open>The LIMIT and OFFSET clauses: absent when the field is not positive.\<close>

definition sql_page :: "int \<Rightarrow> int \<Rightarrow> 'a list \<Rightarrow> 'a list" where
  "sql_page limit offset rows =
     (let rest = (if offset > 0 then drop (nat offset) rows else rows)
      in if limit > 0 then take (nat limit) rest else rest)"

section \<open>Progress\<close>

text \<open>A row of the join: the rowid of the progress row, the row, its request and its owner.\<close>

type_synonym joined_row = "int \<times> progress_row \<times> request_row \<times> ownership_row option"

definition joinRow :: "email_db \<Rightarrow> int \<Rightarrow> progress_row \<Rightarrow> joined_row option" where
  "joinRow d i p =
     (case sql_row er_token (pr_token p) (email_requests d) of
        None \<Rightarrow> None
      | Some r \<Rightarrow> Some (i, p, r,
          find (\<lambda>w. ow_token w = pr_token p \<and> ow_recipient w = pr_recipient p) (email_ownership d)))"

definition joinedRows :: "email_db \<Rightarrow> joined_row list" where
  "joinedRows d =
     List.map_filter (\<lambda>(i, p). joinRow d i p)
       (zip (map int [0..<length (email_progress d)]) (email_progress d))"

definition progressMatches :: "progress_filter \<Rightarrow> joined_row \<Rightarrow> bool" where
  "progressMatches f row =
     (case row of (i, p, r, w) \<Rightarrow>
        (pf_IdempotencyToken f \<noteq> '''' \<longrightarrow> pr_token p = pf_IdempotencyToken f) \<and>
        (pf_Recipient f \<noteq> '''' \<longrightarrow> pr_recipient p = pf_Recipient f) \<and>
        (pf_States f \<noteq> [] \<longrightarrow> pr_state p \<in> set (pf_States f)) \<and>
        (pf_UserID f \<noteq> '''' \<longrightarrow> (case w of None \<Rightarrow> False | Some x \<Rightarrow> ow_user_id x = pf_UserID f)))"

text \<open>The sort keys of the two ORDER BY clauses.\<close>

definition keyOrder :: "joined_row \<Rightarrow> string \<times> string" where
  "keyOrder row = (case row of (i, p, r, w) \<Rightarrow> (pr_token p, pr_recipient p))"

definition latestOrder :: "joined_row \<Rightarrow> int \<times> int \<times> int" where
  "latestOrder row =
     (case row of
        (i, p, r, None) \<Rightarrow> (1, 0, - i)
      | (i, p, r, Some w) \<Rightarrow> (0, - ow_created_at w, - i))"

definition reportRow :: "joined_row \<Rightarrow> progress_report" where
  "reportRow row =
     (case row of (i, p, r, w) \<Rightarrow>
        \<lparr>rep_IdempotencyToken = pr_token p, rep_Recipient = pr_recipient p,
         rep_RecipientName = pr_recipient_name p, rep_State = pr_state p,
         rep_PMUID = (case pr_pmuid p of None \<Rightarrow> '''' | Some u \<Rightarrow> u),
         rep_SubmittedAt = pr_submitted_at p, rep_CreatedAt = map_option ow_created_at w,
         rep_Subject = er_subject r, rep_SenderEmail = er_sender_email r,
         rep_SenderName = er_sender_name r, rep_TemplateID = er_template_id r\<rparr>)"

definition progressRows :: "progress_filter \<Rightarrow> email_db \<Rightarrow> joined_row list" where
  "progressRows f d =
     (let rows = filter (progressMatches f) (joinedRows d)
      in if pf_LatestFirst f then sort_key latestOrder rows else sort_key keyOrder rows)"

definition QueryProgress ::
  "db_faults \<Rightarrow> progress_filter \<Rightarrow> email_db \<Rightarrow> gerror + progress_report list" where
  "QueryProgress flt f d =
     (case flt DbQuery of
        Some e \<Rightarrow> Inl (Wrapped e ''query email progress'')
      | None \<Rightarrow> Inr (map reportRow (sql_page (pf_Limit f) (pf_Offset f) (progressRows f d))))"

section \<open>Events\<close>

definition eventMatches :: "progress_filter \<Rightarrow> event_row \<Rightarrow> bool" where
  "eventMatches f x \<longleftrightarrow>
     (pf_IdempotencyToken f \<noteq> '''' \<longrightarrow> ev_token x = pf_IdempotencyToken f) \<and>
     (pf_Recipient f \<noteq> '''' \<longrightarrow> ev_recipient x = pf_Recipient f)"

definition QueryEvents ::
  "db_faults \<Rightarrow> progress_filter \<Rightarrow> email_db \<Rightarrow> gerror + event_row list" where
  "QueryEvents flt f d =
     (if pf_UserID f \<noteq> '''' \<or> pf_LatestFirst f
      then Inl (Err ''event history does not support ownership or latest-first filters'')
      else if pf_States f \<noteq> []
      then Inl (Err ''event history cannot be filtered by progress state'')
      else case flt DbQuery of
        Some e \<Rightarrow> Inl (Wrapped e ''query email events'')
      | None \<Rightarrow> Inr (sql_page (pf_Limit f) (pf_Offset f) (filter (eventMatches f) (email_events d))))"

section \<open>Pages\<close>

lemma sql_page_concat:
  assumes "n > 0"
  shows "concat (map (\<lambda>k. sql_page n (int k * n) rows) [0..<m]) = take (m * nat n) rows"
proof (induction m)
  case (Suc m)
  have "sql_page n (int m * n) rows = take (nat n) (drop (m * nat n) rows)"
    using assms by (cases "m = 0") (auto simp: sql_page_def nat_mult_distrib)
  with Suc show ?case by (simp add: take_add [symmetric] add.commute)
qed simp

lemma map_filter_idx_key:
  "distinct (map key xs) \<Longrightarrow> (\<And>i x y. g (i, x) = Some y \<Longrightarrow> key' y = key x) \<Longrightarrow> length ns = length xs \<Longrightarrow>
   distinct (map key' (List.map_filter g (zip ns xs)))"
proof (induction xs arbitrary: ns)
  case (Cons x xs)
  then obtain n ns' where ns: "ns = n # ns'" "length ns' = length xs" by (cases ns) auto
  have IH: "distinct (map key' (List.map_filter g (zip ns' xs)))" using Cons ns by simp
  have sub: "key' y \<in> key ` set xs" if "y \<in> set (List.map_filter g (zip ns' xs))" for y
  proof -
    from that obtain i z where "(i, z) \<in> set (zip ns' xs)" "g (i, z) = Some y"
      by (auto simp: set_map_filter)
    with Cons.prems(2) set_zip_rightD show ?thesis by (metis image_eqI)
  qed
  show ?case
  proof (cases "g (n, x)")
    case (Some y)
    have "key' y = key x" using Some Cons.prems(2) by blast
    moreover have "key x \<notin> key ` set xs" using Cons.prems(1) by auto
    ultimately show ?thesis using IH sub Some ns by (auto simp: map_filter_simps)
  qed (use IH ns in \<open>simp add: map_filter_simps\<close>)
qed (simp add: map_filter_simps)

lemma keyOrder_join: "joinRow d i p = Some y \<Longrightarrow> keyOrder y = pr_key p"
  by (auto simp: joinRow_def keyOrder_def pr_key_def split: option.splits)

lemma distinct_joined: "progress_inv d \<Longrightarrow> distinct (map keyOrder (joinedRows d))"
  unfolding joinedRows_def
  by (rule map_filter_idx_key [where key = pr_key]) (auto simp: progress_inv_def keyOrder_join)

lemma distinct_map_sort_key: "distinct (map k xs) \<Longrightarrow> distinct (map k (sort_key k' xs))"
  by (simp add: distinct_map)

lemma reportRow_key: "(rep_IdempotencyToken (reportRow y), rep_Recipient (reportRow y)) = keyOrder y"
  by (auto simp: reportRow_def keyOrder_def split: prod.splits)

lemma joinedRows_mem:
  "(i, p, r, w) \<in> set (joinedRows d) \<Longrightarrow> p \<in> set (email_progress d) \<and>
     sql_row er_token (pr_token p) (email_requests d) = Some r \<and>
     w = find (\<lambda>w. ow_token w = pr_token p \<and> ow_recipient w = pr_recipient p) (email_ownership d)"
  by (auto simp: joinedRows_def set_map_filter joinRow_def dest: set_zip_rightD split: option.splits)

lemma joinedRows_total:
  assumes "progress_inv d" "p \<in> set (email_progress d)"
  shows "\<exists>i r w. (i, p, r, w) \<in> set (joinedRows d)"
proof -
  from assms(2) obtain n where n: "n < length (email_progress d)" "email_progress d ! n = p"
    by (auto simp: in_set_conv_nth)
  have "pr_token p \<in> er_token ` set (email_requests d)" using assms by (auto simp: progress_inv_def)
  then obtain r where "sql_row er_token (pr_token p) (email_requests d) = Some r"
    by (metis option.exhaust sql_row_None)
  then obtain w where "joinRow d (int n) p = Some (int n, p, r, w)" by (auto simp: joinRow_def)
  moreover have "(int n, p) \<in> set (zip (map int [0..<length (email_progress d)]) (email_progress d))"
    using n by (auto simp: in_set_conv_nth intro!: exI [of _ n])
  ultimately have "(int n, p, r, w) \<in> set (joinedRows d)"
    unfolding joinedRows_def set_map_filter by (intro CollectI bexI [of _ "(int n, p)"]) simp_all
  then show ?thesis by blast
qed

section \<open>Properties\<close>

lemma progressRows_set: "set (progressRows f d) = {row \<in> set (joinedRows d). progressMatches f row}"
  by (auto simp: progressRows_def Let_def)

lemma progressRows_distinct: "progress_inv d \<Longrightarrow> distinct (map keyOrder (progressRows f d))"
  by (auto simp: progressRows_def Let_def intro!: distinct_map_sort_key distinct_map_filter distinct_joined)

text \<open>
  Paging through an unchanged table shows every matching recipient exactly once: the pages of size
  \<open>n\<close>, put together, are the first rows of the unlimited query, enough pages are the whole of it,
  and no recipient of a request appears twice in it, in either order.
\<close>

theorem progress_pages_disjoint:
  assumes "progress_inv d" "n > 0" "pf_Limit f = 0" "pf_Offset f = 0"
    "QueryProgress flt f d = Inr everything"
  shows "(\<exists>pages. list_all2 (\<lambda>k page. QueryProgress flt (f\<lparr>pf_Limit := n, pf_Offset := int k * n\<rparr>) d = Inr page)
        [0..<m] pages \<and> concat pages = take (m * nat n) everything) \<and>
    distinct (map (\<lambda>r. (rep_IdempotencyToken r, rep_Recipient r)) everything)"
proof -
  let ?rows = "progressRows f d"
  from assms(3-5) have flt: "flt DbQuery = None" and all: "everything = map reportRow ?rows"
    by (auto simp: QueryProgress_def sql_page_def split: option.splits)
  have "progressMatches (f\<lparr>pf_Limit := l, pf_Offset := o'\<rparr>) = progressMatches f" for l o'
    by (rule ext) (simp add: progressMatches_def split: prod.split option.split)
  then have same: "progressRows (f\<lparr>pf_Limit := l, pf_Offset := o'\<rparr>) d = ?rows" for l o'
    by (simp add: progressRows_def)
  let ?page = "\<lambda>k. map reportRow (sql_page n (int k * n) ?rows)"
  have "QueryProgress flt (f\<lparr>pf_Limit := n, pf_Offset := int k * n\<rparr>) d = Inr (?page k)" for k
    by (simp add: QueryProgress_def flt same)
  then have "list_all2 (\<lambda>k page. QueryProgress flt (f\<lparr>pf_Limit := n, pf_Offset := int k * n\<rparr>) d = Inr page)
      [0..<m] (map ?page [0..<m])"
    by (simp add: list_all2_map2 list_all2_same)
  moreover have "concat (map ?page [0..<m]) = take (m * nat n) everything"
    using arg_cong [OF sql_page_concat [OF assms(2), of ?rows m], of "map reportRow"]
    by (simp add: all take_map map_concat comp_def)
  moreover have "distinct (map (\<lambda>r. (rep_IdempotencyToken r, rep_Recipient r)) everything)"
    using progressRows_distinct [OF assms(1), of f] by (simp add: all comp_def reportRow_key)
  ultimately show ?thesis by blast
qed

text \<open>
  A query for a user reports exactly the recipients recorded as owned by that user that satisfy the
  other conditions of the filter: nothing of other users is shown, and without a limit nothing of
  the user's own is left out.
\<close>

theorem progress_query_ownership:
  assumes "progress_inv d" "pf_UserID f = u" "u \<noteq> ''''" "pf_States f = []"
    "pf_IdempotencyToken f = ''''" "pf_Recipient f = ''''" "pf_Limit f = 0" "pf_Offset f = 0"
    "QueryProgress flt f d = Inr rows"
  shows "(\<lambda>r. (rep_IdempotencyToken r, rep_Recipient r)) ` set rows =
    {pr_key p | p. p \<in> set (email_progress d) \<and> ownerOf d p = u}"
proof -
  have rows: "rows = map reportRow (progressRows f d)"
    using assms(7-) by (auto simp: QueryProgress_def sql_page_def split: option.splits)
  have match: "progressMatches f (i, p, r, w) \<longleftrightarrow> ownerOf d p = u" if "(i, p, r, w) \<in> set (joinedRows d)" for i p r w
    using joinedRows_mem [OF that] assms(2-6)
    by (auto simp: progressMatches_def ownerOf_def split: option.splits)
  have "(\<lambda>r. (rep_IdempotencyToken r, rep_Recipient r)) ` set rows = keyOrder ` set (progressRows f d)"
    by (simp add: rows image_image reportRow_key)
  also have "\<dots> = {pr_key p | p. p \<in> set (email_progress d) \<and> ownerOf d p = u}"
  proof (intro set_eqI iffI)
    fix k assume "k \<in> keyOrder ` set (progressRows f d)"
    then obtain i p r w where m: "(i, p, r, w) \<in> set (joinedRows d)" "progressMatches f (i, p, r, w)"
      "k = keyOrder (i, p, r, w)" by (auto simp: progressRows_set)
    then show "k \<in> {pr_key p | p. p \<in> set (email_progress d) \<and> ownerOf d p = u}"
      using match [OF m(1)] joinedRows_mem [OF m(1)] by (auto simp: keyOrder_def pr_key_def)
  next
    fix k assume "k \<in> {pr_key p | p. p \<in> set (email_progress d) \<and> ownerOf d p = u}"
    then obtain p where p: "p \<in> set (email_progress d)" "ownerOf d p = u" "k = pr_key p" by blast
    from joinedRows_total [OF assms(1) p(1)] obtain i r w where m: "(i, p, r, w) \<in> set (joinedRows d)" by blast
    then have "(i, p, r, w) \<in> set (progressRows f d)" using match [OF m] p(2) by (simp add: progressRows_set)
    then show "k \<in> keyOrder ` set (progressRows f d)"
      by (rule rev_image_eqI) (simp add: p(3) keyOrder_def pr_key_def)
  qed
  finally show ?thesis .
qed

definition demo_owned :: email_db where
  "demo_owned = \<lparr>email_requests = [\<lparr>er_token = ''t'', er_message_id = ''m'', er_sender_email = ''s'',
       er_sender_name = '''', er_subject = ''hi'', er_template_id = '''', er_text = '''',
       er_variables = ''{}'', er_headers = ''{}'', er_metadata = ''{}''\<rparr>],
     email_progress = map (\<lambda>r. \<lparr>pr_token = ''t'', pr_recipient = r, pr_recipient_name = '''',
       pr_state = StatePending, pr_pmuid = None, pr_variables = ''{}'', pr_submitted_at = None\<rparr>) [''b'', ''a'', ''c''],
     email_events = [],
     email_ownership = [\<lparr>ow_user_id = ''u'', ow_token = ''t'', ow_recipient = ''a'', ow_created_at = 1\<rparr>,
       \<lparr>ow_user_id = ''v'', ow_token = ''t'', ow_recipient = ''b'', ow_created_at = 2\<rparr>]\<rparr>"

definition demo_filter :: "string \<Rightarrow> progress_filter" where
  "demo_filter u = \<lparr>pf_UserID = u, pf_LatestFirst = False, pf_IdempotencyToken = '''', pf_Recipient = '''',
     pf_States = [], pf_Limit = 0, pf_Offset = 0\<rparr>"

lemma demo_owned_inv: "progress_inv demo_owned"
  by (simp add: progress_inv_def demo_owned_def row_ok_def pr_key_def)

lemma demo_filter_sel [simp]:
  "pf_UserID (demo_filter u) = u" "pf_States (demo_filter u) = []" "pf_IdempotencyToken (demo_filter u) = ''''"
  "pf_Recipient (demo_filter u) = ''''" "pf_Limit (demo_filter u) = 0" "pf_Offset (demo_filter u) = 0"
  by (simp_all add: demo_filter_def)

theorem progress_pages_disjoint_witness:
  "\<exists>everything pages. QueryProgress (\<lambda>_. None) (demo_filter '''') demo_owned = Inr everything \<and>
     map rep_Recipient everything = [''a'', ''b'', ''c''] \<and>
     list_all2 (\<lambda>k page. QueryProgress (\<lambda>_. None) ((demo_filter '''')\<lparr>pf_Limit := 2, pf_Offset := int k * 2\<rparr>)
       demo_owned = Inr page) [0..<2] pages \<and> concat pages = take 4 everything"
proof -
  obtain all where a: "QueryProgress (\<lambda>_. None) (demo_filter '''') demo_owned = Inr all"
    by (simp add: QueryProgress_def)
  have r: "map rep_Recipient all = [''a'', ''b'', ''c'']"
    using a by (auto simp: QueryProgress_def sql_page_def progressRows_def joinedRows_def demo_owned_def
        demo_filter_def joinRow_def progressMatches_def map_filter_simps upt_rec keyOrder_def reportRow_def)
  from progress_pages_disjoint [OF demo_owned_inv, of 2 "demo_filter ''''" "\<lambda>_. None" all 2] a
  obtain pages where "list_all2 (\<lambda>k page. QueryProgress (\<lambda>_. None)
      ((demo_filter '''')\<lparr>pf_Limit := 2, pf_Offset := int k * 2\<rparr>) demo_owned = Inr page) [0..<2] pages"
    "concat pages = take 4 all" by auto
  with a r show ?thesis by (intro exI conjI)
qed

theorem progress_query_ownership_witness:
  "\<exists>rows. QueryProgress (\<lambda>_. None) (demo_filter ''u'') demo_owned = Inr rows \<and>
     (\<lambda>r. (rep_IdempotencyToken r, rep_Recipient r)) ` set rows =
       {pr_key p | p. p \<in> set (email_progress demo_owned) \<and> ownerOf demo_owned p = ''u''} \<and>
     map rep_Recipient rows = [''a'']"
proof -
  obtain rows where a: "QueryProgress (\<lambda>_. None) (demo_filter ''u'') demo_owned = Inr rows"
    by (simp add: QueryProgress_def)
  have "map rep_Recipient rows = [''a'']"
    using a by (auto simp: QueryProgress_def sql_page_def progressRows_def joinedRows_def demo_owned_def
        demo_filter_def joinRow_def progressMatches_def map_filter_simps upt_rec keyOrder_def reportRow_def)
  with a progress_query_ownership [OF demo_owned_inv demo_filter_sel(1), of "''u''" "\<lambda>_. None" rows]
  show ?thesis by simp
qed

end
