(* ===== verification/Utf8.thy ===== *)
theory Utf8
  imports Prelude
begin

text \<open>
  Go's reading of a string as a sequence of runes: what \<open>range\<close> over a string, the conversions
  \<open>[]rune(s)\<close> and \<open>string(rs)\<close> and \<open>strings.Map\<close> do. Bytes that are not valid UTF-8 are read one at a time
  as the replacement rune.
\<close>

definition RuneError :: nat where "RuneError = 65533"

text \<open>A Unicode scalar value: a code point that is not a surrogate.\<close>

definition valid_rune :: "nat \<Rightarrow> bool" where
  "valid_rune r \<longleftrightarrow> r < 55296 \<or> (57344 \<le> r \<and> r < 1114112)"

definition byte_of :: "string \<Rightarrow> nat \<Rightarrow> nat" where
  "byte_of s i = of_char (s ! i)"

definition in_byte_range :: "string \<Rightarrow> nat \<Rightarrow> nat \<Rightarrow> nat \<Rightarrow> bool" where
  "in_byte_range s i lo hi \<longleftrightarrow> i < length s \<and> lo \<le> byte_of s i \<and> byte_of s i \<le> hi"

text \<open>\<open>utf8.DecodeRuneInString\<close> on a string that is not empty: the rune and its width.\<close>

definition decodeRune :: "string \<Rightarrow> nat \<times> nat" where
  "decodeRune s =
     (let b = byte_of s 0 in
      if b < 128 then (b, 1)
      else if 194 \<le> b \<and> b \<le> 223 \<and> in_byte_range s 1 128 191
      then ((b - 192) * 64 + (byte_of s 1 - 128), 2)
      else if 224 \<le> b \<and> b \<le> 239 \<and>
              in_byte_range s 1 (if b = 224 then 160 else 128) (if b = 237 then 159 else 191) \<and>
              in_byte_range s 2 128 191
      then ((b - 224) * 4096 + (byte_of s 1 - 128) * 64 + (byte_of s 2 - 128), 3)
      else if 240 \<le> b \<and> b \<le> 244 \<and>
              in_byte_range s 1 (if b = 240 then 144 else 128) (if b = 244 then 143 else 191) \<and>
              in_byte_range s 2 128 191 \<and> in_byte_range s 3 128 191
      then ((b - 240) * 262144 + (byte_of s 1 - 128) * 4096 + (byte_of s 2 - 128) * 64 + (byte_of s 3 - 128), 4)
      else (RuneError, 1))"

lemma decodeRune_width: "0 < snd (decodeRune s)"
  by (simp add: decodeRune_def Let_def)

function runes :: "string \<Rightarrow> nat list" where
  "runes [] = []"
| "runes (c # cs) = fst (decodeRune (c # cs)) # runes (drop (snd (decodeRune (c # cs)) - 1) cs)"
  by pat_completeness auto
termination by (relation "measure length") auto

definition encodeRune :: "nat \<Rightarrow> string" where
  "encodeRune r0 =
     (let r = (if valid_rune r0 then r0 else RuneError) in
      map char_of
        (if r < 128 then [r]
         else if r < 2048 then [192 + r div 64, 128 + r mod 64]
         else if r < 65536 then [224 + r div 4096, 128 + r div 64 mod 64, 128 + r mod 64]
         else [240 + r div 262144, 128 + r div 4096 mod 64, 128 + r div 64 mod 64, 128 + r mod 64]))"

definition string_of_runes :: "nat list \<Rightarrow> string" where
  "string_of_runes rs = concat (map encodeRune rs)"

text \<open>\<open>strings.Map\<close> for a mapping that drops nothing.\<close>

definition strings_Map :: "(nat \<Rightarrow> nat) \<Rightarrow> string \<Rightarrow> string" where
  "strings_Map f s = string_of_runes (map f (runes s))"

section \<open>Round trip\<close>

lemma decodeRune_valid: "valid_rune (fst (decodeRune s))"
proof -
  let ?b = "byte_of s 0" and ?c = "byte_of s 1 - 128" and ?d = "byte_of s 2 - 128" and ?e = "byte_of s 3 - 128"
  have two: "valid_rune ((?b - 192) * 64 + ?c)" if "?b \<le> 223" "?c \<le> 63" using that unfolding valid_rune_def by linarith
  have three: "valid_rune ((?b - 224) * 4096 + ?c * 64 + ?d)"
    if "?b \<le> 239" "?c \<le> (if ?b = 237 then 31 else 63)" "?d \<le> 63"
    using that unfolding valid_rune_def by (cases "?b = 237"; cases "?b < 237"; simp; linarith)
  have four: "valid_rune ((?b - 240) * 262144 + ?c * 4096 + ?d * 64 + ?e)"
    if "240 \<le> ?b" "?b \<le> 244" "(if ?b = 240 then 16 else 0) \<le> ?c" "?c \<le> (if ?b = 244 then 15 else 63)" "?d \<le> 63" "?e \<le> 63"
    using that unfolding valid_rune_def by (cases "?b = 240"; cases "?b = 244"; simp; linarith)
  show ?thesis
    unfolding decodeRune_def Let_def in_byte_range_def
    by (auto intro!: two three four simp: valid_rune_def RuneError_def split: if_splits)
qed

lemma runes_valid: "r \<in> set (runes s) \<Longrightarrow> valid_rune r"
  by (induction s rule: runes.induct) (auto simp: decodeRune_valid)

lemma byte_char: "n < 256 \<Longrightarrow> of_char (char_of n :: char) = (n :: nat)"
  by simp

lemma decode_encodeRune:
  assumes "valid_rune r"
  shows "decodeRune (encodeRune r @ s) = (r, length (encodeRune r))"
proof -
  have div64: "r div 4096 = r div 64 div 64" "r div 262144 = r div 64 div 64 div 64" by (simp_all add: div_mult2_eq [symmetric])
  consider (one) "r < 128" | (two) "128 \<le> r" "r < 2048" | (three) "2048 \<le> r" "r < 65536" | (four) "65536 \<le> r" "r < 1114112"
    using assms unfolding valid_rune_def by linarith
  then show ?thesis
  proof cases
    case one
    then show ?thesis using assms by (simp add: decodeRune_def encodeRune_def byte_of_def)
  next
    case two
    define p where "p = r div 64"
    define q where "q = r mod 64"
    have e: "encodeRune r = [char_of (192 + p), char_of (128 + q)]" using assms two by (simp add: encodeRune_def p_def q_def)
    have "2 \<le> p" "p < 32" "q < 64" using two by (auto simp: p_def q_def)
    moreover have "p * 64 + q = r" by (simp add: p_def q_def)
    ultimately show ?thesis by (simp add: e decodeRune_def in_byte_range_def byte_of_def)
  next
    case three
    define p where "p = r div 4096"
    define q where "q = r div 64 mod 64"
    define t where "t = r mod 64"
    have e: "encodeRune r = map char_of [224 + p, 128 + q, 128 + t]" using assms three by (simp add: encodeRune_def p_def q_def t_def)
    have b: "p < 16" "q < 64" "t < 64" using three by (auto simp: p_def q_def t_def)
    have r: "p * 4096 + q * 64 + t = r"
      using mult_div_mod_eq [of 64 r] mult_div_mod_eq [of 64 "r div 64"]
      unfolding p_def q_def t_def div64 by linarith
    have "p = 0 \<Longrightarrow> 32 \<le> q" using three(1) r b by linarith
    moreover have "p = 13 \<Longrightarrow> q < 32" using assms r b unfolding valid_rune_def by linarith
    ultimately show ?thesis using b r by (auto simp: e decodeRune_def in_byte_range_def byte_of_def)
  next
    case four
    define p where "p = r div 262144"
    define q where "q = r div 4096 mod 64"
    define t where "t = r div 64 mod 64"
    define u where "u = r mod 64"
    have e: "encodeRune r = map char_of [240 + p, 128 + q, 128 + t, 128 + u]"
      using assms four by (simp add: encodeRune_def p_def q_def t_def u_def)
    have b: "p < 5" "q < 64" "t < 64" "u < 64" using four by (auto simp: p_def q_def t_def u_def)
    have r: "p * 262144 + q * 4096 + t * 64 + u = r"
      using mult_div_mod_eq [of 64 r] mult_div_mod_eq [of 64 "r div 64"] mult_div_mod_eq [of 64 "r div 64 div 64"]
      unfolding p_def q_def t_def u_def div64 by linarith
    have "p = 0 \<Longrightarrow> 16 \<le> q" using four(1) r b by linarith
    moreover have "p = 4 \<Longrightarrow> q < 16" using four(2) r b by linarith
    ultimately show ?thesis using b r by (auto simp: e decodeRune_def in_byte_range_def byte_of_def)
  qed
qed

lemma encodeRune_nonempty: "encodeRune r \<noteq> []"
  by (simp add: encodeRune_def Let_def)

lemma runes_string_of_runes: "list_all valid_rune rs \<Longrightarrow> runes (string_of_runes rs) = rs"
proof (induction rs)
  case (Cons r rs)
  obtain c cs where c: "encodeRune r = c # cs" using encodeRune_nonempty by (cases "encodeRune r") auto
  with Cons.prems decode_encodeRune [of r "string_of_runes rs"]
  have "decodeRune (c # cs @ string_of_runes rs) = (r, Suc (length cs))" by simp
  with Cons show ?case by (simp add: string_of_runes_def c)
qed (simp add: string_of_runes_def)

lemma strings_Map_ascii:
  assumes "\<And>r. f r < 128"
  shows "strings_Map f s = map (\<lambda>r. char_of (f r)) (runes s)"
proof -
  have "encodeRune (f r) = [char_of (f r)]" for r using assms [of r] by (simp add: encodeRune_def valid_rune_def)
  then show ?thesis by (simp add: strings_Map_def string_of_runes_def o_def)
qed

section \<open>Trimming\<close>

text \<open>\<open>unicode.IsSpace\<close>\<close>

definition isSpace :: "nat \<Rightarrow> bool" where
  "isSpace r \<longleftrightarrow> (9 \<le> r \<and> r \<le> 13) \<or> r = 32 \<or> r = 133 \<or> r = 160 \<or> r = 5760 \<or> (8192 \<le> r \<and> r \<le> 8202) \<or>
     r = 8232 \<or> r = 8233 \<or> r = 8239 \<or> r = 8287 \<or> r = 12288"

function trimLeftSpace :: "string \<Rightarrow> string" where
  "trimLeftSpace s =
     (if s = [] \<or> \<not> isSpace (fst (decodeRune s)) then s else trimLeftSpace (drop (snd (decodeRune s)) s))"
  by pat_completeness auto
termination by (relation "measure length") (auto simp: decodeRune_width)

declare trimLeftSpace.simps [simp del]

text \<open>
  \<open>utf8.DecodeLastRuneInString\<close>: the last of the final four bytes that can start a rune is decoded, and must
  reach the end of the string.
\<close>

definition runeStart :: "nat \<Rightarrow> bool" where
  "runeStart b \<longleftrightarrow> b < 128 \<or> 192 \<le> b"

definition decodeLastRune :: "string \<Rightarrow> nat \<times> nat" where
  "decodeLastRune s =
     (let n = length s;
          k = (case find (\<lambda>k. runeStart (byte_of s (n - k))) [1..<Suc (min 4 n)] of None \<Rightarrow> min 4 n | Some k \<Rightarrow> k);
          (r, w) = decodeRune (drop (n - k) s)
      in if w = k then (r, w) else (RuneError, 1))"

lemma decodeLastRune_width: "0 < snd (decodeLastRune s)"
proof -
  have "0 < snd (if w = k then (r, w) else (RuneError, 1 :: nat))" if "0 < w" for w k r
    using that by simp
  then show ?thesis using decodeRune_width unfolding decodeLastRune_def Let_def case_prod_beta by blast
qed

function trimRightSpace :: "string \<Rightarrow> string" where
  "trimRightSpace s =
     (if s = [] \<or> \<not> isSpace (fst (decodeLastRune s)) then s
      else trimRightSpace (take (length s - snd (decodeLastRune s)) s))"
  by pat_completeness auto
termination by (relation "measure length") (auto simp: decodeLastRune_width)

declare trimRightSpace.simps [simp del]

definition TrimSpace :: "string \<Rightarrow> string" where
  "TrimSpace s = trimRightSpace (trimLeftSpace s)"

text \<open>\<open>strings.Fields\<close>: the parts of a string between runs of spaces.\<close>

function fieldsLoop :: "string \<Rightarrow> string \<Rightarrow> string list" where
  "fieldsLoop acc s =
     (if s = [] then (if acc = [] then [] else [acc])
      else if isSpace (fst (decodeRune s))
      then (if acc = [] then [] else [acc]) @ fieldsLoop [] (drop (snd (decodeRune s)) s)
      else fieldsLoop (acc @ take (snd (decodeRune s)) s) (drop (snd (decodeRune s)) s))"
  by pat_completeness auto
termination by (relation "measure (\<lambda>(acc, s). length s)") (auto simp: decodeRune_width)

declare fieldsLoop.simps [simp del]

definition strings_Fields :: "string \<Rightarrow> string list" where
  "strings_Fields s = fieldsLoop [] s"

text \<open>\<open>strings.TrimRight\<close> with a cutset of one ASCII character.\<close>

definition TrimRight :: "char \<Rightarrow> string \<Rightarrow> string" where
  "TrimRight c s = rev (dropWhile (\<lambda>x. x = c) (rev s))"

definition HasPrefix :: "string \<Rightarrow> string \<Rightarrow> bool" where
  "HasPrefix s pre \<longleftrightarrow> take (length pre) s = pre"

lemma trimLeftSpace_suffix: "\<exists>us. s = us @ trimLeftSpace s"
proof (induction s rule: trimLeftSpace.induct)
  case (1 s)
  show ?case
  proof (cases "s = [] \<or> \<not> isSpace (fst (decodeRune s))")
    case True
    then have "trimLeftSpace s = s" by (subst trimLeftSpace.simps) simp
    then show ?thesis by simp
  next
    case False
    with 1 obtain us where "drop (snd (decodeRune s)) s = us @ trimLeftSpace (drop (snd (decodeRune s)) s)" by blast
    moreover have "trimLeftSpace s = trimLeftSpace (drop (snd (decodeRune s)) s)"
      using False by (subst trimLeftSpace.simps) simp
    ultimately show ?thesis by (metis append_take_drop_id append.assoc)
  qed
qed

text \<open>A string that starts and ends with an ASCII character that is not a space is left alone.\<close>

lemma decodeRune_ascii: "s \<noteq> [] \<Longrightarrow> of_char (hd s) < (128 :: nat) \<Longrightarrow> decodeRune s = (of_char (hd s), 1)"
  by (simp add: decodeRune_def byte_of_def hd_conv_nth)

lemma decodeLastRune_ascii:
  assumes "s \<noteq> []" "of_char (last s) < (128 :: nat)"
  shows "decodeLastRune s = (of_char (last s), 1)"
proof -
  have "[1..<Suc (min 4 (length s))] = 1 # [2..<Suc (min 4 (length s))]"
    using assms(1) by (subst upt_conv_Cons) (auto simp: Suc_le_eq numeral_2_eq_2)
  moreover have b: "byte_of s (length s - 1) = of_char (last s)" using assms(1) by (simp add: byte_of_def last_conv_nth)
  moreover have "drop (length s - 1) s = [last s]" using assms(1) by (metis append_butlast_last_id append_eq_conv_conj length_butlast)
  ultimately show ?thesis using assms(2) by (simp add: decodeLastRune_def runeStart_def decodeRune_ascii)
qed

lemma TrimSpace_ascii:
  assumes "s \<noteq> []" "of_char (hd s) < (128 :: nat)" "\<not> isSpace (of_char (hd s))"
    "of_char (last s) < (128 :: nat)" "\<not> isSpace (of_char (last s))"
  shows "TrimSpace s = s"
proof -
  have "trimLeftSpace s = s" using assms(1-3) by (subst trimLeftSpace.simps) (simp add: decodeRune_ascii)
  moreover have "trimRightSpace s = s" using assms(1,4,5) by (subst trimRightSpace.simps) (simp add: decodeLastRune_ascii)
  ultimately show ?thesis by (simp add: TrimSpace_def)
qed

end
