(* ===== verification/TextTemplate.thy ===== *)
theory TextTemplate
  imports Cells Utf8
begin

text \<open>
  email_clients/internal/texttemplate/render.go: the placeholders of a plain-text message and their
  substitution. The regular expression of the source has one way to match at a position, so the leftmost
  match is found by trying each position in turn. A variable map is the list of its entries, in the order a
  range over it would give them; \<open>fmt.Sprint\<close> of a value is the parameter \<open>sprint\<close>.
\<close>

section \<open>Placeholders\<close>

type_synonym 'a vars = "(string \<times> 'a) list"

text \<open>The classes of the expression: white space, the first and the other characters of a name.\<close>

definition reSpace :: "char \<Rightarrow> bool" where
  "reSpace c \<longleftrightarrow> of_char c \<in> {9, 10, 12, 13, 32 :: nat}"

definition nameStart :: "char \<Rightarrow> bool" where
  "nameStart c \<longleftrightarrow> (let n = of_char c :: nat in 65 \<le> n \<and> n \<le> 90 \<or> 97 \<le> n \<and> n \<le> 122 \<or> n = 95)"

definition nameChar :: "char \<Rightarrow> bool" where
  "nameChar c \<longleftrightarrow> nameStart c \<or> (let n = of_char c :: nat in 48 \<le> n \<and> n \<le> 57)"

text \<open>The match at the start of a string: the name and what follows the match.\<close>

definition placeholderAt :: "string \<Rightarrow> (string \<times> string) option" where
  "placeholderAt s =
     (if take 2 s \<noteq> ''{{'' then None
      else let t = dropWhile reSpace (drop 2 s);
               name = takeWhile nameChar t;
               u = dropWhile reSpace (dropWhile nameChar t)
           in if t = [] \<or> \<not> nameStart (hd t) \<or> take 2 u \<noteq> ''}}'' then None
              else Some (name, drop 2 u))"

text \<open>The pieces of a source: bytes outside every match, and matches with their names.\<close>

datatype piece = Byte char | Hole string string

lemma placeholderAt_shorter:
  assumes "placeholderAt s = Some (name, rest)"
  shows "length rest < length s"
proof -
  let ?t = "dropWhile reSpace (drop 2 s)"
  let ?u = "dropWhile reSpace (dropWhile nameChar ?t)"
  have r: "rest = drop 2 ?u" and s: "take 2 s = ''{{''"
    using assms by (auto simp: placeholderAt_def Let_def split: if_splits)
  have "length ?u \<le> length (drop 2 s)" by (meson length_dropWhile_le le_trans)
  moreover from s have "length s \<ge> 2" by (cases s; cases "tl s") auto
  ultimately show ?thesis using r by simp
qed

function pieces :: "string \<Rightarrow> piece list" where
  "pieces s =
     (case placeholderAt s of
        Some (name, rest) \<Rightarrow> Hole (take (length s - length rest) s) name # pieces rest
      | None \<Rightarrow> (case s of [] \<Rightarrow> [] | c # cs \<Rightarrow> Byte c # pieces cs))"
  by pat_completeness auto
termination by (relation "measure length") (auto dest: placeholderAt_shorter)

declare pieces.simps [simp del]

text \<open>\<open>placeholder.ReplaceAllStringFunc\<close>, the replacement given the whole match and its name.\<close>

fun replacePiece :: "(string \<Rightarrow> string \<Rightarrow> string) \<Rightarrow> piece \<Rightarrow> string" where
  "replacePiece f (Byte c) = [c]"
| "replacePiece f (Hole match name) = f match name"

definition replaceAll :: "(string \<Rightarrow> string \<Rightarrow> string) \<Rightarrow> string \<Rightarrow> string" where
  "replaceAll f s = concat (map (replacePiece f) (pieces s))"

text \<open>\<open>strings.Contains\<close>.\<close>

definition str_Contains :: "string \<Rightarrow> string \<Rightarrow> bool" where
  "str_Contains s sub \<longleftrightarrow> list_ex (\<lambda>i. take (length sub) (drop i s) = sub) [0..<Suc (length s)]"

definition template_Validate :: "string \<Rightarrow> gerror option" where
  "template_Validate source =
     (let remaining = replaceAll (\<lambda>match name. '''') source
      in if str_Contains remaining ''{{'' \<or> str_Contains remaining ''}}''
         then Some (Err ''placeholders must use {{name}} or {{ name }} syntax'') else None)"

definition missingVariable :: "string \<Rightarrow> gerror" where
  "missingVariable name = Wrapped (Err name) ''missing variable''"

text \<open>The first name without a value, as the closure of \<open>Render\<close> records it.\<close>

definition firstMissing :: "'a vars \<Rightarrow> string \<Rightarrow> gerror option" where
  "firstMissing variables source =
     foldl (\<lambda>missing p.
              case p of
                Byte c \<Rightarrow> missing
              | Hole match name \<Rightarrow>
                  if map_of variables name = None \<and> missing = None then Some (missingVariable name)
                  else missing)
       None (pieces source)"

text \<open>The returned string and error; on an error of \<open>Validate\<close> the string is empty.\<close>

definition template_Render :: "('a \<Rightarrow> string) \<Rightarrow> string \<Rightarrow> 'a vars \<Rightarrow> string \<times> gerror option" where
  "template_Render sprint source variables =
     (case template_Validate source of
        Some e \<Rightarrow> ('''', Some e)
      | None \<Rightarrow>
          (replaceAll
             (\<lambda>match name. case map_of variables name of None \<Rightarrow> match | Some v \<Rightarrow> sprint v) source,
           firstMissing variables source))"

section \<open>What substitution does\<close>

text \<open>The pieces are a partition of the source.\<close>

lemma pieces_source: "concat (map (replacePiece (\<lambda>match name. match)) (pieces s)) = s"
proof (induction s rule: pieces.induct)
  case (1 s)
  show ?case
  proof (cases "placeholderAt s")
    case None
    with 1 show ?thesis by (subst pieces.simps) (auto split: list.splits)
  next
    case (Some p)
    obtain name rest where p: "p = (name, rest)" by (cases p)
    have ends: "\<exists>pre. s = pre @ rest"
    proof -
      let ?t = "dropWhile reSpace (drop 2 s)"
      let ?u = "dropWhile reSpace (dropWhile nameChar ?t)"
      have "rest = drop 2 ?u" using Some p by (auto simp: placeholderAt_def Let_def split: if_splits)
      moreover have "s = take 2 s @ takeWhile reSpace (drop 2 s) @ takeWhile nameChar ?t @
          takeWhile reSpace (dropWhile nameChar ?t) @ take 2 ?u @ drop 2 ?u"
        by (simp only: takeWhile_dropWhile_id append_take_drop_id)
      ultimately show ?thesis by (metis append.assoc)
    qed
    then obtain pre where pre: "s = pre @ rest" ..
    have "concat (map (replacePiece (\<lambda>match name. match)) (pieces rest)) = rest" using 1 Some p by auto
    with Some p pre show ?thesis by (subst pieces.simps) simp
  qed
qed

definition holes :: "string \<Rightarrow> string list" where
  "holes s = concat (map (\<lambda>p. case p of Byte c \<Rightarrow> [] | Hole match name \<Rightarrow> [name]) (pieces s))"

lemma firstMissing_None: "firstMissing variables s = None \<longleftrightarrow> (\<forall>n \<in> set (holes s). map_of variables n \<noteq> None)"
proof -
  let ?f = "\<lambda>missing p. case p of Byte c \<Rightarrow> missing
     | Hole match name \<Rightarrow> if map_of variables name = None \<and> missing = None then Some (missingVariable name) else missing"
  have keep: "foldl ?f (Some e) ps = Some e" for e ps by (induction ps) (auto split: piece.splits)
  have "foldl ?f None ps = None \<longleftrightarrow>
      (\<forall>n \<in> set (concat (map (\<lambda>p. case p of Byte c \<Rightarrow> [] | Hole match name \<Rightarrow> [name]) ps)). map_of variables n \<noteq> None)" for ps
  proof (induction ps)
    case (Cons p ps)
    then show ?case by (cases p) (auto simp: keep)
  qed simp
  then show ?thesis by (simp add: firstMissing_def holes_def)
qed

end
