(* ===== verification/Calendar.thy ===== *)
theory Calendar
  imports Prelude
begin

text \<open>
  What the sources use of Go's calendar: \<open>time.Date\<close>, the civil fields of a local time, \<open>AddDate\<close>,
  weekdays, the layouts \<open>2006-01-02\<close> and \<open>15:04\<close>. A day is its number since 1970-01-01. A location is
  the function that gives its offset from UTC, in seconds, at a Unix time in seconds; the zone data
  is not part of the sources, so locations are parameters.
\<close>

section \<open>Civil dates\<close>

definition leap :: "int \<Rightarrow> bool" where
  "leap y \<longleftrightarrow> y mod 4 = 0 \<and> (y mod 100 \<noteq> 0 \<or> y mod 400 = 0)"

definition daysBefore :: "bool \<Rightarrow> int \<Rightarrow> int" where
  "daysBefore lp m =
     [0, 31, 59, 90, 120, 151, 181, 212, 243, 273, 304, 334, 365] ! nat (m - 1) + (if lp \<and> m > 2 then 1 else 0)"

definition daysIn :: "int \<Rightarrow> int \<Rightarrow> int" where
  "daysIn y m = daysBefore (leap y) (m + 1) - daysBefore (leap y) m"

text \<open>The days of the years 1 to \<open>y - 1\<close>.\<close>

definition yearDays :: "int \<Rightarrow> int" where
  "yearDays y = 365 * (y - 1) + (y - 1) div 4 - (y - 1) div 100 + (y - 1) div 400"

definition epochDays :: int where "epochDays = 719162"

record civil =
  cv_Year :: int
  cv_Month :: int
  cv_Day :: int

text \<open>The day number \<open>time.Date\<close> computes: the month is normalised, the day may be out of range.\<close>

definition dateDays :: "int \<Rightarrow> int \<Rightarrow> int \<Rightarrow> int" where
  "dateDays y m d =
     (let y' = y + (m - 1) div 12; m' = (m - 1) mod 12 + 1
      in yearDays y' + daysBefore (leap y') m' + d - 1 - epochDays)"

text \<open>The civil fields of a day number, by 400, 100, 4 and 1 year cycles.\<close>

definition monthOf :: "bool \<Rightarrow> int \<Rightarrow> int" where
  "monthOf lp yd =
     (if yd < daysBefore lp 2 then 1 else if yd < daysBefore lp 3 then 2
      else if yd < daysBefore lp 4 then 3 else if yd < daysBefore lp 5 then 4
      else if yd < daysBefore lp 6 then 5 else if yd < daysBefore lp 7 then 6
      else if yd < daysBefore lp 8 then 7 else if yd < daysBefore lp 9 then 8
      else if yd < daysBefore lp 10 then 9 else if yd < daysBefore lp 11 then 10
      else if yd < daysBefore lp 12 then 11 else 12)"

definition civilYear :: "int \<Rightarrow> int \<times> int" where
  "civilYear n =
     (let a = n + epochDays;
          n400 = a div 146097; d400 = a mod 146097;
          n100 = min 3 (d400 div 36524); d100 = d400 - 36524 * n100;
          n4 = d100 div 1461; d4 = d100 mod 1461;
          n1 = min 3 (d4 div 365)
      in (400 * n400 + 100 * n100 + 4 * n4 + n1 + 1, d4 - 365 * n1))"

definition civilOf :: "int \<Rightarrow> civil" where
  "civilOf n =
     (case civilYear n of
        (y, yd) \<Rightarrow>
          (let m = monthOf (leap y) yd
           in \<lparr>cv_Year = y, cv_Month = m, cv_Day = yd - daysBefore (leap y) m + 1\<rparr>))"

definition valid_civil :: "civil \<Rightarrow> bool" where
  "valid_civil c \<longleftrightarrow> 1 \<le> cv_Month c \<and> cv_Month c \<le> 12 \<and> 1 \<le> cv_Day c \<and> cv_Day c \<le> daysIn (cv_Year c) (cv_Month c)"

definition civilDays :: "civil \<Rightarrow> int" where
  "civilDays c = dateDays (cv_Year c) (cv_Month c) (cv_Day c)"

section \<open>Day numbers and civil dates\<close>

lemma daysBefore_simps [simp]:
  "daysBefore lp 1 = 0" "daysBefore lp 2 = 31" "daysBefore lp 3 = (if lp then 60 else 59)"
  "daysBefore lp 4 = (if lp then 91 else 90)" "daysBefore lp 5 = (if lp then 121 else 120)"
  "daysBefore lp 6 = (if lp then 152 else 151)" "daysBefore lp 7 = (if lp then 182 else 181)"
  "daysBefore lp 8 = (if lp then 213 else 212)" "daysBefore lp 9 = (if lp then 244 else 243)"
  "daysBefore lp 10 = (if lp then 274 else 273)" "daysBefore lp 11 = (if lp then 305 else 304)"
  "daysBefore lp 12 = (if lp then 335 else 334)" "daysBefore lp 13 = (if lp then 366 else 365)"
  by (simp_all add: daysBefore_def numeral_eq_Suc)

lemma div_pred:
  fixes y k :: int
  assumes "k > 1"
  shows "y div k - (y - 1) div k = (if y mod k = 0 then 1 else 0)"
proof (cases "y mod k = 0")
  case True
  then obtain q where "y = k * q" by auto
  moreover have "(k * q - 1) div k = q - 1"
    using assms by (intro int_div_pos_eq [of _ _ _ "k - 1"]) (auto simp: algebra_simps)
  ultimately show ?thesis using assms by simp
next
  case False
  then have "(y - 1) div k = y div k"
  proof (intro int_div_pos_eq [of _ _ _ "y mod k - 1"])
    show "y - 1 = k * (y div k) + (y mod k - 1)" by simp
    show "0 \<le> y mod k - 1" "y mod k - 1 < k"
      using False assms pos_mod_sign [of k y] pos_mod_bound [of k y] by linarith+
  qed
  with False show ?thesis by simp
qed

lemma mod_top:
  fixes q r k :: int
  assumes "1 \<le> r" "r \<le> k"
  shows "(k * q + r) mod k = 0 \<longleftrightarrow> r = k"
  using assms by (cases "r = k") (simp_all add: mod_pos_pos_trivial)

lemma leap_count:
  "(c \<longrightarrow> b) \<Longrightarrow> (b \<longrightarrow> a) \<Longrightarrow> 365 + (if a then 1 else 0) - (if b then 1 else 0) + (if c then 1 else 0) =
     (if a \<and> (\<not> b \<or> c) then 366 else 365 :: int)"
  by (cases a; cases b; cases c; simp)

lemma yearDays_Suc: "yearDays (y + 1) - yearDays y = (if leap y then 366 else 365)"
proof -
  have p4: "y div 4 - (y - 1) div 4 = (if y mod 4 = 0 then 1 else 0)" by (rule div_pred) simp
  have p100: "y div 100 - (y - 1) div 100 = (if y mod 100 = 0 then 1 else 0)" by (rule div_pred) simp
  have p400: "y div 400 - (y - 1) div 400 = (if y mod 400 = 0 then 1 else 0)" by (rule div_pred) simp
  have i: "y mod 400 = 0 \<longrightarrow> y mod 100 = 0" "y mod 100 = 0 \<longrightarrow> y mod 4 = 0"
    unfolding mod_eq_0_iff_dvd using dvd_trans [of 100 400 y] dvd_trans [of 4 100 y] by simp_all
  have "yearDays (y + 1) - yearDays y =
      365 + (y div 4 - (y - 1) div 4) - (y div 100 - (y - 1) div 100) + (y div 400 - (y - 1) div 400)"
    by (simp add: yearDays_def)
  then show ?thesis
    unfolding p4 p100 p400 leap_def
    by (simp only:) (rule leap_count [OF i])
qed

lemma monthOf_bounds:
  assumes "0 \<le> yd" "yd < (if lp then 366 else 365)"
  shows "1 \<le> monthOf lp yd \<and> monthOf lp yd \<le> 12 \<and> daysBefore lp (monthOf lp yd) \<le> yd \<and>
    yd < daysBefore lp (monthOf lp yd + 1)"
  using assms by (auto simp: monthOf_def)

text \<open>A cycle of four parts of length \<open>k\<close>, the last of them a day longer.\<close>

lemma four_parts:
  fixes d k :: int
  assumes "0 \<le> d" "d \<le> 4 * k" "0 < k"
  shows "0 \<le> min 3 (d div k)" "min 3 (d div k) \<le> 3" "0 \<le> d - k * min 3 (d div k)"
    "min 3 (d div k) < 3 \<longrightarrow> d - k * min 3 (d div k) < k" "d - k * min 3 (d div k) \<le> k"
proof -
  have d: "d = k * (d div k) + d mod k" "0 \<le> d mod k" "d mod k < k" "0 \<le> d div k"
    using assms(1,3) by (simp_all add: pos_imp_zdiv_nonneg_iff)
  show "0 \<le> min 3 (d div k)" "min 3 (d div k) \<le> 3" using d(4) by simp_all
  have "0 \<le> d - k * min 3 (d div k) \<and> (min 3 (d div k) < 3 \<longrightarrow> d - k * min 3 (d div k) < k) \<and>
    d - k * min 3 (d div k) \<le> k"
  proof (cases "d div k < 3")
    case False
    then have "k * 3 \<le> k * (d div k)" using assms(3) by simp
    then have "k * 3 \<le> d" using d by linarith
    then show ?thesis using False assms(2) by simp
  qed (use d(2,3) in \<open>simp add: minus_mult_div_eq_mod\<close>)
  then show "0 \<le> d - k * min 3 (d div k)" "min 3 (d div k) < 3 \<longrightarrow> d - k * min 3 (d div k) < k"
    "d - k * min 3 (d div k) \<le> k" by blast+
qed

lemma civilYear_correct:
  assumes "civilYear n = (y, yd)"
  shows "0 \<le> yd \<and> yd < (if leap y then 366 else 365) \<and> yearDays y + yd = n + epochDays"
proof -
  define a where "a = n + epochDays"
  define n400 d400 where "n400 = a div 146097" and "d400 = a mod 146097"
  define n100 where "n100 = min 3 (d400 div 36524)"
  define d100 where "d100 = d400 - 36524 * n100"
  define n4 d4 where "n4 = d100 div 1461" and "d4 = d100 mod 1461"
  define n1 where "n1 = min 3 (d4 div 365)"
  have y: "y = 400 * n400 + 100 * n100 + 4 * n4 + n1 + 1" "yd = d4 - 365 * n1"
    using assms unfolding civilYear_def Let_def a_def [symmetric] n400_def [symmetric] d400_def [symmetric]
      n100_def [symmetric] d100_def [symmetric] n4_def [symmetric] d4_def [symmetric] n1_def [symmetric]
    by simp_all
  have d400: "0 \<le> d400" "d400 < 146097" by (simp_all add: d400_def)
  have n100: "0 \<le> n100" "n100 \<le> 3" "0 \<le> d100" "n100 < 3 \<Longrightarrow> d100 < 36524" "d100 \<le> 36524"
    using four_parts [of d400 36524] d400 unfolding n100_def d100_def by simp_all
  have n4: "0 \<le> n4" "n4 \<le> 24" "0 \<le> d4" "d4 \<le> 1460" "n4 = 24 \<Longrightarrow> n100 < 3 \<Longrightarrow> d4 < 1460"
  proof -
    have "d100 = 1461 * n4 + d4" "0 \<le> d4" "d4 < 1461" by (simp_all add: n4_def d4_def)
    with n100 show "0 \<le> n4" "n4 \<le> 24" "0 \<le> d4" "d4 \<le> 1460" "n4 = 24 \<Longrightarrow> n100 < 3 \<Longrightarrow> d4 < 1460"
      by linarith+
  qed
  have n1: "0 \<le> n1" "n1 \<le> 3" "0 \<le> yd" "n1 < 3 \<Longrightarrow> yd < 365" "yd \<le> 365" "yd = 365 \<Longrightarrow> d4 = 1460"
    using four_parts [of d4 365] n4(3,4) unfolding y(2) n1_def by (auto simp: min_def split: if_splits)
  have "(y - 1) div 4 = 100 * n400 + 25 * n100 + n4" "(y - 1) div 100 = 4 * n400 + n100" "(y - 1) div 400 = n400"
    using n100(1,2) n4(1,2) n1(1,2) unfolding y(1)
    by (intro int_div_pos_eq [of _ _ _ n1] int_div_pos_eq [of _ _ _ "4 * n4 + n1"]
        int_div_pos_eq [of _ _ _ "100 * n100 + 4 * n4 + n1"]; simp)+
  then have "yearDays y = 146097 * n400 + 36524 * n100 + 1461 * n4 + 365 * n1"
    by (simp add: yearDays_def y(1))
  moreover have "a = 146097 * n400 + d400" "d100 = 1461 * n4 + d4"
    by (simp_all add: n400_def d400_def n4_def d4_def)
  ultimately have "yearDays y + yd = n + epochDays"
    by (simp add: y(2) d100_def a_def)
  moreover have "leap y \<longleftrightarrow> n1 = 3 \<and> (n4 \<noteq> 24 \<or> n100 = 3)"
  proof -
    have f: "y = 4 * (100 * n400 + 25 * n100 + n4) + (n1 + 1)" "y = 100 * (4 * n400 + n100) + (4 * n4 + n1 + 1)"
      "y = 400 * n400 + (100 * n100 + 4 * n4 + n1 + 1)" by (simp_all add: y(1))
    have m4: "y mod 4 = 0 \<longleftrightarrow> n1 + 1 = 4"
      unfolding f(1) by (rule mod_top) (use n1 in simp_all)
    have m100: "y mod 100 = 0 \<longleftrightarrow> 4 * n4 + n1 + 1 = 100"
      unfolding f(2) by (rule mod_top) (use n4 n1 in simp_all)
    have m400: "y mod 400 = 0 \<longleftrightarrow> 100 * n100 + 4 * n4 + n1 + 1 = 400"
      unfolding f(3) by (rule mod_top) (use n100 n4 n1 in simp_all)
    show ?thesis
      using n100(1,2) n4(1,2) n1(1,2) unfolding leap_def m4 m100 m400 by (cases "n1 = 3"; cases "n4 = 24") auto
  qed
  moreover have "yd < 366 \<and> (yd = 365 \<longrightarrow> n1 = 3 \<and> (n4 \<noteq> 24 \<or> n100 = 3))"
  proof -
    have "n1 = 3" if "yd = 365" using n1(2,4) that by (cases "n1 < 3") simp_all
    moreover have "n100 = 3" if "yd = 365" "n4 = 24"
      using n4(5) n1(6) n100(2) that by (cases "n100 < 3") simp_all
    ultimately show ?thesis using n1(5) by auto
  qed
  ultimately show ?thesis using n1(3,5) by auto
qed

lemma month_cases:
  assumes "1 \<le> m" "m \<le> (12 :: int)"
  obtains "m = 1" | "m = 2" | "m = 3" | "m = 4" | "m = 5" | "m = 6" | "m = 7" | "m = 8" | "m = 9" | "m = 10"
    | "m = 11" | "m = 12"
proof -
  have "m = 1 \<or> m = 2 \<or> m = 3 \<or> m = 4 \<or> m = 5 \<or> m = 6 \<or> m = 7 \<or> m = 8 \<or> m = 9 \<or> m = 10 \<or> m = 11 \<or> m = 12"
    using assms by presburger
  with that show thesis by blast
qed

lemma monthOf_day:
  assumes "1 \<le> m" "m \<le> 12" "1 \<le> d" "d \<le> daysIn y m"
  shows "monthOf (leap y) (daysBefore (leap y) m + d - 1) = m"
  using assms(1,2)
  by (rule month_cases; cases "leap y"; use assms(3,4) in \<open>simp add: daysIn_def monthOf_def\<close>)

lemma daysBefore_range:
  assumes "1 \<le> m" "m \<le> 12" "1 \<le> d" "d \<le> daysIn y m"
  shows "0 \<le> daysBefore (leap y) m + d - 1 \<and> daysBefore (leap y) m + d - 1 < (if leap y then 366 else 365)"
  using assms(1,2) by (rule month_cases; cases "leap y"; use assms(3,4) in \<open>simp add: daysIn_def\<close>)

lemma yearDays_mono: "y < y' \<Longrightarrow> yearDays y + (if leap y then 366 else 365) \<le> yearDays y'"
proof (induction y' rule: int_gr_induct [where k = y])
  case (step i)
  then show ?case using yearDays_Suc [of i] by (simp split: if_splits)
qed (use yearDays_Suc [of y] in \<open>simp_all split: if_splits\<close>)

lemma year_unique:
  assumes "yearDays y + d = yearDays y' + d'" "0 \<le> d" "d < (if leap y then 366 else 365)"
    "0 \<le> d'" "d' < (if leap y' then 366 else 365)"
  shows "y = y' \<and> d = d'"
proof -
  have "\<not> y < y'" "\<not> y' < y" using yearDays_mono [of y y'] yearDays_mono [of y' y] assms by (auto split: if_splits)
  with assms(1) show ?thesis by simp
qed

lemma dateDays_valid:
  "1 \<le> m \<Longrightarrow> m \<le> 12 \<Longrightarrow> dateDays y m d = yearDays y + daysBefore (leap y) m + d - 1 - epochDays"
  by (simp add: dateDays_def)

lemma dateDays_add: "dateDays y m (d + k) = dateDays y m d + k"
  by (simp add: dateDays_def Let_def)

lemma civilOf_valid: "valid_civil (civilOf n)" and civilDays_civilOf [simp]: "civilDays (civilOf n) = n"
proof -
  obtain y yd where y: "civilYear n = (y, yd)" by fastforce
  note c = civilYear_correct [OF y]
  let ?m = "monthOf (leap y) yd"
  have m: "1 \<le> ?m" "?m \<le> 12" "daysBefore (leap y) ?m \<le> yd" "yd < daysBefore (leap y) (?m + 1)"
    using monthOf_bounds [of yd "leap y"] c by auto
  have eq: "civilOf n = \<lparr>cv_Year = y, cv_Month = ?m, cv_Day = yd - daysBefore (leap y) ?m + 1\<rparr>"
    by (simp add: civilOf_def y Let_def)
  show "valid_civil (civilOf n)" using m by (simp add: eq valid_civil_def daysIn_def)
  show "civilDays (civilOf n) = n" using m c by (simp add: eq civilDays_def dateDays_valid)
qed

text \<open>Day numbers and valid civil dates correspond one to one.\<close>

lemma civilOf_civilDays [simp]:
  assumes "valid_civil c"
  shows "civilOf (civilDays c) = c"
proof -
  obtain y m d where c: "c = \<lparr>cv_Year = y, cv_Month = m, cv_Day = d\<rparr>" by (cases c)
  have v: "1 \<le> m" "m \<le> 12" "1 \<le> d" "d \<le> daysIn y m" using assms by (auto simp: c valid_civil_def)
  obtain y' yd where y': "civilYear (civilDays c) = (y', yd)" by fastforce
  from civilYear_correct [OF y'] have "yearDays y' + yd = yearDays y + (daysBefore (leap y) m + d - 1)"
    "0 \<le> yd" "yd < (if leap y' then 366 else 365)" using v by (auto simp: c civilDays_def dateDays_valid)
  with year_unique daysBefore_range [OF v] have "y' = y" "yd = daysBefore (leap y) m + d - 1" by blast+
  with y' show ?thesis by (simp add: civilOf_def Let_def monthOf_day [OF v]) (simp add: c)
qed

section \<open>Local times\<close>

type_synonym location = "int \<Rightarrow> int"

definition unix :: "go_time \<Rightarrow> int" where
  "unix t = t div Second"

definition localSeconds :: "location \<Rightarrow> go_time \<Rightarrow> int" where
  "localSeconds loc t = unix t + loc (unix t)"

definition localDay :: "location \<Rightarrow> go_time \<Rightarrow> int" where
  "localDay loc t = localSeconds loc t div 86400"

definition localCivil :: "location \<Rightarrow> go_time \<Rightarrow> civil" where
  "localCivil loc t = civilOf (localDay loc t)"

text \<open>\<open>t.Weekday()\<close>: 0 is Sunday, and 1970-01-01 was a Thursday.\<close>

definition time_Weekday :: "location \<Rightarrow> go_time \<Rightarrow> int" where
  "time_Weekday loc t = (localDay loc t + 4) mod 7"

text \<open>
  \<open>time.Date\<close>: the offset is looked up at the civil time read as UTC and, when it is not zero, again at
  the instant it gives.
\<close>

definition zoned :: "location \<Rightarrow> int \<Rightarrow> int" where
  "zoned loc u = (let offset = loc u in if offset = 0 then u else u - loc (u - offset))"

definition time_Date :: "location \<Rightarrow> int \<Rightarrow> int \<Rightarrow> int \<Rightarrow> int \<Rightarrow> int \<Rightarrow> int \<Rightarrow> int \<Rightarrow> go_time" where
  "time_Date loc y m d hour minute sec nsec =
     zoned loc (dateDays y m d * 86400 + hour * 3600 + minute * 60 + sec) * Second + nsec"

definition time_AddDate :: "location \<Rightarrow> go_time \<Rightarrow> int \<Rightarrow> int \<Rightarrow> int \<Rightarrow> go_time" where
  "time_AddDate loc t years months days =
     (let c = localCivil loc t; clock = localSeconds loc t mod 86400
      in time_Date loc (cv_Year c + years) (cv_Month c + months) (cv_Day c + days)
           (clock div 3600) (clock mod 3600 div 60) (clock mod 60) (t mod Second))"

text \<open>The local midnight of a day, and what the recurrence rules rely on of a location: midnights exist.\<close>

definition midnight :: "location \<Rightarrow> int \<Rightarrow> go_time" where
  "midnight loc n = zoned loc (n * 86400) * Second"

definition location_ok :: "location \<Rightarrow> bool" where
  "location_ok loc \<longleftrightarrow> (\<forall>n. localSeconds loc (midnight loc n) = n * 86400) \<and>
     (\<forall>m n. m < n \<longrightarrow> midnight loc m < midnight loc n)"

lemma time_Date_midnight: "time_Date loc y m d 0 0 0 0 = midnight loc (dateDays y m d)"
  by (simp add: time_Date_def midnight_def)

lemma localDay_midnight: "location_ok loc \<Longrightarrow> localDay loc (midnight loc n) = n"
  by (simp add: location_ok_def localDay_def)

lemma localCivil_midnight: "location_ok loc \<Longrightarrow> localCivil loc (midnight loc n) = civilOf n"
  by (simp add: localCivil_def localDay_midnight)

lemma midnight_less: "location_ok loc \<Longrightarrow> midnight loc m < midnight loc n \<longleftrightarrow> m < n"
  unfolding location_ok_def by (metis less_asym linorder_neqE_linordered_idom)

lemma midnight_le: "location_ok loc \<Longrightarrow> midnight loc m \<le> midnight loc n \<longleftrightarrow> m \<le> n"
  using midnight_less [of loc n m] by (simp add: not_less [symmetric])

lemma midnight_inject: "location_ok loc \<Longrightarrow> midnight loc m = midnight loc n \<longleftrightarrow> m = n"
  by (metis localDay_midnight)

lemma AddDate_midnight:
  assumes "location_ok loc"
  shows "time_AddDate loc (midnight loc n) 0 0 k = midnight loc (n + k)"
proof -
  have "midnight loc n mod Second = 0" by (simp add: midnight_def)
  moreover have "localSeconds loc (midnight loc n) mod 86400 = 0" using assms by (simp add: location_ok_def)
  moreover have "dateDays (cv_Year (civilOf n)) (cv_Month (civilOf n)) (cv_Day (civilOf n) + k) = n + k"
    unfolding dateDays_add using civilDays_civilOf [of n, unfolded civilDays_def] by simp
  ultimately show ?thesis
    by (simp add: time_AddDate_def localCivil_midnight [OF assms] Let_def time_Date_midnight)
qed

lemma date_midnight: "time_Date loc (cv_Year (civilOf n)) (cv_Month (civilOf n)) (cv_Day (civilOf n)) 0 0 0 0 = midnight loc n"
  by (simp add: time_Date_midnight civilDays_def [symmetric])

text \<open>UTC, and the clock of London in 2026.\<close>

definition UTC :: location where "UTC u = 0"

definition london2026 :: location where
  "london2026 u = (if 1774746000 \<le> u \<and> u < 1792890000 then 3600 else 0)"

lemma Second_pos [simp]: "0 < Second"
  by (simp add: Second_def)

lemma unix_mult [simp]: "unix (u * Second) = u"
  by (simp add: unix_def Second_def)

lemma location_ok_UTC: "location_ok UTC"
  by (simp add: location_ok_def localSeconds_def midnight_def zoned_def UTC_def)

lemma location_ok_london2026: "location_ok london2026"
proof -
  have z: "zoned london2026 (n * 86400) = n * 86400 - london2026 (n * 86400)"
    "london2026 (n * 86400 - london2026 (n * 86400)) = london2026 (n * 86400)" for n
    by (auto simp: zoned_def london2026_def)
  have "m < n \<Longrightarrow> m * 86400 - london2026 (m * 86400) < n * 86400 - london2026 (n * 86400)" for m n
    by (auto simp: london2026_def)
  with z show ?thesis by (simp add: location_ok_def localSeconds_def midnight_def)
qed

section \<open>Layouts\<close>

definition isDigit :: "char \<Rightarrow> bool" where
  "isDigit c \<longleftrightarrow> 48 \<le> (of_char c :: nat) \<and> (of_char c :: nat) \<le> 57"

text \<open>One or two digits, or exactly two; the rest of the text is returned with the number.\<close>

definition getnum :: "bool \<Rightarrow> string \<Rightarrow> (int \<times> string) option" where
  "getnum fixed s =
     (case s of
        [] \<Rightarrow> None
      | c # rest \<Rightarrow>
          if \<not> isDigit c then None
          else (case rest of
                  [] \<Rightarrow> (if fixed then None else Some (int (char_digit c), rest))
                | c' # rest' \<Rightarrow>
                    if isDigit c' then Some (int (10 * char_digit c + char_digit c'), rest')
                    else if fixed then None else Some (int (char_digit c), rest)))"

definition skip :: "char \<Rightarrow> string \<Rightarrow> string option" where
  "skip c s = (case s of [] \<Rightarrow> None | x # rest \<Rightarrow> if x = c then Some rest else None)"

text \<open>\<open>time.Parse\<close> with the layout \<open>2006-01-02\<close>.\<close>

definition parseISODate :: "string \<Rightarrow> civil option" where
  "parseISODate s =
     (if length s < 4 \<or> \<not> list_all isDigit (take 4 s) then None
      else
        let year = int (atoi 0 (take 4 s)) in
        case skip (CHR ''-'') (drop 4 s) of
          None \<Rightarrow> None
        | Some s1 \<Rightarrow>
        (case getnum True s1 of
          None \<Rightarrow> None
        | Some (month, s2) \<Rightarrow>
            if month < 1 \<or> month > 12 then None
            else
        (case skip (CHR ''-'') s2 of
          None \<Rightarrow> None
        | Some s3 \<Rightarrow>
        (case getnum True s3 of
          None \<Rightarrow> None
        | Some (day, s4) \<Rightarrow>
            if s4 \<noteq> [] \<or> day < 1 \<or> day > daysIn year month then None
            else Some \<lparr>cv_Year = year, cv_Month = month, cv_Day = day\<rparr>))))"

text \<open>\<open>time.Parse\<close> with the layout \<open>15:04\<close>: hour and minute.\<close>

definition parseClock :: "string \<Rightarrow> (int \<times> int) option" where
  "parseClock s =
     (case getnum False s of
        None \<Rightarrow> None
      | Some (hour, s1) \<Rightarrow>
          if hour \<ge> 24 then None
          else
     (case skip (CHR '':'') s1 of
        None \<Rightarrow> None
      | Some s2 \<Rightarrow>
     (case getnum True s2 of
        None \<Rightarrow> None
      | Some (minute, s3) \<Rightarrow> if s3 \<noteq> [] \<or> minute \<ge> 60 then None else Some (hour, minute))))"

text \<open>The decimal digits of a number, padded with zeros, and the layout \<open>2006-01-02\<close>.\<close>

definition appendInt :: "nat \<Rightarrow> int \<Rightarrow> string" where
  "appendInt width n =
     (let digits = itoa (nat \<bar>n\<bar>)
      in (if n < 0 then ''-'' else '''') @ replicate (width - length digits) (CHR ''0'') @ digits)"

definition formatDate :: "civil \<Rightarrow> string" where
  "formatDate c = appendInt 4 (cv_Year c) @ ''-'' @ appendInt 2 (cv_Month c) @ ''-'' @ appendInt 2 (cv_Day c)"

lemma isDigit_digit_char [simp]: "d < 10 \<Longrightarrow> isDigit (digit_char d)"
  by (simp add: isDigit_def digit_char_def)

lemma digit_char_0: "CHR ''0'' = digit_char 0"
  unfolding digit_char_def by code_simp

lemma itoa_digits:
  "n < 10 \<Longrightarrow> itoa n = [digit_char n]"
  "10 \<le> n \<Longrightarrow> itoa n = itoa (n div 10) @ [digit_char (n mod 10)]"
  by (simp_all add: itoa.simps [of n])

lemma appendInt_2:
  assumes "0 \<le> n" "n < 100"
  shows "appendInt 2 n = [digit_char (nat n div 10), digit_char (nat n mod 10)]"
  using assms by (cases "nat n < 10") (simp_all add: appendInt_def itoa_digits digit_char_0)

lemma appendInt_4:
  assumes "0 \<le> n" "n < 10000"
  shows "appendInt 4 n = map digit_char [nat n div 1000, nat n div 100 mod 10, nat n div 10 mod 10, nat n mod 10]"
proof -
  define m where "m = nat n"
  have m: "nat \<bar>n\<bar> = m" "m < 10000" using assms by (auto simp: m_def)
  have d: "m div 10 div 10 = m div 100" "m div 100 div 10 = m div 1000"
    by (simp_all add: div_mult2_eq [symmetric])
  have r: "replicate 4 (CHR ''0'') = map digit_char [0, 0, 0, 0]" "replicate 3 (CHR ''0'') = map digit_char [0, 0, 0]"
    "replicate 2 (CHR ''0'') = map digit_char [0, 0]" "replicate 1 (CHR ''0'') = map digit_char [0]"
    by (simp_all add: digit_char_0 numeral_eq_Suc)
  consider "m < 10" | "10 \<le> m" "m < 100" | "100 \<le> m" "m < 1000" | "1000 \<le> m" by linarith
  then show ?thesis
  proof cases
    case 1
    then show ?thesis using assms(1) r(2) by (simp add: appendInt_def m itoa_digits flip: m_def)
  next
    case 2
    then show ?thesis using assms(1) r(3) by (simp add: appendInt_def m itoa_digits d flip: m_def)
  next
    case 3
    then have "10 \<le> m div 10" "m div 100 < 10" "10 \<le> m" by simp_all
    with 3 show ?thesis
      using assms(1) r(4) by (simp add: appendInt_def m itoa_digits(2) itoa_digits(1) [of "m div 100"] d flip: m_def)
  next
    case 4
    then have "10 \<le> m div 10" "10 \<le> m div 100" "m div 1000 < 10" "10 \<le> m" using m(2) by simp_all
    with 4 show ?thesis
      using assms(1) by (simp add: appendInt_def m itoa_digits(2) itoa_digits(1) [of "m div 1000"] d flip: m_def)
  qed
qed

lemma getnum_appendInt:
  assumes "0 \<le> n" "n < 100"
  shows "getnum True (appendInt 2 n @ rest) = Some (n, rest)"
  using assms by (simp add: appendInt_2 getnum_def)

lemma year_appendInt:
  assumes "0 \<le> n" "n < 10000"
  shows "length (appendInt 4 n) = 4" "list_all isDigit (appendInt 4 n)" "int (atoi 0 (appendInt 4 n)) = n"
proof -
  define m where "m = nat n"
  have d: "m div 10 div 10 = m div 100" "m div 100 div 10 = m div 1000"
    by (simp_all add: div_mult2_eq [symmetric])
  have "m div 1000 < 10" using assms by (simp add: m_def)
  then show "length (appendInt 4 n) = 4" "list_all isDigit (appendInt 4 n)"
    using assms by (simp_all add: appendInt_4 m_def)
  have "m = 10 * (m div 10) + m mod 10" "m div 10 = 10 * (m div 100) + m div 10 mod 10"
    "m div 100 = 10 * (m div 1000) + m div 100 mod 10"
    using mult_div_mod_eq [of 10 m] mult_div_mod_eq [of 10 "m div 10"] mult_div_mod_eq [of 10 "m div 100"]
    by (simp_all add: d)
  then have "1000 * (m div 1000) + 100 * (m div 100 mod 10) + 10 * (m div 10 mod 10) + m mod 10 = m" by linarith
  moreover have "atoi 0 (appendInt 4 n) = 1000 * (m div 1000) + 100 * (m div 100 mod 10) + 10 * (m div 10 mod 10) + m mod 10"
    using \<open>m div 1000 < 10\<close> assms by (simp add: appendInt_4 flip: m_def)
  ultimately show "int (atoi 0 (appendInt 4 n)) = n" using assms(1) by (simp add: m_def)
qed

text \<open>A date that is printed is read back, for the years the layout can hold.\<close>

lemma parse_format_date:
  assumes "valid_civil c" "0 \<le> cv_Year c" "cv_Year c < 10000"
  shows "parseISODate (formatDate c) = Some c"
proof -
  have d: "1 \<le> cv_Month c" "cv_Month c \<le> 12" "1 \<le> cv_Day c" "cv_Day c \<le> daysIn (cv_Year c) (cv_Month c)"
    using assms(1) by (auto simp: valid_civil_def)
  have "cv_Day c < 100"
    using d(1,2) by (rule month_cases; use d(4) in \<open>simp add: daysIn_def split: if_splits\<close>)
  then show ?thesis
    using d assms(2,3) year_appendInt [of "cv_Year c"]
      getnum_appendInt [of "cv_Month c" "''-'' @ appendInt 2 (cv_Day c)"] getnum_appendInt [of "cv_Day c" "[]"]
    by (simp add: parseISODate_def formatDate_def skip_def Let_def)
qed

end
