(* ===== verification/Recurrence.thy ===== *)
theory Recurrence
  imports Calendar Cells
begin

text \<open>
  components/recurrence (types.go, rules.go, eligibility.go): recurrence rules of event venues, their
  next occurrence from a reference day, when a stored occurrence is stale and when it is due.

  A location is a parameter as in the theory Calendar; the theorems rely on \<open>location_ok\<close>: every
  local day has a midnight, and midnights are ordered as their days. Durations between midnights are
  exact numbers of seconds, so the quotient of \<open>Hours()\<close> by 168, truncated, is the integer quotient.
\<close>

section \<open>Untyped values\<close>

text \<open>
  The dynamic values of a Firestore document (\<open>any\<close>). \<open>AFloat64 m e\<close> is the finite float \<open>m * 2 ^ e\<close>;
  its conversion to \<open>int\<close> truncates, and is meant for values that fit. \<open>ASentinel\<close> is one of the client's
  marker values (\<open>firestore.Delete\<close>, \<open>firestore.ServerTimestamp\<close>).
\<close>

datatype go_any =
    ANil | ABool bool | AString string | AInt int | AInt32 int | AInt64 int | AFloat64 int int
  | AAnys "go_any list" | AInts "int list" | ATime go_time | ASentinel string | AMap "string \<Rightarrow> go_any option"

type_synonym go_map = "string \<rightharpoonup> go_any"

text \<open>\<open>m[k]\<close>, where a missing key and a nil map give the nil value.\<close>

definition go_index :: "go_map option \<Rightarrow> string \<Rightarrow> go_any" where
  "go_index m k = (case m of None \<Rightarrow> ANil | Some f \<Rightarrow> (case f k of None \<Rightarrow> ANil | Some v \<Rightarrow> v))"

definition trunc_float :: "int \<Rightarrow> int \<Rightarrow> int" where
  "trunc_float m e = (if e \<ge> 0 then m * 2 ^ nat e else sgn m * (\<bar>m\<bar> div 2 ^ nat (- e)))"

definition asString :: "go_any \<Rightarrow> string option" where
  "asString v = (case v of AString s \<Rightarrow> Some s | _ \<Rightarrow> None)"

definition asInt :: "go_any \<Rightarrow> int option" where
  "asInt v =
     (case v of
        AInt i \<Rightarrow> Some i | AInt32 i \<Rightarrow> Some i | AInt64 i \<Rightarrow> Some i
      | AFloat64 m e \<Rightarrow> Some (trunc_float m e) | _ \<Rightarrow> None)"

definition asIntDefault :: "go_any \<Rightarrow> int \<Rightarrow> int" where
  "asIntDefault v fallback = (case asInt v of Some i \<Rightarrow> i | None \<Rightarrow> fallback)"

fun asInts :: "go_any list \<Rightarrow> int list option" where
  "asInts [] = Some []"
| "asInts (v # vs) =
     (case asInt v of
        None \<Rightarrow> None
      | Some i \<Rightarrow> (case asInts vs of None \<Rightarrow> None | Some is \<Rightarrow> Some (i # is)))"

definition asIntSlice :: "go_any \<Rightarrow> int list option" where
  "asIntSlice v = (case v of AAnys vs \<Rightarrow> asInts vs | AInts is \<Rightarrow> Some is | _ \<Rightarrow> None)"

section \<open>Rules\<close>

record rule =
  ru_Frequency :: string
  ru_Date :: string
  ru_Interval :: int
  ru_Weekdays :: "int list"
  ru_Weekday :: "int option"
  ru_MonthDay :: "int option"
  ru_Nth :: "int option"
  ru_Month :: "int option"

definition ParseRule :: "go_map option \<Rightarrow> rule option" where
  "ParseRule raw =
     (case raw of
        None \<Rightarrow> None
      | Some _ \<Rightarrow>
          (case asString (go_index raw ''frequency'') of
             None \<Rightarrow> None
           | Some frequency \<Rightarrow>
               if frequency = '''' then None
               else
                 let interval = asIntDefault (go_index raw ''interval'') 1
                 in Some \<lparr>ru_Frequency = frequency,
                      ru_Date = (case asString (go_index raw ''date'') of None \<Rightarrow> '''' | Some d \<Rightarrow> d),
                      ru_Interval = (if interval \<le> 0 then 1 else interval),
                      ru_Weekdays = (case asIntSlice (go_index raw ''weekdays'') of None \<Rightarrow> [] | Some ws \<Rightarrow> ws),
                      ru_Weekday = asInt (go_index raw ''weekday''),
                      ru_MonthDay = asInt (go_index raw ''month_day''),
                      ru_Nth = asInt (go_index raw ''nth''),
                      ru_Month = asInt (go_index raw ''month'')\<rparr>))"

section \<open>Days\<close>

text \<open>A \<open>DateOnly\<close> is a civil date.\<close>

definition toDateOnly :: "location \<Rightarrow> go_time \<Rightarrow> civil" where
  "toDateOnly loc t = localCivil loc t"

definition DateOnly_Time :: "civil \<Rightarrow> location \<Rightarrow> go_time" where
  "DateOnly_Time d loc = time_Date loc (cv_Year d) (cv_Month d) (cv_Day d) 0 0 0 0"

definition DateOnly_String :: "civil \<Rightarrow> string" where
  "DateOnly_String d = formatDate (localCivil UTC (DateOnly_Time d UTC))"

definition beginningOfDay :: "location \<Rightarrow> go_time \<Rightarrow> go_time" where
  "beginningOfDay loc t =
     (let c = localCivil loc t in time_Date loc (cv_Year c) (cv_Month c) (cv_Day c) 0 0 0 0)"

definition beginningOfMonth :: "location \<Rightarrow> go_time \<Rightarrow> go_time" where
  "beginningOfMonth loc t =
     (let c = localCivil loc t in time_Date loc (cv_Year c) (cv_Month c) 1 0 0 0 0)"

definition toContractWeekday :: "int \<Rightarrow> int" where
  "toContractWeekday wd =
     (if wd = 1 then 0 else if wd = 2 then 1 else if wd = 3 then 2 else if wd = 4 then 3
      else if wd = 5 then 4 else if wd = 6 then 5 else 6)"

definition monday :: "location \<Rightarrow> go_time \<Rightarrow> go_time" where
  "monday loc t =
     time_AddDate loc (beginningOfDay loc t) 0 0 (- toContractWeekday (time_Weekday loc t))"

definition isWeeklyIntervalMatch :: "location \<Rightarrow> go_time \<Rightarrow> go_time \<Rightarrow> int \<Rightarrow> bool" where
  "isWeeklyIntervalMatch loc start candidate interval \<longleftrightarrow>
     (time_Sub (monday loc candidate) (monday loc start) sdiv (24 * 7 * Hour)) smod interval = 0"

definition containsWeekday :: "int list \<Rightarrow> int \<Rightarrow> bool" where
  "containsWeekday items day = list_ex (\<lambda>v. v = day) items"

definition parseDate :: "string \<Rightarrow> location \<Rightarrow> go_time option" where
  "parseDate input loc =
     (if input = '''' then None
      else case parseISODate input of
             None \<Rightarrow> None
           | Some c \<Rightarrow> Some (beginningOfDay loc (time_Date loc (cv_Year c) (cv_Month c) (cv_Day c) 0 0 0 0)))"

section \<open>Next occurrence\<close>

text \<open>The first step of a bounded loop that returns a candidate.\<close>

fun first_some :: "('a \<Rightarrow> 'b option) \<Rightarrow> 'a list \<Rightarrow> 'b option" where
  "first_some f [] = None"
| "first_some f (x # xs) = (case f x of None \<Rightarrow> first_some f xs | Some y \<Rightarrow> Some y)"

definition weeklyWeekdays :: "rule \<Rightarrow> int list" where
  "weeklyWeekdays rule =
     sort (if ru_Weekdays rule = []
           then (case ru_Weekday rule of None \<Rightarrow> [] | Some w \<Rightarrow> [w])
           else ru_Weekdays rule)"

definition nextWeekly :: "rule \<Rightarrow> go_time \<Rightarrow> location \<Rightarrow> civil option" where
  "nextWeekly rule reference loc =
     (let weekdays = weeklyWeekdays rule in
      if weekdays = [] then None
      else first_some (\<lambda>offset.
             let candidate = time_AddDate loc reference 0 0 (int offset) in
             if \<not> isWeeklyIntervalMatch loc reference candidate (ru_Interval rule) then None
             else if containsWeekday weekdays (toContractWeekday (time_Weekday loc candidate))
             then Some (toDateOnly loc candidate) else None)
           [0..<370 * 3])"

definition nthWeekdayInMonth :: "int \<Rightarrow> int \<Rightarrow> int \<Rightarrow> int \<Rightarrow> location \<Rightarrow> go_time option" where
  "nthWeekdayInMonth year month weekday n loc =
     (if weekday < 0 \<or> weekday > 6 \<or> n = 0 then None
      else
        let matches = filter (\<lambda>c. toContractWeekday (time_Weekday loc c) = weekday)
              (takeWhile (\<lambda>c. cv_Month (localCivil loc c) = month)
                (map (\<lambda>d. time_Date loc year month (int d) 0 0 0 0) [1..<32]))
        in if matches = [] then None
           else if n = - 1 then Some (last matches)
           else if n < 0 \<or> n > int (length matches) then None
           else Some (matches ! nat (n - 1)))"

definition monthlyOccurrenceInMonth :: "rule \<Rightarrow> go_time \<Rightarrow> location \<Rightarrow> go_time option" where
  "monthlyOccurrenceInMonth rule monthStart loc =
     (let c = localCivil loc monthStart in
      case ru_MonthDay rule of
        Some day \<Rightarrow>
          if day < 1 \<or> day > 31 then None
          else
            let candidate = time_Date loc (cv_Year c) (cv_Month c) day 0 0 0 0
            in if cv_Month (localCivil loc candidate) \<noteq> cv_Month c then None else Some candidate
      | None \<Rightarrow>
          (case (ru_Weekday rule, ru_Nth rule) of
             (Some weekday, Some n) \<Rightarrow> nthWeekdayInMonth (cv_Year c) (cv_Month c) weekday n loc
           | _ \<Rightarrow> None))"

text \<open>A candidate of a month, unless it lies before the reference.\<close>

definition monthCandidate :: "rule \<Rightarrow> go_time \<Rightarrow> location \<Rightarrow> go_time \<Rightarrow> civil option" where
  "monthCandidate rule reference loc candidateMonth =
     (case monthlyOccurrenceInMonth rule candidateMonth loc of
        None \<Rightarrow> None
      | Some candidate \<Rightarrow>
          if time_Before candidate reference then None else Some (toDateOnly loc candidate))"

definition nextMonthly :: "rule \<Rightarrow> go_time \<Rightarrow> location \<Rightarrow> civil option" where
  "nextMonthly rule reference loc =
     first_some (\<lambda>step. monthCandidate rule reference loc
         (time_AddDate loc (beginningOfMonth loc reference) 0 (wrap64 (int step * ru_Interval rule)) 0))
       [0..<600]"

definition nextYearly :: "rule \<Rightarrow> go_time \<Rightarrow> location \<Rightarrow> civil option" where
  "nextYearly rule reference loc =
     (case ru_Month rule of
        None \<Rightarrow> None
      | Some month \<Rightarrow>
          if month < 1 \<or> month > 12 then None
          else first_some (\<lambda>step. monthCandidate rule reference loc
                 (time_Date loc (wrap64 (cv_Year (localCivil loc reference) + wrap64 (int step * ru_Interval rule)))
                    month 1 0 0 0 0))
               [0..<300])"

definition NextOccurrence :: "rule \<Rightarrow> go_time \<Rightarrow> location \<Rightarrow> civil option" where
  "NextOccurrence rule reference0 loc =
     (let reference = beginningOfDay loc reference0 in
      if ru_Frequency rule = ''once''
      then (case parseDate (ru_Date rule) loc of
              None \<Rightarrow> None
            | Some occurrence \<Rightarrow>
                if time_Before occurrence reference then None else Some (toDateOnly loc occurrence))
      else if ru_Frequency rule = ''weekly'' then nextWeekly rule reference loc
      else if ru_Frequency rule = ''monthly'' then nextMonthly rule reference loc
      else if ru_Frequency rule = ''yearly'' then nextYearly rule reference loc
      else None)"

section \<open>Eligibility\<close>

definition LeadDays :: int where "LeadDays = 7"
definition MissingDateKey :: string where "MissingDateKey = ''none''"
definition NextOccurrenceField :: string where "NextOccurrenceField = ''next_occurrence_date''"

definition EventDueKey :: "string \<Rightarrow> string \<Rightarrow> string" where
  "EventDueKey eventID nextOccurrenceDate =
     eventID @ ''_'' @ (if nextOccurrenceDate = '''' then MissingDateKey else nextOccurrenceDate)"

text \<open>The content hash; the JSON encoding and the digest are parameters, \<open>errText\<close> is \<open>err.Error()\<close>.\<close>

definition RecurrenceHash ::
  "(go_map option \<Rightarrow> gerror + string) \<Rightarrow> (gerror \<Rightarrow> string) \<Rightarrow> (string \<Rightarrow> string) \<Rightarrow> go_map option \<Rightarrow> string" where
  "RecurrenceHash marshal errText sha256 raw =
     take 12 (hex_encode (sha256 (case marshal raw of Inl e \<Rightarrow> errText e | Inr t \<Rightarrow> t)))"

definition StaleEventKey ::
  "(go_map option \<Rightarrow> gerror + string) \<Rightarrow> (gerror \<Rightarrow> string) \<Rightarrow> (string \<Rightarrow> string) \<Rightarrow> string \<Rightarrow> string \<Rightarrow>
     go_map option \<Rightarrow> string" where
  "StaleEventKey marshal errText sha256 eventID nextOccurrenceDate raw =
     EventDueKey eventID nextOccurrenceDate @ ''_'' @ RecurrenceHash marshal errText sha256 raw"

definition computeOccurrence :: "go_map option \<Rightarrow> go_time \<Rightarrow> location \<Rightarrow> string" where
  "computeOccurrence raw today loc =
     (case ParseRule raw of
        None \<Rightarrow> ''''
      | Some rule \<Rightarrow>
          (case NextOccurrence rule (beginningOfDay loc today) loc of
             None \<Rightarrow> ''''
           | Some occurrence \<Rightarrow> DateOnly_String occurrence))"

definition NeedsRecalculation :: "go_map option \<Rightarrow> string \<Rightarrow> go_time \<Rightarrow> location \<Rightarrow> bool" where
  "NeedsRecalculation raw storedDate today loc \<longleftrightarrow> computeOccurrence raw today loc \<noteq> storedDate"

definition IsDue :: "string \<Rightarrow> go_time \<Rightarrow> location \<Rightarrow> bool" where
  "IsDue nextOccurrenceDate today loc =
     (case parseDate nextOccurrenceDate loc of
        None \<Rightarrow> False
      | Some occurrence \<Rightarrow>
          (let day = beginningOfDay loc today
           in \<not> time_Before occurrence day \<and>
              \<not> time_After occurrence (time_AddDate loc day 0 0 LeadDays)))"

section \<open>Months\<close>

lemma dateDays_norm:
  "dateDays y m d = dateDays (y + (m - 1) div 12) ((m - 1) mod 12 + 1) d"
  by (simp add: dateDays_def)

lemma dateDays_from_0: "dateDays y m (int d) = dateDays y m 0 + int d"
  using dateDays_add [of y m 0 "int d"] by simp

lemma daysIn_pos: "1 \<le> m \<Longrightarrow> m \<le> 12 \<Longrightarrow> 28 \<le> daysIn y m \<and> daysIn y m \<le> 31"
  by (rule month_cases, assumption+; cases "leap y"; simp add: daysIn_def)

lemma daysIn_mod: "28 \<le> daysIn y (k mod 12 + 1) \<and> daysIn y (k mod 12 + 1) \<le> 31"
  by (rule daysIn_pos) (use pos_mod_bound [of 12 k] pos_mod_sign [of 12 k] in linarith)+

lemma dateDays_next_month:
  assumes "1 \<le> m" "m \<le> 12"
  shows "dateDays y (m + 1) d = dateDays y m (d + daysIn y m)"
proof (cases "m = 12")
  case True
  have "dateDays y 13 d = dateDays (y + 1) 1 d" using dateDays_norm [of y 13 d] by simp
  with True yearDays_Suc [of y] show ?thesis by (simp add: dateDays_valid daysIn_def split: if_splits)
next
  case False
  with assms show ?thesis by (simp add: dateDays_valid daysIn_def)
qed

lemma civilOf_dateDays:
  assumes "1 \<le> m" "m \<le> 12" "1 \<le> d" "d \<le> daysIn y m"
  shows "civilOf (dateDays y m d) = \<lparr>cv_Year = y, cv_Month = m, cv_Day = d\<rparr>"
proof -
  let ?c = "\<lparr>cv_Year = y, cv_Month = m, cv_Day = d\<rparr>"
  have "valid_civil ?c" using assms by (simp add: valid_civil_def)
  from civilOf_civilDays [OF this] show ?thesis by (simp add: civilDays_def)
qed

text \<open>A day past the end of its month falls in another one: what the overflow checks of the code rely on.\<close>

lemma month_overflow:
  assumes "1 \<le> m" "m \<le> 12" "1 \<le> d" "d \<le> 31"
  shows "cv_Month (civilOf (dateDays y m d)) = m \<longleftrightarrow> d \<le> daysIn y m"
proof (cases "d \<le> daysIn y m")
  case True
  with assms show ?thesis by (simp add: civilOf_dateDays)
next
  case False
  let ?d = "d - daysIn y m" and ?y = "y + m div 12" and ?m = "m mod 12 + 1"
  have "dateDays y m d = dateDays y (m + 1) ?d" by (simp add: dateDays_next_month [OF assms(1,2)])
  also have "\<dots> = dateDays ?y ?m ?d" using dateDays_norm [of y "m + 1" ?d] by simp
  finally have eq: "dateDays y m d = dateDays ?y ?m ?d" .
  have "1 \<le> ?m" "?m \<le> 12" by simp_all
  moreover have "1 \<le> ?d" "?d \<le> daysIn ?y ?m"
    using False assms(4) daysIn_pos [OF assms(1,2), of y] daysIn_mod [of ?y m] by linarith+
  ultimately have "cv_Month (civilOf (dateDays y m d)) = ?m" by (simp add: eq civilOf_dateDays)
  moreover have "?m \<noteq> m" using assms(1,2) by (cases "m = 12") simp_all
  ultimately show ?thesis using False by simp
qed

text \<open>Months counted from year 0, and the day each begins.\<close>

definition monthIndex :: "civil \<Rightarrow> int" where
  "monthIndex c = 12 * cv_Year c + cv_Month c - 1"

definition monthStart :: "int \<Rightarrow> int" where
  "monthStart M = dateDays (M div 12) (M mod 12 + 1) 1"

lemma monthStart_Suc: "monthStart (M + 1) = monthStart M + daysIn (M div 12) (M mod 12 + 1)"
proof -
  have "dateDays (M div 12) (M mod 12 + 1 + 1) 1 = monthStart M + daysIn (M div 12) (M mod 12 + 1)"
    by (subst dateDays_next_month) (simp_all add: monthStart_def dateDays_add)
  moreover have "dateDays (M div 12) (M mod 12 + 1 + 1) 1 = monthStart (M + 1)"
    unfolding monthStart_def dateDays_norm [of "M div 12" "M mod 12 + 1 + 1"]
    by (rule arg_cong2 [where f = "\<lambda>y m. dateDays y m 1"]) (simp add: div_add1_eq [of M 1], simp add: mod_simps add.commute)
  ultimately show ?thesis by simp
qed

lemma monthStart_mono: "M < N \<Longrightarrow> monthStart M < monthStart N"
proof (induction N rule: int_gr_induct [where k = M])
  case base
  then show ?case using monthStart_Suc [of M] daysIn_mod [of "M div 12" M] by linarith
next
  case (step N)
  then show ?case using monthStart_Suc [of N] daysIn_mod [of "N div 12" N] by linarith
qed

lemma monthIndex_divmod: "1 \<le> cv_Month c \<Longrightarrow> cv_Month c \<le> 12 \<Longrightarrow>
    monthIndex c div 12 = cv_Year c \<and> monthIndex c mod 12 + 1 = cv_Month c"
  unfolding monthIndex_def
  by (intro conjI int_div_pos_eq [of _ _ _ "cv_Month c - 1"]
      int_mod_pos_eq [of _ _ _ "cv_Month c - 1", THEN arg_cong [where f = "\<lambda>x. x + 1"], THEN trans]) simp_all

lemma month_index_eq:
  fixes m m' y k :: int
  assumes "1 \<le> m" "m \<le> 12" "1 \<le> m'" "m' \<le> 12" "12 * y + m = 12 * k + m'"
  shows "m = m' \<and> y = k"
proof -
  have "\<not> y < k" "\<not> k < y" using assms by linarith+
  with assms(5) show ?thesis by simp
qed

lemma civilDays_in_month:
  assumes "valid_civil c"
  shows "civilDays c = monthStart (monthIndex c) + cv_Day c - 1 \<and> civilDays c < monthStart (monthIndex c + 1)"
proof -
  have m: "monthIndex c div 12 = cv_Year c" "monthIndex c mod 12 + 1 = cv_Month c"
    using assms monthIndex_divmod [of c] by (auto simp: valid_civil_def)
  have s: "monthStart (monthIndex c) = dateDays (cv_Year c) (cv_Month c) 1" by (simp add: monthStart_def m)
  have "civilDays c = monthStart (monthIndex c) + (cv_Day c - 1)"
    using dateDays_add [of "cv_Year c" "cv_Month c" 1 "cv_Day c - 1"] by (simp add: s civilDays_def)
  with assms show ?thesis by (simp add: monthStart_Suc m valid_civil_def)
qed

lemma monthIndex_mono:
  assumes "n \<le> n'"
  shows "monthIndex (civilOf n) \<le> monthIndex (civilOf n')"
proof (rule ccontr)
  let ?M = "monthIndex (civilOf n)" and ?N = "monthIndex (civilOf n')"
  assume "\<not> ?thesis"
  then have "?N + 1 \<le> ?M" by simp
  then have "monthStart (?N + 1) \<le> monthStart ?M"
    using monthStart_mono [of "?N + 1" ?M] by (cases "?N + 1 = ?M") auto
  moreover have "1 \<le> cv_Day (civilOf n)" using civilOf_valid [of n] by (simp add: valid_civil_def)
  ultimately have "n' < n"
    using civilDays_in_month [OF civilOf_valid, of n] civilDays_in_month [OF civilOf_valid, of n'] by simp
  with assms show False by simp
qed

section \<open>Weekdays\<close>

text \<open>The weekday of a day number, 0 for Monday.\<close>

definition weekdayOf :: "int \<Rightarrow> int" where
  "weekdayOf n = (n + 3) mod 7"

lemma weekdayOf_range: "0 \<le> weekdayOf n \<and> weekdayOf n < 7"
  by (simp add: weekdayOf_def)

lemma toContractWeekday_mod: "toContractWeekday ((n + 4) mod 7) = weekdayOf n"
proof -
  have "(n + 4) mod 7 = (weekdayOf n + 1) mod 7" by (simp add: weekdayOf_def mod_simps add.commute)
  moreover have "weekdayOf n \<in> {0, 1, 2, 3, 4, 5, 6}" using weekdayOf_range [of n] by auto
  ultimately show ?thesis by (auto simp: toContractWeekday_def)
qed

lemma weekday_midnight:
  "location_ok loc \<Longrightarrow> toContractWeekday (time_Weekday loc (midnight loc n)) = weekdayOf n"
  by (simp add: time_Weekday_def localDay_midnight toContractWeekday_mod)

lemma beginningOfDay_midnight: "beginningOfDay loc t = midnight loc (localDay loc t)"
  by (simp add: beginningOfDay_def localCivil_def Let_def date_midnight)

lemma first_some_Some:
  "first_some f xs = Some y \<longleftrightarrow> (\<exists>i < length xs. f (xs ! i) = Some y \<and> (\<forall>j < i. f (xs ! j) = None))"
proof (induction xs)
  case (Cons x xs)
  show ?case
  proof (cases "f x")
    case None
    have "(\<exists>i < length (x # xs). f ((x # xs) ! i) = Some y \<and> (\<forall>j < i. f ((x # xs) ! j) = None)) \<longleftrightarrow>
        (\<exists>i < length xs. f (xs ! i) = Some y \<and> (\<forall>j < i. f (xs ! j) = None))" (is "?L \<longleftrightarrow> ?R")
    proof
      assume ?L
      then obtain i where i: "i < length (x # xs)" "f ((x # xs) ! i) = Some y" "\<forall>j < i. f ((x # xs) ! j) = None"
        by blast
      with None obtain k where "i = Suc k" by (cases i) auto
      with i show ?R by (intro exI [of _ k]) auto
    next
      assume ?R
      then obtain i where "i < length xs" "f (xs ! i) = Some y" "\<forall>j < i. f (xs ! j) = None" by blast
      with None show ?L by (intro exI [of _ "Suc i"]) (auto simp: nth_Cons split: nat.splits)
    qed
    with Cons None show ?thesis by simp
  next
    case (Some z)
    then show ?thesis by (auto intro!: exI [of _ 0]) (metis gr0I nth_Cons_0 option.distinct(1) option.inject)
  qed
qed simp

text \<open>How many of the days 1 to \<open>d\<close> fall on a weekday, and so which of them a match is.\<close>

lemma count_weekday:
  assumes "0 \<le> w" "w < 7"
  shows "int (length (filter (\<lambda>d. (b + int d) mod 7 = w) [1..<Suc d])) = (int d + (b - w) mod 7) div 7"
proof (induction d)
  case 0
  have "(b - w) mod 7 < 7" "0 \<le> (b - w) mod 7" by simp_all
  then show ?case by (simp add: div_pos_pos_trivial)
next
  case (Suc d)
  let ?e = "(b - w) mod 7"
  have "(b + int (Suc d)) mod 7 = w \<longleftrightarrow> (int (Suc d) + ?e) mod 7 = 0"
  proof -
    have "(b + int (Suc d)) mod 7 = w \<longleftrightarrow> (b + int (Suc d)) mod 7 = w mod 7" using assms by simp
    also have "\<dots> \<longleftrightarrow> (b + int (Suc d) - w) mod 7 = 0" by (simp only: mod_eq_dvd_iff mod_0_imp_dvd dvd_eq_mod_eq_0)
    also have "(b + int (Suc d) - w) mod 7 = (int (Suc d) + ?e) mod 7" by (simp only: mod_add_right_eq) (simp add: algebra_simps)
    finally show ?thesis .
  qed
  moreover have "(x + 1) div 7 = x div 7 + (if (x + 1) mod 7 = 0 then 1 else 0)" for x :: int by presburger
  from this [of "int d + ?e"]
  have "(int (Suc d) + ?e) div 7 = (int d + ?e) div 7 + (if (int (Suc d) + ?e) mod 7 = 0 then 1 else 0)"
    by (simp only: of_nat_Suc add.assoc add.commute [of ?e 1] add.commute [of "int d" "1 + ?e"] add.left_commute)
  moreover have "filter (\<lambda>d. (b + int d) mod 7 = w) [1..<Suc (Suc d)] =
      filter (\<lambda>d. (b + int d) mod 7 = w) [1..<Suc d] @ (if (b + int (Suc d)) mod 7 = w then [Suc d] else [])"
    by (simp add: upt_Suc [of 1 "Suc d"] del: of_nat_Suc)
  ultimately show ?case using Suc by (simp del: of_nat_Suc upt_Suc)
qed

lemma nth_filter:
  assumes "i < length xs" "P (xs ! i)"
  shows "length (filter P (take i xs)) < length (filter P xs) \<and> filter P xs ! length (filter P (take i xs)) = xs ! i"
proof -
  have "xs = take i xs @ xs ! i # drop (Suc i) xs" using assms(1) by (rule id_take_nth_drop)
  then have "filter P xs = filter P (take i xs) @ xs ! i # filter P (drop (Suc i) xs)"
    using assms(2) by (metis filter.simps(2) filter_append)
  then show ?thesis by simp
qed

text \<open>The days of a month of length \<open>L\<close> on a weekday, in order: day \<open>d\<close> is the one with index \<open>(d - 1) div 7\<close>.\<close>

definition weekdayDays :: "int \<Rightarrow> int \<Rightarrow> nat \<Rightarrow> nat list" where
  "weekdayDays b w L = filter (\<lambda>d. (b + int d) mod 7 = w) [1..<Suc L]"

lemma set_weekdayDays: "d \<in> set (weekdayDays b w L) \<longleftrightarrow> 1 \<le> d \<and> d \<le> L \<and> (b + int d) mod 7 = w"
  by (auto simp: weekdayDays_def)

lemma weekdayDays_index:
  assumes "0 \<le> w" "w < 7" "1 \<le> d" "d \<le> L" "(b + int d) mod 7 = w"
  shows "(d - 1) div 7 < length (weekdayDays b w L) \<and> weekdayDays b w L ! ((d - 1) div 7) = d"
proof -
  let ?P = "\<lambda>d. (b + int d) mod 7 = w" and ?e = "(b - w) mod 7"
  have t: "take (d - 1) [1..<Suc L] = [1..<Suc (d - 1)]" using assms(3,4) by (simp add: take_upt)
  have "(int d + ?e) mod 7 = 0"
  proof -
    have "(int d + ?e) mod 7 = (b + int d - w) mod 7" by (simp only: mod_add_right_eq) (simp add: algebra_simps)
    also have "\<dots> = 0" using assms(1,2,5) by (metis mod_pos_pos_trivial mod_eq_dvd_iff mod_eq_0_iff_dvd)
    finally show ?thesis .
  qed
  then obtain q where q: "int d + ?e = 7 * q" by (auto elim: dvdE simp: mod_eq_0_iff_dvd)
  have e: "0 \<le> ?e" "?e < 7" by simp_all
  have "(int (d - 1) + ?e) div 7 = q - 1" "int (d - 1) div 7 = q - 1"
    using q e assms(3) by (intro int_div_pos_eq [of _ _ _ 6] int_div_pos_eq [of _ _ _ "6 - ?e"]; simp add: of_nat_diff)+
  then have "(int (d - 1) + ?e) div 7 = int (d - 1) div 7" by simp
  then have "int (length (filter ?P (take (d - 1) [1..<Suc L]))) = int ((d - 1) div 7)"
    unfolding t count_weekday [OF assms(1,2)] by (simp add: zdiv_int)
  then have len: "length (filter ?P (take (d - 1) [1..<Suc L])) = (d - 1) div 7" by simp
  have "[1..<Suc L] ! (d - 1) = d" "d - 1 < length [1..<Suc L]" using assms(3,4) by (simp_all add: nth_upt del: upt_Suc)
  note u = this
  have "length (filter ?P (take (d - 1) [1..<Suc L])) < length (filter ?P [1..<Suc L]) \<and>
      filter ?P [1..<Suc L] ! length (filter ?P (take (d - 1) [1..<Suc L])) = [1..<Suc L] ! (d - 1)"
    by (rule nth_filter) (simp_all only: u assms(5))
  then show ?thesis unfolding len u(1) weekdayDays_def .
qed

lemma weekdayDays_nth:
  assumes "0 \<le> w" "w < 7" "k < length (weekdayDays b w L)"
  shows "k = (weekdayDays b w L ! k - 1) div 7"
proof -
  let ?xs = "weekdayDays b w L"
  have "?xs ! k \<in> set ?xs" using assms(3) by simp
  then have i: "(?xs ! k - 1) div 7 < length ?xs" "?xs ! ((?xs ! k - 1) div 7) = ?xs ! k"
    using weekdayDays_index [OF assms(1,2)] by (auto simp: set_weekdayDays)
  have "distinct ?xs" by (simp add: weekdayDays_def)
  with i assms(3) show ?thesis by (metis nth_eq_iff_index_eq)
qed

section \<open>Occurrences in a month\<close>

text \<open>The day is the \<open>n\<close>-th of its weekday in a month of length \<open>L\<close>; -1 asks for the last one.\<close>

definition nth_in_month :: "int \<Rightarrow> int \<Rightarrow> int \<Rightarrow> bool" where
  "nth_in_month L n d \<longleftrightarrow> n = (d - 1) div 7 + 1 \<or> n = - 1 \<and> d + 7 > L"

lemma same_weekday:
  assumes "(b + int d) mod 7 = w" "(b + int d') mod 7 = w" "d \<le> d'" "d' < d + 7"
  shows "d' = d"
proof -
  have "(7::int) dvd (b + int d') - (b + int d)" using assms(1,2) by (intro mod_eq_dvd_iff [THEN iffD1]) simp
  then have "(7::int) dvd int d' - int d" by simp
  moreover have "0 \<le> int d' - int d" "int d' - int d < 7" using assms(3,4) by simp_all
  ultimately show ?thesis by (metis (no_types) diff_eq_eq dvd_imp_le_int dvd_pos_nat add.left_neutral linorder_not_less
        of_nat_eq_iff abs_of_nonneg zdvd_not_zless order_le_less)
qed

lemma weekdayDays_position:
  assumes "0 \<le> w" "w < 7" "weekdayDays b w L \<noteq> []" "n = - 1 \<or> 0 < n \<and> n \<le> int (length (weekdayDays b w L))"
  shows "nth_in_month (int L) n (int (if n = - 1 then last (weekdayDays b w L) else weekdayDays b w L ! nat (n - 1)))"
proof (cases "n = - 1")
  case False
  let ?k = "nat (n - 1)" and ?xs = "weekdayDays b w L"
  have k: "?k < length ?xs" "int ?k = n - 1" using assms(4) False by auto
  then have "?xs ! ?k \<in> set ?xs" by simp
  then have "1 \<le> ?xs ! ?k" by (simp add: set_weekdayDays)
  with weekdayDays_nth [OF assms(1,2) k(1)] k(2) have "n = int ((?xs ! ?k - 1) div 7) + 1" by simp
  also have "int ((?xs ! ?k - 1) div 7) = (int (?xs ! ?k) - 1) div 7"
    using \<open>1 \<le> ?xs ! ?k\<close> by (simp add: zdiv_int of_nat_diff)
  finally show ?thesis unfolding nth_in_month_def if_not_P [OF False] by (rule disjI1)
next
  case True
  let ?xs = "weekdayDays b w L" and ?k = "length (weekdayDays b w L) - 1"
  define d where "d = last ?xs"
  have d: "d = ?xs ! ?k" "d \<in> set ?xs" using assms(3) by (simp_all add: d_def last_conv_nth)
  have i: "?k = (d - 1) div 7" using weekdayDays_nth [OF assms(1,2), of ?k b L] assms(3) by (simp add: d(1))
  have "\<not> d + 7 \<le> L"
  proof
    assume "d + 7 \<le> L"
    moreover have "(b + int (d + 7)) mod 7 = w" using d(2) by (simp add: set_weekdayDays add.assoc [symmetric])
    ultimately have "(d + 7 - 1) div 7 < length ?xs"
      using weekdayDays_index [OF assms(1,2), of "d + 7" L b] by simp
    moreover have "d + 7 - 1 = (d - 1) + 7" using d(2) by (simp add: set_weekdayDays)
    then have "(d + 7 - 1) div 7 = (d - 1) div 7 + 1" by (simp only: div_add_self2)
    ultimately show False using i by simp
  qed
  with True show ?thesis by (simp add: nth_in_month_def d_def)
qed

lemma weekdayDays_complete:
  assumes "0 \<le> w" "w < 7" "1 \<le> d" "d \<le> L" "(b + int d) mod 7 = w" "nth_in_month (int L) n (int d)"
  shows "(if n = - 1 then last (weekdayDays b w L) else weekdayDays b w L ! nat (n - 1)) = d \<and>
    (n = - 1 \<or> 0 < n \<and> n \<le> int (length (weekdayDays b w L)))"
proof (cases "n = - 1")
  case False
  note i = weekdayDays_index [OF assms(1-5)]
  have "n = int ((d - 1) div 7) + 1" using assms(3,6) False by (simp add: nth_in_month_def zdiv_int of_nat_diff)
  with i False show ?thesis by simp
next
  case True
  let ?xs = "weekdayDays b w L"
  note i = weekdayDays_index [OF assms(1-5)]
  define d' where "d' = last ?xs"
  have "0 < length ?xs" using i by linarith
  then have "?xs \<noteq> []" by blast
  then have d': "d' = ?xs ! (length ?xs - 1)" "d' \<in> set ?xs" using last_in_set [of ?xs] last_conv_nth [of ?xs] by (auto simp: d'_def)
  then have r: "1 \<le> d'" "d' \<le> L" "(b + int d') mod 7 = w" by (auto simp: set_weekdayDays)
  have "(d - 1) div 7 \<le> (d' - 1) div 7"
  proof -
    have "length ?xs - 1 < length ?xs" using \<open>0 < length ?xs\<close> by simp
    from weekdayDays_nth [OF assms(1,2) this] have "length ?xs - 1 = (d' - 1) div 7" by (simp only: d'(1))
    with i show ?thesis by linarith
  qed
  moreover have "0 \<le> int d" "int d + 7 > int L" using assms(6) True by (auto simp: nth_in_month_def pos_imp_zdiv_nonneg_iff)
  then have "d' < d + 7" using r(2) by linarith
  moreover have "d \<le> d'"
  proof (rule ccontr)
    assume "\<not> d \<le> d'"
    moreover have "\<not> d < d' + 7" if "d' \<le> d" "d \<noteq> d'" using same_weekday [OF r(3) assms(5) that(1)] that(2) by blast
    ultimately have "d' + 7 \<le> d" by simp
    then have "(d' - 1) div 7 + 1 \<le> (d - 1) div 7" using r(1) by simp
    with \<open>(d - 1) div 7 \<le> (d' - 1) div 7\<close> show False by simp
  qed
  ultimately have "d' = d" using same_weekday [OF assms(5) r(3)] by blast
  with True show ?thesis by (simp add: d'_def)
qed

lemma takeWhile_month:
  assumes "location_ok loc" "1 \<le> m" "m \<le> 12"
  shows "takeWhile (\<lambda>c. cv_Month (localCivil loc c) = m)
      (map (\<lambda>d. time_Date loc y m (int d) 0 0 0 0) [1..<32]) =
    map (\<lambda>d. midnight loc (dateDays y m (int d))) [1..<Suc (nat (daysIn y m))]"
proof -
  define L where "L = nat (daysIn y m)"
  have L: "28 \<le> L" "L \<le> 31" "int L = daysIn y m" using daysIn_pos [OF assms(2,3), of y] by (auto simp: L_def)
  let ?f = "\<lambda>d. midnight loc (dateDays y m (int d))"
  let ?P = "\<lambda>c. cv_Month (localCivil loc c) = m"
  have P: "?P (?f d) \<longleftrightarrow> d \<le> L" if "1 \<le> d" "d \<le> 31" for d
    using month_overflow [OF assms(2,3), of "int d" y] that by (simp add: localCivil_midnight [OF assms(1)] L(3) [symmetric])
  have split: "[1..<32] = [1..<Suc L] @ [Suc L..<32]"
    using L(1,2) upt_add_eq_append [of 1 "Suc L" "31 - L"] by simp
  have "takeWhile ?P (map ?f [Suc L..<32]) = []"
    using P [of "Suc L"] L(2) by (cases "L = 31") (simp_all add: upt_conv_Cons)
  then have "takeWhile ?P (map ?f [1..<Suc L] @ map ?f [Suc L..<32]) = map ?f [1..<Suc L]"
    using P L(2) by (subst takeWhile_append2) (auto simp del: upt_Suc)
  then show ?thesis
    unfolding time_Date_midnight L_def [symmetric] split map_append [symmetric] .
qed

lemma filter_weekday:
  assumes "location_ok loc" "1 \<le> m" "m \<le> 12"
  shows "filter (\<lambda>c. toContractWeekday (time_Weekday loc c) = w)
      (map (\<lambda>d. midnight loc (dateDays y m (int d))) [1..<Suc L]) =
    map (\<lambda>d. midnight loc (dateDays y m (int d))) (weekdayDays (dateDays y m 0 + 3) w L)"
  unfolding weekdayDays_def filter_map comp_def weekday_midnight [OF assms(1)]
  by (intro arg_cong [where f = "map _"] filter_cong refl)
    (simp add: weekdayOf_def dateDays_from_0 add.assoc add.commute add.left_commute)

lemma nthWeekday_iff:
  assumes "location_ok loc" "1 \<le> m" "m \<le> 12"
  shows "nthWeekdayInMonth y m w n loc = Some t \<longleftrightarrow>
    (\<exists>d. 1 \<le> d \<and> d \<le> daysIn y m \<and> weekdayOf (dateDays y m d) = w \<and> nth_in_month (daysIn y m) n d \<and>
       t = midnight loc (dateDays y m d))" (is "?L \<longleftrightarrow> ?R")
proof (cases "0 \<le> w \<and> w < 7 \<and> n \<noteq> 0")
  case False
  then have "nthWeekdayInMonth y m w n loc = None" by (auto simp: nthWeekdayInMonth_def)
  moreover have "0 \<le> (d - 1) div 7" if "1 \<le> d" for d :: int using that by (simp add: pos_imp_zdiv_nonneg_iff)
  ultimately show ?thesis
    using False weekdayOf_range by (fastforce simp: nth_in_month_def)
next
  case True
  then have w: "0 \<le> w" "w < 7" by auto
  define b where "b = dateDays y m 0 + 3"
  define L where "L = nat (daysIn y m)"
  have L: "28 \<le> L" "int L = daysIn y m" using daysIn_pos [OF assms(2,3), of y] by (auto simp: L_def)
  let ?xs = "weekdayDays b w L"
  let ?f = "\<lambda>d. midnight loc (dateDays y m (int d))"
  have wd: "weekdayOf (dateDays y m (int d)) = (b + int d) mod 7" for d
    using dateDays_add [of y m 0 "int d"] by (simp add: weekdayOf_def b_def algebra_simps)
  have "?xs \<noteq> []"
  proof -
    define d where "d = nat ((w - b - 1) mod 7 + 1)"
    have d: "int d = (w - b - 1) mod 7 + 1" "1 \<le> d" "d \<le> 7" by (auto simp: d_def)
    have "(b + int d) mod 7 = ((w - b - 1) mod 7 + (b + 1)) mod 7" by (simp add: d(1) algebra_simps)
    also have "\<dots> = w" unfolding mod_add_left_eq using w by simp
    finally have "(b + int d) mod 7 = w" .
    with d L(1) have "d \<in> set ?xs" by (simp add: set_weekdayDays)
    then show ?thesis by auto
  qed
  then have val: "nthWeekdayInMonth y m w n loc =
      (if n = - 1 then Some (?f (last ?xs)) else if n < 0 \<or> n > int (length ?xs) then None
       else Some (?f (?xs ! nat (n - 1))))"
    unfolding nthWeekdayInMonth_def takeWhile_month [OF assms] filter_weekday [OF assms] L_def [symmetric]
      b_def [symmetric] Let_def
    using True by (auto simp: last_map nth_map)
  have sound: "nth_in_month (daysIn y m) n (int d)"
    if "d = (if n = - 1 then last ?xs else ?xs ! nat (n - 1))" "n = - 1 \<or> 0 < n \<and> n \<le> int (length ?xs)" for d
    using weekdayDays_position [OF w \<open>?xs \<noteq> []\<close>, of n] that by (simp add: L(2))
  have complete: "(if n = - 1 then last ?xs else ?xs ! nat (n - 1)) = nat d \<and> (n = - 1 \<or> 0 < n \<and> n \<le> int (length ?xs))"
    if "1 \<le> d" "d \<le> daysIn y m" "weekdayOf (dateDays y m d) = w" "nth_in_month (daysIn y m) n d" for d
  proof (rule weekdayDays_complete [OF w])
    show "1 \<le> nat d" "nat d \<le> L" using that(1,2) by (simp_all add: L_def)
    show "(b + int (nat d)) mod 7 = w" using wd [of "nat d"] that(1,3) by simp
    show "nth_in_month (int L) n (int (nat d))" using that(1,4) by (simp add: L(2))
  qed
  show ?thesis
  proof
    assume ?L
    then have n: "n = - 1 \<or> 0 < n \<and> n \<le> int (length ?xs)" using True by (auto simp: val split: if_splits)
    define d where "d = (if n = - 1 then last ?xs else ?xs ! nat (n - 1))"
    have "d \<in> set ?xs" using n \<open>?xs \<noteq> []\<close> by (auto simp: d_def)
    with sound [OF d_def n] \<open>?L\<close> show ?R
      by (intro exI [of _ "int d"]) (auto simp: set_weekdayDays wd L(2) [symmetric] val d_def split: if_splits)
  next
    assume ?R
    then obtain d where d: "1 \<le> d" "d \<le> daysIn y m" "weekdayOf (dateDays y m d) = w"
      "nth_in_month (daysIn y m) n d" "t = midnight loc (dateDays y m d)" by blast
    with complete [OF d(1-4)] show ?L by (auto simp: val)
  qed
qed

section \<open>What a rule means\<close>

text \<open>The days of a month that a monthly or yearly rule names.\<close>

definition month_rule :: "rule \<Rightarrow> civil \<Rightarrow> bool" where
  "month_rule rule c \<longleftrightarrow>
     (case ru_MonthDay rule of
        Some k \<Rightarrow> cv_Day c = k
      | None \<Rightarrow>
          (case (ru_Weekday rule, ru_Nth rule) of
             (Some w, Some n) \<Rightarrow> weekdayOf (civilDays c) = w \<and>
               nth_in_month (daysIn (cv_Year c) (cv_Month c)) n (cv_Day c)
           | _ \<Rightarrow> False))"

text \<open>The days a rule names, whatever the reference and the interval.\<close>

definition occurs_on :: "rule \<Rightarrow> civil \<Rightarrow> bool" where
  "occurs_on rule c \<longleftrightarrow> valid_civil c \<and>
     (if ru_Frequency rule = ''once'' then parseISODate (ru_Date rule) = Some c
      else if ru_Frequency rule = ''weekly'' then weekdayOf (civilDays c) \<in> set (weeklyWeekdays rule)
      else if ru_Frequency rule = ''monthly'' then month_rule rule c
      else if ru_Frequency rule = ''yearly'' then ru_Month rule = Some (cv_Month c) \<and> month_rule rule c
      else False)"

lemma civil_fields [simp]: "\<lparr>cv_Year = cv_Year c, cv_Month = cv_Month c, cv_Day = cv_Day c\<rparr> = c"
  by simp

lemma valid_civil_dateDays:
  "1 \<le> m \<Longrightarrow> m \<le> 12 \<Longrightarrow> 1 \<le> d \<Longrightarrow> d \<le> daysIn y m \<Longrightarrow> valid_civil \<lparr>cv_Year = y, cv_Month = m, cv_Day = d\<rparr>"
  by (simp add: valid_civil_def)

lemma monthlyOccurrence_iff:
  assumes "location_ok loc" "1 \<le> m" "m \<le> 12"
  shows "monthlyOccurrenceInMonth rule (midnight loc (dateDays y m 1)) loc = Some t \<longleftrightarrow>
    (\<exists>c. valid_civil c \<and> cv_Year c = y \<and> cv_Month c = m \<and> month_rule rule c \<and> t = midnight loc (civilDays c))"
    (is "?L \<longleftrightarrow> ?R")
proof -
  have start: "civilOf (dateDays y m 1) = \<lparr>cv_Year = y, cv_Month = m, cv_Day = 1\<rparr>"
    using daysIn_pos [OF assms(2,3), of y] assms by (simp add: civilOf_dateDays)
  have R: "?R \<longleftrightarrow> (\<exists>d. 1 \<le> d \<and> d \<le> daysIn y m \<and> month_rule rule \<lparr>cv_Year = y, cv_Month = m, cv_Day = d\<rparr> \<and>
      t = midnight loc (dateDays y m d))"
  proof
    assume ?R
    then obtain c where "valid_civil c" "cv_Year c = y" "cv_Month c = m" "month_rule rule c" "t = midnight loc (civilDays c)"
      by blast
    then show "\<exists>d. 1 \<le> d \<and> d \<le> daysIn y m \<and> month_rule rule \<lparr>cv_Year = y, cv_Month = m, cv_Day = d\<rparr> \<and>
      t = midnight loc (dateDays y m d)"
      by (intro exI [of _ "cv_Day c"]) (auto simp: valid_civil_def civilDays_def)
  next
    assume "\<exists>d. 1 \<le> d \<and> d \<le> daysIn y m \<and> month_rule rule \<lparr>cv_Year = y, cv_Month = m, cv_Day = d\<rparr> \<and>
      t = midnight loc (dateDays y m d)"
    then obtain d where "1 \<le> d" "d \<le> daysIn y m" "month_rule rule \<lparr>cv_Year = y, cv_Month = m, cv_Day = d\<rparr>"
      "t = midnight loc (dateDays y m d)" by blast
    then show ?R using assms(2,3)
      by (intro exI [of _ "\<lparr>cv_Year = y, cv_Month = m, cv_Day = d\<rparr>"]) (simp add: valid_civil_dateDays civilDays_def)
  qed
  show ?thesis
  proof (cases "ru_MonthDay rule")
    case (Some k)
    have "?L \<longleftrightarrow> 1 \<le> k \<and> k \<le> 31 \<and> k \<le> daysIn y m \<and> t = midnight loc (dateDays y m k)"
      using month_overflow [OF assms(2,3), of k y]
      by (auto simp: monthlyOccurrenceInMonth_def start Some Let_def time_Date_midnight
          localCivil_midnight [OF assms(1)] not_less)
    moreover have "daysIn y m \<le> 31" using daysIn_pos [OF assms(2,3)] by simp
    ultimately show ?thesis unfolding R by (auto simp: month_rule_def Some)
  next
    case None
    show ?thesis unfolding R
      by (auto simp: monthlyOccurrenceInMonth_def start localCivil_midnight [OF assms(1)] None Let_def nthWeekday_iff [OF assms] month_rule_def
          civilDays_def split: option.splits)
  qed
qed

lemma month_rule_unique:
  assumes "valid_civil c" "valid_civil c'" "cv_Year c = cv_Year c'" "cv_Month c = cv_Month c'"
    "month_rule rule c" "month_rule rule c'"
  shows "c = c'"
proof -
  have m: "1 \<le> cv_Month c" "cv_Month c \<le> 12" using assms(1) by (auto simp: valid_civil_def)
  obtain loc where loc: "location_ok loc" using location_ok_UTC by blast
  have "monthlyOccurrenceInMonth rule (midnight loc (dateDays (cv_Year c) (cv_Month c) 1)) loc = Some (midnight loc (civilDays c))"
    by (rule monthlyOccurrence_iff [OF loc m, THEN iffD2]) (intro exI [of _ c] conjI refl assms)
  moreover have "monthlyOccurrenceInMonth rule (midnight loc (dateDays (cv_Year c) (cv_Month c) 1)) loc = Some (midnight loc (civilDays c'))"
    by (rule monthlyOccurrence_iff [OF loc m, THEN iffD2]) (intro exI [of _ c'] conjI refl assms assms(3,4) [symmetric])
  ultimately have "civilDays c = civilDays c'" using midnight_inject [OF loc] by simp
  then show ?thesis using civilOf_civilDays [OF assms(1)] civilOf_civilDays [OF assms(2)] by metis
qed

lemma monthCandidate_iff:
  assumes "location_ok loc" "1 \<le> m" "m \<le> 12"
  shows "monthCandidate rule (midnight loc r) loc (midnight loc (dateDays y m 1)) = Some c \<longleftrightarrow>
    valid_civil c \<and> cv_Year c = y \<and> cv_Month c = m \<and> month_rule rule c \<and> r \<le> civilDays c"
proof -
  have "monthCandidate rule (midnight loc r) loc (midnight loc (dateDays y m 1)) = Some c \<longleftrightarrow>
      (\<exists>t. monthlyOccurrenceInMonth rule (midnight loc (dateDays y m 1)) loc = Some t \<and> \<not> t < midnight loc r \<and>
         c = localCivil loc t)"
    by (auto simp: monthCandidate_def toDateOnly_def time_Before_def split: option.splits)
  also have "\<dots> \<longleftrightarrow> valid_civil c \<and> cv_Year c = y \<and> cv_Month c = m \<and> month_rule rule c \<and> r \<le> civilDays c"
    unfolding monthlyOccurrence_iff [OF assms]
    by (auto simp: midnight_le [OF assms(1)] localCivil_midnight [OF assms(1)] not_less
        intro!: exI [of _ "midnight loc (civilDays c)"])
  finally show ?thesis .
qed

section \<open>Next occurrences\<close>

lemma dateDays_monthStart: "dateDays y m 1 = monthStart (12 * y + m - 1)"
proof -
  have "(12 * y + m - 1) div 12 = y + (m - 1) div 12" "(12 * y + m - 1) mod 12 = (m - 1) mod 12"
    using div_mult_self4 [of 12 y "m - 1"] mod_mult_self4 [of 12 y "m - 1"] by (simp_all add: algebra_simps)
  then show ?thesis using dateDays_norm [of y m 1] by (simp add: monthStart_def)
qed

lemma monthCandidate_index:
  assumes "location_ok loc"
  shows "monthCandidate rule (midnight loc r) loc (midnight loc (monthStart M)) = Some c \<longleftrightarrow>
    valid_civil c \<and> monthIndex c = M \<and> month_rule rule c \<and> r \<le> civilDays c"
proof -
  have m: "1 \<le> M mod 12 + 1" "M mod 12 + 1 \<le> 12" by simp_all
  have "cv_Year c = M div 12 \<and> cv_Month c = M mod 12 + 1 \<longleftrightarrow> monthIndex c = M" if "valid_civil c"
    using monthIndex_divmod [of c] that by (auto simp: valid_civil_def monthIndex_def)
  then show ?thesis unfolding monthStart_def monthCandidate_iff [OF assms m] by blast
qed

lemma monthStart_civil: "dateDays (cv_Year c) (cv_Month c) 1 = monthStart (monthIndex c)"
  by (simp add: dateDays_monthStart monthIndex_def)

lemma beginningOfMonth_midnight:
  "location_ok loc \<Longrightarrow> beginningOfMonth loc (midnight loc r) = midnight loc (monthStart (monthIndex (civilOf r)))"
  by (simp add: beginningOfMonth_def localCivil_midnight time_Date_midnight monthStart_civil Let_def)

lemma AddDate_months:
  assumes "location_ok loc"
  shows "time_AddDate loc (midnight loc (monthStart M)) 0 k 0 = midnight loc (monthStart (M + k))"
proof -
  have m: "1 \<le> M mod 12 + 1" "M mod 12 + 1 \<le> 12" by simp_all
  have c: "localCivil loc (midnight loc (monthStart M)) = \<lparr>cv_Year = M div 12, cv_Month = M mod 12 + 1, cv_Day = 1\<rparr>"
    using daysIn_pos [OF m, of "M div 12"] by (simp add: localCivil_midnight [OF assms] monthStart_def civilOf_dateDays)
  have "midnight loc (monthStart M) mod Second = 0" "localSeconds loc (midnight loc (monthStart M)) mod 86400 = 0"
    using assms by (simp_all add: midnight_def location_ok_def)
  moreover have "dateDays (M div 12) (M mod 12 + 1 + k) 1 = monthStart (M + k)"
    unfolding dateDays_monthStart by (rule arg_cong [where f = monthStart]) simp
  ultimately show ?thesis by (simp add: time_AddDate_def c Let_def time_Date_midnight)
qed

text \<open>The candidates of the three loops, as conditions on days.\<close>

definition weeklyCandidate :: "rule \<Rightarrow> location \<Rightarrow> int \<Rightarrow> nat \<Rightarrow> civil option" where
  "weeklyCandidate rule loc r offset =
     (if isWeeklyIntervalMatch loc (midnight loc r) (midnight loc (r + int offset)) (ru_Interval rule) \<and>
         weekdayOf (r + int offset) \<in> set (weeklyWeekdays rule)
      then Some (civilOf (r + int offset)) else None)"

lemma nextWeekly_first:
  assumes "location_ok loc"
  shows "nextWeekly rule (midnight loc r) loc = first_some (weeklyCandidate rule loc r) [0..<1110]"
proof -
  have "(let candidate = time_AddDate loc (midnight loc r) 0 0 (int offset) in
      if \<not> isWeeklyIntervalMatch loc (midnight loc r) candidate (ru_Interval rule) then None
      else if containsWeekday (weeklyWeekdays rule) (toContractWeekday (time_Weekday loc candidate))
      then Some (toDateOnly loc candidate) else None) = weeklyCandidate rule loc r offset" for offset
    by (simp add: Let_def AddDate_midnight [OF assms] weekday_midnight [OF assms] toDateOnly_def
        localCivil_midnight [OF assms] containsWeekday_def list_ex_iff weeklyCandidate_def)
  then have step: "(\<lambda>offset. let candidate = time_AddDate loc (midnight loc r) 0 0 (int offset) in
      if \<not> isWeeklyIntervalMatch loc (midnight loc r) candidate (ru_Interval rule) then None
      else if containsWeekday (weeklyWeekdays rule) (toContractWeekday (time_Weekday loc candidate))
      then Some (toDateOnly loc candidate) else None) = weeklyCandidate rule loc r" by blast
  have "first_some (weeklyCandidate rule loc r) xs = None" if "weeklyWeekdays rule = []" for xs
    using that by (induction xs) (simp_all add: weeklyCandidate_def)
  then show ?thesis unfolding nextWeekly_def Let_def step [unfolded Let_def] by simp
qed

lemma nextMonthly_first:
  assumes "location_ok loc"
  shows "nextMonthly rule (midnight loc r) loc = first_some (\<lambda>step. monthCandidate rule (midnight loc r) loc
    (midnight loc (monthStart (monthIndex (civilOf r) + wrap64 (int step * ru_Interval rule))))) [0..<600]"
  by (simp add: nextMonthly_def beginningOfMonth_midnight [OF assms] AddDate_months [OF assms])

lemma nextYearly_first:
  assumes "location_ok loc" "ru_Month rule = Some m" "1 \<le> m" "m \<le> 12"
  shows "nextYearly rule (midnight loc r) loc = first_some (\<lambda>step. monthCandidate rule (midnight loc r) loc
    (midnight loc (monthStart (12 * wrap64 (cv_Year (civilOf r) + wrap64 (int step * ru_Interval rule)) + m - 1)))) [0..<300]"
  using assms by (simp add: nextYearly_def localCivil_midnight time_Date_midnight dateDays_monthStart)

lemma first_some_SomeD: "first_some f xs = Some y \<Longrightarrow> \<exists>x \<in> set xs. f x = Some y"
  unfolding first_some_Some using nth_mem by blast

lemma parseDate_iff:
  assumes "location_ok loc"
  shows "parseDate s loc = Some t \<longleftrightarrow> (\<exists>c. parseISODate s = Some c \<and> t = midnight loc (civilDays c))"
  by (auto simp: parseDate_def beginningOfDay_midnight time_Date_midnight localDay_midnight [OF assms] civilDays_def
      parseISODate_def split: option.splits)

lemma parseISODate_valid: "parseISODate s = Some c \<Longrightarrow> valid_civil c"
  by (auto simp: parseISODate_def valid_civil_def Let_def split: if_splits option.splits)

lemma next_occurrence_occurs:
  assumes "location_ok loc" "NextOccurrence rule reference loc = Some c"
  shows "occurs_on rule c \<and> localDay loc reference \<le> civilDays c"
proof -
  define r where "r = localDay loc reference"
  have ref: "beginningOfDay loc reference = midnight loc r" by (simp add: beginningOfDay_midnight r_def)
  consider "ru_Frequency rule = ''once''" | "ru_Frequency rule = ''weekly''" | "ru_Frequency rule = ''monthly''"
    | "ru_Frequency rule = ''yearly''"
    using assms(2) by (auto simp: NextOccurrence_def Let_def split: if_splits)
  then have "occurs_on rule c \<and> r \<le> civilDays c"
  proof cases
    case 1
    with assms(2) obtain d where "parseISODate (ru_Date rule) = Some d" "c = civilOf (civilDays d)" "r \<le> civilDays d"
      by (auto simp: NextOccurrence_def Let_def ref parseDate_iff [OF assms(1)] toDateOnly_def time_Before_def
          localCivil_midnight [OF assms(1)] midnight_le [OF assms(1)] not_less split: option.splits if_splits)
    with 1 show ?thesis by (simp add: occurs_on_def parseISODate_valid)
  next
    case 2
    with assms(2) have "first_some (weeklyCandidate rule loc r) [0..<1110] = Some c"
      by (simp add: NextOccurrence_def Let_def ref nextWeekly_first [OF assms(1)])
    from first_some_SomeD [OF this] 2 show ?thesis
      by (auto simp: weeklyCandidate_def occurs_on_def civilOf_valid split: if_splits)
  next
    case 3
    with assms(2) have "nextMonthly rule (midnight loc r) loc = Some c"
      by (simp add: NextOccurrence_def Let_def ref)
    from first_some_SomeD [OF this [unfolded nextMonthly_first [OF assms(1)]]] 3 show ?thesis
      by (auto simp: monthCandidate_index [OF assms(1)] occurs_on_def)
  next
    case 4
    with assms(2) have y: "nextYearly rule (midnight loc r) loc = Some c"
      by (simp add: NextOccurrence_def Let_def ref)
    then obtain m where m: "ru_Month rule = Some m" "1 \<le> m" "m \<le> 12"
      by (auto simp: nextYearly_def split: option.splits if_splits)
    from first_some_SomeD [OF y [unfolded nextYearly_first [OF assms(1) m]]] obtain k where
      "valid_civil c" "monthIndex c = 12 * k + m - 1" "month_rule rule c" "r \<le> civilDays c"
      by (auto simp: monthCandidate_index [OF assms(1)])
    moreover from this have "cv_Month c = m"
      using month_index_eq [of "cv_Month c" m "cv_Year c" k] m(2,3) by (simp add: valid_civil_def monthIndex_def)
    ultimately show ?thesis using 4 m(1) by (simp add: occurs_on_def)
  qed
  then show ?thesis by (simp add: r_def)
qed

lemma first_some_upt:
  "first_some f [0..<N] = Some y \<Longrightarrow> \<exists>i < N. f i = Some y \<and> (\<forall>j < i. f j = None)"
  unfolding first_some_Some by (metis add_0 diff_zero length_upt less_trans nth_upt)

lemma month_earliest:
  assumes loc: "location_ok loc" and occ: "valid_civil c" "monthIndex c = M i" "month_rule rule c"
    and none: "\<And>j. j < i \<Longrightarrow> monthCandidate rule (midnight loc r) loc (midnight loc (monthStart (M j))) = None"
    and n: "r \<le> n" "n < civilDays c" "month_rule rule (civilOf n)"
    and j: "monthIndex (civilOf n) = M j" "j \<le> (i :: nat)"
  shows False
proof (cases "j = i")
  case True
  have "cv_Year c = cv_Year (civilOf n) \<and> cv_Month c = cv_Month (civilOf n)"
    using month_index_eq [of "cv_Month c" "cv_Month (civilOf n)" "cv_Year c" "cv_Year (civilOf n)"] occ(1,2) j(1) True
      civilOf_valid [of n] by (simp add: valid_civil_def monthIndex_def)
  with month_rule_unique [OF occ(1) civilOf_valid _ _ occ(3) n(3)] have "c = civilOf n" by blast
  with n(2) show False by simp
next
  case False
  with j(2) have "j < i" by simp
  moreover have "monthCandidate rule (midnight loc r) loc (midnight loc (monthStart (M j))) = Some (civilOf n)"
    using n(1,3) by (simp add: monthCandidate_index [OF loc] civilOf_valid j(1))
  ultimately show False using none by simp
qed

text \<open>The three repeating frequencies, asked from the day \<open>r\<close> on.\<close>

lemma weekly_earliest:
  assumes loc: "location_ok loc" and y: "first_some (weeklyCandidate rule loc r) [0..<1110] = Some c"
    and one: "ru_Interval rule = 1" and n: "r \<le> n" "n < civilDays c"
    and f: "ru_Frequency rule = ''weekly''" and occ: "occurs_on rule (civilOf n)"
  shows False
proof -
  from first_some_upt [OF y] obtain i where i: "weeklyCandidate rule loc r i = Some c"
    "\<forall>j < i. weeklyCandidate rule loc r j = None" by blast
  define j where "j = nat (n - r)"
  have j: "n = r + int j" using n(1) by (simp add: j_def)
  from i(1) n(2) j have "j < i" by (auto simp: weeklyCandidate_def split: if_splits)
  with i(2) have "weeklyCandidate rule loc r j = None" by blast
  moreover have "isWeeklyIntervalMatch loc s t 1" for s t
    by (simp add: isWeeklyIntervalMatch_def signed_modulo_int_def)
  ultimately show False using occ f one j by (simp add: weeklyCandidate_def occurs_on_def)
qed

lemma monthly_earliest:
  assumes loc: "location_ok loc" and y: "nextMonthly rule (midnight loc r) loc = Some c"
    and one: "ru_Interval rule = 1" and n: "r \<le> n" "n < civilDays c"
    and f: "ru_Frequency rule = ''monthly''" and occ: "occurs_on rule (civilOf n)"
  shows False
proof -
  from first_some_upt [OF y [unfolded nextMonthly_first [OF loc]]] one obtain i where
    i: "i < 600" "valid_civil c" "monthIndex c = monthIndex (civilOf r) + int i" "month_rule rule c"
    "\<forall>j < i. monthCandidate rule (midnight loc r) loc (midnight loc (monthStart (monthIndex (civilOf r) + int j))) = None"
    by (auto simp: monthCandidate_index [OF loc])
  have "month_rule rule (civilOf n)" using occ f by (simp add: occurs_on_def)
  moreover obtain j where "monthIndex (civilOf n) = monthIndex (civilOf r) + int j" "j \<le> i"
    using monthIndex_mono [OF n(1)] monthIndex_mono [of n "civilDays c"] n(2) i(2,3)
    by (intro that [of "nat (monthIndex (civilOf n) - monthIndex (civilOf r))"]) simp_all
  ultimately show False
    using month_earliest [OF loc i(2), of "\<lambda>j. monthIndex (civilOf r) + int j" i rule r n j] i(3-5) n by blast
qed

text \<open>A year that runs over 62 bits would wrap around.\<close>

lemma yearly_earliest:
  assumes loc: "location_ok loc" and y: "nextYearly rule (midnight loc r) loc = Some c"
    and one: "ru_Interval rule = 1" and n: "r \<le> n" "n < civilDays c"
    and f: "ru_Frequency rule = ''yearly''" and occ: "occurs_on rule (civilOf n)"
    and small: "\<bar>cv_Year (civilOf r)\<bar> < 2 ^ 62"
  shows False
proof -
  from y obtain m where m: "ru_Month rule = Some m" "1 \<le> m" "m \<le> 12"
    by (auto simp: nextYearly_def split: option.splits if_splits)
  let ?Y = "cv_Year (civilOf r)" and ?y = "cv_Year (civilOf n)"
  have w: "wrap64 (?Y + wrap64 (int j * 1)) = ?Y + int j" if "j < 300" for j
    using small that by simp
  from first_some_upt [OF y [unfolded nextYearly_first [OF loc m] one]] obtain i where
    "i < 300" "monthCandidate rule (midnight loc r) loc
       (midnight loc (monthStart (12 * wrap64 (?Y + wrap64 (int i * 1)) + m - 1))) = Some c"
    "\<forall>j < i. monthCandidate rule (midnight loc r) loc
       (midnight loc (monthStart (12 * wrap64 (?Y + wrap64 (int j * 1)) + m - 1))) = None" by blast
  then have i: "i < 300" "valid_civil c" "monthIndex c = 12 * (?Y + int i) + m - 1" "month_rule rule c"
    "\<forall>j < i. monthCandidate rule (midnight loc r) loc (midnight loc (monthStart (12 * (?Y + int j) + m - 1))) = None"
    using w by (simp_all add: monthCandidate_index [OF loc] del: mult_1_right)
  have mn: "month_rule rule (civilOf n)" "cv_Month (civilOf n) = m" using occ f m(1) by (auto simp: occurs_on_def)
  have "12 * ?Y + cv_Month (civilOf r) - 1 \<le> 12 * ?y + m - 1"
    using monthIndex_mono [OF n(1)] by (simp add: monthIndex_def mn(2))
  moreover have "1 \<le> cv_Month (civilOf r)" using civilOf_valid [of r] by (simp add: valid_civil_def)
  ultimately have "?Y \<le> ?y" using m(3) by linarith
  moreover have "monthIndex (civilOf n) \<le> monthIndex c"
    using monthIndex_mono [of n "civilDays c"] n(2) i(2) by simp
  then have "?y \<le> ?Y + int i" unfolding i(3) by (simp add: monthIndex_def mn(2))
  ultimately have "monthIndex (civilOf n) = 12 * (?Y + int (nat (?y - ?Y))) + m - 1" "nat (?y - ?Y) \<le> i"
    by (simp_all add: monthIndex_def mn(2))
  then show False
    using month_earliest [OF loc i(2), of "\<lambda>j. 12 * (?Y + int j) + m - 1" i rule r n "nat (?y - ?Y)"] i(3-5) n mn(1)
    by blast
qed

text \<open>
  An occurrence that is computed is right: it is a valid date, it is one the rule names (the given
  date, a listed weekday, the given day or n-th weekday of a month, in the given month of a year),
  and it is not before the day of the reference.
\<close>

theorem next_occurrence_sound:
  assumes "location_ok loc" "NextOccurrence rule reference loc = Some c"
  shows "occurs_on rule c \<and> localDay loc reference \<le> civilDays c"
  using assms by (rule next_occurrence_occurs)

text \<open>
  C29: with interval 1 the occurrence computed is the earliest: no day from the reference on and before it
  is one the rule names.
\<close>

theorem next_occurrence_earliest:
  assumes "location_ok loc" "NextOccurrence rule reference loc = Some c" "ru_Interval rule = 1"
    and "\<bar>cv_Year (localCivil loc reference)\<bar> < 2 ^ 62"
    and "localDay loc reference \<le> n" "n < civilDays c"
  shows "\<not> occurs_on rule (civilOf n)"
proof
  define r where "r = localDay loc reference"
  have ref: "beginningOfDay loc reference = midnight loc r" by (simp add: beginningOfDay_midnight r_def)
  have n: "r \<le> n" "n < civilDays c" using assms(5,6) by (simp_all add: r_def)
  assume occ: "occurs_on rule (civilOf n)"
  consider "ru_Frequency rule = ''once''" | "ru_Frequency rule = ''weekly''" | "ru_Frequency rule = ''monthly''"
    | "ru_Frequency rule = ''yearly''"
    using assms(2) by (auto simp: NextOccurrence_def Let_def split: if_splits)
  then show False
  proof cases
    case 1
    have "occurs_on rule c" using next_occurrence_occurs [OF assms(1,2)] by blast
    with occ 1 have "c = civilOf n" by (simp add: occurs_on_def)
    with n(2) show False by simp
  next
    case 2
    with assms(2) have "first_some (weeklyCandidate rule loc r) [0..<1110] = Some c"
      by (simp add: NextOccurrence_def Let_def ref nextWeekly_first [OF assms(1)])
    from weekly_earliest [OF assms(1) this assms(3) n 2 occ] show False .
  next
    case 3
    with assms(2) have "nextMonthly rule (midnight loc r) loc = Some c"
      by (simp add: NextOccurrence_def Let_def ref)
    from monthly_earliest [OF assms(1) this assms(3) n 3 occ] show False .
  next
    case 4
    with assms(2) have y: "nextYearly rule (midnight loc r) loc = Some c"
      by (simp add: NextOccurrence_def Let_def ref)
    have "\<bar>cv_Year (civilOf r)\<bar> < 2 ^ 62" using assms(4) by (simp add: r_def localCivil_def)
    from yearly_earliest [OF assms(1) y assms(3) n 4 occ this] show False .
  qed
qed

text \<open>A rule for the second Tuesday of every month, asked for on 15 July 2026 in London.\<close>

definition demo_rule :: rule where
  "demo_rule = \<lparr>ru_Frequency = ''monthly'', ru_Date = '''', ru_Interval = 1, ru_Weekdays = [], ru_Weekday = Some 1,
     ru_MonthDay = None, ru_Nth = Some 2, ru_Month = None\<rparr>"

definition demo_today :: go_time where "demo_today = 1784120400 * Second"

lemma demo_local_day: "localDay london2026 demo_today = 20649" "cv_Year (localCivil london2026 demo_today) = 2026"
  by (simp_all add: demo_today_def) code_simp+

lemma demo_monthStart: "civilOf 20649 = \<lparr>cv_Year = 2026, cv_Month = 7, cv_Day = 15\<rparr>" by code_simp

lemma demo_next: "NextOccurrence demo_rule demo_today london2026 = Some \<lparr>cv_Year = 2026, cv_Month = 8, cv_Day = 11\<rparr>"
proof -
  note ok = location_ok_london2026
  let ?c = "\<lparr>cv_Year = 2026, cv_Month = 8, cv_Day = 11\<rparr>"
  have c: "valid_civil ?c" "monthIndex ?c = 24319" "month_rule demo_rule ?c" "civilDays ?c = 20676" by code_simp+
  have july: "\<lparr>cv_Year = 2026, cv_Month = 7, cv_Day = 14\<rparr> = d"
    if "valid_civil d" "monthIndex d = 24318" "month_rule demo_rule d" for d
  proof -
    let ?j = "\<lparr>cv_Year = 2026, cv_Month = 7, cv_Day = 14\<rparr> :: civil"
    have j: "valid_civil ?j" "month_rule demo_rule ?j" by code_simp+
    have "cv_Month d = 7 \<and> cv_Year d = 2026"
      using month_index_eq [of "cv_Month d" 7 "cv_Year d" 2026] that(1,2) by (simp add: valid_civil_def monthIndex_def)
    then show ?thesis by (intro month_rule_unique [OF j(1) that(1) _ _ j(2) that(3)]) simp_all
  qed
  have "civilDays \<lparr>cv_Year = 2026, cv_Month = 7, cv_Day = 14\<rparr> = 20648" by code_simp
  have 0: "monthCandidate demo_rule (midnight london2026 20649) london2026
      (midnight london2026 (monthStart 24318)) = None"
  proof (rule ccontr)
    assume "\<not> ?thesis"
    then obtain d where "monthCandidate demo_rule (midnight london2026 20649) london2026
      (midnight london2026 (monthStart 24318)) = Some d" by blast
    then have d: "valid_civil d" "monthIndex d = 24318" "month_rule demo_rule d" "20649 \<le> civilDays d"
      by (simp_all add: monthCandidate_index [OF ok])
    from july [OF d(1-3)] d(4) \<open>civilDays \<lparr>cv_Year = 2026, cv_Month = 7, cv_Day = 14\<rparr> = 20648\<close>
    show False by simp
  qed
  have 1: "monthCandidate demo_rule (midnight london2026 20649) london2026
      (midnight london2026 (monthStart 24319)) = Some ?c"
    using c by (simp add: monthCandidate_index [OF ok])
  have "monthIndex (civilOf 20649) = 24318" by code_simp
  then have "nextMonthly demo_rule (midnight london2026 20649) london2026 = Some ?c"
    unfolding nextMonthly_first [OF ok] using 0 1
    by (simp add: upt_conv_Cons [of 0] upt_conv_Cons [of "Suc 0"] demo_rule_def)
  then show ?thesis
    by (simp add: NextOccurrence_def beginningOfDay_midnight demo_local_day demo_rule_def)
qed

theorem next_occurrence_sound_witness:
  "NextOccurrence demo_rule demo_today london2026 = Some \<lparr>cv_Year = 2026, cv_Month = 8, cv_Day = 11\<rparr> \<and>
   occurs_on demo_rule \<lparr>cv_Year = 2026, cv_Month = 8, cv_Day = 11\<rparr> \<and>
   localDay london2026 demo_today \<le> civilDays \<lparr>cv_Year = 2026, cv_Month = 8, cv_Day = 11\<rparr>"
  using next_occurrence_sound [OF location_ok_london2026 demo_next] demo_next by blast

theorem next_occurrence_earliest_witness:
  "\<not> occurs_on demo_rule (civilOf 20660)"
proof -
  have "civilDays \<lparr>cv_Year = 2026, cv_Month = 8, cv_Day = 11\<rparr> = 20676" by code_simp
  then show ?thesis
    by (intro next_occurrence_earliest [OF location_ok_london2026 demo_next])
      (simp_all add: demo_local_day, simp add: demo_rule_def)
qed

section \<open>Weekly intervals\<close>

lemma monday_midnight:
  "location_ok loc \<Longrightarrow> monday loc (midnight loc n) = midnight loc (n - weekdayOf n)"
  by (simp add: monday_def beginningOfDay_midnight localDay_midnight weekday_midnight AddDate_midnight)

lemma time_Sub_midnight:
  "time_Sub (midnight loc m) (midnight loc n) = max (- (2 ^ 63)) (min (2 ^ 63 - 1) ((zoned loc (m * 86400) - zoned loc (n * 86400)) * Second))"
  by (simp add: time_Sub_def midnight_def left_diff_distrib)

text \<open>
  A week that a clock change shortens is not counted: its 167 hours are no week of 168. Monday 30 March
  2026 is in the week after Wednesday 25 March, and the comparison still puts both in the same week,
  so a rule for every second week accepts it.
\<close>

lemma weekly_interval_clock_change:
  "isWeeklyIntervalMatch london2026 (midnight london2026 20537) (midnight london2026 20542) 2 \<and>
   20542 - weekdayOf 20542 = 20537 - weekdayOf 20537 + 7"
proof -
  have w: "weekdayOf 20537 = 2" "weekdayOf 20542 = 0" by (simp_all add: weekdayOf_def)
  have "zoned london2026 (20542 * 86400) = 1774825200" "zoned london2026 (20535 * 86400) = 1774224000"
    by (simp_all add: zoned_def london2026_def)
  then have "time_Sub (monday london2026 (midnight london2026 20542)) (monday london2026 (midnight london2026 20537)) =
      167 * Hour"
    by (simp add: monday_midnight [OF location_ok_london2026] w time_Sub_midnight Hour_def Second_def)
  then show ?thesis
    by (simp add: isWeeklyIntervalMatch_def w Hour_def Second_def signed_divide_int_def signed_modulo_int_def)
qed

section \<open>Due dates\<close>

lemma IsDue_iff:
  assumes "location_ok loc"
  shows "IsDue s today loc \<longleftrightarrow>
    (\<exists>c. parseISODate s = Some c \<and> localDay loc today \<le> civilDays c \<and> civilDays c \<le> localDay loc today + 7)"
proof -
  have "IsDue s today loc \<longleftrightarrow> (\<exists>t. parseDate s loc = Some t \<and> midnight loc (localDay loc today) \<le> t \<and>
      t \<le> midnight loc (localDay loc today + 7))"
    by (auto simp: IsDue_def beginningOfDay_midnight AddDate_midnight [OF assms] LeadDays_def time_Before_def
        time_After_def Let_def not_less split: option.splits)
  then show ?thesis by (auto simp: parseDate_iff [OF assms] midnight_le [OF assms])
qed

text \<open>
  A stored occurrence is due exactly when it is a date of the layout that lies from today to seven
  days ahead, counted in days of the location.
\<close>

theorem is_due_window:
  assumes "location_ok loc"
  shows "IsDue s today loc \<longleftrightarrow>
    (\<exists>c. parseISODate s = Some c \<and> localDay loc today \<le> civilDays c \<and> civilDays c \<le> localDay loc today + 7)"
  using assms by (rule IsDue_iff)

theorem is_due_window_witness:
  "IsDue ''2026-07-20'' demo_today london2026 \<and> \<not> IsDue ''2026-07-23'' demo_today london2026 \<and>
   \<not> IsDue ''2026-02-30'' demo_today london2026"
proof -
  have "parseISODate ''2026-07-20'' = Some \<lparr>cv_Year = 2026, cv_Month = 7, cv_Day = 20\<rparr>"
    "parseISODate ''2026-07-23'' = Some \<lparr>cv_Year = 2026, cv_Month = 7, cv_Day = 23\<rparr>"
    "parseISODate ''2026-02-30'' = None" by code_simp+
  moreover have "civilDays \<lparr>cv_Year = 2026, cv_Month = 7, cv_Day = 20\<rparr> = 20654"
    "civilDays \<lparr>cv_Year = 2026, cv_Month = 7, cv_Day = 23\<rparr> = 20657" by code_simp+
  ultimately show ?thesis
    unfolding is_due_window [OF location_ok_london2026] demo_local_day by simp
qed

lemma DateOnly_String_valid: "valid_civil c \<Longrightarrow> DateOnly_String c = formatDate c"
  by (simp add: DateOnly_String_def DateOnly_Time_def time_Date_midnight localCivil_midnight [OF location_ok_UTC]
      civilDays_def [symmetric])

lemma parseDate_occurrence:
  assumes "location_ok loc" "NextOccurrence rule reference loc = Some c" "0 \<le> cv_Year c" "cv_Year c < 10000"
  shows "parseDate (DateOnly_String c) loc = Some (midnight loc (civilDays c))"
proof -
  have v: "valid_civil c" using next_occurrence_occurs [OF assms(1,2)] by (simp add: occurs_on_def)
  show ?thesis
    unfolding parseDate_iff [OF assms(1)] DateOnly_String_valid [OF v]
    using parse_format_date [OF v assms(3,4)] by blast
qed

text \<open>
  A computed occurrence survives storage: the text that is stored for it, read back, is the same
  date, for the four-digit years.
\<close>

theorem occurrence_roundtrip:
  assumes "location_ok loc" "NextOccurrence rule reference loc = Some c" "0 \<le> cv_Year c" "cv_Year c < 10000"
  shows "parseDate (DateOnly_String c) loc = Some (midnight loc (civilDays c))"
  using assms by (rule parseDate_occurrence)

theorem occurrence_roundtrip_witness:
  "parseDate (DateOnly_String \<lparr>cv_Year = 2026, cv_Month = 8, cv_Day = 11\<rparr>) london2026 =
     Some (midnight london2026 (civilDays \<lparr>cv_Year = 2026, cv_Month = 8, cv_Day = 11\<rparr>)) \<and>
   DateOnly_String \<lparr>cv_Year = 2026, cv_Month = 8, cv_Day = 11\<rparr> = ''2026-08-11''"
proof -
  have "DateOnly_String \<lparr>cv_Year = 2026, cv_Month = 8, cv_Day = 11\<rparr> = ''2026-08-11''" by code_simp
  with occurrence_roundtrip [OF location_ok_london2026 demo_next] show ?thesis by simp
qed

end
