(* ===== verification/VenueCache.thy ===== *)
theory VenueCache
  imports Sql Recurrence
begin

text \<open>
  components/venuecache and database/listeners/venuecache: a local projection of the venue documents.
  The listener applies the changes of the authoritative collection to the table \<open>venue_cache\<close>; the service
  reads the table and falls back to the collection on a miss. The collection and its change stream are
  parameters, the JSON encoding of a recurrence too; the failure of a database call is an argument of the
  operation.
\<close>

section \<open>Projections\<close>

record venue_projection =
  vp_ID :: string
  vp_Name :: string
  vp_VenueType :: string
  vp_Website :: string
  vp_Map :: string
  vp_Address :: string
  vp_PhotoURL :: string
  vp_RecurrenceJSON :: string
  vp_NextOccurrenceDate :: string

record venue_document =
  vd_ID :: string
  vd_Data :: "go_map option"

datatype change_kind = ChangeAdded | ChangeModified | ChangeRemoved

record venue_change =
  vch_Kind :: change_kind
  vch_Doc :: venue_document

definition vc_requiredString :: "go_map option \<Rightarrow> string \<Rightarrow> gerror + string" where
  "vc_requiredString data field =
     (case asString (go_index data field) of
        None \<Rightarrow> Inl (Err (''venue field '' @ field @ '' is required and must be a non-empty string''))
      | Some v \<Rightarrow> if v = '''' then Inl (Err (''venue field '' @ field @ '' is required and must be a non-empty string''))
                  else Inr v)"

definition vc_optionalString :: "go_map option \<Rightarrow> string \<Rightarrow> string" where
  "vc_optionalString data field = (case asString (go_index data field) of None \<Rightarrow> '''' | Some v \<Rightarrow> v)"

text \<open>\<open>v, ok := m[k]\<close>.\<close>

definition go_lookup :: "go_map option \<Rightarrow> string \<Rightarrow> go_any option" where
  "go_lookup m k = (case m of None \<Rightarrow> None | Some f \<Rightarrow> f k)"

definition ProjectionFromDocument ::
  "(go_any \<Rightarrow> gerror + string) \<Rightarrow> venue_document \<Rightarrow> gerror + venue_projection" where
  "ProjectionFromDocument marshal doc =
     (if vd_ID doc = '''' then Inl (Err ''venue document ID is required'')
      else case vc_requiredString (vd_Data doc) ''name'' of
        Inl e \<Rightarrow> Inl e
      | Inr name \<Rightarrow>
          (let projection = \<lparr>vp_ID = vd_ID doc, vp_Name = name,
                 vp_VenueType = vc_optionalString (vd_Data doc) ''venueType'',
                 vp_Website = vc_optionalString (vd_Data doc) ''web_site'',
                 vp_Map = vc_optionalString (vd_Data doc) ''map'',
                 vp_Address = vc_optionalString (vd_Data doc) ''address'',
                 vp_PhotoURL = vc_optionalString (vd_Data doc) ''pubImage'',
                 vp_RecurrenceJSON = '''',
                 vp_NextOccurrenceDate = vc_optionalString (vd_Data doc) ''next_occurrence_date''\<rparr>
           in case go_lookup (vd_Data doc) ''recurrence'' of
                None \<Rightarrow> Inr projection
              | Some recurrence \<Rightarrow>
                  (case marshal recurrence of
                     Inl e \<Rightarrow> Inl (Wrapped e ''encode recurrence'')
                   | Inr encoded \<Rightarrow> Inr (projection\<lparr>vp_RecurrenceJSON := encoded\<rparr>))))"

section \<open>The table\<close>

type_synonym venue_table = "venue_projection list"

definition vc_Get :: "gerror option \<Rightarrow> string \<Rightarrow> venue_table \<Rightarrow> gerror + venue_projection" where
  "vc_Get flt venueID t =
     (case flt of
        Some e \<Rightarrow> Inl (if e = ErrNoRows then ErrCacheMiss else e)
      | None \<Rightarrow> (case sql_row vp_ID venueID t of None \<Rightarrow> Inl ErrCacheMiss | Some p \<Rightarrow> Inr p))"

definition vc_Put :: "gerror option \<Rightarrow> venue_projection \<Rightarrow> venue_table \<Rightarrow> gerror option \<times> venue_table" where
  "vc_Put flt p t =
     (case flt of
        Some e \<Rightarrow> (Some e, t)
      | None \<Rightarrow>
          (None, sql_upsert vp_ID p t))"

definition vc_Delete :: "gerror option \<Rightarrow> string \<Rightarrow> venue_table \<Rightarrow> gerror option \<times> venue_table" where
  "vc_Delete flt venueID t =
     (case flt of
        Some e \<Rightarrow> (Some e, t)
      | None \<Rightarrow> (None, sql_delete (\<lambda>q. vp_ID q = venueID) t))"

section \<open>The service\<close>

text \<open>\<open>source\<close> is the authoritative read; \<open>rflt\<close> and \<open>wflt\<close> are the failures of the cache's read and write.\<close>

definition vc_Service_Get ::
  "(go_any \<Rightarrow> gerror + string) \<Rightarrow> (string \<Rightarrow> gerror + venue_document) \<Rightarrow> gerror option \<Rightarrow> gerror option \<Rightarrow>
     string \<Rightarrow> venue_table \<Rightarrow> (gerror + venue_projection) \<times> venue_table" where
  "vc_Service_Get marshal source rflt wflt venueID t =
     (case vc_Get rflt venueID t of
        Inr projection \<Rightarrow> (Inr projection, t)
      | Inl err \<Rightarrow>
          if \<not> errors_Is err ErrCacheMiss then (Inl (Wrapped err ''read venue cache''), t)
          else (case source venueID of
                  Inl e \<Rightarrow> (Inl e, t)
                | Inr doc \<Rightarrow>
                    (case ProjectionFromDocument marshal doc of
                       Inl e \<Rightarrow> (Inl e, t)
                     | Inr projection \<Rightarrow> (let (_, t') = vc_Put wflt projection t in (Inr projection, t')))))"

definition vc_ListEventVenues ::
  "(go_any \<Rightarrow> gerror + string) \<Rightarrow> gerror + venue_document list \<Rightarrow> gerror + venue_projection list" where
  "vc_ListEventVenues marshal docs =
     (case docs of Inl e \<Rightarrow> Inl e | Inr ds \<Rightarrow> res_map (ProjectionFromDocument marshal) ds)"

section \<open>The listener\<close>

definition vl_apply ::
  "(go_any \<Rightarrow> gerror + string) \<Rightarrow> (gerror \<Rightarrow> string) \<Rightarrow> gerror option \<Rightarrow> venue_change \<Rightarrow> venue_table \<Rightarrow>
     gerror option \<times> venue_table" where
  "vl_apply marshal errText flt change t =
     (if vch_Kind change = ChangeRemoved then vc_Delete flt (vd_ID (vch_Doc change)) t
      else case ProjectionFromDocument marshal (vch_Doc change) of
             Inl e \<Rightarrow> (Some (Wrapped ErrMalformedDocument (errText e)), t)
           | Inr projection \<Rightarrow> vc_Put flt projection t)"

text \<open>The changes of one batch, each with the failure of its database call.\<close>

fun vl_applyAll ::
  "(go_any \<Rightarrow> gerror + string) \<Rightarrow> (gerror \<Rightarrow> string) \<Rightarrow> (gerror option \<times> venue_change) list \<Rightarrow> venue_table \<Rightarrow>
     gerror option \<times> venue_table" where
  "vl_applyAll marshal errText [] t = (None, t)"
| "vl_applyAll marshal errText ((flt, change) # changes) t =
     (case vl_apply marshal errText flt change t of
        (None, t') \<Rightarrow> vl_applyAll marshal errText changes t'
      | (Some err, t') \<Rightarrow>
          if errors_Is err ErrMalformedDocument then vl_applyAll marshal errText changes t'
          else (Some (Joined ErrPersistence err), t'))"

text \<open>
  \<open>watchOnce\<close> on what the stream returns, in order: \<open>Inr\<close> a batch, \<open>Inl\<close> the error that ends it. The
  result is \<open>None\<close> while the stream has not ended, and otherwise what the function returns; the flag says
  whether the first batch has been applied. \<open>canceled\<close> recognises the cancellation errors.
\<close>

fun vl_watchOnce ::
  "(go_any \<Rightarrow> gerror + string) \<Rightarrow> (gerror \<Rightarrow> string) \<Rightarrow> (gerror \<Rightarrow> bool) \<Rightarrow>
     (gerror + (gerror option \<times> venue_change) list) list \<Rightarrow> bool \<times> venue_table \<Rightarrow>
     gerror option option \<times> bool \<times> venue_table" where
  "vl_watchOnce marshal errText canceled [] (ready, t) = (None, ready, t)"
| "vl_watchOnce marshal errText canceled (Inl err # xs) (ready, t) =
     (Some (if canceled err then None else Some err), ready, t)"
| "vl_watchOnce marshal errText canceled (Inr changes # xs) (ready, t) =
     (case vl_applyAll marshal errText changes t of
        (Some err, t') \<Rightarrow> (Some (Some err), ready, t')
      | (None, t') \<Rightarrow> vl_watchOnce marshal errText canceled xs (True, t'))"

text \<open>
  The loop \<open>watch\<close>, on the outcome of each round: whether the context is done before it, what \<open>watchOnce\<close>
  returns, and whether the context is done then. A persistence failure ends it; any other error is retried.
\<close>

datatype watch_state = Watching | Stopped | Failed gerror

fun vl_watch :: "(bool \<times> gerror option \<times> bool) list \<Rightarrow> watch_state" where
  "vl_watch [] = Watching"
| "vl_watch ((before, res, after) # rounds) =
     (if before then Stopped
      else case res of
             None \<Rightarrow> vl_watch rounds
           | Some err \<Rightarrow>
               if after then Stopped
               else if errors_Is err ErrPersistence then Failed err
               else vl_watch rounds)"

section \<open>Coherence\<close>

text \<open>The table as a map, and the projections of a collection of documents.\<close>

abbreviation venue_view :: "venue_table \<Rightarrow> string \<rightharpoonup> venue_projection" where
  "venue_view t \<equiv> (\<lambda>i. sql_row vp_ID i t)"

definition projections :: "(go_any \<Rightarrow> gerror + string) \<Rightarrow> (string \<rightharpoonup> go_map option) \<Rightarrow> string \<rightharpoonup> venue_projection" where
  "projections marshal docs i =
     (case docs i of
        None \<Rightarrow> None
      | Some d \<Rightarrow> (case ProjectionFromDocument marshal \<lparr>vd_ID = i, vd_Data = d\<rparr> of Inl e \<Rightarrow> None | Inr p \<Rightarrow> Some p))"

text \<open>What a change says of the collection.\<close>

definition change_docs :: "venue_change \<Rightarrow> (string \<rightharpoonup> go_map option) \<Rightarrow> string \<rightharpoonup> go_map option" where
  "change_docs c docs =
     docs(vd_ID (vch_Doc c) := (if vch_Kind c = ChangeRemoved then None else Some (vd_Data (vch_Doc c))))"

definition change_ok :: "(go_any \<Rightarrow> gerror + string) \<Rightarrow> venue_change \<Rightarrow> bool" where
  "change_ok marshal c \<longleftrightarrow> vch_Kind c = ChangeRemoved \<or> (\<exists>p. ProjectionFromDocument marshal (vch_Doc c) = Inr p)"

lemma ProjectionFromDocument_ID: "ProjectionFromDocument marshal doc = Inr p \<Longrightarrow> vp_ID p = vd_ID doc"
  by (auto simp: ProjectionFromDocument_def Let_def split: if_splits sum.splits option.splits)

lemma vc_Put_view: "vc_Put None p t = (e, t') \<Longrightarrow> e = None \<and> venue_view t' = (venue_view t)(vp_ID p \<mapsto> p)"
  by (auto simp: vc_Put_def sql_row_upsert)

lemma vc_Delete_view:
  "vc_Delete None i t = (e, t') \<Longrightarrow> e = None \<and> venue_view t' = (venue_view t)(i := None)"
  by (auto simp: vc_Delete_def sql_row_delete_key)

lemma document_eta: "\<lparr>vd_ID = vd_ID d, vd_Data = vd_Data d\<rparr> = d" for d :: venue_document
  by (cases d) simp

lemma vl_apply_view:
  assumes "change_ok marshal c" "vl_apply marshal errText None c t = (e, t')"
    and "venue_view t = projections marshal docs"
  shows "e = None \<and> venue_view t' = projections marshal (change_docs c docs)"
proof (cases "vch_Kind c = ChangeRemoved")
  case True
  with assms(2) have "vc_Delete None (vd_ID (vch_Doc c)) t = (e, t')" by (simp add: vl_apply_def)
  from vc_Delete_view [OF this] True assms(3) show ?thesis by (auto simp: projections_def change_docs_def fun_eq_iff)
next
  case False
  with assms(1) obtain p where p: "ProjectionFromDocument marshal (vch_Doc c) = Inr p" by (auto simp: change_ok_def)
  with False assms(2) have "vc_Put None p t = (e, t')" by (simp add: vl_apply_def)
  from vc_Put_view [OF this] False p assms(3) ProjectionFromDocument_ID [OF p] show ?thesis
    by (auto simp: projections_def change_docs_def document_eta fun_eq_iff)
qed

lemma vl_applyAll_view:
  assumes "\<forall>c \<in> set cs. change_ok marshal c" "vl_applyAll marshal errText (map (Pair None) cs) t = (e, t')"
    and "venue_view t = projections marshal docs"
  shows "e = None \<and> venue_view t' = projections marshal (fold change_docs cs docs)"
  using assms
proof (induction cs arbitrary: t docs)
  case (Cons c cs)
  obtain e1 t1 where a: "vl_apply marshal errText None c t = (e1, t1)" by fastforce
  from vl_apply_view [OF _ a Cons.prems(3)] Cons.prems(1)
  have "e1 = None" "venue_view t1 = projections marshal (change_docs c docs)" by simp_all
  with Cons.IH [of t1] Cons.prems a show ?case by simp
qed simp

lemma vl_watchOnce_view:
  assumes "\<forall>cs \<in> set batches. \<forall>c \<in> set cs. change_ok marshal c"
    and "vl_watchOnce marshal errText canceled (map (\<lambda>cs. Inr (map (Pair None) cs)) batches) (ready, t) = (res, ready', t')"
    and "venue_view t = projections marshal docs"
  shows "res = None \<and> (ready' \<longleftrightarrow> ready \<or> batches \<noteq> []) \<and>
    venue_view t' = projections marshal (fold change_docs (concat batches) docs)"
  using assms
proof (induction batches arbitrary: ready t docs)
  case (Cons cs batches)
  obtain e1 t1 where a: "vl_applyAll marshal errText (map (Pair None) cs) t = (e1, t1)" by fastforce
  from vl_applyAll_view [OF _ a Cons.prems(3)] Cons.prems(1)
  have "e1 = None" "venue_view t1 = projections marshal (fold change_docs cs docs)" by simp_all
  with Cons.IH [of True t1] Cons.prems a show ?case by (cases "vl_applyAll marshal errText (map (Pair None) cs) t") auto
qed simp

text \<open>
  A document that cannot be projected is skipped; a failing database call ends the watch for good.
\<close>

lemma vl_applyAll_error: "vl_applyAll marshal errText cs t = (Some e, t') \<Longrightarrow> errors_Is e ErrPersistence"
  by (induction cs arbitrary: t) (auto split: prod.splits option.splits if_splits)

lemma vl_watch_persistence:
  "vl_applyAll marshal errText cs t = (Some e, t') \<Longrightarrow> vl_watch ((False, Some e, False) # rounds) = Failed e"
  by (simp add: vl_applyAll_error)

text \<open>
  The service on a coherent table: a hit is the projection of the document, a miss reads the document
  and caches its projection.
\<close>

lemma vc_Service_Get_coherent:
  assumes "venue_view t = projections marshal docs" "docs i = Some d"
    and "ProjectionFromDocument marshal \<lparr>vd_ID = i, vd_Data = d\<rparr> = Inr p"
  shows "vc_Service_Get marshal source None wflt i t = (Inr p, t)"
proof -
  have "sql_row vp_ID i t = Some p" using assms fun_cong [OF assms(1), of i] by (simp add: projections_def)
  then show ?thesis by (simp add: vc_Service_Get_def vc_Get_def)
qed


definition demo_venue :: "string \<Rightarrow> venue_document" where
  "demo_venue name = \<lparr>vd_ID = ''v'', vd_Data = Some [''name'' \<mapsto> AString name]\<rparr>"

definition demo_projection :: "string \<Rightarrow> venue_projection" where
  "demo_projection name = \<lparr>vp_ID = ''v'', vp_Name = name, vp_VenueType = '''', vp_Website = '''', vp_Map = '''',
     vp_Address = '''', vp_PhotoURL = '''', vp_RecurrenceJSON = '''', vp_NextOccurrenceDate = ''''\<rparr>"

lemma demo_venue_projection:
  "name \<noteq> '''' \<Longrightarrow> ProjectionFromDocument marshal (demo_venue name) = Inr (demo_projection name)"
  by (simp add: ProjectionFromDocument_def demo_venue_def demo_projection_def vc_requiredString_def
      vc_optionalString_def go_index_def go_lookup_def asString_def Let_def)


text \<open>
  The service writes what it read from the collection without looking at the table again. When the listener
  applies the removal of the venue between that read and the write, the venue is back in the table and is
  answered from there, until another change of the document arrives.
\<close>

lemma late_populate_resurrects:
  assumes "vl_apply marshal errText None \<lparr>vch_Kind = ChangeRemoved, vch_Doc = doc\<rparr> t = (e1, t1)"
    and "ProjectionFromDocument marshal doc = Inr p" "vc_Put None p t1 = (e2, t2)"
  shows "venue_view t1 (vd_ID doc) = None \<and> vc_Service_Get marshal source None wflt (vd_ID doc) t2 = (Inr p, t2)"
proof -
  have "vc_Delete None (vd_ID doc) t = (e1, t1)" using assms(1) by (simp add: vl_apply_def)
  from vc_Delete_view [OF this] have "venue_view t1 (vd_ID doc) = None" by (simp add: fun_eq_iff)
  moreover have "venue_view t2 (vd_ID doc) = Some p"
    using vc_Put_view [OF assms(3)] ProjectionFromDocument_ID [OF assms(2)] by (simp add: fun_eq_iff)
  ultimately show ?thesis by (simp add: vc_Service_Get_def vc_Get_def)
qed

end
