(* ===== verification/NotificationProfile.thy ===== *)
theory NotificationProfile
  imports VenueCache
begin

text \<open>
  components/notificationprofile and database/listeners/notificationprofile: the local projection of who
  wants which notification and where to send it. The documents are translated to preferences and endpoints,
  the listener keeps the two tables, and the push and email plugins ask the store who is eligible.

  The JSON codec of the list of muted polls is a parameter, and so is the authoritative source.
\<close>

section \<open>Preferences and endpoints\<close>

definition KindPollOpens :: string where "KindPollOpens = ''pollOpens''"
definition KindPollCompletes :: string where "KindPollCompletes = ''pollCompletes''"
definition KindGlobalChat :: string where "KindGlobalChat = ''globalChat''"
definition KindEventChat :: string where "KindEventChat = ''eventChat''"
definition KindDiagnostic :: string where "KindDiagnostic = ''diagnostic''"

definition EmailPollOpens :: string where "EmailPollOpens = ''pollOpens''"
definition EmailPollCompletes :: string where "EmailPollCompletes = ''pollCompletes''"

record user_preferences =
  up_UserID :: string
  up_WebPushEnabled :: bool
  up_PollOpens :: bool
  up_PollCompletes :: bool
  up_GlobalChat :: bool
  up_EventChat :: bool
  up_EventChatMutedPollIDs :: "string list"
  up_NotificationEmail :: string
  up_OpenPollEmailEnabled :: bool
  up_NotificationEmailEnabled :: bool
  up_UpdatedAt :: go_time

definition Enabled :: "user_preferences \<Rightarrow> string \<Rightarrow> bool" where
  "Enabled p kind =
     (if \<not> up_WebPushEnabled p then False
      else if kind = KindDiagnostic then True
      else if kind = KindPollOpens then up_PollOpens p
      else if kind = KindPollCompletes then up_PollCompletes p
      else if kind = KindGlobalChat then up_GlobalChat p
      else if kind = KindEventChat then up_EventChat p
      else False)"

definition MutedFor :: "user_preferences \<Rightarrow> string \<Rightarrow> bool" where
  "MutedFor p pollID = list_ex (\<lambda>muted. muted = pollID) (up_EventChatMutedPollIDs p)"

record push_endpoint =
  ep_EndpointID :: string
  ep_UserID :: string
  ep_URL :: string
  ep_P256DH :: string
  ep_Auth :: string
  ep_Active :: bool
  ep_UpdatedAt :: go_time

definition endpoint_Key :: "push_endpoint \<Rightarrow> string" where
  "endpoint_Key e = ep_UserID e @ ''/'' @ ep_EndpointID e"

record selector =
  sel_Kind :: string
  sel_UserIDs :: "string list"

record email_recipient =
  er_UserID :: string
  er_Email :: string

section \<open>Documents\<close>

record profile_document =
  pd_ID :: string
  pd_UserID :: string
  pd_Data :: "go_map option"

definition np_requiredString :: "go_map option \<Rightarrow> string \<Rightarrow> gerror + string" where
  "np_requiredString data field =
     (case asString (go_index data field) of
        None \<Rightarrow> Inl (Err (''endpoint field '' @ field @ '' is required and must be a non-empty string''))
      | Some v \<Rightarrow>
          if v = '''' then Inl (Err (''endpoint field '' @ field @ '' is required and must be a non-empty string''))
          else Inr v)"

definition optionalBool :: "go_map option \<Rightarrow> string \<Rightarrow> bool \<Rightarrow> bool" where
  "optionalBool data field fallback = (case go_index data field of ABool b \<Rightarrow> b | _ \<Rightarrow> fallback)"

definition np_optionalString :: "go_map option \<Rightarrow> string \<Rightarrow> string" where
  "np_optionalString data field = (case asString (go_index data field) of None \<Rightarrow> '''' | Some v \<Rightarrow> v)"

definition optionalStrings :: "go_map option \<Rightarrow> string \<Rightarrow> string list" where
  "optionalStrings data field =
     (case go_index data field of
        AAnys raw \<Rightarrow> filter (\<lambda>s. s \<noteq> '''') (List.map_filter asString raw)
      | _ \<Rightarrow> [])"

text \<open>The zero instant stands for the unset \<open>UpdatedAt\<close>, which the store sets when it writes.\<close>

definition PreferencesFromDocument :: "profile_document \<Rightarrow> gerror + user_preferences" where
  "PreferencesFromDocument doc =
     (if pd_ID doc = '''' then Inl (Err ''user document ID is required'')
      else
        (let preferences = (case go_index (pd_Data doc) ''pushPreferences'' of AMap m \<Rightarrow> Some m | _ \<Rightarrow> None)
         in Inr \<lparr>up_UserID = pd_ID doc,
                 up_WebPushEnabled = optionalBool (pd_Data doc) ''webPushEnabled'' False,
                 up_PollOpens = optionalBool preferences KindPollOpens True,
                 up_PollCompletes = optionalBool preferences KindPollCompletes True,
                 up_GlobalChat = optionalBool preferences KindGlobalChat False,
                 up_EventChat = optionalBool preferences KindEventChat False,
                 up_EventChatMutedPollIDs = optionalStrings preferences ''eventChatMutedPollIds'',
                 up_NotificationEmail = np_optionalString (pd_Data doc) ''notificationEmail'',
                 up_OpenPollEmailEnabled = optionalBool (pd_Data doc) ''openPollEmailEnabled'' False,
                 up_NotificationEmailEnabled = optionalBool (pd_Data doc) ''notificationEmailEnabled'' False,
                 up_UpdatedAt = 0\<rparr>))"

definition EndpointFromDocument :: "profile_document \<Rightarrow> gerror + push_endpoint" where
  "EndpointFromDocument doc =
     (if pd_ID doc = '''' then Inl (Err ''endpoint document ID is required'')
      else if pd_UserID doc = '''' then Inl (Err (''endpoint document '' @ pd_ID doc @ '' has no owning user''))
      else case np_requiredString (pd_Data doc) ''endpoint'' of
        Inl e \<Rightarrow> Inl e
      | Inr url \<Rightarrow>
          (case np_requiredString (pd_Data doc) ''p256dh'' of
             Inl e \<Rightarrow> Inl e
           | Inr p256dh \<Rightarrow>
               (case np_requiredString (pd_Data doc) ''auth'' of
                  Inl e \<Rightarrow> Inl e
                | Inr auth \<Rightarrow>
                    Inr \<lparr>ep_EndpointID = pd_ID doc, ep_UserID = pd_UserID doc, ep_URL = url, ep_P256DH = p256dh,
                         ep_Auth = auth, ep_Active = optionalBool (pd_Data doc) ''active'' False, ep_UpdatedAt = 0\<rparr>)))"

section \<open>The store\<close>

text \<open>
  The tables \<open>notification_user_prefs\<close> and \<open>notification_endpoints\<close>. In a row of the first the muted polls
  are their JSON text.
\<close>

record prefs_row =
  pu_prefs :: user_preferences
  pu_muted :: string

record profile_db =
  user_prefs :: "prefs_row list"
  endpoints :: "push_endpoint list"

abbreviation prefs_key :: "prefs_row \<Rightarrow> string" where
  "prefs_key r \<equiv> up_UserID (pu_prefs r)"

abbreviation endpoint_key :: "push_endpoint \<Rightarrow> string \<times> string" where
  "endpoint_key e \<equiv> (ep_UserID e, ep_EndpointID e)"

definition PutPreferences ::
  "(string list \<Rightarrow> gerror + string) \<Rightarrow> gerror option \<Rightarrow> go_time \<Rightarrow> user_preferences \<Rightarrow> profile_db \<Rightarrow> gerror option \<times> profile_db" where
  "PutPreferences marshal flt now preferences d =
     (if up_UserID preferences = '''' then (Some (Err ''user ID is required''), d)
      else case marshal (up_EventChatMutedPollIDs preferences) of
        Inl e \<Rightarrow> (Some (Wrapped e ''encode muted poll ids''), d)
      | Inr muted \<Rightarrow>
          (case flt of
             Some e \<Rightarrow> (Some e, d)
           | None \<Rightarrow>
               (None, d\<lparr>user_prefs := sql_upsert prefs_key
                  \<lparr>pu_prefs = preferences\<lparr>up_EventChatMutedPollIDs := [], up_UpdatedAt := now\<rparr>, pu_muted = muted\<rparr>
                  (user_prefs d)\<rparr>)))"

definition DeletePreferences :: "gerror option \<Rightarrow> string \<Rightarrow> profile_db \<Rightarrow> gerror option \<times> profile_db" where
  "DeletePreferences flt userID d =
     (case flt of
        Some e \<Rightarrow> (Some e, d)
      | None \<Rightarrow> (None, d\<lparr>user_prefs := sql_delete (\<lambda>r. prefs_key r = userID) (user_prefs d)\<rparr>))"

definition Preferences ::
  "(string \<Rightarrow> gerror + string list) \<Rightarrow> gerror option \<Rightarrow> string \<Rightarrow> profile_db \<Rightarrow> gerror + user_preferences" where
  "Preferences unmarshal flt userID d =
     (case flt of
        Some e \<Rightarrow> Inl (if e = ErrNoRows then ErrProfileNotFound else e)
      | None \<Rightarrow>
          (case sql_row prefs_key userID (user_prefs d) of
             None \<Rightarrow> Inl ErrProfileNotFound
           | Some r \<Rightarrow>
               (case unmarshal (pu_muted r) of
                  Inl e \<Rightarrow> Inl (Wrapped e (''decode muted poll ids for '' @ userID))
                | Inr ids \<Rightarrow> Inr ((pu_prefs r)\<lparr>up_EventChatMutedPollIDs := ids\<rparr>))))"

definition PutEndpoint :: "gerror option \<Rightarrow> go_time \<Rightarrow> push_endpoint \<Rightarrow> profile_db \<Rightarrow> gerror option \<times> profile_db" where
  "PutEndpoint flt now endpoint d =
     (if ep_UserID endpoint = '''' \<or> ep_EndpointID endpoint = ''''
      then (Some (Err ''endpoint user ID and endpoint ID are required''), d)
      else case flt of
        Some e \<Rightarrow> (Some e, d)
      | None \<Rightarrow> (None, d\<lparr>endpoints := sql_upsert endpoint_key (endpoint\<lparr>ep_UpdatedAt := now\<rparr>) (endpoints d)\<rparr>))"

definition DeleteEndpoint :: "gerror option \<Rightarrow> string \<Rightarrow> string \<Rightarrow> profile_db \<Rightarrow> gerror option \<times> profile_db" where
  "DeleteEndpoint flt userID endpointID d =
     (case flt of
        Some e \<Rightarrow> (Some e, d)
      | None \<Rightarrow> (None, d\<lparr>endpoints := sql_delete (\<lambda>e. endpoint_key e = (userID, endpointID)) (endpoints d)\<rparr>))"

definition SetEndpointActive ::
  "gerror option \<Rightarrow> go_time \<Rightarrow> string \<Rightarrow> string \<Rightarrow> bool \<Rightarrow> profile_db \<Rightarrow> gerror option \<times> profile_db" where
  "SetEndpointActive flt now userID endpointID active d =
     (case flt of
        Some e \<Rightarrow> (Some e, d)
      | None \<Rightarrow>
          (None, d\<lparr>endpoints := sql_update (\<lambda>e. endpoint_key e = (userID, endpointID))
             (\<lambda>e. e\<lparr>ep_Active := active, ep_UpdatedAt := now\<rparr>) (endpoints d)\<rparr>))"

definition preferenceColumn :: "string \<Rightarrow> gerror + string" where
  "preferenceColumn kind =
     (if kind = KindPollOpens then Inr ''poll_opens''
      else if kind = KindPollCompletes then Inr ''poll_completes''
      else if kind = KindGlobalChat then Inr ''global_chat''
      else if kind = KindEventChat then Inr ''event_chat''
      else Inl (Wrapped ErrUnknownKind kind))"

definition emailPreferenceColumn :: "string \<Rightarrow> gerror + string" where
  "emailPreferenceColumn kind =
     (if kind = EmailPollOpens then Inr ''open_poll_email''
      else if kind = EmailPollCompletes then Inr ''notification_email_enabled''
      else Inl (Wrapped ErrUnknownKind kind))"

text \<open>The boolean columns of the table by name.\<close>

definition prefs_column :: "string \<Rightarrow> prefs_row \<Rightarrow> bool" where
  "prefs_column c r =
     (if c = ''web_push_enabled'' then up_WebPushEnabled (pu_prefs r)
      else if c = ''poll_opens'' then up_PollOpens (pu_prefs r)
      else if c = ''poll_completes'' then up_PollCompletes (pu_prefs r)
      else if c = ''global_chat'' then up_GlobalChat (pu_prefs r)
      else if c = ''event_chat'' then up_EventChat (pu_prefs r)
      else if c = ''open_poll_email'' then up_OpenPollEmailEnabled (pu_prefs r)
      else if c = ''notification_email_enabled'' then up_NotificationEmailEnabled (pu_prefs r)
      else False)"

text \<open>The query \<open>EligibleEndpoints\<close> builds: a join, the conditions of the kind and of the users, an order.\<close>

definition eligibleRows :: "string list \<Rightarrow> string list \<Rightarrow> profile_db \<Rightarrow> push_endpoint list" where
  "eligibleRows columns userIDs d =
     sort_key endpoint_key
       (map fst (filter (\<lambda>(e, p). prefs_key p = ep_UserID e \<and> ep_Active e \<and> (\<forall>c \<in> set columns. prefs_column c p) \<and>
                            (userIDs = [] \<or> ep_UserID e \<in> set userIDs))
                   (List.product (endpoints d) (user_prefs d))))"

definition EligibleEndpoints :: "gerror option \<Rightarrow> selector \<Rightarrow> profile_db \<Rightarrow> gerror + push_endpoint list" where
  "EligibleEndpoints flt sel d =
     (if sel_Kind sel \<noteq> KindDiagnostic then
        (case preferenceColumn (sel_Kind sel) of
           Inl e \<Rightarrow> Inl e
         | Inr column \<Rightarrow>
             (case flt of Some e \<Rightarrow> Inl e | None \<Rightarrow> Inr (eligibleRows [''web_push_enabled'', column] (sel_UserIDs sel) d)))
      else (case flt of Some e \<Rightarrow> Inl e | None \<Rightarrow> Inr (eligibleRows [''web_push_enabled''] (sel_UserIDs sel) d)))"

definition EmailRecipients :: "gerror option \<Rightarrow> string \<Rightarrow> profile_db \<Rightarrow> gerror + email_recipient list" where
  "EmailRecipients flt kind d =
     (case emailPreferenceColumn kind of
        Inl e \<Rightarrow> Inl e
      | Inr column \<Rightarrow>
          (case flt of
             Some e \<Rightarrow> Inl e
           | None \<Rightarrow>
               Inr (map (\<lambda>r. \<lparr>er_UserID = prefs_key r, er_Email = up_NotificationEmail (pu_prefs r)\<rparr>)
                 (sql_select (\<lambda>r. prefs_column column r \<and> up_NotificationEmail (pu_prefs r) \<noteq> '''') prefs_key (user_prefs d)))))"

section \<open>Service and listener\<close>

text \<open>\<open>deactivate\<close> is the update of the authoritative source, on its state \<open>'f\<close>.\<close>

definition InvalidateEndpoint ::
  "(string \<Rightarrow> string \<Rightarrow> 'f \<Rightarrow> gerror option \<times> 'f) \<Rightarrow> gerror option \<Rightarrow> go_time \<Rightarrow> string \<Rightarrow> string \<Rightarrow> 'f \<times> profile_db \<Rightarrow>
     gerror option \<times> 'f \<times> profile_db" where
  "InvalidateEndpoint deactivate flt now userID endpointID fd =
     (case deactivate userID endpointID (fst fd) of
        (Some e, f') \<Rightarrow> (Some (Wrapped e ''deactivate endpoint''), f', snd fd)
      | (None, f') \<Rightarrow>
          (case SetEndpointActive flt now userID endpointID False (snd fd) of
             (Some e, d') \<Rightarrow> (Some (Wrapped e ''mark endpoint inactive locally''), f', d')
           | (None, d') \<Rightarrow> (None, f', d')))"

record profile_change =
  pc_Kind :: change_kind
  pc_Doc :: profile_document

definition applyUser ::
  "(string list \<Rightarrow> gerror + string) \<Rightarrow> (gerror \<Rightarrow> string) \<Rightarrow> gerror option \<Rightarrow> go_time \<Rightarrow> profile_change \<Rightarrow> profile_db \<Rightarrow>
     gerror option \<times> profile_db" where
  "applyUser marshal errText flt now change d =
     (if pc_Kind change = ChangeRemoved then DeletePreferences flt (pd_ID (pc_Doc change)) d
      else case PreferencesFromDocument (pc_Doc change) of
             Inl e \<Rightarrow> (Some (Wrapped ErrMalformedDocument (errText e)), d)
           | Inr preferences \<Rightarrow> PutPreferences marshal flt now preferences d)"

definition applyEndpoint ::
  "(gerror \<Rightarrow> string) \<Rightarrow> gerror option \<Rightarrow> go_time \<Rightarrow> profile_change \<Rightarrow> profile_db \<Rightarrow> gerror option \<times> profile_db" where
  "applyEndpoint errText flt now change d =
     (if pc_Kind change = ChangeRemoved then DeleteEndpoint flt (pd_UserID (pc_Doc change)) (pd_ID (pc_Doc change)) d
      else case EndpointFromDocument (pc_Doc change) of
             Inl e \<Rightarrow> (Some (Wrapped ErrMalformedDocument (errText e)), d)
           | Inr endpoint \<Rightarrow> PutEndpoint flt now endpoint d)"

text \<open>The batch loop of \<open>watchOnce\<close>, for either stream: \<open>apply\<close> with the failure and the clock of each call.\<close>

fun np_applyAll ::
  "(gerror option \<times> go_time \<Rightarrow> profile_change \<Rightarrow> profile_db \<Rightarrow> gerror option \<times> profile_db) \<Rightarrow>
     ((gerror option \<times> go_time) \<times> profile_change) list \<Rightarrow> profile_db \<Rightarrow> gerror option \<times> profile_db" where
  "np_applyAll app [] d = (None, d)"
| "np_applyAll app ((env, change) # changes) d =
     (case app env change d of
        (None, d') \<Rightarrow> np_applyAll app changes d'
      | (Some err, d') \<Rightarrow>
          if errors_Is err ErrMalformedDocument then np_applyAll app changes d'
          else (Some (Joined ErrPersistence err), d'))"

section \<open>The tables\<close>

text \<open>The states of the tables: what the listener and the service make of empty tables, failures included.\<close>

inductive profile_reach :: "(string list \<Rightarrow> gerror + string) \<Rightarrow> profile_db \<Rightarrow> bool" for marshal where
  empty: "profile_reach marshal \<lparr>user_prefs = [], endpoints = []\<rparr>"
| user: "profile_reach marshal d \<Longrightarrow> applyUser marshal errText flt now change d = (e, d') \<Longrightarrow> profile_reach marshal d'"
| endpoint: "profile_reach marshal d \<Longrightarrow> applyEndpoint errText flt now change d = (e, d') \<Longrightarrow> profile_reach marshal d'"
| active: "profile_reach marshal d \<Longrightarrow> SetEndpointActive flt now userID endpointID b d = (e, d') \<Longrightarrow> profile_reach marshal d'"

definition profile_inv :: "profile_db \<Rightarrow> bool" where
  "profile_inv d \<longleftrightarrow> distinct (map prefs_key (user_prefs d)) \<and> distinct (map endpoint_key (endpoints d)) \<and>
     (\<forall>r \<in> set (user_prefs d). prefs_key r \<noteq> '''') \<and>
     (\<forall>e \<in> set (endpoints d). ep_UserID e \<noteq> '''' \<and> ep_EndpointID e \<noteq> '''')"

lemma set_sql_upsert: "x \<in> set (sql_upsert key r t) \<Longrightarrow> x = r \<or> x \<in> set t"
  by (auto simp: sql_upsert_def split: if_splits)

lemma PutPreferences_inv [preserves]:
  "profile_inv d \<Longrightarrow> PutPreferences marshal flt now p d = (e, d') \<Longrightarrow> profile_inv d'"
  by (auto simp: PutPreferences_def profile_inv_def sql_upsert_distinct dest!: set_sql_upsert
      split: if_splits sum.splits option.splits)

lemma DeletePreferences_inv [preserves]: "profile_inv d \<Longrightarrow> DeletePreferences flt i d = (e, d') \<Longrightarrow> profile_inv d'"
  by (auto simp: DeletePreferences_def profile_inv_def sql_delete_distinct split: option.splits)

lemma PutEndpoint_inv [preserves]: "profile_inv d \<Longrightarrow> PutEndpoint flt now p d = (e, d') \<Longrightarrow> profile_inv d'"
  by (auto simp: PutEndpoint_def profile_inv_def sql_upsert_distinct dest!: set_sql_upsert
      split: if_splits option.splits)

lemma DeleteEndpoint_inv [preserves]: "profile_inv d \<Longrightarrow> DeleteEndpoint flt i j d = (e, d') \<Longrightarrow> profile_inv d'"
  by (auto simp: DeleteEndpoint_def profile_inv_def sql_delete_distinct split: option.splits)

lemma applyUser_inv [preserves]: "profile_inv d \<Longrightarrow> applyUser marshal errText flt now change d = (e, d') \<Longrightarrow> profile_inv d'"
  by (auto simp: applyUser_def dest: preserves split: if_splits sum.splits)

lemma applyEndpoint_inv [preserves]: "profile_inv d \<Longrightarrow> applyEndpoint errText flt now change d = (e, d') \<Longrightarrow> profile_inv d'"
  by (auto simp: applyEndpoint_def dest: preserves split: if_splits sum.splits)

lemma SetEndpointActive_inv [preserves]:
  assumes "profile_inv d" "SetEndpointActive flt now userID endpointID b d = (e, d')"
  shows "profile_inv d'"
proof -
  have k: "map endpoint_key (sql_update P (\<lambda>e. e\<lparr>ep_Active := b, ep_UpdatedAt := now\<rparr>) t) = map endpoint_key t" for P t
    by (rule sql_update_keys) simp
  from assms show ?thesis
    by (auto simp: SetEndpointActive_def profile_inv_def k split: option.splits)
qed

lemma profile_reach_inv: "profile_reach marshal d \<Longrightarrow> profile_inv d"
proof (induction rule: profile_reach.induct)
  case empty
  show ?case by (simp add: profile_inv_def)
next
  case (user d errText flt now change e d')
  from user.IH user.hyps(2) show ?case by (rule applyUser_inv)
next
  case (endpoint d errText flt now change e d')
  from endpoint.IH endpoint.hyps(2) show ?case by (rule applyEndpoint_inv)
next
  case (active d flt now userID endpointID b e d')
  from active.IH active.hyps(2) show ?case by (rule SetEndpointActive_inv)
qed

section \<open>Eligibility\<close>

lemma join_distinct:
  assumes "distinct (map f ps)" "distinct es"
  shows "distinct (map fst (filter (\<lambda>(e, p). f p = g e \<and> Q e p) (List.product es ps)))"
proof -
  have "distinct (map fst (filter (\<lambda>(e, p). f p = g e \<and> Q e p) (map (Pair e) ps)))" for e
  proof -
    have "length (filter (\<lambda>p. f p = g e) ps) \<le> 1" using assms(1) by (induction ps) (auto simp: filter_empty_conv image_iff)
    moreover have "length (filter (\<lambda>p. f p = g e \<and> Q e p) ps) \<le> length (filter (\<lambda>p. f p = g e) ps)"
      by (induction ps) auto
    moreover have "map fst (filter (\<lambda>(e, p). f p = g e \<and> Q e p) (map (Pair e) ps)) =
        replicate (length (filter (\<lambda>p. f p = g e \<and> Q e p) ps)) e"
      by (induction ps) auto
    moreover have "n \<le> 1 \<Longrightarrow> distinct (replicate n e)" for n by (cases n) auto
    ultimately show ?thesis by simp
  qed
  with assms(2) show ?thesis by (induction es) (auto simp: List.product.simps)
qed

lemma eligibleRows_spec:
  assumes "profile_inv d"
  shows "sorted (map endpoint_key (eligibleRows cs ids d))" "distinct (eligibleRows cs ids d)"
    and "e \<in> set (eligibleRows cs ids d) \<longleftrightarrow> e \<in> set (endpoints d) \<and> ep_Active e \<and> (ids = [] \<or> ep_UserID e \<in> set ids) \<and>
      (\<exists>p \<in> set (user_prefs d). prefs_key p = ep_UserID e \<and> (\<forall>c \<in> set cs. prefs_column c p))"
proof -
  show "sorted (map endpoint_key (eligibleRows cs ids d))" by (simp add: eligibleRows_def)
  have "distinct (endpoints d)" using assms by (auto simp: profile_inv_def distinct_map)
  then show "distinct (eligibleRows cs ids d)"
    using assms join_distinct [of prefs_key "user_prefs d" "endpoints d" ep_UserID
        "\<lambda>e p. ep_Active e \<and> (\<forall>c \<in> set cs. prefs_column c p) \<and> (ids = [] \<or> ep_UserID e \<in> set ids)"]
    by (simp add: eligibleRows_def profile_inv_def)
  show "e \<in> set (eligibleRows cs ids d) \<longleftrightarrow> e \<in> set (endpoints d) \<and> ep_Active e \<and> (ids = [] \<or> ep_UserID e \<in> set ids) \<and>
      (\<exists>p \<in> set (user_prefs d). prefs_key p = ep_UserID e \<and> (\<forall>c \<in> set cs. prefs_column c p))"
    by (auto simp: eligibleRows_def image_iff)
qed

lemma kinds_distinct [simp]:
  "KindPollOpens \<noteq> KindDiagnostic" "KindPollCompletes \<noteq> KindDiagnostic" "KindGlobalChat \<noteq> KindDiagnostic"
  "KindEventChat \<noteq> KindDiagnostic" "KindPollCompletes \<noteq> KindPollOpens" "KindGlobalChat \<noteq> KindPollOpens"
  "KindEventChat \<noteq> KindPollOpens" "KindGlobalChat \<noteq> KindPollCompletes" "KindEventChat \<noteq> KindPollCompletes"
  "KindEventChat \<noteq> KindGlobalChat"
  by (simp_all add: KindPollOpens_def KindPollCompletes_def KindGlobalChat_def KindEventChat_def KindDiagnostic_def)

lemma preferenceColumn_cases:
  assumes "preferenceColumn kind = Inr column"
  obtains "kind = KindPollOpens" "column = ''poll_opens''" | "kind = KindPollCompletes" "column = ''poll_completes''"
  | "kind = KindGlobalChat" "column = ''global_chat''" | "kind = KindEventChat" "column = ''event_chat''"
proof -
  consider "kind = KindPollOpens" | "kind \<noteq> KindPollOpens" "kind = KindPollCompletes"
    | "kind \<noteq> KindPollOpens" "kind \<noteq> KindPollCompletes" "kind = KindGlobalChat"
    | "kind \<noteq> KindPollOpens" "kind \<noteq> KindPollCompletes" "kind \<noteq> KindGlobalChat" "kind = KindEventChat"
    | "kind \<noteq> KindPollOpens" "kind \<noteq> KindPollCompletes" "kind \<noteq> KindGlobalChat" "kind \<noteq> KindEventChat" by blast
  then show thesis
    by cases (use assms that in \<open>simp_all add: preferenceColumn_def\<close>)
qed

lemma EligibleEndpoints_columns:
  assumes "EligibleEndpoints None sel d = Inr es"
  obtains cs where "es = eligibleRows cs (sel_UserIDs sel) d"
    "\<And>p. (\<forall>c \<in> set cs. prefs_column c p) \<longleftrightarrow> Enabled (pu_prefs p) (sel_Kind sel)"
proof (cases "sel_Kind sel = KindDiagnostic")
  case True
  show thesis
    by (rule that [of "[''web_push_enabled'']"])
      (use assms True in \<open>simp_all add: EligibleEndpoints_def prefs_column_def Enabled_def\<close>)
next
  case False
  with assms obtain column where c: "preferenceColumn (sel_Kind sel) = Inr column"
    "es = eligibleRows [''web_push_enabled'', column] (sel_UserIDs sel) d"
    by (auto simp: EligibleEndpoints_def split: sum.splits)
  have "(\<forall>c \<in> set [''web_push_enabled'', column]. prefs_column c p) \<longleftrightarrow> Enabled (pu_prefs p) (sel_Kind sel)" for p
    using c(1) by (cases rule: preferenceColumn_cases) (simp_all add: prefs_column_def Enabled_def)
  with c(2) show thesis by (rule that)
qed

text \<open>
  The query for eligible endpoints agrees with the preference rule. In every state the listener can
  produce, the endpoints returned for a kind are exactly the active ones whose owner has preferences that
  enable the kind, of the selected users when some are selected, each once and in the order of user and
  endpoint; so a user that switched notifications off, or was removed, is never sent one.
\<close>

theorem eligible_endpoints_enabled:
  assumes "profile_reach marshal d" "EligibleEndpoints None sel d = Inr es"
  shows "distinct es \<and> sorted (map (\<lambda>e. (ep_UserID e, ep_EndpointID e)) es) \<and>
    (\<forall>e. e \<in> set es \<longleftrightarrow> e \<in> set (endpoints d) \<and> ep_Active e \<and> (sel_UserIDs sel = [] \<or> ep_UserID e \<in> set (sel_UserIDs sel)) \<and>
       (\<exists>p \<in> set (user_prefs d). up_UserID (pu_prefs p) = ep_UserID e \<and> Enabled (pu_prefs p) (sel_Kind sel)))"
proof -
  from EligibleEndpoints_columns [OF assms(2)] obtain cs where cs: "es = eligibleRows cs (sel_UserIDs sel) d"
    "\<And>p. (\<forall>c \<in> set cs. prefs_column c p) \<longleftrightarrow> Enabled (pu_prefs p) (sel_Kind sel)" by blast
  show ?thesis
    unfolding cs(1) using eligibleRows_spec [OF profile_reach_inv [OF assms(1)], where cs = cs and ids = "sel_UserIDs sel"] by (simp add: cs(2))
qed

text \<open>What is stored for a user is what is read back, apart from the time of the write.\<close>

lemma Preferences_PutPreferences:
  assumes "PutPreferences marshal None now p d = (None, d')" "\<And>ids t. marshal ids = Inr t \<Longrightarrow> unmarshal t = Inr ids"
  shows "Preferences unmarshal None (up_UserID p) d' = Inr (p\<lparr>up_UpdatedAt := now\<rparr>)"
proof -
  from assms(1) obtain t where t: "marshal (up_EventChatMutedPollIDs p) = Inr t"
    and d': "user_prefs d' = sql_upsert prefs_key
      \<lparr>pu_prefs = p\<lparr>up_EventChatMutedPollIDs := [], up_UpdatedAt := now\<rparr>, pu_muted = t\<rparr> (user_prefs d)"
    by (auto simp: PutPreferences_def split: if_splits sum.splits)
  have "sql_row prefs_key (up_UserID p) (user_prefs d') =
      Some \<lparr>pu_prefs = p\<lparr>up_EventChatMutedPollIDs := [], up_UpdatedAt := now\<rparr>, pu_muted = t\<rparr>"
    using fun_cong [OF sql_row_upsert [of prefs_key
        "\<lparr>pu_prefs = p\<lparr>up_EventChatMutedPollIDs := [], up_UpdatedAt := now\<rparr>, pu_muted = t\<rparr>" "user_prefs d"], of "up_UserID p"]
    by (simp add: d')
  then show ?thesis by (simp add: Preferences_def assms(2) [OF t])
qed

definition demo_user :: profile_change where
  "demo_user = \<lparr>pc_Kind = ChangeAdded, pc_Doc = \<lparr>pd_ID = ''u'', pd_UserID = '''',
     pd_Data = Some [''webPushEnabled'' \<mapsto> ABool True]\<rparr>\<rparr>"

definition demo_device :: profile_change where
  "demo_device = \<lparr>pc_Kind = ChangeAdded, pc_Doc = \<lparr>pd_ID = ''d'', pd_UserID = ''u'',
     pd_Data = Some [''endpoint'' \<mapsto> AString ''https://push'', ''p256dh'' \<mapsto> AString ''k'', ''auth'' \<mapsto> AString ''a'',
       ''active'' \<mapsto> ABool True]\<rparr>\<rparr>"

definition demo_endpoint :: push_endpoint where
  "demo_endpoint = \<lparr>ep_EndpointID = ''d'', ep_UserID = ''u'', ep_URL = ''https://push'', ep_P256DH = ''k'', ep_Auth = ''a'',
     ep_Active = True, ep_UpdatedAt = 2\<rparr>"

lemma demo_profile:
  "\<exists>d. profile_reach (\<lambda>_. Inr ''[]'') d \<and> endpoints d = [demo_endpoint] \<and>
     (\<exists>p. user_prefs d = [p] \<and> up_UserID (pu_prefs p) = ''u'' \<and> Enabled (pu_prefs p) KindPollOpens)"
proof -
  let ?m = "\<lambda>_. Inr ''[]''"
  obtain e1 d1 where u: "applyUser ?m (\<lambda>_. []) None 1 demo_user \<lparr>user_prefs = [], endpoints = []\<rparr> = (e1, d1)" by fastforce
  have "endpoints d1 = [] \<and> map (\<lambda>p. (up_UserID (pu_prefs p), Enabled (pu_prefs p) KindPollOpens)) (user_prefs d1) = [(''u'', True)]"
    using u by (auto simp: applyUser_def demo_user_def PreferencesFromDocument_def PutPreferences_def Let_def
        sql_upsert_def optionalBool_def go_index_def Enabled_def)
  then have d1: "endpoints d1 = []" "\<exists>p. user_prefs d1 = [p] \<and> up_UserID (pu_prefs p) = ''u'' \<and> Enabled (pu_prefs p) KindPollOpens"
    by auto
  obtain e2 d2 where v: "applyEndpoint (\<lambda>_. []) None 2 demo_device d1 = (e2, d2)" by fastforce
  have d2: "endpoints d2 = [demo_endpoint]" "user_prefs d2 = user_prefs d1"
    using v d1(1) by (auto simp: applyEndpoint_def demo_device_def EndpointFromDocument_def PutEndpoint_def
        np_requiredString_def sql_upsert_def optionalBool_def go_index_def asString_def demo_endpoint_def)
  have "profile_reach ?m d2"
    by (rule profile_reach.endpoint [OF profile_reach.user [OF profile_reach.empty u] v])
  with d1(2) d2 show ?thesis by auto
qed

theorem eligible_endpoints_enabled_witness:
  "\<exists>d es. profile_reach (\<lambda>_. Inr ''[]'') d \<and>
     EligibleEndpoints None \<lparr>sel_Kind = KindPollOpens, sel_UserIDs = []\<rparr> d = Inr es \<and> distinct es \<and> demo_endpoint \<in> set es"
proof -
  let ?sel = "\<lparr>sel_Kind = KindPollOpens, sel_UserIDs = []\<rparr>"
  obtain d p where d: "profile_reach (\<lambda>_. Inr ''[]'') d" "endpoints d = [demo_endpoint]" "user_prefs d = [p]"
    "up_UserID (pu_prefs p) = ''u''" "Enabled (pu_prefs p) KindPollOpens" using demo_profile by blast
  obtain es where es: "EligibleEndpoints None ?sel d = Inr es" by (simp add: EligibleEndpoints_def preferenceColumn_def)
  from eligible_endpoints_enabled [OF d(1) es]
  have "distinct es" "demo_endpoint \<in> set es" using d(2-5) by (simp_all add: demo_endpoint_def)
  with d(1) es show ?thesis by blast
qed

end
