(* ===== verification/RateLimit.thy ===== *)
theory RateLimit
  imports Cells Calendar
begin

text \<open>
  components/ratelimit: a source of tokens that is refilled at every local midnight. The lock makes a call
  atomic, so a call is a function of the source's state; the callback that reports exhaustion runs after the
  state was changed and acts on the environment.
\<close>

section \<open>The source\<close>

record 'e token_source =
  ts_name :: string
  ts_maximum :: int
  ts_location :: location
  ts_onExhausted :: "('e \<Rightarrow> 'e) option"
  ts_period :: string
  ts_remaining :: int

text \<open>The clock, a function in the Go struct, is the argument \<open>now\<close> of every call; \<open>None\<close> is a nil clock.\<close>

definition newSource ::
  "string \<Rightarrow> int \<Rightarrow> location option \<Rightarrow> ('e \<Rightarrow> 'e) option \<Rightarrow> bool \<Rightarrow> gerror + 'e token_source" where
  "newSource name maximum loc onExhausted hasClock =
     (if name = '''' then Inl (Err ''rate limit source name is empty'')
      else if maximum \<le> 0 then Inl (Err ''rate limit source maximum must be positive'')
      else case loc of
        None \<Rightarrow> Inl (Err ''rate limit source location is nil'')
      | Some l \<Rightarrow>
          if \<not> hasClock then Inl (Err ''rate limit source clock is nil'')
          else Inr \<lparr>ts_name = name, ts_maximum = maximum, ts_location = l, ts_onExhausted = onExhausted,
                    ts_period = '''', ts_remaining = 0\<rparr>)"

definition RateLimit_New ::
  "string \<Rightarrow> int \<Rightarrow> location option \<Rightarrow> ('e \<Rightarrow> 'e) option \<Rightarrow> gerror + 'e token_source" where
  "RateLimit_New name maximum loc onExhausted = newSource name maximum loc onExhausted True"

text \<open>
  The duration is rounded up to whole seconds. Go rounds a floating-point number of seconds, which represents
  every duration of less than two days closely enough for its ceiling to be the exact one.
\<close>

definition secondsUntilNextMidnight :: "location \<Rightarrow> go_time \<Rightarrow> int" where
  "secondsUntilNextMidnight loc now =
     (let c = localCivil loc now;
          nextMidnight = time_Date loc (cv_Year c) (cv_Month c) (cv_Day c + 1) 0 0 0 0;
          seconds = - ((- time_Sub nextMidnight now) div Second)
      in if seconds < 1 then 1 else seconds)"

definition AcquireN ::
  "go_time \<Rightarrow> int \<Rightarrow> 'e token_source \<Rightarrow> 'e \<Rightarrow> (int \<times> gerror option) \<times> 'e token_source \<times> 'e" where
  "AcquireN now count s e =
     (if count \<le> 0 then ((0, Some (Err ''rate limit token count must be positive'')), s, e)
      else if count > ts_maximum s
      then ((0, Some (RequestExceedsCapacityError (ts_name s) count (ts_maximum s))), s, e)
      else
        let period = formatDate (localCivil (ts_location s) now);
            s1 = (if ts_period s \<noteq> period then s\<lparr>ts_period := period, ts_remaining := ts_maximum s\<rparr> else s)
        in if ts_remaining s1 < count
           then ((secondsUntilNextMidnight (ts_location s) now, None), s1, e)
           else
             let s2 = s1\<lparr>ts_remaining := ts_remaining s1 - count\<rparr>
             in ((0, None), s2,
                 case ts_onExhausted s2 of
                   Some f \<Rightarrow> if ts_remaining s2 = 0 then f e else e
                 | None \<Rightarrow> e))"

definition Acquire :: "go_time \<Rightarrow> 'e token_source \<Rightarrow> 'e \<Rightarrow> int \<times> 'e token_source \<times> 'e" where
  "Acquire now s e = (let ((wait, _), s', e') = AcquireN now 1 s e in (wait, s', e'))"

section \<open>The daily allowance\<close>

text \<open>A call is granted when it returns neither a wait nor an error.\<close>

fun granted :: "'e token_source \<Rightarrow> 'e \<Rightarrow> (go_time \<times> int) list \<Rightarrow> (go_time \<times> int) list" where
  "granted s e [] = []"
| "granted s e ((now, count) # calls) =
     (let (r, s', e') = AcquireN now count s e
      in if r = (0, None) then (now, count) # granted s' e' calls else granted s' e' calls)"

definition tokens_on :: "location \<Rightarrow> int \<Rightarrow> (go_time \<times> int) list \<Rightarrow> int" where
  "tokens_on loc day calls = sum_list (map snd (filter (\<lambda>(now, count). localDay loc now = day) calls))"

text \<open>The dates of the calls never go back, and are dates the layout can print.\<close>

definition calls_ok :: "location \<Rightarrow> (go_time \<times> int) list \<Rightarrow> bool" where
  "calls_ok loc calls \<longleftrightarrow> sorted (map (\<lambda>(now, count). localDay loc now) calls) \<and>
     list_all (\<lambda>(now, count). 0 \<le> cv_Year (localCivil loc now) \<and> cv_Year (localCivil loc now) < 10000) calls"

definition printable_day :: "int \<Rightarrow> bool" where
  "printable_day n \<longleftrightarrow> 0 \<le> cv_Year (civilOf n) \<and> cv_Year (civilOf n) < 10000"

lemma formatDate_inject:
  assumes "printable_day m" "printable_day n" "formatDate (civilOf m) = formatDate (civilOf n)"
  shows "m = n"
proof -
  have "parseISODate (formatDate (civilOf k)) = Some (civilOf k)" if "printable_day k" for k
    using that parse_format_date [OF civilOf_valid] by (simp add: printable_day_def)
  with assms have "civilOf m = civilOf n" by (metis option.inject)
  then show ?thesis by (metis civilDays_civilOf)
qed

lemma formatDate_nonempty: "formatDate c \<noteq> ''''"
  by (simp add: formatDate_def)

lemma calls_ok_Cons:
  "calls_ok loc ((now, count) # calls) \<longleftrightarrow> printable_day (localDay loc now) \<and> calls_ok loc calls \<and>
     (\<forall>(t, c) \<in> set calls. localDay loc now \<le> localDay loc t)"
  by (auto simp: calls_ok_def printable_day_def localCivil_def)

lemma granted_subset: "set (granted s e calls) \<subseteq> set calls"
proof (induction calls arbitrary: s e)
  case (Cons a calls)
  obtain now count r s' e' where "a = (now, count)" "AcquireN now count s e = (r, s', e')" by (metis prod_cases3 surj_pair)
  with Cons [of s' e'] show ?case by auto
qed simp

lemma tokens_on_none: "(\<forall>(t, c) \<in> set calls. localDay loc t \<noteq> day) \<Longrightarrow> tokens_on loc day (granted s e calls) = 0"
proof -
  assume "\<forall>(t, c) \<in> set calls. localDay loc t \<noteq> day"
  with granted_subset [of s e calls] have "filter (\<lambda>(t, c). localDay loc t = day) (granted s e calls) = []"
    by (auto simp: filter_empty_conv)
  then show ?thesis by (simp add: tokens_on_def)
qed

text \<open>The period of the source is a day that no later call precedes.\<close>

definition source_ok :: "'e token_source \<Rightarrow> (go_time \<times> int) list \<Rightarrow> bool" where
  "source_ok s calls \<longleftrightarrow> 0 \<le> ts_remaining s \<and> ts_remaining s \<le> ts_maximum s \<and>
     (ts_period s = '''' \<or> (\<exists>d. printable_day d \<and> ts_period s = formatDate (civilOf d) \<and>
        (\<forall>(t, c) \<in> set calls. d \<le> localDay (ts_location s) t)))"

definition left_on :: "int \<Rightarrow> 'e token_source \<Rightarrow> int" where
  "left_on day s = (if ts_period s = formatDate (civilOf day) then ts_remaining s else ts_maximum s)"

lemma secondsUntilNextMidnight_pos: "1 \<le> secondsUntilNextMidnight loc now"
  by (simp add: secondsUntilNextMidnight_def Let_def)

text \<open>One call: what it leaves of the allowance of its own day, and what kind of source it leaves.\<close>

lemma AcquireN_step:
  assumes "AcquireN now count s e = (r, s', e')" "source_ok s ((now, count) # calls)"
    and "calls_ok (ts_location s) ((now, count) # calls)"
  shows "source_ok s' calls" "ts_maximum s' = ts_maximum s" "ts_location s' = ts_location s"
    and "left_on (localDay (ts_location s) now) s' + (if r = (0, None) then count else 0) =
      left_on (localDay (ts_location s) now) s"
proof -
  let ?p = "formatDate (localCivil (ts_location s) now)"
  have p: "printable_day (localDay (ts_location s) now)" "localCivil (ts_location s) now = civilOf (localDay (ts_location s) now)"
    "\<forall>(t, c) \<in> set calls. localDay (ts_location s) now \<le> localDay (ts_location s) t"
    using assms(3) by (auto simp: calls_ok_Cons localCivil_def)
  consider (error) "s' = s" "\<exists>x. snd r = Some x"
    | (wait) "r \<noteq> (0, None)" "s' = (if ts_period s \<noteq> ?p then s\<lparr>ts_period := ?p, ts_remaining := ts_maximum s\<rparr> else s)"
    | (grant) "r = (0, None)" "s' = s\<lparr>ts_period := ?p, ts_remaining := (if ts_period s \<noteq> ?p then ts_maximum s else ts_remaining s) - count\<rparr>"
      "0 < count" "count \<le> (if ts_period s \<noteq> ?p then ts_maximum s else ts_remaining s)"
    using assms(1) secondsUntilNextMidnight_pos [of "ts_location s" now]
    by (auto simp: AcquireN_def Let_def split: if_splits)
  then have "source_ok s' calls \<and> ts_maximum s' = ts_maximum s \<and> ts_location s' = ts_location s \<and>
    left_on (localDay (ts_location s) now) s' + (if r = (0, None) then count else 0) = left_on (localDay (ts_location s) now) s"
    using assms(2) p by cases (auto simp: source_ok_def left_on_def)
  then show "source_ok s' calls" "ts_maximum s' = ts_maximum s" "ts_location s' = ts_location s"
    "left_on (localDay (ts_location s) now) s' + (if r = (0, None) then count else 0) =
      left_on (localDay (ts_location s) now) s" by auto
qed

lemma tokens_on_bound:
  assumes "source_ok s calls" "calls_ok (ts_location s) calls"
  shows "tokens_on (ts_location s) day (granted s e calls) \<le> left_on day s"
  using assms
proof (induction calls arbitrary: s e)
  case Nil
  then show ?case by (simp add: tokens_on_def left_on_def source_ok_def)
next
  case (Cons call calls)
  obtain now count r s' e' where c: "call = (now, count)" and a: "AcquireN now count s e = (r, s', e')"
    by (metis prod_cases3 surj_pair)
  note ok = Cons.prems [unfolded c] and step = AcquireN_step [OF a Cons.prems [unfolded c]]
  let ?loc = "ts_location s" and ?n = "localDay (ts_location s) now"
  have ih: "tokens_on ?loc day (granted s' e' calls) \<le> left_on day s'"
    using Cons.IH [of s' e'] step(1,3) ok(2) by (simp add: calls_ok_Cons)
  have split: "tokens_on ?loc day (granted s e (call # calls)) =
      (if ?n = day \<and> r = (0, None) then count else 0) + tokens_on ?loc day (granted s' e' calls)"
    by (simp add: a c tokens_on_def)
  consider "?n = day" | "day < ?n" | "?n < day" by linarith
  then show ?case
  proof cases
    case 1
    with ih split step(4) show ?thesis by (auto split: if_splits)
  next
    case 2
    then have "tokens_on ?loc day (granted s' e' calls) = 0"
      using ok(2) by (intro tokens_on_none) (auto simp: calls_ok_Cons)
    with 2 split ok(1) show ?thesis by (auto simp: left_on_def source_ok_def)
  next
    case 3
    show ?thesis
    proof (cases "\<exists>(t, c) \<in> set calls. localDay ?loc t = day")
      case False
      then have "tokens_on ?loc day (granted s' e' calls) = 0" by (intro tokens_on_none) auto
      with 3 split ok(1) show ?thesis by (auto simp: left_on_def source_ok_def)
    next
      case True
      then have "printable_day day"
        using ok(2) by (auto simp: calls_ok_def list_all_iff printable_day_def localCivil_def)
      then have "ts_period s \<noteq> formatDate (civilOf day)"
        using ok(1) 3 formatDate_inject formatDate_nonempty [of "civilOf day"] unfolding source_ok_def by fastforce
      then have "left_on day s = ts_maximum s" by (simp add: left_on_def)
      moreover have "left_on day s' \<le> ts_maximum s'" using step(1) by (simp add: left_on_def source_ok_def)
      ultimately show ?thesis using ih split 3 step(2) by simp
    qed
  qed
qed

lemma wait_reaches_midnight:
  assumes "\<bar>midnight loc (localDay loc now + 1) - now\<bar> < 2 ^ 63"
  shows "midnight loc (localDay loc now + 1) \<le> now + secondsUntilNextMidnight loc now * Second"
proof -
  let ?m = "midnight loc (localDay loc now + 1)"
  have d: "time_Date loc (cv_Year (localCivil loc now)) (cv_Month (localCivil loc now)) (cv_Day (localCivil loc now) + 1) 0 0 0 0 = ?m"
    using civilDays_civilOf [of "localDay loc now"] by (simp add: time_Date_midnight dateDays_add civilDays_def localCivil_def)
  have "(now - ?m) div Second * Second \<le> now - ?m"
    using pos_mod_sign [OF Second_pos, of "now - ?m"] div_mult_mod_eq [of "now - ?m" Second] by linarith
  then have "?m - now \<le> - ((- (?m - now)) div Second) * Second" by simp
  moreover have "- ((- (?m - now)) div Second) \<le> secondsUntilNextMidnight loc now"
    using time_Sub_exact [OF assms] by (simp add: secondsUntilNextMidnight_def Let_def d)
  then have "- ((- (?m - now)) div Second) * Second \<le> secondsUntilNextMidnight loc now * Second"
    by (intro mult_right_mono) (simp_all add: less_imp_le)
  ultimately show ?thesis by linarith
qed

text \<open>
  C39: on no local day does a source grant more tokens than its maximum, whatever the sequence of calls,
  as long as their dates do not go back; and a call that is refused is told to wait at least until the next
  local midnight.
\<close>

theorem daily_allowance:
  assumes "RateLimit_New name maximum (Some loc) onExhausted = Inr s" "calls_ok loc calls"
  shows "tokens_on loc day (granted s e calls) \<le> maximum \<and>
    (\<forall>now count s' e1 wait s1 e2. AcquireN now count s' e1 = ((wait, None), s1, e2) \<and> wait \<noteq> 0 \<and>
       \<bar>midnight (ts_location s') (localDay (ts_location s') now + 1) - now\<bar> < 2 ^ 63 \<longrightarrow>
       midnight (ts_location s') (localDay (ts_location s') now + 1) \<le> now + wait * Second)"
proof (intro conjI allI impI)
  have s: "ts_location s = loc" "ts_maximum s = maximum" "source_ok s calls" "left_on day s = maximum"
    using assms(1) formatDate_nonempty [of "civilOf day"]
    by (auto simp: RateLimit_New_def newSource_def source_ok_def left_on_def split: if_splits)
  with tokens_on_bound [of s calls day e] assms(2) show "tokens_on loc day (granted s e calls) \<le> maximum" by simp
next
  fix now count s' e1 wait s1 e2
  assume a: "AcquireN now count s' e1 = ((wait, None), s1, e2) \<and> wait \<noteq> 0 \<and>
    \<bar>midnight (ts_location s') (localDay (ts_location s') now + 1) - now\<bar> < 2 ^ 63"
  then have "wait = secondsUntilNextMidnight (ts_location s') now"
    by (auto simp: AcquireN_def Let_def split: if_splits)
  with a wait_reaches_midnight show "midnight (ts_location s') (localDay (ts_location s') now + 1) \<le> now + wait * Second"
    by blast
qed

definition demo_source :: "unit token_source" where
  "demo_source = \<lparr>ts_name = ''email.send'', ts_maximum = 2, ts_location = UTC, ts_onExhausted = None,
     ts_period = '''', ts_remaining = 0\<rparr>"

definition demo_calls :: "(go_time \<times> int) list" where
  "demo_calls = [(1 * Second, 1), (2 * Second, 1), (3 * Second, 1), (86400 * Second, 2)]"

lemma demo_calls_run:
  "calls_ok UTC demo_calls" "granted demo_source () demo_calls = [(1 * Second, 1), (2 * Second, 1), (86400 * Second, 2)]"
  by (code_simp, code_simp)

theorem daily_allowance_witness:
  "tokens_on UTC 0 (granted demo_source () demo_calls) \<le> 2 \<and>
   granted demo_source () demo_calls = [(1 * Second, 1), (2 * Second, 1), (86400 * Second, 2)]"
proof -
  have "RateLimit_New ''email.send'' 2 (Some UTC) None = Inr demo_source"
    by (simp add: RateLimit_New_def newSource_def demo_source_def)
  from daily_allowance [OF this demo_calls_run(1), THEN conjunct1] demo_calls_run(2) show ?thesis by blast
qed

end
