(* ===== verification/Diagnostics.thy ===== *)
theory Diagnostics
  imports Recurrence
begin

text \<open>
  components/diagnosticsconfig: the settings that silence notifications, who is still notified when they
  are silenced, and the service that keeps the last settings the watched document had.
\<close>

section \<open>Settings\<close>

definition PurposePollOpened :: string where "PurposePollOpened = ''poll-opened''"
definition PurposePollCompleted :: string where "PurposePollCompleted = ''poll-completed''"
definition PurposePollRescheduled :: string where "PurposePollRescheduled = ''poll-rescheduled''"
definition PurposeGlobalChat :: string where "PurposeGlobalChat = ''global-chat''"
definition PurposeEventChat :: string where "PurposeEventChat = ''event-chat''"

lemmas purpose_defs = PurposePollOpened_def PurposePollCompleted_def PurposePollRescheduled_def
  PurposeGlobalChat_def PurposeEventChat_def

record settings =
  SilenceNotifications :: bool
  NotifyPollActorWhenSilenced :: bool
  KeepChatNotificationsWhenSilenced :: bool

definition no_settings :: settings where
  "no_settings = \<lparr>SilenceNotifications = False, NotifyPollActorWhenSilenced = False,
     KeepChatNotificationsWhenSilenced = False\<rparr>"

definition AllowsLive :: "settings \<Rightarrow> string \<Rightarrow> string \<Rightarrow> string \<Rightarrow> bool" where
  "AllowsLive s purpose actorUID recipientUID =
     (if \<not> SilenceNotifications s then True
      else if purpose = PurposePollOpened \<or> purpose = PurposePollCompleted
      then NotifyPollActorWhenSilenced s \<and> actorUID \<noteq> '''' \<and> actorUID = recipientUID
      else if purpose = PurposeGlobalChat \<or> purpose = PurposeEventChat
      then KeepChatNotificationsWhenSilenced s
      else False)"

section \<open>Decoding the document\<close>

definition SilenceField :: string where "SilenceField = ''SilenceNotifications''"
definition NotifyField :: string where "NotifyField = ''NotifyPollActorWhenSilenced''"
definition KeepField :: string where "KeepField = ''KeepChatNotificationsWhenSilenced''"

definition set_field :: "string \<Rightarrow> bool \<Rightarrow> settings \<Rightarrow> settings" where
  "set_field field b s =
     (if field = SilenceField then s\<lparr>SilenceNotifications := b\<rparr>
      else if field = NotifyField then s\<lparr>NotifyPollActorWhenSilenced := b\<rparr>
      else s\<lparr>KeepChatNotificationsWhenSilenced := b\<rparr>)"

text \<open>The three fields are visited in the order of Go's iteration over a map, which is arbitrary: \<open>order\<close>.\<close>

fun decodeFields :: "go_map option \<Rightarrow> string list \<Rightarrow> settings \<Rightarrow> gerror + settings" where
  "decodeFields data [] s = Inr s"
| "decodeFields data (field # rest) s =
     (case (case data of None \<Rightarrow> None | Some m \<Rightarrow> m field) of
        None \<Rightarrow> decodeFields data rest s
      | Some (ABool b) \<Rightarrow> decodeFields data rest (set_field field b s)
      | Some _ \<Rightarrow> Inl (Err (''config/diagnostics.'' @ field @ '' must be a boolean'')))"

definition diagnostics_Decode :: "string list \<Rightarrow> go_map option \<Rightarrow> gerror + settings" where
  "diagnostics_Decode order data = decodeFields data order no_settings"

section \<open>The service\<close>

record diagnostics_service =
  dg_hasSource :: bool
  dg_started :: bool
  dg_settings :: settings
  dg_known :: bool

definition Diagnostics_New :: "bool \<Rightarrow> diagnostics_service" where
  "Diagnostics_New hasSource =
     \<lparr>dg_hasSource = hasSource, dg_started = False, dg_settings = no_settings, dg_known = False\<rparr>"

definition Diagnostics_Snapshot :: "diagnostics_service \<Rightarrow> settings \<times> bool" where
  "Diagnostics_Snapshot s = (dg_settings s, dg_known s)"

definition Diagnostics_Start :: "diagnostics_service \<Rightarrow> gerror option \<times> diagnostics_service" where
  "Diagnostics_Start s =
     (if dg_started s then (Some (Err ''diagnostics configuration watcher already started''), s)
      else if \<not> dg_hasSource s then (Some (Err ''diagnostics configuration source is required''), s)
      else (None, s\<lparr>dg_started := True\<rparr>))"

text \<open>What the source's callback does with the settings of a snapshot.\<close>

definition diagnostics_update :: "settings \<Rightarrow> diagnostics_service \<Rightarrow> diagnostics_service" where
  "diagnostics_update settings s = s\<lparr>dg_settings := settings, dg_known := True\<rparr>"

text \<open>
  One run of \<open>FirestoreSource\<close> on the documents its iterator yields: it ends at the first that cannot be
  decoded, and what was applied before is kept.
\<close>

fun watchDocuments ::
  "string list \<Rightarrow> go_map option list \<Rightarrow> diagnostics_service \<Rightarrow> gerror option \<times> diagnostics_service" where
  "watchDocuments order [] s = (None, s)"
| "watchDocuments order (doc # docs) s =
     (case diagnostics_Decode order doc of
        Inl e \<Rightarrow> (Some e, s)
      | Inr settings \<Rightarrow> watchDocuments order docs (diagnostics_update settings s))"

section \<open>Facts\<close>

lemma watch_keeps_known: "dg_known s \<Longrightarrow> dg_known (snd (watchDocuments order docs s))"
  by (induction order docs s rule: watchDocuments.induct) (auto simp: diagnostics_update_def split: sum.splits)

text \<open>When notifications are silenced nobody but the actor of a poll, and the readers of a chat, is notified.\<close>

lemma AllowsLive_silenced:
  "SilenceNotifications s \<Longrightarrow> AllowsLive s purpose actor recipient \<Longrightarrow>
     (purpose \<in> {PurposePollOpened, PurposePollCompleted} \<and> NotifyPollActorWhenSilenced s \<and> actor \<noteq> '''' \<and>
        recipient = actor) \<or>
     (purpose \<in> {PurposeGlobalChat, PurposeEventChat} \<and> KeepChatNotificationsWhenSilenced s)"
  by (auto simp: AllowsLive_def split: if_splits)

end
