(* ===== verification/Push.thy ===== *)
theory Push
  imports SqliteStore NotificationProfile RateLimit Diagnostics Utf8
begin

text \<open>
  plugins/push: durable delivery of Web Push notifications, one cell per endpoint, with the table
  \<open>push_deliveries\<close> that records what became of each delivery.

  The push service is the parameter \<open>send\<close>, the authoritative endpoint store the parameter
  \<open>invalidate\<close>, the token source the parameter \<open>acquire\<close>: each acts on the environment. The digest
  \<open>sha256\<close> is a parameter. One instant \<open>now\<close> stands for the successive readings of the clock in a call.
\<close>

section \<open>Deliveries\<close>

definition HandlerDeliver :: handler_name where "HandlerDeliver = ''push.deliver''"
definition HandlerWait :: handler_name where "HandlerWait = ''push.wait''"

definition waitDelay :: go_duration where "waitDelay = 5 * Second"
definition minRetryDelay :: go_duration where "minRetryDelay = 30 * Second"
definition maxRetryDelay :: go_duration where "maxRetryDelay = Hour"
definition minTTL :: go_duration where "minTTL = Hour"
definition maxTTL :: go_duration where "maxTTL = 5 * 24 * Hour"
definition topicMaxLen :: nat where "topicMaxLen = 32"

definition PushPending :: string where "PushPending = ''Pending''"
definition PushAccepted :: string where "PushAccepted = ''Accepted''"
definition PushRejected :: string where "PushRejected = ''Rejected''"
definition PushExpired :: string where "PushExpired = ''Expired''"

lemmas push_state_defs = PushPending_def PushAccepted_def PushRejected_def PushExpired_def

record push_delivery =
  dl_notification_id :: string
  dl_user_id :: string
  dl_endpoint_id :: string
  dl_state :: string
  dl_attempts :: int

type_synonym push_db = "push_delivery list"

definition dl_key :: "push_delivery \<Rightarrow> string \<times> string \<times> string" where
  "dl_key r = (dl_notification_id r, dl_user_id r, dl_endpoint_id r)"

definition Accepted :: "gerror option \<Rightarrow> string \<Rightarrow> push_db \<Rightarrow> gerror + nat" where
  "Accepted flt notificationID d =
     (case flt of
        Some e \<Rightarrow> Inl e
      | None \<Rightarrow> Inr (sql_count (\<lambda>r. dl_notification_id r = notificationID \<and> dl_state r = PushAccepted) d))"

record notification =
  nt_Purpose :: string
  nt_ActorUID :: string
  nt_ID :: string
  nt_Message :: string
  nt_Topic :: string
  nt_ExpiresAt :: go_time

record delivery_request =
  dr_Purpose :: string
  dr_ActorUID :: string
  dr_NotificationID :: string
  dr_UserID :: string
  dr_EndpointID :: string
  dr_Endpoint :: string
  dr_P256DH :: string
  dr_Auth :: string
  dr_Message :: string
  dr_Topic :: string
  dr_ExpiresAt :: go_time

record wait_request =
  wr_NotificationID :: string

text \<open>
  The payloads of the steps this package builds; the steps a caller adds have payloads of their own type.
\<close>

datatype 'p push_payload = DeliverPayload delivery_request | WaitPayload wait_request | ThenPayload 'p

definition dr_key :: "delivery_request \<Rightarrow> string \<times> string \<times> string" where
  "dr_key q = (dr_NotificationID q, dr_UserID q, dr_EndpointID q)"

section \<open>Application work\<close>

text \<open>A piece of work of this package on the open transaction; the transaction that does nothing ignores it.\<close>

definition push_work :: "(push_db \<Rightarrow> push_db) \<Rightarrow> push_db application_work" where
  "push_work f tx = Inr (case tx of NoopApplicationTx \<Rightarrow> NoopApplicationTx | SqlTx d \<Rightarrow> SqlTx (f d))"

text \<open>\<open>INSERT ... ON CONFLICT DO NOTHING\<close>\<close>

definition insertDelivery :: "string \<Rightarrow> push_endpoint \<Rightarrow> push_db \<Rightarrow> push_db" where
  "insertDelivery notificationID ep d =
     (let r = \<lparr>dl_notification_id = notificationID, dl_user_id = ep_UserID ep, dl_endpoint_id = ep_EndpointID ep,
               dl_state = PushPending, dl_attempts = 0\<rparr>
      in if sql_row dl_key (dl_key r) d = None then d @ [r] else d)"

definition populationWork :: "string \<Rightarrow> push_endpoint list \<Rightarrow> push_db application_work" where
  "populationWork notificationID eps = push_work (fold (insertDelivery notificationID) eps)"

definition finishDelivery :: "delivery_request \<Rightarrow> string \<Rightarrow> push_db \<Rightarrow> push_db" where
  "finishDelivery q state d =
     sql_update (\<lambda>r. dl_key r = dr_key q \<and> dl_state r = PushPending) (\<lambda>r. r\<lparr>dl_state := state\<rparr>) d"

definition finishWork :: "delivery_request \<Rightarrow> string \<Rightarrow> push_db application_work" where
  "finishWork q state = push_work (finishDelivery q state)"

definition countAttempt :: "delivery_request \<Rightarrow> push_db \<Rightarrow> push_db" where
  "countAttempt q d = sql_update (\<lambda>r. dl_key r = dr_key q) (\<lambda>r. r\<lparr>dl_attempts := dl_attempts r + 1\<rparr>) d"

definition attemptWork :: "delivery_request \<Rightarrow> push_db application_work" where
  "attemptWork q = push_work (countAttempt q)"

section \<open>Population\<close>

definition push_cellRequest :: "('p \<Rightarrow> gerror + string) \<Rightarrow> 'p step list \<Rightarrow> gerror + cell_request" where
  "push_cellRequest marshalJSON steps =
     (case NewSequence marshalJSON steps of Inl e \<Rightarrow> Inl e | Inr sequence \<Rightarrow> sequence)"

definition deliveryStep :: "notification \<Rightarrow> push_endpoint \<Rightarrow> 'p push_payload step" where
  "deliveryStep n ep = \<lparr>step_HandlerName = HandlerDeliver, step_Payload = DeliverPayload
     \<lparr>dr_Purpose = nt_Purpose n, dr_ActorUID = nt_ActorUID n, dr_NotificationID = nt_ID n,
      dr_UserID = ep_UserID ep, dr_EndpointID = ep_EndpointID ep, dr_Endpoint = ep_URL ep,
      dr_P256DH = ep_P256DH ep, dr_Auth = ep_Auth ep, dr_Message = nt_Message n, dr_Topic = nt_Topic n,
      dr_ExpiresAt = nt_ExpiresAt n\<rparr>\<rparr>"

definition followUpSteps :: "notification \<Rightarrow> push_endpoint list \<Rightarrow> 'p step list \<Rightarrow> 'p push_payload step list" where
  "followUpSteps n eps thn =
     (if length eps > 0
      then [\<lparr>step_HandlerName = HandlerWait, step_Payload = WaitPayload \<lparr>wr_NotificationID = nt_ID n\<rparr>\<rparr>] else []) @
     map (\<lambda>s. \<lparr>step_HandlerName = step_HandlerName s, step_Payload = ThenPayload (step_Payload s)\<rparr>) thn"

definition Populate ::
  "('p push_payload \<Rightarrow> gerror + string) \<Rightarrow> gerror option \<Rightarrow> notification \<Rightarrow> push_endpoint list \<Rightarrow>
     'p step list \<Rightarrow> push_db \<Rightarrow> gerror + push_db result" where
  "Populate marshalJSON flt n eps thn d =
     (case flt of
        Some e \<Rightarrow> Inl (Wrapped e ''read push population'')
      | None \<Rightarrow>
          if sql_count (\<lambda>r. dl_notification_id r = nt_ID n) d > 0 then Inr (Complete [] [])
          else (case res_map (\<lambda>ep. push_cellRequest marshalJSON [deliveryStep n ep]) eps of
                  Inl e \<Rightarrow> Inl e
                | Inr requests \<Rightarrow>
                    (let steps = followUpSteps n eps thn in
                     if length steps > 0
                     then (case push_cellRequest marshalJSON steps of
                             Inl e \<Rightarrow> Inl e
                           | Inr cell \<Rightarrow> Inr (Complete (requests @ [cell]) [Some (populationWork (nt_ID n) eps)]))
                     else Inr (Complete requests [Some (populationWork (nt_ID n) eps)]))))"

section \<open>Delivery\<close>

definition permanentFailure :: "int \<Rightarrow> bool" where
  "permanentFailure status \<longleftrightarrow> status = 400 \<or> status = 401 \<or> status = 403 \<or> status = 404 \<or> status = 410"

text \<open>\<open>minRetryDelay << attempts\<close> is computed for fewer than 7 attempts, where it does not overflow.\<close>

definition retryDelay :: "int \<Rightarrow> go_duration" where
  "retryDelay attempts =
     (if attempts < 7 then min (minRetryDelay * 2 ^ nat attempts) maxRetryDelay else maxRetryDelay)"

definition deliver_retry :: "go_time \<Rightarrow> delivery_request \<Rightarrow> int \<Rightarrow> push_db result" where
  "deliver_retry now q attempts =
     (let notBefore = now + retryDelay attempts
      in Retry (Some (if time_After notBefore (dr_ExpiresAt q) then dr_ExpiresAt q else notBefore)) []
           [Some (attemptWork q)])"

record subscription =
  sb_Endpoint :: string
  sb_P256DH :: string
  sb_Auth :: string

text \<open>
  The plugin: what it was configured with. \<open>pl_settings\<close> is \<open>None\<close> without a settings function, whose
  answer is the settings and whether they are known.
\<close>

record 'e push_plugin =
  pl_send :: "subscription \<Rightarrow> string \<Rightarrow> go_duration \<Rightarrow> string \<Rightarrow> 'e \<Rightarrow> (int \<times> gerror option) \<times> 'e"
  pl_invalidate :: "string \<Rightarrow> string \<Rightarrow> 'e \<Rightarrow> gerror option \<times> 'e"
  pl_acquire :: "'e \<Rightarrow> int \<times> 'e"
  pl_settings :: "('e \<Rightarrow> settings \<times> bool) option"
  pl_baseURL :: string

text \<open>The earlier of an instant and the expiry of the notification.\<close>

definition capped :: "delivery_request \<Rightarrow> go_time \<Rightarrow> go_time" where
  "capped q notBefore = (if time_After notBefore (dr_ExpiresAt q) then dr_ExpiresAt q else notBefore)"

definition deliver_send ::
  "'e push_plugin \<Rightarrow> go_time \<Rightarrow> delivery_request \<Rightarrow> int \<Rightarrow> 'e \<Rightarrow> push_db result \<times> 'e" where
  "deliver_send p now q attempts e =
     (case pl_acquire p e of
        (wait, e1) \<Rightarrow>
          if wait \<noteq> 0
          then if wait < 0 then (ErrorResult ''push send token source returned a negative wait'' None, e1)
               else (Retry (Some (capped q (now + wrap64 (wait * Second)))) [] [], e1)
          else
            (case pl_send p \<lparr>sb_Endpoint = dr_Endpoint q, sb_P256DH = dr_P256DH q, sb_Auth = dr_Auth q\<rparr>
                    (dr_Message q) (time_Sub (dr_ExpiresAt q) now) (dr_Topic q) e1 of
               ((status, err), e2) \<Rightarrow>
                 if err = None \<and> status \<ge> 200 \<and> status < 300
                 then (Complete [] [Some (finishWork q PushAccepted)], e2)
                 else if err = None \<and> permanentFailure status
                 then (case pl_invalidate p (dr_UserID q) (dr_EndpointID q) e2 of
                         (Some _, e3) \<Rightarrow> (deliver_retry now q attempts, e3)
                       | (None, e3) \<Rightarrow> (Complete [] [Some (finishWork q PushRejected)], e3))
                 else (deliver_retry now q attempts, e2)))"

definition deliver_Handle ::
  "'e push_plugin \<Rightarrow> gerror option \<Rightarrow> go_time \<Rightarrow> delivery_request \<Rightarrow> push_db \<Rightarrow> 'e \<Rightarrow> push_db result \<times> 'e" where
  "deliver_Handle p flt now q d e =
     (case flt of
        Some err \<Rightarrow> (ErrorResult ''read push delivery'' (Some err), e)
      | None \<Rightarrow>
          (case sql_row dl_key (dr_key q) d of
             None \<Rightarrow> (Complete [] [], e)
           | Some r \<Rightarrow>
               if dl_state r \<noteq> PushPending then (Complete [] [], e)
               else if time_Sub (dr_ExpiresAt q) now \<le> 0
               then (Complete [] [Some (finishWork q PushExpired)], e)
               else (case pl_settings p of
                       None \<Rightarrow> deliver_send p now q (dl_attempts r) e
                     | Some f \<Rightarrow>
                         (case f e of
                            (settings, known) \<Rightarrow>
                              if \<not> known then (Retry (Some (capped q (now + Second))) [] [], e)
                              else if \<not> AllowsLive settings (dr_Purpose q) (dr_ActorUID q) (dr_UserID q)
                              then (Complete [] [Some (finishWork q PushAccepted)], e)
                              else deliver_send p now q (dl_attempts r) e))))"

definition wait_Handle :: "gerror option \<Rightarrow> go_time \<Rightarrow> wait_request \<Rightarrow> push_db \<Rightarrow> push_db result" where
  "wait_Handle flt now w d =
     (case flt of
        Some err \<Rightarrow> ErrorResult ''read pending push deliveries'' (Some err)
      | None \<Rightarrow>
          if sql_count (\<lambda>r. dl_notification_id r = wr_NotificationID w \<and> dl_state r = PushPending) d > 0
          then Retry (Some (now + waitDelay)) [] []
          else Complete [] [])"

section \<open>Expiry and topic\<close>

definition TTL :: "string \<Rightarrow> go_time \<Rightarrow> go_duration" where
  "TTL pollDate now =
     (case parseISODate pollDate of
        None \<Rightarrow> minTTL
      | Some c \<Rightarrow> min (max (time_Sub (midnight UTC (civilDays c)) now) minTTL) maxTTL)"

definition topicRune :: "nat \<Rightarrow> nat" where
  "topicRune r =
     (if r < 128 \<and> ((97 \<le> r \<and> r \<le> 122) \<or> (65 \<le> r \<and> r \<le> 90) \<or> (48 \<le> r \<and> r \<le> 57) \<or> r = 45 \<or> r = 95)
      then r else 45)"

definition push_digest :: "(string \<Rightarrow> string) \<Rightarrow> string \<Rightarrow> string" where
  "push_digest sha256 value = hex_encode (sha256 value)"

definition Topic :: "(string \<Rightarrow> string) \<Rightarrow> string \<Rightarrow> string" where
  "Topic sha256 ident =
     (let sanitised = strings_Map topicRune ident in
      if sanitised = '''' then take topicMaxLen (push_digest sha256 ident)
      else if length sanitised \<le> topicMaxLen then sanitised
      else take (topicMaxLen - 13) sanitised @ ''-'' @ take 12 (push_digest sha256 sanitised))"

section \<open>Senders and construction\<close>

definition dummy_Send ::
  "subscription \<Rightarrow> string \<Rightarrow> go_duration \<Rightarrow> string \<Rightarrow> 'e \<Rightarrow> (int \<times> gerror option) \<times> 'e" where
  "dummy_Send sub message ttl topic e = ((201, None), e)"

definition vapidSubscriber :: "string \<Rightarrow> gerror + string" where
  "vapidSubscriber subject0 =
     (let subject = TrimSpace subject0 in
      if HasPrefix subject ''https://'' then Inr subject
      else
        let address = (if HasPrefix subject ''mailto:'' then drop 7 subject else subject)
        in if CHR ''@'' \<notin> set address
           then Inl (Err ''VAPID subject must be an email address, mailto: URI, or https URL'')
           else Inr address)"

record web_push_sender =
  wp_privateKey :: string
  wp_publicKey :: string
  wp_subscriber :: string

text \<open>
  \<open>decodeBase64\<close> is \<open>base64.RawURLEncoding.DecodeString\<close>; \<open>publicKey\<close> reads a P-256 private key and gives
  the encoded public key.
\<close>

definition newWebPushSender ::
  "(string \<Rightarrow> gerror + string) \<Rightarrow> (string \<Rightarrow> gerror + string) \<Rightarrow> string \<Rightarrow> string \<Rightarrow> gerror + web_push_sender" where
  "newWebPushSender decodeBase64 publicKey privateKey subject =
     (if privateKey = '''' then Inl (Err ''VAPID private key is required for web push'')
      else case decodeBase64 (TrimRight (CHR ''='') privateKey) of
        Inl e \<Rightarrow> Inl (Wrapped e ''decode VAPID private key'')
      | Inr raw \<Rightarrow>
          (case publicKey raw of
             Inl e \<Rightarrow> Inl (Wrapped e ''parse VAPID private key'')
           | Inr key \<Rightarrow>
               (case vapidSubscriber subject of
                  Inl e \<Rightarrow> Inl e
                | Inr subscriber \<Rightarrow>
                    Inr \<lparr>wp_privateKey = privateKey, wp_publicKey = key, wp_subscriber = subscriber\<rparr>)))"

record web_push_options =
  wo_Subscriber :: string
  wo_VAPIDPublicKey :: string
  wo_VAPIDPrivateKey :: string
  wo_TTL :: int
  wo_Topic :: string

text \<open>\<open>sendNotification\<close> is the function of the webpush-go package.\<close>

definition webPush_Send ::
  "(string \<Rightarrow> subscription \<Rightarrow> web_push_options \<Rightarrow> 'e \<Rightarrow> (gerror + int) \<times> 'e) \<Rightarrow> web_push_sender \<Rightarrow>
     subscription \<Rightarrow> string \<Rightarrow> go_duration \<Rightarrow> string \<Rightarrow> 'e \<Rightarrow> (int \<times> gerror option) \<times> 'e" where
  "webPush_Send sendNotification s sub message ttl topic e =
     (case sendNotification message sub
             \<lparr>wo_Subscriber = wp_subscriber s, wo_VAPIDPublicKey = wp_publicKey s, wo_VAPIDPrivateKey = wp_privateKey s,
              wo_TTL = max (ttl sdiv Second) 1, wo_Topic = topic\<rparr> e of
        (Inl err, e') \<Rightarrow> ((0, Some err), e')
      | (Inr status, e') \<Rightarrow> ((status, None), e'))"

definition DefaultBaseURL :: string where "DefaultBaseURL = ''https://ampubnight.org''"

record 'e push_options =
  po_Client :: string
  po_Tokens :: "('e \<Rightarrow> int \<times> 'e) option"
  po_NotificationSettings :: "('e \<Rightarrow> settings \<times> bool) option"
  po_VAPIDPrivateKey :: string
  po_VAPIDSubject :: string
  po_BaseURL :: string

text \<open>\<open>schema\<close> is the outcome of the statement that creates the table, \<open>hasDB\<close> whether the handle is not nil.\<close>

definition Push_New ::
  "(string \<Rightarrow> gerror + string) \<Rightarrow> (string \<Rightarrow> gerror + string) \<Rightarrow>
     (string \<Rightarrow> subscription \<Rightarrow> web_push_options \<Rightarrow> 'e \<Rightarrow> (gerror + int) \<times> 'e) \<Rightarrow> gerror option \<Rightarrow> bool \<Rightarrow>
     (string \<Rightarrow> string \<Rightarrow> 'e \<Rightarrow> gerror option \<times> 'e) option \<Rightarrow> 'e push_options \<Rightarrow> gerror + 'e push_plugin" where
  "Push_New decodeBase64 publicKey sendNotification schema hasDB invalidator opts =
     (if \<not> hasDB then Inl (Err ''db is required'')
      else case invalidator of
        None \<Rightarrow> Inl (Err ''endpoint invalidator is required'')
      | Some invalidate \<Rightarrow>
      (case po_Tokens opts of
        None \<Rightarrow> Inl (Err ''push send token source is required'')
      | Some acquire \<Rightarrow>
          (let sender =
             (if po_Client opts = ''dummy'' then Inr dummy_Send
              else if po_Client opts = ''webpush''
              then (case newWebPushSender decodeBase64 publicKey (po_VAPIDPrivateKey opts) (po_VAPIDSubject opts) of
                      Inl e \<Rightarrow> Inl e
                    | Inr s \<Rightarrow> Inr (webPush_Send sendNotification s))
              else if po_Client opts = '''' then Inl (Err ''push client kind is required'')
              else Inl (Err (''unknown push client kind '' @ po_Client opts)))
           in case sender of
                Inl e \<Rightarrow> Inl e
              | Inr send \<Rightarrow>
                  (case schema of
                     Some e \<Rightarrow> Inl (Wrapped e ''create push_deliveries schema'')
                   | None \<Rightarrow>
                       (let baseURL = TrimRight (CHR ''/'') (po_BaseURL opts)
                        in Inr \<lparr>pl_send = send, pl_invalidate = invalidate, pl_acquire = acquire,
                                pl_settings = po_NotificationSettings opts,
                                pl_baseURL = (if baseURL = '''' then DefaultBaseURL else baseURL)\<rparr>)))))"

section \<open>Topics\<close>

definition urlSafe :: "char \<Rightarrow> bool" where
  "urlSafe c \<longleftrightarrow> topicRune (of_char c) = of_char c"

lemma topicRune_ascii: "topicRune r < 128"
  by (simp add: topicRune_def)

lemma topicRune_safe: "urlSafe (char_of (topicRune r))"
  using topicRune_ascii [of r] by (auto simp: urlSafe_def topicRune_def)

lemma hex_char_safe: "d < 16 \<Longrightarrow> urlSafe (hex_char d)"
  by (auto simp: urlSafe_def topicRune_def of_char_hex_char)

lemma hex_encode_safe: "c \<in> set (hex_encode s) \<Longrightarrow> urlSafe c"
proof -
  assume "c \<in> set (hex_encode s)"
  then obtain b :: char where "c \<in> set (hex_byte b)" by (auto simp: hex_encode_def)
  moreover have "(of_char b :: nat) div 16 < 16" using of_char_bound [of b] by linarith
  ultimately show ?thesis by (auto simp: hex_byte_def intro: hex_char_safe)
qed

lemma hex_encode_length: "length (hex_encode s) = 2 * length s"
  by (induction s) (auto simp: hex_encode_def hex_byte_def)

text \<open>
  The topic of a notification is, for every identifier, between 1 and 32 characters long, all of them
  URL-safe, as the Web Push protocol requires. \<open>sha256\<close> gives 32 bytes.
\<close>

theorem topic_well_formed:
  assumes "\<And>s. length (sha256 s) = 32"
  shows "1 \<le> length (Topic sha256 ident) \<and> length (Topic sha256 ident) \<le> 32 \<and> (\<forall>c \<in> set (Topic sha256 ident). urlSafe c)"
proof -
  let ?s = "strings_Map topicRune ident"
  have s: "\<forall>c \<in> set ?s. urlSafe c" by (auto simp: strings_Map_ascii topicRune_ascii topicRune_safe)
  have d: "length (push_digest sha256 x) = 64" "\<forall>c \<in> set (push_digest sha256 x). urlSafe c" for x
    using assms by (auto simp: push_digest_def hex_encode_length hex_encode_safe)
  have dash: "urlSafe (CHR ''-'')" by (simp add: urlSafe_def topicRune_def)
  consider "?s = []" | "?s \<noteq> []" "length ?s \<le> 32" | "length ?s > 32" by linarith
  then show ?thesis
    by cases (use s d dash in \<open>auto simp: Topic_def Let_def topicMaxLen_def Suc_le_eq dest!: in_set_takeD\<close>)
qed

theorem topic_well_formed_witness:
  "length (Topic (\<lambda>s. replicate 32 (CHR ''a'')) ''poll opened: 0123456789012345678901234567890'') \<le> 32"
  using topic_well_formed [of "\<lambda>s. replicate 32 (CHR ''a'')" "''poll opened: 0123456789012345678901234567890''"] by simp

section \<open>How the table changes\<close>

text \<open>The application work a result commits.\<close>

definition committed_work :: "'db result \<Rightarrow> 'db application_work option list" where
  "committed_work res =
     (case res of
        Complete cs ws \<Rightarrow> ws | Retry t cs ws \<Rightarrow> ws | RetrySequence t cs ws \<Rightarrow> ws | Kill cs ws \<Rightarrow> ws | _ \<Rightarrow> [])"

text \<open>
  A commit of the work of a population or of a delivery. The handler ran earlier, on a database \<open>d0\<close> that
  others may have changed since.
\<close>

inductive push_step :: "('p push_payload \<Rightarrow> gerror + string) \<Rightarrow> 'e push_plugin \<Rightarrow> push_db \<Rightarrow> push_db \<Rightarrow> bool"
  for marshalJSON :: "'p push_payload \<Rightarrow> gerror + string" and p :: "'e push_plugin" where
  populate: "Populate marshalJSON flt n eps thn d0 = Inr res \<Longrightarrow> runSqlWork (committed_work res) d = Inr d' \<Longrightarrow>
     push_step marshalJSON p d d'"
| deliver: "runSqlWork (committed_work (fst (deliver_Handle p flt now q d0 e))) d = Inr d' \<Longrightarrow>
     push_step marshalJSON p d d'"
| wait: "runSqlWork (committed_work (wait_Handle flt now w d0)) d = Inr d' \<Longrightarrow> push_step marshalJSON p d d'"

definition push_terminal :: "string \<Rightarrow> bool" where
  "push_terminal st \<longleftrightarrow> st = PushAccepted \<or> st = PushRejected \<or> st = PushExpired"

lemma push_terminal_pending: "push_terminal st \<Longrightarrow> st \<noteq> PushPending"
  by (auto simp: push_terminal_def push_state_defs)

lemma Populate_work:
  "Populate marshalJSON flt n eps thn d0 = Inr res \<Longrightarrow>
     committed_work res = [] \<or> committed_work res = [Some (populationWork (nt_ID n) eps)]"
  by (auto simp: Populate_def committed_work_def Let_def split: option.splits if_splits sum.splits)

lemma deliver_send_work:
  "committed_work (fst (deliver_send p now q attempts e)) = [] \<or>
   committed_work (fst (deliver_send p now q attempts e)) = [Some (finishWork q PushAccepted)] \<or>
   committed_work (fst (deliver_send p now q attempts e)) = [Some (finishWork q PushRejected)] \<or>
   committed_work (fst (deliver_send p now q attempts e)) = [Some (attemptWork q)]"
  by (auto simp: deliver_send_def deliver_retry_def committed_work_def Let_def split: prod.splits option.splits)

lemma deliver_work:
  "committed_work (fst (deliver_Handle p flt now q d0 e)) = [] \<or>
   (\<exists>st. push_terminal st \<and> committed_work (fst (deliver_Handle p flt now q d0 e)) = [Some (finishWork q st)]) \<or>
   committed_work (fst (deliver_Handle p flt now q d0 e)) = [Some (attemptWork q)]"
proof (cases "\<exists>attempts. deliver_Handle p flt now q d0 e = deliver_send p now q attempts e")
  case True
  then show ?thesis using deliver_send_work unfolding push_terminal_def by metis
next
  case False
  then have "committed_work (fst (deliver_Handle p flt now q d0 e)) \<in>
      {[], [Some (finishWork q PushAccepted)], [Some (finishWork q PushExpired)]}"
    by (auto simp: deliver_Handle_def committed_work_def split: option.splits if_splits prod.splits)
  then show ?thesis unfolding push_terminal_def by blast
qed

lemma wait_work: "committed_work (wait_Handle flt now w d) = []"
  by (simp add: wait_Handle_def committed_work_def split: option.splits)

lemma run_push_work [simp]: "runSqlWork [Some (push_work f)] d = Inr d' \<longleftrightarrow> d' = f d"
  by (auto simp: push_work_def)

lemma push_step_cases:
  assumes "push_step marshalJSON p d d'"
  obtains "d' = d" | n eps where "d' = fold (insertDelivery n) eps d"
    | q st where "push_terminal st" "d' = finishDelivery q st d" | q where "d' = countAttempt q d"
  using assms
proof cases
  case (populate flt n eps thn d0 res)
  with Populate_work [OF populate(1)] that(1,2) show ?thesis by (auto simp: populationWork_def simp del: runSqlWork.simps(3))
next
  case (deliver flt now q d0 e)
  with deliver_work [of p flt now q d0 e] that(1,3,4) show ?thesis
    by (auto simp: finishWork_def attemptWork_def simp del: runSqlWork.simps(3))
next
  case (wait flt now w d0)
  with that(1) show ?thesis by (simp add: wait_work)
qed

section \<open>The table's invariant\<close>

definition push_inv :: "push_db \<Rightarrow> bool" where
  "push_inv d \<longleftrightarrow> distinct (map dl_key d) \<and>
     (\<forall>r \<in> set d. (dl_state r = PushPending \<or> push_terminal (dl_state r)) \<and> 0 \<le> dl_attempts r)"

lemma insertDelivery_inv [preserves]: "push_inv d \<Longrightarrow> push_inv (insertDelivery n ep d)"
  by (auto simp: push_inv_def insertDelivery_def Let_def sql_row_None)

lemma fold_insertDelivery_inv [preserves]: "push_inv d \<Longrightarrow> push_inv (fold (insertDelivery n) eps d)"
  by (induction eps arbitrary: d) (auto intro: preserves)

lemma finishDelivery_inv [preserves]: "push_inv d \<Longrightarrow> push_terminal st \<Longrightarrow> push_inv (finishDelivery q st d)"
  by (auto simp: push_inv_def finishDelivery_def dl_key_def)

lemma countAttempt_inv [preserves]: "push_inv d \<Longrightarrow> push_inv (countAttempt q d)"
  by (auto simp: push_inv_def countAttempt_def dl_key_def)

lemma push_step_inv: "push_step marshalJSON p d d' \<Longrightarrow> push_inv d \<Longrightarrow> push_inv d'"
  by (erule push_step_cases) (auto intro: preserves)

lemma push_steps_inv: "(push_step marshalJSON p)\<^sup>*\<^sup>* d d' \<Longrightarrow> push_inv d \<Longrightarrow> push_inv d'"
  by (induction rule: rtranclp_induct) (auto intro: push_step_inv)

section \<open>A delivery ends once\<close>

definition row_later :: "push_delivery \<Rightarrow> push_delivery \<Rightarrow> bool" where
  "row_later r r' \<longleftrightarrow> dl_key r' = dl_key r \<and> (dl_state r = PushPending \<or> dl_state r' = dl_state r) \<and> dl_attempts r \<le> dl_attempts r'"

lemma row_later_refl [simp]: "row_later r r"
  by (simp add: row_later_def)

lemma row_later_trans: "row_later a b \<Longrightarrow> row_later b c \<Longrightarrow> row_later a c"
  by (auto simp: row_later_def)

lemma insertDelivery_row: "sql_row dl_key k d = Some r \<Longrightarrow> sql_row dl_key k (insertDelivery n ep d) = Some r"
  by (simp add: insertDelivery_def Let_def sql_row_append)

lemma fold_insertDelivery_row: "sql_row dl_key k d = Some r \<Longrightarrow> sql_row dl_key k (fold (insertDelivery n) eps d) = Some r"
  by (induction eps arbitrary: d) (auto simp: insertDelivery_row)

lemma finishDelivery_row:
  "sql_row dl_key k (finishDelivery q st d) =
     map_option (\<lambda>r. if dl_key r = dr_key q \<and> dl_state r = PushPending then r\<lparr>dl_state := st\<rparr> else r) (sql_row dl_key k d)"
  unfolding finishDelivery_def by (rule sql_row_update) (simp add: dl_key_def)

lemma countAttempt_row:
  "sql_row dl_key k (countAttempt q d) =
     map_option (\<lambda>r. if dl_key r = dr_key q then r\<lparr>dl_attempts := dl_attempts r + 1\<rparr> else r) (sql_row dl_key k d)"
  unfolding countAttempt_def by (rule sql_row_update) (simp add: dl_key_def)

lemma push_step_row:
  assumes "push_step marshalJSON p d d'" "sql_row dl_key k d = Some r"
  shows "\<exists>r'. sql_row dl_key k d' = Some r' \<and> row_later r r'"
  using assms(1)
  by (rule push_step_cases)
    (use assms(2) in \<open>auto simp: fold_insertDelivery_row finishDelivery_row countAttempt_row row_later_def dl_key_def\<close>)

lemma push_steps_row:
  assumes "(push_step marshalJSON p)\<^sup>*\<^sup>* d d'" "sql_row dl_key k d = Some r"
  shows "\<exists>r'. sql_row dl_key k d' = Some r' \<and> row_later r r'"
  using assms
proof (induction rule: rtranclp_induct)
  case (step y z)
  then obtain r1 where "sql_row dl_key k y = Some r1" "row_later r r1" by blast
  with push_step_row [OF step(2), of k r1] row_later_trans show ?case by blast
qed simp

text \<open>
  C31: a delivery that was accepted, rejected or has expired stays so whatever is committed afterwards, and
  its cell, should it run again, completes without asking for a token, calling the push service or changing
  anything.
\<close>

theorem push_delivery_final:
  assumes "(push_step marshalJSON p)\<^sup>*\<^sup>* d d'" "sql_row dl_key (dr_key q) d = Some r" "dl_state r \<noteq> PushPending"
  shows "(\<exists>r'. sql_row dl_key (dr_key q) d' = Some r' \<and> dl_state r' = dl_state r) \<and>
    deliver_Handle p None now q d' e = (Complete [] [], e)"
proof -
  from push_steps_row [OF assms(1,2)] assms(3) obtain r'
    where "sql_row dl_key (dr_key q) d' = Some r'" "dl_state r' = dl_state r" by (auto simp: row_later_def)
  with assms(3) show ?thesis by (simp add: deliver_Handle_def)
qed

section \<open>A delivery ends\<close>

lemma time_Sub_nonpos: "time_Sub t u \<le> 0 \<longleftrightarrow> t \<le> u"
  by (auto simp: time_Sub_def)

lemma capped_bounds: "now < nb \<Longrightarrow> now < dr_ExpiresAt q \<Longrightarrow> now < capped q nb \<and> capped q nb \<le> dr_ExpiresAt q \<and> capped q nb \<le> nb"
  by (auto simp: capped_def time_After_def)

lemma retryDelay_bounds: "minRetryDelay \<le> retryDelay attempts \<and> retryDelay attempts \<le> maxRetryDelay"
proof -
  have "minRetryDelay * 1 \<le> minRetryDelay * 2 ^ nat attempts"
    by (intro mult_left_mono) (simp_all add: minRetryDelay_def Second_def)
  then show ?thesis by (auto simp: retryDelay_def minRetryDelay_def maxRetryDelay_def Hour_def Second_def)
qed

lemma deliver_retry_eq: "deliver_retry now q attempts = Retry (Some (capped q (now + retryDelay attempts))) [] [Some (attemptWork q)]"
  by (simp add: deliver_retry_def capped_def Let_def)

lemma deliver_send_retry:
  assumes "deliver_send p now q attempts e = (Retry t cs ws, e')" "now < dr_ExpiresAt q"
    and "\<And>e. fst (pl_acquire p e) * Second < 2 ^ 63"
  shows "\<exists>nb. t = Some nb \<and> now < nb \<and> nb \<le> dr_ExpiresAt q"
proof -
  have r: "0 < retryDelay attempts" using retryDelay_bounds [of attempts] by (simp add: minRetryDelay_def Second_def)
  obtain wait e1 where w: "pl_acquire p e = (wait, e1)" by fastforce
  have nb: "t = Some (capped q (now + retryDelay attempts)) \<or> (0 < wait \<and> t = Some (capped q (now + wrap64 (wait * Second))))"
    using assms(1) by (auto simp: deliver_send_def w deliver_retry_eq split: prod.splits if_splits option.splits)
  have "wrap64 (wait * Second) = wait * Second" if "0 < wait"
    using that assms(3) [of e] by (intro wrap64_id) (simp_all add: w Second_def)
  with nb r assms(2) show ?thesis
    using capped_bounds [of now "now + retryDelay attempts" q] capped_bounds [of now "now + wait * Second" q] by (auto simp: Second_def)
qed

text \<open>
  A delivery that is put off is due again after now and no later than the expiry of its notification;
  and a pending delivery that runs at its expiry or later is finished as expired without being sent. So every
  delivery is decided at the latest by its first run at its expiry. The waits of the token source fit a
  duration.
\<close>

theorem push_delivery_ends:
  assumes "\<And>e. fst (pl_acquire p e) * Second < 2 ^ 63" "sql_row dl_key (dr_key q) d = Some r" "dl_state r = PushPending"
  shows "(\<forall>now e t cs ws e'. deliver_Handle p None now q d e = (Retry t cs ws, e') \<longrightarrow>
      (\<exists>nb. t = Some nb \<and> now < nb \<and> nb \<le> dr_ExpiresAt q)) \<and>
    (\<forall>now e. dr_ExpiresAt q \<le> now \<longrightarrow> (\<exists>ws d'. deliver_Handle p None now q d e = (Complete [] ws, e) \<and>
       runSqlWork ws d = Inr d' \<and> sql_row dl_key (dr_key q) d' = Some (r\<lparr>dl_state := PushExpired\<rparr>)))"
proof (intro conjI allI impI)
  fix now e t cs ws e'
  assume h: "deliver_Handle p None now q d e = (Retry t cs ws, e')"
  then have x: "now < dr_ExpiresAt q"
    using assms(2,3) by (auto simp: deliver_Handle_def time_Sub_nonpos split: if_splits)
  consider "t = Some (capped q (now + Second))" | "deliver_send p now q (dl_attempts r) e = (Retry t cs ws, e')"
    using h assms(2,3) x by (auto simp: deliver_Handle_def time_Sub_nonpos split: if_splits option.splits prod.splits)
  then show "\<exists>nb. t = Some nb \<and> now < nb \<and> nb \<le> dr_ExpiresAt q"
  proof cases
    case 1
    with capped_bounds [of now "now + Second" q] x show ?thesis by simp
  next
    case 2
    from deliver_send_retry [OF this x assms(1)] show ?thesis .
  qed
next
  fix now e
  assume "dr_ExpiresAt q \<le> now"
  then have "deliver_Handle p None now q d e = (Complete [] [Some (finishWork q PushExpired)], e)"
    using assms(2,3) by (simp add: deliver_Handle_def time_Sub_nonpos)
  moreover have "dl_key r = dr_key q" using sql_row_Some [OF assms(2)] by simp
  then have "sql_row dl_key (dr_key q) (finishDelivery q PushExpired d) = Some (r\<lparr>dl_state := PushExpired\<rparr>)"
    using assms(2,3) by (simp add: finishDelivery_row)
  ultimately show "\<exists>ws d'. deliver_Handle p None now q d e = (Complete [] ws, e) \<and> runSqlWork ws d = Inr d' \<and>
      sql_row dl_key (dr_key q) d' = Some (r\<lparr>dl_state := PushExpired\<rparr>)"
    by (intro exI [of _ "[Some (finishWork q PushExpired)]"] exI [of _ "finishDelivery q PushExpired d"])
      (simp add: finishWork_def del: runSqlWork.simps)
qed

section \<open>Population\<close>

lemma insertDelivery_keys: "dl_key ` set (insertDelivery n ep d) = insert (n, ep_UserID ep, ep_EndpointID ep) (dl_key ` set d)"
  by (auto simp: insertDelivery_def Let_def sql_row_None dl_key_def image_iff)

lemma fold_insertDelivery_keys:
  "dl_key ` set (fold (insertDelivery n) eps d) = (\<lambda>ep. (n, ep_UserID ep, ep_EndpointID ep)) ` set eps \<union> dl_key ` set d"
  by (induction eps arbitrary: d) (auto simp: insertDelivery_keys)

lemma push_cellRequest_steps:
  "push_cellRequest m steps = Inr c \<Longrightarrow> map HandlerName (req_Steps c) = map step_HandlerName steps"
  by (auto simp: push_cellRequest_def NewSequence_Inr res_map_Inr cellStepFromStep_Inr split: sum.splits
      intro: list_all2_map_eq)

lemma fresh_no_rows: "sql_count (\<lambda>r. dl_notification_id r = n) d > 0 \<longleftrightarrow> n \<in> fst ` dl_key ` set d"
  using sql_count_0 [of "\<lambda>r. dl_notification_id r = n" d] by (auto simp: dl_key_def image_iff)

lemma push_steps_keys: "(push_step marshalJSON p)\<^sup>*\<^sup>* d d' \<Longrightarrow> dl_key ` set d \<subseteq> dl_key ` set d'"
proof
  fix k
  assume s: "(push_step marshalJSON p)\<^sup>*\<^sup>* d d'" and "k \<in> dl_key ` set d"
  then obtain r where "sql_row dl_key k d = Some r" using sql_row_None by (metis option.exhaust)
  with push_steps_row [OF s] obtain r' where "sql_row dl_key k d' = Some r'" by blast
  then show "k \<in> dl_key ` set d'" using sql_row_Some by fastforce
qed

text \<open>
  The first population of a notification adds one delivery cell per endpoint, in the order of the
  endpoints, and, when anything is to be done afterwards, one more cell whose first step is the wait for the
  deliveries; together with them it commits a pending delivery for every endpoint. From then on populating
  the same notification again does nothing, whatever else is committed in between.
\<close>

theorem populate_once:
  assumes "Populate marshalJSON None n eps thn d = Inr (Complete requests ws)" "eps \<noteq> []"
    and "sql_count (\<lambda>r. dl_notification_id r = nt_ID n) d = 0" "runSqlWork ws d = Inr d1"
    and "(push_step marshalJSON p)\<^sup>*\<^sup>* d1 d2" "nt_ID n2 = nt_ID n"
  shows "map (map HandlerName \<circ> req_Steps) requests =
      map (\<lambda>_. [HandlerDeliver]) eps @ [HandlerWait # map step_HandlerName thn] \<and>
    (\<forall>ep \<in> set eps. \<exists>r. sql_row dl_key (nt_ID n, ep_UserID ep, ep_EndpointID ep) d2 = Some r) \<and>
    Populate marshalJSON None n2 eps2 thn2 d2 = Inr (Complete [] [])"
proof -
  from assms(1-3) obtain cs c where cs: "res_map (\<lambda>ep. push_cellRequest marshalJSON [deliveryStep n ep]) eps = Inr cs"
    and c: "push_cellRequest marshalJSON (followUpSteps n eps thn) = Inr c"
    and r: "requests = cs @ [c]" "ws = [Some (populationWork (nt_ID n) eps)]"
    by (auto simp: Populate_def followUpSteps_def Let_def split: sum.splits)
  have "map (map HandlerName \<circ> req_Steps) cs = map (\<lambda>_. [HandlerDeliver]) eps"
    using cs unfolding res_map_Inr by (rule list_all2_map_eq) (auto dest!: push_cellRequest_steps simp: deliveryStep_def)
  moreover have "map HandlerName (req_Steps c) = HandlerWait # map step_HandlerName thn"
    using push_cellRequest_steps [OF c] assms(2) by (simp add: followUpSteps_def o_def)
  moreover have d1: "d1 = fold (insertDelivery (nt_ID n)) eps d" using assms(4) r(2) by (simp add: populationWork_def del: runSqlWork.simps)
  then have keys: "(\<lambda>ep. (nt_ID n, ep_UserID ep, ep_EndpointID ep)) ` set eps \<subseteq> dl_key ` set d2"
    using push_steps_keys [OF assms(5)] by (auto simp: fold_insertDelivery_keys)
  then have "\<exists>r. sql_row dl_key (nt_ID n, ep_UserID ep, ep_EndpointID ep) d2 = Some r" if "ep \<in> set eps" for ep
    using that keys by (auto intro!: sql_row_exists)
  moreover obtain ep where "ep \<in> set eps" using assms(2) by (cases eps) auto
  with keys have "(nt_ID n, ep_UserID ep, ep_EndpointID ep) \<in> dl_key ` set d2" by blast
  then have "nt_ID n \<in> fst ` dl_key ` set d2" by (rule rev_image_eqI) simp
  then have "Populate marshalJSON None n2 eps2 thn2 d2 = Inr (Complete [] [])"
    using fresh_no_rows [of "nt_ID n" d2] assms(6) by (simp add: Populate_def)
  ultimately show ?thesis using r(1) by simp
qed

lemma wait_completes:
  "wait_Handle None now w d = Complete [] [] \<longleftrightarrow>
     (\<forall>r \<in> set d. dl_notification_id r = wr_NotificationID w \<longrightarrow> dl_state r \<noteq> PushPending)"
  using sql_count_0 [of "\<lambda>r. dl_notification_id r = wr_NotificationID w \<and> dl_state r = PushPending" d]
  by (auto simp: wait_Handle_def)

section \<open>An example\<close>

definition demo_push :: "nat push_plugin" where
  "demo_push = \<lparr>pl_send = (\<lambda>_ _ _ _ e. ((201, None), Suc e)), pl_invalidate = (\<lambda>_ _ e. (None, e)),
     pl_acquire = Pair 0, pl_settings = None, pl_baseURL = DefaultBaseURL\<rparr>"

definition demo_push_endpoint :: push_endpoint where
  "demo_push_endpoint = \<lparr>ep_EndpointID = ''e1'', ep_UserID = ''u1'', ep_URL = ''https://push.example'', ep_P256DH = ''k'',
     ep_Auth = ''a'', ep_Active = True, ep_UpdatedAt = 0\<rparr>"

definition demo_note :: notification where
  "demo_note = \<lparr>nt_Purpose = ''poll-opened'', nt_ActorUID = '''', nt_ID = ''n1'', nt_Message = ''{}'', nt_Topic = ''n1'',
     nt_ExpiresAt = 100\<rparr>"

definition demo_delivery :: delivery_request where
  "demo_delivery = \<lparr>dr_Purpose = ''poll-opened'', dr_ActorUID = '''', dr_NotificationID = ''n1'', dr_UserID = ''u1'',
     dr_EndpointID = ''e1'', dr_Endpoint = ''https://push.example'', dr_P256DH = ''k'', dr_Auth = ''a'',
     dr_Message = ''{}'', dr_Topic = ''n1'', dr_ExpiresAt = 100\<rparr>"

definition demo_dl :: "string \<Rightarrow> push_delivery" where
  "demo_dl st = \<lparr>dl_notification_id = ''n1'', dl_user_id = ''u1'', dl_endpoint_id = ''e1'', dl_state = st, dl_attempts = 0\<rparr>"

abbreviation demo_marshal :: "unit push_payload \<Rightarrow> gerror + string" where
  "demo_marshal \<equiv> \<lambda>_. Inr ''{}''"

lemma demo_push_row: "sql_row dl_key (dr_key demo_delivery) [demo_dl st] = Some (demo_dl st)"
  by (simp add: dl_key_def dr_key_def demo_delivery_def demo_dl_def)

lemma demo_deliver_step: "push_step demo_marshal demo_push [demo_dl PushPending] [demo_dl PushAccepted]"
proof (rule push_step.deliver [of _ None 5 demo_delivery "[demo_dl PushPending]" 0])
  have h: "fst (deliver_Handle demo_push None 5 demo_delivery [demo_dl PushPending] 0) = Complete [] [Some (finishWork demo_delivery PushAccepted)]"
    by (simp add: deliver_Handle_def deliver_send_def time_Sub_nonpos dl_key_def dr_key_def demo_dl_def demo_push_def demo_delivery_def)
  have "finishDelivery demo_delivery PushAccepted [demo_dl PushPending] = [demo_dl PushAccepted]"
    by (simp add: finishDelivery_def sql_update_def dl_key_def dr_key_def demo_delivery_def demo_dl_def)
  then show "runSqlWork (committed_work (fst (deliver_Handle demo_push None 5 demo_delivery [demo_dl PushPending] 0))) [demo_dl PushPending] =
      Inr [demo_dl PushAccepted]"
    by (simp add: h committed_work_def finishWork_def del: runSqlWork.simps)
qed

theorem push_delivery_final_witness:
  "\<exists>r'. sql_row dl_key (dr_key demo_delivery) [demo_dl PushAccepted] = Some r' \<and>
    deliver_Handle demo_push None 7 demo_delivery [demo_dl PushAccepted] 3 = (Complete [] [], 3)"
proof -
  have "(push_step demo_marshal demo_push)\<^sup>*\<^sup>* [demo_dl PushAccepted] [demo_dl PushAccepted]" by simp
  moreover have "dl_state (demo_dl PushAccepted) \<noteq> PushPending" by (simp add: demo_dl_def push_state_defs)
  ultimately show ?thesis using push_delivery_final [OF _ demo_push_row, where now = 7 and e = 3] by blast
qed

theorem push_delivery_ends_witness:
  "\<exists>ws d'. deliver_Handle demo_push None 100 demo_delivery [demo_dl PushPending] 3 = (Complete [] ws, 3) \<and>
     runSqlWork ws [demo_dl PushPending] = Inr d' \<and>
     sql_row dl_key (dr_key demo_delivery) d' = Some ((demo_dl PushPending)\<lparr>dl_state := PushExpired\<rparr>)"
proof -
  have "fst (pl_acquire demo_push e) * Second < 2 ^ 63" for e by (simp add: demo_push_def)
  from push_delivery_ends [OF this demo_push_row, THEN conjunct2, of PushPending]
  show ?thesis by (simp add: demo_dl_def demo_delivery_def)
qed

lemma demo_populate:
  "Populate demo_marshal None demo_note [demo_push_endpoint] [] [] =
     Inr (Complete [\<lparr>req_Steps = [\<lparr>HandlerName = HandlerDeliver, Payload = ''{}''\<rparr>], req_ID = '''', req_NotBefore = None\<rparr>,
       \<lparr>req_Steps = [\<lparr>HandlerName = HandlerWait, Payload = ''{}''\<rparr>], req_ID = '''', req_NotBefore = None\<rparr>]
       [Some (populationWork ''n1'' [demo_push_endpoint])])"
  "runSqlWork [Some (populationWork ''n1'' [demo_push_endpoint])] [] = Inr [demo_dl PushPending]"
proof -
  show "Populate demo_marshal None demo_note [demo_push_endpoint] [] [] =
     Inr (Complete [\<lparr>req_Steps = [\<lparr>HandlerName = HandlerDeliver, Payload = ''{}''\<rparr>], req_ID = '''', req_NotBefore = None\<rparr>,
       \<lparr>req_Steps = [\<lparr>HandlerName = HandlerWait, Payload = ''{}''\<rparr>], req_ID = '''', req_NotBefore = None\<rparr>]
       [Some (populationWork ''n1'' [demo_push_endpoint])])"
    by (simp add: Populate_def sql_count_def followUpSteps_def push_cellRequest_def NewSequence_def
        cellRequestFromSteps_def cellStepFromStep_def deliveryStep_def HandlerDeliver_def HandlerWait_def demo_note_def)
  show "runSqlWork [Some (populationWork ''n1'' [demo_push_endpoint])] [] = Inr [demo_dl PushPending]"
    by (simp add: populationWork_def insertDelivery_def demo_dl_def demo_push_endpoint_def del: runSqlWork.simps)
qed

theorem populate_once_witness:
  "Populate demo_marshal None demo_note [demo_push_endpoint] [] [demo_dl PushAccepted] = Inr (Complete [] [])"
proof -
  have "(push_step demo_marshal demo_push)\<^sup>*\<^sup>* [demo_dl PushPending] [demo_dl PushAccepted]"
    by (rule r_into_rtranclp) (rule demo_deliver_step)
  from populate_once [OF demo_populate(1) _ _ demo_populate(2) this refl] show ?thesis by (simp add: sql_count_def)
qed

text \<open>
  C32: from the empty table and under any commits of populations, deliveries and waits, whatever the handlers
  saw, every row of the table is well-typed: its state is one of the four delivery states and its attempts
  are not negative, and no two rows are for the same notification, user and endpoint. So a delivery reads
  exactly its own row, and \<open>Accepted\<close> counts endpoints.
\<close>

theorem push_table_typed:
  assumes "(push_step marshalJSON p)\<^sup>*\<^sup>* [] d"
  shows "distinct (map dl_key d) \<and>
    (\<forall>r \<in> set d. dl_state r \<in> {PushPending, PushAccepted, PushRejected, PushExpired} \<and> 0 \<le> dl_attempts r \<and>
       sql_row dl_key (dl_key r) d = Some r) \<and>
    Accepted None n d = Inr (card {dl_key r | r. r \<in> set d \<and> dl_notification_id r = n \<and> dl_state r = PushAccepted})"
proof -
  have inv: "push_inv d" using push_steps_inv [OF assms] by (simp add: push_inv_def)
  then have dist: "distinct (map dl_key d)" by (simp add: push_inv_def)
  have rows: "\<forall>r \<in> set d. dl_state r \<in> {PushPending, PushAccepted, PushRejected, PushExpired} \<and> 0 \<le> dl_attempts r \<and>
      sql_row dl_key (dl_key r) d = Some r"
    using inv sql_row_mem [OF dist] by (auto simp: push_inv_def push_terminal_def)
  let ?P = "\<lambda>r. dl_notification_id r = n \<and> dl_state r = PushAccepted"
  have "distinct (map dl_key (filter ?P d))" using dist by (rule distinct_map_filter)
  then have "length (filter ?P d) = card (set (map dl_key (filter ?P d)))" using distinct_card by fastforce
  moreover have "set (map dl_key (filter ?P d)) = {dl_key r | r. r \<in> set d \<and> ?P r}" by auto
  ultimately have "Accepted None n d = Inr (card {dl_key r | r. r \<in> set d \<and> ?P r})"
    by (simp add: Accepted_def sql_count_def)
  with dist rows show ?thesis by blast
qed

theorem push_table_typed_witness:
  "distinct (map dl_key [demo_dl PushAccepted]) \<and>
   Accepted None ''n1'' [demo_dl PushAccepted] =
     Inr (card {dl_key r | r. r \<in> set [demo_dl PushAccepted] \<and> dl_notification_id r = ''n1'' \<and> dl_state r = PushAccepted})"
proof -
  have "push_step demo_marshal demo_push [] [demo_dl PushPending]"
    by (rule push_step.populate [OF demo_populate(1)]) (simp add: committed_work_def demo_populate(2) del: runSqlWork.simps)
  then have "(push_step demo_marshal demo_push)\<^sup>*\<^sup>* [] [demo_dl PushAccepted]"
    using demo_deliver_step by (meson converse_rtranclp_into_rtranclp r_into_rtranclp)
  from push_table_typed [OF this] show ?thesis by blast
qed

end
