(* ===== verification/Fanout.thy ===== *)
theory Fanout
  imports Runtime
begin

text \<open>
  fanout.go: a handler that replaces one cell by keyed child cells. The identifier of a child is a
  digest of the parent's identifier and the key; the digest function (\<open>sha256\<close>) is a parameter.
\<close>

section \<open>Targets\<close>

record fanout_target =
  ft_Key :: string
  ft_Cell :: "cell_definition option"
  ft_NotBefore :: "go_time option"

text \<open>\<open>binary.BigEndian.PutUint64\<close>: the eight bytes of a length, the most significant first.\<close>

definition be64 :: "nat \<Rightarrow> string" where
  "be64 n = map (\<lambda>k. char_of ((n div 256 ^ (7 - k)) mod 256)) [0..<8]"

definition fanout_preimage :: "cell_id \<Rightarrow> string \<Rightarrow> string" where
  "fanout_preimage parentID key =
     ''cellar/fanout-child/v1'' @ concat (map (\<lambda>part. be64 (length part) @ part) [parentID, key])"

definition deriveFanoutChildID :: "(string \<Rightarrow> string) \<Rightarrow> cell_id \<Rightarrow> string \<Rightarrow> cell_id" where
  "deriveFanoutChildID sha256 parentID key =
     ''fanout:'' @ hex_encode (sha256 (fanout_preimage parentID key))"

fun identifyTargets ::
  "(string \<Rightarrow> string) \<Rightarrow> cell_id \<Rightarrow> string list \<Rightarrow> fanout_target list \<Rightarrow> gerror + cell_request list" where
  "identifyTargets sha256 parentID keys [] = Inr []"
| "identifyTargets sha256 parentID keys (target # targets) =
     (if ft_Key target = '''' then Inl ErrFanoutTargetKeyRequired
      else if ft_Key target \<in> set keys then Inl (Wrapped ErrFanoutTargetKeyDuplicate (ft_Key target))
      else case ft_Cell target of
        None \<Rightarrow> Inl ErrFanoutTargetCellRequired
      | Some def \<Rightarrow>
          (case def of
             Inl e \<Rightarrow> Inl (Wrapped e (''materialise fanout target '' @ ft_Key target))
           | Inr child \<Rightarrow>
               (let request = \<lparr>req_Steps = req_Steps child,
                      req_ID = deriveFanoutChildID sha256 parentID (ft_Key target),
                      req_NotBefore = (case ft_NotBefore target of
                                         None \<Rightarrow> req_NotBefore child | Some t \<Rightarrow> Some t)\<rparr>
                in case identifyTargets sha256 parentID (ft_Key target # keys) targets of
                     Inl e \<Rightarrow> Inl e
                   | Inr requests \<Rightarrow> Inr (request # requests))))"

definition identifyFanoutTargets ::
  "(string \<Rightarrow> string) \<Rightarrow> cell_id \<Rightarrow> fanout_target list \<Rightarrow> gerror + cell_request list" where
  "identifyFanoutTargets sha256 parentID targets = identifyTargets sha256 parentID [] targets"

section \<open>The handler\<close>

type_synonym ('p, 'e) fanout_expander = "cell_id \<Rightarrow> 'p \<Rightarrow> 'e \<Rightarrow> (gerror + fanout_target list) \<times> 'e"

record ('p, 'e) fanout =
  fo_name :: handler_name
  fo_expander :: "('p, 'e) fanout_expander"

definition NewFanout ::
  "handler_name \<Rightarrow> ('p, 'e) fanout_expander option \<Rightarrow> gerror + ('p, 'e) fanout" where
  "NewFanout name expander =
     (if name = '''' then Inl ErrHandlerNameRequired
      else case expander of
             None \<Rightarrow> Inl ErrFanoutExpanderNil
           | Some x \<Rightarrow> Inr \<lparr>fo_name = name, fo_expander = x\<rparr>)"

definition fanout_Execute ::
  "(string \<Rightarrow> string) \<Rightarrow> (string \<Rightarrow> gerror + 'p) \<Rightarrow> ('p, 'e) fanout_expander option \<Rightarrow> cell \<Rightarrow> 'e \<Rightarrow>
     'db result \<times> 'e" where
  "fanout_Execute sha256 unmarshal expander c e =
     (case unmarshal (currentStepPayload c) of
        Inl err \<Rightarrow> (ErrorResult ''decode fanout payload'' (Some err), e)
      | Inr payload \<Rightarrow>
          (case expander of
             None \<Rightarrow> (ErrorResult ''expand fanout'' (Some ErrFanoutExpanderNil), e)
           | Some expand \<Rightarrow>
               (case expand (ID c) payload e of
                  (Inl err, e') \<Rightarrow> (ErrorResult ''expand fanout'' (Some err), e')
                | (Inr targets, e') \<Rightarrow>
                    (case identifyFanoutTargets sha256 (ID c) targets of
                       Inl err \<Rightarrow> (ErrorResult ''expand fanout'' (Some err), e')
                     | Inr children \<Rightarrow> (Complete children [], e')))))"

definition fanout_Register ::
  "(string \<Rightarrow> string) \<Rightarrow> (string \<Rightarrow> gerror + 'p) \<Rightarrow> (cell \<Rightarrow> 'v inspection) \<Rightarrow> ('p, 'e) fanout option \<Rightarrow>
     ('s, 'e, 'db, 'v) cellar option \<Rightarrow> gerror option \<times> ('s, 'e, 'db, 'v) cellar option" where
  "fanout_Register sha256 unmarshal inspect fo c =
     (case c of
        None \<Rightarrow> (Some ErrCellarNil, None)
      | Some cl \<Rightarrow>
          (case fo of
             None \<Rightarrow> (Some ErrFanoutNil, Some cl)
           | Some f \<Rightarrow>
               if cl_started cl then (Some ErrCellarStarted, Some cl)
               else (case Registry_Register (fo_name f)
                           (Some \<lparr>Execute = fanout_Execute sha256 unmarshal (Some (fo_expander f)),
                                  Inspect = inspect\<rparr>) (cl_registry cl) of
                       (None, g) \<Rightarrow> (None, Some (cl\<lparr>cl_registry := g\<rparr>))
                     | (Some err, g) \<Rightarrow>
                         (Some (if errors_Is err ErrHandlerAlreadyRegistered
                                then Wrapped ErrFanoutAlreadyExists (fo_name f) else err),
                          Some (cl\<lparr>cl_registry := g\<rparr>)))))"

definition fanout_Add ::
  "('p \<Rightarrow> gerror + string) \<Rightarrow> go_time \<Rightarrow> ('p, 'e) fanout option \<Rightarrow> 'p \<Rightarrow>
     ('s, 'e, 'db, 'v) cellar option \<Rightarrow> (gerror + cell_id) \<times> ('s, 'e, 'db, 'v) cellar option" where
  "fanout_Add marshalJSON now fo payload c =
     (case c of
        None \<Rightarrow> (Inl ErrCellarNil, None)
      | Some cl \<Rightarrow>
          (case fo of
             None \<Rightarrow> (Inl ErrFanoutNil, Some cl)
           | Some f \<Rightarrow>
               (let (r, cl') = Cellar_Add marshalJSON now (fo_name f) payload cl in (r, Some cl'))))"

definition fanout_Cell ::
  "('p \<Rightarrow> gerror + string) \<Rightarrow> ('p, 'e) fanout option \<Rightarrow> 'p \<Rightarrow> gerror + cell_definition" where
  "fanout_Cell marshalJSON fo payload =
     (case fo of
        None \<Rightarrow> Inl ErrFanoutNil
      | Some f \<Rightarrow> NewCellDefinition marshalJSON (fo_name f) payload)"

section \<open>The digest input\<close>

lemma length_be64 [simp]: "length (be64 n) = 8"
  by (simp add: be64_def)

lemma be64_prefix:
  fixes n :: nat
  assumes "n < 2 ^ 64" "j \<le> 8"
  shows "foldl (\<lambda>acc c. acc * 256 + of_char c) 0
    (map (\<lambda>k. char_of ((n div 256 ^ (7 - k)) mod 256)) [0..<j]) = n div 256 ^ (8 - j)"
  using assms(2)
proof (induction j)
  case 0
  then show ?case using assms(1) by simp
next
  case (Suc j)
  have e: "8 - j = Suc (7 - j)" using Suc.prems by simp
  have "n div 256 ^ (8 - j) = n div 256 ^ (7 - j) div 256"
    unfolding e by (simp only: power_Suc2 div_mult2_eq)
  with Suc show ?case by simp
qed

lemma be64_nat: "n < 2 ^ 64 \<Longrightarrow> foldl (\<lambda>acc c. acc * 256 + of_char c) 0 (be64 n) = n"
  using be64_prefix [of n 8] by (simp add: be64_def)

lemma be64_inject: "m < 2 ^ 64 \<Longrightarrow> n < 2 ^ 64 \<Longrightarrow> be64 m = be64 n \<longleftrightarrow> m = n"
  by (metis be64_nat)

lemma be64_part_inject:
  assumes "length p < 2 ^ 64" "length q < 2 ^ 64"
    "be64 (length p) @ p @ r = be64 (length q) @ q @ s"
  shows "p = q \<and> r = s"
proof -
  have "be64 (length p) = be64 (length q) \<and> p @ r = q @ s"
    using assms(3) by (simp add: append_eq_append_conv)
  with assms(1,2) show ?thesis by (auto simp: be64_inject append_eq_append_conv)
qed

lemma fanout_preimage_inject:
  assumes "length p < 2 ^ 64" "length p' < 2 ^ 64" "length k < 2 ^ 64" "length k' < 2 ^ 64"
  shows "fanout_preimage p k = fanout_preimage p' k' \<longleftrightarrow> p = p' \<and> k = k'"
proof
  assume "fanout_preimage p k = fanout_preimage p' k'"
  then have eq: "be64 (length p) @ p @ be64 (length k) @ k = be64 (length p') @ p' @ be64 (length k') @ k'"
    by (simp add: fanout_preimage_def)
  from be64_part_inject [OF assms(1,2) eq] have "p = p'" and r: "be64 (length k) @ k = be64 (length k') @ k'"
    by auto
  from r have "be64 (length k) @ k @ [] = be64 (length k') @ k' @ []" by simp
  from be64_part_inject [OF assms(3,4) this] \<open>p = p'\<close> show "p = p' \<and> k = k'" by simp
qed simp

lemma identifyTargets_Inr:
  "identifyTargets sha parent keys ts = Inr rs \<Longrightarrow>
   distinct (map ft_Key ts) \<and> set (map ft_Key ts) \<inter> set keys = {} \<and> [] \<notin> set (map ft_Key ts) \<and>
   list_all2 (\<lambda>t r. req_ID r = deriveFanoutChildID sha parent (ft_Key t) \<and>
     (\<exists>child. ft_Cell t = Some (Inr child) \<and> req_Steps r = req_Steps child \<and>
        req_NotBefore r = (case ft_NotBefore t of None \<Rightarrow> req_NotBefore child | Some x \<Rightarrow> Some x))) ts rs"
proof (induction sha parent keys ts arbitrary: rs rule: identifyTargets.induct)
  case (2 sha parent keys t ts)
  then obtain child rs' where
    "ft_Key t \<noteq> []" "ft_Key t \<notin> set keys" "ft_Cell t = Some (Inr child)"
    "identifyTargets sha parent (ft_Key t # keys) ts = Inr rs'"
    "rs = \<lparr>req_Steps = req_Steps child, req_ID = deriveFanoutChildID sha parent (ft_Key t),
       req_NotBefore = (case ft_NotBefore t of None \<Rightarrow> req_NotBefore child | Some x \<Rightarrow> Some x)\<rparr> # rs'"
    by (auto simp: Let_def split: if_splits option.splits sum.splits)
  with 2(1) [of "Inr child" child] show ?case by (auto simp: Let_def)
qed simp

text \<open>
  A fanout that succeeds produces one request per target, in order, with the steps of the target's
  cell, and, provided the digest does not collide on the inputs used, all with different identifiers.
  The inputs never coincide for different keys because every part is preceded by its length. The
  identifiers depend only on the parent and the key, so expanding again names the same children.
\<close>

theorem fanout_children_distinct:
  assumes "identifyFanoutTargets sha256 parent targets = Inr children"
    and "inj_on sha256 (fanout_preimage parent ` set (map ft_Key targets))"
    and "length parent < 2 ^ 64" "\<forall>t \<in> set targets. length (ft_Key t) < 2 ^ 64"
  shows "map req_ID children = map (\<lambda>t. deriveFanoutChildID sha256 parent (ft_Key t)) targets \<and>
    distinct (map req_ID children) \<and>
    list_all2 (\<lambda>t r. \<exists>child. ft_Cell t = Some (Inr child) \<and> req_Steps r = req_Steps child) targets children"
proof -
  note i = identifyTargets_Inr [OF assms(1) [unfolded identifyFanoutTargets_def]]
  then have ids: "map req_ID children = map (\<lambda>t. deriveFanoutChildID sha256 parent (ft_Key t)) targets"
    using list_all2_map_eq by (metis (mono_tags, lifting))
  have "inj_on (deriveFanoutChildID sha256 parent) (set (map ft_Key targets))"
  proof (rule inj_onI)
    fix k k' assume k: "k \<in> set (map ft_Key targets)" "k' \<in> set (map ft_Key targets)"
      and "deriveFanoutChildID sha256 parent k = deriveFanoutChildID sha256 parent k'"
    then have "sha256 (fanout_preimage parent k) = sha256 (fanout_preimage parent k')"
      by (simp add: deriveFanoutChildID_def)
    with assms(2) k have "fanout_preimage parent k = fanout_preimage parent k'" by (auto dest: inj_onD)
    with k assms(3,4) show "k = k'" by (auto simp: fanout_preimage_inject)
  qed
  with i have "distinct (map (deriveFanoutChildID sha256 parent) (map ft_Key targets))"
    by (simp only: distinct_map [of _ "map ft_Key targets"])
  with ids i show ?thesis by (auto simp: comp_def elim!: list_all2_mono)
qed

definition demo_target :: "string \<Rightarrow> fanout_target" where
  "demo_target k = \<lparr>ft_Key = k, ft_Cell = Some (Inr (demo_request '''')), ft_NotBefore = None\<rparr>"

lemma demo_target_key [simp]: "ft_Key (demo_target k) = k"
  by (simp add: demo_target_def)

theorem fanout_children_distinct_witness:
  "\<exists>children. identifyFanoutTargets id ''p'' [demo_target ''a'', demo_target ''b''] = Inr children \<and>
     map req_ID children = [deriveFanoutChildID id ''p'' ''a'', deriveFanoutChildID id ''p'' ''b''] \<and>
     distinct (map req_ID children)"
proof -
  obtain children where c: "identifyFanoutTargets id ''p'' [demo_target ''a'', demo_target ''b''] = Inr children"
    by (simp add: identifyFanoutTargets_def demo_target_def Let_def)
  have "inj_on id (fanout_preimage ''p'' ` set (map ft_Key [demo_target ''a'', demo_target ''b'']))" by simp
  moreover have "length ''p'' < 2 ^ 64" "\<forall>t \<in> set [demo_target ''a'', demo_target ''b'']. length (ft_Key t) < 2 ^ 64"
    by simp_all
  ultimately have f: "map req_ID children =
      map (\<lambda>t. deriveFanoutChildID id ''p'' (ft_Key t)) [demo_target ''a'', demo_target ''b''] \<and>
      distinct (map req_ID children)"
    using fanout_children_distinct [OF c] by blast
  show ?thesis
    by (intro exI conjI) (rule c, rule f [unfolded list.map demo_target_key, THEN conjunct1],
        rule f [THEN conjunct2])
qed

end
