(* ===== verification/EmailSend.thy ===== *)
theory EmailSend
  imports EmailStore Fanout
begin

text \<open>
  durable_email/send.go: the handlers of a durable Send operation, and the provider-neutral types of
  email_clients/clients/types.go. A Send is a sequence of three steps: Setup records the request,
  Recovery waits until every interrupted submission has been verified, Post submits the pending
  recipients.

  A handler reads and writes the tables \<open>d\<close> directly, calls the provider through the environment
  \<open>'e\<close>, and returns a result whose work cellar runs with the cell's transition. Webhook events that
  arrive while a handler runs change rows between its calls; the handler functions below see one
  state of the tables per call, and the pieces of work they return are correct in every later state.
\<close>

section \<open>Provider-neutral types\<close>

record address =
  ad_Email :: string
  ad_Name :: string

record 'v recipient =
  rp_Address :: address
  rp_Variables :: 'v

record 'v email =
  em_From :: address
  em_To :: "'v recipient list"
  em_Subject :: string
  em_TemplateID :: string
  em_Text :: string
  em_Variables :: 'v
  em_Headers :: string_map

text \<open>The result of a Send: the provider's message identifier per recipient.\<close>

type_synonym send_result = "string list"
type_synonym ('v, 'e) email_client = "'v email \<Rightarrow> 'e \<Rightarrow> (gerror + send_result) \<times> 'e"

record verify_request =
  vr_CorrelationID :: string
  vr_Recipient :: string
  vr_SentAt :: go_time

record verify_result =
  vs_Found :: bool
  vs_PMUID :: string

type_synonym 'e email_verifier = "verify_request \<Rightarrow> 'e \<Rightarrow> (gerror + verify_result) \<times> 'e"

definition MessageIDHeader :: string where "MessageIDHeader = ''X-Pubnight-Message-ID''"

definition VerifyDelay :: go_duration where "VerifyDelay = 120 * Second"

definition HandlerSetup :: handler_name where "HandlerSetup = ''durable_email.setup''"
definition HandlerPost :: handler_name where "HandlerPost = ''durable_email.post''"
definition HandlerRecovery :: handler_name where "HandlerRecovery = ''durable_email.recovery''"
definition HandlerRecoveryFanout :: handler_name where
  "HandlerRecoveryFanout = ''durable_email.recovery_fanout''"
definition HandlerVerify :: handler_name where "HandlerVerify = ''durable_email.verify''"

section \<open>The sequence of a Send\<close>

text \<open>The payloads of the steps: the request itself, or its token.\<close>

datatype 'v send_payload = SetupPayload "'v send_request" | OperationPayload string

definition NewSendSequence :: "'v send_request \<Rightarrow> 'v send_payload step list" where
  "NewSendSequence request =
     [\<lparr>step_HandlerName = HandlerSetup, step_Payload = SetupPayload request\<rparr>,
      \<lparr>step_HandlerName = HandlerRecovery,
       step_Payload = OperationPayload (rq_IdempotencyToken request)\<rparr>,
      \<lparr>step_HandlerName = HandlerPost,
       step_Payload = OperationPayload (rq_IdempotencyToken request)\<rparr>]"

section \<open>Setup\<close>

definition SetupHandler_Handle ::
  "(string \<Rightarrow> string \<Rightarrow> bool) \<Rightarrow> ('v \<Rightarrow> gerror + string) \<Rightarrow> (string_map \<Rightarrow> gerror + string) \<Rightarrow>
     gerror + string \<Rightarrow> go_time \<Rightarrow> 'v send_request \<Rightarrow> email_db result" where
  "SetupHandler_Handle same marshal marshalMap rand now request =
     (case insertRequestWork same marshal marshalMap rand now request of
        Inl e \<Rightarrow> ErrorResult ''prepare durable email request'' (Some e)
      | Inr work \<Rightarrow> Complete [] [Some work])"

section \<open>Recovery\<close>

definition recoveryDeadline :: "verify_candidate \<Rightarrow> verify_candidate list \<Rightarrow> go_time" where
  "recoveryDeadline c cs =
     foldl (\<lambda>deadline d. let later = vc_submittedAt d + VerifyDelay
              in if time_After later deadline then later else deadline)
       (vc_submittedAt c + VerifyDelay) cs"

definition RecoveryHandler_Handle ::
  "db_faults \<Rightarrow> db_faults \<Rightarrow> (string \<Rightarrow> gerror + string) \<Rightarrow> go_time \<Rightarrow> string \<Rightarrow> email_db \<Rightarrow>
     email_db result" where
  "RecoveryHandler_Handle flt1 flt2 marshalOp now token d =
     (case recoveryCandidates flt1 token d of
        Inl e \<Rightarrow> ErrorResult ''read recovery recipients'' (Some e)
      | Inr (c # cs) \<Rightarrow>
          (let deadline = recoveryDeadline c cs in
           case NewCellDefinition marshalOp HandlerRecoveryFanout token of
             Inl e \<Rightarrow> ErrorResult ''prepare recovery fanout'' (Some e)
           | Inr (Inl e) \<Rightarrow> ErrorResult ''prepare recovery fanout'' (Some e)
           | Inr (Inr child) \<Rightarrow>
               Retry (Some deadline) [child\<lparr>req_NotBefore := Some deadline\<rparr>] [Some (waitWork token)])
      | Inr [] \<Rightarrow>
          (case waitingRecipients flt2 token d of
             Inl e \<Rightarrow> ErrorResult ''read waiting recipients'' (Some e)
           | Inr waiting \<Rightarrow>
               if length waiting > 0 then Retry (Some (now + Second)) [] [] else Complete [] []))"

text \<open>The expansion into one Verify cell per waiting recipient; a Verify payload is (token, recipient).\<close>

definition recoveryTarget ::
  "(string \<times> string \<Rightarrow> gerror + string) \<Rightarrow> string \<Rightarrow> verify_candidate \<Rightarrow> gerror + fanout_target" where
  "recoveryTarget marshalVerify token c =
     (case NewCellDefinition marshalVerify HandlerVerify (token, vc_recipient c) of
        Inl e \<Rightarrow> Inl e
      | Inr def \<Rightarrow> Inr \<lparr>ft_Key = vc_recipient c, ft_Cell = Some def, ft_NotBefore = None\<rparr>)"

definition RecoveryFanout_Expand ::
  "db_faults \<Rightarrow> (string \<times> string \<Rightarrow> gerror + string) \<Rightarrow> string \<Rightarrow> email_db \<Rightarrow>
     gerror + fanout_target list" where
  "RecoveryFanout_Expand flt marshalVerify token d =
     (case waitingRecipients flt token d of
        Inl e \<Rightarrow> Inl e
      | Inr candidates \<Rightarrow> res_map (recoveryTarget marshalVerify token) candidates)"

section \<open>Post\<close>

record submission =
  sub_Token :: string
  sub_RecipientCount :: int
  sub_Metadata :: string_map

record ('v, 'e) submission_decision =
  sd_Client :: "('v, 'e) email_client option"
  sd_BestEffort :: bool
  sd_Delay :: go_duration

record ('v, 'e) post_handler =
  ph_Client :: "('v, 'e) email_client"
  ph_Guard :: "(submission \<Rightarrow> 'e \<Rightarrow> (gerror + go_duration) \<times> 'e) option"
  ph_Policy :: "(submission \<Rightarrow> 'e \<Rightarrow> (gerror + ('v, 'e) submission_decision) \<times> 'e) option"

definition newEmail :: "'v durable_request \<Rightarrow> 'v durable_recipient list \<Rightarrow> 'v email" where
  "newEmail common pending =
     \<lparr>em_From = \<lparr>ad_Email = dr_senderEmail common, ad_Name = dr_senderName common\<rparr>,
      em_To = map (\<lambda>r. \<lparr>rp_Address = \<lparr>ad_Email = rc_email r, ad_Name = rc_name r\<rparr>,
                         rp_Variables = rc_variables r\<rparr>) pending,
      em_Subject = dr_subject common, em_TemplateID = dr_templateID common,
      em_Text = dr_text common, em_Variables = dr_variables common,
      em_Headers = (dr_headers common)(MessageIDHeader \<mapsto> dr_messageID common)\<rparr>"

text \<open>The database calls of the handler, each with its own faults.\<close>

datatype post_call = ReadUnresolved | ReadPending | ReadRequest | WriteBestEffort | WriteSubmitted

text \<open>\<open>bestEffortPost\<close>; what the client answers is only logged.\<close>

definition bestEffortPost ::
  "db_faults \<Rightarrow> string \<Rightarrow> 'v durable_request \<Rightarrow> 'v durable_recipient list \<Rightarrow> ('v, 'e) email_client \<Rightarrow>
     email_db \<Rightarrow> 'e \<Rightarrow> email_db result \<times> email_db \<times> 'e" where
  "bestEffortPost flt token common pending client d e =
     (case acceptBestEffort flt token (dr_messageID common) pending d of
        (Some err, d') \<Rightarrow> (ErrorResult ''record best-effort acceptance'' (Some err), d', e)
      | (None, d') \<Rightarrow>
          (let (r, e') = client (newEmail common pending) e in (Complete [] [], d', e')))"

definition submitPending ::
  "db_faults \<Rightarrow> go_time \<Rightarrow> string \<Rightarrow> 'v durable_request \<Rightarrow> 'v durable_recipient list \<Rightarrow>
     ('v, 'e) email_client \<Rightarrow> email_db \<Rightarrow> 'e \<Rightarrow> email_db result \<times> email_db \<times> 'e" where
  "submitPending flt now token common pending client d e =
     (case markSubmitted flt token now d of
        (Some err, d') \<Rightarrow> (ErrorResult ''record submission time'' (Some err), d', e)
      | (None, d') \<Rightarrow>
          (case client (newEmail common pending) e of
             (Inl err, e') \<Rightarrow> (RetrySequence 0 [] [Some (recoverWork token)], d', e')
           | (Inr pmuids, e') \<Rightarrow>
               if length pmuids \<noteq> length pending
               then (RetrySequence 0 [] [Some (recoverWork token)], d', e')
               else if list_ex (\<lambda>u. u = '''') pmuids
               then (RetrySequence 0 [] [Some (recoverWork token)], d', e')
               else (Complete [] (map2 (\<lambda>r u. Some (acceptWork token (rc_email r) u)) pending pmuids),
                     d', e')))"

text \<open>The end of \<open>Handle\<close>, once the policy has decided.\<close>

definition postDecided ::
  "(post_call \<Rightarrow> db_faults) \<Rightarrow> ('v, 'e) post_handler \<Rightarrow> go_time \<Rightarrow> submission \<Rightarrow> 'v durable_request \<Rightarrow>
     'v durable_recipient list \<Rightarrow> ('v, 'e) submission_decision \<Rightarrow> email_db \<Rightarrow> 'e \<Rightarrow>
     email_db result \<times> email_db \<times> 'e" where
  "postDecided flts h now sub common pending decision d e =
     (let token = sub_Token sub;
          client = (case sd_Client decision of None \<Rightarrow> ph_Client h | Some c \<Rightarrow> c) in
      if sd_Delay decision < 0
      then (ErrorResult ''email submission policy returned a negative delay'' None, d, e)
      else if sd_Delay decision > 0 then (Retry (Some (now + sd_Delay decision)) [] [], d, e)
      else if sd_BestEffort decision
      then bestEffortPost (flts WriteBestEffort) token common pending client d e
      else case ph_Guard h of
        None \<Rightarrow> submitPending (flts WriteSubmitted) now token common pending client d e
      | Some guard \<Rightarrow>
          (case guard sub e of
             (Inl err, e') \<Rightarrow> (ErrorResult ''guard email submission'' (Some err), d, e')
           | (Inr delay, e') \<Rightarrow>
               if delay < 0
               then (ErrorResult ''email submission guard returned a negative delay'' None, d, e')
               else if delay > 0 then (Retry (Some (now + delay)) [] [], d, e')
               else submitPending (flts WriteSubmitted) now token common pending client d e'))"

definition PostHandler_Handle ::
  "(post_call \<Rightarrow> db_faults) \<Rightarrow> (string \<Rightarrow> gerror + 'v) \<Rightarrow> (string \<Rightarrow> gerror + string_map) \<Rightarrow>
     ('v, 'e) post_handler \<Rightarrow> go_time \<Rightarrow> string \<Rightarrow> email_db \<Rightarrow> 'e \<Rightarrow>
     email_db result \<times> email_db \<times> 'e" where
  "PostHandler_Handle flts unmarshal unmarshalMap h now token d e =
     (case hasUnresolved (flts ReadUnresolved) token d of
        Inl err \<Rightarrow> (ErrorResult ''read recovery state'' (Some err), d, e)
      | Inr True \<Rightarrow> (RetrySequence 0 [] [], d, e)
      | Inr False \<Rightarrow>
     (case pendingRecipients (flts ReadPending) unmarshal token d of
        Inl err \<Rightarrow> (ErrorResult ''read pending recipients'' (Some err), d, e)
      | Inr pending \<Rightarrow>
          if pending = [] then (Complete [] [], d, e)
          else
     (case readRequest (flts ReadRequest) unmarshal unmarshalMap token d of
        Inl err \<Rightarrow> (ErrorResult ''read durable email request'' (Some err), d, e)
      | Inr common \<Rightarrow>
          (let sub = \<lparr>sub_Token = token, sub_RecipientCount = int (length pending),
                      sub_Metadata = dr_metadata common\<rparr> in
           case ph_Policy h of
             None \<Rightarrow>
               postDecided flts h now sub common pending
                 \<lparr>sd_Client = Some (ph_Client h), sd_BestEffort = False, sd_Delay = 0\<rparr> d e
           | Some policy \<Rightarrow>
               (case policy sub e of
                  (Inl err, e') \<Rightarrow> (ErrorResult ''select email submission policy'' (Some err), d, e')
                | (Inr decision, e') \<Rightarrow> postDecided flts h now sub common pending decision d e')))))"

section \<open>Verify\<close>

definition VerifyHandler_Handle ::
  "db_faults \<Rightarrow> db_faults \<Rightarrow> (string \<Rightarrow> gerror + 'v) \<Rightarrow> (string \<Rightarrow> gerror + string_map) \<Rightarrow>
     'e email_verifier \<Rightarrow> string \<Rightarrow> string \<Rightarrow> email_db \<Rightarrow> 'e \<Rightarrow> email_db result \<times> 'e" where
  "VerifyHandler_Handle flt1 flt2 unmarshal unmarshalMap verify token recipient d e =
     (case waitingRecipient flt1 token recipient d of
        Inl err \<Rightarrow> (ErrorResult ''read verification recipient'' (Some err), e)
      | Inr None \<Rightarrow> (Complete [] [], e)
      | Inr (Some submittedAt) \<Rightarrow>
          (case readRequest flt2 unmarshal unmarshalMap token d of
             Inl err \<Rightarrow> (ErrorResult ''read durable email request'' (Some err), e)
           | Inr common \<Rightarrow>
               (case verify \<lparr>vr_CorrelationID = dr_messageID common, vr_Recipient = recipient,
                            vr_SentAt = submittedAt\<rparr> e of
                  (Inl err, e') \<Rightarrow> (ErrorResult (''verify '' @ recipient) (Some err), e')
                | (Inr result, e') \<Rightarrow>
                    if \<not> vs_Found result then (Complete [] [Some (absentWork token recipient)], e')
                    else if vs_PMUID result = ''''
                    then (ErrorResult (''verify '' @ recipient @ '' returned no PMUID'') None, e')
                    else (Complete [] [Some (acceptRecoveredWork token recipient (vs_PMUID result))], e'))))"

section \<open>Running the work of a result\<close>

lemma exec_work_SqlTx [simp]: "exec_work f (SqlTx d) = Inr (SqlTx (f d))"
  by (simp add: exec_work_def)

lemma runSqlWork_exec_works: "runSqlWork (map (\<lambda>x. Some (exec_work (f x))) xs) d = Inr (fold f xs d)"
  by (induction xs arbitrary: d) simp_all

text \<open>\<open>acceptUpdate\<close> on one row.\<close>

definition acceptRow :: "string \<Rightarrow> string \<Rightarrow> string \<Rightarrow> progress_row \<Rightarrow> progress_row" where
  "acceptRow token recipient pmuid p =
     (if pr_token p = token \<and> pr_recipient p = recipient \<and> pr_state p \<in> set (StatePending # afterSubmission)
      then p\<lparr>pr_state := (if pr_state p = StatePending then StateAccepted else pr_state p),
             pr_pmuid := (case pr_pmuid p of None \<Rightarrow> Some pmuid | Some x \<Rightarrow> Some x)\<rparr>
      else p)"

lemma acceptUpdate_rows:
  "email_progress (acceptUpdate StatePending t r u d) = map (acceptRow t r u) (email_progress d)"
  by (simp add: acceptUpdate_def sql_update_def acceptRow_def)

lemma acceptRow_other [simp]: "pr_recipient p \<noteq> r \<Longrightarrow> acceptRow t r u p = p"
  by (simp add: acceptRow_def)

lemma fold_acceptUpdate_rows:
  "email_progress (fold (\<lambda>(r, u). acceptUpdate StatePending t (rc_email r) u) zs d) =
   map (fold (\<lambda>(r, u). acceptRow t (rc_email r) u) zs) (email_progress d)"
  by (induction zs arbitrary: d) (auto simp: acceptUpdate_rows)

lemma fold_acceptRow_other:
  "pr_recipient p \<notin> rc_email ` fst ` set zs \<Longrightarrow> fold (\<lambda>(r, u). acceptRow t (rc_email r) u) zs p = p"
  by (induction zs arbitrary: p) auto

lemma fold_acceptRow:
  assumes "distinct (map (rc_email \<circ> fst) zs)" "(r, u) \<in> set zs" "pr_recipient p = rc_email r"
    "pr_token p = t" "pr_state p = StatePending" "pr_pmuid p = None"
  shows "fold (\<lambda>(r, u). acceptRow t (rc_email r) u) zs p = p\<lparr>pr_state := StateAccepted, pr_pmuid := Some u\<rparr>"
  using assms(1,2)
proof (induction zs)
  case (Cons z zs)
  show ?case
  proof (cases "z = (r, u)")
    case True
    have "acceptRow t (rc_email r) u p = p\<lparr>pr_state := StateAccepted, pr_pmuid := Some u\<rparr>"
      using assms(3-) by (simp add: acceptRow_def)
    moreover have "rc_email r \<notin> rc_email ` fst ` set zs" using Cons.prems(1) True by (auto simp: image_iff)
    ultimately show ?thesis using True assms(3) by (simp add: fold_acceptRow_other)
  next
    case False
    with Cons.prems have "(r, u) \<in> set zs" by auto
    moreover from this Cons.prems(1) have "rc_email (fst z) \<noteq> pr_recipient p"
      using assms(3) by (force simp: image_iff)
    ultimately show ?thesis using Cons by (cases z) auto
  qed
qed simp

lemma distinct_recipients:
  assumes "progress_inv d"
  shows "distinct (map pr_recipient (sql_select (in_state t st) pr_recipient (email_progress d)))"
proof -
  have "distinct (map pr_key (filter (in_state t st) (email_progress d)))"
    using assms distinct_map_filter by (auto simp: progress_inv_def)
  then have "distinct (map pr_recipient (filter (in_state t st) (email_progress d)))"
    by (auto simp: distinct_map inj_on_def pr_key_def in_state_def)
  then show ?thesis
    by (auto simp: sql_select_def distinct_map)
qed

section \<open>The outcome of a submission\<close>

text \<open>A recipient's row after an accepted submission, and after one that has to be verified.\<close>

definition accepted_in :: "email_db \<Rightarrow> progress_row \<Rightarrow> bool" where
  "accepted_in d p \<longleftrightarrow> (\<exists>q \<in> set (email_progress d). pr_key q = pr_key p \<and> pr_state q = StateAccepted \<and>
     (\<exists>u. pr_pmuid q = Some u \<and> u \<noteq> ''''))"

definition recovering_in :: "go_time \<Rightarrow> email_db \<Rightarrow> progress_row \<Rightarrow> bool" where
  "recovering_in now d p \<longleftrightarrow> (\<exists>q \<in> set (email_progress d). pr_key q = pr_key p \<and>
     pr_state q = StateRecovery \<and> pr_submitted_at q = Some now)"

lemma accepted_after_works:
  assumes "progress_inv d" "pendingRecipients flt um t d = Inr pending"
    "email_progress d' = sql_update (in_state t StatePending) (\<lambda>p. p\<lparr>pr_submitted_at := Some now\<rparr>) (email_progress d)"
    "length pmuids = length pending" "\<not> list_ex (\<lambda>u. u = '''') pmuids"
    "p \<in> set (email_progress d)" "in_state t StatePending p"
  shows "accepted_in (fold (\<lambda>(r, u). acceptUpdate StatePending t (rc_email r) u) (zip pending pmuids) d') p"
proof -
  note em = pendingRecipients_Inr [OF assms(2)]
  let ?p = "p\<lparr>pr_submitted_at := Some now\<rparr>"
  have "pr_recipient p \<in> set (map rc_email pending)" unfolding em using assms(6,7) by simp
  then obtain i where i: "i < length pending" "rc_email (pending ! i) = pr_recipient p"
    by (auto simp: in_set_conv_nth)
  let ?u = "pmuids ! i"
  have z: "(pending ! i, ?u) \<in> set (zip pending pmuids)"
    using i assms(4) by (auto simp: set_zip)
  have "map (rc_email \<circ> fst) (zip pending pmuids) = map rc_email pending"
    unfolding map_map [symmetric] map_fst_zip [OF assms(4) [symmetric]] ..
  then have dist: "distinct (map (rc_email \<circ> fst) (zip pending pmuids))"
    unfolding em using distinct_recipients [OF assms(1)] by simp
  have ok: "pr_pmuid p = None" using assms(1,6,7) by (auto simp: progress_inv_def row_ok_def in_state_def)
  have mem: "?p \<in> set (email_progress d')"
    unfolding assms(3) by (rule sql_update_hit) (rule assms(6), rule assms(7))
  have acc: "fold (\<lambda>(r, u). acceptRow t (rc_email r) u) (zip pending pmuids) ?p =
      ?p\<lparr>pr_state := StateAccepted, pr_pmuid := Some ?u\<rparr>"
    by (rule fold_acceptRow [OF dist z]) (use i ok assms(7) in \<open>auto simp: in_state_def\<close>)
  have "?p\<lparr>pr_state := StateAccepted, pr_pmuid := Some ?u\<rparr> \<in> set (email_progress
      (fold (\<lambda>(r, u). acceptUpdate StatePending t (rc_email r) u) (zip pending pmuids) d'))"
    unfolding fold_acceptUpdate_rows set_map by (rule rev_image_eqI [OF mem]) (rule acc [symmetric])
  moreover have "?u \<in> set pmuids" using i(1) assms(4) by simp
  then have "?u \<noteq> []" using assms(5) by (auto simp: list_ex_iff)
  ultimately show ?thesis unfolding accepted_in_def by (rule_tac bexI) (auto simp: pr_key_def)
qed

lemma best_effort_keeps:
  "acceptBestEffortRows flt t m k rs d = Inr d' \<Longrightarrow> p \<in> set (email_progress d) \<Longrightarrow>
   pr_state p \<noteq> StatePending \<Longrightarrow> p \<in> set (email_progress d')"
proof (induction flt t m k rs d rule: acceptBestEffortRows.induct)
  case (2 flt t m k r rs d)
  let ?P = "\<lambda>p. pr_token p = t \<and> pr_recipient p = rc_email r \<and> pr_state p = StatePending \<and>
      pr_submitted_at p = None"
  let ?f = "\<lambda>p. p\<lparr>pr_state := StateAccepted, pr_pmuid := Some (suppressedID m k), pr_submitted_at := None\<rparr>"
  have "p \<in> set (email_progress (set_progress ?P ?f d))"
    unfolding set_progress_sel by (rule sql_update_miss [OF 2(3)]) (simp add: 2(4))
  with 2(1,2,4) show ?case by (auto simp: Let_def split: option.splits if_splits)
qed simp

lemma suppressedID_nonempty [simp]: "suppressedID m k \<noteq> []"
  by (simp add: suppressedID_def)

lemma best_effort_accepts:
  "acceptBestEffortRows flt t m k rs d = Inr d' \<Longrightarrow> progress_inv d \<Longrightarrow> p \<in> set (email_progress d) \<Longrightarrow>
   pr_token p = t \<Longrightarrow> pr_state p = StatePending \<Longrightarrow> pr_recipient p \<in> rc_email ` set rs \<Longrightarrow> accepted_in d' p"
proof (induction flt t m k rs d rule: acceptBestEffortRows.induct)
  case (2 flt t m k r rs d)
  let ?P = "\<lambda>p. pr_token p = t \<and> pr_recipient p = rc_email r \<and> pr_state p = StatePending \<and>
      pr_submitted_at p = None"
  let ?f = "\<lambda>p. p\<lparr>pr_state := StateAccepted, pr_pmuid := Some (suppressedID m k), pr_submitted_at := None\<rparr>"
  let ?d = "set_progress ?P ?f d"
  from 2(2) have f: "flt (DbInsert k) = None" "sql_count ?P (email_progress d) = 1"
    and rest: "acceptBestEffortRows flt t m (Suc k) rs ?d = Inr d'"
    by (auto simp: Let_def split: option.splits if_splits)
  have inv: "progress_inv ?d"
    by (rule update_ok [OF 2(3), THEN conjunct1]) (simp add: row_step_best_effort)
  show ?case
  proof (cases "pr_recipient p = rc_email r")
    case True
    from f(2) have "\<exists>x \<in> set (email_progress d). ?P x"
      using sql_count_0 [of ?P "email_progress d"] by (metis zero_neq_one)
    then obtain x where x: "x \<in> set (email_progress d)" "?P x" by blast
    have "x = p" using progress_inv_unique [OF 2(3) x(1) 2(4)] x(2) 2(5) True by simp
    have "?f p \<in> set (email_progress ?d)"
      unfolding set_progress_sel by (rule sql_update_hit) (use x \<open>x = p\<close> in auto)
    from best_effort_keeps [OF rest this] show ?thesis
      unfolding accepted_in_def by (rule_tac bexI [of _ "?f p"]) (auto simp: pr_key_def)
  next
    case False
    then have "p \<in> set (email_progress ?d)"
      unfolding set_progress_sel by (intro sql_update_miss [OF 2(4)]) blast
    moreover have "pr_recipient p \<in> rc_email ` set rs" using False 2(7) by auto
    ultimately show ?thesis using 2(1) [OF f(1) refl] f(2) rest inv 2(5,6) by simp
  qed
qed simp

lemma submitPending_outcome:
  assumes "progress_inv d" "pendingRecipients flt um t d = Inr pending" "pending \<noteq> []"
    "submitPending flt' now t common pending client d e = (r, d', e')"
  shows "(\<exists>msg err. r = ErrorResult msg err \<and> d' = d) \<or>
    (\<exists>ws. r = Complete [] ws \<and> (\<exists>d''. runSqlWork ws d' = Inr d'' \<and>
       (\<forall>p \<in> set (email_progress d). in_state t StatePending p \<longrightarrow> accepted_in d'' p))) \<or>
    (\<exists>ws. r = RetrySequence 0 [] ws \<and> ws \<noteq> [] \<and> (\<exists>d''. runSqlWork ws d' = Inr d'' \<and>
       (\<forall>p \<in> set (email_progress d). in_state t StatePending p \<longrightarrow> recovering_in now d'' p)))"
proof (cases "flt' DbWrite")
  case (Some x)
  with assms(4) show ?thesis by (auto simp: submitPending_def markSubmitted_def)
next
  case None
  let ?d = "set_progress (in_state t StatePending) (\<lambda>p. p\<lparr>pr_submitted_at := Some now\<rparr>) d"
  obtain y e1 where y: "client (newEmail common pending) e = (y, e1)" by fastforce
  have rec: "recovering_in now (recoverUpdate t ?d) p"
    if "p \<in> set (email_progress d)" "in_state t StatePending p" for p
  proof -
    let ?p = "p\<lparr>pr_submitted_at := Some now\<rparr>"
    have "?p \<in> set (email_progress ?d)"
      unfolding set_progress_sel by (rule sql_update_hit) (rule that(1), rule that(2))
    then have "?p\<lparr>pr_state := StateRecovery\<rparr> \<in> set (email_progress (recoverUpdate t ?d))"
      unfolding recoverUpdate_def set_progress_sel
      by (rule sql_update_hit) (use that(2) in \<open>simp add: in_state_def\<close>)
    then show ?thesis unfolding recovering_in_def by (rule_tac bexI) (auto simp: pr_key_def)
  qed
  have retry: ?thesis if "r = RetrySequence 0 [] [Some (recoverWork t)]" "d' = ?d"
    using that rec by (auto simp: recoverWork_def)
  show ?thesis
  proof (cases y)
    case (Inl err)
    with assms(4) None y show ?thesis by (intro retry) (auto simp: submitPending_def markSubmitted_def)
  next
    case (Inr us)
    show ?thesis
    proof (cases "length us = length pending \<and> \<not> list_ex (\<lambda>u. u = '''') us")
      case False
      with Inr assms(4) None y show ?thesis
        by (intro retry) (auto simp: submitPending_def markSubmitted_def split: if_splits)
    next
      case True
      let ?ws = "map2 (\<lambda>r u. Some (acceptWork t (rc_email r) u)) pending us"
      have "runSqlWork ?ws ?d =
          Inr (fold (\<lambda>(r, u). acceptUpdate StatePending t (rc_email r) u) (zip pending us) ?d)"
        unfolding acceptWork_def case_prod_unfold by (rule runSqlWork_exec_works)
      moreover have "accepted_in (fold (\<lambda>(r, u). acceptUpdate StatePending t (rc_email r) u) (zip pending us) ?d) p"
        if "p \<in> set (email_progress d)" "in_state t StatePending p" for p
        by (rule accepted_after_works [OF assms(1,2) set_progress_sel(1) _ _ that]) (use True in auto)
      moreover have "r = Complete [] ?ws" "d' = ?d"
        using True Inr assms(4) None y by (auto simp: submitPending_def markSubmitted_def)
      ultimately show ?thesis by blast
    qed
  qed
qed

lemma bestEffortPost_outcome:
  assumes "progress_inv d" "pendingRecipients flt um t d = Inr pending"
    "bestEffortPost flt' t common pending client d e = (r, d', e')"
  shows "(\<exists>msg err. r = ErrorResult msg err \<and> d' = d) \<or>
    r = Complete [] [] \<and> (\<forall>p \<in> set (email_progress d). in_state t StatePending p \<longrightarrow> accepted_in d' p)"
proof (cases "\<exists>d1. acceptBestEffort flt' t (dr_messageID common) pending d = (None, d1)")
  case True
  then obtain d1 where d1: "acceptBestEffort flt' t (dr_messageID common) pending d = (None, d1)" by blast
  with assms(3) have r: "r = Complete [] []" "d' = d1"
    by (auto simp: bestEffortPost_def Let_def split: prod.splits)
  from d1 have rows: "acceptBestEffortRows flt' t (dr_messageID common) 0 pending d = Inr d1"
    by (auto simp: acceptBestEffort_def split: option.splits sum.splits)
  have "accepted_in d1 p" if "p \<in> set (email_progress d)" "in_state t StatePending p" for p
  proof (rule best_effort_accepts [OF rows assms(1) that(1)])
    have "pr_recipient p \<in> set (map rc_email pending)"
      unfolding pendingRecipients_Inr [OF assms(2)] using that by simp
    then show "pr_recipient p \<in> rc_email ` set pending" by simp
  qed (use that(2) in \<open>auto simp: in_state_def\<close>)
  with r show ?thesis by blast
next
  case False
  then have "snd (acceptBestEffort flt' t (dr_messageID common) pending d) = d"
    "\<exists>x. fst (acceptBestEffort flt' t (dr_messageID common) pending d) = Some x"
    by (auto simp: acceptBestEffort_def split: option.splits sum.splits)
  with assms(3) show ?thesis by (auto simp: bestEffortPost_def split: prod.splits option.splits)
qed

text \<open>What a Post promises about the recipients that were pending when it ran.\<close>

definition post_ok :: "go_time \<Rightarrow> string \<Rightarrow> email_db \<Rightarrow> email_db result \<Rightarrow> email_db \<Rightarrow> bool" where
  "post_ok now token d r d' \<longleftrightarrow>
     (case r of
        Complete adds ws \<Rightarrow> adds = [] \<and> (\<exists>d''. runSqlWork ws d' = Inr d'' \<and>
          (\<forall>p \<in> set (email_progress d). in_state token StatePending p \<longrightarrow> accepted_in d'' p))
      | RetrySequence delay adds ws \<Rightarrow> delay = 0 \<and> adds = [] \<and>
          (if ws = [] then d' = d
           else \<exists>d''. runSqlWork ws d' = Inr d'' \<and>
             (\<forall>p \<in> set (email_progress d). in_state token StatePending p \<longrightarrow> recovering_in now d'' p))
      | Retry nb adds ws \<Rightarrow> nb \<noteq> None \<and> the nb > now \<and> adds = [] \<and> ws = [] \<and> d' = d
      | ErrorResult msg err \<Rightarrow> d' = d
      | _ \<Rightarrow> False)"

lemma post_ok_simps [simp]:
  "post_ok now t d (ErrorResult msg err) d' \<longleftrightarrow> d' = d"
  "post_ok now t d (Retry nb adds ws) d' \<longleftrightarrow> nb \<noteq> None \<and> the nb > now \<and> adds = [] \<and> ws = [] \<and> d' = d"
  by (simp_all add: post_ok_def)

lemma postDecided_ok:
  assumes "progress_inv d" "pendingRecipients flt um t d = Inr pending" "pending \<noteq> []" "sub_Token sub = t"
    "postDecided flts h now sub common pending decision d e = (r, d', e')"
  shows "post_ok now t d r d'"
proof -
  let ?c = "case sd_Client decision of None \<Rightarrow> ph_Client h | Some c \<Rightarrow> c"
  have s: ?thesis if "submitPending (flts WriteSubmitted) now t common pending ?c d e1 = (r, d', e')" for e1
    using submitPending_outcome [OF assms(1-3) that] by (auto simp: post_ok_def)
  have b: ?thesis if "bestEffortPost (flts WriteBestEffort) t common pending ?c d e = (r, d', e')"
    using bestEffortPost_outcome [OF assms(1,2) that] by (auto simp: post_ok_def)
  show ?thesis
    using assms(5) unfolding postDecided_def Let_def assms(4)
    by (auto split: if_splits option.splits prod.splits sum.splits intro: s b)
qed

text \<open>
  C14: Post either settles or reports. When it completes, every recipient of the request that was pending
  is accepted with a provider identifier once cellar has run the returned work; when it retries the
  sequence after calling the provider, every such recipient is in recovery with the time of this
  submission; a delay or an error leaves the tables as they were. So no recipient is lost, and none
  that may have reached the provider stays pending.
\<close>

theorem post_outcome:
  assumes "progress_inv d" "PostHandler_Handle flts um umm h now token d e = (r, d', e')"
  shows "post_ok now token d r d'"
proof (cases "hasUnresolved (flts ReadUnresolved) token d")
  case (Inl err)
  with assms(2) show ?thesis by (auto simp: PostHandler_Handle_def post_ok_def)
next
  case (Inr b)
  show ?thesis
  proof (cases "b \<or> (\<exists>err. pendingRecipients (flts ReadPending) um token d = Inl err)")
    case True
    with Inr assms(2) show ?thesis
      by (cases b) (auto simp: PostHandler_Handle_def post_ok_def)
  next
    case False
    then obtain pending where p: "pendingRecipients (flts ReadPending) um token d = Inr pending" "b = False"
      by (cases "pendingRecipients (flts ReadPending) um token d") auto
    show ?thesis
    proof (cases "pending = []")
      case True
      with pendingRecipients_Inr [OF p(1)] have "\<forall>q \<in> set (email_progress d). \<not> in_state token StatePending q"
        by (simp add: sql_select_Nil)
      with True p Inr assms(2) show ?thesis by (auto simp: PostHandler_Handle_def post_ok_def)
    next
      case False
      note ok = postDecided_ok [OF assms(1) p(1) False]
      from False p Inr assms(2) show ?thesis
        by (auto simp: PostHandler_Handle_def Let_def
            split: sum.splits option.splits prod.splits intro: ok [rotated])
    qed
  qed
qed

definition demo_pending :: email_db where
  "demo_pending = demo_accepted\<lparr>email_progress := [
     \<lparr>pr_token = ''t'', pr_recipient = ''a'', pr_recipient_name = '''', pr_state = StatePending,
       pr_pmuid = None, pr_variables = ''{}'', pr_submitted_at = None\<rparr>,
     \<lparr>pr_token = ''t'', pr_recipient = ''b'', pr_recipient_name = '''', pr_state = StatePending,
       pr_pmuid = None, pr_variables = ''{}'', pr_submitted_at = None\<rparr>]\<rparr>"

text \<open>A provider that counts its calls and names each recipient's message after the recipient.\<close>

definition demo_client :: "(unit, nat) email_client" where
  "demo_client em n = (Inr (map (\<lambda>r. ''id-'' @ ad_Email (rp_Address r)) (em_To em)), Suc n)"

definition demo_post :: "(unit, nat) post_handler" where
  "demo_post = \<lparr>ph_Client = demo_client, ph_Guard = None, ph_Policy = None\<rparr>"

definition demo_unmarshalMap :: "string \<Rightarrow> gerror + string_map" where
  "demo_unmarshalMap t = Inr Map.empty"

lemma demo_pending_inv: "progress_inv demo_pending"
  by (simp add: progress_inv_def demo_pending_def demo_accepted_def row_ok_def pr_key_def)

lemma demo_pending_recipients:
  "pendingRecipients (\<lambda>_. None) (\<lambda>_. Inr ()) ''t'' demo_pending =
     Inr [\<lparr>rc_email = ''a'', rc_name = '''', rc_variables = ()\<rparr>, \<lparr>rc_email = ''b'', rc_name = '''', rc_variables = ()\<rparr>]"
  by (simp add: pendingRecipients_def demo_pending_def sql_select_def in_state_def pendingRow_def)

lemma demo_post_result:
  "\<exists>ws d'. PostHandler_Handle (\<lambda>_ _. None) (\<lambda>_. Inr ()) demo_unmarshalMap demo_post 5 ''t'' demo_pending 0 =
     (Complete [] ws, d', 1)"
  unfolding PostHandler_Handle_def demo_pending_recipients
  by (simp add: hasUnresolved_def sql_count_def readRequest_def demo_pending_def demo_accepted_def
      demo_unmarshalMap_def demo_post_def Let_def postDecided_def submitPending_def markSubmitted_def demo_client_def
      newEmail_def)

theorem post_outcome_witness:
  "\<exists>ws d' d''. PostHandler_Handle (\<lambda>_ _. None) (\<lambda>_. Inr ()) demo_unmarshalMap demo_post 5 ''t'' demo_pending 0 =
     (Complete [] ws, d', 1) \<and> runSqlWork ws d' = Inr d'' \<and>
     accepted_in d'' (hd (email_progress demo_pending)) \<and> accepted_in d'' (last (email_progress demo_pending))"
proof -
  obtain ws d' where p: "PostHandler_Handle (\<lambda>_ _. None) (\<lambda>_. Inr ()) demo_unmarshalMap demo_post 5 ''t''
      demo_pending 0 = (Complete [] ws, d', 1)"
    using demo_post_result by blast
  from post_outcome [OF demo_pending_inv p] obtain d'' where d'': "runSqlWork ws d' = Inr d''"
    "\<forall>q \<in> set (email_progress demo_pending). in_state ''t'' StatePending q \<longrightarrow> accepted_in d'' q"
    by (auto simp: post_ok_def)
  moreover have "hd (email_progress demo_pending) \<in> set (email_progress demo_pending)"
    "last (email_progress demo_pending) \<in> set (email_progress demo_pending)"
    "in_state ''t'' StatePending (hd (email_progress demo_pending))"
    "in_state ''t'' StatePending (last (email_progress demo_pending))"
    by (simp_all add: demo_pending_def in_state_def)
  ultimately show ?thesis using p by blast
qed

section \<open>Interrupted submissions\<close>

lemma post_unresolved:
  assumes "p \<in> set (email_progress d)" "pr_token p = token"
    "pr_state p = StateRecovery \<or> pr_state p = StateRecoveryWaiting"
  shows "snd (PostHandler_Handle flts um umm h now token d e) = (d, e)"
proof -
  let ?P = "\<lambda>p. pr_token p = token \<and> (pr_state p = StateRecovery \<or> pr_state p = StateRecoveryWaiting)"
  have "sql_count ?P (email_progress d) \<noteq> 0"
    using assms unfolding sql_count_0 by blast
  then have "hasUnresolved (flts ReadUnresolved) token d \<noteq> Inr False"
    by (simp add: hasUnresolved_def split: option.splits)
  then show ?thesis
    by (auto simp: PostHandler_Handle_def split: sum.splits bool.splits)
qed

text \<open>
  C15: a crash after the submission was recorded never leads to a blind second submission. Whatever the
  provider did, starting up again puts every recipient of the interrupted submission in recovery
  with its submission time, and Post, with any client, policy and guard, then neither calls them nor
  changes the tables.
\<close>

theorem crash_never_resubmits_blindly:
  assumes "p \<in> set (email_progress d)" "in_state token StatePending p"
    and "markSubmitted flt token now d = (None, d1)"
  shows "\<exists>d2. RecoverSubmissions (\<lambda>_. None) d1 = (None, d2) \<and> recovering_in now d2 p \<and>
    snd (PostHandler_Handle flts um umm h later token d2 e) = (d2, e)"
proof -
  let ?p = "p\<lparr>pr_submitted_at := Some now\<rparr>"
  let ?P = "\<lambda>p. pr_state p = StatePending \<and> pr_submitted_at p \<noteq> None"
  let ?d2 = "set_progress ?P (\<lambda>p. p\<lparr>pr_state := StateRecovery\<rparr>) d1"
  have "d1 = set_progress (in_state token StatePending) (\<lambda>p. p\<lparr>pr_submitted_at := Some now\<rparr>) d"
    using assms(3) by (simp add: markSubmitted_def split: option.splits)
  then have "?p \<in> set (email_progress d1)"
    by (simp only: set_progress_sel) (rule sql_update_hit, rule assms(1), rule assms(2))
  then have m: "?p\<lparr>pr_state := StateRecovery\<rparr> \<in> set (email_progress ?d2)"
    unfolding set_progress_sel by (rule sql_update_hit) (use assms(2) in \<open>simp add: in_state_def\<close>)
  have "recovering_in now ?d2 p"
    unfolding recovering_in_def by (rule bexI [OF _ m]) (simp add: pr_key_def)
  moreover have "snd (PostHandler_Handle flts um umm h later token ?d2 e) = (?d2, e)"
    by (rule post_unresolved [OF m]) (use assms(2) in \<open>auto simp: in_state_def\<close>)
  ultimately show ?thesis by (simp add: RecoverSubmissions_def)
qed

theorem crash_never_resubmits_blindly_witness:
  "\<exists>d1 d2. markSubmitted (\<lambda>_. None) ''t'' 5 demo_pending = (None, d1) \<and>
     RecoverSubmissions (\<lambda>_. None) d1 = (None, d2) \<and>
     recovering_in 5 d2 (hd (email_progress demo_pending)) \<and>
     snd (PostHandler_Handle (\<lambda>_ _. None) (\<lambda>_. Inr ()) demo_unmarshalMap demo_post 9 ''t'' d2 0) = (d2, 0)"
proof -
  obtain d1 where d1: "markSubmitted (\<lambda>_. None) ''t'' 5 demo_pending = (None, d1)"
    by (simp add: markSubmitted_def)
  have "hd (email_progress demo_pending) \<in> set (email_progress demo_pending)"
    "in_state ''t'' StatePending (hd (email_progress demo_pending))"
    by (simp_all add: demo_pending_def in_state_def)
  from crash_never_resubmits_blindly [OF this d1, where flts = "\<lambda>_ _. None" and um = "\<lambda>_. Inr ()"
      and umm = demo_unmarshalMap and h = demo_post and later = 9 and e = 0] d1
  show ?thesis by blast
qed

section \<open>Recovery\<close>

lemma recoveryDeadline_ge:
  "\<forall>x \<in> set (c # cs). vc_submittedAt x + VerifyDelay \<le> recoveryDeadline c cs"
proof -
  let ?f = "\<lambda>deadline d. let later = vc_submittedAt d + VerifyDelay
    in if time_After later deadline then later else deadline"
  have "a \<le> foldl ?f a cs \<and> (\<forall>x \<in> set cs. vc_submittedAt x + VerifyDelay \<le> foldl ?f a cs)" for a
  proof (induction cs arbitrary: a)
    case (Cons x xs)
    have "a \<le> ?f a x" "vc_submittedAt x + VerifyDelay \<le> ?f a x" by (auto simp: Let_def time_After_def)
    with Cons.IH [of "?f a x"] show ?case by (auto simp: Let_def)
  qed simp
  from this [of "vc_submittedAt c + VerifyDelay"] show ?thesis
    by (auto simp: recoveryDeadline_def)
qed

lemma candidates_Inr:
  "res_map candidateRow rows = Inr cs \<Longrightarrow> p \<in> set rows \<Longrightarrow>
   \<exists>t. pr_submitted_at p = Some t \<and> (\<exists>c \<in> set cs. vc_recipient c = pr_recipient p \<and> vc_submittedAt c = t)"
  by (drule res_map_Inr [THEN iffD1], drule (1) list_all2_ex)
    (auto simp: candidateRow_def split: option.splits elim!: rev_bexI)

lemma candidates_late:
  assumes "res_map candidateRow (sql_select (in_state token StateRecovery) pr_recipient (email_progress d)) = Inr (c # cs)"
    "p \<in> set (email_progress d)" "in_state token StateRecovery p"
  shows "\<exists>t. pr_submitted_at p = Some t \<and> t + VerifyDelay \<le> recoveryDeadline c cs"
proof -
  have "p \<in> set (sql_select (in_state token StateRecovery) pr_recipient (email_progress d))" using assms(2,3) by simp
  from candidates_Inr [OF assms(1) this] obtain t x where "pr_submitted_at p = Some t" "x \<in> set (c # cs)"
    "vc_submittedAt x = t" by blast
  with recoveryDeadline_ge [of c cs] show ?thesis by blast
qed

lemma waitUpdate_moves:
  assumes "q \<in> set (email_progress (waitUpdate token d))"
  shows "\<not> in_state token StateRecovery q"
proof -
  from assms obtain p where
    "q = (if in_state token StateRecovery p then p\<lparr>pr_state := StateRecoveryWaiting\<rparr> else p)"
    unfolding waitUpdate_def set_progress_sel set_sql_update by blast
  then show ?thesis by (cases "in_state token StateRecovery p") (simp_all add: in_state_def)
qed

text \<open>
  C23: Recovery lets the sequence go on to Post only when no recipient of the request is unverified. When
  it finds interrupted recipients it asks for one verification fanout no earlier than the
  verification delay after the last of their submissions, and its work moves every one of them to
  the waiting state, so the fanout is asked for once.
\<close>

theorem recovery_gates_post:
  assumes "RecoveryHandler_Handle flt1 flt2 marshalOp now token d = r"
  shows "case r of
      Complete adds ws \<Rightarrow> adds = [] \<and> ws = [] \<and> (\<forall>p \<in> set (email_progress d). pr_token p = token \<longrightarrow>
        pr_state p \<noteq> StateRecovery \<and> pr_state p \<noteq> StateRecoveryWaiting)
    | Retry nb adds ws \<Rightarrow>
        (if adds = [] then ws = [] \<and> nb = Some (now + Second) \<and>
           (\<exists>p \<in> set (email_progress d). in_state token StateRecoveryWaiting p)
         else (\<exists>child deadline. adds = [child] \<and> nb = Some deadline \<and> req_NotBefore child = Some deadline \<and>
           map HandlerName (req_Steps child) = [HandlerRecoveryFanout] \<and>
           (\<forall>p \<in> set (email_progress d). in_state token StateRecovery p \<longrightarrow>
              (\<exists>t. pr_submitted_at p = Some t \<and> t + VerifyDelay \<le> deadline)) \<and>
           runSqlWork ws d = Inr (waitUpdate token d) \<and>
           (\<forall>q \<in> set (email_progress (waitUpdate token d)). \<not> in_state token StateRecovery q)))
    | ErrorResult _ _ \<Rightarrow> True
    | _ \<Rightarrow> False"
proof (cases "recoveryCandidates flt1 token d")
  case (Inl e)
  with assms show ?thesis by (auto simp: RecoveryHandler_Handle_def)
next
  case (Inr cands)
  then have res: "res_map candidateRow (sql_select (in_state token StateRecovery) pr_recipient (email_progress d)) = Inr cands"
    by (simp add: recoveryCandidates_def split: option.splits)
  show ?thesis
  proof (cases cands)
    case Nil
    with res_map_length [OF res] have none: "\<forall>q \<in> set (email_progress d). \<not> in_state token StateRecovery q"
      by (simp add: sql_select_Nil)
    show ?thesis
    proof (cases "waitingRecipients flt2 token d")
      case (Inr w)
      then have "length w = length (sql_select (in_state token StateRecoveryWaiting) pr_recipient (email_progress d))"
        by (simp add: waitingRecipients_def res_map_length split: option.splits)
      then have "w = [] \<longleftrightarrow> (\<forall>q \<in> set (email_progress d). \<not> in_state token StateRecoveryWaiting q)"
        by (metis length_0_conv sql_select_Nil)
      moreover have "r = (if w = [] then Complete [] [] else Retry (Some (now + Second)) [] [])"
        using assms Nil Inr \<open>recoveryCandidates flt1 token d = Inr cands\<close>
        by (simp add: RecoveryHandler_Handle_def split: if_splits)
      ultimately show ?thesis using none by (cases "w = []") (auto simp: in_state_def)
    qed (use assms Nil Inr in \<open>auto simp: RecoveryHandler_Handle_def\<close>)
  next
    case (Cons c cs)
    note late = candidates_late [OF res [unfolded Cons]]
    show ?thesis
    proof (cases "NewCellDefinition marshalOp HandlerRecoveryFanout token")
      case (Inr def)
      then obtain child where "def = Inr child" "map HandlerName (req_Steps child) = [HandlerRecoveryFanout]"
        by (auto simp: NewCellDefinition_def NewSequence_Inr cellStepFromStep_Inr split: sum.splits)
      moreover from this assms Cons Inr \<open>recoveryCandidates flt1 token d = Inr cands\<close> have
        "r = Retry (Some (recoveryDeadline c cs)) [child\<lparr>req_NotBefore := Some (recoveryDeadline c cs)\<rparr>]
           [Some (waitWork token)]"
        by (simp add: RecoveryHandler_Handle_def Let_def)
      moreover have "runSqlWork [Some (waitWork token)] d = Inr (waitUpdate token d)"
        by (simp add: waitWork_def)
      ultimately show ?thesis using late waitUpdate_moves by simp
    qed (use assms Cons Inr in \<open>auto simp: RecoveryHandler_Handle_def\<close>)
  qed
qed

definition demo_recovering :: email_db where
  "demo_recovering = demo_accepted\<lparr>email_progress := [
     \<lparr>pr_token = ''t'', pr_recipient = ''a'', pr_recipient_name = '''', pr_state = StateRecovery,
       pr_pmuid = None, pr_variables = ''{}'', pr_submitted_at = Some 7\<rparr>,
     \<lparr>pr_token = ''t'', pr_recipient = ''b'', pr_recipient_name = '''', pr_state = StateRecovery,
       pr_pmuid = None, pr_variables = ''{}'', pr_submitted_at = Some 9\<rparr>]\<rparr>"

theorem recovery_gates_post_witness:
  "\<exists>child ws. RecoveryHandler_Handle (\<lambda>_. None) (\<lambda>_. None) Inr 20 ''t'' demo_recovering =
      Retry (Some (9 + VerifyDelay)) [child] ws \<and>
    runSqlWork ws demo_recovering = Inr (waitUpdate ''t'' demo_recovering) \<and>
    map pr_state (email_progress (waitUpdate ''t'' demo_recovering)) = [StateRecoveryWaiting, StateRecoveryWaiting]"
proof -
  obtain child ws where r: "RecoveryHandler_Handle (\<lambda>_. None) (\<lambda>_. None) Inr 20 ''t'' demo_recovering =
      Retry (Some (9 + VerifyDelay)) [child] ws"
    by (simp add: RecoveryHandler_Handle_def recoveryCandidates_def demo_recovering_def sql_select_def
        in_state_def candidateRow_def recoveryDeadline_def time_After_def NewCellDefinition_def NewSequence_def
        cellRequestFromSteps_def cellStepFromStep_def HandlerRecoveryFanout_def Let_def)
  from recovery_gates_post [OF r] have
    "runSqlWork ws demo_recovering = Inr (waitUpdate ''t'' demo_recovering)" by simp
  moreover have "map pr_state (email_progress (waitUpdate ''t'' demo_recovering)) =
      [StateRecoveryWaiting, StateRecoveryWaiting]"
    by (simp add: waitUpdate_def demo_recovering_def sql_update_def in_state_def)
  ultimately show ?thesis by (intro exI conjI) (rule r)
qed

section \<open>Verification\<close>

text \<open>
  Verify resolves exactly the recipient it names. A recipient that is no longer waiting is left
  alone and the provider is not asked. One that the provider knows is accepted with the identifier
  reported, one it does not know becomes pending with no submission time, so only a submission that
  verification found absent is ever repeated; all other rows stay as they are.
\<close>

theorem verify_resolves:
  assumes "progress_inv d" "p \<in> set (email_progress d)" "in_state token StateRecoveryWaiting p"
    and "VerifyHandler_Handle flt1 flt2 um umm verify token (pr_recipient p) d e = (Complete [] ws, e')"
  shows "\<exists>req found d'. verify req e = (Inr found, e') \<and> vr_Recipient req = pr_recipient p \<and>
    pr_submitted_at p = Some (vr_SentAt req) \<and> runSqlWork ws d = Inr d' \<and>
    email_progress d' = map (\<lambda>q. if q \<noteq> p then q
      else if vs_Found found then p\<lparr>pr_state := StateAccepted, pr_pmuid := Some (vs_PMUID found)\<rparr>
      else p\<lparr>pr_state := StatePending, pr_submitted_at := None\<rparr>) (email_progress d)"
proof -
  let ?r = "pr_recipient p"
  have uniq: "pr_token q = token \<and> pr_recipient q = ?r \<longleftrightarrow> q = p" if "q \<in> set (email_progress d)" for q
    using progress_inv_unique [OF assms(1) that assms(2)] assms(3) by (auto simp: in_state_def)
  have ok: "pr_pmuid p = None" "pr_state p = StateRecoveryWaiting"
    using assms(1-3) by (auto simp: progress_inv_def row_ok_def in_state_def)
  have "find (\<lambda>q. in_state token StateRecoveryWaiting q \<and> pr_recipient q = ?r) (email_progress d) \<noteq> None"
    using assms(2,3) by (auto simp: find_None_iff)
  then obtain q where q: "find (\<lambda>q. in_state token StateRecoveryWaiting q \<and> pr_recipient q = ?r) (email_progress d) = Some q"
    by blast
  then have "q = p" using uniq [of q] by (auto simp: find_Some_iff in_state_def)
  with q assms(4) obtain t m found where f: "pr_submitted_at p = Some t"
    "verify \<lparr>vr_CorrelationID = m, vr_Recipient = ?r, vr_SentAt = t\<rparr> e = (Inr found, e')"
    "ws = (if vs_Found found then [Some (acceptRecoveredWork token ?r (vs_PMUID found))]
           else [Some (absentWork token ?r)])"
    by (auto simp: VerifyHandler_Handle_def waitingRecipient_def candidateRow_def
        split: option.splits sum.splits prod.splits if_splits)
  have acc: "email_progress (acceptUpdate StateRecoveryWaiting token ?r u d) =
      map (\<lambda>q. if q \<noteq> p then q else p\<lparr>pr_state := StateAccepted, pr_pmuid := Some u\<rparr>) (email_progress d)" for u
    unfolding acceptUpdate_def set_progress_sel sql_update_def
    by (rule map_cong [OF refl]) (use uniq ok in \<open>auto split: option.splits\<close>)
  have abs: "email_progress (absentUpdate token ?r d) =
      map (\<lambda>q. if q \<noteq> p then q else p\<lparr>pr_state := StatePending, pr_submitted_at := None\<rparr>) (email_progress d)"
    unfolding absentUpdate_def set_progress_sel sql_update_def in_state_def
    by (rule map_cong [OF refl]) (use uniq ok in auto)
  have run: "runSqlWork ws d = Inr (if vs_Found found
      then acceptUpdate StateRecoveryWaiting token ?r (vs_PMUID found) d else absentUpdate token ?r d)"
    unfolding f(3) by (simp add: acceptRecoveredWork_def absentWork_def)
  have rows: "email_progress (if vs_Found found
      then acceptUpdate StateRecoveryWaiting token ?r (vs_PMUID found) d else absentUpdate token ?r d) =
    map (\<lambda>q. if q \<noteq> p then q
      else if vs_Found found then p\<lparr>pr_state := StateAccepted, pr_pmuid := Some (vs_PMUID found)\<rparr>
      else p\<lparr>pr_state := StatePending, pr_submitted_at := None\<rparr>) (email_progress d)"
    by (cases "vs_Found found") (simp_all only: acc abs if_True if_False)
  show ?thesis
    by (rule exI, rule exI, rule exI, rule conjI, rule f(2), intro conjI)
      (simp, simp add: f(1), rule run, rule rows)
qed

definition demo_verifier :: "nat email_verifier" where
  "demo_verifier req n = (Inr \<lparr>vs_Found = (vr_Recipient req = ''a''), vs_PMUID = ''found''\<rparr>, Suc n)"

definition demo_waiting :: email_db where
  "demo_waiting = demo_accepted\<lparr>email_progress := [
     \<lparr>pr_token = ''t'', pr_recipient = ''a'', pr_recipient_name = [], pr_state = StateRecoveryWaiting,
       pr_pmuid = None, pr_variables = ''{}'', pr_submitted_at = Some 7\<rparr>]\<rparr>"

lemma demo_waiting_inv: "progress_inv demo_waiting"
  by (simp add: progress_inv_def demo_waiting_def demo_accepted_def row_ok_def)

theorem verify_resolves_witness:
  "\<exists>ws d'. VerifyHandler_Handle (\<lambda>_. None) (\<lambda>_. None) (\<lambda>_. Inr ()) demo_unmarshalMap demo_verifier ''t'' ''a''
      demo_waiting 0 = (Complete [] ws, 1) \<and> runSqlWork ws demo_waiting = Inr d' \<and>
    email_progress d' = [(hd (email_progress demo_waiting))\<lparr>pr_state := StateAccepted, pr_pmuid := Some ''found''\<rparr>]"
proof -
  define q where "q = hd (email_progress demo_waiting)"
  have p: "email_progress demo_waiting = [q]" "in_state ''t'' StateRecoveryWaiting q" "pr_recipient q = ''a''"
    by (simp_all add: q_def demo_waiting_def in_state_def)
  have mem: "q \<in> set (email_progress demo_waiting)" by (simp add: p(1))
  obtain ws where v: "VerifyHandler_Handle (\<lambda>_. None) (\<lambda>_. None) (\<lambda>_. Inr ()) demo_unmarshalMap demo_verifier
      ''t'' (pr_recipient q) demo_waiting 0 = (Complete [] ws, 1)"
    unfolding p(3)
    by (simp add: VerifyHandler_Handle_def waitingRecipient_def demo_waiting_def demo_accepted_def in_state_def
        candidateRow_def readRequest_def demo_unmarshalMap_def demo_verifier_def)
  from verify_resolves [OF demo_waiting_inv mem p(2) v] obtain req found d' where
    f: "demo_verifier req 0 = (Inr found, 1)" "vr_Recipient req = ''a''" and run: "runSqlWork ws demo_waiting = Inr d'"
    and upd: "email_progress d' = map (\<lambda>x. if x \<noteq> q then x
      else if vs_Found found then q\<lparr>pr_state := StateAccepted, pr_pmuid := Some (vs_PMUID found)\<rparr>
      else q\<lparr>pr_state := StatePending, pr_submitted_at := None\<rparr>) (email_progress demo_waiting)"
    unfolding p(3) by blast
  from f have "vs_Found found" "vs_PMUID found = ''found''" by (auto simp: demo_verifier_def)
  with upd have rows: "email_progress d' = [q\<lparr>pr_state := StateAccepted, pr_pmuid := Some ''found''\<rparr>]"
    unfolding p(1) by simp
  show ?thesis
    unfolding q_def [symmetric] by (intro exI conjI) (rule v [unfolded p(3)], rule run, rule rows)
qed

end
