(* ===== verification/Truths.thy ===== *)
theory Truths
  imports Fanout Recurrence
begin

text \<open>
  truths: durable observations and their dispatch. dispatch.go gives each kind of truth a registry of
  the handlers that react to it and a fanout that delivers it to them; an envelope carries a truth,
  encoded, through the idempotency sequences. The JSON codec of a truth's type is a parameter.
\<close>

section \<open>Registries\<close>

record truth_registry =
  tr_name :: handler_name
  tr_handlers :: "handler_name list"

definition truth_NewRegistry :: "handler_name \<Rightarrow> truth_registry" where
  "truth_NewRegistry name = \<lparr>tr_name = name, tr_handlers = []\<rparr>"

fun containsHandlerName :: "handler_name list \<Rightarrow> handler_name \<Rightarrow> bool" where
  "containsHandlerName [] target = False"
| "containsHandlerName (h # hs) target = (if h = target then True else containsHandlerName hs target)"

fun registerHandlers :: "handler_name list \<Rightarrow> handler_name list \<Rightarrow> handler_name list" where
  "registerHandlers handlers [] = handlers"
| "registerHandlers handlers (h # hs) =
     (if \<not> containsHandlerName handlers h then registerHandlers (handlers @ [h]) hs
      else registerHandlers handlers hs)"

definition truth_Register :: "handler_name list \<Rightarrow> truth_registry \<Rightarrow> truth_registry" where
  "truth_Register handlerNames r = r\<lparr>tr_handlers := registerHandlers (tr_handlers r) handlerNames\<rparr>"

definition truth_targets :: "truth_registry \<Rightarrow> handler_name list" where
  "truth_targets r = tr_handlers r"

section \<open>Dispatch\<close>

definition truthTarget :: "('p \<Rightarrow> gerror + string) \<Rightarrow> 'p \<Rightarrow> handler_name \<Rightarrow> gerror + fanout_target" where
  "truthTarget marshal truth handlerName =
     (case NewCellDefinition marshal handlerName truth of
        Inl e \<Rightarrow> Inl e
      | Inr cell \<Rightarrow> Inr \<lparr>ft_Key = handlerName, ft_Cell = Some cell, ft_NotBefore = None\<rparr>)"

text \<open>The expander reads the registry when it runs; \<open>r\<close> is the registry at that moment.\<close>

definition truth_expand ::
  "('p \<Rightarrow> gerror + string) \<Rightarrow> truth_registry \<Rightarrow> cell_id \<Rightarrow> 'p \<Rightarrow> 'e \<Rightarrow> (gerror + fanout_target list) \<times> 'e" where
  "truth_expand marshal r parentID truth e = (res_map (truthTarget marshal truth) (truth_targets r), e)"

definition truth_Fanout ::
  "('p \<Rightarrow> gerror + string) \<Rightarrow> truth_registry option \<Rightarrow> gerror + ('p, 'e) fanout" where
  "truth_Fanout marshal r =
     (case r of
        None \<Rightarrow> Inl (Err ''truth registry is nil'')
      | Some g \<Rightarrow> NewFanout (tr_name g) (Some (truth_expand marshal g)))"

record envelope =
  env_FanoutName :: handler_name
  env_Payload :: string

definition NewEnvelope :: "('p \<Rightarrow> gerror + string) \<Rightarrow> handler_name \<Rightarrow> 'p \<Rightarrow> gerror + envelope" where
  "NewEnvelope marshal name truth =
     (case marshal truth of
        Inl e \<Rightarrow> Inl (Wrapped e (''marshal truth for '' @ name))
      | Inr payload \<Rightarrow> Inr \<lparr>env_FanoutName = name, env_Payload = payload\<rparr>)"

definition Envelope_CellRequest :: "envelope \<Rightarrow> gerror + cell_request" where
  "Envelope_CellRequest e =
     (if env_FanoutName e = '''' then Inl (Err ''envelope fanout name is required'')
      else Inr \<lparr>req_Steps = [\<lparr>HandlerName = env_FanoutName e, Payload = env_Payload e\<rparr>],
                req_ID = '''', req_NotBefore = None\<rparr>)"

section \<open>The truths of the application\<close>

definition StaleEventFanout :: handler_name where "StaleEventFanout = ''truths.stale_event''"
definition CreateEventPollFanout :: handler_name where "CreateEventPollFanout = ''truths.create_event_poll''"
definition EventVenueObservedFanout :: handler_name where
  "EventVenueObservedFanout = ''truths.event_venue_observed''"

record stale_event =
  se_EventID :: string
  se_ObservedDate :: string

record create_event_poll =
  ce_EventID :: string
  ce_OccurrenceDate :: string

record event_venue =
  ev_ID :: string
  ev_Name :: string
  ev_Recurrence :: "go_map option"
  ev_NextOccurrenceDate :: string

record event_venue_observed =
  eo_Venue :: event_venue
  eo_ObservedOn :: string

definition EventVenueObserved_Identity ::
  "(go_map option \<Rightarrow> gerror + string) \<Rightarrow> (gerror \<Rightarrow> string) \<Rightarrow> (string \<Rightarrow> string) \<Rightarrow> event_venue_observed \<Rightarrow> string" where
  "EventVenueObserved_Identity marshal errText sha256 event =
     ev_ID (eo_Venue event) @ ''_'' @ ev_NextOccurrenceDate (eo_Venue event) @ ''_'' @
     RecurrenceHash marshal errText sha256 (ev_Recurrence (eo_Venue event)) @ ''_'' @ eo_ObservedOn event"

section \<open>Registration\<close>

lemma containsHandlerName_iff [simp]: "containsHandlerName hs h \<longleftrightarrow> h \<in> set hs"
  by (induction hs) auto

text \<open>The list without the repetitions, each name at its first position.\<close>

definition first_occurrences :: "'a list \<Rightarrow> 'a list" where
  "first_occurrences xs = rev (remdups (rev xs))"

lemma first_occurrences_append:
  "first_occurrences (xs @ ys) = first_occurrences xs @ filter (\<lambda>y. y \<notin> set xs) (first_occurrences ys)"
proof -
  have "remdups (ys @ xs) = filter (\<lambda>y. y \<notin> set xs) (remdups ys) @ remdups xs" for xs ys :: "'b list"
    by (induction ys) auto
  from this [of "rev ys" "rev xs"] show ?thesis by (simp add: first_occurrences_def rev_filter)
qed

lemma set_first_occurrences [simp]: "set (first_occurrences xs) = set xs"
  by (simp add: first_occurrences_def)

lemma distinct_first_occurrences [simp]: "distinct (first_occurrences xs)"
  by (simp add: first_occurrences_def)

lemma first_occurrences_simps [simp]:
  "first_occurrences [] = []" "first_occurrences [x] = [x]"
  by (simp_all add: first_occurrences_def)

lemma registerHandlers_eq:
  "registerHandlers (first_occurrences hs) ns = first_occurrences (hs @ ns)"
proof (induction ns arbitrary: hs)
  case (Cons n ns)
  have "first_occurrences (hs @ [n]) = (if n \<in> set hs then first_occurrences hs else first_occurrences hs @ [n])"
    by (simp add: first_occurrences_append)
  with Cons.IH [of "hs @ [n]"] show ?case by (cases "n \<in> set hs") simp_all
qed simp

lemma truth_Register_all:
  "tr_handlers (fold truth_Register calls (truth_NewRegistry name)) = first_occurrences (concat calls)"
proof -
  have "tr_handlers (fold truth_Register calls r) = first_occurrences (hs @ concat calls)"
    if "tr_handlers r = first_occurrences hs" for r :: truth_registry and hs
    using that
  proof (induction calls arbitrary: r hs)
    case (Cons c cs)
    have "tr_handlers (truth_Register c r) = first_occurrences (hs @ c)"
      using Cons.prems by (simp add: truth_Register_def registerHandlers_eq)
    from Cons.IH [OF this] show ?case by simp
  qed simp
  from this [of "truth_NewRegistry name" "[]"] show ?thesis by (simp add: truth_NewRegistry_def)
qed

section \<open>Delivery\<close>

lemma truthTarget_ok:
  assumes "marshal truth = Inr p" "h \<noteq> ''''"
  shows "truthTarget marshal truth h =
    Inr \<lparr>ft_Key = h, ft_Cell = Some (Inr \<lparr>req_Steps = [\<lparr>HandlerName = h, Payload = p\<rparr>], req_ID = '''',
      req_NotBefore = None\<rparr>), ft_NotBefore = None\<rparr>"
  using assms by (simp add: truthTarget_def NewCellDefinition_def NewSequence_def cellRequestFromSteps_def
      cellStepFromStep_def)

lemma identifyTargets_plain:
  assumes "distinct hs" "'''' \<notin> set hs" "set hs \<inter> set keys = {}"
  shows "identifyTargets sha256 parent keys
      (map (\<lambda>h. \<lparr>ft_Key = h, ft_Cell = Some (Inr (f h)), ft_NotBefore = None\<rparr>) hs) =
    Inr (map (\<lambda>h. \<lparr>req_Steps = req_Steps (f h), req_ID = deriveFanoutChildID sha256 parent h,
                   req_NotBefore = req_NotBefore (f h)\<rparr>) hs)"
  using assms by (induction hs arbitrary: keys) (auto simp: Let_def)

text \<open>
  Whatever the order and the repetitions in which handlers were registered for a truth, executing
  the truth's cell replaces it by exactly one cell per registered handler, in the order of first
  registration, each with the truth as its payload and with the identifier derived from the executed
  cell and the handler. The codec is assumed to read back what it wrote.
\<close>

theorem truth_delivered_once:
  assumes "marshal truth = Inr p" "unmarshal p = Inr truth" "'''' \<notin> set (concat calls)"
    and "currentStepPayload c = p"
    and "truth_Fanout marshal (Some (fold truth_Register calls (truth_NewRegistry name))) = Inr fo"
  shows "fanout_Execute sha256 unmarshal (Some (fo_expander fo)) c e =
    (Complete (map (\<lambda>h. \<lparr>req_Steps = [\<lparr>HandlerName = h, Payload = p\<rparr>],
        req_ID = deriveFanoutChildID sha256 (ID c) h, req_NotBefore = None\<rparr>)
        (first_occurrences (concat calls))) [], e)"
proof -
  let ?r = "fold truth_Register calls (truth_NewRegistry name)" and ?hs = "first_occurrences (concat calls)"
  let ?f = "\<lambda>h. \<lparr>req_Steps = [\<lparr>HandlerName = h, Payload = p\<rparr>], req_ID = [], req_NotBefore = None\<rparr>"
  have ne: "[] \<notin> set ?hs" using assms(3) by simp
  have fo: "fo_expander fo = truth_expand marshal ?r"
    using assms(5) by (auto simp: truth_Fanout_def NewFanout_def split: if_splits)
  have "truth_expand marshal ?r (ID c) truth e =
      (Inr (map (\<lambda>h. \<lparr>ft_Key = h, ft_Cell = Some (Inr (?f h)), ft_NotBefore = None\<rparr>) ?hs), e)"
    unfolding truth_expand_def truth_targets_def truth_Register_all
    using ne by (subst res_map_total) (auto intro: truthTarget_ok [where marshal = marshal, OF assms(1)])
  then show ?thesis
    unfolding fanout_Execute_def assms(4) fo identifyFanoutTargets_def
    using identifyTargets_plain [of ?hs "[]" sha256 "ID c" ?f] ne assms(2) by simp
qed

theorem truth_delivered_once_witness:
  "\<exists>fo. truth_Fanout (\<lambda>t. Inr t) (Some (fold truth_Register [[''a'', ''b''], [''a'']] (truth_NewRegistry ''t''))) = Inr fo \<and>
    fanout_Execute id Inr (Some (fo_expander fo))
      \<lparr>Steps = [\<lparr>HandlerName = ''t'', Payload = ''x''\<rparr>], CurrentStep = 0, ID = ''i'', State = CellStateClaimed,
       NotBefore = None\<rparr> () =
    (Complete [\<lparr>req_Steps = [\<lparr>HandlerName = ''a'', Payload = ''x''\<rparr>], req_ID = deriveFanoutChildID id ''i'' ''a'',
        req_NotBefore = None\<rparr>,
      \<lparr>req_Steps = [\<lparr>HandlerName = ''b'', Payload = ''x''\<rparr>], req_ID = deriveFanoutChildID id ''i'' ''b'',
        req_NotBefore = None\<rparr>] [] :: nat result, ())"
proof -
  let ?calls = "[[''a'', ''b''], [''a'']]"
  let ?c = "\<lparr>Steps = [\<lparr>HandlerName = ''t'', Payload = ''x''\<rparr>], CurrentStep = 0, ID = ''i'',
    State = CellStateClaimed, NotBefore = None\<rparr>"
  obtain fo :: "(string, unit) fanout" where
    fo: "truth_Fanout Inr (Some (fold truth_Register ?calls (truth_NewRegistry ''t''))) = Inr fo"
    by (simp add: truth_Fanout_def NewFanout_def truth_NewRegistry_def truth_Register_def)
  have c: "currentStepPayload ?c = ''x''" by (simp add: currentStepPayload_def)
  have ne: "'''' \<notin> set (concat ?calls)" by simp
  have hs: "first_occurrences (concat ?calls) = [''a'', ''b'']" by (simp add: first_occurrences_def)
  from truth_delivered_once [of Inr "''x''" "''x''" Inr, OF refl refl ne c fo, of id "()"] fo
  show ?thesis unfolding hs by (intro exI [of _ fo]) simp
qed

end
