(* ===== verification/Idempotency.thy ===== *)
theory Idempotency
  imports SqliteStore Truths
begin

text \<open>
  components/idempotency and components/firebaseidempotency: a truth is emitted at most once per key.
  The local variant claims the key in the base database in the transaction that emits the truth; the
  Firebase variant also claims it in a remote collection that several processes share, and emits the
  truth only when this execution owns the remote key.

  The remote store is an interface; its Firestore implementation is modelled over the two calls it makes
  on a document (create, get). Database failures are parameters of the calls.
\<close>

section \<open>Claims in the base database\<close>

record claim_row =
  cm_component :: string
  cm_key :: string
  cm_at :: go_time

text \<open>The tables \<open>idempotency_records\<close> and \<open>firebase_idempotency_records\<close>.\<close>

record claims_db =
  idempotency_records :: "claim_row list"
  firebase_idempotency_records :: "claim_row list"

definition claimed_key :: "string \<Rightarrow> string \<Rightarrow> claim_row \<Rightarrow> bool" where
  "claimed_key component key r \<longleftrightarrow> cm_component r = component \<and> cm_key r = key"

text \<open>\<open>SELECT 1 ... WHERE component = ? AND key = ?\<close>; \<open>sql.ErrNoRows\<close> is no error.\<close>

definition rowExists :: "gerror option \<Rightarrow> string \<Rightarrow> string \<Rightarrow> claim_row list \<Rightarrow> gerror + bool" where
  "rowExists flt component key t =
     (case flt of
        Some e \<Rightarrow> if e = ErrNoRows then Inr False else Inl e
      | None \<Rightarrow> Inr (list_ex (claimed_key component key) t))"

text \<open>\<open>INSERT ... ON CONFLICT DO NOTHING\<close> followed by \<open>SELECT changes()\<close>: the table and the count.\<close>

definition insertUnlessExists :: "go_time \<Rightarrow> string \<Rightarrow> string \<Rightarrow> claim_row list \<Rightarrow> claim_row list \<times> nat" where
  "insertUnlessExists now component key t =
     (if list_ex (claimed_key component key) t then (t, 0)
      else (t @ [\<lparr>cm_component = component, cm_key = key, cm_at = now\<rparr>], 1))"

text \<open>
  The work both stores return. \<open>flt\<close> gives the failures of the statement and of the query; on the
  transaction that does nothing the query returns a nil row, so the work cannot run there.
\<close>

definition claimTable ::
  "db_faults \<Rightarrow> go_time \<Rightarrow> string \<Rightarrow> string \<Rightarrow> claim_row list \<Rightarrow> gerror + claim_row list" where
  "claimTable flt now component key t =
     (case flt DbWrite of
        Some e \<Rightarrow> Inl e
      | None \<Rightarrow>
          (let (t', changed) = insertUnlessExists now component key t in
           case flt DbQuery of
             Some e \<Rightarrow> Inl e
           | None \<Rightarrow> if changed \<noteq> 1 then Inl ErrClaimRejected else Inr t'))"

section \<open>The local variant\<close>

definition idem_HandlerCheck :: handler_name where "idem_HandlerCheck = ''idempotency.check''"

definition idem_Exists :: "gerror option \<Rightarrow> string \<Rightarrow> string \<Rightarrow> claims_db \<Rightarrow> gerror + bool" where
  "idem_Exists flt component key d = rowExists flt component key (idempotency_records d)"

definition idem_InsertUnlessExistsWork ::
  "db_faults \<Rightarrow> go_time \<Rightarrow> string \<Rightarrow> string \<Rightarrow> claims_db application_work" where
  "idem_InsertUnlessExistsWork flt now component key tx =
     (case tx of
        NoopApplicationTx \<Rightarrow> Inl (Err ''nil row'')
      | SqlTx d \<Rightarrow>
          (case claimTable flt now component key (idempotency_records d) of
             Inl e \<Rightarrow> Inl e
           | Inr t \<Rightarrow> Inr (SqlTx (d\<lparr>idempotency_records := t\<rparr>))))"

record check_payload =
  cp_Component :: string
  cp_Key :: string
  cp_Truth :: envelope

definition idem_NewCellRequest ::
  "(check_payload \<Rightarrow> gerror + string) \<Rightarrow> string \<Rightarrow> string \<Rightarrow> envelope \<Rightarrow> gerror + cell_request" where
  "idem_NewCellRequest marshal component key truth =
     (case marshal \<lparr>cp_Component = component, cp_Key = key, cp_Truth = truth\<rparr> of
        Inl e \<Rightarrow> Inl e
      | Inr payload \<Rightarrow>
          Inr \<lparr>req_Steps = [\<lparr>HandlerName = idem_HandlerCheck, Payload = payload\<rparr>], req_ID = '''',
               req_NotBefore = None\<rparr>)"

text \<open>\<open>eflt\<close> is the failure of the read, \<open>wflt\<close> and \<open>now\<close> belong to the work that runs later.\<close>

definition idem_CheckHandler ::
  "gerror option \<Rightarrow> db_faults \<Rightarrow> go_time \<Rightarrow> check_payload \<Rightarrow> claims_db \<Rightarrow> claims_db result" where
  "idem_CheckHandler eflt wflt now payload d =
     (case idem_Exists eflt (cp_Component payload) (cp_Key payload) d of
        Inl e \<Rightarrow> ErrorResult ''load idempotency state'' (Some e)
      | Inr True \<Rightarrow> Kill [] []
      | Inr False \<Rightarrow>
          (case Envelope_CellRequest (cp_Truth payload) of
             Inl e \<Rightarrow> ErrorResult ''build truth cell'' (Some e)
           | Inr truthCell \<Rightarrow>
               Complete [truthCell]
                 [Some (idem_InsertUnlessExistsWork wflt now (cp_Component payload) (cp_Key payload))]))"

section \<open>The Firebase variant\<close>

definition HandlerCheck :: handler_name where "HandlerCheck = ''firebase.idempotency.check''"
definition HandlerPopulateRemote :: handler_name where
  "HandlerPopulateRemote = ''firebase.idempotency.populate_remote''"
definition HandlerEmitTruth :: handler_name where "HandlerEmitTruth = ''firebase.idempotency.emit_truth''"

definition firebase_Exists :: "gerror option \<Rightarrow> string \<Rightarrow> string \<Rightarrow> claims_db \<Rightarrow> gerror + bool" where
  "firebase_Exists flt listener eventKey d = rowExists flt listener eventKey (firebase_idempotency_records d)"

definition firebase_InsertUnlessExistsWork ::
  "db_faults \<Rightarrow> go_time \<Rightarrow> string \<Rightarrow> string \<Rightarrow> claims_db application_work" where
  "firebase_InsertUnlessExistsWork flt now listener eventKey tx =
     (case tx of
        NoopApplicationTx \<Rightarrow> Inl (Err ''nil row'')
      | SqlTx d \<Rightarrow>
          (case claimTable flt now listener eventKey (firebase_idempotency_records d) of
             Inl e \<Rightarrow> Inl e
           | Inr t \<Rightarrow> Inr (SqlTx (d\<lparr>firebase_idempotency_records := t\<rparr>))))"

record step_payload =
  sp_Listener :: string
  sp_EventKey :: string
  sp_Owner :: string
  sp_Truth :: envelope

text \<open>\<open>uuid\<close> is what \<open>uuid.NewString()\<close> returns.\<close>

definition firebase_NewCellRequest ::
  "(step_payload \<Rightarrow> gerror + string) \<Rightarrow> string \<Rightarrow> string \<Rightarrow> string \<Rightarrow> envelope \<Rightarrow> gerror + cell_request" where
  "firebase_NewCellRequest marshal uuid listener eventKey truth =
     (let owner = ''firebase-idempotency:'' @ listener @ '':'' @ eventKey @ '':'' @ uuid in
      case marshal \<lparr>sp_Listener = listener, sp_EventKey = eventKey, sp_Owner = owner, sp_Truth = truth\<rparr> of
        Inl e \<Rightarrow> Inl e
      | Inr payload \<Rightarrow>
          Inr \<lparr>req_Steps = [\<lparr>HandlerName = HandlerCheck, Payload = payload\<rparr>,
                             \<lparr>HandlerName = HandlerPopulateRemote, Payload = payload\<rparr>,
                             \<lparr>HandlerName = HandlerEmitTruth, Payload = payload\<rparr>],
               req_ID = owner, req_NotBefore = None\<rparr>)"

text \<open>
  The remote as the handlers see it: \<open>HasKey\<close>, and \<open>CreateKey\<close> returning whether the key already
  existed and whether this execution owns it.
\<close>

record 'r remote =
  rm_HasKey :: "string \<Rightarrow> string \<Rightarrow> 'r \<Rightarrow> (gerror + bool) \<times> 'r"
  rm_CreateKey :: "string \<Rightarrow> string \<Rightarrow> string \<Rightarrow> 'r \<Rightarrow> (gerror + bool \<times> bool) \<times> 'r"

definition firebase_CheckHandler ::
  "gerror option \<Rightarrow> db_faults \<Rightarrow> go_time \<Rightarrow> 'r remote \<Rightarrow> step_payload \<Rightarrow> claims_db \<Rightarrow> 'r \<Rightarrow>
     claims_db result \<times> 'r" where
  "firebase_CheckHandler eflt wflt now remote payload d r =
     (case firebase_Exists eflt (sp_Listener payload) (sp_EventKey payload) d of
        Inl e \<Rightarrow> (ErrorResult ''load idempotency state'' (Some e), r)
      | Inr True \<Rightarrow> (Kill [] [], r)
      | Inr False \<Rightarrow>
          (let claimWork = firebase_InsertUnlessExistsWork wflt now (sp_Listener payload) (sp_EventKey payload) in
           case rm_HasKey remote (sp_Listener payload) (sp_EventKey payload) r of
             (Inl e, r') \<Rightarrow> (ErrorResult ''check remote key'' (Some e), r')
           | (Inr True, r') \<Rightarrow> (Kill [] [Some claimWork], r')
           | (Inr False, r') \<Rightarrow> (Complete [] [Some claimWork], r')))"

definition PopulateRemoteHandler :: "'r remote \<Rightarrow> step_payload \<Rightarrow> 'r \<Rightarrow> claims_db result \<times> 'r" where
  "PopulateRemoteHandler remote payload r =
     (case rm_CreateKey remote (sp_Listener payload) (sp_EventKey payload) (sp_Owner payload) r of
        (Inl e, r') \<Rightarrow> (ErrorResult ''populate remote idempotency key'' (Some e), r')
      | (Inr (alreadyExists, ownedByThisExecution), r') \<Rightarrow>
          (if alreadyExists \<and> \<not> ownedByThisExecution then Kill [] [] else Complete [] [], r'))"

definition EmitTruthHandler :: "step_payload \<Rightarrow> claims_db result" where
  "EmitTruthHandler payload =
     (case Envelope_CellRequest (sp_Truth payload) of
        Inl e \<Rightarrow> ErrorResult ''build truth cell'' (Some e)
      | Inr truthCell \<Rightarrow> Complete [truthCell] [])"

section \<open>The Firestore remote\<close>

text \<open>\<open>base64.RawURLEncoding\<close>: three bytes to four characters, no padding.\<close>

definition b64_char :: "nat \<Rightarrow> char" where
  "b64_char n =
     ''ABCDEFGHIJKLMNOPQRSTUVWXYZabcdefghijklmnopqrstuvwxyz0123456789-_'' ! (n mod 64)"

fun RawURLEncoding :: "string \<Rightarrow> string" where
  "RawURLEncoding [] = []"
| "RawURLEncoding [a] = (let n = of_char a * 16 :: nat in [b64_char (n div 64), b64_char n])"
| "RawURLEncoding [a, b] =
     (let n = (of_char a * 256 + of_char b) * 4 :: nat
      in [b64_char (n div 4096), b64_char (n div 64), b64_char n])"
| "RawURLEncoding (a # b # c # cs) =
     (let n = (of_char a * 256 + of_char b) * 256 + of_char c :: nat
      in [b64_char (n div 262144), b64_char (n div 4096), b64_char (n div 64), b64_char n] @ RawURLEncoding cs)"

text \<open>
  The client of the document service, a parameter: \<open>Create\<close> and \<open>Get\<close> of the document with a path, and
  the status code of an error. Its state is of type \<open>'f\<close>.
\<close>

datatype status_code = AlreadyExists | NotFound | OtherCode

record 'f documents =
  doc_Create :: "string list \<Rightarrow> go_map \<Rightarrow> 'f \<Rightarrow> gerror option \<times> 'f"
  doc_Get :: "string list \<Rightarrow> 'f \<Rightarrow> (gerror + go_map) \<times> 'f"
  doc_Code :: "gerror \<Rightarrow> status_code"

record firestore_remote =
  fr_collectionRoot :: string
  fr_namespace :: string

definition NewFirestoreRemote :: "'c option \<Rightarrow> string \<Rightarrow> string \<Rightarrow> gerror + firestore_remote" where
  "NewFirestoreRemote client collectionRoot namespace =
     (case client of
        None \<Rightarrow> Inl (Err ''firestore client is nil'')
      | Some _ \<Rightarrow>
          Inr \<lparr>fr_collectionRoot = (if collectionRoot = '''' then ''listener_state'' else collectionRoot),
               fr_namespace = (if namespace = '''' then ''last_orders'' else namespace)\<rparr>)"

definition fr_docRef :: "firestore_remote \<Rightarrow> string \<Rightarrow> string \<Rightarrow> string list" where
  "fr_docRef r listener eventKey =
     [fr_collectionRoot r, fr_namespace r, ''events'', RawURLEncoding (listener @ ''::'' @ eventKey)]"

definition keyDocument :: "string \<Rightarrow> string \<Rightarrow> string \<Rightarrow> go_map" where
  "keyDocument listener eventKey owner =
     [''listener'' \<mapsto> AString listener, ''eventKey'' \<mapsto> AString eventKey, ''owner'' \<mapsto> AString owner,
      ''createdAt'' \<mapsto> ASentinel ''ServerTimestamp'']"

definition ownerField :: "go_map \<Rightarrow> string" where
  "ownerField snap = (case asString (go_index (Some snap) ''owner'') of None \<Rightarrow> '''' | Some existingOwner \<Rightarrow> existingOwner)"

definition fr_CreateKey ::
  "'f documents \<Rightarrow> firestore_remote \<Rightarrow> string \<Rightarrow> string \<Rightarrow> string \<Rightarrow> 'f \<Rightarrow> (gerror + bool \<times> bool) \<times> 'f" where
  "fr_CreateKey api r listener eventKey owner f =
     (let doc = fr_docRef r listener eventKey in
      case doc_Create api doc (keyDocument listener eventKey owner) f of
        (None, f') \<Rightarrow> (Inr (False, True), f')
      | (Some err, f') \<Rightarrow>
          if doc_Code api err = AlreadyExists then
            (case doc_Get api doc f' of
               (Inl getErr, f'') \<Rightarrow> (Inl getErr, f'')
             | (Inr snap, f'') \<Rightarrow> (Inr (True, ownerField snap = owner), f''))
          else (Inl err, f'))"

definition fr_HasKey ::
  "'f documents \<Rightarrow> firestore_remote \<Rightarrow> string \<Rightarrow> string \<Rightarrow> 'f \<Rightarrow> (gerror + bool) \<times> 'f" where
  "fr_HasKey api r listener eventKey f =
     (case doc_Get api (fr_docRef r listener eventKey) f of
        (Inr _, f') \<Rightarrow> (Inr True, f')
      | (Inl err, f') \<Rightarrow> if doc_Code api err = NotFound then (Inr False, f') else (Inl err, f'))"

definition FirestoreRemote :: "'f documents \<Rightarrow> firestore_remote \<Rightarrow> 'f remote" where
  "FirestoreRemote api r = \<lparr>rm_HasKey = fr_HasKey api r, rm_CreateKey = fr_CreateKey api r\<rparr>"

text \<open>
  What the service documents of these calls: \<open>content\<close> is the stored documents. Whatever a create reports,
  a document that exists stays as it is, and a missing one is either still missing or the one created
  (a reply can be lost after the effect); success is reported only for a document that was missing and is
  now stored. A read changes nothing, and what it returns is what is stored.
  Only the owner field of a created document is constrained: the service fills in others.
\<close>

definition documents_ok :: "('f \<Rightarrow> string list \<rightharpoonup> go_map) \<Rightarrow> 'f documents \<Rightarrow> bool" where
  "documents_ok content api \<longleftrightarrow>
     (\<forall>p m f res f'. doc_Create api p m f = (res, f') \<longrightarrow>
        (\<forall>q d. content f q = Some d \<longrightarrow> content f' q = Some d) \<and>
        (\<forall>d. content f p = None \<longrightarrow> content f' p = Some d \<longrightarrow> ownerField d = ownerField m) \<and>
        (res = None \<longrightarrow> content f p = None \<and> content f' p \<noteq> None)) \<and>
     (\<forall>p f res f'. doc_Get api p f = (res, f') \<longrightarrow>
        content f' = content f \<and> (\<forall>d. res = Inr d \<longrightarrow> content f p = Some d))"

section \<open>Claims\<close>

lemma claimTable_Inr:
  assumes "claimTable flt now component key t = Inr t'"
  shows "t' = t @ [\<lparr>cm_component = component, cm_key = key, cm_at = now\<rparr>] \<and>
    (component, key) \<notin> (\<lambda>r. (cm_component r, cm_key r)) ` set t"
  using assms by (auto simp: claimTable_def insertUnlessExists_def list_ex_iff claimed_key_def
      split: option.splits if_splits)

abbreviation claim_keys :: "claim_row list \<Rightarrow> (string \<times> string) list" where
  "claim_keys t \<equiv> map (\<lambda>r. (cm_component r, cm_key r)) t"

section \<open>One truth per local claim\<close>

text \<open>
  The executions of local check cells on a SQLite store, in any interleaving. \<open>checked\<close>: a check read the
  tables (\<open>d0\<close>, perhaps before other checks committed), and its result is applied to the store; a truth is
  emitted when that commits and adds the truth's cell. \<open>other\<close>: anything else that leaves the claims
  alone. The emitted keys are listed in order.
\<close>

inductive local_run ::
  "'a allocator_next \<Rightarrow> ('a, claims_db) sqlite_store \<Rightarrow> (string \<times> string) list \<Rightarrow> bool"
  for nxt where
  start: "idempotency_records (sq_app s) = [] \<Longrightarrow> local_run nxt s []"
| checked: "local_run nxt s out \<Longrightarrow>
    sq_ApplyResult flt nxt now claimed (idem_CheckHandler eflt wflt at payload d0) s = (res, s') \<Longrightarrow>
    out' = (if res = Inr () \<and> result_additions (idem_CheckHandler eflt wflt at payload d0) \<noteq> []
            then out @ [(cp_Component payload, cp_Key payload)] else out) \<Longrightarrow>
    local_run nxt s' out'"
| other: "local_run nxt s out \<Longrightarrow> idempotency_records (sq_app s') = idempotency_records (sq_app s) \<Longrightarrow>
    local_run nxt s' out"

lemma sq_ApplyResult_works:
  assumes "sq_ApplyResult flt nxt now claimed r s = (Inr (), s')"
  shows "runSqlWork (result_works r) (sq_app s) = Inr (sq_app s')"
proof -
  from sq_ApplyResult_Inr [OF assms] obtain f where
    "finishTx flt nxt now (result_additions r) (result_works r) f s = (Inr (), s')" by metis
  then show ?thesis by (auto elim: finishTx_Inr)
qed

lemma idem_CheckHandler_cases:
  obtains e m where "idem_CheckHandler eflt wflt at payload d = ErrorResult m e"
  | "idem_CheckHandler eflt wflt at payload d = Kill [] []"
  | truthCell where "idem_CheckHandler eflt wflt at payload d = Complete [truthCell]
      [Some (idem_InsertUnlessExistsWork wflt at (cp_Component payload) (cp_Key payload))]"
proof (cases "idem_Exists eflt (cp_Component payload) (cp_Key payload) d")
  case (Inr ex)
  then show thesis using that
    by (cases ex; cases "Envelope_CellRequest (cp_Truth payload)") (simp_all add: idem_CheckHandler_def)
qed (use that in \<open>simp add: idem_CheckHandler_def\<close>)

lemma local_run_claims: "local_run nxt s out \<Longrightarrow> out = claim_keys (idempotency_records (sq_app s)) \<and> distinct out"
proof (induction rule: local_run.induct)
  case (checked s out flt now claimed eflt wflt at payload d0 res s' out')
  show ?case
  proof (cases res)
    case (Inl e)
    with sq_ApplyResult_Inl checked show ?thesis by fastforce
  next
    case (Inr u)
    with checked.hyps(2) have w: "runSqlWork (result_works (idem_CheckHandler eflt wflt at payload d0)) (sq_app s) =
        Inr (sq_app s')" by (simp add: sq_ApplyResult_works)
    show ?thesis
    proof (cases rule: idem_CheckHandler_cases [of eflt wflt at payload d0])
      case (3 truthCell)
      with w obtain t where t: "claimTable wflt at (cp_Component payload) (cp_Key payload)
          (idempotency_records (sq_app s)) = Inr t" "sq_app s' = (sq_app s)\<lparr>idempotency_records := t\<rparr>"
        by (auto simp: idem_InsertUnlessExistsWork_def split: sum.splits)
      from claimTable_Inr [OF t(1)] t(2) 3 checked.IH checked.hyps(3) Inr show ?thesis by auto
    qed (use w checked in auto)
  qed
qed simp_all

text \<open>
  C26: with the local variant a truth is emitted at most once for each component and key, whatever the
  interleaving of the checks, their failures and the failures of the database: the keys emitted are
  exactly the keys claimed, in the order of the claims, without repetition.
\<close>

theorem local_truth_emitted_once:
  assumes "local_run nxt s out"
  shows "distinct out \<and> out = map (\<lambda>r. (cm_component r, cm_key r)) (idempotency_records (sq_app s))"
  using local_run_claims [OF assms] by blast

definition demo_check :: check_payload where
  "demo_check = \<lparr>cp_Component = ''timer'', cp_Key = ''k'',
     cp_Truth = \<lparr>env_FanoutName = ''truths.log_message'', env_Payload = ''{}''\<rparr>\<rparr>"

definition demo_claims :: "(sequential_allocator, claims_db) sqlite_store" where
  "demo_claims = \<lparr>sq_allocator = NewSequentialAllocator ''c'' 7, sq_cells = [demo_row ''a''],
     sq_app = \<lparr>idempotency_records = [], firebase_idempotency_records = []\<rparr>\<rparr>"

lemma demo_check_result:
  "idem_CheckHandler None (\<lambda>_. None) 5 demo_check (sq_app demo_claims) =
    Complete [\<lparr>req_Steps = [\<lparr>HandlerName = ''truths.log_message'', Payload = ''{}''\<rparr>], req_ID = '''',
      req_NotBefore = None\<rparr>] [Some (idem_InsertUnlessExistsWork (\<lambda>_. None) 5 ''timer'' ''k'')]"
  by (simp add: idem_CheckHandler_def idem_Exists_def rowExists_def demo_claims_def demo_check_def
      Envelope_CellRequest_def)

lemma demo_check_tx:
  "\<exists>t d a. applyResultWorkTx (\<lambda>_. None) SequentialAllocator_Next 9 demo_claims
      [\<lparr>req_Steps = [\<lparr>HandlerName = ''truths.log_message'', Payload = ''{}''\<rparr>], req_ID = '''',
      req_NotBefore = None\<rparr>] [Some (idem_InsertUnlessExistsWork (\<lambda>_. None) 5 ''timer'' ''k'')] = (Inr (t, d), a)"
  by (simp add: applyResultWorkTx_def idem_InsertUnlessExistsWork_def claimTable_def insertUnlessExists_def
      demo_claims_def NewSequentialAllocator_def SequentialAllocator_Next_def itoa_7 validateSteps_def demo_row_def
      requestRow_def demo_request_def)

lemma demo_check_commits:
  "\<exists>s. sq_ApplyResult (\<lambda>_. None) SequentialAllocator_Next 9 (row_cell (demo_row ''a''))
      (idem_CheckHandler None (\<lambda>_. None) 5 demo_check (sq_app demo_claims)) demo_claims = (Inr (), s)"
proof -
  have "sq_cells demo_claims = [demo_row ''a'']" by (simp add: demo_claims_def)
  with demo_check_tx show ?thesis unfolding demo_check_result
    by (auto simp: sq_ApplyResult_def demo_row_def finishTx_def Let_def row_cell_def requestRow_def demo_request_def)
qed

theorem local_truth_emitted_once_witness:
  "\<exists>s. local_run SequentialAllocator_Next s [(''timer'', ''k'')] \<and>
     [(''timer'', ''k'')] = claim_keys (idempotency_records (sq_app s))"
proof -
  let ?r = "idem_CheckHandler None (\<lambda>_. None) 5 demo_check (sq_app demo_claims)"
  obtain s where s: "sq_ApplyResult (\<lambda>_. None) SequentialAllocator_Next 9 (row_cell (demo_row ''a'')) ?r demo_claims =
      (Inr (), s)" using demo_check_commits by blast
  have r0: "local_run SequentialAllocator_Next demo_claims []"
    by (rule local_run.start) (simp add: demo_claims_def)
  have adds: "result_additions ?r \<noteq> []" unfolding demo_check_result by simp
  have "local_run SequentialAllocator_Next s ([] @ [(cp_Component demo_check, cp_Key demo_check)])"
    by (rule local_run.checked [OF r0 s]) (simp only: adds simp_thms if_True not_False_eq_True)
  then have run: "local_run SequentialAllocator_Next s [(''timer'', ''k'')]" by (simp add: demo_check_def)
  show ?thesis by (intro exI [of _ s] conjI) (rule run, rule local_truth_emitted_once [OF run, THEN conjunct2])
qed

section \<open>One truth per remote key\<close>

lemma ownerField_key [simp]: "ownerField (keyDocument listener eventKey owner) = owner"
  by (simp add: ownerField_def keyDocument_def go_index_def asString_def)

lemma fr_HasKey_content:
  assumes "documents_ok content api" "fr_HasKey api r listener eventKey f = (res, f')"
  shows "content f' = content f"
  using assms unfolding documents_ok_def fr_HasKey_def by (auto split: prod.splits sum.splits if_splits)

lemma fr_CreateKey_content:
  assumes ok: "documents_ok content api" and c: "fr_CreateKey api r listener eventKey owner f = (res, f')"
  shows "content f q = Some d \<Longrightarrow> content f' q = Some d"
    and "res = Inr (ae, own) \<Longrightarrow> \<not> ae \<or> own \<Longrightarrow>
      \<exists>d. content f' (fr_docRef r listener eventKey) = Some d \<and> ownerField d = owner"
proof -
  let ?p = "fr_docRef r listener eventKey"
  obtain res1 f1 where f1: "doc_Create api ?p (keyDocument listener eventKey owner) f = (res1, f1)" by fastforce
  have keep: "content f q = Some d \<Longrightarrow> content f1 q = Some d" for q d
    using ok f1 unfolding documents_ok_def by blast
  have new: "content f ?p = None \<Longrightarrow> content f1 ?p = Some d \<Longrightarrow> ownerField d = owner" for d
    using ok f1 ownerField_key [of listener eventKey owner] unfolding documents_ok_def by metis
  have success: "res1 = None \<Longrightarrow> content f ?p = None \<and> content f1 ?p \<noteq> None"
    using ok f1 unfolding documents_ok_def by blast
  have get: "content f2 = content f1 \<and> (\<forall>d. res2 = Inr d \<longrightarrow> content f1 ?p = Some d)"
    if "doc_Get api ?p f1 = (res2, f2)" for res2 f2
    using ok that unfolding documents_ok_def by blast
  show "content f q = Some d \<Longrightarrow> content f' q = Some d"
    using c f1 keep get unfolding fr_CreateKey_def Let_def
    by (auto split: prod.splits option.splits sum.splits if_splits)
  show "res = Inr (ae, own) \<Longrightarrow> \<not> ae \<or> own \<Longrightarrow> \<exists>d. content f' ?p = Some d \<and> ownerField d = owner"
    using c f1 new success get unfolding fr_CreateKey_def Let_def
    by (auto split: prod.splits option.splits sum.splits if_splits)
qed

text \<open>
  Several processes, each with its own base database, execute cells of the Firebase variant against one
  remote. A cell is known by its identifier, which is its owner. \<open>firebase_Execute\<close> runs the handler of
  the current step; \<open>committed\<close> applies its result to the database of the process and to the cell, and
  \<open>lost\<close> is every execution that does not commit: a crash, a failed transaction, an error result. Its
  effect on the remote stays. The keys of the emitted truths are listed in order.
\<close>

record 'f idem_system =
  sy_remote :: 'f
  sy_db :: "string \<Rightarrow> claims_db"
  sy_cells :: "cell_id \<rightharpoonup> cell"
  sy_emitted :: "(string \<times> string) list"

definition firebase_Execute ::
  "(string \<Rightarrow> gerror + step_payload) \<Rightarrow> gerror option \<Rightarrow> db_faults \<Rightarrow> go_time \<Rightarrow> 'r remote \<Rightarrow> claims_db \<Rightarrow> cell \<Rightarrow>
     'r \<Rightarrow> claims_db result \<times> 'r" where
  "firebase_Execute unmarshal eflt wflt now remote d c r =
     (let h = HandlerName (currentStep c) in
      if h = HandlerCheck
      then typedJSON_Execute unmarshal (\<lambda>payload. firebase_CheckHandler eflt wflt now remote payload d) c r
      else if h = HandlerPopulateRemote then typedJSON_Execute unmarshal (PopulateRemoteHandler remote) c r
      else if h = HandlerEmitTruth
      then typedJSON_Execute unmarshal (\<lambda>payload r. (EmitTruthHandler payload, r)) c r
      else (ErrorResult ''handler not registered'' None, r))"

definition emitted_keys :: "(string \<Rightarrow> gerror + step_payload) \<Rightarrow> cell \<Rightarrow> 'db result \<Rightarrow> (string \<times> string) list" where
  "emitted_keys unmarshal c res =
     (case unmarshal (currentStepPayload c) of
        Inl e \<Rightarrow> []
      | Inr payload \<Rightarrow> map (\<lambda>_. (sp_Listener payload, sp_EventKey payload)) (result_additions res))"

inductive firebase_run ::
  "(step_payload \<Rightarrow> gerror + string) \<Rightarrow> (string \<Rightarrow> gerror + step_payload) \<Rightarrow> 'f remote \<Rightarrow> 'f idem_system \<Rightarrow> bool"
  for marshal unmarshal remote where
  start: "sy_emitted s = [] \<Longrightarrow>
    (\<And>i c. sy_cells s i = Some c \<Longrightarrow> \<exists>uuid listener eventKey truth req.
       firebase_NewCellRequest marshal uuid listener eventKey truth = Inr req \<and> c = newCell req \<and> req_ID req = i) \<Longrightarrow>
    firebase_run marshal unmarshal remote s"
| committed: "firebase_run marshal unmarshal remote s \<Longrightarrow> sy_cells s i = Some c \<Longrightarrow>
    firebase_Execute unmarshal eflt wflt now remote (sy_db s p) c (sy_remote s) = (res, f) \<Longrightarrow>
    runSqlWork (result_works res) (sy_db s p) = Inr d \<Longrightarrow> after_result at c res = Some c' \<Longrightarrow>
    firebase_run marshal unmarshal remote
      \<lparr>sy_remote = f, sy_db = (sy_db s)(p := d), sy_cells = (sy_cells s)(i := c'),
       sy_emitted = sy_emitted s @ emitted_keys unmarshal c res\<rparr>"
| lost: "firebase_run marshal unmarshal remote s \<Longrightarrow> sy_cells s i = Some c \<Longrightarrow>
    firebase_Execute unmarshal eflt wflt now remote (sy_db s p) c (sy_remote s) = (res, f) \<Longrightarrow>
    firebase_run marshal unmarshal remote (s\<lparr>sy_remote := f\<rparr>)"

text \<open>The invariant: a cell that has passed the remote step owns the remote key, and so did every emitter.\<close>

definition owned_key :: "('f \<Rightarrow> string list \<rightharpoonup> go_map) \<Rightarrow> firestore_remote \<Rightarrow> 'f \<Rightarrow> step_payload \<Rightarrow> bool" where
  "owned_key content r f payload \<longleftrightarrow>
     (\<exists>d. content f (fr_docRef r (sp_Listener payload) (sp_EventKey payload)) = Some d \<and> ownerField d = sp_Owner payload)"

definition execution_ok ::
  "(step_payload \<Rightarrow> gerror + string) \<Rightarrow> ('f \<Rightarrow> string list \<rightharpoonup> go_map) \<Rightarrow> firestore_remote \<Rightarrow> 'f \<Rightarrow> cell_id \<Rightarrow> cell \<Rightarrow> bool" where
  "execution_ok marshal content r f i c \<longleftrightarrow>
     (\<exists>payload p. marshal payload = Inr p \<and> sp_Owner payload = i \<and>
        Steps c = [\<lparr>HandlerName = HandlerCheck, Payload = p\<rparr>, \<lparr>HandlerName = HandlerPopulateRemote, Payload = p\<rparr>,
          \<lparr>HandlerName = HandlerEmitTruth, Payload = p\<rparr>] \<and>
        (CurrentStep c = 0 \<or> CurrentStep c = 1 \<or> CurrentStep c = 2 \<and> owned_key content r f payload))"

definition system_ok ::
  "(step_payload \<Rightarrow> gerror + string) \<Rightarrow> ('f \<Rightarrow> string list \<rightharpoonup> go_map) \<Rightarrow> firestore_remote \<Rightarrow> 'f idem_system \<Rightarrow> bool" where
  "system_ok marshal content r s \<longleftrightarrow>
     distinct (sy_emitted s) \<and>
     (\<forall>i c. sy_cells s i = Some c \<longrightarrow> execution_ok marshal content r (sy_remote s) i c) \<and>
     (\<forall>(l, k) \<in> set (sy_emitted s). \<exists>d. content (sy_remote s) (fr_docRef r l k) = Some d \<and>
        sy_cells s (ownerField d) = None)"

lemma handlers_distinct [simp]:
  "HandlerCheck \<noteq> HandlerPopulateRemote" "HandlerCheck \<noteq> HandlerEmitTruth" "HandlerPopulateRemote \<noteq> HandlerEmitTruth"
  "HandlerPopulateRemote \<noteq> HandlerCheck" "HandlerEmitTruth \<noteq> HandlerCheck" "HandlerEmitTruth \<noteq> HandlerPopulateRemote"
  by (simp_all add: HandlerCheck_def HandlerPopulateRemote_def HandlerEmitTruth_def)

lemma keeps_content:
  assumes "\<And>q d. content f q = Some d \<Longrightarrow> content f' q = Some d"
  shows "execution_ok marshal content r f i c \<Longrightarrow> execution_ok marshal content r f' i c"
    and "owned_key content r f payload \<Longrightarrow> owned_key content r f' payload"
  using assms unfolding execution_ok_def owned_key_def by blast+

text \<open>What one execution does, step by step.\<close>

lemma execution_start:
  assumes "firebase_NewCellRequest marshal uuid listener eventKey truth = Inr req" "req_ID req = i"
  shows "execution_ok marshal content r f i (newCell req)"
proof -
  let ?pl = "\<lparr>sp_Listener = listener, sp_EventKey = eventKey,
    sp_Owner = ''firebase-idempotency:'' @ listener @ '':'' @ eventKey @ '':'' @ uuid, sp_Truth = truth\<rparr>"
  from assms obtain p where "marshal ?pl = Inr p" "sp_Owner ?pl = i"
    "Steps (newCell req) = [\<lparr>HandlerName = HandlerCheck, Payload = p\<rparr>,
       \<lparr>HandlerName = HandlerPopulateRemote, Payload = p\<rparr>, \<lparr>HandlerName = HandlerEmitTruth, Payload = p\<rparr>]"
    by (auto simp: firebase_NewCellRequest_def Let_def newCell_def split: sum.splits)
  then show ?thesis unfolding execution_ok_def by (intro exI [of _ ?pl] exI [of _ p]) (simp add: newCell_def)
qed

lemma firebase_CheckHandler_spec:
  assumes "documents_ok content api"
    and "firebase_CheckHandler eflt wflt now (FirestoreRemote api r) payload d f = (res, f')"
  shows "content f' = content f \<and> result_additions res = [] \<and>
    (after_result at c res = Some c' \<longrightarrow> c' = None \<or> (\<exists>ws. res = Complete [] ws))"
  using assms fr_HasKey_content [OF assms(1)]
  by (fastforce simp: firebase_CheckHandler_def FirestoreRemote_def Let_def split: sum.splits bool.splits prod.splits)

lemma PopulateRemoteHandler_spec:
  assumes "documents_ok content api"
    and "PopulateRemoteHandler (FirestoreRemote api r) payload f = (res, f')"
  shows "(\<forall>q d. content f q = Some d \<longrightarrow> content f' q = Some d) \<and> result_additions res = [] \<and>
    (after_result at c res = Some c' \<longrightarrow> c' = None \<or> (\<exists>ws. res = Complete [] ws) \<and> owned_key content r f' payload)"
proof -
  obtain cr f1 where c: "fr_CreateKey api r (sp_Listener payload) (sp_EventKey payload) (sp_Owner payload) f = (cr, f1)"
    by fastforce
  note k = fr_CreateKey_content [OF assms(1) c]
  have f1: "f' = f1" using assms(2) c by (auto simp: PopulateRemoteHandler_def FirestoreRemote_def split: sum.splits prod.splits)
  have kept: "\<forall>q d. content f q = Some d \<longrightarrow> content f' q = Some d" using k(1) f1 by blast
  show ?thesis
  proof (cases cr)
    case (Inl e)
    with assms(2) c kept show ?thesis by (auto simp: PopulateRemoteHandler_def FirestoreRemote_def)
  next
    case (Inr x)
    then obtain ae own where x: "cr = Inr (ae, own)" by (cases x) simp
    with assms(2) c have res: "res = (if ae \<and> \<not> own then Kill [] [] else Complete [] [])"
      by (simp add: PopulateRemoteHandler_def FirestoreRemote_def)
    from k(2) [OF x] f1 have "\<not> ae \<or> own \<Longrightarrow> owned_key content r f' payload" by (simp add: owned_key_def)
    with res kept show ?thesis by auto
  qed
qed

lemma EmitTruthHandler_spec:
  "length (result_additions (EmitTruthHandler payload)) \<le> 1 \<and>
   (after_result at c (EmitTruthHandler payload) \<noteq> None \<longrightarrow> (\<exists>t. EmitTruthHandler payload = Complete [t] []))"
  by (auto simp: EmitTruthHandler_def split: sum.splits)

text \<open>
  The step of an execution: documents are kept, the next cell is again well-formed, and a truth is
  emitted only by a cell that owns its key and is gone afterwards.
\<close>

lemma execution_step:
  assumes ok: "documents_ok content api" and codec: "\<And>x p. marshal x = Inr p \<Longrightarrow> unmarshal p = Inr x"
    and c: "execution_ok marshal content r f i c"
    and run: "firebase_Execute unmarshal eflt wflt now (FirestoreRemote api r) d c f = (res, f')"
  shows "\<forall>q d. content f q = Some d \<longrightarrow> content f' q = Some d"
    and "after_result at c res = Some c' \<Longrightarrow>
      (\<forall>c2. c' = Some c2 \<longrightarrow> execution_ok marshal content r f' i c2) \<and>
      (emitted_keys unmarshal c res = [] \<or>
       c' = None \<and> (\<exists>payload :: step_payload. emitted_keys unmarshal c res = [(sp_Listener payload, sp_EventKey payload)] \<and>
         sp_Owner payload = i \<and> owned_key content r f' payload))"
proof -
  from c obtain payload p where pl: "marshal payload = Inr p" "sp_Owner payload = i"
    and st: "Steps c = [\<lparr>HandlerName = HandlerCheck, Payload = p\<rparr>, \<lparr>HandlerName = HandlerPopulateRemote, Payload = p\<rparr>,
      \<lparr>HandlerName = HandlerEmitTruth, Payload = p\<rparr>]"
    and cur: "CurrentStep c = 0 \<or> CurrentStep c = 1 \<or> CurrentStep c = 2 \<and> owned_key content r f payload"
    unfolding execution_ok_def by blast
  have dec: "unmarshal p = Inr payload" by (rule codec [OF pl(1)])
  have next_ok: "execution_ok marshal content r f' i c2"
    if "after_result at c (Complete [] ws) = Some (Some c2)" "CurrentStep c = 0 \<or> CurrentStep c = 1 \<and> owned_key content r f' payload"
    for ws :: "claims_db application_work option list" and c2
    using that pl st unfolding execution_ok_def
    by (intro exI [of _ payload] exI [of _ p]) (auto split: if_splits)
  from cur consider "CurrentStep c = 0" | "CurrentStep c = 1" | "CurrentStep c = 2" "owned_key content r f payload" by blast
  then have "(\<forall>q d. content f q = Some d \<longrightarrow> content f' q = Some d) \<and> (after_result at c res = Some c' \<longrightarrow>
      (\<forall>c2. c' = Some c2 \<longrightarrow> execution_ok marshal content r f' i c2) \<and>
      (emitted_keys unmarshal c res = [] \<or>
       c' = None \<and> (\<exists>payload :: step_payload. emitted_keys unmarshal c res = [(sp_Listener payload, sp_EventKey payload)] \<and>
         sp_Owner payload = i \<and> owned_key content r f' payload)))"
  proof cases
    case 1
    with run st dec have "firebase_CheckHandler eflt wflt now (FirestoreRemote api r) payload d f = (res, f')"
      by (simp add: firebase_Execute_def typedJSON_Execute_def currentStep_def currentStepPayload_def)
    from firebase_CheckHandler_spec [OF ok this, of at c c'] next_ok 1 show ?thesis
      by (auto simp: emitted_keys_def split: sum.splits)
  next
    case 2
    with run st dec have "PopulateRemoteHandler (FirestoreRemote api r) payload f = (res, f')"
      by (simp add: firebase_Execute_def typedJSON_Execute_def currentStep_def currentStepPayload_def)
    from PopulateRemoteHandler_spec [OF ok this, of at c c'] next_ok 2 show ?thesis
      by (auto simp: emitted_keys_def split: sum.splits)
  next
    case 3
    with run st dec have e: "res = EmitTruthHandler payload" "f' = f"
      by (simp_all add: firebase_Execute_def typedJSON_Execute_def currentStep_def currentStepPayload_def)
    have "currentStepPayload c = p" using 3(1) st by (simp add: currentStepPayload_def)
    with EmitTruthHandler_spec [of payload at c] e 3 pl(2) st dec show ?thesis
      by (auto simp: emitted_keys_def)
  qed
  then show "\<forall>q d. content f q = Some d \<longrightarrow> content f' q = Some d"
    "after_result at c res = Some c' \<Longrightarrow>
      (\<forall>c2. c' = Some c2 \<longrightarrow> execution_ok marshal content r f' i c2) \<and>
      (emitted_keys unmarshal c res = [] \<or>
       c' = None \<and> (\<exists>payload :: step_payload. emitted_keys unmarshal c res = [(sp_Listener payload, sp_EventKey payload)] \<and>
         sp_Owner payload = i \<and> owned_key content r f' payload))" by blast+
qed

lemma system_ok_commit:
  assumes inv: "system_ok marshal content r s" and cell: "sy_cells s i = Some c"
    and kept: "\<forall>q d. content (sy_remote s) q = Some d \<longrightarrow> content f q = Some d"
    and next_ok: "\<forall>c2. c' = Some c2 \<longrightarrow> execution_ok marshal content r f i c2"
    and keys: "ks = [] \<or> c' = None \<and> (\<exists>payload :: step_payload. ks = [(sp_Listener payload, sp_EventKey payload)] \<and>
         sp_Owner payload = i \<and> owned_key content r f payload)"
  shows "system_ok marshal content r \<lparr>sy_remote = f, sy_db = db, sy_cells = (sy_cells s)(i := c'),
    sy_emitted = sy_emitted s @ ks\<rparr>"
proof -
  have keep: "content (sy_remote s) q = Some d \<Longrightarrow> content f q = Some d" for q d using kept by blast
  have cells: "execution_ok marshal content r f j cj" if "((sy_cells s)(i := c')) j = Some cj" for j cj
  proof (cases "j = i")
    case False
    with that inv have "execution_ok marshal content r (sy_remote s) j cj" by (simp add: system_ok_def)
    then show ?thesis by (rule keeps_content(1) [where content = content and f = "sy_remote s", rotated]) (rule keep)
  qed (use that next_ok in simp)
  have old: "\<exists>d. content f (fr_docRef r l k) = Some d \<and> sy_cells s (ownerField d) = None"
    if "(l, k) \<in> set (sy_emitted s)" for l k
    using that inv keep unfolding system_ok_def by fastforce
  show ?thesis
  proof (cases "ks = []")
    case True
    have "\<exists>d. content f (fr_docRef r l k) = Some d \<and> ((sy_cells s)(i := c')) (ownerField d) = None"
      if "(l, k) \<in> set (sy_emitted s)" for l k
      using old [OF that] cell by (auto intro: exI)
    with True inv cells show ?thesis by (auto simp: system_ok_def simp del: fun_upd_apply)
  next
    case False
    with keys obtain payload :: step_payload and d where k: "ks = [(sp_Listener payload, sp_EventKey payload)]" "c' = None"
      "content f (fr_docRef r (sp_Listener payload) (sp_EventKey payload)) = Some d" "ownerField d = i"
      unfolding owned_key_def by blast
    have "(sp_Listener payload, sp_EventKey payload) \<notin> set (sy_emitted s)"
      using old k(3,4) cell by fastforce
    moreover have "\<exists>d. content f (fr_docRef r l m) = Some d \<and> ((sy_cells s)(i := c')) (ownerField d) = None"
      if "(l, m) \<in> set (sy_emitted s @ ks)" for l m
      using that old [of l m] k by auto
    ultimately show ?thesis using inv cells k(1) by (auto simp: system_ok_def simp del: fun_upd_apply)
  qed
qed

lemma firebase_run_ok:
  assumes "firebase_run marshal unmarshal (FirestoreRemote api r) s"
    and ok: "documents_ok content api" and codec: "\<And>x p. marshal x = Inr p \<Longrightarrow> unmarshal p = Inr x"
  shows "system_ok marshal content r s"
  using assms(1)
proof (induction rule: firebase_run.induct)
  case (start s)
  have "execution_ok marshal content r (sy_remote s) i c" if "sy_cells s i = Some c" for i c
  proof -
    from start(2) [OF that] obtain uuid listener eventKey truth req where
      req: "firebase_NewCellRequest marshal uuid listener eventKey truth = Inr req" "c = newCell req" "req_ID req = i"
      by (elim exE conjE)
    show ?thesis unfolding req(2) by (rule execution_start [OF req(1,3)])
  qed
  with start(1) show ?case by (simp add: system_ok_def)
next
  case (committed s i c eflt wflt now p res f d at c')
  have c: "execution_ok marshal content r (sy_remote s) i c"
    using committed.IH committed.hyps(2) by (simp add: system_ok_def)
  note step = execution_step [OF ok codec c committed.hyps(3)]
  show ?case
    using step(2) [OF _ committed.hyps(5)] system_ok_commit [OF committed.IH committed.hyps(2) step(1)] by blast
next
  case (lost s i c eflt wflt now p res f)
  have c: "execution_ok marshal content r (sy_remote s) i c"
    using lost.IH lost.hyps(2) by (simp add: system_ok_def)
  note kept = execution_step(1) [OF ok codec c lost.hyps(3)]
  have keep: "content (sy_remote s) q = Some d \<Longrightarrow> content f q = Some d" for q d using kept by blast
  have "\<forall>c2. Some c = Some c2 \<longrightarrow> execution_ok marshal content r f i c2"
    using keeps_content(1) [where content = content and f = "sy_remote s", OF keep c] by blast
  from system_ok_commit [OF lost.IH lost.hyps(2) kept this, of "[]" "sy_db s"] lost.hyps(2)
  show ?case by (simp add: fun_upd_idem system_ok_def)
qed

text \<open>
  C27: any number of processes that race on the Firebase variant, with crashes and lost replies anywhere,
  emit the truth of a listener and key at most once. The document service is assumed to create a
  document only once and to read what is stored, and the codec to read back what it wrote.
\<close>

theorem firebase_truth_emitted_once:
  assumes "firebase_run marshal unmarshal (FirestoreRemote api r) s"
    and "documents_ok content api" and "\<And>x p. marshal x = Inr p \<Longrightarrow> unmarshal p = Inr x"
  shows "distinct (sy_emitted s) \<and>
    (\<forall>(l, k) \<in> set (sy_emitted s). content (sy_remote s) (fr_docRef r l k) \<noteq> None)"
  using firebase_run_ok [OF assms] by (auto simp: system_ok_def)

definition demo_docs :: "(string list \<rightharpoonup> go_map) documents" where
  "demo_docs =
     \<lparr>doc_Create = (\<lambda>p m f. if f p = None then (None, f(p \<mapsto> m)) else (Some (Err ''exists''), f)),
      doc_Get = (\<lambda>p f. (case f p of None \<Rightarrow> Inl (Err ''missing'') | Some d \<Rightarrow> Inr d, f)),
      doc_Code = (\<lambda>e. if e = Err ''exists'' then AlreadyExists else NotFound)\<rparr>"

lemma demo_docs_ok: "documents_ok id demo_docs"
  by (auto simp: documents_ok_def demo_docs_def split: if_splits option.splits)

definition demo_owner :: string where "demo_owner = ''firebase-idempotency:polls:p1:u''"

definition demo_payload :: step_payload where
  "demo_payload = \<lparr>sp_Listener = ''polls'', sp_EventKey = ''p1'', sp_Owner = demo_owner,
     sp_Truth = \<lparr>env_FanoutName = ''truths.poll_opened'', env_Payload = ''{}''\<rparr>\<rparr>"

definition demo_encode :: "step_payload \<Rightarrow> gerror + string" where
  "demo_encode x = (if x = demo_payload then Inr ''x'' else Inl (Err ''encode''))"

definition demo_decode :: "string \<Rightarrow> gerror + step_payload" where
  "demo_decode p = Inr demo_payload"

definition demo_remote :: firestore_remote where
  "demo_remote = \<lparr>fr_collectionRoot = ''r'', fr_namespace = ''n''\<rparr>"

definition demo_execution :: "int \<Rightarrow> cell" where
  "demo_execution n = \<lparr>Steps = map (\<lambda>h. \<lparr>HandlerName = h, Payload = ''x''\<rparr>) [HandlerCheck, HandlerPopulateRemote, HandlerEmitTruth],
     CurrentStep = n, ID = demo_owner, State = CellStateReady, NotBefore = None\<rparr>"

definition demo_system :: "(string list \<rightharpoonup> go_map) idem_system" where
  "demo_system = \<lparr>sy_remote = Map.empty,
     sy_db = (\<lambda>_. \<lparr>idempotency_records = [], firebase_idempotency_records = []\<rparr>),
     sy_cells = [demo_owner \<mapsto> demo_execution 0], sy_emitted = []\<rparr>"

abbreviation demo_exec where
  "demo_exec \<equiv> firebase_Execute demo_decode None (\<lambda>_. None) 5 (FirestoreRemote demo_docs demo_remote)"

lemmas demo_exec_defs =
  firebase_Execute_def typedJSON_Execute_def currentStep_def currentStepPayload_def demo_execution_def demo_decode_def

lemma demo_idem_start: "firebase_run demo_encode demo_decode (FirestoreRemote demo_docs demo_remote) demo_system"
proof (rule firebase_run.start)
  fix i c assume "sy_cells demo_system i = Some c"
  then have ic: "i = demo_owner" "c = demo_execution 0" by (auto simp: demo_system_def split: if_splits)
  let ?req = "\<lparr>req_Steps = Steps (demo_execution 0), req_ID = demo_owner, req_NotBefore = None\<rparr>"
  have "firebase_NewCellRequest demo_encode ''u'' ''polls'' ''p1'' (sp_Truth demo_payload) = Inr ?req"
    by (simp add: firebase_NewCellRequest_def Let_def demo_encode_def demo_payload_def demo_owner_def demo_execution_def)
  moreover have "c = newCell ?req" by (simp add: ic newCell_def demo_execution_def)
  ultimately show "\<exists>uuid listener eventKey truth req.
      firebase_NewCellRequest demo_encode uuid listener eventKey truth = Inr req \<and> c = newCell req \<and> req_ID req = i"
    unfolding ic(1) by (intro exI conjI) (assumption, assumption, simp)
qed (simp add: demo_system_def)

lemma demo_exec0:
  "demo_exec \<lparr>idempotency_records = [], firebase_idempotency_records = []\<rparr> (demo_execution 0) Map.empty =
    (Complete [] [Some (firebase_InsertUnlessExistsWork (\<lambda>_. None) 5 ''polls'' ''p1'')], Map.empty)"
  by (simp add: demo_exec_defs firebase_CheckHandler_def firebase_Exists_def rowExists_def FirestoreRemote_def
      fr_HasKey_def demo_docs_def demo_payload_def)

lemma demo_exec1:
  "demo_exec d (demo_execution 1) Map.empty =
    (Complete [] [], [fr_docRef demo_remote ''polls'' ''p1'' \<mapsto> keyDocument ''polls'' ''p1'' demo_owner])"
  by (simp add: demo_exec_defs PopulateRemoteHandler_def FirestoreRemote_def fr_CreateKey_def demo_docs_def
      demo_payload_def Let_def)

lemma demo_exec2:
  "demo_exec d (demo_execution 2) f =
    (Complete [\<lparr>req_Steps = [\<lparr>HandlerName = ''truths.poll_opened'', Payload = ''{}''\<rparr>], req_ID = '''', req_NotBefore = None\<rparr>] [], f)"
  by (simp add: demo_exec_defs EmitTruthHandler_def Envelope_CellRequest_def demo_payload_def)

lemma demo_idem_run:
  "\<exists>s. firebase_run demo_encode demo_decode (FirestoreRemote demo_docs demo_remote) s \<and> sy_emitted s = [(''polls'', ''p1'')]"
proof -
  let ?R = "firebase_run demo_encode demo_decode (FirestoreRemote demo_docs demo_remote)"
  have "\<exists>s. ?R s \<and> sy_cells s = [demo_owner \<mapsto> demo_execution 1] \<and> sy_emitted s = [] \<and> sy_remote s = Map.empty"
    using firebase_run.committed [OF demo_idem_start, of demo_owner "demo_execution 0" None "\<lambda>_. None" 5 "[]" _ _ _ 0,
        unfolded demo_system_def idem_system.simps, OF _ demo_exec0]
    by (auto intro!: exI simp: firebase_InsertUnlessExistsWork_def claimTable_def insertUnlessExists_def
        demo_execution_def emitted_keys_def demo_decode_def)
  then obtain s1 where s1: "?R s1" "sy_cells s1 demo_owner = Some (demo_execution 1)" "sy_emitted s1 = []"
    "sy_remote s1 = Map.empty" by auto
  let ?f = "[fr_docRef demo_remote ''polls'' ''p1'' \<mapsto> keyDocument ''polls'' ''p1'' demo_owner]"
  let ?s2 = "\<lparr>sy_remote = ?f, sy_db = (sy_db s1)([] := sy_db s1 []), sy_cells = (sy_cells s1)(demo_owner := Some (demo_execution 2)),
    sy_emitted = sy_emitted s1 @ emitted_keys demo_decode (demo_execution 1) (Complete [] [] :: claims_db result)\<rparr>"
  have e1: "demo_exec (sy_db s1 []) (demo_execution 1) (sy_remote s1) = (Complete [] [], ?f)"
    unfolding s1(4) by (rule demo_exec1)
  have s2: "?R ?s2"
    by (rule firebase_run.committed [OF s1(1,2) e1, where at = 0])
      (simp_all add: demo_execution_def)
  have c2: "sy_cells ?s2 demo_owner = Some (demo_execution 2)" by simp
  show ?thesis
    by (intro exI conjI, rule firebase_run.committed [OF s2 c2 demo_exec2, where at = 0 and c' = None])
      (simp_all add: demo_execution_def s1(3) emitted_keys_def demo_decode_def demo_payload_def)
qed

theorem firebase_truth_emitted_once_witness:
  "\<exists>s. firebase_run demo_encode demo_decode (FirestoreRemote demo_docs demo_remote) s \<and>
     sy_emitted s = [(''polls'', ''p1'')] \<and> distinct (sy_emitted s) \<and>
     sy_remote s (fr_docRef demo_remote ''polls'' ''p1'') \<noteq> None"
proof -
  obtain s where s: "firebase_run demo_encode demo_decode (FirestoreRemote demo_docs demo_remote) s"
    "sy_emitted s = [(''polls'', ''p1'')]" using demo_idem_run by blast
  have codec: "\<And>x p. demo_encode x = Inr p \<Longrightarrow> demo_decode p = Inr x"
    by (auto simp: demo_encode_def demo_decode_def split: if_splits)
  from firebase_truth_emitted_once [OF s(1) demo_docs_ok codec]
  have "distinct (sy_emitted s)" "sy_remote s (fr_docRef demo_remote ''polls'' ''p1'') \<noteq> None"
    by (simp_all add: s(2))
  with s show ?thesis by (intro exI [of _ s] conjI)
qed

end
