(* ===== verification/EventPolls.thy ===== *)
theory EventPolls
  imports Idempotency VenueCache
begin

text \<open>
  components/recurrence/service.go and plugins/recurrence: what is done about an observed event venue.
  The evaluation emits a truth, through the Firebase idempotency sequence, when the stored occurrence is
  stale or when it is due; the service recalculates a stale occurrence, and creates the poll of a due one.

  The Firestore client is a parameter. A transaction is the function from what its reads return to the
  writes it makes; the client runs it and commits the writes.
\<close>

section \<open>Firestore\<close>

datatype fs_write =
    FsCreate "string list" go_map
  | FsSetMerge "string list" go_map
  | FsDeleteField "string list" string

text \<open>
  A write of a transaction is refused at once when its arguments are invalid; \<open>buffer\<close> says which, and the
  first refusal ends the transaction's function.
\<close>

fun bufferWrites :: "(fs_write \<Rightarrow> gerror option) \<Rightarrow> fs_write list \<Rightarrow> gerror + fs_write list" where
  "bufferWrites buffer [] = Inr []"
| "bufferWrites buffer (w # ws) =
     (case buffer w of
        Some e \<Rightarrow> Inl e
      | None \<Rightarrow> (case bufferWrites buffer ws of Inl e \<Rightarrow> Inl e | Inr ws' \<Rightarrow> Inr (w # ws')))"

text \<open>
  \<open>fs_Advance\<close> and \<open>fs_CreatePoll\<close> are \<open>RunTransaction\<close> with one document read and with one query; they
  return the error and the outcome of the last run of the transaction's function, if it ran. \<open>fs_Set\<close>
  writes one document.
\<close>

record 'f firestore =
  fs_Buffer :: "fs_write \<Rightarrow> gerror option"
  fs_Get :: "string list \<Rightarrow> 'f \<Rightarrow> (gerror + go_map) \<times> 'f"
  fs_Advance :: "string list \<Rightarrow> (gerror + go_map \<Rightarrow> gerror + fs_write list) \<Rightarrow> 'f \<Rightarrow> gerror option \<times> 'f"
  fs_CreatePoll :: "string \<Rightarrow> string \<Rightarrow> (gerror + string list \<Rightarrow> gerror + fs_write list) \<Rightarrow> 'f \<Rightarrow>
     (gerror option \<times> (gerror + fs_write list) option) \<times> 'f"
  fs_Set :: "string list \<Rightarrow> go_map \<Rightarrow> 'f \<Rightarrow> gerror option \<times> 'f"

definition venueCollection :: string where "venueCollection = ''pubs''"
definition pollCollection :: string where "pollCollection = ''polls''"
definition voteCollection :: string where "voteCollection = ''votes''"
definition attendanceCollection :: string where "attendanceCollection = ''attendance''"
definition auditCollection :: string where "auditCollection = ''poll_action_audit''"

definition stringField :: "go_map \<Rightarrow> string \<Rightarrow> string" where
  "stringField data k = (case asString (go_index (Some data) k) of None \<Rightarrow> '''' | Some s \<Rightarrow> s)"

definition mapField :: "go_map \<Rightarrow> string \<Rightarrow> go_map option" where
  "mapField data k = (case go_index (Some data) k of AMap m \<Rightarrow> Some m | _ \<Rightarrow> None)"

definition EventVenueFrom :: "string \<Rightarrow> go_map \<Rightarrow> event_venue" where
  "EventVenueFrom docID data =
     \<lparr>ev_ID = docID, ev_Name = stringField data ''name'', ev_Recurrence = mapField data ''recurrence'',
      ev_NextOccurrenceDate = stringField data NextOccurrenceField\<rparr>"

section \<open>Stale occurrences\<close>

definition clearOccurrence :: "string list \<Rightarrow> go_map \<Rightarrow> fs_write list" where
  "clearOccurrence ref data =
     (if data NextOccurrenceField = None then [] else [FsDeleteField ref NextOccurrenceField])"

text \<open>\<open>now1\<close> and \<open>now2\<close> are the two readings of the clock.\<close>

definition advance_tx ::
  "(fs_write \<Rightarrow> gerror option) \<Rightarrow> location \<Rightarrow> go_time \<Rightarrow> go_time \<Rightarrow> string list \<Rightarrow> gerror + go_map \<Rightarrow> gerror + fs_write list" where
  "advance_tx buffer loc now1 now2 venueRef doc =
     (case doc of
        Inl e \<Rightarrow> Inl e
      | Inr data \<Rightarrow>
          if stringField data ''venueType'' \<noteq> ''event'' then Inr []
          else (let raw = mapField data ''recurrence''; current = stringField data NextOccurrenceField in
                if \<not> NeedsRecalculation raw current now1 loc then Inr []
                else case ParseRule raw of
                       None \<Rightarrow> bufferWrites buffer (clearOccurrence venueRef data)
                     | Some rule \<Rightarrow>
                         (case NextOccurrence rule (beginningOfDay loc now2) loc of
                            None \<Rightarrow> bufferWrites buffer (clearOccurrence venueRef data)
                          | Some occurrence \<Rightarrow>
                              bufferWrites buffer
                                [FsSetMerge venueRef [NextOccurrenceField \<mapsto> AString (DateOnly_String occurrence)]])))"

definition AdvanceStaleEvent ::
  "'f firestore \<Rightarrow> location \<Rightarrow> go_time \<Rightarrow> go_time \<Rightarrow> string \<Rightarrow> 'f \<Rightarrow> gerror option \<times> 'f" where
  "AdvanceStaleEvent fs loc now1 now2 eventID f =
     fs_Advance fs [venueCollection, eventID] (advance_tx (fs_Buffer fs) loc now1 now2 [venueCollection, eventID]) f"

section \<open>Polls of due occurrences\<close>

definition eventPoll :: "string \<Rightarrow> string \<Rightarrow> string \<Rightarrow> go_map" where
  "eventPoll eventID occurrenceDate venueName =
     [''date'' \<mapsto> AString occurrenceDate, ''completed'' \<mapsto> ABool False,
      ''pubs'' \<mapsto> AMap [eventID \<mapsto> AMap [''name'' \<mapsto> AString venueName]],
      ''eventVenueId'' \<mapsto> AString eventID, ''eventOccurrenceDate'' \<mapsto> AString occurrenceDate]"

definition create_tx ::
  "(fs_write \<Rightarrow> gerror option) \<Rightarrow> string \<Rightarrow> string \<Rightarrow> string \<Rightarrow> string \<Rightarrow> gerror + string list \<Rightarrow> gerror + fs_write list" where
  "create_tx buffer pollID eventID occurrenceDate venueName matches =
     (case matches of
        Inl e \<Rightarrow> Inl e
      | Inr ms \<Rightarrow>
          if length ms > 0 then Inr []
          else bufferWrites buffer
                   [FsCreate [pollCollection, pollID] (eventPoll eventID occurrenceDate venueName),
                    FsCreate [voteCollection, pollID] [''any'' \<mapsto> AAnys []],
                    FsCreate [attendanceCollection, pollID] Map.empty])"

definition auditDocument :: "string \<Rightarrow> string \<Rightarrow> go_map" where
  "auditDocument pollID occurrenceDate =
     [''actionType'' \<mapsto> AString ''create'', ''actorUid'' \<mapsto> AString ''backend:auto'', ''pollId'' \<mapsto> AString pollID,
      ''pollDate'' \<mapsto> AString occurrenceDate, ''at'' \<mapsto> ASentinel ''ServerTimestamp'']"

text \<open>
  \<open>cache\<close> is what the venue cache answers, \<open>None\<close> without a cache; \<open>pollID\<close> is the identifier \<open>NewDoc\<close>
  allocates, \<open>stamp\<close> the decimal nanoseconds of the clock.
\<close>

definition venueNameOf :: "(gerror + venue_projection) option \<Rightarrow> go_map \<Rightarrow> string" where
  "venueNameOf cache data =
     (case cache of
        Some (Inr projection) \<Rightarrow> if stringField data ''name'' = '''' then vp_Name projection else stringField data ''name''
      | _ \<Rightarrow> stringField data ''name'')"

definition CreateEventPoll ::
  "'f firestore \<Rightarrow> (gerror + venue_projection) option \<Rightarrow> string \<Rightarrow> string \<Rightarrow> string \<Rightarrow> string \<Rightarrow> 'f \<Rightarrow> gerror option \<times> 'f" where
  "CreateEventPoll fs cache pollID stamp eventID occurrenceDate f =
     (case fs_Get fs [venueCollection, eventID] f of
        (Inl e, f1) \<Rightarrow> (Some e, f1)
      | (Inr data, f1) \<Rightarrow>
          if stringField data ''venueType'' \<noteq> ''event'' then (None, f1)
          else if stringField data NextOccurrenceField \<noteq> occurrenceDate then (None, f1)
          else (case fs_CreatePoll fs eventID occurrenceDate
                       (create_tx (fs_Buffer fs) pollID eventID occurrenceDate (venueNameOf cache data)) f1 of
                  ((Some e, _), f2) \<Rightarrow> (Some e, f2)
                | ((None, lastRun), f2) \<Rightarrow>
                    (case lastRun of
                       Some (Inr (w # ws)) \<Rightarrow>
                         (let (_, f3) = fs_Set fs [auditCollection, pollID @ ''_create_'' @ stamp]
                                          (auditDocument pollID occurrenceDate) f2
                          in (None, f3))
                     | _ \<Rightarrow> (None, f2))))"

section \<open>The handlers\<close>

definition listenerStaleEvents :: string where "listenerStaleEvents = ''stale_events''"
definition listenerEventDue :: string where "listenerEventDue = ''event_due''"

text \<open>
  The codecs, the digest and the source of UUIDs the evaluation uses: \<open>marshalRaw\<close> for a recurrence in a
  key, \<open>marshalStale\<close> and \<open>marshalPoll\<close> for the truths, \<open>marshalStep\<close> for the steps of the sequence.
\<close>

record codecs =
  co_marshalRaw :: "go_map option \<Rightarrow> gerror + string"
  co_errText :: "gerror \<Rightarrow> string"
  co_sha256 :: "string \<Rightarrow> string"
  co_marshalStale :: "stale_event \<Rightarrow> gerror + string"
  co_marshalPoll :: "create_event_poll \<Rightarrow> gerror + string"
  co_marshalStep :: "step_payload \<Rightarrow> gerror + string"
  co_uuid :: string

definition createTruth :: "codecs \<Rightarrow> string \<Rightarrow> string \<Rightarrow> envelope \<Rightarrow> 'db result" where
  "createTruth co listener eventKey envelope =
     (case firebase_NewCellRequest (co_marshalStep co) (co_uuid co) listener eventKey envelope of
        Inl e \<Rightarrow> ErrorResult ''build idempotency cell'' (Some e)
      | Inr request \<Rightarrow> Complete [request] [])"

definition createStaleEventTruth :: "codecs \<Rightarrow> event_venue \<Rightarrow> 'db result" where
  "createStaleEventTruth co venue =
     (case NewEnvelope (co_marshalStale co) StaleEventFanout
             \<lparr>se_EventID = ev_ID venue, se_ObservedDate = ev_NextOccurrenceDate venue\<rparr> of
        Inl e \<Rightarrow> ErrorResult ''build stale event envelope'' (Some e)
      | Inr envelope \<Rightarrow>
          createTruth co listenerStaleEvents
            (StaleEventKey (co_marshalRaw co) (co_errText co) (co_sha256 co) (ev_ID venue) (ev_NextOccurrenceDate venue)
               (ev_Recurrence venue)) envelope)"

definition createEventDueTruth :: "codecs \<Rightarrow> event_venue \<Rightarrow> 'db result" where
  "createEventDueTruth co venue =
     (case NewEnvelope (co_marshalPoll co) CreateEventPollFanout
             \<lparr>ce_EventID = ev_ID venue, ce_OccurrenceDate = ev_NextOccurrenceDate venue\<rparr> of
        Inl e \<Rightarrow> ErrorResult ''build create event poll envelope'' (Some e)
      | Inr envelope \<Rightarrow>
          createTruth co listenerEventDue (EventDueKey (ev_ID venue) (ev_NextOccurrenceDate venue)) envelope)"

text \<open>\<open>time.ParseInLocation(time.DateOnly, s, loc)\<close>.\<close>

definition parseInLocation :: "string \<Rightarrow> location \<Rightarrow> go_time option" where
  "parseInLocation s loc =
     map_option (\<lambda>c. time_Date loc (cv_Year c) (cv_Month c) (cv_Day c) 0 0 0 0) (parseISODate s)"

text \<open>\<open>hasStore\<close> says whether the handler has a store; it uses it for nothing else.\<close>

definition EvaluateEventVenue_Handle ::
  "codecs \<Rightarrow> bool \<Rightarrow> location option \<Rightarrow> event_venue_observed \<Rightarrow> 'db result" where
  "EvaluateEventVenue_Handle co hasStore location payload =
     (case location of
        None \<Rightarrow> ErrorResult ''event venue evaluator dependencies are nil'' None
      | Some loc \<Rightarrow>
          if \<not> hasStore then ErrorResult ''event venue evaluator dependencies are nil'' None
          else if ev_ID (eo_Venue payload) = '''' \<or> eo_ObservedOn payload = '''' then Complete [] []
          else (case parseInLocation (eo_ObservedOn payload) loc of
                  None \<Rightarrow> ErrorResult ''parse event venue observation date'' (Some (Err (eo_ObservedOn payload)))
                | Some observedOn \<Rightarrow>
                    if NeedsRecalculation (ev_Recurrence (eo_Venue payload)) (ev_NextOccurrenceDate (eo_Venue payload))
                         observedOn loc
                    then createStaleEventTruth co (eo_Venue payload)
                    else if IsDue (ev_NextOccurrenceDate (eo_Venue payload)) observedOn loc
                    then createEventDueTruth co (eo_Venue payload)
                    else Complete [] []))"

definition StaleEvent_Handle ::
  "(string \<Rightarrow> 'f \<Rightarrow> gerror option \<times> 'f) option \<Rightarrow> stale_event \<Rightarrow> 'f \<Rightarrow> 'db result \<times> 'f" where
  "StaleEvent_Handle service payload f =
     (case service of
        None \<Rightarrow> (ErrorResult ''recurrence service is nil'' None, f)
      | Some advance \<Rightarrow>
          if se_EventID payload = '''' then (Complete [] [], f)
          else (case advance (se_EventID payload) f of
                  (Some e, f') \<Rightarrow> (ErrorResult ''advance stale event'' (Some e), f')
                | (None, f') \<Rightarrow> (Complete [] [], f')))"

definition CreateEventPoll_Handle ::
  "(string \<Rightarrow> string \<Rightarrow> 'f \<Rightarrow> gerror option \<times> 'f) option \<Rightarrow> create_event_poll \<Rightarrow> 'f \<Rightarrow> 'db result \<times> 'f" where
  "CreateEventPoll_Handle service payload f =
     (case service of
        None \<Rightarrow> (ErrorResult ''recurrence service is nil'' None, f)
      | Some create \<Rightarrow>
          if ce_EventID payload = '''' \<or> ce_OccurrenceDate payload = '''' then (Complete [] [], f)
          else (case create (ce_EventID payload) (ce_OccurrenceDate payload) f of
                  (Some e, f') \<Rightarrow> (ErrorResult ''create event poll'' (Some e), f')
                | (None, f') \<Rightarrow> (Complete [] [], f')))"

section \<open>Recalculation converges\<close>

text \<open>
  What the service documents of a transaction that succeeds: its function saw the stored document, and its
  writes are applied to it. A merge of string fields replaces those fields, a deleted field is gone.
\<close>

fun write_fields :: "fs_write \<Rightarrow> go_map \<Rightarrow> go_map" where
  "write_fields (FsCreate p m) d = m"
| "write_fields (FsSetMerge p m) d = d ++ m"
| "write_fields (FsDeleteField p k) d = d(k := None)"

definition advances_ok :: "('f \<Rightarrow> string list \<rightharpoonup> go_map) \<Rightarrow> 'f firestore \<Rightarrow> bool" where
  "advances_ok docs fs \<longleftrightarrow>
     (\<forall>path body f f'. fs_Advance fs path body f = (None, f') \<longrightarrow>
        (\<exists>d ws. docs f path = Some d \<and> body (Inr d) = Inr ws \<and> docs f' path = Some (fold write_fields ws d)))"

lemma bufferWrites_Inr: "bufferWrites buffer ws = Inr ws' \<Longrightarrow> ws' = ws"
  by (induction ws arbitrary: ws') (auto split: option.splits sum.splits)

lemma computeOccurrence_day:
  "localDay loc t = localDay loc u \<Longrightarrow> computeOccurrence raw t loc = computeOccurrence raw u loc"
proof -
  assume "localDay loc t = localDay loc u"
  then have "beginningOfDay loc t = beginningOfDay loc u" by (simp add: beginningOfDay_midnight)
  then show ?thesis by (simp only: computeOccurrence_def)
qed

lemma stringField_other: "k \<noteq> NextOccurrenceField \<Longrightarrow> stringField (d(NextOccurrenceField := v)) k = stringField d k"
  "k \<noteq> NextOccurrenceField \<Longrightarrow> mapField (d(NextOccurrenceField := v)) k = mapField d k"
  by (simp_all add: stringField_def mapField_def go_index_def)

lemma field_names: "''venueType'' \<noteq> NextOccurrenceField" "''recurrence'' \<noteq> NextOccurrenceField"
  by (simp_all add: NextOccurrenceField_def)

text \<open>The writes of a recalculation replace or clear the stored occurrence, by the computed one.\<close>

lemma advance_tx_writes:
  assumes tx: "advance_tx buffer loc now1 now2 ref (Inr d) = Inr ws" and day: "localDay loc now1 = localDay loc now2"
  obtains v where "fold write_fields ws d = d(NextOccurrenceField := v)"
    "stringField d ''venueType'' = ''event'' \<Longrightarrow>
       stringField (fold write_fields ws d) NextOccurrenceField = computeOccurrence (mapField d ''recurrence'') now1 loc"
proof -
  let ?raw = "mapField d ''recurrence''" and ?cur = "stringField d NextOccurrenceField"
  have same: "d(NextOccurrenceField := d NextOccurrenceField) = d" by simp
  have clear: "\<exists>v. fold write_fields (clearOccurrence ref d) d = d(NextOccurrenceField := v) \<and>
      stringField (d(NextOccurrenceField := v)) NextOccurrenceField = ''''"
  proof -
    have "fold write_fields (clearOccurrence ref d) d = d(NextOccurrenceField := None)"
      by (auto simp: clearOccurrence_def fun_upd_idem)
    then show ?thesis by (intro exI [of _ None]) (simp add: stringField_def go_index_def asString_def)
  qed
  consider "stringField d ''venueType'' \<noteq> ''event'' \<or> \<not> NeedsRecalculation ?raw ?cur now1 loc" "ws = []"
    | "computeOccurrence ?raw now1 loc = ''''" "ws = clearOccurrence ref d"
    | c where "computeOccurrence ?raw now1 loc = DateOnly_String c"
        "ws = [FsSetMerge ref [NextOccurrenceField \<mapsto> AString (DateOnly_String c)]]"
    using tx unfolding computeOccurrence_day [OF day] advance_tx_def
    by (auto simp: Let_def computeOccurrence_def split: if_splits option.splits dest!: bufferWrites_Inr)
  then show thesis
  proof cases
    case 1
    show thesis by (rule that [of "d NextOccurrenceField"]) (use 1 in \<open>auto simp: NeedsRecalculation_def\<close>)
  next
    case 2
    with clear that show thesis by metis
  next
    case (3 c)
    show thesis
      by (rule that [of "Some (AString (DateOnly_String c))"])
        (use 3 in \<open>simp_all add: stringField_def go_index_def asString_def\<close>)
  qed
qed

lemma AdvanceStaleEvent_result:
  assumes "advances_ok docs fs" "AdvanceStaleEvent fs loc now1 now2 eventID f = (None, f')"
    and "localDay loc now1 = localDay loc now2"
    and "docs f [venueCollection, eventID] = Some d" "stringField d ''venueType'' = ''event''"
  obtains v d' where "docs f' [venueCollection, eventID] = Some d'" "d' = d(NextOccurrenceField := v)"
    "stringField d' NextOccurrenceField = computeOccurrence (mapField d ''recurrence'') now1 loc"
    "mapField d' ''recurrence'' = mapField d ''recurrence''" "stringField d' ''venueType'' = ''event''"
proof -
  from assms(1,2,4) obtain ws where ws: "advance_tx (fs_Buffer fs) loc now1 now2 [venueCollection, eventID] (Inr d) = Inr ws"
    "docs f' [venueCollection, eventID] = Some (fold write_fields ws d)"
    unfolding advances_ok_def AdvanceStaleEvent_def by fastforce
  let ?d = "fold write_fields ws d"
  from advance_tx_writes [OF ws(1) assms(3)] assms(5) obtain v where v: "?d = d(NextOccurrenceField := v)"
    "stringField ?d NextOccurrenceField = computeOccurrence (mapField d ''recurrence'') now1 loc" by metis
  have "mapField ?d ''recurrence'' = mapField d ''recurrence''" "stringField ?d ''venueType'' = ''event''"
    using assms(5) by (simp_all only: v(1) stringField_other [OF field_names(1)] stringField_other [OF field_names(2)])
  with ws(2) v show thesis by (rule that)
qed

text \<open>
  Advancing a stale event converges. After a successful call for an event venue, the stored occurrence is
  the one computed from the venue's recurrence for that day, nothing else of the document has changed, the
  venue no longer needs recalculation, and calling again the same day writes nothing.
\<close>

theorem advance_stale_event_converges:
  assumes "advances_ok docs fs" "AdvanceStaleEvent fs loc now1 now2 eventID f = (None, f')"
    and "localDay loc now1 = localDay loc now2"
    and "docs f [venueCollection, eventID] = Some d" "stringField d ''venueType'' = ''event''"
    and "localDay loc now3 = localDay loc now1"
  shows "\<exists>v d'. docs f' [venueCollection, eventID] = Some d' \<and> d' = d(NextOccurrenceField := v) \<and>
    stringField d' NextOccurrenceField = computeOccurrence (mapField d ''recurrence'') now1 loc \<and>
    \<not> NeedsRecalculation (mapField d' ''recurrence'') (stringField d' NextOccurrenceField) now3 loc \<and>
    advance_tx buffer loc now3 now4 [venueCollection, eventID] (Inr d') = Inr []"
proof -
  from AdvanceStaleEvent_result [OF assms(1-5)] obtain v d' where r:
    "docs f' [venueCollection, eventID] = Some d'" "d' = d(NextOccurrenceField := v)"
    "stringField d' NextOccurrenceField = computeOccurrence (mapField d ''recurrence'') now1 loc"
    "mapField d' ''recurrence'' = mapField d ''recurrence''" "stringField d' ''venueType'' = ''event''" by blast
  have fresh: "\<not> NeedsRecalculation (mapField d' ''recurrence'') (stringField d' NextOccurrenceField) now3 loc"
    unfolding NeedsRecalculation_def r(3,4) computeOccurrence_day [OF assms(6)] by simp
  then have "advance_tx buffer loc now3 now4 [venueCollection, eventID] (Inr d') = Inr []"
    by (simp add: advance_tx_def r(5) Let_def)
  with r(1-3) fresh show ?thesis by (intro exI [of _ v] exI [of _ d'] conjI)
qed

section \<open>One poll per occurrence\<close>

definition poll_for :: "string \<Rightarrow> string \<Rightarrow> go_map \<Rightarrow> bool" where
  "poll_for eventID date d \<longleftrightarrow> d ''eventVenueId'' = Some (AString eventID) \<and> d ''date'' = Some (AString date)"

definition one_poll :: "(string \<rightharpoonup> go_map) \<Rightarrow> bool" where
  "one_poll ps \<longleftrightarrow>
     (\<forall>ev dt i j d e. ps i = Some d \<and> ps j = Some e \<and> poll_for ev dt d \<and> poll_for ev dt e \<longrightarrow> i = j)"

fun create_polls :: "fs_write \<Rightarrow> (string \<rightharpoonup> go_map) \<Rightarrow> string \<rightharpoonup> go_map" where
  "create_polls (FsCreate [c, i] d) ps = (if c = pollCollection then ps(i \<mapsto> d) else ps)"
| "create_polls w ps = ps"

text \<open>
  What the service documents of the poll transaction: it is serialisable, so that the query sees the polls as
  they are when the writes are committed; the writes are committed all or none, and a create of an existing
  document is never committed. An error can be reported although the writes were committed. Reading a
  document, or writing one of another collection, leaves the polls alone.
\<close>

definition creates_ok :: "('f \<Rightarrow> string \<rightharpoonup> go_map) \<Rightarrow> 'f firestore \<Rightarrow> bool" where
  "creates_ok polls fs \<longleftrightarrow>
     (\<forall>ev dt body f err lastRun f'. fs_CreatePoll fs ev dt body f = ((err, lastRun), f') \<longrightarrow>
        err \<noteq> None \<and> polls f' = polls f \<or>
        (\<exists>ms ws. set ms = {i. \<exists>d. polls f i = Some d \<and> poll_for ev dt d} \<and> body (Inr ms) = Inr ws \<and>
           (\<forall>i d. FsCreate [pollCollection, i] d \<in> set ws \<longrightarrow> polls f i = None) \<and>
           polls f' = fold create_polls ws (polls f) \<and> (err = None \<longrightarrow> lastRun = Some (Inr ws)))) \<and>
     (\<forall>p f r f'. fs_Get fs p f = (r, f') \<longrightarrow> polls f' = polls f) \<and>
     (\<forall>p m f r f'. fs_Set fs p m f = (r, f') \<longrightarrow> hd p \<noteq> pollCollection \<longrightarrow> polls f' = polls f)"

lemma collections_distinct [simp]:
  "voteCollection \<noteq> pollCollection" "attendanceCollection \<noteq> pollCollection" "auditCollection \<noteq> pollCollection"
  by (simp_all add: voteCollection_def attendanceCollection_def auditCollection_def pollCollection_def)

lemma create_tx_polls:
  assumes "create_tx buffer pollID ev dt name (Inr ms) = Inr ws"
    and "set ms = {i. \<exists>d. ps i = Some d \<and> poll_for ev dt d}"
    and "\<forall>i d. FsCreate [pollCollection, i] d \<in> set ws \<longrightarrow> ps i = None"
  shows "(ms \<noteq> [] \<and> fold create_polls ws ps = ps) \<or>
    (ms = [] \<and> ps pollID = None \<and> fold create_polls ws ps = ps(pollID \<mapsto> eventPoll ev dt name))"
proof (cases ms)
  case Nil
  with assms(1) have ws: "ws = [FsCreate [pollCollection, pollID] (eventPoll ev dt name),
      FsCreate [voteCollection, pollID] [''any'' \<mapsto> AAnys []], FsCreate [attendanceCollection, pollID] Map.empty]"
    by (auto simp: create_tx_def dest!: bufferWrites_Inr [rotated] simp del: bufferWrites.simps)
  with Nil assms(3) show ?thesis by auto
next
  case (Cons m ms')
  with assms(1) show ?thesis by (auto simp: create_tx_def)
qed

lemma poll_for_eventPoll: "poll_for ev dt (eventPoll eventID date name) \<longleftrightarrow> ev = eventID \<and> dt = date"
  by (auto simp: poll_for_def eventPoll_def)

lemma create_tx_one_poll:
  assumes "create_tx buffer pollID ev dt name (Inr ms) = Inr ws" "set ms = {i. \<exists>d. ps i = Some d \<and> poll_for ev dt d}"
    and "\<forall>i d. FsCreate [pollCollection, i] d \<in> set ws \<longrightarrow> ps i = None" "one_poll ps"
  shows "one_poll (fold create_polls ws ps) \<and> ps \<subseteq>\<^sub>m fold create_polls ws ps \<and>
    (\<exists>i d. fold create_polls ws ps i = Some d \<and> poll_for ev dt d)"
  using create_tx_polls [OF assms(1-3)]
proof
  assume *: "ms \<noteq> [] \<and> fold create_polls ws ps = ps"
  then obtain i where "i \<in> set ms" by (cases ms) auto
  with * assms(2,4) show ?thesis by auto
next
  assume *: "ms = [] \<and> ps pollID = None \<and> fold create_polls ws ps = ps(pollID \<mapsto> eventPoll ev dt name)"
  then have none: "\<not> poll_for ev dt d" if "ps i = Some d" for i d using assms(2) that by auto
  have "one_poll (ps(pollID \<mapsto> eventPoll ev dt name))"
    unfolding one_poll_def
  proof (intro allI impI, elim conjE)
    fix ev' dt' i j d e
    assume i: "(ps(pollID \<mapsto> eventPoll ev dt name)) i = Some d" and j: "(ps(pollID \<mapsto> eventPoll ev dt name)) j = Some e"
      and p: "poll_for ev' dt' d" "poll_for ev' dt' e"
    show "i = j"
    proof (cases "ev' = ev \<and> dt' = dt")
      case True
      with i j p none show ?thesis by (auto split: if_splits)
    next
      case False
      with i j p have "i \<noteq> pollID" "j \<noteq> pollID" by (auto simp: poll_for_eventPoll)
      with i j p assms(4) show ?thesis unfolding one_poll_def by (metis fun_upd_other)
    qed
  qed
  moreover have "ps \<subseteq>\<^sub>m ps(pollID \<mapsto> eventPoll ev dt name)" using * by (auto simp: map_le_def)
  moreover have "\<exists>i d. (ps(pollID \<mapsto> eventPoll ev dt name)) i = Some d \<and> poll_for ev dt d"
    by (intro exI [of _ pollID] exI [of _ "eventPoll ev dt name"]) (simp add: poll_for_eventPoll)
  ultimately show ?thesis using * by simp
qed

lemma creates_ok_cases:
  assumes "creates_ok polls fs" "fs_CreatePoll fs ev dt body f = ((err, lastRun), f')"
  obtains (unchanged) "err \<noteq> None" "polls f' = polls f"
  | (committed) ms ws where "set ms = {i. \<exists>d. polls f i = Some d \<and> poll_for ev dt d}" "body (Inr ms) = Inr ws"
      "\<forall>i d. FsCreate [pollCollection, i] d \<in> set ws \<longrightarrow> polls f i = None"
      "polls f' = fold create_polls ws (polls f)"
  using assms(1) [unfolded creates_ok_def, THEN conjunct1, rule_format, OF assms(2)] by blast

lemma creates_ok_frame:
  assumes "creates_ok polls fs"
  shows "fs_Get fs p f = (r, f') \<Longrightarrow> polls f' = polls f"
    and "fs_Set fs [auditCollection, i] m f = (e, f') \<Longrightarrow> polls f' = polls f"
  using assms collections_distinct(3) unfolding creates_ok_def by (blast, metis list.sel(1))

text \<open>The transaction of a call for a venue read as an event with this occurrence.\<close>

lemma CreateEventPoll_runs:
  assumes ok: "creates_ok polls fs" and get: "fs_Get fs [venueCollection, eventID] f = (Inr data, f1)"
    and data: "stringField data ''venueType'' = ''event''" "stringField data NextOccurrenceField = date"
    and c: "CreateEventPoll fs cache pollID stamp eventID date f = (err, f')"
  obtains lastRun f2 where "fs_CreatePoll fs eventID date
      (create_tx (fs_Buffer fs) pollID eventID date (venueNameOf cache data)) f1 = ((err, lastRun), f2)"
    "polls f' = polls f2"
proof -
  obtain err2 lastRun f2 where tx: "fs_CreatePoll fs eventID date
      (create_tx (fs_Buffer fs) pollID eventID date (venueNameOf cache data)) f1 = ((err2, lastRun), f2)"
    by (metis prod.exhaust)
  have "err2 = err \<and> polls f' = polls f2"
    using c get data tx creates_ok_frame(2) [OF ok]
    by (auto simp: CreateEventPoll_def Let_def split: option.splits sum.splits list.splits prod.splits)
  with tx that show thesis by blast
qed


section \<open>A concrete service\<close>

text \<open>Documents as an association list; the calls behave as the hypotheses say.\<close>

definition demo_fs :: "(string list \<times> go_map) list firestore" where
  "demo_fs =
     \<lparr>fs_Buffer = (\<lambda>_. None),
      fs_Get = (\<lambda>p f. (case map_of f p of None \<Rightarrow> Inl (Err ''missing'') | Some d \<Rightarrow> Inr d, f)),
      fs_Advance = (\<lambda>p body f.
        case map_of f p of
          None \<Rightarrow> (Some (Err ''missing''), f)
        | Some d \<Rightarrow> (case body (Inr d) of Inl e \<Rightarrow> (Some e, f) | Inr ws \<Rightarrow> (None, (p, fold write_fields ws d) # f))),
      fs_CreatePoll = (\<lambda>ev dt body f.
        let ms = filter (\<lambda>i. case map_of f [pollCollection, i] of None \<Rightarrow> False | Some d \<Rightarrow> poll_for ev dt d)
                   (map (\<lambda>p. p ! 1) (filter (\<lambda>p. length p = 2) (map fst f)))
        in case body (Inr ms) of
             Inl e \<Rightarrow> ((Some e, Some (Inl e)), f)
           | Inr ws \<Rightarrow>
               if list_ex (\<lambda>w. case w of FsCreate p d \<Rightarrow> map_of f p \<noteq> None | _ \<Rightarrow> False) ws
               then ((Some (Err ''exists''), Some (Inr ws)), f)
               else ((None, Some (Inr ws)), fold (\<lambda>w f. case w of FsCreate p d \<Rightarrow> (p, d) # f | _ \<Rightarrow> f) ws f)),
      fs_Set = (\<lambda>p m f. (None, (p, m) # f))\<rparr>"

abbreviation demo_polls :: "(string list \<times> go_map) list \<Rightarrow> string \<rightharpoonup> go_map" where
  "demo_polls f \<equiv> (\<lambda>i. map_of f [pollCollection, i])"

lemma demo_advances_ok: "advances_ok map_of demo_fs"
  by (auto simp: advances_ok_def demo_fs_def split: option.splits sum.splits)

lemma create_polls_alist:
  "demo_polls (fold (\<lambda>w f. case w of FsCreate p d \<Rightarrow> (p, d) # f | _ \<Rightarrow> f) ws f) = fold create_polls ws (demo_polls f)"
proof (induction ws arbitrary: f)
  case (Cons w ws)
  have "demo_polls (case w of FsCreate p d \<Rightarrow> (p, d) # f | _ \<Rightarrow> f) = create_polls w (demo_polls f)"
    by (cases "(w, demo_polls f)" rule: create_polls.cases) (auto simp: fun_eq_iff)
  with Cons.IH show ?case by simp
qed simp

lemma demo_matches:
  "set (filter (\<lambda>i. case map_of f [pollCollection, i] of None \<Rightarrow> False | Some d \<Rightarrow> poll_for ev dt d)
     (map (\<lambda>p. p ! 1) (filter (\<lambda>p. length p = 2) (map fst f)))) =
   {i. \<exists>d. demo_polls f i = Some d \<and> poll_for ev dt d}"
proof -
  have "i \<in> (\<lambda>p. p ! 1) ` {p \<in> fst ` set f. length p = 2}" if "map_of f [pollCollection, i] = Some d" for i d
    using map_of_SomeD [OF that] by (force intro!: image_eqI [of _ _ "[pollCollection, i]"])
  then show ?thesis by (fastforce split: option.splits)
qed

lemma demo_creates_ok: "creates_ok demo_polls demo_fs"
proof -
  have "err \<noteq> None \<and> demo_polls f' = demo_polls f \<or>
      (\<exists>ms ws. set ms = {i. \<exists>d. demo_polls f i = Some d \<and> poll_for ev dt d} \<and> body (Inr ms) = Inr ws \<and>
         (\<forall>i d. FsCreate [pollCollection, i] d \<in> set ws \<longrightarrow> demo_polls f i = None) \<and>
         demo_polls f' = fold create_polls ws (demo_polls f) \<and> (err = None \<longrightarrow> lastRun = Some (Inr ws)))"
    if run: "fs_CreatePoll demo_fs ev dt body f = ((err, lastRun), f')" for ev dt body f err lastRun f'
  proof (cases "err = None")
    case True
    let ?ms = "filter (\<lambda>i. case map_of f [pollCollection, i] of None \<Rightarrow> False | Some d \<Rightarrow> poll_for ev dt d)
        (map (\<lambda>p. p ! 1) (filter (\<lambda>p. length p = 2) (map fst f)))"
    from run True obtain ws where ws: "body (Inr ?ms) = Inr ws" "lastRun = Some (Inr ws)"
      "\<not> list_ex (\<lambda>w. case w of FsCreate p d \<Rightarrow> map_of f p \<noteq> None | _ \<Rightarrow> False) ws"
      "f' = fold (\<lambda>w f. case w of FsCreate p d \<Rightarrow> (p, d) # f | _ \<Rightarrow> f) ws f"
      by (auto simp: demo_fs_def Let_def split: sum.splits if_splits)
    have "\<forall>i d. FsCreate [pollCollection, i] d \<in> set ws \<longrightarrow> demo_polls f i = None"
      using ws(3) by (force simp: list_ex_iff)
    then show ?thesis
      using ws(1,2,4) create_polls_alist [of ws f] demo_matches [where f = f and ev = ev and dt = dt] by blast
  next
    case False
    with run show ?thesis by (auto simp: demo_fs_def Let_def split: sum.splits if_splits)
  qed
  moreover have "fs_Get demo_fs p f = (r, f') \<Longrightarrow> demo_polls f' = demo_polls f" for p f r f'
    by (simp add: demo_fs_def)
  moreover have "demo_polls f' = demo_polls f"
    if "fs_Set demo_fs p m f = (r, f')" "hd p \<noteq> pollCollection" for p m f r f'
    using that by (auto simp: demo_fs_def fun_eq_iff)
  ultimately show ?thesis unfolding creates_ok_def by blast
qed

definition demo_event :: go_map where
  "demo_event = [''name'' \<mapsto> AString ''Quiz'', ''venueType'' \<mapsto> AString ''event'',
     ''recurrence'' \<mapsto> AMap [''frequency'' \<mapsto> AString ''once'', ''date'' \<mapsto> AString ''2026-08-01''],
     NextOccurrenceField \<mapsto> AString ''2026-08-01'']"


lemma demo_advance_succeeds:
  "\<exists>f'. AdvanceStaleEvent demo_fs loc now1 now2 ''e'' [([venueCollection, ''e''], d)] = (None, f')"
proof -
  have b: "bufferWrites (\<lambda>_. None) ws = Inr ws" for ws by (induction ws) simp_all
  then have "\<exists>ws. advance_tx (\<lambda>_. None) loc now1 now2 ref (Inr d) = Inr ws" for ref
    by (simp add: advance_tx_def Let_def b split: option.splits)
  then obtain ws where "advance_tx (\<lambda>_. None) loc now1 now2 [venueCollection, ''e''] (Inr d) = Inr ws" by blast
  then show ?thesis by (simp add: AdvanceStaleEvent_def demo_fs_def)
qed

theorem advance_stale_event_converges_witness:
  "\<exists>f' d'. AdvanceStaleEvent demo_fs UTC 0 5 ''e'' [([venueCollection, ''e''], demo_event)] = (None, f') \<and>
     map_of f' [venueCollection, ''e''] = Some d' \<and>
     \<not> NeedsRecalculation (mapField d' ''recurrence'') (stringField d' NextOccurrenceField) 7 UTC"
proof -
  let ?f = "[([venueCollection, ''e''], demo_event)]"
  obtain f' where a: "AdvanceStaleEvent demo_fs UTC 0 5 ''e'' ?f = (None, f')" using demo_advance_succeeds by blast
  have days: "localDay UTC 0 = localDay UTC 5" "localDay UTC 7 = localDay UTC 0"
    by (simp_all add: localDay_def localSeconds_def unix_def UTC_def Second_def)
  have d: "map_of ?f [venueCollection, ''e''] = Some demo_event" by simp
  have ev: "stringField demo_event ''venueType'' = ''event''"
    by (simp add: stringField_def demo_event_def go_index_def asString_def NextOccurrenceField_def)
  from advance_stale_event_converges [OF demo_advances_ok a days(1) d ev days(2)] a show ?thesis by blast
qed

section \<open>Evaluation\<close>

definition next_event :: "go_map option \<Rightarrow> go_time \<Rightarrow> location \<Rightarrow> civil option" where
  "next_event raw now loc =
     (case ParseRule raw of None \<Rightarrow> None | Some rule \<Rightarrow> NextOccurrence rule (beginningOfDay loc now) loc)"

lemma computeOccurrence_next_event:
  "computeOccurrence raw now loc = (case next_event raw now loc of None \<Rightarrow> '''' | Some c \<Rightarrow> DateOnly_String c)"
  by (simp add: computeOccurrence_def next_event_def split: option.splits)

lemma IsDue_computed:
  assumes loc: "location_ok loc" and c: "next_event raw now loc = Some c" "0 \<le> cv_Year c" "cv_Year c < 10000"
    and day: "localDay loc t = localDay loc now"
  shows "IsDue (computeOccurrence raw now loc) t loc \<longleftrightarrow> civilDays c \<le> localDay loc now + 7"
proof -
  from c(1) obtain rule where r: "NextOccurrence rule (beginningOfDay loc now) loc = Some c"
    by (auto simp: next_event_def split: option.splits)
  have ge: "localDay loc now \<le> civilDays c"
    using next_occurrence_occurs [OF loc r] by (simp add: beginningOfDay_midnight localDay_midnight [OF loc])
  have v: "valid_civil c" using next_occurrence_occurs [OF loc r] by (simp add: occurs_on_def)
  have "parseISODate (DateOnly_String c) = Some c"
    using parse_format_date [OF v c(2,3)] by (simp add: DateOnly_String_valid [OF v])
  then show ?thesis
    using ge by (simp add: IsDue_iff [OF loc] computeOccurrence_next_event c(1) day)
qed

lemma parseDate_empty: "IsDue '''' t loc = False"
  by (simp add: IsDue_def parseDate_def)

text \<open>
  Evaluation and recalculation fit together. Once a stale event venue has been advanced, evaluating it on
  the same day never reports it stale again: it asks for the poll when the next occurrence of its rule is at
  most seven days away, and does nothing when it is further away or there is none.
\<close>

theorem evaluate_after_advance:
  assumes "advances_ok docs fs" "location_ok loc" "AdvanceStaleEvent fs loc now1 now2 eventID f = (None, f')"
    and "localDay loc now1 = localDay loc now2"
    and "docs f [venueCollection, eventID] = Some d" "stringField d ''venueType'' = ''event''"
    and "docs f' [venueCollection, eventID] = Some d'" "eventID \<noteq> ''''" "observedOn \<noteq> ''''"
    and "parseInLocation observedOn loc = Some t" "localDay loc t = localDay loc now1"
    and "\<And>c. next_event (mapField d ''recurrence'') now1 loc = Some c \<Longrightarrow> 0 \<le> cv_Year c \<and> cv_Year c < 10000"
  shows "EvaluateEventVenue_Handle co True (Some loc) \<lparr>eo_Venue = EventVenueFrom eventID d', eo_ObservedOn = observedOn\<rparr> =
    (case next_event (mapField d ''recurrence'') now1 loc of
       None \<Rightarrow> Complete [] []
     | Some c \<Rightarrow> if civilDays c \<le> localDay loc now1 + 7 then createEventDueTruth co (EventVenueFrom eventID d') else Complete [] [])"
proof -
  obtain d2 where "docs f' [venueCollection, eventID] = Some d2" and r2:
    "stringField d2 NextOccurrenceField = computeOccurrence (mapField d ''recurrence'') now1 loc"
    "mapField d2 ''recurrence'' = mapField d ''recurrence''"
    by (rule AdvanceStaleEvent_result [OF assms(1,3-6)])
  with assms(7) have "d2 = d'" by simp
  note r = r2 [unfolded this]
  let ?v = "EventVenueFrom eventID d'" and ?raw = "mapField d ''recurrence''"
  have v: "ev_ID ?v = eventID" "ev_Recurrence ?v = ?raw" "ev_NextOccurrenceDate ?v = computeOccurrence ?raw now1 loc"
    by (simp_all add: EventVenueFrom_def r)
  have "\<not> NeedsRecalculation ?raw (computeOccurrence ?raw now1 loc) t loc"
    by (simp add: NeedsRecalculation_def computeOccurrence_day [OF assms(11)])
  then have "EvaluateEventVenue_Handle co True (Some loc) \<lparr>eo_Venue = ?v, eo_ObservedOn = observedOn\<rparr> =
      (if IsDue (computeOccurrence ?raw now1 loc) t loc then createEventDueTruth co ?v else Complete [] [])"
    using assms(8-10) by (simp add: EvaluateEventVenue_Handle_def v)
  moreover have "IsDue (computeOccurrence ?raw now1 loc) t loc = False" if "next_event ?raw now1 loc = None"
    using that by (simp add: computeOccurrence_next_event parseDate_empty)
  ultimately show ?thesis using IsDue_computed [OF assms(2) _ _ _ assms(11), of ?raw] assms(12)
    by (cases "next_event ?raw now1 loc") simp_all
qed

lemma demo_dates:
  "parseISODate ''2026-07-30'' = Some \<lparr>cv_Year = 2026, cv_Month = 7, cv_Day = 30\<rparr>"
  "parseISODate ''2026-08-01'' = Some \<lparr>cv_Year = 2026, cv_Month = 8, cv_Day = 1\<rparr>"
  "civilDays \<lparr>cv_Year = 2026, cv_Month = 7, cv_Day = 30\<rparr> = 20664"
  "civilDays \<lparr>cv_Year = 2026, cv_Month = 8, cv_Day = 1\<rparr> = 20666"
  by code_simp+

lemma demo_next_event:
  "next_event (mapField demo_event ''recurrence'') (midnight UTC 20664) UTC = Some \<lparr>cv_Year = 2026, cv_Month = 8, cv_Day = 1\<rparr>"
proof -
  let ?c = "\<lparr>cv_Year = 2026, cv_Month = 8, cv_Day = 1\<rparr>"
  note ok = location_ok_UTC
  have rule: "\<exists>rule. ParseRule (mapField demo_event ''recurrence'') = Some rule \<and>
      ru_Frequency rule = ''once'' \<and> ru_Date rule = ''2026-08-01''"
    by (simp add: ParseRule_def mapField_def demo_event_def NextOccurrenceField_def go_index_def asString_def Let_def)
  have date: "parseDate ''2026-08-01'' UTC = Some (midnight UTC 20666)"
    unfolding parseDate_iff [OF ok] using demo_dates(2,4) by metis
  have civil: "civilOf 20666 = ?c"
    using civilOf_civilDays [of ?c] by (simp add: demo_dates(4) valid_civil_def daysIn_def)
  from rule obtain rule where r: "ParseRule (mapField demo_event ''recurrence'') = Some rule"
    "ru_Frequency rule = ''once''" "ru_Date rule = ''2026-08-01''" by blast
  have "NextOccurrence rule (midnight UTC 20664) UTC = Some ?c"
    by (simp add: NextOccurrence_def r(2,3) date beginningOfDay_midnight localDay_midnight [OF ok] Let_def
        time_Before_def midnight_less [OF ok] toDateOnly_def localCivil_midnight [OF ok] civil)
  then show ?thesis by (simp add: next_event_def r(1) beginningOfDay_midnight localDay_midnight [OF ok])
qed

definition demo_codecs :: codecs where
  "demo_codecs = \<lparr>co_marshalRaw = (\<lambda>_. Inr []), co_errText = (\<lambda>_. []), co_sha256 = id, co_marshalStale = (\<lambda>_. Inr []),
     co_marshalPoll = (\<lambda>p. Inr (ce_EventID p)), co_marshalStep = (\<lambda>p. Inr (sp_EventKey p)), co_uuid = ''u''\<rparr>"

theorem evaluate_after_advance_witness:
  "\<exists>f' d'. AdvanceStaleEvent demo_fs UTC (midnight UTC 20664) (midnight UTC 20664) ''e''
       [([venueCollection, ''e''], demo_event)] = (None, f') \<and>
     map_of f' [venueCollection, ''e''] = Some d' \<and>
     (EvaluateEventVenue_Handle demo_codecs True (Some UTC)
       \<lparr>eo_Venue = EventVenueFrom ''e'' d', eo_ObservedOn = ''2026-07-30''\<rparr> :: unit result) =
     createEventDueTruth demo_codecs (EventVenueFrom ''e'' d')"
proof -
  let ?t = "midnight UTC 20664" and ?f = "[([venueCollection, ''e''], demo_event)]"
  note day = localDay_midnight [OF location_ok_UTC]
  obtain f' where a: "AdvanceStaleEvent demo_fs UTC ?t ?t ''e'' ?f = (None, f')" using demo_advance_succeeds by blast
  have d: "map_of ?f [venueCollection, ''e''] = Some demo_event" by simp
  have ev: "stringField demo_event ''venueType'' = ''event''"
    by (simp add: stringField_def demo_event_def go_index_def asString_def NextOccurrenceField_def)
  obtain d' where d': "map_of f' [venueCollection, ''e''] = Some d'"
    by (rule AdvanceStaleEvent_result [OF demo_advances_ok a refl d ev])
  have obs: "parseInLocation ''2026-07-30'' UTC = Some ?t"
    using demo_dates(3) by (simp add: parseInLocation_def demo_dates(1) time_Date_midnight civilDays_def)
  have y: "0 \<le> cv_Year c \<and> cv_Year c < 10000"
    if "next_event (mapField demo_event ''recurrence'') ?t UTC = Some c" for c
    using that by (auto simp: demo_next_event)
  have ne: "''e'' \<noteq> ''''" "''2026-07-30'' \<noteq> ''''" by simp_all
  from evaluate_after_advance [OF demo_advances_ok location_ok_UTC a refl d ev d' ne obs refl y, of demo_codecs]
  have "(EvaluateEventVenue_Handle demo_codecs True (Some UTC) \<lparr>eo_Venue = EventVenueFrom ''e'' d', eo_ObservedOn = ''2026-07-30''\<rparr> :: unit result) =
     createEventDueTruth demo_codecs (EventVenueFrom ''e'' d')"
    by (simp add: demo_next_event demo_dates(4) day)
  with a d' show ?thesis by blast
qed

end
