(* ===== verification/AutoComplete.thy ===== *)
theory AutoComplete
  imports EventPolls "HOL-Library.Multiset"
begin

text \<open>
  services/autocomplete and the truths it works on: finding the open polls of a day, choosing the venue of a
  poll from its votes, and completing the poll.

  Go visits the keys of a map in an arbitrary order; \<open>keys\<close> is the list of the keys of a document in the
  order of one visit. The poll documents are behind the interface \<open>Source\<close>, a record of its operations on
  the environment; \<open>FirestoreSource\<close> implements it.
\<close>

section \<open>The decision\<close>

definition ReasonNoVotes :: string where "ReasonNoVotes = ''no_votes''"
definition ReasonTie :: string where "ReasonTie = ''tie''"
definition ReasonWinnerNotFoodEligible :: string where "ReasonWinnerNotFoodEligible = ''winner_not_food_eligible''"
definition ReasonWinnerVenueMissing :: string where "ReasonWinnerVenueMissing = ''winner_venue_missing''"

lemmas reason_defs = ReasonNoVotes_def ReasonTie_def ReasonWinnerNotFoodEligible_def ReasonWinnerVenueMissing_def

record decision =
  de_SelectedVenueID :: string
  de_Reason :: string

definition IsClearWinner :: "decision \<Rightarrow> bool" where
  "IsClearWinner d \<longleftrightarrow> de_SelectedVenueID d \<noteq> ''''"

text \<open>The value of a missing key is zero, or false.\<close>

definition count_of :: "(string \<rightharpoonup> int) \<Rightarrow> string \<Rightarrow> int" where
  "count_of m v = (case m v of None \<Rightarrow> 0 | Some n \<Rightarrow> n)"

definition flag_of :: "(string \<rightharpoonup> bool) \<Rightarrow> string \<Rightarrow> bool" where
  "flag_of m v = (case m v of None \<Rightarrow> False | Some b \<Rightarrow> b)"

fun decideLoop :: "(string \<Rightarrow> int) \<Rightarrow> string list \<Rightarrow> string \<times> int \<times> bool \<Rightarrow> string \<times> int \<times> bool" where
  "decideLoop votes [] acc = acc"
| "decideLoop votes (v # vs) (winner, highest, tied) =
     (let n = votes v in
      decideLoop votes vs
        (if n > highest then (v, n, False)
         else if n > 0 \<and> n = highest then (winner, highest, True)
         else (winner, highest, tied)))"

definition Decide ::
  "string list \<Rightarrow> (string \<rightharpoonup> int) \<Rightarrow> (string \<rightharpoonup> bool) \<Rightarrow> (string \<rightharpoonup> bool) \<Rightarrow> decision" where
  "Decide venueIDs voteCounts foodEligible venueExists =
     (if length venueIDs = 1 then \<lparr>de_SelectedVenueID = hd venueIDs, de_Reason = ''''\<rparr>
      else if length venueIDs = 0 then \<lparr>de_SelectedVenueID = '''', de_Reason = ReasonNoVotes\<rparr>
      else
        let (winner, highest, tied) = decideLoop (count_of voteCounts) (sort venueIDs) ('''', 0, False)
        in if highest = 0 then \<lparr>de_SelectedVenueID = '''', de_Reason = ReasonNoVotes\<rparr>
           else if tied then \<lparr>de_SelectedVenueID = '''', de_Reason = ReasonTie\<rparr>
           else if \<not> flag_of venueExists winner then \<lparr>de_SelectedVenueID = '''', de_Reason = ReasonWinnerVenueMissing\<rparr>
           else if \<not> flag_of foodEligible winner then \<lparr>de_SelectedVenueID = '''', de_Reason = ReasonWinnerNotFoodEligible\<rparr>
           else \<lparr>de_SelectedVenueID = winner, de_Reason = ''''\<rparr>)"

section \<open>Truths and documents\<close>

definition DailyPollAutoCompleteDueFanout :: handler_name where
  "DailyPollAutoCompleteDueFanout = ''truths.daily_poll_auto_complete_due''"
definition PollAutoCompletionDueFanout :: handler_name where
  "PollAutoCompletionDueFanout = ''truths.poll_auto_completion_due''"
definition PollManualCompletionRequiredFanout :: handler_name where
  "PollManualCompletionRequiredFanout = ''truths.poll_manual_completion_required''"

record daily_due =
  dd_ObservedOn :: string

definition DailyDue_Identity :: "daily_due \<Rightarrow> string" where
  "DailyDue_Identity truth = dd_ObservedOn truth"

record completion_snapshot =
  cs_PollID :: string
  cs_PollDate :: string
  cs_Completed :: bool
  cs_VenueIDs :: "string list"
  cs_ObservedOn :: string

record completion_due =
  cd_Poll :: completion_snapshot

definition CompletionDue_Identity :: "completion_due \<Rightarrow> string" where
  "CompletionDue_Identity truth = cs_PollID (cd_Poll truth) @ ''_'' @ cs_PollDate (cd_Poll truth)"

record manual_required =
  mr_PollID :: string
  mr_PollDate :: string
  mr_Reason :: string

record document =
  doc_ID :: string
  doc_Data :: go_map

type_synonym key_order = "go_map \<Rightarrow> string list"

definition venueIDsOf :: "key_order \<Rightarrow> go_any \<Rightarrow> string list" where
  "venueIDsOf keys raw = (case raw of AMap m \<Rightarrow> keys m | _ \<Rightarrow> [])"

definition boolField :: "go_map \<Rightarrow> string \<Rightarrow> bool" where
  "boolField data k = (case go_index (Some data) k of ABool b \<Rightarrow> b | _ \<Rightarrow> False)"

section \<open>The source\<close>

record audit_entry =
  ae_PollID :: string
  ae_PollDate :: string
  ae_SelectedVenueID :: string

record 'f poll_source =
  ps_ListOpenPollsOn :: "string \<Rightarrow> 'f \<Rightarrow> (gerror + document list) \<times> 'f"
  ps_GetPoll :: "string \<Rightarrow> 'f \<Rightarrow> (gerror + document) \<times> 'f"
  ps_GetVotes :: "string \<Rightarrow> 'f \<Rightarrow> (gerror + document option) \<times> 'f"
  ps_GetVenue :: "string \<Rightarrow> 'f \<Rightarrow> (gerror + document option) \<times> 'f"
  ps_CompletePoll :: "string \<Rightarrow> string \<Rightarrow> 'f \<Rightarrow> (gerror + bool) \<times> 'f"
  ps_WriteCompletionAudit :: "audit_entry \<Rightarrow> 'f \<Rightarrow> gerror option \<times> 'f"

section \<open>Discovery\<close>

definition discoveryComponent :: string where "discoveryComponent = ''autocomplete.discovery''"

definition discoveredTruth :: "key_order \<Rightarrow> document \<Rightarrow> string \<Rightarrow> gerror + completion_due" where
  "discoveredTruth keys doc observedOn =
     (if doc_ID doc = '''' then Inl (Err ''poll document is nil'')
      else case asString (go_index (Some (doc_Data doc)) ''date'') of
        None \<Rightarrow> Inl (Err (''poll date is invalid: '' @ doc_ID doc))
      | Some date \<Rightarrow>
          if date = '''' then Inl (Err (''poll date is invalid: '' @ doc_ID doc))
          else (case go_index (Some (doc_Data doc)) ''completed'' of
                  ABool completed \<Rightarrow>
                    if completed then Inl (Err (''poll completed is not false: '' @ doc_ID doc))
                    else Inr \<lparr>cd_Poll = \<lparr>cs_PollID = doc_ID doc, cs_PollDate = date, cs_Completed = completed,
                           cs_VenueIDs = venueIDsOf keys (go_index (Some (doc_Data doc)) ''pubs''),
                           cs_ObservedOn = observedOn\<rparr>\<rparr>
                | _ \<Rightarrow> Inl (Err (''poll completed is not false: '' @ doc_ID doc))))"

definition discoveryRequest ::
  "(completion_due \<Rightarrow> gerror + string) \<Rightarrow> (check_payload \<Rightarrow> gerror + string) \<Rightarrow> key_order \<Rightarrow> string \<Rightarrow> document \<Rightarrow>
     (string \<times> gerror) + cell_request" where
  "discoveryRequest marshalTruth marshalCheck keys observedOn doc =
     (case discoveredTruth keys doc observedOn of
        Inl e \<Rightarrow> Inl (''decode eligible poll'', e)
      | Inr truth \<Rightarrow>
          (case NewEnvelope marshalTruth PollAutoCompletionDueFanout truth of
             Inl e \<Rightarrow> Inl (''marshal poll auto-completion truth'', e)
           | Inr envelope \<Rightarrow>
               (case idem_NewCellRequest marshalCheck discoveryComponent (CompletionDue_Identity truth) envelope of
                  Inl e \<Rightarrow> Inl (''build poll auto-completion idempotency cell'', e)
                | Inr request \<Rightarrow> Inr request)))"

definition Discovery_Handle ::
  "(completion_due \<Rightarrow> gerror + string) \<Rightarrow> (check_payload \<Rightarrow> gerror + string) \<Rightarrow> key_order \<Rightarrow> 'f poll_source option \<Rightarrow>
     daily_due \<Rightarrow> 'f \<Rightarrow> 'db result \<times> 'f" where
  "Discovery_Handle marshalTruth marshalCheck keys source truth f =
     (case source of
        None \<Rightarrow> (ErrorResult ''autocomplete source is nil'' None, f)
      | Some src \<Rightarrow>
          if dd_ObservedOn truth = '''' then (Complete [] [], f)
          else (case ps_ListOpenPollsOn src (dd_ObservedOn truth) f of
                  (Inl e, f1) \<Rightarrow> (ErrorResult ''list eligible polls'' (Some e), f1)
                | (Inr docs, f1) \<Rightarrow>
                    (case res_map (discoveryRequest marshalTruth marshalCheck keys (dd_ObservedOn truth)) docs of
                       Inl (m, e) \<Rightarrow> (ErrorResult m (Some e), f1)
                     | Inr requests \<Rightarrow> (Complete requests [], f1))))"

section \<open>Candidates\<close>

definition HandlerClose :: handler_name where "HandlerClose = ''autocomplete.close''"
definition HandlerAmbiguous :: handler_name where "HandlerAmbiguous = ''autocomplete.ambiguous''"

record close_payload =
  cp_PollID :: string
  cp_PollDate :: string
  cp_SelectedVenueID :: string

record ambiguous_payload =
  ap_PollID :: string
  ap_PollDate :: string
  ap_Reason :: string

definition newCloseCell :: "(close_payload \<Rightarrow> gerror + string) \<Rightarrow> string \<Rightarrow> string \<Rightarrow> string \<Rightarrow> 'db result" where
  "newCloseCell marshal pollID pollDate venueID =
     (case marshal \<lparr>cp_PollID = pollID, cp_PollDate = pollDate, cp_SelectedVenueID = venueID\<rparr> of
        Inl e \<Rightarrow> ErrorResult ''marshal completion close payload'' (Some e)
      | Inr payload \<Rightarrow> Complete [\<lparr>req_Steps = [\<lparr>HandlerName = HandlerClose, Payload = payload\<rparr>],
                                   req_ID = '''', req_NotBefore = None\<rparr>] [])"

definition newAmbiguousCell :: "(ambiguous_payload \<Rightarrow> gerror + string) \<Rightarrow> string \<Rightarrow> string \<Rightarrow> string \<Rightarrow> 'db result" where
  "newAmbiguousCell marshal pollID pollDate reason =
     (case marshal \<lparr>ap_PollID = pollID, ap_PollDate = pollDate, ap_Reason = reason\<rparr> of
        Inl e \<Rightarrow> ErrorResult ''marshal completion ambiguous payload'' (Some e)
      | Inr payload \<Rightarrow> Complete [\<lparr>req_Steps = [\<lparr>HandlerName = HandlerAmbiguous, Payload = payload\<rparr>],
                                   req_ID = '''', req_NotBefore = None\<rparr>] [])"

definition validCandidateTruth :: "completion_due \<Rightarrow> bool" where
  "validCandidateTruth truth \<longleftrightarrow>
     cs_PollID (cd_Poll truth) \<noteq> '''' \<and> cs_PollDate (cd_Poll truth) \<noteq> '''' \<and> \<not> cs_Completed (cd_Poll truth)"

definition voteCountsOf :: "go_map \<Rightarrow> string \<rightharpoonup> int" where
  "voteCountsOf data v = (case data v of Some (AAnys voters) \<Rightarrow> Some (int (length voters)) | _ \<Rightarrow> None)"

definition loadVotes :: "'f poll_source \<Rightarrow> string \<Rightarrow> 'f \<Rightarrow> (gerror + (string \<rightharpoonup> int)) \<times> 'f" where
  "loadVotes src pollID f =
     (case ps_GetVotes src pollID f of
        (Inl e, f1) \<Rightarrow> (Inl e, f1)
      | (Inr None, f1) \<Rightarrow> (Inr Map.empty, f1)
      | (Inr (Some doc), f1) \<Rightarrow> (Inr (voteCountsOf (doc_Data doc)), f1))"

fun loadVenueEligibility ::
  "'f poll_source \<Rightarrow> string list \<Rightarrow> 'f \<Rightarrow> (gerror + (string \<rightharpoonup> bool) \<times> (string \<rightharpoonup> bool)) \<times> 'f" where
  "loadVenueEligibility src [] f = (Inr (Map.empty, Map.empty), f)"
| "loadVenueEligibility src (v # vs) f =
     (case ps_GetVenue src v f of
        (Inl e, f1) \<Rightarrow> (Inl e, f1)
      | (Inr found, f1) \<Rightarrow>
          (case loadVenueEligibility src vs f1 of
             (Inl e, f2) \<Rightarrow> (Inl e, f2)
           | (Inr (ex, food), f2) \<Rightarrow>
               (case found of
                  None \<Rightarrow> (Inr (ex, food), f2)
                | Some doc \<Rightarrow>
                    (Inr ([v \<mapsto> True] ++ ex, [v \<mapsto> boolField (doc_Data doc) ''food''] ++ food), f2))))"

definition Candidate_Handle ::
  "(close_payload \<Rightarrow> gerror + string) \<Rightarrow> (ambiguous_payload \<Rightarrow> gerror + string) \<Rightarrow> key_order \<Rightarrow> 'f poll_source option \<Rightarrow>
     completion_due \<Rightarrow> 'f \<Rightarrow> 'db result \<times> 'f" where
  "Candidate_Handle marshalClose marshalAmbiguous keys source truth f =
     (case source of
        None \<Rightarrow> (ErrorResult ''autocomplete source is nil'' None, f)
      | Some src \<Rightarrow>
          if \<not> validCandidateTruth truth then (Complete [] [], f)
          else (case ps_GetPoll src (cs_PollID (cd_Poll truth)) f of
             (Inl e, f1) \<Rightarrow> (ErrorResult ''load current poll'' (Some e), f1)
           | (Inr poll, f1) \<Rightarrow>
               if boolField (doc_Data poll) ''completed'' then (Complete [] [], f1)
               else
                 let ids = venueIDsOf keys (go_index (Some (doc_Data poll)) ''pubs'') in
                 (case loadVotes src (cs_PollID (cd_Poll truth)) f1 of
                    (Inl e, f2) \<Rightarrow> (ErrorResult ''load votes'' (Some e), f2)
                  | (Inr votes, f2) \<Rightarrow>
                      (case loadVenueEligibility src ids f2 of
                         (Inl e, f3) \<Rightarrow> (ErrorResult ''load venue eligibility'' (Some e), f3)
                       | (Inr (ex, food), f3) \<Rightarrow>
                           (let d = Decide ids votes food ex in
                            (if IsClearWinner d
                             then newCloseCell marshalClose (cs_PollID (cd_Poll truth)) (cs_PollDate (cd_Poll truth))
                                    (de_SelectedVenueID d)
                             else newAmbiguousCell marshalAmbiguous (cs_PollID (cd_Poll truth))
                                    (cs_PollDate (cd_Poll truth)) (de_Reason d), f3))))))"

section \<open>Completion\<close>

definition Close_Handle :: "'f poll_source option \<Rightarrow> close_payload \<Rightarrow> 'f \<Rightarrow> 'db result \<times> 'f" where
  "Close_Handle source payload f =
     (case source of
        None \<Rightarrow> (ErrorResult ''autocomplete source is nil'' None, f)
      | Some src \<Rightarrow>
          (case ps_CompletePoll src (cp_PollID payload) (cp_SelectedVenueID payload) f of
             (Inl e, f1) \<Rightarrow> (ErrorResult ''conditionally complete poll'' (Some e), f1)
           | (Inr completed, f1) \<Rightarrow>
               (Complete [] [],
                if completed
                then snd (ps_WriteCompletionAudit src
                       \<lparr>ae_PollID = cp_PollID payload, ae_PollDate = cp_PollDate payload,
                        ae_SelectedVenueID = cp_SelectedVenueID payload\<rparr> f1)
                else f1)))"

definition Ambiguous_Handle :: "(manual_required \<Rightarrow> gerror + string) \<Rightarrow> ambiguous_payload \<Rightarrow> 'db result" where
  "Ambiguous_Handle marshal payload =
     (case NewEnvelope marshal PollManualCompletionRequiredFanout
             \<lparr>mr_PollID = ap_PollID payload, mr_PollDate = ap_PollDate payload, mr_Reason = ap_Reason payload\<rparr> of
        Inl e \<Rightarrow> ErrorResult ''build manual completion truth'' (Some e)
      | Inr envelope \<Rightarrow>
          (case Envelope_CellRequest envelope of
             Inl e \<Rightarrow> ErrorResult ''build manual completion truth'' (Some e)
           | Inr truth \<Rightarrow> Complete [truth] []))"

text \<open>
  The function of the transaction of \<open>FirestoreSource.CompletePoll\<close>, with the variable \<open>completed\<close> it
  captures. The client calls it again, with the variable as the last call left it, when the commit fails for
  contention; \<open>runTx\<close> is the client: it returns the error of the transaction and the variable.
\<close>

definition complete_tx ::
  "(fs_write \<Rightarrow> gerror option) \<Rightarrow> string list \<Rightarrow> string \<Rightarrow> bool \<Rightarrow> gerror + go_map \<Rightarrow> (gerror + fs_write list) \<times> bool" where
  "complete_tx buffer pollRef selectedVenueID completed doc =
     (case doc of
        Inl e \<Rightarrow> (Inl e, completed)
      | Inr data \<Rightarrow>
          if boolField data ''completed'' then (Inr [], completed)
          else (case bufferWrites buffer [FsSetMerge pollRef [''completed'' \<mapsto> ABool True, ''selected'' \<mapsto> AString selectedVenueID,
                       ''completedByUid'' \<mapsto> ASentinel ''Delete'']] of
                  Inl e \<Rightarrow> (Inl e, completed)
                | Inr ws \<Rightarrow> (Inr ws, True)))"

type_synonym 'f run_tx =
  "string list \<Rightarrow> (bool \<Rightarrow> gerror + go_map \<Rightarrow> (gerror + fs_write list) \<times> bool) \<Rightarrow> bool \<Rightarrow> 'f \<Rightarrow> (gerror option \<times> bool) \<times> 'f"

definition CompletePoll ::
  "(fs_write \<Rightarrow> gerror option) \<Rightarrow> 'f run_tx \<Rightarrow> string \<Rightarrow> string \<Rightarrow> 'f \<Rightarrow> (gerror + bool) \<times> 'f" where
  "CompletePoll buffer runTx pollID selectedVenueID f =
     (let pollRef = [pollCollection, pollID] in
      case runTx pollRef (complete_tx buffer pollRef selectedVenueID) False f of
        ((Some e, _), f1) \<Rightarrow> (Inl e, f1)
      | ((None, completed), f1) \<Rightarrow> (Inr completed, f1))"

definition completionAudit :: "audit_entry \<Rightarrow> go_map" where
  "completionAudit entry =
     [''actionType'' \<mapsto> AString ''complete'', ''actorUid'' \<mapsto> AString ''backend:auto'', ''pollId'' \<mapsto> AString (ae_PollID entry),
      ''pollDate'' \<mapsto> AString (ae_PollDate entry), ''selectedVenueId'' \<mapsto> AString (ae_SelectedVenueID entry),
      ''at'' \<mapsto> ASentinel ''ServerTimestamp'']"

definition WriteCompletionAudit :: "'f firestore \<Rightarrow> string \<Rightarrow> audit_entry \<Rightarrow> 'f \<Rightarrow> gerror option \<times> 'f" where
  "WriteCompletionAudit fs stamp entry f =
     fs_Set fs [auditCollection, ae_PollID entry @ ''_complete_'' @ stamp] (completionAudit entry) f"

section \<open>Reading Firestore\<close>

text \<open>
  A read of the client gives a snapshot, whose data are \<open>None\<close> when the document does not exist, or no
  snapshot at all, and an error; \<open>notFound\<close> says which errors have the code NotFound. The client gives no
  snapshot when the read fails. \<open>query\<close> gets the documents of the open polls of a date, \<open>None\<close> for a nil one.
\<close>

type_synonym 'f client_get = "string list \<Rightarrow> 'f \<Rightarrow> (go_map option option \<times> gerror option) \<times> 'f"

definition snapshotData :: "go_map option option \<Rightarrow> go_map" where
  "snapshotData snap = (case snap of Some (Some data) \<Rightarrow> data | _ \<Rightarrow> Map.empty)"

definition source_ListOpenPollsOn ::
  "(string \<Rightarrow> 'f \<Rightarrow> (gerror + document option list) \<times> 'f) \<Rightarrow> string \<Rightarrow> 'f \<Rightarrow> (gerror + document list) \<times> 'f" where
  "source_ListOpenPollsOn query date f =
     (case query date f of
        (Inl e, f1) \<Rightarrow> (Inl e, f1)
      | (Inr docs, f1) \<Rightarrow>
          (res_map (\<lambda>doc. case doc of None \<Rightarrow> Inl (Err ''poll document is nil'') | Some d \<Rightarrow> Inr d) docs, f1))"

definition source_GetPoll :: "'f client_get \<Rightarrow> string \<Rightarrow> 'f \<Rightarrow> (gerror + document) \<times> 'f" where
  "source_GetPoll get pollID f =
     (case get [pollCollection, pollID] f of
        ((snap, Some e), f1) \<Rightarrow> (Inl e, f1)
      | ((snap, None), f1) \<Rightarrow> (Inr \<lparr>doc_ID = pollID, doc_Data = snapshotData snap\<rparr>, f1))"

definition source_GetVotes :: "(gerror \<Rightarrow> bool) \<Rightarrow> 'f client_get \<Rightarrow> string \<Rightarrow> 'f \<Rightarrow> (gerror + document option) \<times> 'f" where
  "source_GetVotes notFound get pollID f =
     (case get [voteCollection, pollID] f of
        ((snap, Some e), f1) \<Rightarrow>
          (if notFound e \<or> snap = None \<or> snap = Some None then Inr None else Inl e, f1)
      | ((snap, None), f1) \<Rightarrow> (Inr (Some \<lparr>doc_ID = pollID, doc_Data = snapshotData snap\<rparr>), f1))"

definition source_GetVenue :: "(gerror \<Rightarrow> bool) \<Rightarrow> 'f client_get \<Rightarrow> string \<Rightarrow> 'f \<Rightarrow> (gerror + document option) \<times> 'f" where
  "source_GetVenue notFound get venueID f =
     (case get [venueCollection, venueID] f of
        ((snap, Some e), f1) \<Rightarrow> (if notFound e then Inr None else Inl e, f1)
      | ((snap, None), f1) \<Rightarrow>
          (if snap = Some None then Inr None
           else Inr (Some \<lparr>doc_ID = venueID, doc_Data = snapshotData snap\<rparr>), f1))"

text \<open>
  A failed read of the votes is taken for a poll without votes: with two venues or more the poll is then
  handed to manual completion, although the next attempt might have found a winner. A failed read of a venue
  is reported.
\<close>

lemma failed_votes_look_empty:
  assumes "get [voteCollection, i] f = ((None, Some e), f1)"
  shows "source_GetVotes notFound get i f = (Inr None, f1)"
    and "loadVotes (src\<lparr>ps_GetVotes := source_GetVotes notFound get\<rparr>) i f = (Inr Map.empty, f1)"
  using assms by (simp_all add: source_GetVotes_def loadVotes_def)

lemma no_votes_not_clear: "length ids \<noteq> 1 \<Longrightarrow> de_SelectedVenueID (Decide ids Map.empty food ex) = ''''"
proof -
  assume "length ids \<noteq> 1"
  moreover have "decideLoop (\<lambda>_. 0) vs ('''', 0, False) = ('''', 0, False)" for vs by (induction vs) simp_all
  moreover have "count_of Map.empty = (\<lambda>_. 0)" by (simp add: count_of_def fun_eq_iff)
  ultimately show ?thesis by (simp add: Decide_def)
qed

section \<open>The winner of a vote\<close>

text \<open>What the loop has found after the venues \<open>us\<close>.\<close>

definition loop_inv :: "(string \<Rightarrow> int) \<Rightarrow> string list \<Rightarrow> string \<times> int \<times> bool \<Rightarrow> bool" where
  "loop_inv votes us acc \<longleftrightarrow>
     (case acc of (winner, highest, tied) \<Rightarrow>
        0 \<le> highest \<and> (\<forall>v \<in> set us. votes v \<le> highest) \<and>
        (if highest = 0 then \<not> tied
         else winner \<in> set us \<and> votes winner = highest \<and>
              (tied \<longleftrightarrow> (\<exists>v \<in> set us. v \<noteq> winner \<and> votes v = highest))))"

lemma decideLoop_inv:
  assumes "loop_inv votes us acc" "distinct (us @ vs)"
  shows "loop_inv votes (us @ vs) (decideLoop votes vs acc)"
  using assms
proof (induction vs arbitrary: us acc)
  case (Cons v vs)
  obtain winner highest tied where acc: "acc = (winner, highest, tied)" by (metis prod_cases3)
  define acc' where "acc' = (if votes v > highest then (v, votes v, False)
    else if votes v > 0 \<and> votes v = highest then (winner, highest, True) else (winner, highest, tied))"
  have v: "v \<notin> set us" using Cons.prems(2) by simp
  have i: "loop_inv votes us (winner, highest, tied)" using Cons.prems(1) by (simp add: acc)
  then have b: "0 \<le> highest" "\<forall>u \<in> set us. votes u \<le> highest" by (auto simp: loop_inv_def)
  consider (more) "votes v > highest" | (same) "votes v > 0" "votes v = highest" | (less) "votes v < highest \<or> (votes v = 0 \<and> highest = 0)"
    using b(1) by linarith
  then have "loop_inv votes (us @ [v]) acc'"
  proof cases
    case more
    then have "\<forall>u \<in> set us. votes u < votes v" using b(2) by fastforce
    with more b(1) show ?thesis by (auto simp: loop_inv_def acc'_def)
  next
    case same
    with i v show ?thesis by (auto simp: loop_inv_def acc'_def)
  next
    case less
    then have "acc' = (winner, highest, tied)" by (auto simp: acc'_def)
    with less i show ?thesis by (auto simp: loop_inv_def split: if_splits)
  qed
  from Cons.IH [OF this] Cons.prems(2) show ?case by (simp add: acc acc'_def Let_def)
qed simp

text \<open>The venue with the most votes, when no other has as many.\<close>

definition clear_leader :: "(string \<Rightarrow> int) \<Rightarrow> string set \<Rightarrow> string \<Rightarrow> bool" where
  "clear_leader votes V w \<longleftrightarrow> w \<in> V \<and> 0 < votes w \<and> (\<forall>v \<in> V. v \<noteq> w \<longrightarrow> votes v < votes w)"

lemma decideLoop_result:
  assumes "distinct vs" "decideLoop votes vs ('''', 0, False) = (winner, highest, tied)"
  shows "0 \<le> highest" "highest = 0 \<longleftrightarrow> (\<forall>v \<in> set vs. votes v \<le> 0)"
    and "highest \<noteq> 0 \<Longrightarrow> \<not> tied \<Longrightarrow> clear_leader votes (set vs) winner"
    and "highest \<noteq> 0 \<Longrightarrow> tied \<Longrightarrow> \<not> clear_leader votes (set vs) w"
proof -
  have "loop_inv votes [] ('''', 0, False)" by (simp add: loop_inv_def)
  from decideLoop_inv [OF this, of vs] assms have i: "loop_inv votes vs (winner, highest, tied)" by simp
  then show h: "0 \<le> highest" by (simp add: loop_inv_def)
  have "highest \<noteq> 0 \<Longrightarrow> winner \<in> set vs \<and> votes winner = highest" "\<forall>v \<in> set vs. votes v \<le> highest"
    using i by (auto simp: loop_inv_def split: if_splits)
  with h show "highest = 0 \<longleftrightarrow> (\<forall>v \<in> set vs. votes v \<le> 0)" by force
  show "clear_leader votes (set vs) winner" if "highest \<noteq> 0" "\<not> tied"
    using i that unfolding clear_leader_def loop_inv_def by fastforce
  show "\<not> clear_leader votes (set vs) w" if "highest \<noteq> 0" "tied"
  proof
    assume w: "clear_leader votes (set vs) w"
    from i that obtain v where "winner \<in> set vs" "v \<in> set vs" "v \<noteq> winner" "votes v = highest" "votes winner = highest"
      by (auto simp: loop_inv_def)
    with i w show False unfolding loop_inv_def clear_leader_def by (metis (no_types, lifting) case_prodD leD)
  qed
qed

lemma clear_leader_unique: "clear_leader votes V v \<Longrightarrow> clear_leader votes V w \<Longrightarrow> v = w"
  unfolding clear_leader_def by (metis less_asym)


definition demo_votes :: "string \<rightharpoonup> int" where
  "demo_votes = [''crown'' \<mapsto> 3, ''anchor'' \<mapsto> 5, ''bell'' \<mapsto> 2]"


section \<open>Completion under contention\<close>

text \<open>
  The transaction's function is run on each of the documents in turn: the commits of all runs but the last
  fail for contention. An error of the function ends the transaction.
\<close>

fun run_attempts ::
  "(bool \<Rightarrow> gerror + go_map \<Rightarrow> (gerror + fs_write list) \<times> bool) \<Rightarrow> bool \<Rightarrow> go_map list \<Rightarrow> (gerror + fs_write list) \<times> bool" where
  "run_attempts g completed [] = (Inr [], completed)"
| "run_attempts g completed [doc] = g completed (Inr doc)"
| "run_attempts g completed (doc # docs) =
     (case g completed (Inr doc) of
        (Inl e, c) \<Rightarrow> (Inl e, c)
      | (Inr ws, c) \<Rightarrow> run_attempts g c docs)"

abbreviation open_poll :: go_map where
  "open_poll \<equiv> [''completed'' \<mapsto> ABool False]"

abbreviation completed_poll :: go_map where
  "completed_poll \<equiv> [''completed'' \<mapsto> ABool True]"

text \<open>
  A transaction that is run once reports truly whether it completes the poll. One that is run again, because
  another client completed the poll first, writes nothing and still reports that it completed it: the
  captured variable keeps the value of the first run.
\<close>

lemma complete_single_attempt:
  "run_attempts (complete_tx (\<lambda>_. None) ref v) False [doc] = (Inr ws, c) \<Longrightarrow> c \<longleftrightarrow> ws \<noteq> []"
  by (auto simp: complete_tx_def split: if_splits)

lemma complete_retry_misreports:
  "run_attempts (complete_tx (\<lambda>_. None) ref v) False [open_poll, completed_poll] = (Inr [], True)"
  by (simp add: complete_tx_def boolField_def go_index_def)

end
