(* ===== verification/PollNotify.thy ===== *)
theory PollNotify
  imports Push EmailSend AutoComplete "HOL-Library.Multiset"
begin

text \<open>
  components/completionactions and plugins/polls: the history of what was done about a poll, and the handlers
  that notify about an opened poll, a completed poll and a poll nobody could complete automatically, by push
  and by email.

  The collaborators of the handlers (the action history, the venue cache, the notification projection, the
  list of completers) are a record of their operations on the environment. JSON encoders are parameters, and
  so is \<open>sha256\<close>. One instant \<open>now\<close> stands for the successive readings of the clock in a call.
\<close>

section \<open>The history of actions\<close>

definition OpenCollection :: string where "OpenCollection = ''open_actions''"
definition CompletionCollection :: string where "CompletionCollection = ''comp_actions''"

definition ActionEmail :: string where "ActionEmail = ''email''"
definition ActionPersonalEmail :: string where "ActionPersonalEmail = ''pemail''"
definition ActionPush :: string where "ActionPush = ''push''"

lemmas action_defs = OpenCollection_def CompletionCollection_def ActionEmail_def ActionPersonalEmail_def ActionPush_def

definition actions_Key :: "string \<Rightarrow> string \<Rightarrow> string \<Rightarrow> string" where
  "actions_Key pubID restaurantID restaurantTime =
     (if restaurantID = '''' \<and> restaurantTime = '''' then pubID
      else pubID @ '':'' @ restaurantID @ '':'' @ restaurantTime)"

type_synonym action_record = "string \<rightharpoonup> string list"

definition NeedsAction :: "action_record \<Rightarrow> string \<Rightarrow> string \<Rightarrow> bool" where
  "NeedsAction r action key \<longleftrightarrow> key \<notin> set (case r action of None \<Rightarrow> [] | Some ks \<Rightarrow> ks)"

definition PreviouslyActioned :: "action_record \<Rightarrow> string \<Rightarrow> bool" where
  "PreviouslyActioned r action \<longleftrightarrow> r action \<noteq> None"

text \<open>The record a document of the history holds: its array fields, of which the strings count.\<close>

definition recordOf :: "go_map \<Rightarrow> action_record" where
  "recordOf data field = (case data field of Some (AAnys values) \<Rightarrow> Some (List.map_filter asString values) | _ \<Rightarrow> None)"

text \<open>
  What \<open>FirestoreStore\<close> asks of its client: reading a document, \<open>None\<close> when it does not exist, and a merge
  that unions a value into an array field.
\<close>

record 'f action_documents =
  ad_Get :: "string list \<Rightarrow> 'f \<Rightarrow> (gerror + go_map option) \<times> 'f"
  ad_ArrayUnion :: "string list \<Rightarrow> string \<Rightarrow> go_any \<Rightarrow> 'f \<Rightarrow> gerror option \<times> 'f"

definition actions_Get :: "'f action_documents \<Rightarrow> string \<Rightarrow> string \<Rightarrow> 'f \<Rightarrow> (gerror + action_record) \<times> 'f" where
  "actions_Get docs collection pollID f =
     (case ad_Get docs [collection, pollID] f of
        (Inl e, f1) \<Rightarrow> (Inl e, f1)
      | (Inr None, f1) \<Rightarrow> (Inr Map.empty, f1)
      | (Inr (Some data), f1) \<Rightarrow> (Inr (recordOf data), f1))"

definition actions_Mark ::
  "'f action_documents \<Rightarrow> string \<Rightarrow> string \<Rightarrow> string \<Rightarrow> string \<Rightarrow> 'f \<Rightarrow> gerror option \<times> 'f" where
  "actions_Mark docs collection pollID action key f = ad_ArrayUnion docs [collection, pollID] action (AString key) f"

section \<open>Payloads and collaborators\<close>

record poll_observed =
  po_CreatedByUID :: string
  po_CompletedByUID :: string
  po_PollID :: string
  po_ChangeKind :: string
  po_SelectedVenueID :: string
  po_PollDate :: string
  po_SelectedRestaurantID :: string
  po_SelectedRestaurantTime :: string

record completion_mark =
  cm_Collection :: string
  cm_PollID :: string
  cm_Action :: string
  cm_Key :: string

record 'f notify_deps =
  nd_Actions :: "'f action_documents"
  nd_Venue :: "string \<Rightarrow> 'f \<Rightarrow> (gerror + venue_projection) \<times> 'f"
  nd_Endpoints :: "selector \<Rightarrow> 'f \<Rightarrow> (gerror + push_endpoint list) \<times> 'f"
  nd_EmailRecipients :: "string \<Rightarrow> 'f \<Rightarrow> (gerror + email_recipient list) \<times> 'f"
  nd_Completers :: "'f \<Rightarrow> (gerror + string list) \<times> 'f"
  nd_BaseURL :: string

definition HandlerCompletionMarked :: handler_name where "HandlerCompletionMarked = ''polls.completion_action_marked''"

definition missingVenueRetryDelay :: go_duration where "missingVenueRetryDelay = 5 * 60 * Second"

definition markStep :: "string \<Rightarrow> string \<Rightarrow> string \<Rightarrow> string \<Rightarrow> completion_mark step" where
  "markStep collection pollID action key =
     \<lparr>step_HandlerName = HandlerCompletionMarked,
      step_Payload = \<lparr>cm_Collection = collection, cm_PollID = pollID, cm_Action = action, cm_Key = key\<rparr>\<rparr>"

definition openedMark :: "string \<Rightarrow> string \<Rightarrow> completion_mark step" where
  "openedMark pollID action = markStep OpenCollection pollID action pollID"

definition CompletionMarked_Handle :: "'f notify_deps \<Rightarrow> completion_mark \<Rightarrow> 'f \<Rightarrow> 'db result \<times> 'f" where
  "CompletionMarked_Handle nd mark f =
     (let collection = (if cm_Collection mark = '''' then CompletionCollection else cm_Collection mark) in
      case actions_Mark (nd_Actions nd) collection (cm_PollID mark) (cm_Action mark) (cm_Key mark) f of
        (Some e, f1) \<Rightarrow> (ErrorResult ''record completion action'' (Some e), f1)
      | (None, f1) \<Rightarrow> (Complete [] [], f1))"

definition PollOpened_Handle :: "poll_observed \<Rightarrow> 'db result" where
  "PollOpened_Handle payload = (if po_PollID payload = '''' then Complete [] [] else Complete [] [])"

definition PollCompleted_Handle :: "poll_observed \<Rightarrow> 'db result" where
  "PollCompleted_Handle payload = (if po_PollID payload = '''' then Complete [] [] else Complete [] [])"

section \<open>Push notifications\<close>

record push_message =
  pm_EventType :: string
  pm_PollID :: string
  pm_Title :: string
  pm_Body :: string
  pm_URL :: string
  pm_Tag :: string
  pm_SentAt :: string

text \<open>The layout \<open>RFC3339Nano\<close> of an instant in UTC: the fraction of the second without its final zeros.\<close>

definition formatRFC3339Nano :: "go_time \<Rightarrow> string" where
  "formatRFC3339Nano t =
     (let secs = unix t mod 86400; nsec = t mod Second;
          fraction = TrimRight (CHR ''0'') (appendInt 9 nsec)
      in formatDate (civilOf (unix t div 86400)) @ ''T'' @ appendInt 2 (secs div 3600) @ '':'' @
         appendInt 2 (secs mod 3600 div 60) @ '':'' @ appendInt 2 (secs mod 60) @
         (if nsec = 0 then '''' else ''.'' @ fraction) @ ''Z'')"

text \<open>The encoders of a message and of the steps, and the digest.\<close>

record poll_codecs =
  pc_message :: "push_message \<Rightarrow> gerror + string"
  pc_step :: "completion_mark push_payload \<Rightarrow> gerror + string"
  pc_sha256 :: "string \<Rightarrow> string"

definition push_purpose :: "string \<Rightarrow> string" where
  "push_purpose eventType =
     (if eventType = ''poll_opened'' then PurposePollOpened
      else if eventType = ''poll_completed'' then PurposePollCompleted
      else if eventType = ''poll_rescheduled'' then PurposePollRescheduled
      else '''')"

definition populate ::
  "poll_codecs \<Rightarrow> gerror option \<Rightarrow> push_message \<Rightarrow> go_time \<Rightarrow> string \<Rightarrow> string \<Rightarrow> push_endpoint list \<Rightarrow>
     completion_mark step \<Rightarrow> string list \<Rightarrow> push_db \<Rightarrow> push_db result" where
  "populate pc flt message0 now pollDate notificationID eps mark actorUID d =
     (let message = message0\<lparr>pm_SentAt := formatRFC3339Nano now\<rparr> in
      case pc_message pc message of
        Inl e \<Rightarrow> ErrorResult ''encode push payload'' (Some e)
      | Inr encoded \<Rightarrow>
          (case Populate (pc_step pc) flt
                  \<lparr>nt_Purpose = push_purpose (pm_EventType message),
                   nt_ActorUID = (if length actorUID = 1 then hd actorUID else ''''), nt_ID = notificationID,
                   nt_Message = encoded, nt_Topic = Topic (pc_sha256 pc) (pm_PollID message),
                   nt_ExpiresAt = now + TTL pollDate now\<rparr> eps [mark] d of
             Inl e \<Rightarrow> ErrorResult ''populate push notification'' (Some e)
           | Inr result \<Rightarrow> result))"

definition completedPushBody :: "string \<Rightarrow> string \<Rightarrow> string \<Rightarrow> string \<Rightarrow> string" where
  "completedPushBody date venue restaurant restaurantTime =
     TrimSpace (date @ '': '' @ venue @ ''.'' @
       (if restaurant \<noteq> '''' then '' Pre-pub meal at '' @ restaurant @ ''.'' else '''') @
       (if restaurantTime \<noteq> '''' then '' Meet at '' @ restaurantTime @ ''.'' else ''''))"

definition PollOpenedPush_Handle ::
  "poll_codecs \<Rightarrow> 'f notify_deps \<Rightarrow> gerror option \<Rightarrow> go_time \<Rightarrow> poll_observed \<Rightarrow> push_db \<Rightarrow> 'f \<Rightarrow> push_db result \<times> 'f" where
  "PollOpenedPush_Handle pc nd flt now payload d f =
     (if po_PollID payload = '''' then (Complete [] [], f)
      else case actions_Get (nd_Actions nd) OpenCollection (po_PollID payload) f of
        (Inl e, f1) \<Rightarrow> (ErrorResult ''read poll-opened actions'' (Some e), f1)
      | (Inr r, f1) \<Rightarrow>
          if \<not> NeedsAction r ActionPush (po_PollID payload) then (Complete [] [], f1)
          else (case nd_Endpoints nd \<lparr>sel_Kind = KindPollOpens, sel_UserIDs = []\<rparr> f1 of
                  (Inl e, f2) \<Rightarrow> (ErrorResult ''select poll-opened push endpoints'' (Some e), f2)
                | (Inr eps, f2) \<Rightarrow>
                    (populate pc flt
                       \<lparr>pm_EventType = ''poll_opened'', pm_PollID = po_PollID payload, pm_Title = ''Pub Night voting opened'',
                        pm_Body = ''Voting has opened for this week'' @ [CHR 0x27] @
                          ''s pub night. Tap to open the active polls page.'',
                        pm_URL = nd_BaseURL nd @ ''/active_polls'', pm_Tag = ''poll-open:'' @ po_PollID payload,
                        pm_SentAt = ''''\<rparr> now (po_PollDate payload) (''poll-opened:'' @ po_PollID payload) eps
                       (openedMark (po_PollID payload) ActionPush) [po_CreatedByUID payload] d, f2)))"

text \<open>The name of the restaurant, empty when it is not chosen or not found.\<close>

definition restaurantName :: "'f notify_deps \<Rightarrow> poll_observed \<Rightarrow> 'f \<Rightarrow> (gerror + string) \<times> 'f" where
  "restaurantName nd payload f =
     (if po_SelectedRestaurantID payload = '''' then (Inr '''', f)
      else case nd_Venue nd (po_SelectedRestaurantID payload) f of
        (Inr restaurant, f1) \<Rightarrow> (Inr (vp_Name restaurant), f1)
      | (Inl e, f1) \<Rightarrow> (if errors_Is e ErrVenueNotFound then Inr '''' else Inl e, f1))"

definition completedMessage :: "'f notify_deps \<Rightarrow> poll_observed \<Rightarrow> bool \<Rightarrow> string \<Rightarrow> string \<Rightarrow> push_message" where
  "completedMessage nd payload rescheduled venue restaurant =
     \<lparr>pm_EventType = (if rescheduled then ''poll_rescheduled'' else ''poll_completed''), pm_PollID = po_PollID payload,
      pm_Title = (if rescheduled then ''Pub Night rescheduled: '' @ venue else ''Pub Night @ '' @ venue),
      pm_Body = completedPushBody (po_PollDate payload) venue restaurant (po_SelectedRestaurantTime payload),
      pm_URL = nd_BaseURL nd @ ''/current_events'', pm_Tag = ''poll-complete:'' @ po_PollID payload, pm_SentAt = ''''\<rparr>"

definition completionKey :: "poll_observed \<Rightarrow> string" where
  "completionKey payload =
     actions_Key (po_SelectedVenueID payload) (po_SelectedRestaurantID payload) (po_SelectedRestaurantTime payload)"

definition PollCompletedPush_Handle ::
  "poll_codecs \<Rightarrow> 'f notify_deps \<Rightarrow> gerror option \<Rightarrow> go_time \<Rightarrow> poll_observed \<Rightarrow> push_db \<Rightarrow> 'f \<Rightarrow> push_db result \<times> 'f" where
  "PollCompletedPush_Handle pc nd flt now payload d f =
     (if po_PollID payload = '''' \<or> po_SelectedVenueID payload = '''' \<or> po_PollDate payload = '''' then (Complete [] [], f)
      else let key = completionKey payload in
      case actions_Get (nd_Actions nd) CompletionCollection (po_PollID payload) f of
        (Inl e, f1) \<Rightarrow> (ErrorResult ''read completion actions'' (Some e), f1)
      | (Inr r, f1) \<Rightarrow>
          if \<not> NeedsAction r ActionPush key then (Complete [] [], f1)
          else
      (case nd_Venue nd (po_SelectedVenueID payload) f1 of
        (Inl e, f2) \<Rightarrow>
          (if errors_Is e ErrVenueNotFound then Retry (Some (now + missingVenueRetryDelay)) [] []
           else ErrorResult ''read completed poll venue'' (Some e), f2)
      | (Inr venue, f2) \<Rightarrow>
      (case restaurantName nd payload f2 of
        (Inl e, f3) \<Rightarrow> (ErrorResult ''read completed poll restaurant'' (Some e), f3)
      | (Inr restaurant, f3) \<Rightarrow>
      (case nd_Endpoints nd \<lparr>sel_Kind = KindPollCompletes, sel_UserIDs = []\<rparr> f3 of
        (Inl e, f4) \<Rightarrow> (ErrorResult ''select poll-completed push endpoints'' (Some e), f4)
      | (Inr eps, f4) \<Rightarrow>
          (populate pc flt (completedMessage nd payload (PreviouslyActioned r ActionPush) (vp_Name venue) restaurant)
             now (po_PollDate payload) (''poll-completed:'' @ po_PollID payload @ '':'' @ key) eps
             (markStep CompletionCollection (po_PollID payload) ActionPush key) [po_CompletedByUID payload] d, f4)))))"

definition ManualCompletionPush_Handle ::
  "poll_codecs \<Rightarrow> 'f notify_deps \<Rightarrow> gerror option \<Rightarrow> go_time \<Rightarrow> manual_required \<Rightarrow> push_db \<Rightarrow> 'f \<Rightarrow> push_db result \<times> 'f" where
  "ManualCompletionPush_Handle pc nd flt now truth d f =
     (if mr_PollID truth = '''' then (Complete [] [], f)
      else case nd_Completers nd f of
        (Inl e, f1) \<Rightarrow> (ErrorResult ''read poll completers'' (Some e), f1)
      | (Inr completers, f1) \<Rightarrow>
          if length completers = 0 then (Complete [] [], f1)
          else
      (case nd_Endpoints nd \<lparr>sel_Kind = KindPollCompletes, sel_UserIDs = completers\<rparr> f1 of
        (Inl e, f2) \<Rightarrow> (ErrorResult ''select manual completion push endpoints'' (Some e), f2)
      | (Inr eps, f2) \<Rightarrow>
          (case pc_message pc
                  \<lparr>pm_EventType = ''poll_manual_completion_required'', pm_PollID = mr_PollID truth,
                   pm_Title = ''Poll needs manual completion'',
                   pm_Body = mr_PollDate truth @ '': auto-complete could not choose a clear winner. Tap to complete the poll.'',
                   pm_URL = nd_BaseURL nd @ ''/active_polls'', pm_Tag = ''poll-manual-complete:'' @ mr_PollID truth,
                   pm_SentAt = formatRFC3339Nano now\<rparr> of
             Inl e \<Rightarrow> (ErrorResult ''encode push payload'' (Some e), f2)
           | Inr encoded \<Rightarrow>
               (case Populate (pc_step pc) flt
                       \<lparr>nt_Purpose = '''', nt_ActorUID = '''',
                        nt_ID = ''poll-manual-completion:'' @ mr_PollID truth @ '':'' @ mr_PollDate truth,
                        nt_Message = encoded, nt_Topic = Topic (pc_sha256 pc) (''manual-complete-'' @ mr_PollID truth),
                        nt_ExpiresAt = now + TTL (mr_PollDate truth) now\<rparr> eps ([] :: completion_mark step list) d of
                  Inl e \<Rightarrow> (ErrorResult ''populate manual completion push'' (Some e), f2)
                | Inr result \<Rightarrow> (result, f2)))))"

section \<open>Emails\<close>

definition pollEmailSenderEmail :: string where "pollEmailSenderEmail = ''ampubnight@contable.co.uk''"
definition pollEmailSenderName :: string where "pollEmailSenderName = ''ampubnight notification emails''"
definition pollOpenedSubject :: string where "pollOpenedSubject = ''Pub Night voting opened''"

abbreviation newline :: string where "newline \<equiv> [CHR 0x0A]"
abbreviation apostrophe :: string where "apostrophe \<equiv> [CHR 0x27]"

definition pollOpenedBody :: "string \<Rightarrow> string" where
  "pollOpenedBody baseURL =
     ''Voting has opened for this week'' @ apostrophe @ ''s pub night.'' @ newline @ ''Please visit '' @ baseURL @
     ''/active_polls'' @ newline @ ''to participate in the voting.'' @ newline"

text \<open>A step of an email sequence: one of a Send, or the mark that follows it.\<close>

datatype poll_step_payload = SendStep "go_map send_payload" | MarkStep completion_mark

definition sendSteps :: "go_map send_request \<Rightarrow> poll_step_payload step list" where
  "sendSteps request =
     map (\<lambda>s. \<lparr>step_HandlerName = step_HandlerName s, step_Payload = SendStep (step_Payload s)\<rparr>) (NewSendSequence request)"

definition lift_mark :: "completion_mark step \<Rightarrow> poll_step_payload step" where
  "lift_mark s = \<lparr>step_HandlerName = step_HandlerName s, step_Payload = MarkStep (step_Payload s)\<rparr>"

text \<open>The requests \<open>personalSendSteps\<close> makes Sends of, in order.\<close>

definition personalRequests :: "go_map send_request \<Rightarrow> string \<Rightarrow> string \<Rightarrow> go_map send_request list" where
  "personalRequests request purpose actorUID =
     (if actorUID = '''' then [request]
      else
        let actor = filter (\<lambda>r. sr_UserID r = actorUID) (rq_Recipients request);
            others = filter (\<lambda>r. sr_UserID r \<noteq> actorUID) (rq_Recipients request)
        in if length actor \<noteq> 1 then [request]
           else (if length others > 0
                 then [request\<lparr>rq_IdempotencyToken := rq_IdempotencyToken request @ '':others'', rq_Recipients := others\<rparr>]
                 else []) @
                [request\<lparr>rq_IdempotencyToken := rq_IdempotencyToken request @ '':actor:'' @ actorUID,
                         rq_Recipients := actor,
                         rq_Metadata := [''purpose'' \<mapsto> purpose, ''actor_uid'' \<mapsto> actorUID, ''recipient_uid'' \<mapsto> actorUID]\<rparr>])"

definition personalSendSteps :: "go_map send_request \<Rightarrow> string \<Rightarrow> string \<Rightarrow> poll_step_payload step list" where
  "personalSendSteps request purpose actorUID = concat (map sendSteps (personalRequests request purpose actorUID))"

definition openedRequest :: "string \<Rightarrow> poll_observed \<Rightarrow> email_recipient list \<Rightarrow> go_map send_request" where
  "openedRequest baseURL payload recipients =
     \<lparr>rq_IdempotencyToken = ''poll-opened:'' @ po_PollID payload, rq_SenderEmail = pollEmailSenderEmail,
      rq_SenderName = pollEmailSenderName, rq_Subject = pollOpenedSubject, rq_TemplateID = '''',
      rq_Text = pollOpenedBody baseURL, rq_Variables = Map.empty, rq_Headers = Map.empty, rq_Metadata = Map.empty,
      rq_Recipients = map (\<lambda>r. \<lparr>sr_UserID = er_UserID r, sr_Email = er_Email r, sr_Name = '''', sr_Variables = Map.empty\<rparr>) recipients\<rparr>"

definition PollOpenedEmail_Handle ::
  "(poll_step_payload \<Rightarrow> gerror + string) \<Rightarrow> 'f notify_deps \<Rightarrow> poll_observed \<Rightarrow> 'f \<Rightarrow> 'db result \<times> 'f" where
  "PollOpenedEmail_Handle marshalJSON nd payload f =
     (if po_PollID payload = '''' then (Complete [] [], f)
      else case actions_Get (nd_Actions nd) OpenCollection (po_PollID payload) f of
        (Inl e, f1) \<Rightarrow> (ErrorResult ''read poll-opened actions'' (Some e), f1)
      | (Inr r, f1) \<Rightarrow>
          if \<not> NeedsAction r ActionEmail (po_PollID payload) then (Complete [] [], f1)
          else
            let mark = lift_mark (openedMark (po_PollID payload) ActionEmail) in
      (case nd_EmailRecipients nd EmailPollOpens f1 of
        (Inl e, f2) \<Rightarrow> (ErrorResult ''select poll-opened email recipients'' (Some e), f2)
      | (Inr recipients, f2) \<Rightarrow>
          (let steps = (if length recipients = 0 then [mark]
                        else personalSendSteps (openedRequest (nd_BaseURL nd) payload recipients) PurposePollOpened
                               (po_CreatedByUID payload) @ [mark])
           in case push_cellRequest marshalJSON steps of
                Inl e \<Rightarrow> (ErrorResult ''build poll-opened email send'' (Some e), f2)
              | Inr send \<Rightarrow> (Complete [send] [], f2))))"

section \<open>The text of a completion email\<close>

definition pollCompletedMailingList :: string where "pollCompletedMailingList = ''ampubnight@googlegroups.com''"

definition completionBase :: string where
  "completionBase =
     ''Every week we have a pub night to which you are cordially invited.'' @ newline @
     ''The venue changes each week, though we do tend to frequent a few favourites.'' @ newline @
     ''Suggestions for venues are always welcome.'' @ newline @
     ''The earliest attendees get there between 6:30 & 7:30pm and we continue through to closing time.'' @ newline"

definition completionPub :: string where
  "completionPub = ''This week on {{event_date}} we will be visiting {{venue_name}}''"

definition completionEvent :: string where
  "completionEvent =
     ''Every week we have a pub night to which you are cordially invited.'' @ newline @
     ''This week the destination is an event venue.'' @ newline @ newline @
     ''On {{event_date}} we will be attending {{venue_name}}.''"

definition completionRestaurant :: string where
  "completionRestaurant =
     ''Every week we have a pub night to which you are cordially invited.'' @ newline @
     ''This week the destination is a restaurant.'' @ newline @ newline @
     ''On {{event_date}} we will be visiting {{venue_name}}.''"

definition completionRescheduled :: string where
  "completionRescheduled = ''This week'' @ apostrophe @ ''s event has been rescheduled'' @ newline @ newline"

definition completionUnsubscribe :: string where
  "completionUnsubscribe = newline @ newline @ ''Unsubscribe at ''"

definition venueType :: "venue_projection \<Rightarrow> string" where
  "venueType venue = (if vp_VenueType venue = '''' then ''pub'' else vp_VenueType venue)"

record completion_content =
  cc_Subject :: string
  cc_Text :: string
  cc_Variables :: go_map

definition siteLabel :: "venue_projection \<Rightarrow> string" where
  "siteLabel venue =
     (if venueType venue = ''event'' then ''Event Web Site''
      else if venueType venue = ''restaurant'' then ''Restaurant Web Site'' else ''Pub Web Site'')"

definition mapLabel :: "venue_projection \<Rightarrow> string" where
  "mapLabel venue =
     (if venueType venue = ''event'' then ''Map to event''
      else if venueType venue = ''restaurant'' then ''Map to restaurant'' else ''Map to pub'')"

text \<open>\<open>writeVenueDetails\<close> appends to the text and binds the variables it mentions.\<close>

definition writeVenueDetails :: "string \<Rightarrow> venue_projection \<Rightarrow> string \<times> go_map \<Rightarrow> string \<times> go_map" where
  "writeVenueDetails prefix venue acc0 =
     (let acc1 = (if vp_Website venue = '''' then acc0
                  else (fst acc0 @ newline @ siteLabel venue @ '' {{'' @ prefix @ ''_website}}'' @ newline,
                        (snd acc0)(prefix @ ''_website'' \<mapsto> AString (vp_Website venue))));
          acc2 = (if vp_Address venue = '''' then acc1
                  else (fst acc1 @ newline @ ''{{'' @ prefix @ ''_address}}'' @ newline,
                        (snd acc1)(prefix @ ''_address'' \<mapsto> AString (vp_Address venue))))
      in if vp_Map venue = '''' then acc2
         else (fst acc2 @ newline @ newline @ mapLabel venue @ '' {{'' @ prefix @ ''_map}}'',
               (snd acc2)(prefix @ ''_map'' \<mapsto> AString (vp_Map venue))))"

text \<open>The part about the restaurant where one meets before the pub.\<close>

definition writeRestaurant :: "venue_projection \<Rightarrow> string \<Rightarrow> string \<times> go_map \<Rightarrow> string \<times> go_map" where
  "writeRestaurant restaurant restaurantTime acc0 =
     (let acc1 = (fst acc0 @ newline @ ''Before the pub we are meeting at {{restaurant_name}}.'',
                  (snd acc0)(''restaurant_name'' \<mapsto> AString (vp_Name restaurant)));
          acc2 = (if restaurantTime = '''' then acc1
                  else (fst acc1 @ '' We will be meeting there at {{restaurant_time}}.'',
                        (snd acc1)(''restaurant_time'' \<mapsto> AString restaurantTime)));
          acc3 = writeVenueDetails ''restaurant'' restaurant acc2
      in (fst acc3 @ newline @ newline, snd acc3))"

definition newCompletionContent ::
  "venue_projection \<Rightarrow> venue_projection option \<Rightarrow> string \<Rightarrow> string \<Rightarrow> string \<Rightarrow> bool \<Rightarrow> bool \<Rightarrow> completion_content" where
  "newCompletionContent venue restaurant eventDate restaurantTime baseURL rescheduled personal =
     (let acc0 = (if rescheduled then completionRescheduled else '''',
                  [''venue_name'' \<mapsto> AString (vp_Name venue), ''event_date'' \<mapsto> AString eventDate]);
          acc1 =
            (if venueType venue = ''event'' then (fst acc0 @ completionEvent, snd acc0)
             else if venueType venue = ''restaurant'' then (fst acc0 @ completionRestaurant, snd acc0)
             else
               let base = (fst acc0 @ completionBase, snd acc0);
                   meal = (case restaurant of None \<Rightarrow> base | Some r \<Rightarrow> writeRestaurant r restaurantTime base)
               in (fst meal @ completionPub, snd meal));
          acc2 = writeVenueDetails ''venue'' venue acc1
      in \<lparr>cc_Subject = (if rescheduled then ''Pub Night @ RESCHEDULED::{{venue_name}}'' else ''Pub Night @ {{venue_name}}''),
          cc_Text = (if personal then fst acc2 @ completionUnsubscribe @ baseURL @ ''/preferences/{{uid}}'' else fst acc2),
          cc_Variables = snd acc2\<rparr>)"

section \<open>Completion emails\<close>

text \<open>\<open>restaurant\<close>: the projection of the chosen restaurant, if there is one and it is found.\<close>

definition email_restaurant :: "'f notify_deps \<Rightarrow> poll_observed \<Rightarrow> 'f \<Rightarrow> (gerror + venue_projection option) \<times> 'f" where
  "email_restaurant nd payload f =
     (if po_SelectedRestaurantID payload = '''' then (Inr None, f)
      else case nd_Venue nd (po_SelectedRestaurantID payload) f of
        (Inr restaurant, f1) \<Rightarrow> (Inr (Some restaurant), f1)
      | (Inl e, f1) \<Rightarrow> (if errors_Is e ErrVenueNotFound then Inr None else Inl e, f1))"

text \<open>The recipients of the mailing-list email or of the personal ones.\<close>

definition completionRecipients :: "'f notify_deps \<Rightarrow> bool \<Rightarrow> 'f \<Rightarrow> (gerror + go_map send_recipient list) \<times> 'f" where
  "completionRecipients nd personal f =
     (if \<not> personal
      then (Inr [\<lparr>sr_UserID = '''', sr_Email = pollCompletedMailingList, sr_Name = '''', sr_Variables = Map.empty\<rparr>], f)
      else case nd_EmailRecipients nd EmailPollCompletes f of
        (Inl e, f1) \<Rightarrow> (Inl e, f1)
      | (Inr eligible, f1) \<Rightarrow>
          (Inr (map (\<lambda>r. \<lparr>sr_UserID = er_UserID r, sr_Email = er_Email r, sr_Name = '''',
                          sr_Variables = [''uid'' \<mapsto> AString (er_UserID r)]\<rparr>) eligible), f1))"

definition completionRequest ::
  "string \<Rightarrow> poll_observed \<Rightarrow> string \<Rightarrow> string \<Rightarrow> bool \<Rightarrow> venue_projection \<Rightarrow> venue_projection option \<Rightarrow>
     go_map send_recipient list \<Rightarrow> go_map send_request" where
  "completionRequest baseURL payload key action rescheduled venue restaurant recipients =
     (let content = newCompletionContent venue restaurant (po_PollDate payload) (po_SelectedRestaurantTime payload) baseURL
                      rescheduled (action = ActionPersonalEmail)
      in \<lparr>rq_IdempotencyToken = ''poll-completed:'' @ po_PollID payload @ '':'' @ action @ '':'' @ key,
          rq_SenderEmail = pollEmailSenderEmail, rq_SenderName = pollEmailSenderName, rq_Subject = cc_Subject content,
          rq_TemplateID = '''', rq_Text = cc_Text content, rq_Variables = cc_Variables content, rq_Headers = Map.empty,
          rq_Metadata = Map.empty, rq_Recipients = recipients\<rparr>)"

definition actionCell ::
  "(poll_step_payload \<Rightarrow> gerror + string) \<Rightarrow> 'f notify_deps \<Rightarrow> poll_observed \<Rightarrow> string \<Rightarrow> string \<Rightarrow> bool \<Rightarrow>
     venue_projection \<Rightarrow> venue_projection option \<Rightarrow> 'f \<Rightarrow> (gerror + cell_request) \<times> 'f" where
  "actionCell marshalJSON nd payload key action rescheduled venue restaurant f =
     (let mark = lift_mark (markStep CompletionCollection (po_PollID payload) action key);
          personal = (action = ActionPersonalEmail)
      in case completionRecipients nd personal f of
           (Inl e, f1) \<Rightarrow> (Inl e, f1)
         | (Inr recipients, f1) \<Rightarrow>
             (let request = completionRequest (nd_BaseURL nd) payload key action rescheduled venue restaurant recipients;
                  steps = (if length recipients > 0
                           then if personal \<and> \<not> rescheduled
                                then personalSendSteps request PurposePollCompleted (po_CompletedByUID payload) @ [mark]
                                else sendSteps request @ [mark]
                           else [mark])
              in (push_cellRequest marshalJSON steps, f1)))"

fun actionCells ::
  "(poll_step_payload \<Rightarrow> gerror + string) \<Rightarrow> 'f notify_deps \<Rightarrow> poll_observed \<Rightarrow> string \<Rightarrow> action_record \<Rightarrow>
     venue_projection \<Rightarrow> venue_projection option \<Rightarrow> string list \<Rightarrow> 'f \<Rightarrow> ((string \<times> gerror) + cell_request list) \<times> 'f" where
  "actionCells marshalJSON nd payload key r venue restaurant [] f = (Inr [], f)"
| "actionCells marshalJSON nd payload key r venue restaurant (action # actions) f =
     (if \<not> NeedsAction r action key then actionCells marshalJSON nd payload key r venue restaurant actions f
      else case actionCell marshalJSON nd payload key action (PreviouslyActioned r action) venue restaurant f of
        (Inl e, f1) \<Rightarrow> (Inl (''build '' @ action @ '' completion action'', e), f1)
      | (Inr cell, f1) \<Rightarrow>
          (case actionCells marshalJSON nd payload key r venue restaurant actions f1 of
             (Inl me, f2) \<Rightarrow> (Inl me, f2)
           | (Inr rest, f2) \<Rightarrow> (Inr (cell # rest), f2)))"

definition PollCompletedEmail_Handle ::
  "(poll_step_payload \<Rightarrow> gerror + string) \<Rightarrow> 'f notify_deps \<Rightarrow> go_time \<Rightarrow> poll_observed \<Rightarrow> 'f \<Rightarrow> 'db result \<times> 'f" where
  "PollCompletedEmail_Handle marshalJSON nd now payload f =
     (if po_PollID payload = '''' \<or> po_SelectedVenueID payload = '''' \<or> po_PollDate payload = '''' then (Complete [] [], f)
      else let key = completionKey payload in
      case actions_Get (nd_Actions nd) CompletionCollection (po_PollID payload) f of
        (Inl e, f1) \<Rightarrow> (ErrorResult ''read completion actions'' (Some e), f1)
      | (Inr r, f1) \<Rightarrow>
          if \<not> NeedsAction r ActionEmail key \<and> \<not> NeedsAction r ActionPersonalEmail key then (Complete [] [], f1)
          else
      (case nd_Venue nd (po_SelectedVenueID payload) f1 of
        (Inl e, f2) \<Rightarrow>
          (if errors_Is e ErrVenueNotFound then Retry (Some (now + missingVenueRetryDelay)) [] []
           else ErrorResult ''read completed poll venue'' (Some e), f2)
      | (Inr venue, f2) \<Rightarrow>
      (case email_restaurant nd payload f2 of
        (Inl e, f3) \<Rightarrow> (ErrorResult ''read completed poll restaurant'' (Some e), f3)
      | (Inr restaurant, f3) \<Rightarrow>
      (case actionCells marshalJSON nd payload key r venue restaurant [ActionEmail, ActionPersonalEmail] f3 of
        (Inl (m, e), f4) \<Rightarrow> (ErrorResult m (Some e), f4)
      | (Inr requests, f4) \<Rightarrow> (Complete requests [], f4)))))"

section \<open>The sends of a poll email\<close>

lemma mset_filter_split: "mset (filter P xs) + mset (filter (\<lambda>x. \<not> P x) xs) = mset xs"
  by (induction xs) auto

text \<open>
  Splitting an email so that the actor of the poll gets a Send of its own loses no recipient and
  addresses none twice: the recipients of the Sends are together those of the request. The Sends have
  different idempotency tokens, the text of the request, and metadata that names an actor only on the Send
  whose one recipient is that actor.
\<close>

theorem personal_sends_partition:
  "mset (concat (map rq_Recipients (personalRequests request purpose actorUID))) = mset (rq_Recipients request) \<and>
   distinct (map rq_IdempotencyToken (personalRequests request purpose actorUID)) \<and>
   (\<forall>q \<in> set (personalRequests request purpose actorUID). rq_Text q = rq_Text request \<and> rq_Subject q = rq_Subject request \<and>
      (rq_Metadata q = rq_Metadata request \<or>
       (\<exists>r. rq_Recipients q = [r] \<and> sr_UserID r = actorUID \<and> actorUID \<noteq> '''' \<and>
          rq_Metadata q = [''purpose'' \<mapsto> purpose, ''actor_uid'' \<mapsto> actorUID, ''recipient_uid'' \<mapsto> actorUID])))"
proof (cases "actorUID = '''' \<or> length (filter (\<lambda>r. sr_UserID r = actorUID) (rq_Recipients request)) \<noteq> 1")
  case True
  then have "personalRequests request purpose actorUID = [request]" by (auto simp: personalRequests_def Let_def)
  then show ?thesis by simp
next
  case False
  let ?actor = "filter (\<lambda>r. sr_UserID r = actorUID) (rq_Recipients request)"
  let ?others = "filter (\<lambda>r. sr_UserID r \<noteq> actorUID) (rq_Recipients request)"
  from False obtain r where r: "?actor = [r]" by (auto simp: length_Suc_conv)
  then have "r \<in> set ?actor" by simp
  then have u: "sr_UserID r = actorUID" by simp
  have parts: "mset ?actor + mset ?others = mset (rq_Recipients request)" by (rule mset_filter_split)
  have eq: "personalRequests request purpose actorUID =
      (if ?others = [] then [] else [request\<lparr>rq_IdempotencyToken := rq_IdempotencyToken request @ '':others'', rq_Recipients := ?others\<rparr>]) @
      [request\<lparr>rq_IdempotencyToken := rq_IdempotencyToken request @ '':actor:'' @ actorUID, rq_Recipients := [r],
        rq_Metadata := [''purpose'' \<mapsto> purpose, ''actor_uid'' \<mapsto> actorUID, ''recipient_uid'' \<mapsto> actorUID]\<rparr>]"
    using False r by (auto simp: personalRequests_def Let_def)
  show ?thesis
  proof (intro conjI)
    show "mset (concat (map rq_Recipients (personalRequests request purpose actorUID))) = mset (rq_Recipients request)"
    proof (cases "?others = []")
      case True
      then have "mset (rq_Recipients request) = {#r#}" using parts unfolding r by (simp flip: mset_filter)
      with True show ?thesis unfolding eq by simp
    next
      case False
      then show ?thesis using parts unfolding eq r by (simp add: union_commute)
    qed
    show "distinct (map rq_IdempotencyToken (personalRequests request purpose actorUID))" unfolding eq by simp
    show "\<forall>q \<in> set (personalRequests request purpose actorUID). rq_Text q = rq_Text request \<and> rq_Subject q = rq_Subject request \<and>
      (rq_Metadata q = rq_Metadata request \<or> (\<exists>r. rq_Recipients q = [r] \<and> sr_UserID r = actorUID \<and> actorUID \<noteq> '''' \<and>
          rq_Metadata q = [''purpose'' \<mapsto> purpose, ''actor_uid'' \<mapsto> actorUID, ''recipient_uid'' \<mapsto> actorUID]))"
      using u False unfolding eq by auto
  qed
qed

definition demo_personal :: "go_map send_request" where
  "demo_personal =
     \<lparr>rq_IdempotencyToken = ''poll-opened:p1'', rq_SenderEmail = pollEmailSenderEmail, rq_SenderName = pollEmailSenderName,
      rq_Subject = pollOpenedSubject, rq_TemplateID = [], rq_Text = ''Vote'', rq_Variables = Map.empty, rq_Headers = Map.empty,
      rq_Metadata = Map.empty,
      rq_Recipients = map (\<lambda>u. \<lparr>sr_UserID = u, sr_Email = u @ ''@example.org'', sr_Name = [], sr_Variables = Map.empty\<rparr>)
        [''u1'', ''u2'', ''u3'']\<rparr>"

theorem personal_sends_partition_witness:
  "map rq_IdempotencyToken (personalRequests demo_personal ''poll-opened'' ''u2'') = [''poll-opened:p1:others'', ''poll-opened:p1:actor:u2''] \<and>
   mset (concat (map rq_Recipients (personalRequests demo_personal ''poll-opened'' ''u2''))) = mset (rq_Recipients demo_personal) \<and>
   rq_Text (last (personalRequests demo_personal ''poll-opened'' ''u2'')) = ''Vote''"
proof -
  have t: "map rq_IdempotencyToken (personalRequests demo_personal ''poll-opened'' ''u2'') = [''poll-opened:p1:others'', ''poll-opened:p1:actor:u2'']"
    by (simp add: personalRequests_def demo_personal_def)
  then have "last (personalRequests demo_personal ''poll-opened'' ''u2'') \<in> set (personalRequests demo_personal ''poll-opened'' ''u2'')"
    by (intro last_in_set) auto
  moreover have "rq_Text demo_personal = ''Vote''" by (simp add: demo_personal_def)
  ultimately show ?thesis
    using t personal_sends_partition [of demo_personal "''poll-opened''" "''u2''"] by simp
qed

section \<open>Templates\<close>

text \<open>The names between double braces, in order.\<close>

fun until_close :: "string \<Rightarrow> (string \<times> string) option" where
  "until_close [] = None"
| "until_close [c] = None"
| "until_close (c # d # s) =
     (if c = CHR ''}'' \<and> d = CHR ''}'' then Some ([], s)
      else map_option (\<lambda>(name, rest). (c # name, rest)) (until_close (d # s)))"

lemma until_close_length: "until_close s = Some (name, rest) \<Longrightarrow> length rest < length s"
  by (induction s arbitrary: name rest rule: until_close.induct) (auto split: if_splits)

function placeholders :: "string \<Rightarrow> string list" where
  "placeholders [] = []"
| "placeholders [c] = []"
| "placeholders (c # d # s) =
     (if c = CHR ''{'' \<and> d = CHR ''{''
      then (case until_close s of None \<Rightarrow> [] | Some (name, rest) \<Rightarrow> name # placeholders rest)
      else placeholders (d # s))"
  by pat_completeness auto
termination by (relation "measure length") (auto dest: until_close_length)

text \<open>A text whose placeholders are \<open>names\<close> whatever follows it.\<close>

definition closed_text :: "string \<Rightarrow> string list \<Rightarrow> bool" where
  "closed_text t names \<longleftrightarrow> (\<forall>s. placeholders (t @ s) = names @ placeholders s)"

lemma closed_Nil: "closed_text [] []"
  by (simp add: closed_text_def)

lemma closed_append: "closed_text t xs \<Longrightarrow> closed_text u ys \<Longrightarrow> closed_text (t @ u) (xs @ ys)"
  by (simp add: closed_text_def)

lemma placeholders_plain: "c \<noteq> CHR ''{'' \<Longrightarrow> placeholders (c # s) = placeholders s"
  by (cases s) auto

lemma closed_plain: "CHR ''{'' \<notin> set t \<Longrightarrow> closed_text t []"
proof (induction t)
  case (Cons c t)
  then show ?case by (auto simp: closed_text_def placeholders_plain)
qed (simp add: closed_Nil)

lemma until_close_name: "CHR ''}'' \<notin> set name \<Longrightarrow> until_close (name @ ''}}'' @ s) = Some (name, s)"
proof (induction name)
  case (Cons c name)
  then have "until_close (name @ ''}}'' @ s) = Some (name, s)" by simp
  moreover obtain d u where "name @ ''}}'' @ s = d # u" by (cases name) auto
  ultimately show ?case using Cons.prems by auto
qed simp

lemma closed_placeholder: "CHR ''}'' \<notin> set name \<Longrightarrow> closed_text (''{{'' @ name @ ''}}'') [name]"
  using until_close_name by (simp add: closed_text_def)

text \<open>A text with the variables that are bound so far: it mentions no other.\<close>

definition bound_text :: "string \<times> go_map \<Rightarrow> bool" where
  "bound_text acc \<longleftrightarrow> (\<exists>names. closed_text (fst acc) names \<and> set names \<subseteq> dom (snd acc))"

lemma bound_extend:
  assumes "bound_text (t, vars)" "closed_text u names" "set names \<subseteq> dom vars'" "dom vars \<subseteq> dom vars'"
  shows "bound_text (t @ u, vars')"
proof -
  from assms(1) obtain xs where "closed_text t xs" "set xs \<subseteq> dom vars" by (auto simp: bound_text_def)
  moreover from this assms(3,4) have "set (xs @ names) \<subseteq> dom vars'" by (simp only: set_append) blast
  ultimately show ?thesis
    using closed_append [OF _ assms(2)] unfolding bound_text_def fst_conv snd_conv by blast
qed

lemma closed_wrapped:
  assumes "CHR ''{'' \<notin> set pre" "CHR ''}'' \<notin> set name" "CHR ''{'' \<notin> set post"
  shows "closed_text (pre @ ''{{'' @ name @ ''}}'' @ post) [name]"
  using closed_append [OF closed_plain [OF assms(1)] closed_append [OF closed_placeholder [OF assms(2)] closed_plain [OF assms(3)]]]
  by simp

lemma labels_plain: "CHR ''{'' \<notin> set (siteLabel venue)" "CHR ''{'' \<notin> set (mapLabel venue)"
  by (simp_all add: siteLabel_def mapLabel_def)

lemma writeVenueDetails_bound:
  assumes "bound_text (t, vars)" "CHR ''}'' \<notin> set prefix"
  shows "bound_text (writeVenueDetails prefix venue (t, vars)) \<and> dom vars \<subseteq> dom (snd (writeVenueDetails prefix venue (t, vars)))"
proof -
  have step: "bound_text (t @ pre @ ''{{'' @ (prefix @ suffix) @ ''}}'' @ post, vars(prefix @ suffix \<mapsto> v))"
    if "bound_text (t, vars)" "CHR ''{'' \<notin> set pre" "CHR ''}'' \<notin> set suffix" "CHR ''{'' \<notin> set post" for t vars pre suffix post v
    using that assms(2) by (intro bound_extend [OF that(1) closed_wrapped]) auto
  have site: "bound_text (t @ newline @ siteLabel venue @ '' {{'' @ prefix @ ''_website}}'' @ newline, vars(prefix @ ''_website'' \<mapsto> v))"
    if "bound_text (t, vars)" for t vars v
    using step [OF that, of "newline @ siteLabel venue @ '' ''" "''_website''" newline v] labels_plain by simp
  have address: "bound_text (t @ newline @ ''{{'' @ prefix @ ''_address}}'' @ newline, vars(prefix @ ''_address'' \<mapsto> v))"
    if "bound_text (t, vars)" for t vars v
    using step [OF that, of newline "''_address''" newline v] by simp
  have map: "bound_text (t @ newline @ newline @ mapLabel venue @ '' {{'' @ prefix @ ''_map}}'', vars(prefix @ ''_map'' \<mapsto> v))"
    if "bound_text (t, vars)" for t vars v
    using step [OF that, of "newline @ newline @ mapLabel venue @ '' ''" "''_map''" "[]" v] labels_plain by simp
  define acc1 where "acc1 = (if vp_Website venue = '''' then (t, vars)
    else (t @ newline @ siteLabel venue @ '' {{'' @ prefix @ ''_website}}'' @ newline,
          vars(prefix @ ''_website'' \<mapsto> AString (vp_Website venue))))"
  have 1: "bound_text acc1" "dom vars \<subseteq> dom (snd acc1)" using assms(1) site by (auto simp: acc1_def)
  define acc2 where "acc2 = (if vp_Address venue = '''' then acc1
    else (fst acc1 @ newline @ ''{{'' @ prefix @ ''_address}}'' @ newline,
          (snd acc1)(prefix @ ''_address'' \<mapsto> AString (vp_Address venue))))"
  have 2: "bound_text acc2" "dom vars \<subseteq> dom (snd acc2)" using 1 address [of "fst acc1" "snd acc1"] by (auto simp: acc2_def)
  have "writeVenueDetails prefix venue (t, vars) = (if vp_Map venue = '''' then acc2
    else (fst acc2 @ newline @ newline @ mapLabel venue @ '' {{'' @ prefix @ ''_map}}'',
          (snd acc2)(prefix @ ''_map'' \<mapsto> AString (vp_Map venue))))"
    by (simp add: writeVenueDetails_def acc1_def acc2_def Let_def)
  with 2 map [of "fst acc2" "snd acc2"] show ?thesis by auto
qed

lemma closed_literals:
  "closed_text completionRescheduled []" "closed_text completionBase []"
  "closed_text completionPub [''event_date'', ''venue_name'']"
  "closed_text completionEvent [''event_date'', ''venue_name'']"
  "closed_text completionRestaurant [''event_date'', ''venue_name'']"
proof -
  show "closed_text completionRescheduled []" "closed_text completionBase []"
    by (rule closed_plain, simp add: completionRescheduled_def completionBase_def)+
  have "closed_text (pre @ ''{{'' @ ''event_date'' @ ''}}'' @ mid @ ''{{'' @ ''venue_name'' @ ''}}'' @ post) [''event_date'', ''venue_name'']"
    if "CHR ''{'' \<notin> set pre" "CHR ''{'' \<notin> set mid" "CHR ''{'' \<notin> set post" for pre mid post
    using closed_append [OF closed_wrapped [OF that(1), of "''event_date''" "[]"] closed_wrapped [OF that(2), of "''venue_name''" post]] that(3)
    by simp
  note two = this
  show "closed_text completionPub [''event_date'', ''venue_name'']"
    using two [of "''This week on ''" "'' we will be visiting ''" "[]"] by (simp add: completionPub_def)
  show "closed_text completionEvent [''event_date'', ''venue_name'']"
    using two [of "''Every week we have a pub night to which you are cordially invited.'' @ newline @
      ''This week the destination is an event venue.'' @ newline @ newline @ ''On ''" "'' we will be attending ''" "''.''"]
    by (simp add: completionEvent_def)
  show "closed_text completionRestaurant [''event_date'', ''venue_name'']"
    using two [of "''Every week we have a pub night to which you are cordially invited.'' @ newline @
      ''This week the destination is a restaurant.'' @ newline @ newline @ ''On ''" "'' we will be visiting ''" "''.''"]
    by (simp add: completionRestaurant_def)
qed

lemma writeRestaurant_bound:
  assumes "bound_text (t, vars)"
  shows "bound_text (writeRestaurant restaurant restaurantTime (t, vars)) \<and>
    dom vars \<subseteq> dom (snd (writeRestaurant restaurant restaurantTime (t, vars)))"
proof -
  define vars1 where "vars1 = vars(''restaurant_name'' \<mapsto> AString (vp_Name restaurant))"
  define t1 where "t1 = t @ newline @ ''Before the pub we are meeting at {{restaurant_name}}.''"
  have "closed_text (newline @ ''Before the pub we are meeting at {{restaurant_name}}.'') [''restaurant_name'']"
    using closed_wrapped [of "newline @ ''Before the pub we are meeting at ''" "''restaurant_name''" "''.''"] by simp
  then have 1: "bound_text (t1, vars1)" using assms unfolding t1_def vars1_def by (intro bound_extend) auto
  define acc2 where "acc2 = (if restaurantTime = '''' then (t1, vars1)
    else (t1 @ '' We will be meeting there at {{restaurant_time}}.'', vars1(''restaurant_time'' \<mapsto> AString restaurantTime)))"
  have "closed_text '' We will be meeting there at {{restaurant_time}}.'' [''restaurant_time'']"
    using closed_wrapped [of "'' We will be meeting there at ''" "''restaurant_time''" "''.''"] by simp
  then have "bound_text (t1 @ '' We will be meeting there at {{restaurant_time}}.'', vars1(''restaurant_time'' \<mapsto> AString restaurantTime))"
    using 1 by (intro bound_extend) auto
  with 1 have 2: "bound_text (fst acc2, snd acc2)" "dom vars \<subseteq> dom (snd acc2)" by (auto simp: acc2_def vars1_def)
  define acc3 where "acc3 = writeVenueDetails ''restaurant'' restaurant acc2"
  have 3: "bound_text (fst acc3, snd acc3)" "dom vars \<subseteq> dom (snd acc3)"
    using writeVenueDetails_bound [OF 2(1), of "''restaurant''" restaurant] 2(2) by (auto simp: acc3_def)
  have "writeRestaurant restaurant restaurantTime (t, vars) = (fst acc3 @ newline @ newline, snd acc3)"
    by (simp add: writeRestaurant_def acc3_def acc2_def t1_def vars1_def Let_def)
  moreover have "bound_text (fst acc3 @ newline @ newline, snd acc3)"
    using 3(1) by (rule bound_extend [OF _ closed_plain]) auto
  ultimately show ?thesis using 3(2) by simp
qed

text \<open>What the text and the variables are before the line that only a personal email has.\<close>

lemma completion_text_bound:
  "\<exists>acc. bound_text acc \<and> {''venue_name'', ''event_date''} \<subseteq> dom (snd acc) \<and>
     cc_Variables (newCompletionContent venue restaurant eventDate restaurantTime baseURL rescheduled personal) = snd acc \<and>
     cc_Text (newCompletionContent venue restaurant eventDate restaurantTime baseURL rescheduled personal) =
       (if personal then fst acc @ completionUnsubscribe @ baseURL @ ''/preferences/{{uid}}'' else fst acc)"
proof -
  define vars0 where "vars0 = [''venue_name'' \<mapsto> AString (vp_Name venue), ''event_date'' \<mapsto> AString eventDate]"
  define t0 where "t0 = (if rescheduled then completionRescheduled else '''')"
  have 0: "bound_text (t0, vars0)" unfolding bound_text_def t0_def
    by (intro exI [of _ "[]"]) (auto simp: closed_literals closed_Nil)
  have base: "bound_text (t0 @ completionBase, vars0)" by (rule bound_extend [OF 0 closed_literals(2)]) auto
  define meal where "meal = (case restaurant of None \<Rightarrow> (t0 @ completionBase, vars0)
    | Some r \<Rightarrow> writeRestaurant r restaurantTime (t0 @ completionBase, vars0))"
  have meal: "bound_text (fst meal, snd meal)" "dom vars0 \<subseteq> dom (snd meal)"
    using base writeRestaurant_bound [OF base] by (auto simp: meal_def split: option.splits)
  define acc1 where "acc1 = (if venueType venue = ''event'' then (t0 @ completionEvent, vars0)
    else if venueType venue = ''restaurant'' then (t0 @ completionRestaurant, vars0)
    else (fst meal @ completionPub, snd meal))"
  have names: "set [''event_date'', ''venue_name''] \<subseteq> dom vars0" by (simp add: vars0_def)
  have pub: "bound_text (fst meal @ completionPub, snd meal)"
    by (rule bound_extend [OF meal(1) closed_literals(3)]) (use names meal(2) in auto)
  have event: "bound_text (t0 @ completionEvent, vars0)" by (rule bound_extend [OF 0 closed_literals(4) names]) auto
  have rest: "bound_text (t0 @ completionRestaurant, vars0)" by (rule bound_extend [OF 0 closed_literals(5) names]) auto
  have 1: "bound_text (fst acc1, snd acc1)" "dom vars0 \<subseteq> dom (snd acc1)"
    using pub event rest meal(2) by (auto simp: acc1_def)
  define acc2 where "acc2 = writeVenueDetails ''venue'' venue acc1"
  have 2: "bound_text acc2" "dom vars0 \<subseteq> dom (snd acc2)"
    using writeVenueDetails_bound [OF 1(1), of "''venue''" venue] 1(2) by (auto simp: acc2_def)
  have "cc_Variables (newCompletionContent venue restaurant eventDate restaurantTime baseURL rescheduled personal) = snd acc2"
    "cc_Text (newCompletionContent venue restaurant eventDate restaurantTime baseURL rescheduled personal) = (if personal then fst acc2 @ completionUnsubscribe @ baseURL @ ''/preferences/{{uid}}'' else fst acc2)"
    by (simp_all add: newCompletionContent_def acc2_def acc1_def meal_def t0_def vars0_def Let_def split: option.splits)
  moreover have "{''venue_name'', ''event_date''} \<subseteq> dom (snd acc2)" using 2(2) by (auto simp: vars0_def)
  ultimately show ?thesis using 2(1) by blast
qed

text \<open>
  Every placeholder of the subject and of the text of a completion email is bound, by the common
  variables of the request or, the identifier of the recipient, by the recipient's own. Whatever the names
  and addresses of the venues are, they do not end up in the template. The base URL contains no brace.
\<close>

theorem completion_content_bound:
  assumes "CHR ''{'' \<notin> set baseURL"
  shows "set (placeholders (cc_Subject (newCompletionContent venue restaurant eventDate restaurantTime baseURL rescheduled personal))) \<subseteq>
      dom (cc_Variables (newCompletionContent venue restaurant eventDate restaurantTime baseURL rescheduled personal)) \<and>
    set (placeholders (cc_Text (newCompletionContent venue restaurant eventDate restaurantTime baseURL rescheduled personal))) \<subseteq>
      dom (cc_Variables (newCompletionContent venue restaurant eventDate restaurantTime baseURL rescheduled personal)) \<union>
      (if personal then {''uid''} else {})"
proof -
  let ?c = "newCompletionContent venue restaurant eventDate restaurantTime baseURL rescheduled personal"
  obtain acc where acc: "bound_text acc" "{''venue_name'', ''event_date''} \<subseteq> dom (snd acc)" "cc_Variables ?c = snd acc"
    "cc_Text ?c = (if personal then fst acc @ completionUnsubscribe @ baseURL @ ''/preferences/{{uid}}'' else fst acc)"
    using completion_text_bound by blast
  obtain xs where xs: "closed_text (fst acc) xs" "set xs \<subseteq> dom (snd acc)" using acc(1) by (auto simp: bound_text_def)
  have "closed_text (fst acc @ completionUnsubscribe @ baseURL @ ''/preferences/{{uid}}'') (xs @ [''uid''])"
    using closed_append [OF xs(1) closed_wrapped [of "completionUnsubscribe @ baseURL @ ''/preferences/''" "''uid''" "[]"]] assms
    by (simp add: completionUnsubscribe_def)
  moreover have final: "placeholders t = names" if "closed_text t names" for t names
    using that [unfolded closed_text_def, rule_format, of "[]"] by simp
  ultimately have "set (placeholders (cc_Text ?c)) \<subseteq> dom (cc_Variables ?c) \<union> (if personal then {''uid''} else {})"
    using xs acc(3,4) final [OF xs(1)] by auto
  moreover have "set (placeholders (cc_Subject ?c)) = {''venue_name''}" by (simp add: newCompletionContent_def Let_def)
  then have "set (placeholders (cc_Subject ?c)) \<subseteq> dom (cc_Variables ?c)" using acc(2,3) by auto
  ultimately show ?thesis by blast
qed

definition demo_crown :: venue_projection where
  "demo_crown = \<lparr>vp_ID = ''v1'', vp_Name = ''The {{Crown}}'', vp_VenueType = ''pub'', vp_Website = ''https://crown.example'',
     vp_Map = [], vp_Address = ''1 High Street'', vp_PhotoURL = [], vp_RecurrenceJSON = [], vp_NextOccurrenceDate = []\<rparr>"

theorem completion_content_bound_witness:
  "set (placeholders (cc_Text (newCompletionContent demo_crown None ''2026-01-02'' [] ''https://ampubnight.org'' False True))) \<subseteq>
     dom (cc_Variables (newCompletionContent demo_crown None ''2026-01-02'' [] ''https://ampubnight.org'' False True)) \<union> {''uid''}"
  using completion_content_bound [of "''https://ampubnight.org''" demo_crown None "''2026-01-02''" "[]" False True] by simp

section \<open>A poll is pushed once\<close>

text \<open>
  What is relied on of the Firestore client: \<open>view\<close> is the content of its documents; a read returns it, and a
  union adds the value to the array of the field unless it is there, the rest of the document staying as it
  is.
\<close>

definition array_union :: "string \<Rightarrow> go_any \<Rightarrow> go_map \<Rightarrow> go_map" where
  "array_union field v m =
     m(field \<mapsto> AAnys (case m field of Some (AAnys xs) \<Rightarrow> if v \<in> set xs then xs else xs @ [v] | _ \<Rightarrow> [v]))"

definition history_ok :: "('f \<Rightarrow> string list \<rightharpoonup> go_map) \<Rightarrow> 'f action_documents \<Rightarrow> bool" where
  "history_ok view docs \<longleftrightarrow>
     (\<forall>ref f r f'. ad_Get docs ref f = (r, f') \<longrightarrow> view f' = view f \<and> (\<forall>doc. r = Inr doc \<longrightarrow> doc = view f ref)) \<and>
     (\<forall>ref field v f f'. ad_ArrayUnion docs ref field v f = (None, f') \<longrightarrow>
        view f' = (view f)(ref \<mapsto> array_union field v (case view f ref of None \<Rightarrow> Map.empty | Some m \<Rightarrow> m)))"

lemma recordOf_union: "\<not> NeedsAction (recordOf (array_union action (AString key) m)) action key"
  by (auto simp: NeedsAction_def recordOf_def array_union_def set_map_filter asString_def split: option.splits go_any.splits)

lemma marked_no_action:
  assumes "history_ok view docs" "actions_Mark docs collection pollID action key f = (None, f1)"
    and "actions_Get docs collection pollID f1 = (Inr r, f2)"
  shows "\<not> NeedsAction r action key"
proof -
  from assms(1,2) have "\<exists>m. view f1 [collection, pollID] = Some (array_union action (AString key) m)"
    by (auto simp: history_ok_def actions_Mark_def)
  then obtain m where "view f1 [collection, pollID] = Some (array_union action (AString key) m)" by blast
  with assms(1,3) have "r = recordOf (array_union action (AString key) m)"
    by (auto simp: history_ok_def actions_Get_def split: prod.splits sum.splits option.splits)
  with recordOf_union show ?thesis by simp
qed

lemma push_cellRequest_last:
  "push_cellRequest m (steps @ [s]) = Inr c \<Longrightarrow> cellStepFromStep m s = Inr (last (req_Steps c))"
  by (auto simp: push_cellRequest_def NewSequence_Inr res_map_Inr list_all2_append1 list_all2_Cons1 split: sum.splits)

lemma populate_marks:
  assumes "populate pc flt message now pollDate nid eps mark actor d = Complete requests ws" "ws \<noteq> []"
  shows "cellStepFromStep (pc_step pc) \<lparr>step_HandlerName = step_HandlerName mark, step_Payload = ThenPayload (step_Payload mark)\<rparr> =
    Inr (last (req_Steps (last requests)))"
proof -
  from assms(1) obtain n where n: "Populate (pc_step pc) flt n eps [mark] d = Inr (Complete requests ws)"
    by (auto simp: populate_def Let_def split: sum.splits)
  with assms(2) obtain cs c where c: "push_cellRequest (pc_step pc) (followUpSteps n eps [mark]) = Inr c" "requests = cs @ [c]"
    by (auto simp: Populate_def followUpSteps_def Let_def split: option.splits if_splits sum.splits)
  obtain pre where "followUpSteps n eps [mark] =
      pre @ [\<lparr>step_HandlerName = step_HandlerName mark, step_Payload = ThenPayload (step_Payload mark)\<rparr>]"
    by (simp add: followUpSteps_def)
  with push_cellRequest_last [of "pc_step pc" pre] c show ?thesis by simp
qed

definition completedPushMark :: "poll_observed \<Rightarrow> completion_mark" where
  "completedPushMark payload =
     \<lparr>cm_Collection = CompletionCollection, cm_PollID = po_PollID payload, cm_Action = ActionPush, cm_Key = completionKey payload\<rparr>"

lemma completed_push_populates:
  assumes "PollCompletedPush_Handle pc nd flt now payload d f = (Complete requests ws, f1)" "ws \<noteq> []"
  shows "\<exists>message nid eps. populate pc flt message now (po_PollDate payload) nid eps
      (markStep CompletionCollection (po_PollID payload) ActionPush (completionKey payload)) [po_CompletedByUID payload] d = Complete requests ws"
  using assms
  by (auto simp: PollCompletedPush_Handle_def Let_def split: if_splits prod.splits sum.splits)

text \<open>
  Handling a completed poll that is still to be pushed adds a cell whose last step marks the configuration
  of the poll as pushed; and once that mark is recorded, handling the poll again with the same configuration
  pushes nothing.
\<close>

theorem completed_poll_pushed_once:
  assumes "history_ok view (nd_Actions nd)"
  shows "(\<forall>requests ws f1. PollCompletedPush_Handle pc nd flt now payload d f = (Complete requests ws, f1) \<and> ws \<noteq> [] \<longrightarrow>
      HandlerName (last (req_Steps (last requests))) = HandlerCompletionMarked \<and>
      pc_step pc (ThenPayload (completedPushMark payload)) = Inr (Payload (last (req_Steps (last requests))))) \<and>
    (\<forall>f2 f3 res f4. CompletionMarked_Handle nd (completedPushMark payload) f2 = (Complete [] [] :: push_db result, f3) \<and>
       PollCompletedPush_Handle pc nd flt later payload d' f3 = (res, f4) \<longrightarrow>
       res = Complete [] [] \<or> (\<exists>e. res = ErrorResult ''read completion actions'' (Some e)))"
proof (intro conjI allI impI)
  fix requests ws f1
  assume h: "PollCompletedPush_Handle pc nd flt now payload d f = (Complete requests ws, f1) \<and> ws \<noteq> []"
  obtain message nid eps where "populate pc flt message now (po_PollDate payload) nid eps
      (markStep CompletionCollection (po_PollID payload) ActionPush (completionKey payload)) [po_CompletedByUID payload] d = Complete requests ws"
    using completed_push_populates [OF conjunct1 [OF h] conjunct2 [OF h]] by (elim exE)
  from populate_marks [OF this conjunct2 [OF h]]
  show "HandlerName (last (req_Steps (last requests))) = HandlerCompletionMarked"
    "pc_step pc (ThenPayload (completedPushMark payload)) = Inr (Payload (last (req_Steps (last requests))))"
    by (simp_all add: cellStepFromStep_Inr markStep_def completedPushMark_def)
next
  fix f2 f3 res f4
  assume a: "CompletionMarked_Handle nd (completedPushMark payload) f2 = (Complete [] [] :: push_db result, f3) \<and>
       PollCompletedPush_Handle pc nd flt later payload d' f3 = (res, f4)"
  then have "actions_Mark (nd_Actions nd) CompletionCollection (po_PollID payload) ActionPush (completionKey payload) f2 = (None, f3)"
    by (auto simp: CompletionMarked_Handle_def completedPushMark_def CompletionCollection_def split: prod.splits option.splits)
  note marked = marked_no_action [OF assms this]
  show "res = Complete [] [] \<or> (\<exists>e. res = ErrorResult ''read completion actions'' (Some e))"
  proof (cases "actions_Get (nd_Actions nd) CompletionCollection (po_PollID payload) f3")
    case (Pair x f5)
    with a marked show ?thesis by (cases x) (auto simp: PollCompletedPush_Handle_def Let_def split: if_splits)
  qed
qed

definition demo_action_docs :: "(string list \<rightharpoonup> go_map) action_documents" where
  "demo_action_docs = \<lparr>ad_Get = (\<lambda>ref f. (Inr (f ref), f)),
     ad_ArrayUnion = (\<lambda>ref field v f. (None, f(ref \<mapsto> array_union field v (case f ref of None \<Rightarrow> Map.empty | Some m \<Rightarrow> m))))\<rparr>"

definition demo_notify :: "(string list \<rightharpoonup> go_map) notify_deps" where
  "demo_notify = \<lparr>nd_Actions = demo_action_docs, nd_Venue = (\<lambda>_ f. (Inr demo_crown, f)),
     nd_Endpoints = (\<lambda>_ f. (Inr [demo_push_endpoint], f)), nd_EmailRecipients = (\<lambda>_ f. (Inr [], f)),
     nd_Completers = (\<lambda>f. (Inr [], f)), nd_BaseURL = DefaultBaseURL\<rparr>"

definition demo_poll_codecs :: poll_codecs where
  "demo_poll_codecs = \<lparr>pc_message = (\<lambda>_. Inr ''{}''), pc_step = (\<lambda>_. Inr ''{}''), pc_sha256 = (\<lambda>_. replicate 32 (CHR ''a''))\<rparr>"

definition demo_completed :: poll_observed where
  "demo_completed = \<lparr>po_CreatedByUID = ''u1'', po_CompletedByUID = ''u1'', po_PollID = ''p1'', po_ChangeKind = ''added'',
     po_SelectedVenueID = ''v1'', po_PollDate = ''2026-01-02'', po_SelectedRestaurantID = '''', po_SelectedRestaurantTime = ''''\<rparr>"

lemma demo_history: "history_ok id (nd_Actions demo_notify)"
  by (simp add: history_ok_def demo_notify_def demo_action_docs_def)

theorem completed_poll_pushed_once_witness:
  "\<exists>f3 res f4. CompletionMarked_Handle demo_notify (completedPushMark demo_completed) Map.empty = (Complete [] [] :: push_db result, f3) \<and>
     PollCompletedPush_Handle demo_poll_codecs demo_notify None 9 demo_completed [] f3 = (res, f4) \<and>
     (res = Complete [] [] \<or> (\<exists>e. res = ErrorResult ''read completion actions'' (Some e)))"
proof -
  obtain f3 where m: "CompletionMarked_Handle demo_notify (completedPushMark demo_completed) Map.empty = (Complete [] [] :: push_db result, f3)"
    by (simp add: CompletionMarked_Handle_def actions_Mark_def demo_notify_def demo_action_docs_def)
  obtain res f4 where h: "PollCompletedPush_Handle demo_poll_codecs demo_notify None 9 demo_completed [] f3 = (res, f4)" by fastforce
  from completed_poll_pushed_once [OF demo_history, THEN conjunct2, rule_format, OF conjI [OF m h]] m h
  show ?thesis by blast
qed

end
