(* ===== verification/PushEvents.thy ===== *)
theory PushEvents
  imports PollNotify
begin

text \<open>
  plugins/pushevents and components/pushsources: push notifications of chat messages and of the diagnostics
  page. The projection of the profiles is read through \<open>profiles\<close>, its answers at the time of the call; the
  Firestore documents through a record of operations on the environment. The JSON codec is a parameter.
\<close>

section \<open>Firestore data\<close>

record chat_history =
  ch_Exists :: bool
  ch_Processed :: bool
  ch_DeliveredEndpoints :: "string list"

definition Strings :: "go_any \<Rightarrow> string list" where
  "Strings raw = (case raw of AAnys values \<Rightarrow> List.map_filter asString values | _ \<Rightarrow> [])"

text \<open>
  What the source asks of the Firestore client: a document, \<open>None\<close> when it does not exist; the messages of an
  event's chat; merging fields into a document.
\<close>

record 'f push_documents =
  pd_Get :: "string \<Rightarrow> string \<Rightarrow> 'f \<Rightarrow> (gerror + go_map option) \<times> 'f"
  pd_Messages :: "string \<Rightarrow> 'f \<Rightarrow> (gerror + go_map list) \<times> 'f"
  pd_Merge :: "string \<Rightarrow> string \<Rightarrow> go_map \<Rightarrow> 'f \<Rightarrow> gerror option \<times> 'f"

text \<open>\<open>data[field]\<close> of a document that may be missing.\<close>

definition data_field :: "go_map option \<Rightarrow> string \<Rightarrow> go_any" where
  "data_field data field = go_index data field"

text \<open>\<open>keys\<close> gives the keys of a map in the order Go visits them.\<close>

definition CanCompletePollUserIDs :: "key_order \<Rightarrow> 'f push_documents \<Rightarrow> 'f \<Rightarrow> (gerror + string list) \<times> 'f" where
  "CanCompletePollUserIDs keys docs f =
     (case pd_Get docs ''roles'' ''canCompletePoll'' f of
        (Inl e, f1) \<Rightarrow> (Inl e, f1)
      | (Inr None, f1) \<Rightarrow> (Inr [], f1)
      | (Inr (Some data), f1) \<Rightarrow> (Inr (filter (\<lambda>u. boolField data u \<and> u \<noteq> '''') (keys data)), f1))"

definition AttendeeUserIDs :: "key_order \<Rightarrow> 'f push_documents \<Rightarrow> string \<Rightarrow> 'f \<Rightarrow> (gerror + string list) \<times> 'f" where
  "AttendeeUserIDs keys docs pollID f =
     (case pd_Get docs ''attendance'' pollID f of
        (Inl e, f1) \<Rightarrow> (Inl e, f1)
      | (Inr None, f1) \<Rightarrow> (Inr [], f1)
      | (Inr (Some data), f1) \<Rightarrow>
          (Inr (concat (map (\<lambda>k. Strings (go_index (mapField data k) ''canCome'')) (keys data))), f1))"

definition EventChatParticipantUserIDs :: "'f push_documents \<Rightarrow> string \<Rightarrow> 'f \<Rightarrow> (gerror + string list) \<times> 'f" where
  "EventChatParticipantUserIDs docs pollID f =
     (if pollID = '''' then (Inr [], f)
      else case pd_Messages docs pollID f of
        (Inl e, f1) \<Rightarrow> (Inl e, f1)
      | (Inr messages, f1) \<Rightarrow>
          (Inr (filter (\<lambda>u. u \<noteq> '''') (List.map_filter (\<lambda>m. asString (go_index (Some m) ''uid'')) messages)), f1))"

definition ChatHistory :: "'f push_documents \<Rightarrow> string \<Rightarrow> 'f \<Rightarrow> (gerror + chat_history) \<times> 'f" where
  "ChatHistory docs messageID f =
     (case pd_Get docs ''chat_push_actions'' messageID f of
        (Inl e, f1) \<Rightarrow> (Inl e, f1)
      | (Inr data, f1) \<Rightarrow>
          (Inr \<lparr>ch_Exists = (data \<noteq> None),
                ch_Processed = (case data of None \<Rightarrow> False | Some m \<Rightarrow> boolField m ''processed''),
                ch_DeliveredEndpoints = Strings (data_field data ''delivered_endpoints'')\<rparr>, f1))"

definition MarkChatProcessed :: "'f push_documents \<Rightarrow> string \<Rightarrow> string \<Rightarrow> string \<Rightarrow> 'f \<Rightarrow> gerror option \<times> 'f" where
  "MarkChatProcessed docs messageID scopeType scopeID f =
     (case ChatHistory docs messageID f of
        (Inl e, f1) \<Rightarrow> (Some e, f1)
      | (Inr history, f1) \<Rightarrow>
          pd_Merge docs ''chat_push_actions'' messageID
            ([''processed'' \<mapsto> ABool True, ''processedAt'' \<mapsto> ASentinel ''ServerTimestamp''] ++
             (if ch_Exists history then Map.empty
              else [''scopeType'' \<mapsto> AString scopeType, ''scopeId'' \<mapsto> AString scopeID,
                    ''createdAt'' \<mapsto> ASentinel ''ServerTimestamp''])) f1)"

definition PushTestAck :: "'f push_documents \<Rightarrow> string \<Rightarrow> 'f \<Rightarrow> (gerror + go_any option) \<times> 'f" where
  "PushTestAck docs userID f =
     (case pd_Get docs ''notification_ack'' ''push_test'' f of
        (Inl e, f1) \<Rightarrow> (Inl e, f1)
      | (Inr data, f1) \<Rightarrow> (Inr (case data of None \<Rightarrow> None | Some m \<Rightarrow> m userID), f1))"

definition AckPushTest :: "'f push_documents \<Rightarrow> string \<Rightarrow> go_any \<Rightarrow> 'f \<Rightarrow> gerror option \<times> 'f" where
  "AckPushTest docs userID value f = pd_Merge docs ''notification_ack'' ''push_test'' [userID \<mapsto> value] f"

definition DeletePushTestRequest :: "'f push_documents \<Rightarrow> string \<Rightarrow> 'f \<Rightarrow> gerror option \<times> 'f" where
  "DeletePushTestRequest docs userID f =
     pd_Merge docs ''notification_req'' ''push_test'' [userID \<mapsto> ASentinel ''Delete''] f"

section \<open>Chat messages\<close>

record chat_message =
  cm_MessageID :: string
  cm_ScopeType :: string
  cm_ScopeID :: string
  cm_AuthorUserID :: string
  cm_SenderName :: string
  cm_Text :: string

record chat_payload =
  cy_EventType :: string
  cy_MessageID :: string
  cy_PollID :: "string option"
  cy_Title :: string
  cy_Body :: string
  cy_URL :: string
  cy_Tag :: string
  cy_SentAt :: string

record chat_processed =
  cx_MessageID :: string
  cx_ScopeType :: string
  cx_ScopeID :: string

record profiles =
  pf_Endpoints :: "selector \<Rightarrow> gerror + push_endpoint list"
  pf_Preferences :: "string \<Rightarrow> gerror + user_preferences"

definition shortTTL :: go_duration where "shortTTL = Hour"
definition chatBodyLength :: nat where "chatBodyLength = 100"

definition EndpointHash :: "(string \<Rightarrow> string) \<Rightarrow> push_endpoint \<Rightarrow> string" where
  "EndpointHash sha256 ep = take 32 (hex_encode (sha256 (ep_UserID ep @ ''__'' @ ep_URL ep)))"

definition senderName :: "string \<Rightarrow> string" where
  "senderName name = (if name = '''' then ''Someone'' else name)"

definition truncateRunes :: "string \<Rightarrow> nat \<Rightarrow> string" where
  "truncateRunes t n = (let rs = runes t in if length rs \<le> n then t else string_of_runes (take n rs))"

text \<open>The loop over the endpoints; \<open>muted\<close> is what is already known of the users' preferences.\<close>

fun selectEndpoints ::
  "(string \<Rightarrow> string) \<Rightarrow> (string \<Rightarrow> gerror + user_preferences) \<Rightarrow> string set option \<Rightarrow> string \<Rightarrow> string \<Rightarrow> string list \<Rightarrow>
     (string \<rightharpoonup> bool) \<Rightarrow> push_endpoint list \<Rightarrow> gerror + push_endpoint list" where
  "selectEndpoints sha256 prefs members scopeID author delivered muted [] = Inr []"
| "selectEndpoints sha256 prefs members scopeID author delivered muted (ep # eps) =
     (if ep_UserID ep = author \<or> EndpointHash sha256 ep \<in> set delivered
      then selectEndpoints sha256 prefs members scopeID author delivered muted eps
      else case members of
        None \<Rightarrow>
          (case selectEndpoints sha256 prefs members scopeID author delivered muted eps of
             Inl e \<Rightarrow> Inl e | Inr selected \<Rightarrow> Inr (ep # selected))
      | Some ms \<Rightarrow>
          if ep_UserID ep \<notin> ms then selectEndpoints sha256 prefs members scopeID author delivered muted eps
          else
            (case (case muted (ep_UserID ep) of
                     Some b \<Rightarrow> Inr b
                   | None \<Rightarrow> (case prefs (ep_UserID ep) of Inl e \<Rightarrow> Inl e | Inr p \<Rightarrow> Inr (MutedFor p scopeID))) of
               Inl e \<Rightarrow> Inl e
             | Inr isMuted \<Rightarrow>
                 (case selectEndpoints sha256 prefs members scopeID author delivered (muted(ep_UserID ep \<mapsto> isMuted)) eps of
                    Inl e \<Rightarrow> Inl e
                  | Inr selected \<Rightarrow> Inr (if isMuted then selected else ep # selected))))"

definition chat_recipients ::
  "(string \<Rightarrow> string) \<Rightarrow> key_order \<Rightarrow> 'f push_documents \<Rightarrow> profiles \<Rightarrow> string \<Rightarrow> string \<Rightarrow> string \<Rightarrow> chat_history \<Rightarrow>
     push_endpoint list \<Rightarrow> 'f \<Rightarrow> (gerror + push_endpoint list) \<times> 'f" where
  "chat_recipients sha256 keys docs pf scopeType scopeID author history eps f =
     (if scopeType = ''event''
      then (case AttendeeUserIDs keys docs scopeID f of
              (Inl e, f1) \<Rightarrow> (Inl e, f1)
            | (Inr attendees, f1) \<Rightarrow>
                (case EventChatParticipantUserIDs docs scopeID f1 of
                   (Inl e, f2) \<Rightarrow> (Inl e, f2)
                 | (Inr participants, f2) \<Rightarrow>
                     (selectEndpoints sha256 (pf_Preferences pf) (Some (set (attendees @ participants))) scopeID author
                        (ch_DeliveredEndpoints history) Map.empty eps, f2)))
      else (selectEndpoints sha256 (pf_Preferences pf) None scopeID author (ch_DeliveredEndpoints history) Map.empty eps, f))"

record push_codecs =
  px_chat :: "chat_payload \<Rightarrow> gerror + string"
  px_chatStep :: "chat_processed push_payload \<Rightarrow> gerror + string"
  px_sha256 :: "string \<Rightarrow> string"

definition HandlerChatProcessed :: handler_name where "HandlerChatProcessed = ''pushevents.chat_processed''"

text \<open>The scope a message is treated as: an event's chat, or the global one.\<close>

definition chat_scope :: "chat_message \<Rightarrow> string \<times> string \<times> string" where
  "chat_scope message =
     (if cm_ScopeType message = ''event''
      then (''event'', KindEventChat, if cm_ScopeID message \<noteq> '''' then cm_ScopeID message else ''main'')
      else (''global'', KindGlobalChat, ''main''))"

definition chatMessagePayload :: "string \<Rightarrow> go_time \<Rightarrow> chat_message \<Rightarrow> chat_payload" where
  "chatMessagePayload baseURL now message =
     (case chat_scope message of
        (scopeType, kind, scopeID) \<Rightarrow>
          (let event = (scopeType = ''event'') in
           \<lparr>cy_EventType = (if event then ''chat_message_sent_event'' else ''chat_message_sent_global''),
            cy_MessageID = cm_MessageID message, cy_PollID = (if event then Some scopeID else None),
            cy_Title = senderName (cm_SenderName message) @ (if event then '' in Event Chat'' else '' in Global Chat''),
            cy_Body = truncateRunes (cm_Text message) chatBodyLength,
            cy_URL = baseURL @ (if event then ''/chat/event/'' @ scopeID else ''/chat''),
            cy_Tag = ''chat:'' @ (if event then scopeID else ''main''), cy_SentAt = formatRFC3339Nano now\<rparr>))"

definition ChatPush_Handle ::
  "push_codecs \<Rightarrow> key_order \<Rightarrow> 'f push_documents \<Rightarrow> profiles \<Rightarrow> string \<Rightarrow> gerror option \<Rightarrow> go_time \<Rightarrow> chat_message \<Rightarrow>
     push_db \<Rightarrow> 'f \<Rightarrow> push_db result \<times> 'f" where
  "ChatPush_Handle px keys docs pf baseURL flt now message d f =
     (if cm_MessageID message = '''' then (Complete [] [], f)
      else case ChatHistory docs (cm_MessageID message) f of
        (Inl e, f1) \<Rightarrow> (ErrorResult ''read chat push history'' (Some e), f1)
      | (Inr history, f1) \<Rightarrow>
          if ch_Processed history then (Complete [] [], f1)
          else (case chat_scope message of (scopeType, kind, scopeID) \<Rightarrow>
      (case pf_Endpoints pf \<lparr>sel_Kind = kind, sel_UserIDs = []\<rparr> of
        Inl e \<Rightarrow> (ErrorResult ''select chat push endpoints'' (Some e), f1)
      | Inr eligible \<Rightarrow>
      (case chat_recipients (px_sha256 px) keys docs pf scopeType scopeID (cm_AuthorUserID message) history eligible f1 of
        (Inl e, f2) \<Rightarrow> (ErrorResult ''select chat push recipients'' (Some e), f2)
      | (Inr eps, f2) \<Rightarrow>
      (case px_chat px (chatMessagePayload baseURL now message) of
        Inl e \<Rightarrow> (ErrorResult ''encode chat push payload'' (Some e), f2)
      | Inr encoded \<Rightarrow>
      (case Populate (px_chatStep px) flt
              \<lparr>nt_Purpose = (if scopeType = ''event'' then PurposeEventChat else PurposeGlobalChat), nt_ActorUID = '''',
               nt_ID = ''chat:'' @ cm_MessageID message, nt_Message = encoded,
               nt_Topic = Topic (px_sha256 px) (''chat-'' @ cy_Tag (chatMessagePayload baseURL now message)),
               nt_ExpiresAt = now + shortTTL\<rparr> eps
              [\<lparr>step_HandlerName = HandlerChatProcessed,
                step_Payload = \<lparr>cx_MessageID = cm_MessageID message, cx_ScopeType = scopeType, cx_ScopeID = scopeID\<rparr>\<rparr>] d of
        Inl e \<Rightarrow> (ErrorResult ''populate chat push'' (Some e), f2)
      | Inr result \<Rightarrow> (result, f2)))))))"

definition ChatProcessed_Handle :: "'f push_documents \<Rightarrow> chat_processed \<Rightarrow> 'f \<Rightarrow> 'db result \<times> 'f" where
  "ChatProcessed_Handle docs processed f =
     (case MarkChatProcessed docs (cx_MessageID processed) (cx_ScopeType processed) (cx_ScopeID processed) f of
        (Some e, f1) \<Rightarrow> (ErrorResult ''mark chat push processed'' (Some e), f1)
      | (None, f1) \<Rightarrow> (Complete [] [], f1))"

section \<open>The diagnostics page\<close>

definition HandlerPushTestCompleted :: handler_name where "HandlerPushTestCompleted = ''pushevents.push_test_completed''"

record push_test_requested =
  pt_UserID :: string
  pt_Value :: string

record diagnostic_payload =
  dp_EventType :: string
  dp_Title :: string
  dp_Body :: string
  dp_URL :: string
  dp_Tag :: string
  dp_RequestedValue :: string
  dp_SentAt :: string

record push_test_completed =
  pw_NotificationID :: string
  pw_UserID :: string
  pw_Value :: string

text \<open>
  The codec: \<open>pt_marshal\<close> and \<open>pt_unmarshal\<close> of a value, \<open>pt_firestore\<close> the decoder that keeps whole numbers
  as integers, and the encoders of the payloads.
\<close>

record test_codecs =
  pt_marshal :: "go_any \<Rightarrow> gerror + string"
  pt_unmarshal :: "string \<Rightarrow> gerror + go_any"
  pt_firestore :: "string \<Rightarrow> gerror + go_any"
  pt_diagnostic :: "diagnostic_payload \<Rightarrow> gerror + string"
  pt_step :: "push_test_completed push_payload \<Rightarrow> gerror + string"
  pt_sha256 :: "string \<Rightarrow> string"

definition push_sameJSON :: "test_codecs \<Rightarrow> go_any \<Rightarrow> string \<Rightarrow> bool" where
  "push_sameJSON tc stored value =
     (case pt_marshal tc stored of
        Inl _ \<Rightarrow> False
      | Inr encoded \<Rightarrow>
          (case (pt_unmarshal tc encoded, pt_unmarshal tc value) of
             (Inr left, Inr right) \<Rightarrow>
               (case pt_marshal tc left of Inl _ \<Rightarrow> '''' | Inr t \<Rightarrow> t) = (case pt_marshal tc right of Inl _ \<Rightarrow> '''' | Inr t \<Rightarrow> t)
           | _ \<Rightarrow> False))"

definition PushTest_Handle ::
  "test_codecs \<Rightarrow> 'f push_documents \<Rightarrow> profiles \<Rightarrow> string \<Rightarrow> gerror option \<Rightarrow> go_time \<Rightarrow> push_test_requested \<Rightarrow>
     push_db \<Rightarrow> 'f \<Rightarrow> push_db result \<times> 'f" where
  "PushTest_Handle tc docs pf baseURL flt now request d f =
     (if pt_UserID request = '''' then (Complete [] [], f)
      else case PushTestAck docs (pt_UserID request) f of
        (Inl e, f1) \<Rightarrow> (ErrorResult ''read push test ack'' (Some e), f1)
      | (Inr acked, f1) \<Rightarrow>
          if (case acked of None \<Rightarrow> False | Some v \<Rightarrow> push_sameJSON tc v (pt_Value request))
          then (case DeletePushTestRequest docs (pt_UserID request) f1 of
                  (Some e, f2) \<Rightarrow> (ErrorResult ''clear push test request'' (Some e), f2)
                | (None, f2) \<Rightarrow> (Complete [] [], f2))
          else
      (case pf_Endpoints pf \<lparr>sel_Kind = KindDiagnostic, sel_UserIDs = [pt_UserID request]\<rparr> of
        Inl e \<Rightarrow> (ErrorResult ''select push test endpoints'' (Some e), f1)
      | Inr eps \<Rightarrow>
      (case pt_diagnostic tc
              \<lparr>dp_EventType = ''diagnostic_push_test'', dp_Title = ''Push diagnostics'',
               dp_Body = ''This is a test push notification from admin diagnostics.'',
               dp_URL = baseURL @ ''/diagnostics'', dp_Tag = ''push-diagnostic:'' @ pt_UserID request,
               dp_RequestedValue = pt_Value request, dp_SentAt = formatRFC3339Nano now\<rparr> of
        Inl e \<Rightarrow> (ErrorResult ''encode push test payload'' (Some e), f1)
      | Inr encoded \<Rightarrow>
          (let notificationID = ''push-test:'' @ pt_UserID request @ '':'' @ pt_Value request in
           case Populate (pt_step tc) flt
                  \<lparr>nt_Purpose = '''', nt_ActorUID = '''', nt_ID = notificationID, nt_Message = encoded,
                   nt_Topic = Topic (pt_sha256 tc) (''diag-'' @ pt_UserID request), nt_ExpiresAt = now + shortTTL\<rparr> eps
                  [\<lparr>step_HandlerName = HandlerPushTestCompleted,
                    step_Payload = \<lparr>pw_NotificationID = notificationID, pw_UserID = pt_UserID request,
                                    pw_Value = pt_Value request\<rparr>\<rparr>] d of
             Inl e \<Rightarrow> (ErrorResult ''populate push test'' (Some e), f1)
           | Inr result \<Rightarrow> (result, f1)))))"

text \<open>The end of the handler, after the acknowledgement if one is due.\<close>

definition clearPushTest :: "'f push_documents \<Rightarrow> string \<Rightarrow> 'f \<Rightarrow> 'db result \<times> 'f" where
  "clearPushTest docs userID f =
     (case DeletePushTestRequest docs userID f of
        (Some e, f1) \<Rightarrow> (ErrorResult ''clear push test request'' (Some e), f1)
      | (None, f1) \<Rightarrow> (Complete [] [], f1))"

definition PushTestCompleted_Handle ::
  "test_codecs \<Rightarrow> 'f push_documents \<Rightarrow> gerror option \<Rightarrow> push_test_completed \<Rightarrow> push_db \<Rightarrow> 'f \<Rightarrow> push_db result \<times> 'f" where
  "PushTestCompleted_Handle tc docs flt completed d f =
     (case Accepted flt (pw_NotificationID completed) d of
        Inl e \<Rightarrow> (ErrorResult ''count accepted push test deliveries'' (Some e), f)
      | Inr accepted \<Rightarrow>
          if accepted > 0
          then (case pt_firestore tc (pw_Value completed) of
                  Inl e \<Rightarrow> (ErrorResult ''decode push test value'' (Some e), f)
                | Inr value \<Rightarrow>
                    (case AckPushTest docs (pw_UserID completed) value f of
                       (Some e, f1) \<Rightarrow> (ErrorResult ''acknowledge push test'' (Some e), f1)
                     | (None, f1) \<Rightarrow> clearPushTest docs (pw_UserID completed) f1))
          else clearPushTest docs (pw_UserID completed) f)"

section \<open>Who is notified of a chat message\<close>

text \<open>Truncating counts characters, and never cuts one in two.\<close>

lemma truncate_runes: "runes (truncateRunes t n) = take n (runes t)"
proof -
  have "list_all valid_rune (take n (runes t))"
    using runes_valid by (auto simp: list_all_iff dest!: in_set_takeD)
  then show ?thesis by (simp add: truncateRunes_def Let_def runes_string_of_runes)
qed

text \<open>The rule the loop implements, with the preferences \<open>prefs\<close> of the users.\<close>

definition wants_chat ::
  "(string \<Rightarrow> string) \<Rightarrow> (string \<Rightarrow> gerror + user_preferences) \<Rightarrow> string set option \<Rightarrow> string \<Rightarrow> string \<Rightarrow> string list \<Rightarrow>
     push_endpoint \<Rightarrow> bool" where
  "wants_chat sha256 prefs members scopeID author delivered ep \<longleftrightarrow>
     ep_UserID ep \<noteq> author \<and> EndpointHash sha256 ep \<notin> set delivered \<and>
     (case members of
        None \<Rightarrow> True
      | Some ms \<Rightarrow> ep_UserID ep \<in> ms \<and> (\<forall>p. prefs (ep_UserID ep) = Inr p \<longrightarrow> \<not> MutedFor p scopeID))"

definition muted_ok :: "(string \<Rightarrow> gerror + user_preferences) \<Rightarrow> string \<Rightarrow> (string \<rightharpoonup> bool) \<Rightarrow> bool" where
  "muted_ok prefs scopeID muted \<longleftrightarrow> (\<forall>u b. muted u = Some b \<longrightarrow> (\<exists>p. prefs u = Inr p \<and> b = MutedFor p scopeID))"

lemma muted_ok_insert: "muted_ok prefs scopeID muted \<Longrightarrow> prefs u = Inr p \<Longrightarrow> muted_ok prefs scopeID (muted(u \<mapsto> MutedFor p scopeID))"
  by (simp add: muted_ok_def)

lemma selectEndpoints_spec:
  assumes "muted_ok prefs scopeID muted"
    and "selectEndpoints sha256 prefs members scopeID author delivered muted eps = Inr selected"
  shows "selected = filter (wants_chat sha256 prefs members scopeID author delivered) eps"
  using assms
proof (induction eps arbitrary: muted selected)
  case (Cons ep eps)
  let ?sel = "\<lambda>m. selectEndpoints sha256 prefs members scopeID author delivered m eps"
  show ?case
  proof (cases "ep_UserID ep = author \<or> EndpointHash sha256 ep \<in> set delivered")
    case True
    then show ?thesis using Cons.prems Cons.IH [OF Cons.prems(1)] by (auto simp: wants_chat_def)
  next
    case fresh: False
    show ?thesis
    proof (cases members)
      case None
      with fresh Cons.prems obtain rest where "?sel muted = Inr rest" "selected = ep # rest" by (auto split: sum.splits)
      with fresh None Cons.IH [OF Cons.prems(1)] show ?thesis by (auto simp: wants_chat_def)
    next
      case (Some ms)
      show ?thesis
      proof (cases "ep_UserID ep \<in> ms")
        case False
        with fresh Some Cons.prems Cons.IH [OF Cons.prems(1)] show ?thesis by (auto simp: wants_chat_def)
      next
        case True
        with fresh Some Cons.prems(2) obtain b rest
          where b: "(case muted (ep_UserID ep) of Some b \<Rightarrow> Inr b
              | None \<Rightarrow> (case prefs (ep_UserID ep) of Inl e \<Rightarrow> Inl e | Inr p \<Rightarrow> Inr (MutedFor p scopeID))) = Inr b"
            and r: "?sel (muted(ep_UserID ep \<mapsto> b)) = Inr rest" and s: "selected = (if b then rest else ep # rest)"
          by (auto split: sum.splits)
        from b Cons.prems(1) obtain p where p: "prefs (ep_UserID ep) = Inr p" and bp: "b = MutedFor p scopeID"
          unfolding muted_ok_def by (cases "muted (ep_UserID ep)") (auto split: sum.splits)
        note rest = r [unfolded bp] and sel = s [unfolded bp]
        from Cons.IH [OF muted_ok_insert [OF Cons.prems(1) p] rest] True fresh Some p sel show ?thesis
          by (auto simp: wants_chat_def)
      qed
    qed
  qed
qed simp

text \<open>
  C33: the endpoints a chat message is pushed to are, of the eligible ones and in their order, those of
  other users than its author that have not been served before; in an event's chat only those of attendees and
  participants who have not muted the event. Looking up a user's preferences once per message does not
  change that.
\<close>

theorem chat_push_recipients:
  assumes "chat_recipients sha256 keys docs pf scopeType scopeID author history eps f = (Inr selected, f')"
  shows "\<exists>members. (members = None \<longleftrightarrow> scopeType \<noteq> ''event'') \<and>
    (\<forall>ms. members = Some ms \<longrightarrow> (\<exists>attendees f1 participants. AttendeeUserIDs keys docs scopeID f = (Inr attendees, f1) \<and>
       EventChatParticipantUserIDs docs scopeID f1 = (Inr participants, f') \<and> ms = set attendees \<union> set participants)) \<and>
    selected = filter (wants_chat sha256 (pf_Preferences pf) members scopeID author (ch_DeliveredEndpoints history)) eps"
proof -
  have m: "muted_ok (pf_Preferences pf) scopeID Map.empty" by (simp add: muted_ok_def)
  show ?thesis
  proof (cases "scopeType = ''event''")
    case False
    with assms have "selectEndpoints sha256 (pf_Preferences pf) None scopeID author (ch_DeliveredEndpoints history) Map.empty eps = Inr selected"
      by (simp add: chat_recipients_def)
    from selectEndpoints_spec [OF m this] False show ?thesis by (intro exI [of _ None]) simp
  next
    case True
    with assms obtain attendees f1 participants where a: "AttendeeUserIDs keys docs scopeID f = (Inr attendees, f1)"
      "EventChatParticipantUserIDs docs scopeID f1 = (Inr participants, f')"
      and "selectEndpoints sha256 (pf_Preferences pf) (Some (set (attendees @ participants))) scopeID author
        (ch_DeliveredEndpoints history) Map.empty eps = Inr selected"
      by (auto simp: chat_recipients_def split: prod.splits sum.splits)
    from selectEndpoints_spec [OF m this(3)] a True show ?thesis by (intro exI [of _ "Some (set (attendees @ participants))"]) auto
  qed
qed

definition demo_chat_docs :: "unit push_documents" where
  "demo_chat_docs = \<lparr>pd_Get = (\<lambda>_ _ f. (Inr None, f)), pd_Messages = (\<lambda>_ f. (Inr [[''uid'' \<mapsto> AString ''u1''], [''uid'' \<mapsto> AString ''u2'']], f)),
     pd_Merge = (\<lambda>_ _ _ f. (None, f))\<rparr>"

definition demo_profiles :: profiles where
  "demo_profiles = \<lparr>pf_Endpoints = (\<lambda>_. Inr []), pf_Preferences = (\<lambda>u. Inr \<lparr>up_UserID = u, up_WebPushEnabled = True,
     up_PollOpens = True, up_PollCompletes = True, up_GlobalChat = True, up_EventChat = True, up_EventChatMutedPollIDs = [],
     up_NotificationEmail = '''', up_OpenPollEmailEnabled = False, up_NotificationEmailEnabled = False, up_UpdatedAt = 0\<rparr>)\<rparr>"

definition demo_history_none :: chat_history where
  "demo_history_none = \<lparr>ch_Exists = False, ch_Processed = False, ch_DeliveredEndpoints = []\<rparr>"

abbreviation demo_other :: push_endpoint where
  "demo_other \<equiv> demo_push_endpoint\<lparr>ep_UserID := ''u2''\<rparr>"

lemma demo_chat_run:
  "chat_recipients (\<lambda>s. s) (\<lambda>_. []) demo_chat_docs demo_profiles ''event'' ''p1'' ''u1'' demo_history_none
     [demo_push_endpoint, demo_other] () = (Inr [demo_other], ())"
  by (simp add: chat_recipients_def AttendeeUserIDs_def EventChatParticipantUserIDs_def demo_chat_docs_def demo_profiles_def
      demo_history_none_def demo_push_endpoint_def map_filter_simps go_index_def asString_def MutedFor_def)

theorem chat_push_recipients_witness:
  "\<exists>members. members \<noteq> None \<and>
     [demo_other] = filter (wants_chat (\<lambda>s. s) (pf_Preferences demo_profiles) members ''p1'' ''u1'' (ch_DeliveredEndpoints demo_history_none))
       [demo_push_endpoint, demo_other]"
  using chat_push_recipients [OF demo_chat_run] by blast

end
