(* ===== verification/EmailPlugin.thy ===== *)
theory EmailPlugin
  imports EmailSend RateLimit Diagnostics Utf8
begin

text \<open>
  plugins/email and plugins/testemail: which client a durable email is submitted through while notifications are silenced, and the
  daily allowance it is charged to. The clients of the providers, the settings and the token source are what
  the plugin was built with.
\<close>

section \<open>The plugin\<close>

definition ClientDummy :: string where "ClientDummy = ''dummy''"
definition ClientMailtrap :: string where "ClientMailtrap = ''mailtrap''"
definition ClientSweego :: string where "ClientSweego = ''sweego''"

record ('v, 'e) email_plugin =
  pg_clientKind :: string
  pg_client :: "('v, 'e) email_client"
  pg_suppressedClient :: "('v, 'e) email_client"
  pg_settings :: "('e \<Rightarrow> settings \<times> bool) option"
  pg_acquireN :: "int \<Rightarrow> 'e \<Rightarrow> (int \<times> gerror option) \<times> 'e"

text \<open>\<open>m[k]\<close> on a map of strings.\<close>

definition string_index :: "string_map \<Rightarrow> string \<Rightarrow> string" where
  "string_index m k = (case m k of None \<Rightarrow> '''' | Some v \<Rightarrow> v)"

definition actorException :: "settings \<Rightarrow> submission \<Rightarrow> bool" where
  "actorException s sub \<longleftrightarrow> SilenceNotifications s \<and> sub_RecipientCount sub = 1 \<and>
     (string_index (sub_Metadata sub) ''purpose'' = PurposePollOpened \<or>
      string_index (sub_Metadata sub) ''purpose'' = PurposePollCompleted) \<and>
     AllowsLive s (string_index (sub_Metadata sub) ''purpose'') (string_index (sub_Metadata sub) ''actor_uid'')
       (string_index (sub_Metadata sub) ''recipient_uid'')"

definition submissionPolicy ::
  "('v, 'e) email_plugin \<Rightarrow> submission \<Rightarrow> 'e \<Rightarrow> (gerror + ('v, 'e) submission_decision) \<times> 'e" where
  "submissionPolicy p sub e =
     (case (case pg_settings p of None \<Rightarrow> (no_settings, True) | Some f \<Rightarrow> f e) of
        (settings, known) \<Rightarrow>
          if \<not> known then (Inr \<lparr>sd_Client = None, sd_BestEffort = False, sd_Delay = Second\<rparr>, e)
          else if SilenceNotifications settings \<and> \<not> actorException settings sub
          then (Inr \<lparr>sd_Client = Some (pg_suppressedClient p), sd_BestEffort = True, sd_Delay = 0\<rparr>, e)
          else (Inr \<lparr>sd_Client = Some (pg_client p), sd_BestEffort = False, sd_Delay = 0\<rparr>, e))"

text \<open>\<open>errors.As(err, &oversized)\<close> follows the chain of wrapped errors.\<close>

fun as_capacity_error :: "gerror \<Rightarrow> bool" where
  "as_capacity_error (RequestExceedsCapacityError n c m) = True"
| "as_capacity_error (Wrapped e m) = as_capacity_error e"
| "as_capacity_error (Joined a b) = (as_capacity_error a \<or> as_capacity_error b)"
| "as_capacity_error _ = False"

definition guardSubmission :: "('v, 'e) email_plugin \<Rightarrow> submission \<Rightarrow> 'e \<Rightarrow> (gerror + go_duration) \<times> 'e" where
  "guardSubmission p sub e =
     (let token = sub_Token sub in
      if HasPrefix token ''test-email:'' then (Inr 0, e)
      else if HasPrefix token ''poll-opened:'' \<or> HasPrefix token ''poll-completed:''
      then (case pg_acquireN p (sub_RecipientCount sub) e of
              ((wait, err), e') \<Rightarrow>
                (case err of
                   Some x \<Rightarrow> if as_capacity_error x then (Inr (24 * Hour), e') else (Inl x, e')
                 | None \<Rightarrow>
                     if wait < 0 then (Inl (Err ''email send token source returned a negative wait''), e')
                     else (Inr (wrap64 (wait * Second)), e')))
      else (Inl (Err (''email request has no rate limit policy: '' @ token)), e))"

text \<open>The Post handler as \<open>Register\<close> configures it.\<close>

definition plugin_post :: "('v, 'e) email_plugin \<Rightarrow> ('v, 'e) post_handler" where
  "plugin_post p = \<lparr>ph_Client = pg_client p, ph_Guard = Some (guardSubmission p), ph_Policy = Some (submissionPolicy p)\<rparr>"

section \<open>Test emails\<close>

text \<open>plugins/testemail: an email to the user who asks for it, and the acknowledgement that follows it.\<close>

definition HandlerTestEmailAcked :: handler_name where "HandlerTestEmailAcked = ''testemail.acked''"

definition testEmailSubject :: string where "testEmailSubject = ''Pub Night Picker test email''"
definition testEmailBody :: string where
  "testEmailBody =
     ''This is a test email from Pub Night Picker, requested from the Diagnostics page.'' @ [CHR 0x0A] @
     ''If you are reading this, notification emails are reaching you.'' @ [CHR 0x0A]"

record test_email_requested =
  te_UserID :: string
  te_RequestID :: string
  te_Email :: string

record ack_payload =
  ak_UserID :: string
  ak_RequestID :: string

datatype 'v test_step = TestSend "'v send_payload" | TestAck ack_payload

definition testEmailRequest :: "'v \<Rightarrow> test_email_requested \<Rightarrow> 'v send_request" where
  "testEmailRequest none request =
     \<lparr>rq_IdempotencyToken = ''test-email:'' @ te_UserID request @ '':'' @ te_RequestID request,
      rq_SenderEmail = ''ampubnight@contable.co.uk'', rq_SenderName = ''ampubnight notification emails'',
      rq_Subject = testEmailSubject, rq_TemplateID = '''', rq_Text = testEmailBody, rq_Variables = none,
      rq_Headers = Map.empty, rq_Metadata = Map.empty,
      rq_Recipients = [\<lparr>sr_UserID = te_UserID request, sr_Email = te_Email request, sr_Name = '''', sr_Variables = none\<rparr>]\<rparr>"

text \<open>\<open>none\<close> is the nil map of variables, \<open>acquire\<close> the token source.\<close>

definition TestEmail_Handle ::
  "('v test_step \<Rightarrow> gerror + string) \<Rightarrow> 'v \<Rightarrow> ('e \<Rightarrow> int \<times> 'e) \<Rightarrow> test_email_requested \<Rightarrow> 'e \<Rightarrow> 'db result \<times> 'e" where
  "TestEmail_Handle marshalJSON none acquire request e =
     (if te_UserID request = '''' \<or> te_RequestID request = '''' then (Complete [] [], e)
      else
        let ack = \<lparr>step_HandlerName = HandlerTestEmailAcked,
                    step_Payload = TestAck \<lparr>ak_UserID = te_UserID request, ak_RequestID = te_RequestID request\<rparr>\<rparr>;
            build = (\<lambda>steps. case NewSequence marshalJSON steps of
                       Inl err \<Rightarrow> ErrorResult ''build test email send'' (Some err)
                     | Inr (Inl err) \<Rightarrow> ErrorResult ''build test email send'' (Some err)
                     | Inr (Inr cell) \<Rightarrow> Complete [cell] [])
        in if te_Email request = '''' then (build [ack], e)
           else (case acquire e of
                   (wait, e1) \<Rightarrow>
                     if wait \<noteq> 0 then (Complete [] [], e1)
                     else (build (map (\<lambda>s. \<lparr>step_HandlerName = step_HandlerName s, step_Payload = TestSend (step_Payload s)\<rparr>)
                                    (NewSendSequence (testEmailRequest none request)) @ [ack]), e1)))"

definition TestEmailAcked_Handle ::
  "(string \<Rightarrow> string \<Rightarrow> 'e \<Rightarrow> gerror option \<times> 'e) \<Rightarrow> ack_payload \<Rightarrow> 'e \<Rightarrow> 'db result \<times> 'e" where
  "TestEmailAcked_Handle ackTestEmail payload e =
     (case ackTestEmail (ak_UserID payload) (ak_RequestID payload) e of
        (Some err, e1) \<Rightarrow> (ErrorResult ''acknowledge test email'' (Some err), e1)
      | (None, e1) \<Rightarrow> (Complete [] [], e1))"

section \<open>Silence\<close>

text \<open>The settings the plugin sees, and that they silence notifications.\<close>

definition plugin_silenced :: "('e \<Rightarrow> settings \<times> bool) option \<Rightarrow> 'e \<Rightarrow> bool" where
  "plugin_silenced settings e \<longleftrightarrow>
     (case settings of None \<Rightarrow> False | Some f \<Rightarrow> snd (f e) \<and> SilenceNotifications (fst (f e)))"

lemma actorException_metadata:
  "actorException s sub \<Longrightarrow> sub_RecipientCount sub = 1 \<and> NotifyPollActorWhenSilenced s \<and>
     string_index (sub_Metadata sub) ''actor_uid'' \<noteq> '''' \<and>
     string_index (sub_Metadata sub) ''recipient_uid'' = string_index (sub_Metadata sub) ''actor_uid''"
  by (auto simp: actorException_def AllowsLive_def purpose_defs)

lemma policy_silenced:
  assumes "pg_settings p = Some f" "f e = (s, True)" "SilenceNotifications s" "\<not> actorException s sub"
  shows "submissionPolicy p sub e = (Inr \<lparr>sd_Client = Some (pg_suppressedClient p), sd_BestEffort = True, sd_Delay = 0\<rparr>, e)"
  using assms by (simp add: submissionPolicy_def)

text \<open>
  While notifications are silenced, a Post either behaves the same whatever the live client is, so never
  uses it, or submits to a single recipient who is the actor of the poll and has asked to be notified.
\<close>

theorem silenced_email_never_live:
  fixes p :: "('v, 'e) email_plugin"
  assumes "pg_settings p = Some f" "f e = (s, True)" "SilenceNotifications s"
  shows "(\<forall>c. PostHandler_Handle flts um umm (plugin_post p) now token d e =
        PostHandler_Handle flts um umm (plugin_post (p\<lparr>pg_client := c\<rparr>)) now token d e) \<or>
    (\<exists>r common. pendingRecipients (flts ReadPending) um token d = Inr [r] \<and>
       readRequest (flts ReadRequest) um umm token d = Inr common \<and> NotifyPollActorWhenSilenced s \<and>
       string_index (dr_metadata common) ''actor_uid'' \<noteq> '''' \<and>
       string_index (dr_metadata common) ''recipient_uid'' = string_index (dr_metadata common) ''actor_uid'')"
proof (cases "\<exists>pending common. pendingRecipients (flts ReadPending) um token d = Inr pending \<and>
    readRequest (flts ReadRequest) um umm token d = Inr common \<and>
    actorException s \<lparr>sub_Token = token, sub_RecipientCount = int (length pending), sub_Metadata = dr_metadata common\<rparr>")
  case True
  then obtain pending common where p: "pendingRecipients (flts ReadPending) um token d = Inr pending"
    "readRequest (flts ReadRequest) um umm token d = Inr common"
    "actorException s \<lparr>sub_Token = token, sub_RecipientCount = int (length pending), sub_Metadata = dr_metadata common\<rparr>"
    by blast
  from actorException_metadata [OF p(3)] have "length pending = 1" by simp
  then obtain r where "pending = [r]" by (auto simp: length_Suc_conv)
  with p actorException_metadata [OF p(3)] show ?thesis by auto
next
  case False
  have post: "PostHandler_Handle flts um umm (plugin_post q) now token d e =
      (case hasUnresolved (flts ReadUnresolved) token d of
         Inl err \<Rightarrow> (ErrorResult ''read recovery state'' (Some err), d, e)
       | Inr True \<Rightarrow> (RetrySequence 0 [] [], d, e)
       | Inr False \<Rightarrow>
      (case pendingRecipients (flts ReadPending) um token d of
         Inl err \<Rightarrow> (ErrorResult ''read pending recipients'' (Some err), d, e)
       | Inr pending \<Rightarrow>
           if pending = [] then (Complete [] [], d, e)
           else
      (case readRequest (flts ReadRequest) um umm token d of
         Inl err \<Rightarrow> (ErrorResult ''read durable email request'' (Some err), d, e)
       | Inr common \<Rightarrow> bestEffortPost (flts WriteBestEffort) token common pending (pg_suppressedClient q) d e)))"
    if "pg_settings q = Some f" for q :: "('v, 'e) email_plugin"
    using False policy_silenced [OF that assms(2,3)]
    by (auto simp: PostHandler_Handle_def plugin_post_def postDecided_def Let_def split: sum.splits bool.splits)
  have "PostHandler_Handle flts um umm (plugin_post p) now token d e =
      PostHandler_Handle flts um umm (plugin_post (p\<lparr>pg_client := c\<rparr>)) now token d e" for c
  proof -
    have "pg_settings (p\<lparr>pg_client := c\<rparr>) = Some f" "pg_suppressedClient (p\<lparr>pg_client := c\<rparr>) = pg_suppressedClient p"
      using assms(1) by simp_all
    then show ?thesis by (simp only: post assms(1))
  qed
  then show ?thesis by blast
qed

definition demo_plugin :: "(unit, nat) email_plugin" where
  "demo_plugin = \<lparr>pg_clientKind = ClientDummy, pg_client = (\<lambda>m e. (Inr [''id''], e + 1)),
     pg_suppressedClient = (\<lambda>m e. (Inr [''id''], e)),
     pg_settings = Some (\<lambda>_. (no_settings\<lparr>SilenceNotifications := True\<rparr>, True)), pg_acquireN = (\<lambda>n e. ((0, None), e))\<rparr>"

theorem silenced_email_never_live_witness:
  "\<forall>c. PostHandler_Handle (\<lambda>_ _. None) (\<lambda>_. Inr ()) (\<lambda>_. Inr Map.empty) (plugin_post demo_plugin) 5 ''poll-opened:1'' NewEmailDb 0 =
     PostHandler_Handle (\<lambda>_ _. None) (\<lambda>_. Inr ()) (\<lambda>_. Inr Map.empty) (plugin_post (demo_plugin\<lparr>pg_client := c\<rparr>)) 5 ''poll-opened:1'' NewEmailDb 0"
proof -
  have "pg_settings demo_plugin = Some (\<lambda>_. (no_settings\<lparr>SilenceNotifications := True\<rparr>, True))" by (simp add: demo_plugin_def)
  from silenced_email_never_live [OF this, where e = 0 and s = "no_settings\<lparr>SilenceNotifications := True\<rparr>" and
      flts = "\<lambda>_ _. None" and um = "\<lambda>_. Inr ()" and umm = "\<lambda>_. Inr Map.empty" and now = 5 and token = "''poll-opened:1''" and d = NewEmailDb]
  have "(\<forall>c. PostHandler_Handle (\<lambda>_ _. None) (\<lambda>_. Inr ()) (\<lambda>_. Inr Map.empty) (plugin_post demo_plugin) 5 ''poll-opened:1'' NewEmailDb 0 =
     PostHandler_Handle (\<lambda>_ _. None) (\<lambda>_. Inr ()) (\<lambda>_. Inr Map.empty) (plugin_post (demo_plugin\<lparr>pg_client := c\<rparr>)) 5 ''poll-opened:1'' NewEmailDb 0) \<or>
     NotifyPollActorWhenSilenced (no_settings\<lparr>SilenceNotifications := True\<rparr>)"
    by auto
  then show ?thesis by (simp add: no_settings_def)
qed

end
