(* ===== verification/Timer.thy ===== *)
theory Timer
  imports Runtime Calendar
begin

text \<open>
  timer.go: a uniquely named durable timer, as one cell that retries itself at its next deadline.
  The JSON codec of the configuration and \<open>time.LoadLocation\<close> are parameters. Deadlines of a
  fixed-rate timer are computed with 64-bit durations, written out. A zero interval, which \<open>NewTimer\<close>
  refuses, would make the division of a fixed-rate deadline panic and is outside the definition.
\<close>

section \<open>Configuration\<close>

type_synonym timer_mode = string

definition TimerFixedDelay :: timer_mode where "TimerFixedDelay = ''fixed-delay''"
definition TimerFixedRate :: timer_mode where "TimerFixedRate = ''fixed-rate''"
definition TimerDailyCalendar :: timer_mode where "TimerDailyCalendar = ''daily-calendar''"

lemmas timer_mode_defs = TimerFixedDelay_def TimerFixedRate_def TimerDailyCalendar_def

record timer_config =
  tc_Interval :: go_duration
  tc_Mode :: timer_mode
  tc_DailyAt :: string
  tc_Location :: string

text \<open>A callback changes the environment and may return an error.\<close>

type_synonym 'e timer_callback = "'e \<Rightarrow> gerror option \<times> 'e"

record 'e timer =
  tm_name :: handler_name
  tm_config :: timer_config
  tm_callback :: "'e timer_callback"

definition parseDailyAt :: "string \<Rightarrow> gerror + int \<times> int" where
  "parseDailyAt value =
     (case parseClock value of None \<Rightarrow> Inl (Err ''parsing time'') | Some hm \<Rightarrow> Inr hm)"

definition timerCellID :: "handler_name \<Rightarrow> cell_id" where
  "timerCellID name = ''timer:'' @ name"

definition NewTimer ::
  "(string \<Rightarrow> gerror + location) \<Rightarrow> handler_name \<Rightarrow> timer_config \<Rightarrow> 'e timer_callback option \<Rightarrow>
     gerror + 'e timer" where
  "NewTimer loadLocation name config callback =
     (if name = '''' then Inl ErrHandlerNameRequired
      else if tc_Mode config \<noteq> TimerFixedDelay \<and> tc_Mode config \<noteq> TimerFixedRate \<and>
              tc_Mode config \<noteq> TimerDailyCalendar
      then Inl ErrTimerModeInvalid
      else
        let configured =
          (if tc_Mode config = TimerDailyCalendar
           then (case parseDailyAt (tc_DailyAt config) of
                   Inl _ \<Rightarrow> Some ErrTimerDailyAtInvalid
                 | Inr _ \<Rightarrow>
                     (case loadLocation (tc_Location config) of
                        Inl _ \<Rightarrow> Some ErrTimerLocationInvalid
                      | Inr _ \<Rightarrow> None))
           else if tc_Interval config \<le> 0 then Some ErrTimerIntervalInvalid else None)
        in case configured of
             Some e \<Rightarrow> Inl e
           | None \<Rightarrow>
               (case callback of
                  None \<Rightarrow> Inl ErrTimerCallbackNil
                | Some f \<Rightarrow> Inr \<lparr>tm_name = name, tm_config = config, tm_callback = f\<rparr>))"

section \<open>Deadlines\<close>

definition nextFixedRateDeadline :: "go_time \<Rightarrow> go_time \<Rightarrow> go_duration \<Rightarrow> go_time" where
  "nextFixedRateDeadline previous now interval =
     (let next = previous + interval in
      if time_After next now then next
      else
        let missed = wrap64 (time_Sub now previous sdiv interval + 1)
        in previous + wrap64 (missed * interval))"

definition nextCalendarDeadline ::
  "(string \<Rightarrow> gerror + location) \<Rightarrow> go_time \<Rightarrow> timer_config \<Rightarrow> gerror + go_time" where
  "nextCalendarDeadline loadLocation now config =
     (case parseDailyAt (tc_DailyAt config) of
        Inl e \<Rightarrow> Inl e
      | Inr (hour, minute) \<Rightarrow>
          (case loadLocation (tc_Location config) of
             Inl e \<Rightarrow> Inl e
           | Inr loc \<Rightarrow>
               (let c = localCivil loc now;
                    deadline = time_Date loc (cv_Year c) (cv_Month c) (cv_Day c) hour minute 0 0
                in Inr (if \<not> time_After deadline now
                        then time_Date loc (cv_Year c) (cv_Month c) (cv_Day c + 1) hour minute 0 0
                        else deadline))))"

section \<open>Running and scheduling\<close>

definition timer_Execute ::
  "(string \<Rightarrow> gerror + location) \<Rightarrow> (string \<Rightarrow> gerror + timer_config) \<Rightarrow> go_time \<Rightarrow>
     'e timer_callback option \<Rightarrow> cell \<Rightarrow> 'e \<Rightarrow> 'db result \<times> 'e" where
  "timer_Execute loadLocation unmarshal now callback c e =
     (case unmarshal (currentStepPayload c) of
        Inl err \<Rightarrow> (ErrorResult ''decode timer payload'' (Some err), e)
      | Inr payload \<Rightarrow>
          (case callback of
             None \<Rightarrow> (ErrorResult ''execute timer callback'' (Some ErrTimerCallbackNil), e)
           | Some f \<Rightarrow>
               (case f e of
                  (Some err, e') \<Rightarrow> (Complete [] [], e')
                | (None, e') \<Rightarrow>
                    if tc_Mode payload = TimerDailyCalendar
                    then (case nextCalendarDeadline loadLocation now payload of
                            Inl err \<Rightarrow> (ErrorResult ''calculate calendar timer deadline'' (Some err), e')
                          | Inr next \<Rightarrow> (Retry (Some next) [] [], e'))
                    else if tc_Mode payload = TimerFixedRate
                    then (case NotBefore c of
                            Some previous \<Rightarrow>
                              (Retry (Some (nextFixedRateDeadline previous now (tc_Interval payload))) [] [], e')
                          | None \<Rightarrow> (Retry (Some (now + tc_Interval payload)) [] [], e'))
                    else (Retry (Some (now + tc_Interval payload)) [] [], e'))))"

definition timer_Inspect ::
  "(string \<Rightarrow> gerror + timer_config) \<Rightarrow> timer_config \<Rightarrow> cell \<Rightarrow> timer_config inspection" where
  "timer_Inspect unmarshal zero c = typedJSON_Inspect unmarshal zero c"

definition Timer_Register ::
  "(string \<Rightarrow> gerror + location) \<Rightarrow> (string \<Rightarrow> gerror + timer_config) \<Rightarrow> timer_config \<Rightarrow> go_time \<Rightarrow>
     'e timer option \<Rightarrow> ('s, 'e, 'db, timer_config) cellar option \<Rightarrow>
     gerror option \<times> ('s, 'e, 'db, timer_config) cellar option" where
  "Timer_Register loadLocation unmarshal zero now t c =
     (case c of
        None \<Rightarrow> (Some ErrCellarNil, None)
      | Some cl \<Rightarrow>
          (case t of
             None \<Rightarrow> (Some ErrTimerNil, Some cl)
           | Some tm \<Rightarrow>
               if cl_started cl then (Some ErrCellarStarted, Some cl)
               else (case Registry_Register (tm_name tm)
                           (Some \<lparr>Execute = timer_Execute loadLocation unmarshal now (Some (tm_callback tm)),
                                  Inspect = timer_Inspect unmarshal zero\<rparr>) (cl_registry cl) of
                       (None, g) \<Rightarrow> (None, Some (cl\<lparr>cl_registry := g\<rparr>))
                     | (Some err, g) \<Rightarrow>
                         (Some (if errors_Is err ErrHandlerAlreadyRegistered
                                then Wrapped ErrTimerAlreadyExists (tm_name tm) else err),
                          Some (cl\<lparr>cl_registry := g\<rparr>)))))"

text \<open>The due time of the first occurrence.\<close>

definition firstDeadline ::
  "(string \<Rightarrow> gerror + location) \<Rightarrow> go_time \<Rightarrow> timer_config \<Rightarrow> gerror + go_time" where
  "firstDeadline loadLocation now config =
     (if tc_Mode config = TimerDailyCalendar then nextCalendarDeadline loadLocation now config
      else Inr (now + tc_Interval config))"

definition Timer_Schedule ::
  "(string \<Rightarrow> gerror + location) \<Rightarrow> (timer_config \<Rightarrow> gerror + string) \<Rightarrow> go_time \<Rightarrow> 'e timer option \<Rightarrow>
     ('s, 'e, 'db, 'v) cellar option \<Rightarrow> (gerror + cell_id) \<times> ('s, 'e, 'db, 'v) cellar option" where
  "Timer_Schedule loadLocation marshalJSON now t c =
     (case c of
        None \<Rightarrow> (Inl ErrCellarNil, None)
      | Some cl \<Rightarrow>
          (case t of
             None \<Rightarrow> (Inl ErrTimerNil, Some cl)
           | Some tm \<Rightarrow>
          (case cl_ops cl of
             None \<Rightarrow> (Inl ErrStoreNil, Some cl)
           | Some ops \<Rightarrow>
          (case marshalJSON (tm_config tm) of
             Inl e \<Rightarrow> (Inl (Wrapped e ''encode timer payload''), Some cl)
           | Inr payload \<Rightarrow>
               (case firstDeadline loadLocation now (tm_config tm) of
                  Inl e \<Rightarrow> (Inl (Wrapped e ''calculate calendar timer deadline''), Some cl)
                | Inr notBefore \<Rightarrow>
                    (case ops_Add ops now [\<lparr>req_Steps = [\<lparr>HandlerName = tm_name tm, Payload = payload\<rparr>],
                                 req_ID = timerCellID (tm_name tm), req_NotBefore = Some notBefore\<rparr>]
                            (cl_store cl) of
                       (Inl e, s') \<Rightarrow>
                         (Inl (if errors_Is e ErrCellAlreadyExists
                               then Wrapped ErrTimerAlreadyExists (tm_name tm) else e),
                          Some (cl\<lparr>cl_store := s'\<rparr>))
                     | (Inr ids, s') \<Rightarrow>
                         (Inr (timerCellID (tm_name tm)), Some (cl\<lparr>cl_store := s'\<rparr>))))))))"

section \<open>Fixed-rate deadlines\<close>

lemma missed_ticks:
  assumes "interval > 0" "previous + interval \<le> now" "now - previous + interval < 2 ^ 63"
  shows "nextFixedRateDeadline previous now interval =
    previous + ((now - previous) div interval + 1) * interval"
proof -
  let ?m = "(now - previous) div interval + 1"
  have n: "0 \<le> now - previous" "interval < 2 ^ 63" using assms by linarith+
  have sub: "time_Sub now previous = now - previous" by (rule time_Sub_exact) (use assms n in linarith)
  have q: "(now - previous) sdiv interval = (now - previous) div interval"
    using assms(1) n(1) by (simp add: signed_divide_int_def sgn_if)
  have le: "?m * interval \<le> now - previous + interval"
    using pos_mod_sign [OF assms(1), of "now - previous"] div_mult_mod_eq [of "now - previous" interval]
    unfolding distrib_right by linarith
  have m: "0 \<le> ?m" using assms(1) n(1) by (simp add: pos_imp_zdiv_nonneg_iff)
  then have "?m * 1 \<le> ?m * interval" using assms(1) by (intro mult_left_mono) auto
  with m have "wrap64 ?m = ?m" "wrap64 (?m * interval) = ?m * interval"
    using le assms(3) by (auto intro!: wrap64_id)
  with assms(2) show ?thesis by (simp add: nextFixedRateDeadline_def Let_def time_After_def sub q)
qed

text \<open>
  A fixed-rate timer fires next strictly in the future, at most one interval away, and stays on its
  grid: the deadline is a whole number of intervals after the previous one, however many ticks were
  missed. The bound says that the time since the previous deadline fits a duration, 292 years.
\<close>

theorem fixed_rate_deadline:
  assumes "interval > 0" "previous \<le> now" "now - previous + interval < 2 ^ 63"
  shows "now < nextFixedRateDeadline previous now interval \<and>
    nextFixedRateDeadline previous now interval \<le> now + interval \<and>
    (\<exists>k \<ge> 1. nextFixedRateDeadline previous now interval = previous + k * interval)"
proof (cases "previous + interval > now")
  case True
  then have "nextFixedRateDeadline previous now interval = previous + 1 * interval"
    by (simp add: nextFixedRateDeadline_def time_After_def)
  with True assms(2) show ?thesis by (intro conjI exI [of _ 1]) simp_all
next
  case False
  let ?q = "(now - previous) div interval"
  have eq: "nextFixedRateDeadline previous now interval = previous + (?q + 1) * interval"
    using missed_ticks [OF assms(1) _ assms(3)] False by simp
  have "?q * interval + (now - previous) mod interval = now - previous" by (rule div_mult_mod_eq)
  moreover have "0 \<le> (now - previous) mod interval" "(now - previous) mod interval < interval"
    using assms(1) by simp_all
  moreover have "0 \<le> ?q" using assms(1,2) by (simp add: pos_imp_zdiv_nonneg_iff)
  ultimately show ?thesis
    unfolding eq distrib_right by (intro conjI exI [of _ "?q + 1"]) (linarith, linarith, simp, simp add: distrib_right)
qed

theorem fixed_rate_deadline_witness:
  "165 < nextFixedRateDeadline 100 165 30 \<and> nextFixedRateDeadline 100 165 30 \<le> 165 + 30 \<and>
   nextFixedRateDeadline 100 165 30 = 190"
  using fixed_rate_deadline [of 30 100 165] by (simp add: missed_ticks)

section \<open>Calendar deadlines\<close>

text \<open>Offsets that never differ by more than an hour, as summer time makes them.\<close>

definition offsets_close :: "location \<Rightarrow> bool" where
  "offsets_close loc \<longleftrightarrow> (\<forall>u v. \<bar>loc u - loc v\<bar> \<le> 3600)"

lemma zoned_offset: "\<exists>v. zoned loc u = u - loc v"
  by (auto simp: zoned_def Let_def intro: exI [of _ u])

lemma getnum_bounds: "getnum fixed s = Some (n, rest) \<Longrightarrow> 0 \<le> n"
  by (auto simp: getnum_def split: list.splits if_splits)

lemma parseClock_bounds: "parseClock s = Some (h, m) \<Longrightarrow> 0 \<le> h \<and> h < 24 \<and> 0 \<le> m \<and> m < 60"
  by (auto simp: parseClock_def dest: getnum_bounds split: option.splits prod.splits if_splits)

text \<open>
  A daily timer set for one o'clock or later fires next strictly in the future and at most 25 hours
  away, on the days of a clock change too, in every location whose offsets differ by at most an
  hour.
\<close>

theorem calendar_deadline:
  assumes "nextCalendarDeadline loadLocation now config = Inr t"
    and "loadLocation (tc_Location config) = Inr loc" "offsets_close loc"
    and "parseDailyAt (tc_DailyAt config) = Inr (hour, minute)" "1 \<le> hour"
  shows "now < t \<and> t \<le> now + 25 * Hour"
proof -
  define day where "day = localDay loc now"
  define q where "q = hour * 3600 + minute * 60"
  define D where "D k = time_Date loc (cv_Year (civilOf day)) (cv_Month (civilOf day)) (cv_Day (civilOf day) + k) hour minute 0 0" for k
  have t: "t = (if D 0 > now then D 0 else D 1)"
    using assms(1,2,4) by (auto simp: nextCalendarDeadline_def D_def localCivil_def day_def time_After_def Let_def)
  have "0 \<le> hour" "hour < 24" "0 \<le> minute" "minute < 60"
    using assms(4) parseClock_bounds by (auto simp: parseDailyAt_def split: option.splits)
  then have q: "3600 \<le> q" "q < 86400" using assms(5) by (auto simp: q_def)
  have "D k = zoned loc ((day + k) * 86400 + q) * Second" for k
    using civilDays_civilOf [of day] by (simp add: D_def time_Date_def dateDays_add civilDays_def q_def add.assoc)
  then have "\<exists>v. D k = ((day + k) * 86400 + q - loc v) * Second" for k
    using zoned_offset [of loc "(day + k) * 86400 + q"] by metis
  then obtain v0 v1 where D: "D 0 = (day * 86400 + q - loc v0) * Second" "D 1 = ((day + 1) * 86400 + q - loc v1) * Second"
    by (metis add.right_neutral)
  define s where "s = unix now"
  have s: "s * Second \<le> now" "now < (s + 1) * Second"
    using div_mult_mod_eq [of now Second] pos_mod_sign [OF Second_pos, of now] pos_mod_bound [OF Second_pos, of now]
    unfolding s_def unix_def distrib_right by linarith+
  have "day * 86400 \<le> s + loc s" "s + loc s < (day + 1) * 86400"
    using div_mult_mod_eq [of "s + loc s" 86400] by (auto simp: day_def localDay_def localSeconds_def s_def)
  moreover have "\<bar>loc v0 - loc s\<bar> \<le> 3600" "\<bar>loc v1 - loc s\<bar> \<le> 3600" "\<bar>loc v0 - loc v1\<bar> \<le> 3600"
    using assms(3) unfolding offsets_close_def by blast+
  ultimately have b: "day * 86400 + q - loc v0 \<le> s + 90000" "(day + 1) * 86400 + q - loc v1 > s"
    "(day + 1) * 86400 + q - loc v1 \<le> day * 86400 + q - loc v0 + 90000"
    using q by (linarith, linarith, simp add: abs_le_iff)
  have "D 0 \<le> s * Second + 25 * Hour" "(s + 1) * Second \<le> D 1" "D 1 \<le> D 0 + 25 * Hour"
    using b by (auto simp: D Hour_def Second_def)
  then show ?thesis using s by (auto simp: t)
qed

text \<open>A daily timer at half past nine across the start of summer time in London: 29 March 2026.\<close>

definition demo_daily :: timer_config where
  "demo_daily = \<lparr>tc_Interval = 0, tc_Mode = TimerDailyCalendar, tc_DailyAt = ''09:30'', tc_Location = ''Europe/London''\<rparr>"

lemma offsets_close_london2026: "offsets_close london2026"
  by (simp add: offsets_close_def london2026_def)

theorem calendar_deadline_witness:
  "\<exists>t. nextCalendarDeadline (\<lambda>_. Inr london2026) (1774690260 * Second) demo_daily = Inr t \<and>
     1774690260 * Second < t \<and> t \<le> 1774690260 * Second + 25 * Hour \<and> t = 1774773000 * Second"
proof -
  have p: "parseDailyAt (tc_DailyAt demo_daily) = Inr (9, 30)"
    by (simp add: parseDailyAt_def demo_daily_def parseClock_def getnum_def skip_def isDigit_def char_digit_def)
  have t: "nextCalendarDeadline (\<lambda>_. Inr london2026) (1774690260 * Second) demo_daily = Inr (1774773000 * Second)"
    by (simp add: nextCalendarDeadline_def p Let_def) code_simp
  with calendar_deadline [OF t refl offsets_close_london2026 p] show ?thesis by simp
qed

section \<open>Scheduling once\<close>

lemma Add_existing:
  assumes "wf_steps (req_Steps r)" "req_ID r \<noteq> ''''" "cells s (req_ID r) \<noteq> None"
  shows "Add nxt [r] s = (Inl (Wrapped ErrCellAlreadyExists (req_ID r)), s)"
  using assms by (auto simp: Add_def buildNewCellsLocked_def split: option.splits simp flip: validateCellRequest_None)

lemma Add_new:
  assumes "wf_steps (req_Steps r)" "req_ID r \<noteq> ''''" "cells s (req_ID r) = None"
  shows "\<exists>s'. Add nxt [r] s = (Inr [req_ID r], s') \<and> cells s' = (cells s)(req_ID r \<mapsto> newCell r)"
  using assms
  by (auto simp: Add_def buildNewCellsLocked_def insertCells_def insertCell_def split: option.splits
      simp flip: validateCellRequest_None)

text \<open>
  On the memory store a timer that \<open>NewTimer\<close> made has at most one active occurrence. Scheduling it
  when it has none adds the cell that is its occurrence, ready and due at its first deadline;
  scheduling it again fails with \<open>ErrTimerAlreadyExists\<close> and changes nothing.
\<close>

theorem timer_scheduled_once:
  assumes "NewTimer loadLocation name config callback = Inr tm" "marshalJSON config = Inr payload"
    and "cl_ops cl = Some (memory_ops nxt)"
  shows "\<exists>cl1 r. Timer_Schedule loadLocation marshalJSON now (Some tm) (Some cl) = (r, Some cl1) \<and>
    Timer_Schedule loadLocation marshalJSON later (Some tm) (Some cl1) =
      (Inl (Wrapped ErrTimerAlreadyExists name), Some cl1) \<and>
    (if cells (cl_store cl) (timerCellID name) = None
     then r = Inr (timerCellID name) \<and> (\<exists>c. cells (cl_store cl1) = (cells (cl_store cl))(timerCellID name \<mapsto> c) \<and>
            State c = CellStateReady \<and> NotBefore c \<noteq> None \<and> Steps c = [\<lparr>HandlerName = name, Payload = payload\<rparr>])
     else r = Inl (Wrapped ErrTimerAlreadyExists name) \<and> cl1 = cl)"
proof -
  from assms(1) have tm: "tm_name tm = name" "tm_config tm = config" "name \<noteq> ''''"
    by (auto simp: NewTimer_def Let_def split: if_splits option.splits sum.splits)
  have due: "\<exists>t. firstDeadline loadLocation n config = Inr t" for n
    using assms(1) by (auto simp: firstDeadline_def NewTimer_def nextCalendarDeadline_def Let_def split: if_splits option.splits sum.splits)
  let ?req = "\<lambda>t. \<lparr>req_Steps = [\<lparr>HandlerName = name, Payload = payload\<rparr>], req_ID = timerCellID name,
      req_NotBefore = Some t\<rparr>"
  have wf: "wf_steps (req_Steps (?req t))" "req_ID (?req t) \<noteq> ''''" for t
    using tm(3) by (simp_all add: wf_steps_def timerCellID_def)
  have again: "Timer_Schedule loadLocation marshalJSON n (Some tm) (Some cl') =
      (Inl (Wrapped ErrTimerAlreadyExists name), Some cl')"
    if "cl_ops cl' = Some (memory_ops nxt)" "cells (cl_store cl') (timerCellID name) \<noteq> None" for n cl'
  proof -
    obtain t where t: "firstDeadline loadLocation n config = Inr t" using due by blast
    have "Add nxt [?req t] (cl_store cl') = (Inl (Wrapped ErrCellAlreadyExists (timerCellID name)), cl_store cl')"
      using Add_existing [OF wf, of "cl_store cl'" t nxt] that(2) by simp
    then show ?thesis by (simp add: Timer_Schedule_def that(1) assms(2) tm t memory_ops_def Let_def)
  qed
  show ?thesis
  proof (cases "cells (cl_store cl) (timerCellID name) = None")
    case False
    with again [OF assms(3)] show ?thesis by simp
  next
    case True
    obtain t where t: "firstDeadline loadLocation now config = Inr t" using due by blast
    from Add_new [OF wf, of "cl_store cl" t nxt] True obtain s' where s': "Add nxt [?req t] (cl_store cl) =
        (Inr [timerCellID name], s')" "cells s' = (cells (cl_store cl))(timerCellID name \<mapsto> newCell (?req t))"
      by auto
    have "Timer_Schedule loadLocation marshalJSON now (Some tm) (Some cl) =
        (Inr (timerCellID name), Some (cl\<lparr>cl_store := s'\<rparr>))"
      by (simp add: Timer_Schedule_def assms(2,3) tm t memory_ops_def Let_def s'(1))
    moreover have "Timer_Schedule loadLocation marshalJSON later (Some tm) (Some (cl\<lparr>cl_store := s'\<rparr>)) =
        (Inl (Wrapped ErrTimerAlreadyExists name), Some (cl\<lparr>cl_store := s'\<rparr>))"
      by (rule again) (simp_all add: assms(3) s'(2))
    ultimately show ?thesis using True s'(2)
      by (intro exI [of _ "cl\<lparr>cl_store := s'\<rparr>"] exI [of _ "Inr (timerCellID name)"]) (auto simp: newCell_def)
  qed
qed

definition demo_rate :: timer_config where
  "demo_rate = \<lparr>tc_Interval = 30, tc_Mode = TimerFixedRate, tc_DailyAt = '''', tc_Location = ''''\<rparr>"

definition demo_timer :: "unit timer" where
  "demo_timer = \<lparr>tm_name = ''tick'', tm_config = demo_rate, tm_callback = Pair None\<rparr>"

definition demo_timer_cellar :: "(sequential_allocator memory_store, unit, unit, unit) cellar" where
  "demo_timer_cellar = NewCellar (Some (memory_ops SequentialAllocator_Next)) (NewMemoryStore (NewSequentialAllocator ''c'' 1))"

theorem timer_scheduled_once_witness:
  "\<exists>cl1. Timer_Schedule (\<lambda>_. Inr UTC) (\<lambda>_. Inr ''{}'') 5 (Some demo_timer) (Some demo_timer_cellar) =
      (Inr ''timer:tick'', Some cl1) \<and>
    Timer_Schedule (\<lambda>_. Inr UTC) (\<lambda>_. Inr ''{}'') 9 (Some demo_timer) (Some cl1) =
      (Inl (Wrapped ErrTimerAlreadyExists ''tick''), Some cl1)"
proof -
  have t: "NewTimer (\<lambda>_. Inr UTC) ''tick'' demo_rate (Some (Pair None)) = Inr demo_timer"
    by (simp add: NewTimer_def demo_rate_def demo_timer_def timer_mode_defs)
  have c: "cl_ops demo_timer_cellar = Some (memory_ops SequentialAllocator_Next)"
    "cells (cl_store demo_timer_cellar) (timerCellID ''tick'') = None"
    by (simp_all add: demo_timer_cellar_def NewCellar_def NewMemoryStore_def)
  from timer_scheduled_once [OF t _ c(1), of "\<lambda>_. Inr ''{}''" "''{}''" 5 9] c(2) show ?thesis
    by (auto simp: timerCellID_def)
qed

end
