(* ===== verification/Listeners.thy ===== *)
theory Listeners
  imports PushEvents EmailPlugin Timer
begin

text \<open>
  database/listeners and components/listenerscope: the listeners that observe Firestore and turn what they
  see into truths, through the idempotency components; the mirror of notification requests; the cutoff date
  of the poll listeners; the life cycle the listeners share.

  A watch is modelled by what its stream yields: batches of changes, and at the end an error. Encoders are
  parameters. \<open>uuid n\<close> is what the \<open>n\<close>-th call of \<open>uuid.NewString\<close> returns.
\<close>

section \<open>Life cycle\<close>

record controller =
  lc_started :: bool
  lc_closed :: bool
  lc_cancelled :: bool

definition NewController :: controller where
  "NewController = \<lparr>lc_started = False, lc_closed = False, lc_cancelled = False\<rparr>"

text \<open>The context of the worker is cancelled by \<open>Close\<close>, which then waits for the worker to return.\<close>

definition Controller_Start :: "controller \<Rightarrow> gerror option \<times> controller" where
  "Controller_Start c =
     (if lc_closed c then (Some (Err ''listener is closed''), c)
      else if lc_started c then (Some (Err ''listener is already started''), c)
      else (None, c\<lparr>lc_started := True\<rparr>))"

definition Controller_Close :: "controller \<Rightarrow> controller" where
  "Controller_Close c = (if lc_closed c then c else c\<lparr>lc_closed := True, lc_cancelled := lc_started c\<rparr>)"

section \<open>Watching\<close>

text \<open>
  The inner loop of \<open>watchOnce\<close>: every change of every batch is handled, until the stream ends. \<open>clean\<close>
  says which errors end it without a failure (the end of the iteration, a cancelled context).
\<close>

fun watchStream ::
  "(gerror \<Rightarrow> bool) \<Rightarrow> ('c \<Rightarrow> 'st \<Rightarrow> 'st) \<Rightarrow> (gerror + 'c list) list \<Rightarrow> 'st \<Rightarrow> gerror option \<times> 'st" where
  "watchStream clean handle [] st = (None, st)"
| "watchStream clean handle (Inl e # evs) st = (if clean e then None else Some e, st)"
| "watchStream clean handle (Inr changes # evs) st = watchStream clean handle evs (fold handle changes st)"

definition watchOnce ::
  "(gerror \<Rightarrow> bool) \<Rightarrow> ('c \<Rightarrow> 'st \<Rightarrow> 'st) \<Rightarrow> gerror + (gerror + 'c list) list \<Rightarrow> 'st \<Rightarrow> gerror option \<times> 'st" where
  "watchOnce clean handle stream st =
     (case stream of Inl e \<Rightarrow> (Some e, st) | Inr evs \<Rightarrow> watchStream clean handle evs st)"

text \<open>The state a listener works on, and what it was configured with.\<close>

record 's listener_state =
  ls_store :: 's
  ls_next :: nat

record ('s, 'db) listener_config =
  lg_ops :: "('s, 'db) store_ops"
  lg_now :: go_time
  lg_uuid :: "nat \<Rightarrow> string"
  lg_step :: "step_payload \<Rightarrow> gerror + string"

text \<open>A truth is handed to the idempotency sequence; every failure is logged and the observation dropped.\<close>

definition listener_createTruth ::
  "('s, 'db) listener_config \<Rightarrow> string \<Rightarrow> string \<Rightarrow> gerror + envelope \<Rightarrow> 's listener_state \<Rightarrow> 's listener_state" where
  "listener_createTruth lg listener eventKey envelope st =
     (case envelope of
        Inl _ \<Rightarrow> st
      | Inr env \<Rightarrow>
          (case firebase_NewCellRequest (lg_step lg) (lg_uuid lg (ls_next st)) listener eventKey env of
             Inl _ \<Rightarrow> st\<lparr>ls_next := Suc (ls_next st)\<rparr>
           | Inr request \<Rightarrow>
               st\<lparr>ls_store := snd (ops_Add (lg_ops lg) (lg_now lg) [request] (ls_store st)), ls_next := Suc (ls_next st)\<rparr>))"

datatype change_kind = ChangeAdded | ChangeModified | ChangeRemoved

record change =
  ch_Kind :: change_kind
  ch_Doc :: document

section \<open>Polls\<close>

definition ListenerPollOpened :: string where "ListenerPollOpened = ''PollOpened''"
definition PollOpenedFanout :: handler_name where "PollOpenedFanout = ''truths.poll_opened''"
definition ListenerPollCompleted :: string where "ListenerPollCompleted = ''PollCompleted''"
definition PollCompletedFanout :: handler_name where "PollCompletedFanout = ''truths.poll_completed''"

definition openedPayload :: "document \<Rightarrow> poll_observed" where
  "openedPayload doc =
     \<lparr>po_CreatedByUID = stringField (doc_Data doc) ''createdByUid'', po_CompletedByUID = '''', po_PollID = doc_ID doc,
      po_ChangeKind = '''', po_SelectedVenueID = '''', po_PollDate = stringField (doc_Data doc) ''date'',
      po_SelectedRestaurantID = '''', po_SelectedRestaurantTime = ''''\<rparr>"

definition newpolls_createTruth ::
  "(poll_observed \<Rightarrow> gerror + string) \<Rightarrow> ('s, 'db) listener_config \<Rightarrow> poll_observed \<Rightarrow> 's listener_state \<Rightarrow> 's listener_state" where
  "newpolls_createTruth marshal lg payload st =
     listener_createTruth lg ListenerPollOpened (po_PollID payload) (NewEnvelope marshal PollOpenedFanout payload) st"

definition newpolls_handle ::
  "(poll_observed \<Rightarrow> gerror + string) \<Rightarrow> ('s, 'db) listener_config \<Rightarrow> change \<Rightarrow> 's listener_state \<Rightarrow> 's listener_state" where
  "newpolls_handle marshal lg change st =
     (if ch_Kind change \<noteq> ChangeAdded then st else newpolls_createTruth marshal lg (openedPayload (ch_Doc change)) st)"

definition changeKind :: "change_kind \<Rightarrow> string" where
  "changeKind kind = (case kind of ChangeAdded \<Rightarrow> ''added'' | ChangeModified \<Rightarrow> ''modified'' | _ \<Rightarrow> ''unknown'')"

definition completedPayload :: "change \<Rightarrow> poll_observed" where
  "completedPayload change =
     (let data = doc_Data (ch_Doc change) in
      \<lparr>po_CreatedByUID = '''', po_CompletedByUID = stringField data ''completedByUid'', po_PollID = doc_ID (ch_Doc change),
       po_ChangeKind = changeKind (ch_Kind change), po_SelectedVenueID = stringField data ''selected'',
       po_PollDate = stringField data ''date'', po_SelectedRestaurantID = stringField data ''restaurant'',
       po_SelectedRestaurantTime = stringField data ''restaurant_time''\<rparr>)"

definition completedEventKey :: "string \<Rightarrow> string \<Rightarrow> string \<Rightarrow> string \<Rightarrow> string" where
  "completedEventKey pollID selectedVenueID selectedRestaurantID selectedRestaurantTime =
     pollID @ '':'' @ selectedVenueID @
     (if selectedRestaurantID \<noteq> '''' then '':'' @ selectedRestaurantID else '''') @
     (if selectedRestaurantTime \<noteq> '''' then '':'' @ selectedRestaurantTime else '''')"

definition completedpolls_createTruth ::
  "(poll_observed \<Rightarrow> gerror + string) \<Rightarrow> ('s, 'db) listener_config \<Rightarrow> poll_observed \<Rightarrow> 's listener_state \<Rightarrow> 's listener_state" where
  "completedpolls_createTruth marshal lg payload st =
     listener_createTruth lg ListenerPollCompleted
       (completedEventKey (po_PollID payload) (po_SelectedVenueID payload) (po_SelectedRestaurantID payload)
          (po_SelectedRestaurantTime payload))
       (NewEnvelope marshal PollCompletedFanout payload) st"

definition completedpolls_handle ::
  "(poll_observed \<Rightarrow> gerror + string) \<Rightarrow> ('s, 'db) listener_config \<Rightarrow> change \<Rightarrow> 's listener_state \<Rightarrow> 's listener_state" where
  "completedpolls_handle marshal lg change st =
     (if ch_Kind change \<noteq> ChangeAdded \<and> ch_Kind change \<noteq> ChangeModified then st
      else completedpolls_createTruth marshal lg (completedPayload change) st)"

section \<open>Chat messages and requests of the diagnostics page\<close>

definition chat_Message :: "document \<Rightarrow> chat_message" where
  "chat_Message doc =
     (let data = doc_Data doc in
      \<lparr>cm_MessageID = doc_ID doc, cm_ScopeType = stringField data ''scopeType'', cm_ScopeID = stringField data ''scopeId'',
       cm_AuthorUserID = stringField data ''uid'',
       cm_SenderName = (if stringField data ''displayName'' = '''' then stringField data ''name'' else stringField data ''displayName''),
       cm_Text = (case asString (go_index (Some data) ''text'') of None \<Rightarrow> stringField data ''message'' | Some t \<Rightarrow> t)\<rparr>)"

definition chatmessages_createTruth ::
  "(chat_message \<Rightarrow> gerror + string) \<Rightarrow> ('s, 'db) listener_config \<Rightarrow> chat_message \<Rightarrow> 's listener_state \<Rightarrow> 's listener_state" where
  "chatmessages_createTruth marshal lg message st =
     listener_createTruth lg ''ChatMessagePosted'' (cm_MessageID message)
       (NewEnvelope marshal ''truths.chat_message_posted'' message) st"

text \<open>One entry of the request document.\<close>

definition pushtest_createTruth ::
  "(go_any \<Rightarrow> gerror + string) \<Rightarrow> (push_test_requested \<Rightarrow> gerror + string) \<Rightarrow> ('s, 'db) listener_config \<Rightarrow> string \<Rightarrow> go_any \<Rightarrow>
     's listener_state \<Rightarrow> 's listener_state" where
  "pushtest_createTruth marshalValue marshal lg userID value st =
     (case marshalValue value of
        Inl _ \<Rightarrow> st
      | Inr encoded \<Rightarrow>
          listener_createTruth lg ''PushTestRequested'' (userID @ '':'' @ encoded)
            (NewEnvelope marshal ''truths.push_test_requested'' \<lparr>pt_UserID = userID, pt_Value = encoded\<rparr>) st)"

definition pushtest_handle ::
  "key_order \<Rightarrow> (go_any \<Rightarrow> gerror + string) \<Rightarrow> (push_test_requested \<Rightarrow> gerror + string) \<Rightarrow> ('s, 'db) listener_config \<Rightarrow> go_map \<Rightarrow>
     's listener_state \<Rightarrow> 's listener_state" where
  "pushtest_handle keys marshalValue marshal lg requests st =
     fold (\<lambda>u st. if u \<noteq> '''' then pushtest_createTruth marshalValue marshal lg u (go_index (Some requests) u) st else st)
       (keys requests) st"

definition resolveEmail :: "go_map \<Rightarrow> string" where
  "resolveEmail data =
     (if TrimSpace (stringField data ''notificationEmail'') \<noteq> '''' then TrimSpace (stringField data ''notificationEmail'')
      else if TrimSpace (stringField data ''email'') \<noteq> '''' then TrimSpace (stringField data ''email'')
      else '''')"

definition testemail_Request :: "document \<Rightarrow> test_email_requested option" where
  "testemail_Request doc =
     (let requestID = stringField (doc_Data doc) ''testEmailReq'' in
      if requestID = '''' then None
      else if stringField (doc_Data doc) ''testEmailAck'' = requestID then None
      else Some \<lparr>te_UserID = doc_ID doc, te_RequestID = requestID, te_Email = resolveEmail (doc_Data doc)\<rparr>)"

definition testemail_createTruth ::
  "(test_email_requested \<Rightarrow> gerror + string) \<Rightarrow> ('s, 'db) listener_config \<Rightarrow> test_email_requested \<Rightarrow> 's listener_state \<Rightarrow> 's listener_state" where
  "testemail_createTruth marshal lg request st =
     listener_createTruth lg ''TestEmailRequested'' (te_UserID request @ '':'' @ te_RequestID request)
       (NewEnvelope marshal ''truths.test_email_requested'' request) st"

definition testemail_handle ::
  "(test_email_requested \<Rightarrow> gerror + string) \<Rightarrow> ('s, 'db) listener_config \<Rightarrow> document \<Rightarrow> 's listener_state \<Rightarrow> 's listener_state" where
  "testemail_handle marshal lg doc st =
     (case testemail_Request doc of None \<Rightarrow> st | Some request \<Rightarrow> testemail_createTruth marshal lg request st)"

section \<open>Event venues\<close>

definition eventVenueFromProjection :: "(string \<Rightarrow> gerror + go_map option) \<Rightarrow> venue_projection \<Rightarrow> gerror + event_venue" where
  "eventVenueFromProjection unmarshal projection =
     (case (if vp_RecurrenceJSON projection \<noteq> '''' then unmarshal (vp_RecurrenceJSON projection) else Inr None) of
        Inl e \<Rightarrow> Inl e
      | Inr rule \<Rightarrow> Inr \<lparr>ev_ID = vp_ID projection, ev_Name = vp_Name projection, ev_Recurrence = rule,
                         ev_NextOccurrenceDate = vp_NextOccurrenceDate projection\<rparr>)"

text \<open>\<open>cache\<close> is what the venue cache lists, \<open>None\<close> without a cache; \<open>source\<close> what the source lists.\<close>

definition listEventVenues ::
  "(string \<Rightarrow> gerror + go_map option) \<Rightarrow> (gerror + venue_projection list) option \<Rightarrow> gerror + event_venue list \<Rightarrow>
     gerror + event_venue list" where
  "listEventVenues unmarshal cache source =
     (case cache of
        None \<Rightarrow> source
      | Some (Inl e) \<Rightarrow> Inl (Wrapped e ''list event venues through cache'')
      | Some (Inr cached) \<Rightarrow>
          res_map (\<lambda>p. case eventVenueFromProjection unmarshal p of
                         Inl e \<Rightarrow> Inl (Wrapped e (''decode venue from cache: '' @ vp_ID p)) | Inr v \<Rightarrow> Inr v) cached)"

text \<open>\<open>today\<close> is the current date of the recurrence service's clock.\<close>

definition createEventVenueObserved ::
  "codecs \<Rightarrow> (event_venue_observed \<Rightarrow> gerror + string) \<Rightarrow> ('s, 'db) listener_config \<Rightarrow> civil \<Rightarrow> event_venue \<Rightarrow>
     's listener_state \<Rightarrow> 's listener_state" where
  "createEventVenueObserved co marshal lg today venue st =
     (let event = \<lparr>eo_Venue = venue, eo_ObservedOn = formatDate today\<rparr> in
      listener_createTruth lg ''event_venue_observed''
        (EventVenueObserved_Identity (co_marshalRaw co) (co_errText co) (co_sha256 co) event)
        (NewEnvelope marshal EventVenueObservedFanout event) st)"

definition ReevaluateOnce ::
  "codecs \<Rightarrow> (event_venue_observed \<Rightarrow> gerror + string) \<Rightarrow> ('s, 'db) listener_config \<Rightarrow> civil \<Rightarrow> gerror + event_venue list \<Rightarrow>
     's listener_state \<Rightarrow> gerror option \<times> 's listener_state" where
  "ReevaluateOnce co marshal lg today venues st =
     (case venues of
        Inl _ \<Rightarrow> (None, st)
      | Inr vs \<Rightarrow> (None, fold (createEventVenueObserved co marshal lg today) vs st))"

section \<open>The daily completion of polls\<close>

definition autocomplete_RunOnce ::
  "(daily_due \<Rightarrow> gerror + string) \<Rightarrow> (check_payload \<Rightarrow> gerror + string) \<Rightarrow> ('s, 'db) store_ops \<Rightarrow> location \<Rightarrow> go_time \<Rightarrow>
     's \<Rightarrow> gerror option \<times> 's" where
  "autocomplete_RunOnce marshalTruth marshalCheck ops london now s =
     (let truth = \<lparr>dd_ObservedOn = formatDate (localCivil london now)\<rparr> in
      case NewEnvelope marshalTruth DailyPollAutoCompleteDueFanout truth of
        Inl e \<Rightarrow> (Some (Wrapped e ''marshal daily auto-completion truth''), s)
      | Inr envelope \<Rightarrow>
          (case idem_NewCellRequest marshalCheck ''autocomplete.daily'' (DailyDue_Identity truth) envelope of
             Inl e \<Rightarrow> (Some (Wrapped e ''build daily auto-completion cell''), s)
           | Inr request \<Rightarrow>
               (case ops_Add ops now [request] s of
                  (Inl e, s') \<Rightarrow> (Some (Wrapped e ''add daily auto-completion cell''), s')
                | (Inr _, s') \<Rightarrow> (None, s'))))"

section \<open>The mirror of notification requests\<close>

definition patchKeys :: "key_order \<Rightarrow> go_map \<Rightarrow> go_map \<Rightarrow> string list" where
  "patchKeys keys request ack = filter (\<lambda>k. ack k \<noteq> request k) (keys request)"

text \<open>\<open>get\<close> reads the acknowledgement document, \<open>merge\<close> merges fields into it.\<close>

definition Mirror ::
  "key_order \<Rightarrow> (string \<Rightarrow> 'f \<Rightarrow> (gerror + go_map option) \<times> 'f) \<Rightarrow> (string \<Rightarrow> go_map \<Rightarrow> 'f \<Rightarrow> gerror option \<times> 'f) \<Rightarrow>
     document \<Rightarrow> 'f \<Rightarrow> gerror option \<times> 'f" where
  "Mirror keys get merge request f =
     (case get (doc_ID request) f of
        (Inl e, f1) \<Rightarrow> (Some e, f1)
      | (Inr found, f1) \<Rightarrow>
          (let ack = (case found of None \<Rightarrow> Map.empty | Some data \<Rightarrow> data);
               ks = patchKeys keys (doc_Data request) ack
           in if length ks = 0 then (None, f1)
              else merge (doc_ID request) (doc_Data request |` set ks) f1))"

text \<open>A batch of documents: the first that cannot be mirrored fails the watch.\<close>

fun mirrorDocuments ::
  "(document \<Rightarrow> 'f \<Rightarrow> gerror option \<times> 'f) \<Rightarrow> document list \<Rightarrow> 'f \<Rightarrow> gerror option \<times> 'f" where
  "mirrorDocuments mirror [] f = (None, f)"
| "mirrorDocuments mirror (doc # docs) f =
     (if doc_ID doc = ''push_test'' then mirrorDocuments mirror docs f
      else case mirror doc f of
        (Some e, f1) \<Rightarrow> (Some (Wrapped e (''mirror notification '' @ doc_ID doc)), f1)
      | (None, f1) \<Rightarrow> mirrorDocuments mirror docs f1)"

section \<open>The cutoff of the poll listeners\<close>

definition pollsSinceField :: string where "pollsSinceField = ''pollsSince''"

text \<open>\<open>doc\<close> is the document that stores the cutoff, \<open>None\<close> when it does not exist; \<open>flt\<close> a failure of the read.\<close>

definition storedPollsSince :: "gerror option \<Rightarrow> go_map option \<Rightarrow> gerror + string" where
  "storedPollsSince flt doc =
     (case flt of
        Some e \<Rightarrow> Inl (Wrapped e (''read '' @ pollsSinceField))
      | None \<Rightarrow>
          (case doc of
             None \<Rightarrow> Inr ''''
           | Some data \<Rightarrow>
               (case data pollsSinceField of
                  None \<Rightarrow> Inr ''''
                | Some raw \<Rightarrow>
                    (case asString raw of
                       None \<Rightarrow> Inl (Err ''stored pollsSince is not a string'')
                     | Some v \<Rightarrow> if parseISODate v = None then Inl (Err ''stored pollsSince is not YYYY-MM-DD'') else Inr v))))"

definition ResolvePollsSince ::
  "gerror option \<Rightarrow> gerror option \<Rightarrow> string \<Rightarrow> go_map option \<Rightarrow> (gerror + string) \<times> go_map option" where
  "ResolvePollsSince rflt wflt requested doc =
     (if requested \<noteq> '''' \<and> parseISODate requested = None then (Inl (Err ''polls-since must be YYYY-MM-DD''), doc)
      else case storedPollsSince rflt doc of
        Inl e \<Rightarrow> (Inl e, doc)
      | Inr stored \<Rightarrow>
          if requested = '''' \<and> stored = '''' then (Inl (Err ''no pollsSince stored in Firestore: supply -polls-since''), doc)
          else if requested = '''' \<or> requested = stored then (Inr stored, doc)
          else if requested < stored then (Inl (Err ''polls-since would move the stored cutoff backwards''), doc)
          else (case wflt of
                  Some e \<Rightarrow> (Inl (Wrapped e ''write pollsSince''), doc)
                | None \<Rightarrow>
                    (Inr requested,
                     Some ((case doc of None \<Rightarrow> Map.empty | Some m \<Rightarrow> m)(pollsSinceField \<mapsto> AString requested)))))"

section \<open>Facts\<close>

lemma stored_set: "parseISODate v \<noteq> None \<Longrightarrow> storedPollsSince None (Some (m(pollsSinceField \<mapsto> AString v))) = Inr v"
  by (simp add: storedPollsSince_def asString_def)

lemma nonempty_date: "parseISODate v \<noteq> None \<Longrightarrow> v \<noteq> ''''"
  by (auto simp: parseISODate_def)

lemma string_le: "\<not> (s < t) \<Longrightarrow> t \<le> (s :: string)"
  by simp

text \<open>
  The cutoff of the poll listeners never moves backwards, whatever dates are asked for and whichever
  reads and writes fail; when a date is returned it is the one that is stored, and a failure changes
  nothing.
\<close>

theorem polls_since_monotone:
  assumes "storedPollsSince None doc = Inr before" "ResolvePollsSince rflt wflt requested doc = (r, doc')"
  shows "\<exists>after. storedPollsSince None doc' = Inr after \<and> before \<le> after \<and>
    (case r of Inl e \<Rightarrow> doc' = doc | Inr v \<Rightarrow> v = after \<and> v \<noteq> '''')"
proof -
  have s: "storedPollsSince rflt doc = Inr x \<Longrightarrow> x = before" for x
    using assms(1) by (auto simp: storedPollsSince_def split: option.splits)
  consider "doc' = doc" "\<exists>e. r = Inl e" | "doc' = doc" "r = Inr before" "before \<noteq> ''''"
    | "parseISODate requested \<noteq> None" "\<not> requested < before" "r = Inr requested"
      "doc' = Some ((case doc of None \<Rightarrow> Map.empty | Some m \<Rightarrow> m)(pollsSinceField \<mapsto> AString requested))"
  proof (cases "storedPollsSince rflt doc")
    case (Inl e)
    then have "\<exists>e. ResolvePollsSince rflt wflt requested doc = (Inl e, doc)" by (simp add: ResolvePollsSince_def)
    with assms(2) that(1) show ?thesis by auto
  next
    case (Inr x)
    with s have "storedPollsSince rflt doc = Inr before" by simp
    with assms(2) that show ?thesis by (auto simp: ResolvePollsSince_def split: if_splits option.splits)
  qed
  then show ?thesis
  proof cases
    case 3
    then show ?thesis using stored_set [OF 3(1)] nonempty_date [OF 3(1)] string_le [OF 3(2)] by auto
  qed (use assms(1) in auto)
qed

theorem polls_since_monotone_witness:
  "\<exists>after. storedPollsSince None (snd (ResolvePollsSince None None ''2026-03-01'' (Some [pollsSinceField \<mapsto> AString ''2026-01-01'']))) = Inr after \<and>
     ''2026-01-01'' \<le> after"
proof -
  have "parseISODate ''2026-01-01'' \<noteq> None" by code_simp
  then have "storedPollsSince None (Some [pollsSinceField \<mapsto> AString ''2026-01-01'']) = Inr ''2026-01-01''" by (rule stored_set)
  from polls_since_monotone [OF this prod.collapse [symmetric], of None None "''2026-03-01''"] show ?thesis by blast
qed

text \<open>
  Mirroring a request makes its acknowledgement agree with it on every field the request has, keeps the
  other fields of the acknowledgement, and once they agree mirroring writes nothing more. \<open>view\<close> is the
  content of the acknowledgement documents; a read returns it and a merge updates the fields it names.
\<close>

theorem mirror_converges:
  assumes "\<And>i g r g'. get i g = (r, g') \<Longrightarrow> view g' = view g \<and> (\<forall>found. r = Inr found \<longrightarrow> found = view g i)"
    and "\<And>i m g g'. merge i m g = (None, g') \<Longrightarrow>
      view g' = (view g)(i \<mapsto> (case view g i of None \<Rightarrow> Map.empty | Some old \<Rightarrow> old) ++ m)"
    and "set (keys (doc_Data request)) = dom (doc_Data request)" "Mirror keys get merge request f = (None, f')"
    and "doc_Data request \<noteq> Map.empty"
  shows "\<exists>ack. view f' (doc_ID request) = Some ack \<and>
    ack = (case view f (doc_ID request) of None \<Rightarrow> Map.empty | Some old \<Rightarrow> old) ++ doc_Data request \<and>
    (\<forall>f2. Mirror keys get merge request f' = (None, f2) \<longrightarrow> view f2 = view f')"
proof -
  let ?q = "doc_Data request" and ?i = "doc_ID request"
  let ?old = "case view f ?i of None \<Rightarrow> Map.empty | Some old \<Rightarrow> old"
  obtain r f1 where g: "get ?i f = (r, f1)" by fastforce
  from g assms(4) assms(1) [OF g] have r: "r = Inr (view f ?i)" "view f1 = view f"
    by (auto simp: Mirror_def split: sum.splits)
  have same: "?old ++ ?q |` set (patchKeys keys ?q ?old) = ?old ++ ?q"
    using assms(3) by (auto simp: patchKeys_def map_add_def restrict_map_def fun_eq_iff domIff split: option.splits)
  have v: "view f' ?i = Some (?old ++ ?q)"
  proof (cases "patchKeys keys ?q ?old = []")
    case True
    then have "?old ++ ?q = ?old" using same by simp
    moreover from True have "?old k = ?q k" if "?q k \<noteq> None" for k
      using that assms(3) by (auto simp: patchKeys_def filter_empty_conv)
    with assms(5) obtain k y where "?old k = Some y" by (metis ext option.exhaust)
    then have "view f ?i \<noteq> None" by (cases "view f ?i") auto
    moreover have "view f' = view f" using True assms(4) g r by (simp add: Mirror_def)
    ultimately show ?thesis by auto
  next
    case False
    then have "merge ?i (?q |` set (patchKeys keys ?q ?old)) f1 = (None, f')" using assms(4) g r by (simp add: Mirror_def)
    from assms(2) [OF this] r(2) same show ?thesis by simp
  qed
  have "view f2 = view f'" if m: "Mirror keys get merge request f' = (None, f2)" for f2
  proof -
    obtain r2 f3 where g2: "get ?i f' = (r2, f3)" by fastforce
    have "r2 = Inr (view f' ?i)" "view f3 = view f'" using g2 m assms(1) [OF g2] by (auto simp: Mirror_def split: sum.splits)
    moreover have "patchKeys keys ?q (?old ++ ?q) = []"
      using assms(3) by (auto simp: patchKeys_def filter_empty_conv map_add_def)
    ultimately show ?thesis using m g2 v by (simp add: Mirror_def)
  qed
  with v show ?thesis by blast
qed

definition demo_merge :: "string \<Rightarrow> go_map \<Rightarrow> (string \<rightharpoonup> go_map) \<Rightarrow> gerror option \<times> (string \<rightharpoonup> go_map)" where
  "demo_merge i m g = (None, g(i \<mapsto> (case g i of None \<Rightarrow> Map.empty | Some old \<Rightarrow> old) ++ m))"

definition demo_get :: "string \<Rightarrow> (string \<rightharpoonup> go_map) \<Rightarrow> (gerror + go_map option) \<times> (string \<rightharpoonup> go_map)" where
  "demo_get i g = (Inr (g i), g)"

definition demo_request :: document where
  "demo_request = \<lparr>doc_ID = ''n1'', doc_Data = [''u1'' \<mapsto> ABool True]\<rparr>"

theorem mirror_converges_witness:
  "\<exists>f'. Mirror (\<lambda>_. [''u1'']) demo_get demo_merge demo_request Map.empty = (None, f') \<and>
     (\<exists>ack. f' ''n1'' = Some ack \<and> ack ''u1'' = Some (ABool True))"
proof -
  have m: "Mirror (\<lambda>_. [''u1'']) demo_get demo_merge demo_request Map.empty =
      (None, [''n1'' \<mapsto> [''u1'' \<mapsto> ABool True]])"
    by (simp add: Mirror_def demo_get_def demo_merge_def demo_request_def patchKeys_def restrict_map_insert)
  have "\<exists>ack. id [''n1'' \<mapsto> [''u1'' \<mapsto> ABool True]] (doc_ID demo_request) = Some ack \<and>
    ack = (case id Map.empty (doc_ID demo_request) of None \<Rightarrow> Map.empty | Some old \<Rightarrow> old) ++ doc_Data demo_request \<and>
    (\<forall>f2. Mirror (\<lambda>_. [''u1'']) demo_get demo_merge demo_request [''n1'' \<mapsto> [''u1'' \<mapsto> ABool True]] = (None, f2) \<longrightarrow>
       id f2 = id [''n1'' \<mapsto> [''u1'' \<mapsto> ABool True]])"
    by (rule mirror_converges [OF _ _ _ m]) (auto simp: demo_get_def demo_merge_def demo_request_def)
  then show ?thesis using m by (auto simp: demo_request_def)
qed

section \<open>Observations that share a key, and a timer that ends\<close>

text \<open>
  Two configurations of a completed poll have the same idempotency key: a restaurant without a time, and a
  time without a restaurant. The key of the action history tells them apart.
\<close>

lemma completed_key_ambiguous:
  "x \<noteq> '''' \<Longrightarrow> completedEventKey p v x '''' = completedEventKey p v '''' x"
  "x \<noteq> '''' \<Longrightarrow> CHR '':'' \<notin> set x \<Longrightarrow> actions_Key v x '''' \<noteq> actions_Key v '''' x"
  by (simp add: completedEventKey_def) (cases x; auto simp: actions_Key_def)

text \<open>
  When the daily callback cannot add its cell it returns an error, and the cell of the timer completes: the
  timer has no further occurrence.
\<close>

lemma daily_failure_ends_timer:
  assumes "marshalTruth \<lparr>dd_ObservedOn = formatDate (localCivil london now)\<rparr> = Inr t" "\<And>c. marshalCheck c = Inr (k c)"
    and "\<And>requests. ops_Add ops now requests s = (Inl e, s)" "unmarshal (currentStepPayload c) = Inr config"
  shows "timer_Execute loadLocation unmarshal now (Some (autocomplete_RunOnce marshalTruth marshalCheck ops london now)) c s =
    (Complete [] [], s)"
  using assms by (simp add: timer_Execute_def autocomplete_RunOnce_def NewEnvelope_def idem_NewCellRequest_def DailyDue_Identity_def Let_def)

end
