(* ===== verification/Api.thy ===== *)
theory Api
  imports Listeners EmailQuery
begin

text \<open>
  The HTTP interface: CORS (components/apicors), authentication (components/firebaseauth), the request
  identifier of the authenticated API (components/apirequest) and the endpoints (endpoints/ping,
  endpoints/emailhistory, endpoints/log).

  A handler is a function from the request, the context and the response written so far; the environment
  \<open>'e\<close> is what the verifier and the stores depend on. The body of a response is kept before its JSON
  encoding. The parsers of URLs, media types, JSON and UUIDs are parameters, and so is the verifier of tokens.
\<close>

section \<open>Requests and responses\<close>

record http_request =
  hr_Method :: string
  hr_Path :: string
  hr_Header :: "string \<Rightarrow> string list"
  hr_Body :: string
  hr_BodyErr :: "gerror option"

record history_entry =
  he_Subject :: string
  he_Recipient :: string
  he_State :: string
  he_CreatedAt :: "go_time option"
  he_SubmittedAt :: "go_time option"

datatype api_body =
    ErrorBody string string
  | PingBody string string
  | HistoryBody string string "history_entry list"
  | TextBody string

text \<open>The status is zero until it is written; the first one written counts.\<close>

record http_response =
  ho_Header :: "string \<Rightarrow> string list"
  ho_Status :: int
  ho_Body :: "api_body list"

definition empty_response :: http_response where
  "empty_response = \<lparr>ho_Header = (\<lambda>_. []), ho_Status = 0, ho_Body = []\<rparr>"

definition header_Get :: "(string \<Rightarrow> string list) \<Rightarrow> string \<Rightarrow> string" where
  "header_Get h k = (case h k of [] \<Rightarrow> '''' | v # vs \<Rightarrow> v)"

definition header_Set :: "string \<Rightarrow> string \<Rightarrow> http_response \<Rightarrow> http_response" where
  "header_Set k v w = w\<lparr>ho_Header := (ho_Header w)(k := [v])\<rparr>"

definition header_Add :: "string \<Rightarrow> string \<Rightarrow> http_response \<Rightarrow> http_response" where
  "header_Add k v w = w\<lparr>ho_Header := (ho_Header w)(k := ho_Header w k @ [v])\<rparr>"

definition WriteHeader :: "int \<Rightarrow> http_response \<Rightarrow> http_response" where
  "WriteHeader code w = (if ho_Status w = 0 then w\<lparr>ho_Status := code\<rparr> else w)"

definition write_body :: "api_body \<Rightarrow> http_response \<Rightarrow> http_response" where
  "write_body b w = (WriteHeader 200 w)\<lparr>ho_Body := ho_Body w @ [b]\<rparr>"

section \<open>Authentication\<close>

record principal =
  pr_UID :: string

type_synonym 'e api_handler = "principal option \<Rightarrow> http_request \<Rightarrow> http_response \<Rightarrow> 'e \<Rightarrow> http_response \<times> 'e"

definition FromContext :: "principal option \<Rightarrow> principal \<times> bool" where
  "FromContext ctx =
     (case ctx of None \<Rightarrow> (\<lparr>pr_UID = ''''\<rparr>, False) | Some p \<Rightarrow> (p, pr_UID p \<noteq> ''''))"

definition bearerRealm :: string where
  "bearerRealm = ''Bearer realm='' @ [CHR 0x22] @ ''last_orders'' @ [CHR 0x22]"

definition api_WriteError :: "int \<Rightarrow> string \<Rightarrow> string \<Rightarrow> http_response \<Rightarrow> http_response" where
  "api_WriteError status code message w =
     (let w1 = header_Set ''Cache-Control'' ''no-store'' (header_Set ''Content-Type'' ''application/json'' w);
          w2 = (if status = 401 then header_Set ''WWW-Authenticate'' bearerRealm w1 else w1)
      in write_body (ErrorBody code message) (WriteHeader status w2))"

definition asciiLower :: "char \<Rightarrow> char" where
  "asciiLower c = (let n = of_char c :: nat in if 65 \<le> n \<and> n \<le> 90 then char_of (n + 32) else c)"

text \<open>
  \<open>strings.EqualFold(s, t)\<close> for a \<open>t\<close> of ASCII letters without k and s, the two letters that also fold with
  characters outside ASCII.
\<close>

definition EqualFold :: "string \<Rightarrow> string \<Rightarrow> bool" where
  "EqualFold s t \<longleftrightarrow> map asciiLower s = map asciiLower t"

definition sign_in_required :: "http_response \<Rightarrow> http_response" where
  "sign_in_required w = api_WriteError 401 ''unauthenticated'' ''A valid sign-in token is required.'' w"

definition Middleware ::
  "(string \<Rightarrow> 'e \<Rightarrow> (gerror + principal) \<times> 'e) option \<Rightarrow> 'e api_handler \<Rightarrow> 'e api_handler" where
  "Middleware verifier next_handler ctx r w0 e =
     (let w = header_Set ''Cache-Control'' ''no-store'' w0 in
      case hr_Header r ''Authorization'' of
        [value] \<Rightarrow>
          (case strings_Fields value of
             [scheme, token] \<Rightarrow>
               if \<not> EqualFold scheme ''Bearer'' then (sign_in_required w, e)
               else (case verifier of
                       None \<Rightarrow> (sign_in_required w, e)
                     | Some verify \<Rightarrow>
                         (case verify token e of
                            (Inl err, e1) \<Rightarrow>
                              if errors_Is err ErrUnauthenticated
                              then (api_WriteError 401 ''unauthenticated'' ''The sign-in token was refused. Please sign in again.''
                                      (header_Set ''WWW-Authenticate'' bearerRealm w), e1)
                              else (api_WriteError 503 ''auth_unavailable'' ''Authentication is temporarily unavailable.'' w, e1)
                          | (Inr p, e1) \<Rightarrow>
                              if pr_UID p = ''''
                              then (api_WriteError 401 ''unauthenticated'' ''The sign-in token was refused. Please sign in again.''
                                      (header_Set ''WWW-Authenticate'' bearerRealm w), e1)
                              else next_handler (Some p) r w e1))
           | _ \<Rightarrow> (sign_in_required w, e))
      | _ \<Rightarrow> (sign_in_required w, e))"

text \<open>
  \<open>FirebaseVerifier.Verify\<close>: \<open>verifyToken\<close> is \<open>VerifyIDToken\<close>, which returns the user identifier of the
  token; \<open>refused\<close> are the errors the library classifies as a bad token or user.
\<close>

definition firebase_Verify ::
  "(string \<Rightarrow> 'e \<Rightarrow> (gerror + string) \<times> 'e) \<Rightarrow> (gerror \<Rightarrow> bool) \<Rightarrow> string \<Rightarrow> 'e \<Rightarrow> (gerror + principal) \<times> 'e" where
  "firebase_Verify verifyToken refused token e =
     (case verifyToken token e of
        (Inl err, e1) \<Rightarrow> (Inl (if refused err then ErrUnauthenticated else err), e1)
      | (Inr uid, e1) \<Rightarrow> (if uid = '''' then Inl ErrUnauthenticated else Inr \<lparr>pr_UID = uid\<rparr>, e1))"

text \<open>
  \<open>CheckEmulator\<close>: \<open>host\<close> is the environment variable, \<open>splitHostPort\<close> and \<open>isLoopback\<close> are of package net.
\<close>

definition CheckEmulator :: "(string \<Rightarrow> gerror + string) \<Rightarrow> (string \<Rightarrow> bool) \<Rightarrow> string \<Rightarrow> bool \<Rightarrow> gerror option" where
  "CheckEmulator splitHostPort isLoopback host allow =
     (if host = '''' then None
      else if \<not> allow then Some (Err ''FIREBASE_AUTH_EMULATOR_HOST requires explicit -allow-auth-emulator development opt-in'')
      else case splitHostPort host of
        Inl _ \<Rightarrow> Some (Err ''the Firebase Auth emulator must use a loopback host:port'')
      | Inr hostname \<Rightarrow>
          if hostname \<noteq> ''localhost'' \<and> \<not> isLoopback hostname
          then Some (Err ''the Firebase Auth emulator must use a loopback host:port'') else None)"

section \<open>Origins\<close>

record url =
  url_Scheme :: string
  url_Host :: string
  url_Hostname :: string
  url_HasUser :: bool
  url_Path :: string
  url_RawQuery :: string
  url_Fragment :: string

text \<open>The expression of \<open>hostnameLabel\<close>: at most 63 of a-z, 0-9 and -, the first and the last not -.\<close>

definition alnum :: "char \<Rightarrow> bool" where
  "alnum c \<longleftrightarrow> (let n = of_char c :: nat in (97 \<le> n \<and> n \<le> 122) \<or> (48 \<le> n \<and> n \<le> 57))"

definition hostnameLabel :: "string \<Rightarrow> bool" where
  "hostnameLabel s \<longleftrightarrow>
     s \<noteq> [] \<and> length s \<le> 63 \<and> list_all (\<lambda>c. alnum c \<or> c = CHR ''-'') s \<and> alnum (hd s) \<and> alnum (last s)"

definition validOrigin :: "(string \<Rightarrow> gerror + url) \<Rightarrow> (string \<Rightarrow> bool) \<Rightarrow> string \<Rightarrow> gerror option" where
  "validOrigin parseURL isLoopback origin =
     (case parseURL origin of
        Inl _ \<Rightarrow> Some (Err ''invalid API origin: expected an exact HTTPS origin or local HTTP origin'')
      | Inr u \<Rightarrow>
          if url_Host u = '''' \<or> url_HasUser u \<or> url_Path u \<noteq> '''' \<or> url_RawQuery u \<noteq> '''' \<or> url_Fragment u \<noteq> ''''
          then Some (Err ''invalid API origin: expected an exact HTTPS origin or local HTTP origin'')
          else
            let loopback = (url_Hostname u = ''localhost'' \<or> isLoopback (url_Hostname u)) in
            if url_Scheme u \<noteq> ''https'' \<and> \<not> (url_Scheme u = ''http'' \<and> loopback)
            then Some (Err ''API origin must use HTTPS outside loopback development'')
            else None)"

definition HasSuffix :: "string \<Rightarrow> string \<Rightarrow> bool" where
  "HasSuffix s suf \<longleftrightarrow> length suf \<le> length s \<and> drop (length s - length suf) s = suf"

definition previewSuffix :: string where "previewSuffix = ''.web.app''"

definition allowsPreview :: "(string \<Rightarrow> gerror + url) \<Rightarrow> string \<Rightarrow> string list \<Rightarrow> bool" where
  "allowsPreview parseURL origin sites =
     (if sites = [] then False
      else case parseURL origin of
        Inl _ \<Rightarrow> False
      | Inr u \<Rightarrow>
          if url_Scheme u \<noteq> ''https'' \<or> origin \<noteq> ''https://'' @ url_Hostname u then False
          else if \<not> HasSuffix (url_Hostname u) previewSuffix then False
          else
            let label = take (length (url_Hostname u) - length previewSuffix) (url_Hostname u) in
            if \<not> hostnameLabel label then False
            else list_ex (\<lambda>site. HasPrefix label (site @ ''--'')) sites)"

text \<open>
  \<open>strings.ToLower\<close> as far as it yields ASCII: the two characters outside ASCII whose lower case is in ASCII
  are mapped to it, the others to themselves.
\<close>

definition lowerRune :: "nat \<Rightarrow> nat" where
  "lowerRune r = (if 65 \<le> r \<and> r \<le> 90 then r + 32 else if r = 304 then 105 else if r = 8490 then 107 else r)"

definition ToLower :: "string \<Rightarrow> string" where
  "ToLower s = strings_Map lowerRune s"

fun splitOn :: "char \<Rightarrow> string \<Rightarrow> string \<Rightarrow> string list" where
  "splitOn sep acc [] = [rev acc]"
| "splitOn sep acc (c # cs) = (if c = sep then rev acc # splitOn sep [] cs else splitOn sep (c # acc) cs)"

definition allowedHeader :: "string \<Rightarrow> bool" where
  "allowedHeader name0 = (let name = ToLower (TrimSpace name0) in name = '''' \<or> name = ''authorization'' \<or> name = ''content-type'')"

definition preflight :: "http_request \<Rightarrow> http_response \<Rightarrow> http_response" where
  "preflight r w0 =
     (let w = header_Add ''Vary'' ''Access-Control-Request-Headers'' (header_Add ''Vary'' ''Access-Control-Request-Method'' w0) in
      if header_Get (hr_Header r) ''Access-Control-Request-Method'' \<noteq> ''POST''
      then api_WriteError 403 ''forbidden_preflight'' ''This API method is not allowed.'' w
      else if \<not> list_all allowedHeader (splitOn (CHR '','') [] (header_Get (hr_Header r) ''Access-Control-Request-Headers''))
      then api_WriteError 403 ''forbidden_preflight'' ''This API header is not allowed.'' w
      else WriteHeader 204
             (header_Set ''Access-Control-Max-Age'' ''600''
               (header_Set ''Access-Control-Allow-Headers'' ''Authorization, Content-Type''
                 (header_Set ''Access-Control-Allow-Methods'' ''POST'' w))))"

definition cors_serve :: "(string \<Rightarrow> gerror + url) \<Rightarrow> string list \<Rightarrow> string list \<Rightarrow> 'e api_handler \<Rightarrow> 'e api_handler" where
  "cors_serve parseURL allowed previewSites next_handler ctx r w0 e =
     (let w = header_Add ''Vary'' ''Origin'' w0;
          origin = header_Get (hr_Header r) ''Origin''
      in if origin = '''' then next_handler ctx r w e
         else if origin \<notin> set allowed \<and> \<not> allowsPreview parseURL origin previewSites
         then (api_WriteError 403 ''forbidden_origin'' ''This frontend origin is not allowed.'' w, e)
         else
           let w1 = header_Set ''Access-Control-Allow-Origin'' origin w in
           if hr_Method r = ''OPTIONS'' then (preflight r w1, e) else next_handler ctx r w1 e)"

definition cors_Wrap ::
  "(string \<Rightarrow> gerror + url) \<Rightarrow> (string \<Rightarrow> bool) \<Rightarrow> string list \<Rightarrow> 'e api_handler \<Rightarrow> string list \<Rightarrow> gerror + 'e api_handler" where
  "cors_Wrap parseURL isLoopback origins next_handler previewSites =
     (if \<not> list_all hostnameLabel previewSites
      then Inl (Err ''invalid Firebase preview site: expected a lowercase DNS label, not a URL or wildcard'')
      else case first_some (validOrigin parseURL isLoopback) origins of
        Some err \<Rightarrow> Inl err
      | None \<Rightarrow> Inr (cors_serve parseURL origins previewSites next_handler))"

section \<open>The request identifier\<close>

text \<open>
  What \<open>ReadRequestID\<close> uses of the library: the media type, the first JSON value of a text as an object that
  has only \<open>request_id\<close> together with the rest of the text, whether only the end of the input follows, and the
  canonical text of a UUID.
\<close>

record request_codecs =
  rc_mediaType :: "string \<Rightarrow> gerror + string"
  rc_decode :: "string \<Rightarrow> gerror + string \<times> string"
  rc_atEOF :: "string \<Rightarrow> bool"
  rc_uuid :: "string \<Rightarrow> gerror + string"

definition ReadRequestID :: "request_codecs \<Rightarrow> http_request \<Rightarrow> http_response \<Rightarrow> string option \<times> http_response" where
  "ReadRequestID rc r w =
     (if rc_mediaType rc (header_Get (hr_Header r) ''Content-Type'') \<noteq> Inr ''application/json''
      then (None, api_WriteError 415 ''unsupported_media_type'' ''An application/json request is required.'' w)
      else if length (hr_Body r) > 1024
      then (None, api_WriteError 413 ''request_too_large'' ''The API payload must not exceed 1 KiB.'' w)
      else if hr_BodyErr r \<noteq> None
      then (None, api_WriteError 400 ''invalid_request'' ''The API payload could not be read.'' w)
      else case rc_decode rc (hr_Body r) of
        Inl _ \<Rightarrow> (None, api_WriteError 400 ''invalid_request'' ''A JSON object containing only request_id is required.'' w)
      | Inr (requestID, rest) \<Rightarrow>
          if \<not> rc_atEOF rc rest then (None, api_WriteError 400 ''invalid_request'' ''Only one JSON object is allowed.'' w)
          else if rc_uuid rc requestID \<noteq> Inr requestID
          then (None, api_WriteError 400 ''invalid_request'' ''request_id must be a canonical UUID.'' w)
          else (Some requestID, w))"

section \<open>Endpoints\<close>

definition ping_ServeHTTP :: "request_codecs \<Rightarrow> 'e api_handler" where
  "ping_ServeHTTP rc ctx r w e =
     (case FromContext ctx of
        (p, ok) \<Rightarrow>
          if \<not> ok then (sign_in_required w, e)
          else (case ReadRequestID rc r w of
                  (None, w1) \<Rightarrow> (w1, e)
                | (Some requestID, w1) \<Rightarrow>
                    (write_body (PingBody (pr_UID p) requestID)
                       (header_Set ''Cache-Control'' ''no-store'' (header_Set ''Content-Type'' ''application/json'' w1)), e)))"

definition historyFilter :: "string \<Rightarrow> progress_filter" where
  "historyFilter uid =
     \<lparr>pf_UserID = uid, pf_LatestFirst = True, pf_IdempotencyToken = '''', pf_Recipient = '''', pf_States = [],
      pf_Limit = 20, pf_Offset = 0\<rparr>"

definition historyEntry :: "progress_report \<Rightarrow> history_entry" where
  "historyEntry row =
     \<lparr>he_Subject = rep_Subject row, he_Recipient = rep_Recipient row, he_State = rep_State row,
      he_CreatedAt = rep_CreatedAt row, he_SubmittedAt = rep_SubmittedAt row\<rparr>"

definition emailhistory_ServeHTTP ::
  "request_codecs \<Rightarrow> (progress_filter \<Rightarrow> 'e \<Rightarrow> (gerror + progress_report list) \<times> 'e) \<Rightarrow> 'e api_handler" where
  "emailhistory_ServeHTTP rc query ctx r w e =
     (case FromContext ctx of
        (p, ok) \<Rightarrow>
          if \<not> ok \<or> pr_UID p = '''' then (sign_in_required w, e)
          else (case ReadRequestID rc r w of
                  (None, w1) \<Rightarrow> (w1, e)
                | (Some requestID, w1) \<Rightarrow>
                    (case query (historyFilter (pr_UID p)) e of
                       (Inl _, e1) \<Rightarrow>
                         (api_WriteError 503 ''history_unavailable'' ''Email history is temporarily unavailable.'' w1, e1)
                     | (Inr rows, e1) \<Rightarrow>
                         (write_body (HistoryBody (pr_UID p) requestID (map historyEntry rows))
                            (header_Set ''Cache-Control'' ''no-store'' (header_Set ''Content-Type'' ''application/json'' w1)), e1))))"

record log_request =
  lr_EventID :: string
  lr_Message :: string

record log_message =
  lm_Message :: string

definition LogMessageFanout :: handler_name where "LogMessageFanout = ''truths.log_message''"
definition ListenerLog :: string where "ListenerLog = ''endpoints.log''"

text \<open>\<open>http.Error\<close>\<close>

definition http_Error :: "string \<Rightarrow> int \<Rightarrow> http_response \<Rightarrow> http_response" where
  "http_Error message code w =
     write_body (TextBody (message @ [CHR 0x0A]))
       (WriteHeader code (header_Set ''X-Content-Type-Options'' ''nosniff'' (header_Set ''Content-Type'' ''text/plain; charset=utf-8'' w)))"

definition log_ServeHTTP ::
  "(string \<Rightarrow> gerror + log_request) \<Rightarrow> (log_message \<Rightarrow> gerror + string) \<Rightarrow> (step_payload \<Rightarrow> gerror + string) \<Rightarrow> string \<Rightarrow>
     (cell_request \<Rightarrow> 'e \<Rightarrow> gerror option \<times> 'e) \<Rightarrow> 'e api_handler" where
  "log_ServeHTTP decode marshal marshalStep uuid addCell ctx r w e =
     (case decode (hr_Body r) of
        Inl _ \<Rightarrow> (http_Error ''invalid JSON body'' 400 w, e)
      | Inr body \<Rightarrow>
          if lr_EventID body = '''' then (http_Error ''event_id is required'' 400 w, e)
          else if lr_Message body = '''' then (http_Error ''message is required'' 400 w, e)
          else (case NewEnvelope marshal LogMessageFanout \<lparr>lm_Message = lr_Message body\<rparr> of
                  Inl _ \<Rightarrow> (http_Error ''internal error'' 500 w, e)
                | Inr envelope \<Rightarrow>
                    (case firebase_NewCellRequest marshalStep uuid ListenerLog (lr_EventID body) envelope of
                       Inl _ \<Rightarrow> (http_Error ''internal error'' 500 w, e)
                     | Inr request \<Rightarrow>
                         (case addCell request e of
                            (Some _, e1) \<Rightarrow> (http_Error ''internal error'' 500 w, e1)
                          | (None, e1) \<Rightarrow>
                              (write_body (TextBody (''{'' @ [CHR 0x22] @ ''status'' @ [CHR 0x22] @ '':'' @ [CHR 0x22] @ ''accepted'' @ [CHR 0x22] @ ''}''))
                                 (WriteHeader 202 (header_Set ''Content-Type'' ''application/json'' w)), e1)))))"

text \<open>The service behind the log endpoint only logs.\<close>

definition log_Handle :: "log_message \<Rightarrow> 'db result" where
  "log_Handle payload = Complete [] []"

text \<open>
  The multiplexer of the authenticated API, on requests with a clean path: an unknown path is not found, and
  another method than POST is not allowed.
\<close>

definition api_mux :: "'e api_handler \<Rightarrow> 'e api_handler \<Rightarrow> 'e api_handler" where
  "api_mux ping history ctx r w e =
     (if hr_Path r \<noteq> ''/api/ping'' \<and> hr_Path r \<noteq> ''/api/email-history'' then (http_Error ''404 page not found'' 404 w, e)
      else if hr_Method r \<noteq> ''POST'' then (http_Error ''Method Not Allowed'' 405 (header_Set ''Allow'' ''POST'' w), e)
      else if hr_Path r = ''/api/ping'' then ping ctx r w e
      else history ctx r w e)"

definition api_stack ::
  "(string \<Rightarrow> gerror + url) \<Rightarrow> (string \<Rightarrow> bool) \<Rightarrow> request_codecs \<Rightarrow> string list \<Rightarrow> string list \<Rightarrow>
     (string \<Rightarrow> 'e \<Rightarrow> (gerror + principal) \<times> 'e) option \<Rightarrow> (progress_filter \<Rightarrow> 'e \<Rightarrow> (gerror + progress_report list) \<times> 'e) \<Rightarrow>
     gerror + 'e api_handler" where
  "api_stack parseURL isLoopback rc origins previewSites verifier query =
     cors_Wrap parseURL isLoopback origins (Middleware verifier (api_mux (ping_ServeHTTP rc) (emailhistory_ServeHTTP rc query))) previewSites"

section \<open>Who sees the history\<close>

definition acao :: "http_response \<Rightarrow> string list" where
  "acao w = ho_Header w ''Access-Control-Allow-Origin''"

lemma acao_simps [simp]:
  "k \<noteq> ''Access-Control-Allow-Origin'' \<Longrightarrow> acao (header_Set k v w) = acao w"
  "k \<noteq> ''Access-Control-Allow-Origin'' \<Longrightarrow> acao (header_Add k v w) = acao w"
  "acao (header_Set ''Access-Control-Allow-Origin'' v w) = [v]"
  "acao (WriteHeader n w) = acao w" "acao (write_body b w) = acao w" "acao empty_response = []"
  by (simp_all add: acao_def header_Set_def header_Add_def WriteHeader_def write_body_def empty_response_def)

lemma body_simps [simp]:
  "ho_Body (header_Set k v w) = ho_Body w" "ho_Body (header_Add k v w) = ho_Body w" "ho_Body (WriteHeader n w) = ho_Body w"
  "ho_Body (write_body b w) = ho_Body w @ [b]" "ho_Body empty_response = []"
  by (simp_all add: header_Set_def header_Add_def WriteHeader_def write_body_def empty_response_def)

lemma error_simps [simp]:
  "ho_Body (api_WriteError status code m w) = ho_Body w @ [ErrorBody code m]" "acao (api_WriteError status code m w) = acao w"
  "ho_Body (sign_in_required w) = ho_Body w @ [ErrorBody ''unauthenticated'' ''A valid sign-in token is required.'']"
  "acao (sign_in_required w) = acao w"
  "ho_Body (http_Error m n w) = ho_Body w @ [TextBody (m @ [CHR 0x0A])]" "acao (http_Error m n w) = acao w"
  by (simp_all add: api_WriteError_def sign_in_required_def http_Error_def Let_def)

lemma ReadRequestID_response:
  assumes "ReadRequestID rc r w = (i, w')"
  shows "acao w' = acao w" "HistoryBody u j es \<in> set (ho_Body w') \<longleftrightarrow> HistoryBody u j es \<in> set (ho_Body w)"
  using assms by (auto simp: ReadRequestID_def split: if_splits sum.splits prod.splits)

definition no_history :: "http_response \<Rightarrow> bool" where
  "no_history w \<longleftrightarrow> (\<forall>u i es. HistoryBody u i es \<notin> set (ho_Body w))"

lemma no_history_simps [simp]:
  "no_history (header_Set k v w) = no_history w" "no_history (header_Add k v w) = no_history w"
  "no_history (WriteHeader n w) = no_history w" "no_history (api_WriteError status code m w) = no_history w"
  "no_history (sign_in_required w) = no_history w" "no_history (http_Error m n w) = no_history w"
  "no_history empty_response" "no_history (write_body (PingBody u i) w) = no_history w"
  by (auto simp: no_history_def)

lemma history_response:
  assumes "emailhistory_ServeHTTP rc query (Some p) r w e = (w', e')" "no_history w" "HistoryBody u i es \<in> set (ho_Body w')"
  shows "u = pr_UID p \<and> u \<noteq> '''' \<and> (\<exists>rows. query (historyFilter u) e = (Inr rows, e') \<and> es = map historyEntry rows)"
proof -
  obtain j w1 where j: "ReadRequestID rc r w = (j, w1)" by fastforce
  have n: "no_history w1" using assms(2) ReadRequestID_response(2) [OF j] by (simp add: no_history_def)
  then have "HistoryBody u i es \<notin> set (ho_Body w1)" "HistoryBody u i es \<notin> set (ho_Body w)"
    using assms(2) by (simp_all add: no_history_def)
  with assms(1,3) j show ?thesis
    by (auto simp: emailhistory_ServeHTTP_def FromContext_def split: if_splits option.splits prod.splits sum.splits)
qed

lemma ping_response:
  assumes "ping_ServeHTTP rc ctx r w e = (w', e')" "no_history w"
  shows "no_history w'" "e' = e" "acao w' = acao w"
proof -
  obtain j w1 where j: "ReadRequestID rc r w = (j, w1)" by fastforce
  then have "no_history w1" "acao w1 = acao w" using assms(2) ReadRequestID_response [OF j] by (simp_all add: no_history_def)
  with assms j show "no_history w'" "e' = e" "acao w' = acao w"
    by (auto simp: ping_ServeHTTP_def split: if_splits option.splits prod.splits)
qed

lemma mux_response:
  assumes "api_mux (ping_ServeHTTP rc) (emailhistory_ServeHTTP rc query) (Some p) r w e = (w', e')" "no_history w"
    "HistoryBody u i es \<in> set (ho_Body w')"
  shows "u = pr_UID p \<and> u \<noteq> '''' \<and> (\<exists>rows. query (historyFilter u) e = (Inr rows, e') \<and> es = map historyEntry rows)"
proof -
  have "no_history w \<Longrightarrow> \<not> no_history w'" using assms(3) by (auto simp: no_history_def)
  with assms(1,2) have "emailhistory_ServeHTTP rc query (Some p) r w e = (w', e')"
    using ping_response(1) [of rc "Some p" r w e w' e'] by (auto simp: api_mux_def split: if_splits)
  from history_response [OF this assms(2,3)] show ?thesis .
qed

text \<open>The identity a request carries: a single authorization header with a bearer token that the verifier accepts.\<close>

definition authenticated_as ::
  "(string \<Rightarrow> 'e \<Rightarrow> (gerror + principal) \<times> 'e) option \<Rightarrow> http_request \<Rightarrow> 'e \<Rightarrow> string \<Rightarrow> 'e \<Rightarrow> bool" where
  "authenticated_as verifier r e uid e1 \<longleftrightarrow> uid \<noteq> '''' \<and>
     (\<exists>verify value scheme token. verifier = Some verify \<and> hr_Header r ''Authorization'' = [value] \<and>
        strings_Fields value = [scheme, token] \<and> EqualFold scheme ''Bearer'' \<and> verify token e = (Inr \<lparr>pr_UID = uid\<rparr>, e1))"

lemma Middleware_cases:
  assumes "Middleware verifier h ctx r w e = (w', e')"
  obtains (refused) "no_history w \<longrightarrow> no_history w'" "acao w' = acao w"
  | (accepted) p e1 where "authenticated_as verifier r e (pr_UID p) e1"
      "h (Some p) r (header_Set ''Cache-Control'' ''no-store'' w) e1 = (w', e')"
proof -
  let ?w = "header_Set ''Cache-Control'' ''no-store'' w"
  show thesis
  proof (cases "\<exists>value scheme token verify. hr_Header r ''Authorization'' = [value] \<and> strings_Fields value = [scheme, token] \<and>
      EqualFold scheme ''Bearer'' \<and> verifier = Some verify")
    case False
    with assms have "w' = sign_in_required ?w"
      unfolding Middleware_def Let_def by (auto split: list.splits option.splits if_splits)
    then show thesis by (intro refused) simp_all
  next
    case True
    then obtain authorization scheme token verify where h: "hr_Header r ''Authorization'' = [authorization]" "strings_Fields authorization = [scheme, token]"
      "EqualFold scheme ''Bearer''" "verifier = Some verify" by blast
    obtain x e1 where v: "verify token e = (x, e1)" by fastforce
    show thesis
    proof (cases "\<exists>q. x = Inr q \<and> pr_UID q \<noteq> []")
      case True
      then obtain q where q: "x = Inr q" "pr_UID q \<noteq> []" by blast
      have "authenticated_as verifier r e (pr_UID q) e1" unfolding authenticated_as_def using h v q by auto
      moreover have "h (Some q) r ?w e1 = (w', e')" using assms h v q by (simp add: Middleware_def)
      ultimately show thesis by (rule accepted)
    next
      case False
      with assms h v show thesis
        by (intro refused) (auto simp: Middleware_def Let_def split: sum.splits if_splits)
    qed
  qed
qed

lemma cors_serve_cases:
  assumes "cors_serve parseURL allowed sites h ctx r w e = (w', e')"
  obtains (answered) "no_history w \<longrightarrow> no_history w'" "e' = e"
      "acao w' = acao w \<or> acao w' = [header_Get (hr_Header r) ''Origin''] \<and>
         (header_Get (hr_Header r) ''Origin'' \<in> set allowed \<or> allowsPreview parseURL (header_Get (hr_Header r) ''Origin'') sites)"
  | (passed) w1 where "h ctx r w1 e = (w', e')" "no_history w1 = no_history w"
      "header_Get (hr_Header r) ''Origin'' = '''' \<and> acao w1 = acao w \<or>
       acao w1 = [header_Get (hr_Header r) ''Origin''] \<and>
         (header_Get (hr_Header r) ''Origin'' \<in> set allowed \<or> allowsPreview parseURL (header_Get (hr_Header r) ''Origin'') sites)"
proof -
  let ?o = "header_Get (hr_Header r) ''Origin''"
  let ?w = "header_Add ''Vary'' ''Origin'' w"
  have pre: "no_history (preflight r u) = no_history u" "acao (preflight r u) = acao u" for u
    by (simp_all add: preflight_def Let_def)
  consider (plain) "?o = ''''" | (bad) "?o \<noteq> ''''" "?o \<notin> set allowed" "\<not> allowsPreview parseURL ?o sites"
    | (ok) "?o \<noteq> ''''" "?o \<in> set allowed \<or> allowsPreview parseURL ?o sites" by blast
  then show thesis
  proof cases
    case plain
    with assms show thesis by (intro passed [of ?w]) (simp_all add: cors_serve_def)
  next
    case bad
    with assms show thesis by (intro answered) (auto simp: cors_serve_def Let_def)
  next
    case ok
    show thesis
    proof (cases "hr_Method r = ''OPTIONS''")
      case True
      with assms ok show thesis by (intro answered) (auto simp: cors_serve_def Let_def pre)
    next
      case False
      with assms ok show thesis
        by (intro passed [of "header_Set ''Access-Control-Allow-Origin'' ?o ?w"]) (auto simp: cors_serve_def Let_def)
    qed
  qed
qed

lemma mux_acao:
  assumes "api_mux (ping_ServeHTTP rc) (emailhistory_ServeHTTP rc query) (Some p) r w e = (w', e')"
  shows "acao w' = acao w"
proof -
  have "acao (fst (ping_ServeHTTP rc (Some p) r w e)) = acao w"
    "acao (fst (emailhistory_ServeHTTP rc query (Some p) r w e)) = acao w"
    by (auto simp: ping_ServeHTTP_def emailhistory_ServeHTTP_def split: prod.splits option.splits sum.splits
        dest: ReadRequestID_response(1))
  with assms show ?thesis by (auto simp: api_mux_def split: if_splits)
qed

lemma rows_owned:
  assumes "QueryProgress flt f d = Inr rows" "pf_UserID f \<noteq> ''''" "x \<in> set rows"
  shows "\<exists>q \<in> set (email_progress d). pr_key q = (rep_IdempotencyToken x, rep_Recipient x) \<and> ownerOf d q = pf_UserID f"
proof -
  have "set (sql_page (pf_Limit f) (pf_Offset f) rs) \<subseteq> set rs" for rs :: "joined_row list"
    by (auto simp: sql_page_def Let_def dest: in_set_takeD in_set_dropD)
  with assms(1,3) obtain j where j: "j \<in> set (progressRows f d)" "x = reportRow j"
    by (fastforce simp: QueryProgress_def split: option.splits)
  obtain i q r ow where q: "j = (i, q, r, ow)" by (cases j) auto
  have m: "j \<in> set (joinedRows d)" "progressMatches f j" using j(1) by (auto simp: progressRows_set)
  have "q \<in> set (email_progress d)" "ownerOf d q = pf_UserID f"
    using joinedRows_mem [OF m(1) [unfolded q]] m(2) assms(2) by (auto simp: q progressMatches_def ownerOf_def split: option.splits)
  then show ?thesis using j(2) q by (auto simp: reportRow_def pr_key_def)
qed

text \<open>
  C37: through the whole stack of handlers of the API, a history is only ever sent to a user that the
  verifier has authenticated from the request's single authorization header, and each of its entries is an
  email to a recipient that user owns in the tables of durable email.
\<close>

theorem api_history_private:
  assumes "api_stack parseURL isLoopback rc origins previewSites verifier query = Inr serve"
    and "serve None r empty_response e = (w, e')"
    and "HistoryBody uid i entries \<in> set (ho_Body w)"
    and query: "\<And>f x rows x'. query f x = (Inr rows, x') \<Longrightarrow> \<exists>flt. QueryProgress flt f (db x) = Inr rows"
  shows "\<exists>e1. authenticated_as verifier r e uid e1 \<and>
    (\<forall>h \<in> set entries. \<exists>q \<in> set (email_progress (db e1)). pr_recipient q = he_Recipient h \<and> ownerOf (db e1) q = uid)"
proof -
  let ?mux = "api_mux (ping_ServeHTTP rc) (emailhistory_ServeHTTP rc query)"
  have serve: "serve = cors_serve parseURL origins previewSites (Middleware verifier ?mux)"
    using assms(1) by (auto simp: api_stack_def cors_Wrap_def split: if_splits option.splits)
  have h: "\<not> no_history w" using assms(3) by (auto simp: no_history_def)
  from assms(2) [unfolded serve] h obtain w1 where w1: "Middleware verifier ?mux None r w1 e = (w, e')" "no_history w1"
    by (cases rule: cors_serve_cases) auto
  from w1 h obtain p e1 where p: "authenticated_as verifier r e (pr_UID p) e1"
      "?mux (Some p) r (header_Set ''Cache-Control'' ''no-store'' w1) e1 = (w, e')"
    by (cases rule: Middleware_cases) auto
  from mux_response [OF p(2) _ assms(3)] w1(2) obtain rows where u: "uid = pr_UID p" "uid \<noteq> ''''"
    "query (historyFilter uid) e1 = (Inr rows, e')" "entries = map historyEntry rows" by auto
  obtain flt where "QueryProgress flt (historyFilter uid) (db e1) = Inr rows" using query [OF u(3)] by blast
  from rows_owned [OF this] u(2)
  have "\<forall>x \<in> set rows. \<exists>q \<in> set (email_progress (db e1)). pr_recipient q = rep_Recipient x \<and> ownerOf (db e1) q = uid"
    by (fastforce simp: historyFilter_def pr_key_def)
  with p(1) u(1,4) show ?thesis by (auto simp: historyEntry_def)
qed

lemma allowsPreview_origin:
  assumes "allowsPreview parseURL origin sites"
  shows "\<exists>label site. origin = ''https://'' @ label @ ''.web.app'' \<and> hostnameLabel label \<and> site \<in> set sites \<and>
    HasPrefix label (site @ ''--'')"
proof -
  obtain u where p: "parseURL origin = Inr u"
    using assms by (cases "parseURL origin") (auto simp: allowsPreview_def split: if_splits)
  let ?label = "take (length (url_Hostname u) - length previewSuffix) (url_Hostname u)"
  have u: "origin = ''https://'' @ url_Hostname u" "HasSuffix (url_Hostname u) previewSuffix" "hostnameLabel ?label"
    "\<exists>site \<in> set sites. HasPrefix ?label (site @ ''--'')"
    using assms p unfolding allowsPreview_def Let_def list_ex_iff by (simp_all only: sum.case de_Morgan_disj not_not simp_thms split: if_splits)
  have "url_Hostname u = take (length (url_Hostname u) - length previewSuffix) (url_Hostname u) @ previewSuffix"
    using u(2) by (metis HasSuffix_def append_take_drop_id)
  with u show ?thesis unfolding previewSuffix_def by metis
qed

text \<open>
  A response allows at most the origin that asked, and only one that the configuration names or an HTTPS
  preview host of a configured site, of one label under web.app that starts with the site and two dashes.
\<close>

theorem api_origin_exact:
  assumes "api_stack parseURL isLoopback rc origins previewSites verifier query = Inr serve"
    and "serve None r empty_response e = (w, e')" "acao w \<noteq> []"
  shows "acao w = [header_Get (hr_Header r) ''Origin''] \<and>
    (header_Get (hr_Header r) ''Origin'' \<in> set origins \<or>
     (\<exists>label site. header_Get (hr_Header r) ''Origin'' = ''https://'' @ label @ ''.web.app'' \<and> hostnameLabel label \<and>
        site \<in> set previewSites \<and> HasPrefix label (site @ ''--'')))"
proof -
  let ?mux = "api_mux (ping_ServeHTTP rc) (emailhistory_ServeHTTP rc query)"
  let ?o = "header_Get (hr_Header r) ''Origin''"
  have serve: "serve = cors_serve parseURL origins previewSites (Middleware verifier ?mux)"
    using assms(1) by (auto simp: api_stack_def cors_Wrap_def split: if_splits option.splits)
  have mw: "acao w' = acao v" if "Middleware verifier ?mux None r v e = (w', e')" for v w' e'
    using that by (cases rule: Middleware_cases) (auto dest: mux_acao)
  have "acao w = [?o] \<and> (?o \<in> set origins \<or> allowsPreview parseURL ?o previewSites)"
    using assms(2) [unfolded serve] assms(3) by (cases rule: cors_serve_cases) (auto dest: mw)
  then show ?thesis using allowsPreview_origin by blast
qed

section \<open>An example\<close>

lemma fieldsLoop_ascii:
  assumes "of_char c < (128 :: nat)"
  shows "fieldsLoop acc (c # cs) =
    (if isSpace (of_char c) then (if acc = [] then [] else [acc]) @ fieldsLoop [] cs else fieldsLoop (acc @ [c]) cs)"
proof -
  have "decodeRune (c # cs) = (of_char c, 1)" using assms by (simp add: decodeRune_ascii)
  then show ?thesis by (subst fieldsLoop.simps) simp
qed

lemma fieldsLoop_Nil: "fieldsLoop acc [] = (if acc = [] then [] else [acc])"
  by (subst fieldsLoop.simps) simp

definition demo_codecs_http :: request_codecs where
  "demo_codecs_http = \<lparr>rc_mediaType = Inr, rc_decode = (\<lambda>s. Inr (s, [])), rc_atEOF = (\<lambda>s. s = []), rc_uuid = Inr\<rparr>"

definition demo_http :: http_request where
  "demo_http = \<lparr>hr_Method = ''POST'', hr_Path = ''/api/email-history'',
     hr_Header = (\<lambda>_. [])(''Authorization'' := [''bearer t''], ''Content-Type'' := [''application/json''],
       ''Origin'' := [''https://a.b'']),
     hr_Body = ''id'', hr_BodyErr = None\<rparr>"

definition demo_url :: url where
  "demo_url = \<lparr>url_Scheme = ''https'', url_Host = ''a.b'', url_Hostname = ''a.b'', url_HasUser = False, url_Path = [],
     url_RawQuery = [], url_Fragment = []\<rparr>"

definition demo_verify :: "string \<Rightarrow> email_db \<Rightarrow> (gerror + principal) \<times> email_db" where
  "demo_verify token d = (Inr \<lparr>pr_UID = ''u''\<rparr>, d)"

definition demo_query :: "progress_filter \<Rightarrow> email_db \<Rightarrow> (gerror + progress_report list) \<times> email_db" where
  "demo_query f d = (QueryProgress (\<lambda>_. None) f d, d)"

abbreviation demo_serve :: "email_db api_handler" where
  "demo_serve \<equiv> cors_serve (\<lambda>_. Inr demo_url) [''https://a.b''] []
     (Middleware (Some demo_verify) (api_mux (ping_ServeHTTP demo_codecs_http) (emailhistory_ServeHTTP demo_codecs_http demo_query)))"

lemma demo_stack:
  "api_stack (\<lambda>_. Inr demo_url) (\<lambda>_. False) demo_codecs_http [''https://a.b''] [] (Some demo_verify) demo_query = Inr demo_serve"
  by (simp add: api_stack_def cors_Wrap_def validOrigin_def demo_url_def)

lemma demo_bearer: "strings_Fields ''bearer t'' = [''bearer'', ''t'']"
  by (simp add: strings_Fields_def fieldsLoop_ascii fieldsLoop_Nil isSpace_def)

lemma demo_fold: "EqualFold ''bearer'' ''Bearer''"
  by code_simp

lemma demo_served:
  assumes "QueryProgress (\<lambda>_. None) (historyFilter ''u'') demo_owned = Inr rows"
  shows "\<exists>w. demo_serve None demo_http empty_response demo_owned = (w, demo_owned) \<and>
    HistoryBody ''u'' ''id'' (map historyEntry rows) \<in> set (ho_Body w) \<and> acao w = [''https://a.b'']"
  using assms
  by (simp add: cors_serve_def Middleware_def api_mux_def demo_http_def header_Get_def demo_bearer demo_fold demo_verify_def
      emailhistory_ServeHTTP_def FromContext_def ReadRequestID_def demo_codecs_http_def demo_query_def Let_def)

lemma demo_api_history: "QueryProgress (\<lambda>_. None) (historyFilter ''u'') demo_owned =
    Inr (map reportRow (take 20 (progressRows (historyFilter ''u'') demo_owned)))"
  by (simp add: QueryProgress_def sql_page_def historyFilter_def)

theorem api_history_private_witness:
  "\<exists>w rows. fst (demo_serve None demo_http empty_response demo_owned) = w \<and>
     HistoryBody ''u'' ''id'' (map historyEntry rows) \<in> set (ho_Body w) \<and>
     (\<forall>h \<in> set (map historyEntry rows). \<exists>q \<in> set (email_progress demo_owned). pr_recipient q = he_Recipient h \<and> ownerOf demo_owned q = ''u'')"
proof -
  from demo_served [OF demo_api_history] obtain w where w: "demo_serve None demo_http empty_response demo_owned = (w, demo_owned)"
    "HistoryBody ''u'' ''id'' (map historyEntry (map reportRow (take 20 (progressRows (historyFilter ''u'') demo_owned)))) \<in> set (ho_Body w)"
    by blast
  let ?es = "map historyEntry (map reportRow (take 20 (progressRows (historyFilter ''u'') demo_owned)))"
  have "\<exists>e1. authenticated_as (Some demo_verify) demo_http demo_owned ''u'' e1 \<and>
      (\<forall>h \<in> set ?es. \<exists>q \<in> set (email_progress e1). pr_recipient q = he_Recipient h \<and> ownerOf e1 q = ''u'')"
    by (rule api_history_private [OF demo_stack w]) (auto simp: demo_query_def)
  then have "\<forall>h \<in> set ?es. \<exists>q \<in> set (email_progress demo_owned). pr_recipient q = he_Recipient h \<and> ownerOf demo_owned q = ''u''"
    by (auto simp: authenticated_as_def demo_verify_def simp del: set_map)
  with w show ?thesis by (metis fst_conv)
qed

theorem api_origin_exact_witness:
  "acao (fst (demo_serve None demo_http empty_response demo_owned)) = [''https://a.b'']"
proof -
  from demo_served [OF demo_api_history] obtain w where w: "demo_serve None demo_http empty_response demo_owned = (w, demo_owned)"
    "acao w = [''https://a.b'']" by blast
  then have "acao w \<noteq> []" by simp
  from api_origin_exact [OF demo_stack w(1) this] w(1) show ?thesis by (simp add: demo_http_def header_Get_def)
qed

end
