(* ===== verification/DummyClient.thy ===== *)
theory DummyClient
  imports TextTemplate Api "HOL-Library.AList"
begin

text \<open>
  What the durable sender asks of an email client (email_clients/clients/types.go), the dry-run marking that
  every client applies first (clients/dry_run.go), and the dummy client (clients/dummy/client.go).

  Variables are \<^typ>\<open>go_any\<close> values. The context of a call is the function \<open>ctxErr\<close>, read where the code
  calls \<open>ctx.Err()\<close>; it may answer differently each time. The callback of the dummy client, its random bytes
  and the hooks of its callers act on the environment \<open>'e\<close>. One call is modelled at a time: the mutexes of
  the client keep its records and templates whole, not the calls apart.
\<close>

section \<open>The contract of a client\<close>

type_synonym go_email = "go_any vars email"

text \<open>
  The result of a successful Send has one identifier per recipient, none of them empty. \<open>Post\<close> takes the
  answer of any other client for a lost one.
\<close>

locale email_provider =
  fixes send :: "('v, 'e) email_client"
  assumes one_pmuid_each:
    "send em e = (Inr ids, e') \<Longrightarrow> length ids = length (em_To em) \<and> '''' \<notin> set ids"
begin

lemma submitPending_answer:
  assumes "markSubmitted flt token now d = (None, d')" "send (newEmail common pending) e = (Inr ids, e')"
  shows "submitPending flt now token common pending send d e =
    (Complete [] (map2 (\<lambda>r u. Some (acceptWork token (rc_email r) u)) pending ids), d', e')"
proof -
  have "length ids = length pending" "'''' \<notin> set ids"
    using one_pmuid_each [OF assms(2)] by (simp_all add: newEmail_def)
  then show ?thesis using assms by (auto simp: submitPending_def list_ex_iff)
qed

lemma submitPending_recovers_only_on_error:
  assumes "markSubmitted flt token now d = (None, d')"
    "submitPending flt now token common pending send d e = (RetrySequence 0 [] w, d', e')"
  shows "\<exists>err. send (newEmail common pending) e = (Inl err, e')"
proof (cases "send (newEmail common pending) e")
  case (Pair r e1)
  show ?thesis
  proof (cases r)
    case (Inl err)
    with Pair assms show ?thesis by (auto simp: submitPending_def)
  next
    case (Inr ids)
    with assms submitPending_answer [OF assms(1), of common pending e ids e1] Pair show ?thesis by simp
  qed
qed

end

section \<open>Dry runs\<close>

definition DryRunHeader :: string where "DryRunHeader = ''X-Dry-Run''"
definition NotificationPrefixVariable :: string where "NotificationPrefixVariable = ''notification_prefix''"
definition DryRunSubjectPrefix :: string where "DryRunSubjectPrefix = ''[DRY-RUN] ''"

definition dryRunHeaders :: "string_map \<Rightarrow> string_map" where
  "dryRunHeaders h = (\<lambda>name. if EqualFold name DryRunHeader then None else h name)(DryRunHeader \<mapsto> ''true'')"

definition dryRunSubject :: "string \<Rightarrow> string" where
  "dryRunSubject s =
     (if TrimSpace s \<noteq> '''' \<and> \<not> HasPrefix s DryRunSubjectPrefix then DryRunSubjectPrefix @ s else s)"

definition markDryRun :: "'v email \<Rightarrow> 'v email" where
  "markDryRun em = em\<lparr>em_Subject := dryRunSubject (em_Subject em), em_Headers := dryRunHeaders (em_Headers em)\<rparr>"

text \<open>The maps of the caller are cloned before they are changed, so the new email is a new value.\<close>

definition setPrefix :: "string \<Rightarrow> go_email \<Rightarrow> go_email" where
  "setPrefix prefix em =
     em\<lparr>em_Variables := AList.update NotificationPrefixVariable (AString prefix) (em_Variables em),
        em_To := map (\<lambda>r. r\<lparr>rp_Variables := AList.delete NotificationPrefixVariable (rp_Variables r)\<rparr>)
                   (em_To em)\<rparr>"

definition PrepareDryRun :: "go_email \<Rightarrow> bool \<Rightarrow> go_email" where
  "PrepareDryRun email dryRun =
     (let prefix = (if dryRun then DryRunSubjectPrefix else '''');
          em1 = (if dryRun then markDryRun email else email)
      in if em_TemplateID em1 \<noteq> '''' then setPrefix prefix em1 else em1)"

text \<open>The variables of one recipient over the common ones, as the dummy and the Sweego client merge them.\<close>

definition mergedVariables :: "'a vars \<Rightarrow> 'a vars \<Rightarrow> 'a vars" where
  "mergedVariables common recipient = foldl (\<lambda>m (k, v). AList.update k v m) common recipient"

lemma map_of_mergedVariables:
  "distinct (map fst recipient) \<Longrightarrow>
     map_of (mergedVariables common recipient) k =
     (case map_of recipient k of Some v \<Rightarrow> Some v | None \<Rightarrow> map_of common k)"
proof (induction recipient arbitrary: common)
  case (Cons p ps)
  obtain a v where p: "p = (a, v)" by (cases p)
  with Cons.prems have "map_of ps a = None" by (simp add: map_of_eq_None_iff)
  with Cons p show ?case by (auto simp: mergedVariables_def update_conv' split: option.splits)
qed (simp add: mergedVariables_def)

lemma map_of_mergedVariables_notin:
  "k \<notin> fst ` set recipient \<Longrightarrow> map_of (mergedVariables common recipient) k = map_of common k"
  by (induction recipient arbitrary: common) (auto simp: mergedVariables_def update_conv')

lemma EqualFold_refl [simp]: "EqualFold s s" by (simp add: EqualFold_def)

lemma PrepareDryRun_To_length [simp]: "length (em_To (PrepareDryRun em b)) = length (em_To em)"
  by (simp add: PrepareDryRun_def Let_def setPrefix_def markDryRun_def)

lemma PrepareDryRun_TemplateID [simp]: "em_TemplateID (PrepareDryRun em b) = em_TemplateID em"
  by (simp add: PrepareDryRun_def Let_def setPrefix_def markDryRun_def)

lemma map_of_map_Address [simp]:
  "map rp_Address (em_To (PrepareDryRun em b)) = map rp_Address (em_To em)"
  by (simp add: PrepareDryRun_def Let_def setPrefix_def markDryRun_def o_def)

lemma PrepareDryRun_idem: "PrepareDryRun (PrepareDryRun em b) b = PrepareDryRun em b"
proof -
  have "dryRunHeaders (dryRunHeaders h) = dryRunHeaders h" for h
    by (auto simp: dryRunHeaders_def fun_eq_iff)
  moreover have "HasPrefix (DryRunSubjectPrefix @ s) DryRunSubjectPrefix" for s by (simp add: HasPrefix_def)
  then have "dryRunSubject (dryRunSubject s) = dryRunSubject s" for s by (simp add: dryRunSubject_def)
  ultimately show ?thesis
    by (cases em) (simp add: PrepareDryRun_def Let_def setPrefix_def markDryRun_def delete_idem)
qed

section \<open>The dummy client\<close>

text \<open>A zero status counts as an acceptance.\<close>

record dummy_response =
  ds_Status :: int
  ds_Body :: string
  ds_PMUID :: string

definition response_refused :: "dummy_response \<Rightarrow> bool" where
  "response_refused r \<longleftrightarrow> ds_Status r \<noteq> 0 \<and> (ds_Status r < 200 \<or> ds_Status r \<ge> 300)"

definition sprint_int :: "int \<Rightarrow> string" where
  "sprint_int i = (if i < 0 then ''-'' else '''') @ itoa (nat \<bar>i\<bar>)"

text \<open>\<open>RefusedError\<close>: the error chain starts at the answer of the service.\<close>

definition RefusedError :: "string \<Rightarrow> int \<Rightarrow> string \<Rightarrow> gerror" where
  "RefusedError recipient status body =
     Wrapped (Err (if TrimSpace body = '''' then ''HTTP '' @ sprint_int status
                   else ''HTTP '' @ sprint_int status @ '': '' @ TrimSpace body))
       (''dummy email service refused '' @ recipient)"

record accepted =
  ac_CorrelationID :: string
  ac_Recipient :: string
  ac_PMUID :: string
  ac_Message :: string
  ac_Headers :: string_map

text \<open>
  The hooks: the client's own \<open>RecordAccepted\<close>, a function of the caller, or \<open>Delayed\<close> of another hook,
  which starts a goroutine.
\<close>

datatype 'c accepted_hook = RecordHook | CallerHook 'c | DelayedHook go_duration "'c accepted_hook"

record sent_record =
  se_correlationID :: string
  se_recipient :: string
  se_pmuid :: string

text \<open>
  The client, with the goroutines its delayed hooks have started and that still sleep. The callback gets
  the address, the message and the headers.
\<close>

record ('c, 'e) dummy_client =
  dc_callback :: "(string \<Rightarrow> string \<Rightarrow> string_map \<Rightarrow> 'e \<Rightarrow> (gerror + dummy_response) \<times> 'e) option"
  dc_dryRun :: "('e \<Rightarrow> bool \<times> 'e) option"
  dc_hooks :: "'c accepted_hook list"
  dc_templates :: string_map
  dc_records :: "sent_record list"
  dc_sleeping :: "(go_duration \<times> 'c accepted_hook \<times> accepted) list"

definition NewDummyClient ::
  "(string \<Rightarrow> string \<Rightarrow> string_map \<Rightarrow> 'e \<Rightarrow> (gerror + dummy_response) \<times> 'e) option \<Rightarrow> ('c, 'e) dummy_client" where
  "NewDummyClient callback =
     \<lparr>dc_callback = callback, dc_dryRun = None, dc_hooks = [], dc_templates = Map.empty, dc_records = [],
      dc_sleeping = []\<rparr>"

definition SetDryRunCallback :: "('e \<Rightarrow> bool \<times> 'e) option \<Rightarrow> ('c, 'e) dummy_client \<Rightarrow> ('c, 'e) dummy_client" where
  "SetDryRunCallback callback c = c\<lparr>dc_dryRun := callback\<rparr>"

definition OnAccepted :: "'c accepted_hook option \<Rightarrow> ('c, 'e) dummy_client \<Rightarrow> ('c, 'e) dummy_client" where
  "OnAccepted hook c = (case hook of None \<Rightarrow> c | Some h \<Rightarrow> c\<lparr>dc_hooks := dc_hooks c @ [h]\<rparr>)"

definition RecordAcceptedAfter :: "go_duration \<Rightarrow> ('c, 'e) dummy_client \<Rightarrow> ('c, 'e) dummy_client" where
  "RecordAcceptedAfter d c = OnAccepted (Some (DelayedHook d RecordHook)) c"

definition AddTemplate ::
  "string \<Rightarrow> string \<Rightarrow> ('c, 'e) dummy_client \<Rightarrow> gerror option \<times> ('c, 'e) dummy_client" where
  "AddTemplate name source c =
     (if TrimSpace name = '''' then (Some ErrTemplateNameEmpty, c)
      else case template_Validate source of
        Some e \<Rightarrow> (Some (Wrapped e (''parse dummy email template '' @ name)), c)
      | None \<Rightarrow>
          (case dc_templates c name of
             Some old \<Rightarrow> (Some (Wrapped ErrTemplateExists name), c)
           | None \<Rightarrow> (None, c\<lparr>dc_templates := (dc_templates c)(name \<mapsto> source)\<rparr>)))"

definition RecordAccepted :: "accepted \<Rightarrow> ('c, 'e) dummy_client \<Rightarrow> ('c, 'e) dummy_client" where
  "RecordAccepted a c =
     c\<lparr>dc_records := dc_records c @
        [\<lparr>se_correlationID = ac_CorrelationID a, se_recipient = ac_Recipient a, se_pmuid = ac_PMUID a\<rparr>]\<rparr>"

text \<open>The variables are merged by \<open>maps.Clone\<close> and \<open>maps.Copy\<close>.\<close>

definition dummy_render ::
  "(go_any \<Rightarrow> string) \<Rightarrow> ('c, 'e) dummy_client \<Rightarrow> string \<Rightarrow> string \<Rightarrow> go_any vars \<Rightarrow> gerror + string" where
  "dummy_render sprint c templateID message variables =
     (case (if templateID \<noteq> ''''
            then (case dc_templates c templateID of
                    None \<Rightarrow> Inl (Wrapped ErrTemplateNotFound templateID) | Some registered \<Rightarrow> Inr registered)
            else Inr message) of
        Inl e \<Rightarrow> Inl e
      | Inr source \<Rightarrow>
          (case template_Render sprint source variables of
             (s, Some e) \<Rightarrow> Inl e | (s, None) \<Rightarrow> Inr s))"

record callback_message =
  cm_emailAddress :: string
  cm_message :: string
  cm_headers :: string_map

fun dummy_messages ::
  "(go_any \<Rightarrow> string) \<Rightarrow> ('e \<Rightarrow> gerror option \<times> 'e) \<Rightarrow> ('c, 'e) dummy_client \<Rightarrow> go_email \<Rightarrow>
     go_any vars recipient list \<Rightarrow> 'e \<Rightarrow> (gerror + callback_message list) \<times> 'e" where
  "dummy_messages sprint ctxErr c em [] e = (Inr [], e)"
| "dummy_messages sprint ctxErr c em (r # rs) e =
     (case ctxErr e of
        (Some err, e1) \<Rightarrow> (Inl err, e1)
      | (None, e1) \<Rightarrow>
          (case dummy_render sprint c (em_TemplateID em) (em_Text em)
                  (mergedVariables (em_Variables em) (rp_Variables r)) of
             Inl err \<Rightarrow> (Inl (Wrapped err (''render email for '' @ ad_Email (rp_Address r))), e1)
           | Inr message \<Rightarrow>
               (case dummy_messages sprint ctxErr c em rs e1 of
                  (Inl err, e2) \<Rightarrow> (Inl err, e2)
                | (Inr ms, e2) \<Rightarrow>
                    (Inr (\<lparr>cm_emailAddress = ad_Email (rp_Address r), cm_message = message,
                           cm_headers = em_Headers em\<rparr> # ms), e2))))"

definition dummy_newPMUID :: "('e \<Rightarrow> (gerror + string) \<times> 'e) \<Rightarrow> 'e \<Rightarrow> (gerror + string) \<times> 'e" where
  "dummy_newPMUID rand e =
     (case rand e of
        (Inl err, e1) \<Rightarrow> (Inl (Wrapped err ''generate dummy PMUID''), e1)
      | (Inr bytes, e1) \<Rightarrow> (Inr (''dummy-'' @ hex_encode bytes), e1))"

text \<open>A hook runs inside \<open>send\<close>; a delayed one only starts its goroutine.\<close>

fun run_hook ::
  "('c \<Rightarrow> accepted \<Rightarrow> 'e \<Rightarrow> 'e) \<Rightarrow> accepted \<Rightarrow> 'c accepted_hook \<Rightarrow> ('c, 'e) dummy_client \<times> 'e \<Rightarrow>
     ('c, 'e) dummy_client \<times> 'e" where
  "run_hook caller a RecordHook (c, e) = (RecordAccepted a c, e)"
| "run_hook caller a (CallerHook f) (c, e) = (c, caller f a e)"
| "run_hook caller a (DelayedHook d h) (c, e) = (c\<lparr>dc_sleeping := dc_sleeping c @ [(d, h, a)]\<rparr>, e)"

text \<open>A goroutine wakes and runs its hook.\<close>

definition wake ::
  "('c \<Rightarrow> accepted \<Rightarrow> 'e \<Rightarrow> 'e) \<Rightarrow> nat \<Rightarrow> ('c, 'e) dummy_client \<times> 'e \<Rightarrow> ('c, 'e) dummy_client \<times> 'e" where
  "wake caller i s =
     (case s of (c, e) \<Rightarrow>
        if i < length (dc_sleeping c)
        then (case dc_sleeping c ! i of (d, h, a) \<Rightarrow>
                run_hook caller a h
                  (c\<lparr>dc_sleeping := take i (dc_sleeping c) @ drop (Suc i) (dc_sleeping c)\<rparr>, e))
        else (c, e))"

text \<open>The loop of \<open>send\<close> over the messages; the callback and the hooks are those of the start.\<close>

fun dummy_send ::
  "('c \<Rightarrow> accepted \<Rightarrow> 'e \<Rightarrow> 'e) \<Rightarrow> ('e \<Rightarrow> (gerror + string) \<times> 'e) \<Rightarrow> ('e \<Rightarrow> gerror option \<times> 'e) \<Rightarrow>
     (string \<Rightarrow> string \<Rightarrow> string_map \<Rightarrow> 'e \<Rightarrow> (gerror + dummy_response) \<times> 'e) \<Rightarrow> 'c accepted_hook list \<Rightarrow>
     callback_message list \<Rightarrow> ('c, 'e) dummy_client \<times> 'e \<Rightarrow>
     (gerror + send_result) \<times> ('c, 'e) dummy_client \<times> 'e" where
  "dummy_send caller rand ctxErr callback hooks [] s = (Inr [], s)"
| "dummy_send caller rand ctxErr callback hooks (m # ms) (c, e) =
     (case ctxErr e of
        (Some err, e1) \<Rightarrow> (Inl err, c, e1)
      | (None, e1) \<Rightarrow>
     (case callback (cm_emailAddress m) (cm_message m) (cm_headers m) e1 of
        (Inl err, e2) \<Rightarrow> (Inl (Wrapped err (''send email to '' @ cm_emailAddress m)), c, e2)
      | (Inr response, e2) \<Rightarrow>
          if response_refused response
          then (Inl (RefusedError (cm_emailAddress m) (ds_Status response) (ds_Body response)), c, e2)
          else
     (case (if ds_PMUID response = '''' then dummy_newPMUID rand e2 else (Inr (ds_PMUID response), e2)) of
        (Inl err, e3) \<Rightarrow> (Inl err, c, e3)
      | (Inr pmuid, e3) \<Rightarrow>
          (let a = \<lparr>ac_CorrelationID = string_index (cm_headers m) MessageIDHeader,
                    ac_Recipient = cm_emailAddress m, ac_PMUID = pmuid, ac_Message = cm_message m,
                    ac_Headers = cm_headers m\<rparr>
           in case dummy_send caller rand ctxErr callback hooks ms (fold (run_hook caller a) hooks (c, e3)) of
                (Inl err, s') \<Rightarrow> (Inl err, s')
              | (Inr pmuids, s') \<Rightarrow> (Inr (pmuid # pmuids), s')))))"

definition dummyClient_Send ::
  "(go_any \<Rightarrow> string) \<Rightarrow> ('c \<Rightarrow> accepted \<Rightarrow> 'e \<Rightarrow> 'e) \<Rightarrow> ('e \<Rightarrow> (gerror + string) \<times> 'e) \<Rightarrow>
     ('e \<Rightarrow> gerror option \<times> 'e) \<Rightarrow> (go_any vars, ('c, 'e) dummy_client \<times> 'e) email_client" where
  "dummyClient_Send sprint caller rand ctxErr em s =
     (case s of (c, e) \<Rightarrow>
      case ctxErr e of
        (Some err, e1) \<Rightarrow> (Inl err, c, e1)
      | (None, e1) \<Rightarrow>
     (case dc_callback c of
        None \<Rightarrow> (Inl ErrNilCallback, c, e1)
      | Some callback \<Rightarrow>
          if length (em_To em) = 0 then (Inl ErrNoRecipients, c, e1)
          else
     (case (case dc_dryRun c of None \<Rightarrow> (False, e1) | Some f \<Rightarrow> f e1) of
        (dryRun, e2) \<Rightarrow>
          (let em' = PrepareDryRun em dryRun in
           case dummy_messages sprint ctxErr c em' (em_To em') e2 of
             (Inl err, e3) \<Rightarrow> (Inl err, c, e3)
           | (Inr messages, e3) \<Rightarrow>
               dummy_send caller rand ctxErr callback (dc_hooks c) messages (c, e3)))))"

text \<open>\<open>same\<close> is \<open>strings.EqualFold\<close> on the two addresses.\<close>

fun findRecord :: "(string \<Rightarrow> string \<Rightarrow> bool) \<Rightarrow> verify_request \<Rightarrow> sent_record list \<Rightarrow> verify_result" where
  "findRecord same q [] = \<lparr>vs_Found = False, vs_PMUID = ''''\<rparr>"
| "findRecord same q (r # rs) =
     (if se_correlationID r = '''' \<or> se_correlationID r \<noteq> vr_CorrelationID q then findRecord same q rs
      else if \<not> same (se_recipient r) (vr_Recipient q) then findRecord same q rs
      else \<lparr>vs_Found = True, vs_PMUID = se_pmuid r\<rparr>)"

definition dummy_Verify ::
  "(string \<Rightarrow> string \<Rightarrow> bool) \<Rightarrow> ('e \<Rightarrow> gerror option \<times> 'e) \<Rightarrow> (('c, 'e) dummy_client \<times> 'e) email_verifier" where
  "dummy_Verify same ctxErr q s =
     (case s of (c, e) \<Rightarrow>
      case ctxErr e of
        (Some err, e1) \<Rightarrow> (Inl err, c, e1)
      | (None, e1) \<Rightarrow> (Inr (findRecord same q (dc_records c)), c, e1))"

section \<open>The dummy client keeps the contract\<close>

lemma dummy_messages_parts:
  "dummy_messages sprint ctxErr c em rs e = (Inr ms, e') \<Longrightarrow>
     map cm_emailAddress ms = map (\<lambda>r. ad_Email (rp_Address r)) rs \<and> (\<forall>m \<in> set ms. cm_headers m = em_Headers em)"
  by (induction rs arbitrary: e ms) (auto split: prod.splits sum.splits option.splits)

lemma dummy_messages_length:
  assumes "dummy_messages sprint ctxErr c em rs e = (Inr ms, e')"
  shows "length ms = length rs"
  using dummy_messages_parts [OF assms] by (metis length_map)

lemma dummy_newPMUID_nonempty: "dummy_newPMUID rand e = (Inr u, e') \<Longrightarrow> u \<noteq> ''''"
  by (auto simp: dummy_newPMUID_def split: prod.splits sum.splits)

text \<open>An iteration that succeeds: what was accepted, and the state the next iteration starts from.\<close>

lemma dummy_send_Cons:
  assumes "dummy_send caller rand ctxErr callback hooks (m # ms) s = (Inr ids, s')"
  obtains u us e3 where "ids = u # us" "u \<noteq> ''''"
    "dummy_send caller rand ctxErr callback hooks ms
       (fold (run_hook caller \<lparr>ac_CorrelationID = string_index (cm_headers m) MessageIDHeader,
          ac_Recipient = cm_emailAddress m, ac_PMUID = u, ac_Message = cm_message m,
          ac_Headers = cm_headers m\<rparr>) hooks (fst s, e3)) = (Inr us, s')"
  using assms
  by (cases s) (auto simp: Let_def dest: dummy_newPMUID_nonempty split: prod.splits sum.splits option.splits if_splits)

lemma dummy_send_pmuids:
  "dummy_send caller rand ctxErr callback hooks ms s = (Inr ids, s') \<Longrightarrow> length ids = length ms \<and> '''' \<notin> set ids"
proof (induction ms arbitrary: s ids)
  case (Cons m ms)
  from Cons.prems show ?case by (rule dummy_send_Cons) (auto dest: Cons.IH)
qed simp

lemma dummy_Send_Inr:
  assumes "dummyClient_Send sprint caller rand ctxErr em (c, e) = (Inr ids, s')"
  obtains callback dryRun ms e2 e3 where "dc_callback c = Some callback"
    "dummy_messages sprint ctxErr c (PrepareDryRun em dryRun) (em_To (PrepareDryRun em dryRun)) e2 = (Inr ms, e3)"
    "dummy_send caller rand ctxErr callback (dc_hooks c) ms (c, e3) = (Inr ids, s')"
  using assms by (auto simp: dummyClient_Send_def Let_def split: prod.splits sum.splits option.splits if_splits)

interpretation dummy_provider: email_provider "dummyClient_Send sprint caller rand ctxErr"
  for sprint :: "go_any \<Rightarrow> string" and caller :: "'c \<Rightarrow> accepted \<Rightarrow> 'e \<Rightarrow> 'e"
    and rand :: "'e \<Rightarrow> (gerror + string) \<times> 'e" and ctxErr :: "'e \<Rightarrow> gerror option \<times> 'e"
proof unfold_locales
  fix em :: go_email and s s' :: "('c, 'e) dummy_client \<times> 'e" and ids
  assume a: "dummyClient_Send sprint caller rand ctxErr em s = (Inr ids, s')"
  obtain c e where s: "s = (c, e)" by (cases s)
  from a [unfolded s] show "length ids = length (em_To em) \<and> '''' \<notin> set ids"
  proof (rule dummy_Send_Inr)
    fix callback dryRun ms e2 e3
    assume "dummy_messages sprint ctxErr c (PrepareDryRun em dryRun) (em_To (PrepareDryRun em dryRun)) e2 = (Inr ms, e3)"
      and "dummy_send caller rand ctxErr callback (dc_hooks c) ms (c, e3) = (Inr ids, s')"
    from dummy_messages_length [OF this(1)] dummy_send_pmuids [OF this(2)] show ?thesis by simp
  qed
qed

section \<open>What the dummy client records\<close>

definition sentRecordOf :: "callback_message \<Rightarrow> string \<Rightarrow> sent_record" where
  "sentRecordOf m u = \<lparr>se_correlationID = string_index (cm_headers m) MessageIDHeader,
     se_recipient = cm_emailAddress m, se_pmuid = u\<rparr>"

definition record_of :: "accepted \<Rightarrow> sent_record" where
  "record_of a = \<lparr>se_correlationID = ac_CorrelationID a, se_recipient = ac_Recipient a, se_pmuid = ac_PMUID a\<rparr>"

lemma run_hook_records:
  "dc_records (fst (run_hook caller a h s)) = dc_records (fst s) @ (if h = RecordHook then [record_of a] else [])"
  by (cases s; cases h) (simp_all add: RecordAccepted_def record_of_def)

lemma fold_hooks_records:
  "dc_records (fst (fold (run_hook caller a) hooks s)) =
     dc_records (fst s) @ replicate (length (filter (\<lambda>h. h = RecordHook) hooks)) (record_of a)"
  by (induction hooks arbitrary: s) (simp_all add: run_hook_records replicate_app_Cons_same)

text \<open>The records a successful Send adds are one per recipient and registration of \<open>RecordAccepted\<close>.\<close>

lemma dummy_send_records:
  assumes "dummy_send caller rand ctxErr callback hooks ms s = (Inr ids, s')"
  shows "dc_records (fst s') = dc_records (fst s) @
    concat (map2 (\<lambda>m u. replicate (length (filter (\<lambda>h. h = RecordHook) hooks)) (sentRecordOf m u)) ms ids)"
  using assms
proof (induction ms arbitrary: s ids)
  case (Cons m ms)
  from Cons.prems show ?case
  proof (rule dummy_send_Cons)
    fix u us e3
    let ?a = "\<lparr>ac_CorrelationID = string_index (cm_headers m) MessageIDHeader, ac_Recipient = cm_emailAddress m,
      ac_PMUID = u, ac_Message = cm_message m, ac_Headers = cm_headers m\<rparr>"
    assume ids: "ids = u # us"
      and r: "dummy_send caller rand ctxErr callback hooks ms (fold (run_hook caller ?a) hooks (fst s, e3)) = (Inr us, s')"
    have "record_of ?a = sentRecordOf m u" by (simp add: record_of_def sentRecordOf_def)
    with Cons.IH [OF r] ids show ?thesis by (simp add: fold_hooks_records)
  qed
qed simp

lemma findRecord_found:
  assumes "r \<in> set rs" "se_correlationID r = vr_CorrelationID q" "vr_CorrelationID q \<noteq> ''''"
    "same (se_recipient r) (vr_Recipient q)"
  shows "vs_Found (findRecord same q rs)"
  using assms by (induction rs) auto

lemma findRecord_sound:
  assumes "vs_Found (findRecord same q rs)"
  shows "\<exists>r \<in> set rs. se_correlationID r = vr_CorrelationID q \<and> same (se_recipient r) (vr_Recipient q) \<and>
    vs_PMUID (findRecord same q rs) = se_pmuid r"
  using assms by (induction rs) (auto split: if_splits)

lemma MessageIDHeader_kept: "string_index (em_Headers (PrepareDryRun em b)) MessageIDHeader = string_index (em_Headers em) MessageIDHeader"
  by (simp add: PrepareDryRun_def Let_def setPrefix_def markDryRun_def dryRunHeaders_def string_index_def
      EqualFold_def MessageIDHeader_def DryRunHeader_def asciiLower_def)



definition dummy_demo_client :: "(unit, nat) dummy_client" where
  "dummy_demo_client = OnAccepted (Some RecordHook)
     (NewDummyClient (Some (\<lambda>address message headers n. (Inr \<lparr>ds_Status = 0, ds_Body = '''', ds_PMUID = ''p''\<rparr>, Suc n))))"

abbreviation dummy_demo_ctx :: "nat \<Rightarrow> gerror option \<times> nat" where
  "dummy_demo_ctx n \<equiv> (None, n)"

definition dummy_demo_request :: "go_any vars durable_request" where
  "dummy_demo_request =
     \<lparr>dr_messageID = ''m'', dr_senderEmail = ''s'', dr_senderName = '''', dr_subject = '''', dr_templateID = '''',
      dr_text = '''', dr_variables = [], dr_headers = Map.empty, dr_metadata = Map.empty\<rparr>"

definition dummy_demo_recipient :: "go_any vars durable_recipient" where
  "dummy_demo_recipient = \<lparr>rc_email = ''a'', rc_name = '''', rc_variables = []\<rparr>"

lemma dummy_demo_read:
  "readRequest (\<lambda>_. None) (\<lambda>_. Inr []) demo_unmarshalMap ''t'' demo_waiting = Inr dummy_demo_request"
  by (simp add: readRequest_def demo_waiting_def demo_accepted_def demo_unmarshalMap_def dummy_demo_request_def)

lemma dummy_demo_sent:
  "\<exists>c'. dummyClient_Send (\<lambda>_. '''') (\<lambda>_ _ n. n) (\<lambda>n. (Inr ''b'', n)) dummy_demo_ctx
     (newEmail dummy_demo_request [dummy_demo_recipient]) (dummy_demo_client, 0) = (Inr [''p''], c', 1)"
  by (simp add: dummyClient_Send_def dummy_demo_client_def OnAccepted_def NewDummyClient_def newEmail_def
      dummy_demo_request_def dummy_demo_recipient_def PrepareDryRun_def Let_def dummy_render_def mergedVariables_def
      template_Render_def template_Validate_def firstMissing_def replaceAll_def str_Contains_def response_refused_def
      pieces.simps [of "[]"] placeholderAt_def)


end
