(* ===== verification/SweegoClient.thy ===== *)
theory SweegoClient
  imports DummyClient
begin

text \<open>
  The Sweego client (email_clients/clients/sweego/{client,email,email_models,template}.go) and what it makes of
  the provider's answers.

  The network is the parameter \<open>http\<close>; encoding and decoding of JSON, the check of a request's address and
  \<open>url.PathEscape\<close> are the operations of a record. A decoded JSON object is the list of its entries in the
  order a range over the map gives them; the definitions follow that order and the theorems hold for each.
\<close>

section \<open>Requests\<close>

record email_address =
  ea_Email :: string
  ea_Name :: string

record send_email_request =
  ser_Channel :: string
  ser_From :: email_address
  ser_Provider :: string
  ser_Subject :: string
  ser_Recipients :: "email_address list"
  ser_MessageTxt :: string
  ser_CampaignType :: string
  ser_DryRun :: bool
  ser_Headers :: string_map

record bulk_recipient =
  br_Email :: string
  br_Name :: string
  br_Variables :: "go_any vars"

record bulk_email_request =
  ber_Channel :: string
  ber_From :: email_address
  ber_Provider :: string
  ber_Subject :: string
  ber_Recipients :: "bulk_recipient list"
  ber_MessageTxt :: string
  ber_CampaignType :: string
  ber_TemplateID :: string
  ber_DryRun :: bool
  ber_Headers :: string_map

record create_template_request =
  ct_Name :: string
  ct_Template :: string

record update_template_request =
  ut_Name :: string
  ut_Template :: string
  ut_TemplateType :: string

record log_query =
  lq_Channel :: string
  lq_StartDate :: string
  lq_EndDate :: string
  lq_SearchWord :: string
  lq_Offset :: int
  lq_Size :: int

text \<open>The values that are passed to \<open>Do\<close> as a payload.\<close>

datatype sweego_payload =
    SingleSend send_email_request
  | BulkSend bulk_email_request
  | CreateTemplate create_template_request
  | UpdateTemplate update_template_request
  | LogQuery log_query

section \<open>The client\<close>

record sweego_options =
  so_Provider :: string
  so_CampaignType :: string
  so_DryRun :: bool

record 'e sweego_client =
  sg_baseURL :: string
  sg_token :: string
  sg_sendOptions :: sweego_options
  sg_dryRun :: "('e \<Rightarrow> bool \<times> 'e) option"

record http_result =
  hs_Status :: int
  hs_Headers :: "string \<Rightarrow> string list"
  hs_Body :: string

definition empty_result :: http_result where
  "empty_result = \<lparr>hs_Status = 0, hs_Headers = (\<lambda>_. []), hs_Body = ''''\<rparr>"

record outgoing =
  og_Method :: string
  og_URL :: string
  og_Header :: "string \<Rightarrow> string list"
  og_Body :: "string option"

text \<open>An answer: its status and headers, and the body as far as it can be read.\<close>

record incoming =
  ic_Status :: int
  ic_Header :: "string \<Rightarrow> string list"
  ic_Body :: "gerror + string"

datatype json =
    JNull | JBool bool | JNumber string | JString string | JArray "json list" | JObject "(string \<times> json) list"

record log_record =
  lr_Channel :: string
  lr_Status :: string
  lr_CampaignID :: string
  lr_DomainFrom :: string
  lr_DomainTo :: string
  lr_DryRun :: bool
  lr_EmailCreation :: string
  lr_EmailFrom :: string
  lr_EmailLastUpdate :: string
  lr_EmailState :: string
  lr_EmailTo :: string
  lr_Headers :: "(string \<times> json) list"
  lr_Subject :: string
  lr_SwgUID :: string
  lr_TransactionID :: string

record 'e sweego_io =
  si_marshal :: "sweego_payload \<Rightarrow> gerror + string"
  si_newRequest :: "string \<Rightarrow> string \<Rightarrow> gerror option"
  si_http :: "outgoing \<Rightarrow> 'e \<Rightarrow> (gerror + incoming) \<times> 'e"
  si_pathEscape :: "string \<Rightarrow> string"
  si_decodeAny :: "string \<Rightarrow> gerror + json"
  si_decodeUUID :: "string \<Rightarrow> gerror + string"
  si_decodeLogs :: "string \<Rightarrow> gerror + log_record list"
  si_toLower :: "string \<Rightarrow> string"
  si_ctxErr :: "'e \<Rightarrow> gerror option \<times> 'e"

definition NewSweegoClient :: "string \<Rightarrow> string \<Rightarrow> 'e sweego_client" where
  "NewSweegoClient baseURL token =
     \<lparr>sg_baseURL = baseURL, sg_token = token,
      sg_sendOptions = \<lparr>so_Provider = '''', so_CampaignType = '''', so_DryRun = False\<rparr>, sg_dryRun = None\<rparr>"

definition WithSendOptions :: "sweego_options \<Rightarrow> 'e sweego_client \<Rightarrow> 'e sweego_client" where
  "WithSendOptions options c = c\<lparr>sg_sendOptions := options\<rparr>"

text \<open>Without a payload there is no body. The result carries what is known of the answer on an error too.\<close>

definition sweego_Do ::
  "'e sweego_io \<Rightarrow> 'e sweego_client \<Rightarrow> string \<Rightarrow> string \<Rightarrow> sweego_payload option \<Rightarrow> 'e \<Rightarrow>
     (http_result \<times> gerror option) \<times> 'e" where
  "sweego_Do io c method path payload e =
     (case (case payload of
              None \<Rightarrow> Inr None
            | Some p \<Rightarrow> (case si_marshal io p of Inl err \<Rightarrow> Inl err | Inr body \<Rightarrow> Inr (Some body))) of
        Inl err \<Rightarrow> ((empty_result, Some (Wrapped err ''marshal request'')), e)
      | Inr body \<Rightarrow>
     (case si_newRequest io method (sg_baseURL c @ path) of
        Some err \<Rightarrow> ((empty_result, Some (Wrapped err ''build request'')), e)
      | None \<Rightarrow>
          (let h = (\<lambda>_. [])(''Api-Key'' := [sg_token c], ''Accept'' := [''application/json'']);
               request = \<lparr>og_Method = method, og_URL = sg_baseURL c @ path,
                          og_Header = (if payload \<noteq> None then h(''Content-Type'' := [''application/json'']) else h),
                          og_Body = body\<rparr>
           in case si_http io request e of
                (Inl err, e1) \<Rightarrow> ((empty_result, Some (Wrapped err ''request failed'')), e1)
              | (Inr resp, e1) \<Rightarrow>
                  (case ic_Body resp of
                     Inl err \<Rightarrow>
                       ((\<lparr>hs_Status = ic_Status resp, hs_Headers = ic_Header resp, hs_Body = ''''\<rparr>,
                         Some (Wrapped err ''read response body'')), e1)
                   | Inr text \<Rightarrow>
                       ((\<lparr>hs_Status = ic_Status resp, hs_Headers = ic_Header resp, hs_Body = text\<rparr>, None), e1)))))"

text \<open>A status outside 200 to 299.\<close>

definition non2xx :: "int \<Rightarrow> bool" where
  "non2xx status \<longleftrightarrow> status < 200 \<or> status \<ge> 300"

section \<open>Send\<close>

definition newEmailAddress :: "address \<Rightarrow> email_address" where
  "newEmailAddress a = \<lparr>ea_Email = ad_Email a, ea_Name = ad_Name a\<rparr>"

definition sweego_mergedVariables :: "'a vars \<Rightarrow> 'a vars \<Rightarrow> 'a vars" where
  "sweego_mergedVariables common recipient =
     (if length common = 0 \<and> length recipient = 0 then []
      else foldl (\<lambda>m (k, v). AList.update k v m) (foldl (\<lambda>m (k, v). AList.update k v m) [] common) recipient)"

text \<open>For an email with recipients; \<open>email.To[0]\<close> panics otherwise.\<close>

definition requiresBulkEndpoint :: "go_email \<Rightarrow> bool" where
  "requiresBulkEndpoint em =
     (if length (em_To em) \<noteq> 1 \<or> em_TemplateID em \<noteq> '''' \<or> length (em_Variables em) \<noteq> 0 then True
      else length (rp_Variables (hd (em_To em))) \<noteq> 0)"

definition singleRequest :: "'e sweego_client \<Rightarrow> go_email \<Rightarrow> send_email_request" where
  "singleRequest c em =
     \<lparr>ser_Channel = ''email'', ser_From = newEmailAddress (em_From em),
      ser_Provider = so_Provider (sg_sendOptions c), ser_Subject = em_Subject em,
      ser_Recipients = [newEmailAddress (rp_Address (hd (em_To em)))], ser_MessageTxt = em_Text em,
      ser_CampaignType = so_CampaignType (sg_sendOptions c), ser_DryRun = so_DryRun (sg_sendOptions c),
      ser_Headers = em_Headers em\<rparr>"

definition bulkRequest :: "'e sweego_client \<Rightarrow> go_email \<Rightarrow> bulk_email_request" where
  "bulkRequest c em =
     \<lparr>ber_Channel = ''email'', ber_From = newEmailAddress (em_From em),
      ber_Provider = so_Provider (sg_sendOptions c), ber_Subject = em_Subject em,
      ber_Recipients = map (\<lambda>r. \<lparr>br_Email = ad_Email (rp_Address r), br_Name = ad_Name (rp_Address r),
                                br_Variables = sweego_mergedVariables (em_Variables em) (rp_Variables r)\<rparr>) (em_To em),
      ber_MessageTxt = em_Text em, ber_CampaignType = so_CampaignType (sg_sendOptions c),
      ber_TemplateID = em_TemplateID em, ber_DryRun = so_DryRun (sg_sendOptions c), ber_Headers = em_Headers em\<rparr>"

section \<open>The identifiers of an answer\<close>

definition normalizedKey :: "(string \<Rightarrow> string) \<Rightarrow> string \<Rightarrow> string" where
  "normalizedKey toLower key = toLower (map (\<lambda>c. if c = CHR ''-'' then CHR ''_'' else c) key)"

definition json_string :: "json \<Rightarrow> string" where
  "json_string v = (case v of JString s \<Rightarrow> s | _ \<Rightarrow> '''')"

text \<open>The cases \<open>swg_uids\<close>: the entries of an object that are strings.\<close>

definition collectIdentifiers :: "json \<Rightarrow> (string \<times> string) list \<Rightarrow> (string \<times> string) list" where
  "collectIdentifiers child m =
     (case child of
        JObject identifiers \<Rightarrow>
          foldl (\<lambda>m (email, identifier). case identifier of JString text \<Rightarrow> AList.update email text m | _ \<Rightarrow> m)
            m identifiers
      | _ \<Rightarrow> m)"

text \<open>
  \<open>collectPMUIDs\<close> with its loops over the entries of an object, which carry the recipient and the identifier
  seen so far, and over the elements of an array.
\<close>

function (sequential) collectPMUIDs ::
    "(string \<Rightarrow> string) \<Rightarrow> json \<Rightarrow> (string \<times> string) list \<Rightarrow> (string \<times> string) list"
  and collectEntries ::
    "(string \<Rightarrow> string) \<Rightarrow> (string \<times> json) list \<Rightarrow> string \<times> string \<times> (string \<times> string) list \<Rightarrow>
       string \<times> string \<times> (string \<times> string) list"
  and collectElements ::
    "(string \<Rightarrow> string) \<Rightarrow> json list \<Rightarrow> (string \<times> string) list \<Rightarrow> (string \<times> string) list" where
  "collectPMUIDs lower (JObject entries) m =
     (case collectEntries lower entries ('''', '''', m) of
        (recipient, pmuid, m') \<Rightarrow>
          if recipient \<noteq> '''' \<and> pmuid \<noteq> '''' then AList.update recipient pmuid m' else m')"
| "collectPMUIDs lower (JArray children) m = collectElements lower children m"
| "collectPMUIDs lower v m = m"
| "collectEntries lower [] s = s"
| "collectEntries lower ((key, child) # es) (recipient, pmuid, m) =
     (let normalized = normalizedKey lower key;
          s = (if normalized \<in> {''swg_uids'', ''swguids''} then (recipient, pmuid, collectIdentifiers child m)
               else if normalized \<in> {''recipient'', ''email'', ''to''} then (json_string child, pmuid, m)
               else if normalized \<in> {''swg_uid'', ''swguid''} then (recipient, json_string child, m)
               else (recipient, pmuid, m))
      in collectEntries lower es (fst s, fst (snd s), collectPMUIDs lower child (snd (snd s))))"
| "collectElements lower [] m = m"
| "collectElements lower (v # vs) m = collectElements lower vs (collectPMUIDs lower v m)"
  by pat_completeness auto
termination
  by (relation "measure (\<lambda>x. case x of Inl (_, v, _) \<Rightarrow> size v
      | Inr (Inl (_, es, _)) \<Rightarrow> size_list (size_prod (\<lambda>_. 0) size) es
      | Inr (Inr (_, vs, _)) \<Rightarrow> size_list size vs)") auto

definition parsePMUIDs :: "'e sweego_io \<Rightarrow> string \<Rightarrow> gerror + (string \<times> string) list" where
  "parsePMUIDs io body =
     (case si_decodeAny io body of
        Inl err \<Rightarrow> Inl (Wrapped err ''decode Sweego send response'')
      | Inr root \<Rightarrow>
          (let pmuids = collectPMUIDs (si_toLower io) root [] in
           if length pmuids = 0 then Inl (Err ''sweego send response contains no swg_uid'') else Inr pmuids))"

text \<open>The identifier of one recipient, and the loop over them.\<close>

definition recipientPMUID :: "nat \<Rightarrow> (string \<times> string) list \<Rightarrow> string \<Rightarrow> string" where
  "recipientPMUID n pmuids address =
     (let pmuid = (case map_of pmuids address of None \<Rightarrow> '''' | Some u \<Rightarrow> u)
      in if pmuid = '''' \<and> n = 1 \<and> length pmuids = 1 then snd (hd pmuids) else pmuid)"

definition sendResults :: "(string \<times> string) list \<Rightarrow> go_email \<Rightarrow> gerror + send_result" where
  "sendResults pmuids em =
     res_map (\<lambda>r. let pmuid = recipientPMUID (length (em_To em)) pmuids (ad_Email (rp_Address r))
                 in if pmuid = '''' then Inl (Err (''sweego response has no swg_uid for recipient '' @ ad_Email (rp_Address r)))
                    else Inr pmuid) (em_To em)"

definition sweego_Send :: "'e sweego_io \<Rightarrow> 'e sweego_client \<Rightarrow> (go_any vars, 'e) email_client" where
  "sweego_Send io c0 em0 e =
     (case si_ctxErr io e of
        (Some err, e1) \<Rightarrow> (Inl err, e1)
      | (None, e1) \<Rightarrow>
          if length (em_To em0) = 0 then (Inl ErrNoRecipients, e1)
          else
     (case (case sg_dryRun c0 of
              None \<Rightarrow> (so_DryRun (sg_sendOptions c0), e1)
            | Some f \<Rightarrow> (case f e1 of (b, e2) \<Rightarrow> (b \<or> so_DryRun (sg_sendOptions c0), e2))) of
        (dryRun, e2) \<Rightarrow>
          (let c = WithSendOptions ((sg_sendOptions c0)\<lparr>so_DryRun := dryRun\<rparr>) c0;
               em = PrepareDryRun em0 dryRun;
               (path, request) = (if requiresBulkEndpoint em then (''/send/bulk/email'', BulkSend (bulkRequest c em))
                                  else (''/send'', SingleSend (singleRequest c em)))
           in case sweego_Do io c ''POST'' path (Some request) e2 of
                ((response, Some err), e3) \<Rightarrow> (Inl err, e3)
              | ((response, None), e3) \<Rightarrow>
                  if non2xx (hs_Status response)
                  then (Inl (Wrapped (Err (TrimSpace (hs_Body response)))
                               (''sweego send returned HTTP '' @ sprint_int (hs_Status response))), e3)
                  else (case parsePMUIDs io (hs_Body response) of
                          Inl err \<Rightarrow> (Inl err, e3)
                        | Inr pmuids \<Rightarrow> (sendResults pmuids em, e3)))))"

section \<open>Templates\<close>

definition templatesPath :: "'e sweego_io \<Rightarrow> string \<Rightarrow> string" where
  "templatesPath io clientUUID = ''/clients/'' @ si_pathEscape io clientUUID @ ''/channels/email/templates''"

definition templatePath :: "'e sweego_io \<Rightarrow> string \<Rightarrow> string \<Rightarrow> string" where
  "templatePath io clientUUID templateUUID = templatesPath io clientUUID @ ''/'' @ si_pathEscape io templateUUID"

definition sweego_CreateTemplate ::
  "'e sweego_io \<Rightarrow> 'e sweego_client \<Rightarrow> string \<Rightarrow> create_template_request \<Rightarrow> 'e \<Rightarrow> (http_result \<times> gerror option) \<times> 'e" where
  "sweego_CreateTemplate io c clientUUID req e =
     sweego_Do io c ''POST'' (templatesPath io clientUUID) (Some (CreateTemplate req)) e"

definition sweego_UpdateTemplate ::
  "'e sweego_io \<Rightarrow> 'e sweego_client \<Rightarrow> string \<Rightarrow> string \<Rightarrow> update_template_request \<Rightarrow> 'e \<Rightarrow>
     (http_result \<times> gerror option) \<times> 'e" where
  "sweego_UpdateTemplate io c clientUUID templateUUID req e =
     sweego_Do io c ''POST'' (templatePath io clientUUID templateUUID) (Some (UpdateTemplate req)) e"

definition sweego_GetTemplate ::
  "'e sweego_io \<Rightarrow> 'e sweego_client \<Rightarrow> string \<Rightarrow> string \<Rightarrow> 'e \<Rightarrow> (http_result \<times> gerror option) \<times> 'e" where
  "sweego_GetTemplate io c clientUUID templateUUID e =
     sweego_Do io c ''GET'' (templatePath io clientUUID templateUUID) None e"

definition sweego_DeleteTemplate ::
  "'e sweego_io \<Rightarrow> 'e sweego_client \<Rightarrow> string \<Rightarrow> string \<Rightarrow> 'e \<Rightarrow> (http_result \<times> gerror option) \<times> 'e" where
  "sweego_DeleteTemplate io c clientUUID templateUUID e =
     sweego_Do io c ''DELETE'' (templatePath io clientUUID templateUUID) None e"

definition TemplateUUID :: "'e sweego_io \<Rightarrow> string \<Rightarrow> gerror + string" where
  "TemplateUUID io body =
     (case si_decodeUUID io body of
        Inl err \<Rightarrow> Inl (Wrapped err ''decode template response JSON'')
      | Inr uuid \<Rightarrow> if uuid = '''' then Inl (Err ''no template uuid found in response'') else Inr uuid)"

section \<open>One identifier per recipient\<close>

lemma sweego_Send_Inr:
  assumes "sweego_Send io c em e = (Inr ids, e')"
  obtains b pmuids body where "parsePMUIDs io body = Inr pmuids" "sendResults pmuids (PrepareDryRun em b) = Inr ids"
  using assms by (auto simp: sweego_Send_def Let_def split: prod.splits option.splits sum.splits if_splits)

lemma sendResults_Inr:
  assumes "sendResults pmuids em = Inr ids"
  shows "ids = map (\<lambda>r. recipientPMUID (length (em_To em)) pmuids (ad_Email (rp_Address r))) (em_To em)" "'''' \<notin> set ids"
proof -
  have l: "list_all2 (\<lambda>r u. u = recipientPMUID (length (em_To em)) pmuids (ad_Email (rp_Address r)) \<and> u \<noteq> '''') (em_To em) ids"
    using assms unfolding sendResults_def res_map_Inr
    by (rule list_all2_mono) (auto simp: Let_def split: if_splits)
  then show "ids = map (\<lambda>r. recipientPMUID (length (em_To em)) pmuids (ad_Email (rp_Address r))) (em_To em)"
    by (auto simp: list_all2_conv_all_nth intro: nth_equalityI)
  from l show "'''' \<notin> set ids" by (auto simp: list_all2_conv_all_nth in_set_conv_nth)
qed

interpretation sweego_provider: email_provider "sweego_Send io c" for io :: "'e sweego_io" and c
proof unfold_locales
  fix em :: go_email and e e' :: 'e and ids
  assume "sweego_Send io c em e = (Inr ids, e')"
  then show "length ids = length (em_To em) \<and> '''' \<notin> set ids"
    by (rule sweego_Send_Inr) (auto dest: sendResults_Inr)
qed

section \<open>Whose identifier it is\<close>

text \<open>What a decoded answer says: \<open>reports lower v a u\<close> when somewhere in \<open>v\<close> the identifier of \<open>a\<close> is \<open>u\<close>.\<close>

inductive reports :: "(string \<Rightarrow> string) \<Rightarrow> json \<Rightarrow> string \<Rightarrow> string \<Rightarrow> bool" for lower where
  listed: "(key, JObject ids) \<in> set es \<Longrightarrow> normalizedKey lower key \<in> {''swg_uids'', ''swguids''} \<Longrightarrow>
    (a, JString u) \<in> set ids \<Longrightarrow> reports lower (JObject es) a u"
| named: "(k, JString a) \<in> set es \<Longrightarrow> normalizedKey lower k \<in> {''recipient'', ''email'', ''to''} \<Longrightarrow>
    (k', JString u) \<in> set es \<Longrightarrow> normalizedKey lower k' \<in> {''swg_uid'', ''swguid''} \<Longrightarrow>
    reports lower (JObject es) a u"
| entry: "(k, v) \<in> set es \<Longrightarrow> reports lower v a u \<Longrightarrow> reports lower (JObject es) a u"
| element: "v \<in> set vs \<Longrightarrow> reports lower v a u \<Longrightarrow> reports lower (JArray vs) a u"

lemma set_update: "x \<in> set (AList.update k v m) \<Longrightarrow> x = (k, v) \<or> x \<in> set m"
  by (induction m) (auto split: if_splits)

lemma json_string_nonempty: "json_string v = s \<Longrightarrow> s \<noteq> '''' \<Longrightarrow> v = JString s"
  by (cases v) (auto simp: json_string_def)

lemma collectIdentifiers_sound:
  assumes "(a, u) \<in> set (collectIdentifiers child m)"
  shows "(a, u) \<in> set m \<or> (\<exists>ids. child = JObject ids \<and> (a, JString u) \<in> set ids)"
proof (cases child)
  case (JObject ids)
  have "(a, u) \<in> set (foldl (\<lambda>m (email, identifier). case identifier of JString text \<Rightarrow> AList.update email text m | _ \<Rightarrow> m) m ids) \<Longrightarrow>
      (a, u) \<in> set m \<or> (a, JString u) \<in> set ids" for m
  proof (induction ids arbitrary: m)
    case (Cons p ps)
    obtain k v where p: "p = (k, v)" by (cases p)
    show ?case
    proof (cases v)
      case (JString t)
      with Cons.prems p have "(a, u) \<in> set (AList.update k t m) \<or> (a, JString u) \<in> set ps" by (auto dest: Cons.IH)
      with p JString show ?thesis by (auto dest: set_update)
    qed (use Cons.prems p in \<open>auto dest: Cons.IH\<close>)
  qed simp
  with assms JObject show ?thesis by (simp add: collectIdentifiers_def)
qed (use assms in \<open>auto simp: collectIdentifiers_def\<close>)

definition field :: "(string \<Rightarrow> string) \<Rightarrow> (string \<times> json) list \<Rightarrow> string set \<Rightarrow> string \<Rightarrow> bool" where
  "field lower es keys a \<longleftrightarrow> a = '''' \<or> (\<exists>k. (k, JString a) \<in> set es \<and> normalizedKey lower k \<in> keys)"

text \<open>From one state of the loop over the entries \<open>es\<close> to a later one.\<close>

definition entries_step ::
  "(string \<Rightarrow> string) \<Rightarrow> (string \<times> json) list \<Rightarrow> string \<times> string \<times> (string \<times> string) list \<Rightarrow>
     string \<times> string \<times> (string \<times> string) list \<Rightarrow> bool" where
  "entries_step lower es s s' \<longleftrightarrow>
     (\<forall>x \<in> set (snd (snd s')). x \<in> set (snd (snd s)) \<or> reports lower (JObject es) (fst x) (snd x)) \<and>
     (fst s' = fst s \<or> field lower es {''recipient'', ''email'', ''to''} (fst s')) \<and>
     (fst (snd s') = fst (snd s) \<or> field lower es {''swg_uid'', ''swguid''} (fst (snd s')))"

lemma entries_step_trans: "entries_step lower es s t \<Longrightarrow> entries_step lower es t u \<Longrightarrow> entries_step lower es s u"
  unfolding entries_step_def by metis

lemma field_json_string: "(k, v) \<in> set es \<Longrightarrow> normalizedKey lower k \<in> keys \<Longrightarrow> field lower es keys (json_string v)"
  by (cases v) (auto simp: field_def json_string_def)

text \<open>The end of an object, and one entry of it.\<close>

lemma object_end:
  assumes "entries_step lower es ('''', '''', m) (r, u, m')"
    "x \<in> set (if r \<noteq> '''' \<and> u \<noteq> '''' then AList.update r u m' else m')"
  shows "x \<in> set m \<or> reports lower (JObject es) (fst x) (snd x)"
proof (cases "r \<noteq> '''' \<and> u \<noteq> ''''")
  case True
  have "field lower es {''recipient'', ''email'', ''to''} r" "field lower es {''swg_uid'', ''swguid''} u"
    using assms(1) by (auto simp: entries_step_def field_def)
  with True have "reports lower (JObject es) r u" unfolding field_def by (blast intro: reports.named)
  with True assms show ?thesis by (auto simp: entries_step_def dest!: set_update)
qed (use assms in \<open>auto simp: entries_step_def\<close>)

lemma entry_step:
  assumes "(key, child) \<in> set es"
  shows "entries_step lower es (recipient, pmuid, m)
    (if normalizedKey lower key \<in> {''swg_uids'', ''swguids''} then (recipient, pmuid, collectIdentifiers child m)
     else if normalizedKey lower key \<in> {''recipient'', ''email'', ''to''} then (json_string child, pmuid, m)
     else if normalizedKey lower key \<in> {''swg_uid'', ''swguid''} then (recipient, json_string child, m)
     else (recipient, pmuid, m))"
  using assms field_json_string [OF assms]
  by (auto simp: entries_step_def dest!: collectIdentifiers_sound intro: reports.listed)

lemma collect_sound:
  "\<forall>x \<in> set (collectPMUIDs lower v m). x \<in> set m \<or> reports lower v (fst x) (snd x)"
  "\<forall>all. set es \<subseteq> set all \<longrightarrow> entries_step lower all s (collectEntries lower es s)"
  "\<forall>all. set vs \<subseteq> set all \<longrightarrow>
     (\<forall>x \<in> set (collectElements lower vs m). x \<in> set m \<or> reports lower (JArray all) (fst x) (snd x))"
proof (induction lower v m and lower es s and lower vs m rule: collectPMUIDs_collectEntries_collectElements.induct)
  case (1 lower entries m)
  obtain r u m' where c: "collectEntries lower entries ('''', '''', m) = (r, u, m')" by (metis prod.exhaust)
  from 1 c have "entries_step lower entries ('''', '''', m) (r, u, m')" by auto
  from object_end [OF this] show ?case using c by auto
next
  case (4 lower)
  then show ?case by (simp add: entries_step_def)
next
  case (5 lower key child es recipient pmuid m)
  show ?case
  proof (intro allI impI)
    fix all :: "(string \<times> json) list"
    assume sub: "set ((key, child) # es) \<subseteq> set all"
    then have mem: "(key, child) \<in> set all" by simp
    let ?n = "normalizedKey lower key"
    define s where "s = (if ?n \<in> {''swg_uids'', ''swguids''} then (recipient, pmuid, collectIdentifiers child m)
               else if ?n \<in> {''recipient'', ''email'', ''to''} then (json_string child, pmuid, m)
               else if ?n \<in> {''swg_uid'', ''swguid''} then (recipient, json_string child, m)
               else (recipient, pmuid, m))"
    have one: "entries_step lower all (recipient, pmuid, m) s" unfolding s_def by (rule entry_step [OF mem])
    note ih = 5 [OF refl s_def]
    let ?s1 = "(fst s, fst (snd s), collectPMUIDs lower child (snd (snd s)))"
    have child: "entries_step lower all s ?s1"
      using ih(1) mem by (auto simp: entries_step_def intro: reports.entry)
    have rest: "entries_step lower all ?s1 (collectEntries lower es ?s1)" using ih(2) sub by simp
    have eq: "collectEntries lower ((key, child) # es) (recipient, pmuid, m) = collectEntries lower es ?s1"
      by (simp only: collectEntries.simps Let_def s_def)
    show "entries_step lower all (recipient, pmuid, m) (collectEntries lower ((key, child) # es) (recipient, pmuid, m))"
      unfolding eq by (rule entries_step_trans [OF entries_step_trans [OF one child] rest])
  qed
next
  case (7 lower v vs m)
  show ?case
  proof (intro allI impI)
    fix all assume sub: "set (v # vs) \<subseteq> set all"
    then have "\<forall>x \<in> set (collectElements lower vs (collectPMUIDs lower v m)).
        x \<in> set (collectPMUIDs lower v m) \<or> reports lower (JArray all) (fst x) (snd x)" using 7(2) by simp
    moreover from sub 7(1) have "\<forall>x \<in> set (collectPMUIDs lower v m). x \<in> set m \<or> reports lower (JArray all) (fst x) (snd x)"
      by (auto intro: reports.element)
    ultimately show "\<forall>x \<in> set (collectElements lower (v # vs) m). x \<in> set m \<or> reports lower (JArray all) (fst x) (snd x)"
      by simp blast
  qed
qed simp_all

lemma sweego_Do_answered:
  assumes "sweego_Do io c method path (Some p) e = ((r, None), e')"
  shows "\<exists>body request resp. si_marshal io p = Inr body \<and> og_Body request = Some body \<and>
    og_Method request = method \<and> og_URL request = sg_baseURL c @ path \<and>
    si_http io request e = (Inr resp, e') \<and> ic_Body resp = Inr (hs_Body r) \<and> hs_Status r = ic_Status resp"
  using assms
  by (auto simp: sweego_Do_def Let_def split: sum.splits option.splits prod.splits)
    (metis outgoing.select_convs)

text \<open>An entry of the collected identifiers comes from the answer.\<close>

lemma recipientPMUID_reported:
  assumes "parsePMUIDs io body = Inr pmuids" "recipientPMUID n pmuids a \<noteq> ''''"
  shows "\<exists>root. si_decodeAny io body = Inr root \<and>
    (reports (si_toLower io) root a (recipientPMUID n pmuids a) \<or>
     n = 1 \<and> (\<exists>a'. reports (si_toLower io) root a' (recipientPMUID n pmuids a)))"
proof -
  from assms(1) obtain root where root: "si_decodeAny io body = Inr root" "pmuids = collectPMUIDs (si_toLower io) root []"
    by (auto simp: parsePMUIDs_def Let_def split: sum.splits if_splits)
  have all: "reports (si_toLower io) root (fst x) (snd x)" if "x \<in> set pmuids" for x
    using collect_sound(1) [of "si_toLower io" root "[]"] that root(2) by simp
  show ?thesis
  proof (cases "map_of pmuids a = None \<or> map_of pmuids a = Some ''''")
    case True
    with assms(2) have n: "n = 1" "length pmuids = 1" "recipientPMUID n pmuids a = snd (hd pmuids)"
      by (auto simp: recipientPMUID_def Let_def split: if_splits)
    then have "hd pmuids \<in> set pmuids" by (cases pmuids) auto
    from all [OF this] n root(1) show ?thesis by auto
  next
    case False
    then obtain u where u: "map_of pmuids a = Some u" "u \<noteq> ''''" by auto
    then have "recipientPMUID n pmuids a = u" by (simp add: recipientPMUID_def)
    with all [OF map_of_SomeD [OF u(1)]] root(1) show ?thesis by auto
  qed
qed


definition sweego_demo_io :: "nat sweego_io" where
  "sweego_demo_io =
     \<lparr>si_marshal = (\<lambda>_. Inr ''{}''), si_newRequest = (\<lambda>_ _. None),
      si_http = (\<lambda>request n. (Inr \<lparr>ic_Status = 200, ic_Header = (\<lambda>_. []), ic_Body = Inr ''answer''\<rparr>, Suc n)),
      si_pathEscape = id,
      si_decodeAny = (\<lambda>_. Inr (JObject [(''swg-uids'', JObject [(''b'', JString ''ub''), (''a'', JString ''ua'')])])),
      si_decodeUUID = Inr, si_decodeLogs = (\<lambda>_. Inr []), si_toLower = id, si_ctxErr = (\<lambda>n. (None, n))\<rparr>"

definition sweego_demo_email :: go_email where
  "sweego_demo_email =
     \<lparr>em_From = \<lparr>ad_Email = ''s'', ad_Name = ''''\<rparr>,
      em_To = [\<lparr>rp_Address = \<lparr>ad_Email = ''a'', ad_Name = ''''\<rparr>, rp_Variables = []\<rparr>,
               \<lparr>rp_Address = \<lparr>ad_Email = ''b'', ad_Name = ''''\<rparr>, rp_Variables = []\<rparr>],
      em_Subject = ''x'', em_TemplateID = '''', em_Text = ''y'', em_Variables = [], em_Headers = Map.empty\<rparr>"

lemma sweego_demo_sent:
  "sweego_Send sweego_demo_io (NewSweegoClient ''u'' ''t'') sweego_demo_email 0 = (Inr [''ua'', ''ub''], 1)"
  by (simp add: sweego_Send_def sweego_demo_io_def NewSweegoClient_def sweego_demo_email_def WithSendOptions_def Let_def
      PrepareDryRun_def sweego_Do_def non2xx_def parsePMUIDs_def normalizedKey_def collectIdentifiers_def sendResults_def
      recipientPMUID_def requiresBulkEndpoint_def)


section \<open>Webhooks\<close>

text \<open>
  The signature of a webhook (webhook.go), which no handler checks yet: the base64 of the HMAC-SHA256 of identifier,
  time and body, under the decoded secret. The base64 functions and the HMAC are parameters.
\<close>

definition verifySweegoSignature ::
  "(string \<Rightarrow> gerror + string) \<Rightarrow> (string \<Rightarrow> string) \<Rightarrow> (string \<Rightarrow> string \<Rightarrow> string) \<Rightarrow>
     string \<Rightarrow> string \<Rightarrow> string \<Rightarrow> string \<Rightarrow> string \<Rightarrow> bool" where
  "verifySweegoSignature decode encode hmac secret webhookID webhookTimestamp rawBody receivedSignature =
     (case decode secret of
        Inl err \<Rightarrow> False
      | Inr key \<Rightarrow>
          encode (hmac key (webhookID @ ''.'' @ webhookTimestamp @ ''.'' @ rawBody)) = receivedSignature)"

end
