(* ===== verification/SweegoLogs.thy ===== *)
theory SweegoLogs
  imports SweegoClient
begin

text \<open>
  Sweego's logs (email_clients/clients/sweego/logs): looking an interrupted submission up again, for every
  recipient (\<open>Recover\<close>) or for one message (\<open>Verifier.Verify\<close>).

  Dates, \<open>time.Parse\<close>, \<open>mail.ParseAddress\<close> and
  \<open>strings.EqualFold\<close> are the operations of a record; \<open>wait\<close> is the \<open>select\<close> between the retry timer and the
  context, with \<open>None\<close> when the timer fires.
\<close>

section \<open>Matching\<close>

record log_lib =
  ll_FormatDate :: "go_time \<Rightarrow> string"
  ll_ParseTime :: "string \<Rightarrow> string \<Rightarrow> gerror + go_time"
  ll_ParseAddress :: "string \<Rightarrow> gerror + address"
  ll_EqualFold :: "string \<Rightarrow> string \<Rightarrow> bool"

record recovery_operation =
  ro_TransactionID :: string
  ro_SubmittedAt :: go_time
  ro_Sender :: string
  ro_Recipients :: "string list"

record recovery_options =
  rv_Tolerance :: go_duration
  rv_RetryDelay :: go_duration
  rv_Attempts :: int

text \<open>The first header with the name decides; one that is not a string counts as none.\<close>

fun HeaderValue :: "(string \<Rightarrow> string \<Rightarrow> bool) \<Rightarrow> (string \<times> json) list \<Rightarrow> string \<Rightarrow> string option" where
  "HeaderValue same [] name = None"
| "HeaderValue same ((key, raw) # hs) name =
     (if \<not> same key name then HeaderValue same hs name
      else case raw of JString value \<Rightarrow> Some value | _ \<Rightarrow> None)"

definition sameEmail :: "log_lib \<Rightarrow> string \<Rightarrow> string \<Rightarrow> bool" where
  "sameEmail lib left right =
     (case (ll_ParseAddress lib left, ll_ParseAddress lib right) of
        (Inr l, Inr r) \<Rightarrow> ll_EqualFold lib (ad_Email l) (ad_Email r)
      | _ \<Rightarrow> ll_EqualFold lib (TrimSpace left) (TrimSpace right))"

definition sweegoLayouts :: "string list" where
  "sweegoLayouts = [''2006-01-02T15:04:05.999999999Z07:00'', ''2006-01-02 15:04:05'', ''2006-01-02T15:04:05'']"

fun parseLayouts :: "(string \<Rightarrow> gerror + go_time) list \<Rightarrow> string \<Rightarrow> gerror + go_time" where
  "parseLayouts [] raw = Inl (Wrapped (Err raw) ''unsupported Sweego timestamp'')"
| "parseLayouts (p # ps) raw = (case p raw of Inr parsed \<Rightarrow> Inr parsed | Inl err \<Rightarrow> parseLayouts ps raw)"

definition parseSweegoTime :: "log_lib \<Rightarrow> string \<Rightarrow> gerror + go_time" where
  "parseSweegoTime lib raw = parseLayouts (map (ll_ParseTime lib) sweegoLayouts) raw"

text \<open>The four conditions of the loop of \<open>matchingRecords\<close>.\<close>

definition record_matches ::
  "log_lib \<Rightarrow> recovery_operation \<Rightarrow> string \<Rightarrow> string \<Rightarrow> go_duration \<Rightarrow> log_record \<Rightarrow> bool" where
  "record_matches lib operation recipient correlationID tolerance r =
     (if \<not> sameEmail lib (lr_EmailTo r) recipient \<or> \<not> sameEmail lib (lr_EmailFrom r) (ro_Sender operation)
         \<or> lr_Channel r \<noteq> '''' \<and> lr_Channel r \<noteq> ''email'' then False
      else case parseSweegoTime lib (lr_EmailCreation r) of
        Inl err \<Rightarrow> False
      | Inr created \<Rightarrow>
          if time_Before created (ro_SubmittedAt operation + (- tolerance))
             \<or> time_After created (ro_SubmittedAt operation + tolerance) then False
          else if ro_TransactionID operation \<noteq> '''' \<and> lr_TransactionID r \<noteq> ''''
                  \<and> ro_TransactionID operation \<noteq> lr_TransactionID r then False
          else (case HeaderValue (ll_EqualFold lib) (lr_Headers r) MessageIDHeader of
                  None \<Rightarrow> True | Some value \<Rightarrow> value = correlationID))"

definition matchingRecords ::
  "log_lib \<Rightarrow> log_record list \<Rightarrow> recovery_operation \<Rightarrow> string \<Rightarrow> string \<Rightarrow> go_duration \<Rightarrow> log_record list" where
  "matchingRecords lib records operation recipient correlationID tolerance =
     filter (record_matches lib operation recipient correlationID tolerance) records"

section \<open>Recovery\<close>

datatype recovery_status = Recovered | Unresolved | Ambiguous

record recovery_result =
  rs_Recipient :: string
  rs_Status :: recovery_status
  rs_SwgUID :: string
  rs_Record :: "log_record option"
  rs_Candidates :: "log_record list"
  rs_Reason :: string

record query_observation =
  qo_Attempt :: int
  qo_Recipient :: string
  qo_Response :: http_result
  qo_Err :: "gerror option"

definition logs_Query ::
  "'e sweego_io \<Rightarrow> 'e sweego_client \<Rightarrow> log_query \<Rightarrow> 'e \<Rightarrow> (http_result \<times> gerror option) \<times> 'e" where
  "logs_Query io c req e = sweego_Do io c ''POST'' ''/logs/'' (Some (LogQuery req)) e"

definition emailLogs :: "string \<Rightarrow> string \<Rightarrow> string \<Rightarrow> log_query" where
  "emailLogs startDate endDate word =
     \<lparr>lq_Channel = ''email'', lq_StartDate = startDate, lq_EndDate = endDate, lq_SearchWord = word,
      lq_Offset = 0, lq_Size = 500\<rparr>"

definition logsStatusError :: "int \<Rightarrow> gerror" where
  "logsStatusError status = Err (''logs query returned non-2xx status: '' @ sprint_int status)"

text \<open>The records, the observation and the error, which the observation repeats.\<close>

definition queryRecipient ::
  "log_lib \<Rightarrow> 'e sweego_io \<Rightarrow> 'e sweego_client \<Rightarrow> recovery_operation \<Rightarrow> string \<Rightarrow> 'e \<Rightarrow>
     (log_record list \<times> query_observation \<times> gerror option) \<times> 'e" where
  "queryRecipient lib io c operation recipient e =
     (case logs_Query io c
             (emailLogs (ll_FormatDate lib (ro_SubmittedAt operation + (- (24 * Hour))))
                (ll_FormatDate lib (ro_SubmittedAt operation + 24 * Hour)) recipient) e of
        ((result, err), e1) \<Rightarrow>
          (let observation = \<lparr>qo_Attempt = 0, qo_Recipient = recipient, qo_Response = result, qo_Err = err\<rparr> in
           if err \<noteq> None then (([], observation, err), e1)
           else if non2xx (hs_Status result)
           then (let err2 = Some (logsStatusError (hs_Status result))
                 in (([], observation\<lparr>qo_Err := err2\<rparr>, err2), e1))
           else case si_decodeLogs io (hs_Body result) of
             Inl err1 \<Rightarrow>
               (let err2 = Some (Wrapped err1 ''decode logs response'')
                in (([], observation\<lparr>qo_Err := err2\<rparr>, err2), e1))
           | Inr records \<Rightarrow> ((records, observation, None), e1)))"

text \<open>What an answered query does to the result of its recipient.\<close>

definition recover_update :: "log_record list \<Rightarrow> recovery_result \<Rightarrow> recovery_result" where
  "recover_update matches r =
     (let r1 = r\<lparr>rs_Candidates := matches\<rparr> in
      case matches of
        [] \<Rightarrow> r1\<lparr>rs_Reason := ''no matching Sweego log found within the recovery window''\<rparr>
      | [m] \<Rightarrow> r1\<lparr>rs_Status := Recovered, rs_SwgUID := lr_SwgUID m, rs_Record := Some m\<rparr>
      | _ \<Rightarrow> r1\<lparr>rs_Status := Ambiguous, rs_Reason := ''multiple log records satisfy the correlation criteria''\<rparr>)"

record recovery_state =
  ry_results :: "recovery_result list"
  ry_errors :: "gerror option list"
  ry_observations :: "query_observation list"

text \<open>One recipient of one attempt.\<close>

definition recover_one ::
  "log_lib \<Rightarrow> 'e sweego_io \<Rightarrow> 'e sweego_client \<Rightarrow> recovery_operation \<Rightarrow> string \<Rightarrow> recovery_options \<Rightarrow>
     int \<Rightarrow> nat \<Rightarrow> recovery_state \<times> 'e \<Rightarrow> recovery_state \<times> 'e" where
  "recover_one lib io c operation correlationID options attempt index s =
     (case s of (st, e) \<Rightarrow>
        let recipient = ro_Recipients operation ! index in
        if rs_Status (ry_results st ! index) = Recovered \<or> rs_Status (ry_results st ! index) = Ambiguous then (st, e)
        else
     (case queryRecipient lib io c operation recipient e of
        ((candidates, observation, err), e1) \<Rightarrow>
          (let st1 = st\<lparr>ry_observations := ry_observations st @ [observation\<lparr>qo_Attempt := attempt\<rparr>]\<rparr> in
           if err \<noteq> None then (st1\<lparr>ry_errors := (ry_errors st1)[index := err]\<rparr>, e1)
           else
             (let matches = matchingRecords lib candidates operation recipient correlationID (rv_Tolerance options)
              in (st1\<lparr>ry_errors := (ry_errors st1)[index := None],
                     ry_results := (ry_results st1)[index := recover_update matches (ry_results st1 ! index)]\<rparr>, e1)))))"

definition recover_attempt ::
  "log_lib \<Rightarrow> 'e sweego_io \<Rightarrow> 'e sweego_client \<Rightarrow> recovery_operation \<Rightarrow> string \<Rightarrow> recovery_options \<Rightarrow>
     int \<Rightarrow> recovery_state \<times> 'e \<Rightarrow> recovery_state \<times> 'e" where
  "recover_attempt lib io c operation correlationID options attempt s =
     fold (recover_one lib io c operation correlationID options attempt) [0..<length (ro_Recipients operation)] s"

definition allRecipientsResolved :: "recovery_result list \<Rightarrow> bool" where
  "allRecipientsResolved results \<longleftrightarrow> list_all (\<lambda>r. rs_Status r \<noteq> Unresolved) results"

text \<open>\<open>errors.Join\<close>: nil errors are dropped.\<close>

fun recover_Join :: "gerror option list \<Rightarrow> gerror option" where
  "recover_Join [] = None"
| "recover_Join (None # es) = recover_Join es"
| "recover_Join (Some e # es) = (case recover_Join es of None \<Rightarrow> Some e | Some e' \<Rightarrow> Some (Joined e e'))"

text \<open>The loop over the attempts, with the number of those that are left.\<close>

fun recover_loop ::
  "log_lib \<Rightarrow> 'e sweego_io \<Rightarrow> (go_duration \<Rightarrow> 'e \<Rightarrow> gerror option \<times> 'e) \<Rightarrow> 'e sweego_client \<Rightarrow>
     recovery_operation \<Rightarrow> string \<Rightarrow> recovery_options \<Rightarrow> nat \<Rightarrow> int \<Rightarrow> recovery_state \<times> 'e \<Rightarrow>
     (recovery_result list \<times> query_observation list \<times> gerror option) \<times> 'e" where
  "recover_loop lib io wait c operation correlationID options 0 attempt (st, e) =
     ((ry_results st, ry_observations st, recover_Join (ry_errors st)), e)"
| "recover_loop lib io wait c operation correlationID options (Suc k) attempt s =
     (case recover_attempt lib io c operation correlationID options attempt s of
        (st, e) \<Rightarrow>
          if allRecipientsResolved (ry_results st) \<or> attempt = rv_Attempts options
          then ((ry_results st, ry_observations st, recover_Join (ry_errors st)), e)
          else if rv_RetryDelay options > 0
          then (case wait (rv_RetryDelay options) e of
                  (Some err, e1) \<Rightarrow> ((ry_results st, ry_observations st, Some err), e1)
                | (None, e1) \<Rightarrow>
                    recover_loop lib io wait c operation correlationID options k (attempt + 1) (st, e1))
          else recover_loop lib io wait c operation correlationID options k (attempt + 1) (st, e))"

definition recovery_start :: "recovery_operation \<Rightarrow> recovery_state" where
  "recovery_start operation =
     \<lparr>ry_results = map (\<lambda>recipient. \<lparr>rs_Recipient = recipient, rs_Status = Unresolved, rs_SwgUID = '''',
                        rs_Record = None, rs_Candidates = [], rs_Reason = ''''\<rparr>) (ro_Recipients operation),
      ry_errors = map (\<lambda>_. None) (ro_Recipients operation), ry_observations = []\<rparr>"

definition logs_Recover ::
  "log_lib \<Rightarrow> 'e sweego_io \<Rightarrow> (go_duration \<Rightarrow> 'e \<Rightarrow> gerror option \<times> 'e) \<Rightarrow> 'e sweego_client \<Rightarrow>
     recovery_operation \<Rightarrow> string \<Rightarrow> recovery_options \<Rightarrow> 'e \<Rightarrow>
     (recovery_result list \<times> query_observation list \<times> gerror option) \<times> 'e" where
  "logs_Recover lib io wait c operation correlationID options e =
     recover_loop lib io wait c operation correlationID options (nat (rv_Attempts options)) 1
       (recovery_start operation, e)"

section \<open>Verification\<close>

record verifier =
  ve_HeaderName :: string
  ve_Tolerance :: go_duration

definition NewVerifier :: "go_duration \<Rightarrow> verifier" where
  "NewVerifier tolerance = \<lparr>ve_HeaderName = MessageIDHeader, ve_Tolerance = tolerance\<rparr>"

fun verifyRecords :: "(string \<Rightarrow> string \<Rightarrow> bool) \<Rightarrow> string \<Rightarrow> verify_request \<Rightarrow> log_record list \<Rightarrow> verify_result" where
  "verifyRecords same name q [] = \<lparr>vs_Found = False, vs_PMUID = ''''\<rparr>"
| "verifyRecords same name q (r # rs) =
     (if HeaderValue same (lr_Headers r) name \<noteq> Some (vr_CorrelationID q) then verifyRecords same name q rs
      else \<lparr>vs_Found = True, vs_PMUID = lr_SwgUID r\<rparr>)"

definition sweego_Verify ::
  "log_lib \<Rightarrow> 'e sweego_io \<Rightarrow> 'e sweego_client \<Rightarrow> verifier \<Rightarrow> 'e email_verifier" where
  "sweego_Verify lib io c v q e =
     (case logs_Query io c
             (emailLogs (ll_FormatDate lib (vr_SentAt q + (- ve_Tolerance v)))
                (ll_FormatDate lib (vr_SentAt q + ve_Tolerance v)) (vr_Recipient q)) e of
        ((result, Some err), e1) \<Rightarrow> (Inl err, e1)
      | ((result, None), e1) \<Rightarrow>
          if non2xx (hs_Status result) then (Inl (logsStatusError (hs_Status result)), e1)
          else (case si_decodeLogs io (hs_Body result) of
                  Inl err \<Rightarrow> (Inl (Wrapped err ''decode logs response''), e1)
                | Inr records \<Rightarrow> (Inr (verifyRecords (ll_EqualFold lib) (ve_HeaderName v) q records), e1)))"

section \<open>What a recovery report says\<close>

text \<open>The candidates of a result are the matching records of an answer to a query for its recipient.\<close>

definition answered ::
  "log_lib \<Rightarrow> 'e sweego_io \<Rightarrow> recovery_operation \<Rightarrow> string \<Rightarrow> go_duration \<Rightarrow> query_observation list \<Rightarrow>
     recovery_result \<Rightarrow> bool" where
  "answered lib io operation correlationID tolerance obs r \<longleftrightarrow>
     (\<exists>q \<in> set obs. \<exists>records. qo_Recipient q = rs_Recipient r \<and> qo_Err q = None \<and>
        si_decodeLogs io (hs_Body (qo_Response q)) = Inr records \<and>
        rs_Candidates r = matchingRecords lib records operation (rs_Recipient r) correlationID tolerance)"

definition result_ok ::
  "log_lib \<Rightarrow> 'e sweego_io \<Rightarrow> recovery_operation \<Rightarrow> string \<Rightarrow> go_duration \<Rightarrow> query_observation list \<Rightarrow>
     recovery_result \<Rightarrow> bool" where
  "result_ok lib io operation correlationID tolerance obs r \<longleftrightarrow>
     (case rs_Status r of
        Unresolved \<Rightarrow> rs_Candidates r = [] \<and> rs_SwgUID r = '''' \<and> rs_Record r = None
      | Recovered \<Rightarrow> (\<exists>m. rs_Candidates r = [m] \<and> rs_SwgUID r = lr_SwgUID m \<and> rs_Record r = Some m) \<and>
          answered lib io operation correlationID tolerance obs r
      | Ambiguous \<Rightarrow> length (rs_Candidates r) \<ge> 2 \<and> rs_SwgUID r = '''' \<and> rs_Record r = None \<and>
          answered lib io operation correlationID tolerance obs r)"

definition recovery_inv ::
  "log_lib \<Rightarrow> 'e sweego_io \<Rightarrow> recovery_operation \<Rightarrow> string \<Rightarrow> go_duration \<Rightarrow> recovery_state \<Rightarrow> bool" where
  "recovery_inv lib io operation correlationID tolerance st \<longleftrightarrow>
     map rs_Recipient (ry_results st) = ro_Recipients operation \<and>
     list_all (result_ok lib io operation correlationID tolerance (ry_observations st)) (ry_results st)"

lemma result_ok_more: "result_ok lib io op cid tol obs r \<Longrightarrow> result_ok lib io op cid tol (obs @ obs') r"
  by (auto simp: result_ok_def answered_def split: recovery_status.splits)

lemma recovery_start_inv: "recovery_inv lib io op cid tol (recovery_start op)"
  by (simp add: recovery_inv_def recovery_start_def list_all_iff result_ok_def comp_def)

lemma queryRecipient_answer:
  assumes "queryRecipient lib io c op recipient e = ((candidates, q, err), e')"
  shows "qo_Recipient q = recipient" "qo_Err q = err"
    "err = None \<Longrightarrow> si_decodeLogs io (hs_Body (qo_Response q)) = Inr candidates"
  using assms by (auto simp: queryRecipient_def Let_def split: prod.splits sum.splits if_splits)

lemma recover_update_ok:
  assumes "rs_Status r = Unresolved" "result_ok lib io op cid tol obs r" "qo_Recipient q = rs_Recipient r"
    "qo_Err q = None" "si_decodeLogs io (hs_Body (qo_Response q)) = Inr records"
  shows "result_ok lib io op cid tol (obs @ [q]) (recover_update (matchingRecords lib records op (rs_Recipient r) cid tol) r)"
proof -
  let ?ms = "matchingRecords lib records op (rs_Recipient r) cid tol"
  have "answered lib io op cid tol (obs @ [q]) (r\<lparr>rs_Candidates := ?ms, rs_Status := st, rs_SwgUID := u, rs_Record := m, rs_Reason := t\<rparr>)"
    for st u m t using assms(3-5) by (auto simp: answered_def)
  moreover have "answered lib io op cid tol (obs @ [q]) (r\<lparr>rs_Candidates := ?ms, rs_Status := st, rs_Reason := t\<rparr>)"
    "answered lib io op cid tol (obs @ [q]) (r\<lparr>rs_Candidates := ?ms, rs_Status := st, rs_SwgUID := u, rs_Record := m\<rparr>)"
    for st u m t using assms(3-5) by (auto simp: answered_def)
  ultimately show ?thesis
    using assms(1,2) by (auto simp: recover_update_def Let_def result_ok_def split: list.splits)
qed

lemma recover_update_Recipient [simp]: "rs_Recipient (recover_update ms r) = rs_Recipient r"
  by (simp add: recover_update_def Let_def split: list.split)

lemma recover_one_inv:
  assumes "recovery_inv lib io op cid (rv_Tolerance options) st" "i < length (ro_Recipients op)"
    "recover_one lib io c op cid options attempt i (st, e) = (st', e')"
  shows "recovery_inv lib io op cid (rv_Tolerance options) st' \<and>
    length (ry_observations st') \<le> Suc (length (ry_observations st))"
proof (cases "rs_Status (ry_results st ! i) = Unresolved")
  case False
  then have "rs_Status (ry_results st ! i) = Recovered \<or> rs_Status (ry_results st ! i) = Ambiguous"
    by (cases "rs_Status (ry_results st ! i)") auto
  with assms show ?thesis by (auto simp: recover_one_def)
next
  case True
  let ?tol = "rv_Tolerance options" and ?r = "ry_results st ! i"
  obtain candidates q err e1 where
    q: "queryRecipient lib io c op (ro_Recipients op ! i) e = ((candidates, q, err), e1)" by (metis prod.exhaust)
  note a = queryRecipient_answer [OF q]
  let ?q = "q\<lparr>qo_Attempt := attempt\<rparr>"
  have map_names: "map rs_Recipient (ry_results st) = ro_Recipients op" using assms(1) by (simp add: recovery_inv_def)
  then have len: "length (ry_results st) = length (ro_Recipients op)" by (metis length_map)
  have names: "rs_Recipient ?r = ro_Recipients op ! i" 
    using nth_map [of i "ry_results st" rs_Recipient] assms(2) len unfolding map_names by simp
  have ok: "list_all (result_ok lib io op cid ?tol (ry_observations st @ [?q])) (ry_results st)"
    using assms(1) by (auto simp: recovery_inv_def list_all_iff intro: result_ok_more)
  show ?thesis
  proof (cases err)
    case (Some x)
    then have "st' = st\<lparr>ry_observations := ry_observations st @ [?q], ry_errors := (ry_errors st)[i := err]\<rparr>"
      using assms(3) True q by (simp add: recover_one_def Let_def)
    with assms(1) ok show ?thesis by (simp add: recovery_inv_def)
  next
    case None
    let ?u = "recover_update (matchingRecords lib candidates op (rs_Recipient ?r) cid ?tol) ?r"
    have st': "st' = st\<lparr>ry_observations := ry_observations st @ [?q], ry_errors := (ry_errors st)[i := None],
        ry_results := (ry_results st)[i := ?u]\<rparr>"
      using assms(3) True q None names by (simp add: recover_one_def Let_def)
    have "result_ok lib io op cid ?tol (ry_observations st) ?r"
      using assms(1,2) len by (simp add: recovery_inv_def list_all_length)
    then have "result_ok lib io op cid ?tol (ry_observations st @ [?q]) ?u"
      using True a None names by (intro recover_update_ok) simp_all
    with ok have "list_all (result_ok lib io op cid ?tol (ry_observations st @ [?q])) ((ry_results st)[i := ?u])"
      by (auto simp: list_all_iff dest!: set_update_subset_insert [THEN subsetD])
    moreover have "map rs_Recipient ((ry_results st)[i := ?u]) = ro_Recipients op"
      unfolding map_update map_names by (simp add: names)
    ultimately show ?thesis using st' by (simp add: recovery_inv_def)
  qed
qed

lemma recover_indices_inv:
  assumes "recovery_inv lib io op cid (rv_Tolerance options) st" "\<forall>i \<in> set is. i < length (ro_Recipients op)"
    "fold (recover_one lib io c op cid options attempt) is (st, e) = (st', e')"
  shows "recovery_inv lib io op cid (rv_Tolerance options) st' \<and>
    length (ry_observations st') \<le> length (ry_observations st) + length is"
  using assms
proof (induction "is" arbitrary: st e)
  case (Cons i "is")
  obtain st1 e1 where one: "recover_one lib io c op cid options attempt i (st, e) = (st1, e1)" by (metis prod.exhaust)
  from recover_one_inv [OF Cons.prems(1) _ one] Cons.prems(2)
  have "recovery_inv lib io op cid (rv_Tolerance options) st1"
    and l: "length (ry_observations st1) \<le> Suc (length (ry_observations st))" by auto
  from Cons.IH [OF this(1), of e1] Cons.prems(2,3) one l show ?case by simp
qed simp

lemma recover_loop_inv:
  assumes "recovery_inv lib io op cid (rv_Tolerance options) st"
    "recover_loop lib io wait c op cid options k attempt (st, e) = ((results, obs, err), e')"
  shows "map rs_Recipient results = ro_Recipients op \<and>
    list_all (result_ok lib io op cid (rv_Tolerance options) obs) results \<and>
    length obs \<le> length (ry_observations st) + k * length (ro_Recipients op)"
  using assms
proof (induction k arbitrary: attempt st e)
  case (Suc k)
  obtain st1 e1 where a: "recover_attempt lib io c op cid options attempt (st, e) = (st1, e1)" by (metis prod.exhaust)
  have "\<forall>i \<in> set [0..<length (ro_Recipients op)]. i < length (ro_Recipients op)" by simp
  from recover_indices_inv [OF Suc.prems(1) this a [unfolded recover_attempt_def]]
  have inv: "recovery_inv lib io op cid (rv_Tolerance options) st1"
    and l: "length (ry_observations st1) \<le> length (ry_observations st) + length (ro_Recipients op)" by auto
  have last_one: "?case" if "results = ry_results st1" "obs = ry_observations st1"
    using inv l that by (simp add: recovery_inv_def)
  have again: "?case" if "recover_loop lib io wait c op cid options k (attempt + 1) (st1, e2) = ((results, obs, err), e')" for e2
    using Suc.IH [OF inv that] l by auto
  show ?case
    using Suc.prems(2) a last_one again by (auto split: if_splits prod.splits option.splits)
qed (simp add: recovery_inv_def)

lemma Recover_inv:
  assumes "logs_Recover lib io wait c operation correlationID options e = ((results, obs, err), e')"
  shows "map rs_Recipient results = ro_Recipients operation"
    "list_all (result_ok lib io operation correlationID (rv_Tolerance options) obs) results"
    "length obs \<le> nat (rv_Attempts options) * length (ro_Recipients operation)"
  using recover_loop_inv [OF recovery_start_inv assms [unfolded logs_Recover_def]] by (auto simp: recovery_start_def)

text \<open>The record behind a recipient that is reported recovered, or with an identifier.\<close>

lemma result_ok_record:
  assumes "result_ok lib io operation correlationID tolerance obs r" "rs_SwgUID r \<noteq> '''' \<or> rs_Status r = Recovered"
  shows "\<exists>q \<in> set obs. \<exists>records m. qo_Recipient q = rs_Recipient r \<and>
    si_decodeLogs io (hs_Body (qo_Response q)) = Inr records \<and>
    filter (record_matches lib operation (rs_Recipient r) correlationID tolerance) records = [m] \<and>
    rs_SwgUID r = lr_SwgUID m \<and> sameEmail lib (lr_EmailTo m) (rs_Recipient r) \<and>
    HeaderValue (ll_EqualFold lib) (lr_Headers m) MessageIDHeader \<in> {None, Some correlationID}"
proof -
  from assms obtain m where m: "rs_Candidates r = [m]" "rs_SwgUID r = lr_SwgUID m"
    and a: "answered lib io operation correlationID tolerance obs r"
    by (auto simp: result_ok_def split: recovery_status.splits)
  from a m(1) obtain q records where q: "q \<in> set obs" "qo_Recipient q = rs_Recipient r"
    "si_decodeLogs io (hs_Body (qo_Response q)) = Inr records"
    "filter (record_matches lib operation (rs_Recipient r) correlationID tolerance) records = [m]"
    by (auto simp: answered_def matchingRecords_def)
  then have "record_matches lib operation (rs_Recipient r) correlationID tolerance m" by (metis filter_eq_ConsD)
  then have "sameEmail lib (lr_EmailTo m) (rs_Recipient r)"
    "HeaderValue (ll_EqualFold lib) (lr_Headers m) MessageIDHeader \<in> {None, Some correlationID}"
    by (auto simp: record_matches_def split: if_splits sum.splits option.splits)
  with q m(2) show ?thesis by blast
qed


definition logs_demo_lib :: log_lib where
  "logs_demo_lib = \<lparr>ll_FormatDate = (\<lambda>_. ''2026-01-01''), ll_ParseTime = (\<lambda>_ _. Inr 0),
     ll_ParseAddress = (\<lambda>s. Inr \<lparr>ad_Email = s, ad_Name = ''''\<rparr>), ll_EqualFold = (=)\<rparr>"

text \<open>A log that answers every search with the record of one recipient.\<close>

definition logs_demo_record :: log_record where
  "logs_demo_record = \<lparr>lr_Channel = ''email'', lr_Status = '''', lr_CampaignID = '''', lr_DomainFrom = '''',
     lr_DomainTo = '''', lr_DryRun = False, lr_EmailCreation = ''now'', lr_EmailFrom = ''s'', lr_EmailLastUpdate = '''',
     lr_EmailState = '''', lr_EmailTo = ''ab'', lr_Headers = [(''X-Pubnight-Message-ID'', JString ''m'')],
     lr_Subject = '''', lr_SwgUID = ''u'', lr_TransactionID = ''''\<rparr>"

definition logs_demo_io :: "nat sweego_io" where
  "logs_demo_io = sweego_demo_io\<lparr>si_decodeLogs := (\<lambda>_. Inr [logs_demo_record])\<rparr>"

definition logs_demo_operation :: recovery_operation where
  "logs_demo_operation = \<lparr>ro_TransactionID = '''', ro_SubmittedAt = 0, ro_Sender = ''s'', ro_Recipients = [''ab'']\<rparr>"

definition logs_demo_options :: recovery_options where
  "logs_demo_options = \<lparr>rv_Tolerance = 1, rv_RetryDelay = 0, rv_Attempts = 1\<rparr>"

lemma logs_demo_matches:
  "record_matches logs_demo_lib logs_demo_operation ''ab'' ''m'' 1 logs_demo_record"
  by (simp add: record_matches_def logs_demo_lib_def logs_demo_operation_def logs_demo_record_def sameEmail_def
      parseSweegoTime_def sweegoLayouts_def time_Before_def time_After_def MessageIDHeader_def)

lemma logs_demo_query:
  "\<exists>r. logs_Query logs_demo_io (NewSweegoClient ''u'' ''t'') q e = ((r, None), Suc e) \<and> \<not> non2xx (hs_Status r)"
  by (simp add: logs_Query_def sweego_Do_def logs_demo_io_def sweego_demo_io_def NewSweegoClient_def Let_def non2xx_def)

lemma logs_demo_recover:
  "\<exists>results obs. logs_Recover logs_demo_lib logs_demo_io (\<lambda>_ n. (None, n)) (NewSweegoClient ''u'' ''t'') logs_demo_operation
     ''m'' logs_demo_options 0 = ((results, obs, None), 1) \<and> map rs_Status results = [Recovered]"
proof -
  obtain r where q: "logs_Query logs_demo_io (NewSweegoClient ''u'' ''t'')
      (emailLogs (ll_FormatDate logs_demo_lib (- (24 * Hour))) (ll_FormatDate logs_demo_lib (24 * Hour)) ''ab'') 0 =
      ((r, None), 1)" "\<not> non2xx (hs_Status r)" using logs_demo_query [of _ 0] by (metis One_nat_def)
  have "matchingRecords logs_demo_lib [logs_demo_record] logs_demo_operation ''ab'' ''m'' 1 = [logs_demo_record]"
    using logs_demo_matches by (simp add: matchingRecords_def)
  moreover have "si_decodeLogs logs_demo_io b = Inr [logs_demo_record]" for b by (simp add: logs_demo_io_def)
  ultimately show ?thesis
    using q
    by (simp add: logs_Recover_def logs_demo_operation_def logs_demo_options_def recover_attempt_def recover_one_def
        recovery_start_def queryRecipient_def recover_update_def allRecipientsResolved_def Let_def)
qed


text \<open>
  \<open>Verify\<close> takes the first record with the correlation ID. All recipients of a Send share that ID, and the
  search word is only a filter of the provider, so when the answer holds the record of another recipient whose
  address contains the one asked for, that recipient's identifier is returned.
\<close>

lemma sweego_verify_takes_other_recipient:
  "\<exists>e'. sweego_Verify logs_demo_lib logs_demo_io (NewSweegoClient ''u'' ''t'') (NewVerifier 1)
      \<lparr>vr_CorrelationID = ''m'', vr_Recipient = ''b'', vr_SentAt = 0\<rparr> 0 =
      (Inr \<lparr>vs_Found = True, vs_PMUID = lr_SwgUID logs_demo_record\<rparr>, e') \<and>
    \<not> record_matches logs_demo_lib logs_demo_operation ''b'' ''m'' 1 logs_demo_record \<and>
    lr_EmailTo logs_demo_record \<noteq> ''b''"
proof -
  obtain r where q: "logs_Query logs_demo_io (NewSweegoClient ''u'' ''t'')
      (emailLogs (ll_FormatDate logs_demo_lib (- 1)) (ll_FormatDate logs_demo_lib 1) ''b'') 0 = ((r, None), Suc 0)"
    "\<not> non2xx (hs_Status r)" using logs_demo_query [of _ 0] by blast
  then have "sweego_Verify logs_demo_lib logs_demo_io (NewSweegoClient ''u'' ''t'') (NewVerifier 1)
      \<lparr>vr_CorrelationID = ''m'', vr_Recipient = ''b'', vr_SentAt = 0\<rparr> 0 =
      (Inr \<lparr>vs_Found = True, vs_PMUID = lr_SwgUID logs_demo_record\<rparr>, Suc 0)"
    by (simp add: sweego_Verify_def NewVerifier_def) (simp add: logs_demo_io_def logs_demo_lib_def logs_demo_record_def MessageIDHeader_def)
  moreover have "\<not> record_matches logs_demo_lib logs_demo_operation ''b'' ''m'' 1 logs_demo_record"
    "lr_EmailTo logs_demo_record \<noteq> ''b''"
    by (simp_all add: record_matches_def sameEmail_def logs_demo_lib_def logs_demo_record_def)
  ultimately show ?thesis by blast
qed

end
