(* ===== verification/Mailtrap.thy ===== *)
theory Mailtrap
  imports DummyClient
begin

text \<open>
  The Mailtrap client (email_clients/clients/mailtrap). The provider's SDK is outside the repository: its two
  ways of sending and its iterator over the email logs are the operations of a record. \<open>mail.ParseAddress\<close>,
  \<open>strings.EqualFold\<close>, \<open>strconv.Quote\<close>, \<open>fmt.Sprint\<close>, the formatting of times and the order in which a range
  goes over a header map are those of the record \<open>mailtrap_lib\<close>.
\<close>

section \<open>The SDK\<close>

record sdk_request =
  sq_From :: address
  sq_To :: "address list"
  sq_Category :: string
  sq_Headers :: string_map
  sq_CustomVariables :: "string vars"
  sq_TemplateUUID :: string
  sq_TemplateVariables :: "go_any vars"
  sq_Subject :: string
  sq_Text :: string

record sdk_send_response =
  sr_Success :: bool
  sr_MessageIDs :: "string list"

record sdk_item =
  si_Success :: bool
  si_MessageIDs :: "string list"
  si_Errors :: "string list"

record sdk_batch_response =
  sb_Success :: bool
  sb_Responses :: "sdk_item list"
  sb_Errors :: "string list"

record sdk_log_options =
  sl_SentAfter :: string
  sl_SentBefore :: string
  sl_ToCIEqual :: "string list"

text \<open>A logged message; the variable is the value of a custom variable when it is a string.\<close>

record sdk_log_message =
  sm_Variable :: "string \<Rightarrow> string option"
  sm_To :: string
  sm_MessageID :: string

record 'e mailtrap_sdk =
  sdk_Send :: "sdk_request \<Rightarrow> 'e \<Rightarrow> (gerror + sdk_send_response) \<times> 'e"
  sdk_SendBatch :: "sdk_request list \<Rightarrow> 'e \<Rightarrow> (gerror + sdk_batch_response) \<times> 'e"
  sdk_Logs :: "sdk_log_options \<Rightarrow> 'e \<Rightarrow> (gerror + sdk_log_message option) list \<times> 'e"

record 'e mailtrap_lib =
  ml_ParseAddress :: "string \<Rightarrow> gerror + address"
  ml_EqualFold :: "string \<Rightarrow> string \<Rightarrow> bool"
  ml_Quote :: "string \<Rightarrow> string"
  ml_Sprint :: "go_any \<Rightarrow> string"
  ml_FormatTime :: "go_time \<Rightarrow> string"
  ml_range :: "string_map \<Rightarrow> (string \<times> string) list"
  ml_ctxErr :: "'e \<Rightarrow> gerror option \<times> 'e"

section \<open>The client\<close>

definition MaxBatchRecipients :: nat where "MaxBatchRecipients = 500"
definition CorrelationVariable :: string where "CorrelationVariable = ''correlation_id''"

definition ErrSandboxNotConfigured :: gerror where
  "ErrSandboxNotConfigured = Err ''mailtrap sandbox client is not configured''"

definition ErrInvalidResponse :: gerror where "ErrInvalidResponse = Err ''mailtrap response is unusable''"

record 'e mailtrap_client =
  mt_sdk :: "'e mailtrap_sdk option"
  mt_sandboxSDK :: "'e mailtrap_sdk option"
  mt_Category :: string
  mt_dryRun :: "('e \<Rightarrow> bool \<times> 'e) option"

definition NewMailtrapClient :: "'e mailtrap_sdk option \<Rightarrow> gerror + 'e mailtrap_client" where
  "NewMailtrapClient client =
     (if client = None then Inl (Err ''mailtrap SDK client is nil'')
      else Inr \<lparr>mt_sdk = client, mt_sandboxSDK = None, mt_Category = '''', mt_dryRun = None\<rparr>)"

definition mailtrap_WithSendOptions :: "string \<Rightarrow> 'e mailtrap_client \<Rightarrow> 'e mailtrap_client" where
  "mailtrap_WithSendOptions category c = c\<lparr>mt_Category := category\<rparr>"

definition WithSandboxClient :: "'e mailtrap_sdk option \<Rightarrow> 'e mailtrap_client \<Rightarrow> gerror + 'e mailtrap_client" where
  "WithSandboxClient client c =
     (if client = None then Inl ErrSandboxNotConfigured else Inr (c\<lparr>mt_sandboxSDK := client\<rparr>))"

definition validateAddress :: "'e mailtrap_lib \<Rightarrow> string \<Rightarrow> gerror option" where
  "validateAddress lib address =
     (case ml_ParseAddress lib address of
        Inr parsed \<Rightarrow> if ad_Email parsed \<noteq> address
                      then Some (Err (ml_Quote lib address @ '' must be a bare email address'')) else None
      | Inl err \<Rightarrow> Some (Err (ml_Quote lib address @ '' must be a bare email address'')))"

fun correlationLoop :: "'e mailtrap_lib \<Rightarrow> string \<Rightarrow> (string \<times> string) list \<Rightarrow> gerror + string" where
  "correlationLoop lib v [] = Inr v"
| "correlationLoop lib v ((name, current) # hs) =
     (if \<not> ml_EqualFold lib name MessageIDHeader then correlationLoop lib v hs
      else if TrimSpace current = '''' then Inl (Err ''mailtrap correlation header must not be empty'')
      else if v \<noteq> '''' \<and> v \<noteq> current then Inl (Err ''mailtrap correlation headers contain conflicting values'')
      else correlationLoop lib current hs)"

definition correlationHeader :: "'e mailtrap_lib \<Rightarrow> string_map \<Rightarrow> gerror + string" where
  "correlationHeader lib headers = correlationLoop lib '''' (ml_range lib headers)"

text \<open>Subject and text of a raw email for one recipient.\<close>

definition renderRaw :: "'e mailtrap_lib \<Rightarrow> go_email \<Rightarrow> nat \<Rightarrow> go_any vars recipient \<Rightarrow> gerror + string \<times> string" where
  "renderRaw lib em index r =
     (let variables = mergedVariables (em_Variables em) (rp_Variables r);
          who = ''recipient '' @ itoa index @ '' '' @ ml_Quote lib (ad_Email (rp_Address r)) in
      case template_Render (ml_Sprint lib) (em_Subject em) variables of
        (subject, Some err) \<Rightarrow> Inl (Wrapped err (''render email for '' @ who))
      | (subject, None) \<Rightarrow>
          (case template_Render (ml_Sprint lib) (em_Text em) variables of
             (text, Some err) \<Rightarrow> Inl (Wrapped err (''render email for '' @ who))
           | (text, None) \<Rightarrow>
               if TrimSpace subject = '''' \<or> TrimSpace text = ''''
               then Inl (Err (''rendered Subject and Text are required for '' @ who))
               else Inr (subject, text)))"

definition newRequest ::
  "'e mailtrap_lib \<Rightarrow> 'e mailtrap_client \<Rightarrow> go_email \<Rightarrow> string \<Rightarrow> nat \<Rightarrow> go_any vars recipient \<Rightarrow> gerror + sdk_request" where
  "newRequest lib c em correlationID index r =
     (let request = \<lparr>sq_From = em_From em, sq_To = [rp_Address r], sq_Category = mt_Category c,
                     sq_Headers = em_Headers em,
                     sq_CustomVariables = (if correlationID \<noteq> '''' then [(CorrelationVariable, correlationID)] else []),
                     sq_TemplateUUID = '''', sq_TemplateVariables = [], sq_Subject = '''', sq_Text = ''''\<rparr> in
      if em_TemplateID em \<noteq> ''''
      then Inr (request\<lparr>sq_TemplateUUID := em_TemplateID em,
                        sq_TemplateVariables := mergedVariables (em_Variables em) (rp_Variables r)\<rparr>)
      else case renderRaw lib em index r of
        Inl err \<Rightarrow> Inl err
      | Inr (subject, text) \<Rightarrow> Inr (request\<lparr>sq_Subject := subject, sq_Text := text\<rparr>))"

fun requestLoop ::
  "'e mailtrap_lib \<Rightarrow> 'e mailtrap_client \<Rightarrow> go_email \<Rightarrow> string \<Rightarrow> nat \<Rightarrow> go_any vars recipient list \<Rightarrow> 'e \<Rightarrow>
     (gerror + sdk_request list) \<times> 'e" where
  "requestLoop lib c em correlationID index [] e = (Inr [], e)"
| "requestLoop lib c em correlationID index (r # rs) e =
     (case ml_ctxErr lib e of
        (Some err, e1) \<Rightarrow> (Inl err, e1)
      | (None, e1) \<Rightarrow>
     (case validateAddress lib (ad_Email (rp_Address r)) of
        Some err \<Rightarrow> (Inl (Wrapped err (''invalid recipient '' @ itoa index)), e1)
      | None \<Rightarrow>
     (case newRequest lib c em correlationID index r of
        Inl err \<Rightarrow> (Inl err, e1)
      | Inr request \<Rightarrow>
          (case requestLoop lib c em correlationID (Suc index) rs e1 of
             (Inl err, e2) \<Rightarrow> (Inl err, e2)
           | (Inr requests, e2) \<Rightarrow> (Inr (request # requests), e2)))))"

definition contentError :: "go_email \<Rightarrow> gerror option" where
  "contentError em =
     (if em_TemplateID em \<noteq> ''''
      then (if TrimSpace (em_TemplateID em) = '''' \<or> em_Subject em \<noteq> '''' \<or> em_Text em \<noteq> ''''
            then Some (Err ''mailtrap hosted templates require a non-empty TemplateID and empty Subject and Text'')
            else None)
      else if TrimSpace (em_Subject em) = '''' \<or> TrimSpace (em_Text em) = ''''
      then Some (Err ''mailtrap raw sends require Subject and Text'') else None)"

definition mailtrap_requests ::
  "'e mailtrap_lib \<Rightarrow> 'e mailtrap_client \<Rightarrow> go_email \<Rightarrow> 'e \<Rightarrow> (gerror + sdk_request list) \<times> 'e" where
  "mailtrap_requests lib c em e =
     (if length (em_To em) = 0 then (Inl ErrNoRecipients, e)
      else if length (em_To em) > MaxBatchRecipients
      then (Inl (Err (''mailtrap supports at most '' @ itoa MaxBatchRecipients @ '' recipients per Send'')), e)
      else case validateAddress lib (ad_Email (em_From em)) of
        Some err \<Rightarrow> (Inl (Wrapped err ''invalid sender''), e)
      | None \<Rightarrow>
     (case contentError em of
        Some err \<Rightarrow> (Inl err, e)
      | None \<Rightarrow>
     (case correlationHeader lib (em_Headers em) of
        Inl err \<Rightarrow> (Inl err, e)
      | Inr correlationID \<Rightarrow> requestLoop lib c em correlationID 0 (em_To em) e)))"

section \<open>Send\<close>

definition validMessageID :: "string list \<Rightarrow> bool" where
  "validMessageID ids \<longleftrightarrow> length ids = 1 \<and> TrimSpace (hd ids) \<noteq> ''''"

record recipient_error =
  re_Index :: nat
  re_Recipient :: string
  re_Messages :: "string list"

record batch_error =
  be_Refusals :: "recipient_error list"
  be_InvalidResults :: "recipient_error list"
  be_Messages :: "string list"

fun joinStrings :: "string \<Rightarrow> string list \<Rightarrow> string" where
  "joinStrings sep [] = ''''"
| "joinStrings sep [s] = s"
| "joinStrings sep (s # t # ts) = s @ sep @ joinStrings sep (t # ts)"

text \<open>\<open>BatchError.Error\<close>, and the error with what \<open>Unwrap\<close> gives.\<close>

definition BatchError_Error :: "'e mailtrap_lib \<Rightarrow> batch_error \<Rightarrow> string" where
  "BatchError_Error lib b =
     ''mailtrap batch: '' @
     joinStrings ''; ''
       (be_Messages b @
        map (\<lambda>r. ''recipient '' @ itoa (re_Index r) @ '' '' @ ml_Quote lib (re_Recipient r) @ '' refused: '' @
                 joinStrings ''; '' (re_Messages r)) (be_Refusals b) @
        map (\<lambda>r. ''recipient '' @ itoa (re_Index r) @ '' '' @ ml_Quote lib (re_Recipient r) @
                 '' has an unusable result: '' @ joinStrings ''; '' (re_Messages r)) (be_InvalidResults b))"

definition batch_gerror :: "'e mailtrap_lib \<Rightarrow> batch_error \<Rightarrow> gerror" where
  "batch_gerror lib b =
     (if be_InvalidResults b \<noteq> [] then Wrapped ErrInvalidResponse (BatchError_Error lib b)
      else Err (BatchError_Error lib b))"

text \<open>One item of a batch response: the identifier recorded for its recipient and the errors so far.\<close>

definition batchItem :: "nat \<Rightarrow> string \<Rightarrow> sdk_item \<Rightarrow> batch_error \<Rightarrow> string \<times> batch_error" where
  "batchItem index recipient item b =
     (let diagnostic = \<lparr>re_Index = index, re_Recipient = recipient, re_Messages = si_Errors item\<rparr> in
      if si_Success item \<and> validMessageID (si_MessageIDs item)
      then (hd (si_MessageIDs item),
            if length (si_Errors item) \<noteq> 0
            then b\<lparr>be_InvalidResults := be_InvalidResults b @
                     [diagnostic\<lparr>re_Messages := si_Errors item @ [''successful item also reported errors'']\<rparr>]\<rparr>
            else b)
      else if \<not> si_Success item \<and> length (si_Errors item) \<noteq> 0 \<and> length (si_MessageIDs item) = 0
      then ('''', b\<lparr>be_Refusals := be_Refusals b @ [diagnostic]\<rparr>)
      else ('''', b\<lparr>be_InvalidResults := be_InvalidResults b @
              [diagnostic\<lparr>re_Messages := si_Errors item @
                 [''expected success with one message ID, or refusal with errors and no IDs'']\<rparr>]\<rparr>))"

fun batchLoop :: "nat \<Rightarrow> (string \<times> sdk_item) list \<Rightarrow> batch_error \<Rightarrow> string list \<times> batch_error" where
  "batchLoop index [] b = ([], b)"
| "batchLoop index ((recipient, item) # rest) b =
     (case batchItem index recipient item b of
        (pmuid, b1) \<Rightarrow> (case batchLoop (Suc index) rest b1 of (pmuids, b2) \<Rightarrow> (pmuid # pmuids, b2)))"

text \<open>On an error of the batch the result still holds the identifiers of the accepted recipients.\<close>

definition batchResult ::
  "'e mailtrap_lib \<Rightarrow> 'v recipient list \<Rightarrow> sdk_batch_response \<Rightarrow> send_result \<times> gerror option" where
  "batchResult lib recipients response =
     (if length (sb_Responses response) \<noteq> length recipients
      then ([], Some (Wrapped ErrInvalidResponse
             (''got '' @ itoa (length (sb_Responses response)) @ '' batch results for '' @
              itoa (length recipients) @ '' recipients'')))
      else
        (let messages = (if \<not> sb_Success response \<and> length (sb_Errors response) = 0
                         then [''batch response did not report overall success''] else sb_Errors response);
             (pmuids, b) = batchLoop 0 (zip (map (\<lambda>r. ad_Email (rp_Address r)) recipients) (sb_Responses response))
                             \<lparr>be_Refusals = [], be_InvalidResults = [], be_Messages = messages\<rparr>
         in if length (be_Messages b) + length (be_Refusals b) + length (be_InvalidResults b) \<noteq> 0
            then (pmuids, Some (batch_gerror lib b)) else (pmuids, None)))"

text \<open>The provider of a call: a dry run goes to the sandbox or nowhere.\<close>

definition chooseSDK :: "'e mailtrap_client \<Rightarrow> bool \<Rightarrow> gerror + 'e mailtrap_sdk" where
  "chooseSDK c dryRun =
     (if dryRun
      then (case mt_sandboxSDK c of None \<Rightarrow> Inl ErrSandboxNotConfigured | Some s \<Rightarrow> Inr s)
      else (case mt_sdk c of None \<Rightarrow> Inl (Err ''mailtrap client is not configured'') | Some s \<Rightarrow> Inr s))"

definition submitRequests ::
  "'e mailtrap_lib \<Rightarrow> 'e mailtrap_sdk \<Rightarrow> go_email \<Rightarrow> sdk_request list \<Rightarrow> 'e \<Rightarrow> (send_result \<times> gerror option) \<times> 'e" where
  "submitRequests lib provider em requests e =
     (if length requests = 1
      then (case sdk_Send provider (hd requests) e of
              (Inl err, e1) \<Rightarrow> (([], Some (Wrapped err ''mailtrap send'')), e1)
            | (Inr response, e1) \<Rightarrow>
                if \<not> sr_Success response \<or> \<not> validMessageID (sr_MessageIDs response)
                then (([], Some (Wrapped ErrInvalidResponse
                        ''single send must report success and exactly one message ID'')), e1)
                else (([hd (sr_MessageIDs response)], None), e1))
      else (case sdk_SendBatch provider requests e of
              (Inl err, e1) \<Rightarrow> (([], Some (Wrapped err ''mailtrap batch send'')), e1)
            | (Inr response, e1) \<Rightarrow> (batchResult lib (em_To em) response, e1)))"

definition markSubjects :: "sdk_request list \<Rightarrow> sdk_request list" where
  "markSubjects requests =
     map (\<lambda>r. if \<not> HasPrefix (sq_Subject r) DryRunSubjectPrefix
              then r\<lparr>sq_Subject := DryRunSubjectPrefix @ sq_Subject r\<rparr> else r) requests"

definition mailtrap_SendResult ::
  "'e mailtrap_lib \<Rightarrow> 'e mailtrap_client \<Rightarrow> go_email \<Rightarrow> 'e \<Rightarrow> (send_result \<times> gerror option) \<times> 'e" where
  "mailtrap_SendResult lib c em0 e =
     (case ml_ctxErr lib e of
        (Some err, e1) \<Rightarrow> (([], Some err), e1)
      | (None, e1) \<Rightarrow>
          if mt_sdk c = None then (([], Some (Err ''mailtrap client is not configured'')), e1)
          else
     (case (case mt_dryRun c of None \<Rightarrow> (False, e1) | Some f \<Rightarrow> f e1) of
        (dryRun, e2) \<Rightarrow>
     (case chooseSDK c dryRun of
        Inl err \<Rightarrow> (([], Some err), e2)
      | Inr provider \<Rightarrow>
          (let em = (PrepareDryRun em0 dryRun)\<lparr>em_Subject := em_Subject em0\<rparr> in
           case mailtrap_requests lib c em e2 of
             (Inl err, e3) \<Rightarrow> (([], Some err), e3)
           | (Inr requests, e3) \<Rightarrow>
               submitRequests lib provider em
                 (if dryRun \<and> em_TemplateID em = '''' then markSubjects requests else requests) e3))))"

text \<open>The client as the durable sender uses it: what comes with an error is not looked at.\<close>

definition mailtrap_Send :: "'e mailtrap_lib \<Rightarrow> 'e mailtrap_client \<Rightarrow> (go_any vars, 'e) email_client" where
  "mailtrap_Send lib c em e =
     (case mailtrap_SendResult lib c em e of
        ((ids, Some err), e1) \<Rightarrow> (Inl err, e1) | ((ids, None), e1) \<Rightarrow> (Inr ids, e1))"

section \<open>Verify\<close>

fun verifyMessages ::
  "'e mailtrap_lib \<Rightarrow> verify_request \<Rightarrow> verify_result \<Rightarrow> (gerror + sdk_log_message option) list \<Rightarrow>
     gerror + verify_result" where
  "verifyMessages lib q result [] = Inr result"
| "verifyMessages lib q result (m # ms) =
     (case m of
        Inl err \<Rightarrow> Inl (Wrapped err ''mailtrap verify'')
      | Inr None \<Rightarrow> Inl (Wrapped ErrInvalidResponse ''null email log record'')
      | Inr (Some message) \<Rightarrow>
          if sm_Variable message CorrelationVariable \<noteq> Some (vr_CorrelationID q)
             \<or> \<not> ml_EqualFold lib (sm_To message) (vr_Recipient q)
          then verifyMessages lib q result ms
          else if TrimSpace (sm_MessageID message) = ''''
          then Inl (Wrapped ErrInvalidResponse ''matching email log has no message ID'')
          else if vs_Found result \<and> vs_PMUID result \<noteq> sm_MessageID message
          then Inl ErrAmbiguousVerification
          else verifyMessages lib q \<lparr>vs_Found = True, vs_PMUID = sm_MessageID message\<rparr> ms)"

definition mailtrap_Verify ::
  "'e mailtrap_lib \<Rightarrow> (go_time \<Rightarrow> bool) \<Rightarrow> 'e mailtrap_client option \<Rightarrow> go_duration \<Rightarrow> 'e email_verifier" where
  "mailtrap_Verify lib isZero client tolerance q e =
     (case ml_ctxErr lib e of
        (Some err, e1) \<Rightarrow> (Inl err, e1)
      | (None, e1) \<Rightarrow>
     (case (case client of None \<Rightarrow> None | Some c \<Rightarrow> mt_sdk c) of
        None \<Rightarrow> (Inl (Err ''mailtrap verifier is not configured''), e1)
      | Some provider \<Rightarrow>
          if tolerance < 0 \<or> isZero (vr_SentAt q) \<or> TrimSpace (vr_CorrelationID q) = ''''
          then (Inl (Err ''mailtrap verification requires a correlation ID, SentAt and non-negative tolerance''), e1)
          else
     (case validateAddress lib (vr_Recipient q) of
        Some err \<Rightarrow> (Inl (Wrapped err ''invalid verification recipient''), e1)
      | None \<Rightarrow>
          (case sdk_Logs provider
                  \<lparr>sl_SentAfter = ml_FormatTime lib (vr_SentAt q + (- tolerance)),
                   sl_SentBefore = ml_FormatTime lib (vr_SentAt q + tolerance),
                   sl_ToCIEqual = [vr_Recipient q]\<rparr> e1 of
             (messages, e2) \<Rightarrow> (verifyMessages lib q \<lparr>vs_Found = False, vs_PMUID = ''''\<rparr> messages, e2)))))"

section \<open>Batches\<close>

lemma TrimSpace_Nil [simp]: "TrimSpace '''' = ''''"
  by (simp add: TrimSpace_def trimRightSpace.simps trimLeftSpace.simps)

definition item_good :: "sdk_item \<Rightarrow> bool" where
  "item_good i \<longleftrightarrow> si_Success i \<and> validMessageID (si_MessageIDs i) \<and> si_Errors i = []"

lemma batchItem_errors:
  "length (be_Refusals (snd (batchItem index r i b))) + length (be_InvalidResults (snd (batchItem index r i b))) =
   length (be_Refusals b) + length (be_InvalidResults b) + (if item_good i then 0 else 1)"
  "be_Messages (snd (batchItem index r i b)) = be_Messages b"
  "item_good i \<Longrightarrow> fst (batchItem index r i b) = hd (si_MessageIDs i)"
  by (auto simp: batchItem_def item_good_def Let_def)

lemma batchLoop_errors:
  "be_Messages (snd (batchLoop index rs b)) = be_Messages b \<and>
   length (be_Refusals (snd (batchLoop index rs b))) + length (be_InvalidResults (snd (batchLoop index rs b))) =
     length (be_Refusals b) + length (be_InvalidResults b) + length (filter (\<lambda>x. \<not> item_good (snd x)) rs) \<and>
   (list_all (\<lambda>x. item_good (snd x)) rs \<longrightarrow> fst (batchLoop index rs b) = map (\<lambda>x. hd (si_MessageIDs (snd x))) rs)"
proof (induction rs arbitrary: index b)
  case (Cons x rs)
  obtain r i where x: "x = (r, i)" by (cases x)
  obtain u b1 where one: "batchItem index r i b = (u, b1)" by (cases "batchItem index r i b")
  obtain us b2 where more: "batchLoop (Suc index) rs b1 = (us, b2)" by (cases "batchLoop (Suc index) rs b1")
  have loop: "batchLoop index (x # rs) b = (u # us, b2)" using x one more by simp
  from batchItem_errors [where index = index and r = r and i = i and b = b] one Cons.IH [of "Suc index" b1] more loop x show ?case by auto
qed simp

text \<open>
  A batch through Mailtrap succeeds exactly when the response has one result per recipient, reports overall
  success without errors, and every result is a success with a single message ID and no errors. Then the
  identifiers are those of the results, in the order of the recipients. In every other case the call fails.
\<close>

theorem mailtrap_batch_exact:
  "batchResult lib recipients response = (ids, None) \<longleftrightarrow>
     length (sb_Responses response) = length recipients \<and> sb_Success response \<and> sb_Errors response = [] \<and>
     list_all (\<lambda>i. si_Success i \<and> validMessageID (si_MessageIDs i) \<and> si_Errors i = []) (sb_Responses response) \<and>
     ids = map (\<lambda>i. hd (si_MessageIDs i)) (sb_Responses response)"
proof (cases "length (sb_Responses response) = length recipients")
  case True
  let ?z = "zip (map (\<lambda>r. ad_Email (rp_Address r)) recipients) (sb_Responses response)"
  let ?m = "if \<not> sb_Success response \<and> length (sb_Errors response) = 0
    then [''batch response did not report overall success''] else sb_Errors response"
  let ?b = "\<lparr>be_Refusals = [], be_InvalidResults = [], be_Messages = ?m\<rparr>"
  obtain us b where loop: "batchLoop 0 ?z ?b = (us, b)" by (cases "batchLoop 0 ?z ?b")
  have snds: "map snd ?z = sb_Responses response" using True by simp
  have "list_all (\<lambda>x. item_good (snd x)) ?z \<longleftrightarrow> list_all item_good (map snd ?z)"
    "map (\<lambda>x. hd (si_MessageIDs (snd x))) ?z = map (\<lambda>i. hd (si_MessageIDs i)) (map snd ?z)"
    by (simp_all only: list.pred_map comp_def map_map)
  note all = this(1) [unfolded snds] and ids = this(2) [unfolded snds]
  have none: "length (filter (\<lambda>x. \<not> item_good (snd x)) ?z) = 0 \<longleftrightarrow> list_all (\<lambda>x. item_good (snd x)) ?z"
    by (auto simp: filter_empty_conv list_all_iff)
  have m: "?m = [] \<longleftrightarrow> sb_Success response \<and> sb_Errors response = []" by simp
  from batchLoop_errors [of 0 ?z ?b] loop have
    b: "be_Messages b = ?m" "length (be_Refusals b) + length (be_InvalidResults b) = length (filter (\<lambda>x. \<not> item_good (snd x)) ?z)"
      "list_all (\<lambda>x. item_good (snd x)) ?z \<longrightarrow> us = map (\<lambda>x. hd (si_MessageIDs (snd x))) ?z" by auto
  have "batchResult lib recipients response = (ids, None) \<longleftrightarrow>
      ids = us \<and> ?m = [] \<and> length (filter (\<lambda>x. \<not> item_good (snd x)) ?z) = 0"
    unfolding b(1) [symmetric] b(2) [symmetric] using True loop by (auto simp: batchResult_def Let_def)
  also have "\<dots> \<longleftrightarrow> sb_Success response \<and> sb_Errors response = [] \<and> list_all item_good (sb_Responses response) \<and>
      ids = map (\<lambda>i. hd (si_MessageIDs i)) (sb_Responses response)"
    unfolding none m using b(3) unfolding all ids by blast
  finally show ?thesis using True by (simp add: item_good_def [abs_def])
qed (simp add: batchResult_def)

lemma requestLoop_length:
  "requestLoop lib c em cid index rs e = (Inr requests, e') \<Longrightarrow> length requests = length rs"
  by (induction rs arbitrary: index e requests) (auto split: prod.splits option.splits sum.splits)

lemma mailtrap_requests_length:
  assumes "mailtrap_requests lib c em e = (Inr requests, e')"
  shows "length requests = length (em_To em)"
  using assms by (auto simp: mailtrap_requests_def split: if_splits option.splits sum.splits dest: requestLoop_length)

lemma validMessageID_nonempty: "validMessageID us \<Longrightarrow> hd us \<noteq> ''''"
  by (auto simp: validMessageID_def)

lemma submitRequests_ok:
  assumes "submitRequests lib provider em requests e = ((ids, None), e')" "length requests = length (em_To em)"
  shows "length ids = length (em_To em) \<and> '''' \<notin> set ids"
proof (cases "length requests = 1")
  case True
  with assms show ?thesis
    by (auto simp: submitRequests_def dest: validMessageID_nonempty split: prod.splits sum.splits if_splits)
next
  case False
  with assms obtain response where "batchResult lib (em_To em) response = (ids, None)"
    by (auto simp: submitRequests_def split: prod.splits sum.splits)
  then show ?thesis
    unfolding mailtrap_batch_exact by (force simp: list_all_iff dest: validMessageID_nonempty)
qed

interpretation mailtrap_provider: email_provider "mailtrap_Send lib c" for lib :: "'e mailtrap_lib" and c
proof unfold_locales
  fix em :: go_email and e e' :: 'e and ids
  assume "mailtrap_Send lib c em e = (Inr ids, e')"
  then have r: "mailtrap_SendResult lib c em e = ((ids, None), e')"
    by (auto simp: mailtrap_Send_def split: prod.splits option.splits)
  show "length ids = length (em_To em) \<and> '''' \<notin> set ids"
  proof -
    from r obtain b e2 provider requests requests' e3 where
      q: "mailtrap_requests lib c ((PrepareDryRun em b)\<lparr>em_Subject := em_Subject em\<rparr>) e2 = (Inr requests, e3)"
      and s: "submitRequests lib provider ((PrepareDryRun em b)\<lparr>em_Subject := em_Subject em\<rparr>) requests' e3 = ((ids, None), e')"
      and l: "length requests' = length requests"
      by (auto simp: mailtrap_SendResult_def Let_def markSubjects_def split: prod.splits option.splits sum.splits if_splits)
    from submitRequests_ok [OF s] mailtrap_requests_length [OF q] l show ?thesis by simp
  qed
qed

section \<open>Dry runs go to the sandbox, marked\<close>

definition marked :: "sdk_request \<Rightarrow> bool" where
  "marked r \<longleftrightarrow> sq_Headers r DryRunHeader = Some ''true'' \<and>
     (if sq_TemplateUUID r = '''' then HasPrefix (sq_Subject r) DryRunSubjectPrefix
      else map_of (sq_TemplateVariables r) NotificationPrefixVariable = Some (AString DryRunSubjectPrefix))"

lemma PrepareDryRun_header: "em_Headers (PrepareDryRun em True) DryRunHeader = Some ''true''"
  by (simp add: PrepareDryRun_def Let_def setPrefix_def markDryRun_def dryRunHeaders_def)

lemma PrepareDryRun_prefix:
  assumes "em_TemplateID em \<noteq> ''''" "r \<in> set (em_To (PrepareDryRun em b))"
  shows "map_of (mergedVariables (em_Variables (PrepareDryRun em b)) (rp_Variables r)) NotificationPrefixVariable =
    Some (AString (if b then DryRunSubjectPrefix else ''''))"
proof -
  have tid: "em_TemplateID (if b then markDryRun em else em) \<noteq> ''''" using assms(1) by (simp add: markDryRun_def)
  from assms(2) tid have "NotificationPrefixVariable \<notin> fst ` set (rp_Variables r)"
    by (auto simp: PrepareDryRun_def Let_def setPrefix_def AList.delete_eq)
  then show ?thesis
    using tid by (simp add: map_of_mergedVariables_notin PrepareDryRun_def Let_def setPrefix_def update_conv')
qed

lemma newRequest_marked:
  assumes "newRequest lib c em cid i r = Inr q" "em_Headers em DryRunHeader = Some ''true''"
    "em_TemplateID em \<noteq> '''' \<Longrightarrow>
       map_of (mergedVariables (em_Variables em) (rp_Variables r)) NotificationPrefixVariable = Some (AString DryRunSubjectPrefix)"
  shows "marked (if em_TemplateID em = ''''
    then (if \<not> HasPrefix (sq_Subject q) DryRunSubjectPrefix
          then q\<lparr>sq_Subject := DryRunSubjectPrefix @ sq_Subject q\<rparr> else q) else q)"
proof (cases "em_TemplateID em = ''''")
  case True
  with assms(1) have "sq_Headers q = em_Headers em" "sq_TemplateUUID q = ''''"
    by (auto simp: newRequest_def Let_def split: sum.splits)
  with True assms(2) show ?thesis by (simp add: marked_def HasPrefix_def)
next
  case False
  with assms(1) have "sq_Headers q = em_Headers em" "sq_TemplateUUID q = em_TemplateID em"
    "sq_TemplateVariables q = mergedVariables (em_Variables em) (rp_Variables r)"
    by (auto simp: newRequest_def Let_def)
  with False assms(2,3) show ?thesis by (simp add: marked_def)
qed

lemma requestLoop_requests:
  "requestLoop lib c em cid i rs e = (Inr qs, e') \<Longrightarrow> \<forall>q \<in> set qs. \<exists>r \<in> set rs. \<exists>j. newRequest lib c em cid j r = Inr q"
  by (induction rs arbitrary: i e qs) (auto split: prod.splits option.splits sum.splits, fastforce+)

lemma dry_run_requests_marked:
  assumes "mailtrap_requests lib c ((PrepareDryRun em True)\<lparr>em_Subject := s\<rparr>) e = (Inr qs, e')"
  shows "list_all marked (if em_TemplateID em = '''' then markSubjects qs else qs)"
proof -
  let ?em = "(PrepareDryRun em True)\<lparr>em_Subject := s\<rparr>"
  obtain cid where "requestLoop lib c ?em cid 0 (em_To ?em) e = (Inr qs, e')"
    using assms by (auto simp: mailtrap_requests_def split: if_splits option.splits sum.splits)
  note qs = requestLoop_requests [OF this]
  have "marked (if em_TemplateID ?em = ''''
      then (if \<not> HasPrefix (sq_Subject q) DryRunSubjectPrefix
            then q\<lparr>sq_Subject := DryRunSubjectPrefix @ sq_Subject q\<rparr> else q) else q)" if "q \<in> set qs" for q
  proof -
    from qs that obtain r j where r: "r \<in> set (em_To (PrepareDryRun em True))" "newRequest lib c ?em cid j r = Inr q" by auto
    from r(2) show ?thesis
    proof (rule newRequest_marked)
      show "em_Headers ?em DryRunHeader = Some ''true''" using PrepareDryRun_header by simp
      assume "em_TemplateID ?em \<noteq> ''''"
      then show "map_of (mergedVariables (em_Variables ?em) (rp_Variables r)) NotificationPrefixVariable =
          Some (AString DryRunSubjectPrefix)"
        using PrepareDryRun_prefix [of em r True] r(1) by simp
    qed
  qed
  then show ?thesis
    by (cases "em_TemplateID em = ''''") (simp_all add: markSubjects_def list_all_iff del: if_image_distrib)
qed

lemma mailtrap_requests_sdk:
  "mailtrap_requests lib (c\<lparr>mt_sdk := x, mt_sandboxSDK := y\<rparr>) em e = mailtrap_requests lib c em e"
proof -
  have "newRequest lib (c\<lparr>mt_sdk := x, mt_sandboxSDK := y\<rparr>) em cid i r = newRequest lib c em cid i r" for cid i r
    by (simp add: newRequest_def)
  then have "requestLoop lib (c\<lparr>mt_sdk := x, mt_sandboxSDK := y\<rparr>) em cid i rs e = requestLoop lib c em cid i rs e" for cid i rs e
    by (induction rs arbitrary: i e) (simp_all split: option.split sum.split prod.split)
  then show ?thesis by (simp add: mailtrap_requests_def split: option.split sum.split)
qed

text \<open>
  C19: A dry run never reaches the production account, and tells the sandbox what it is. While the dry-run
  callback says so, a Send does the same whatever the production SDK would do, and depends on the sandbox only
  through its answers to marked requests: those that carry the dry-run header and either a subject with the
  dry-run prefix or, for a hosted template, the prefix as the template's variable, which no recipient's own
  variables can replace.
\<close>

theorem mailtrap_dry_run_isolated:
  assumes "mt_dryRun c = Some f" "\<forall>e. fst (f e)" "mt_sdk c = Some live" "mt_sandboxSDK c = Some box"
    and "\<forall>q e. marked q \<longrightarrow> sdk_Send box' q e = sdk_Send box q e"
    and "\<forall>qs e. list_all marked qs \<longrightarrow> sdk_SendBatch box' qs e = sdk_SendBatch box qs e"
  shows "mailtrap_Send lib (c\<lparr>mt_sdk := Some live', mt_sandboxSDK := Some box'\<rparr>) em e = mailtrap_Send lib c em e"
proof -
  let ?em = "(PrepareDryRun em True)\<lparr>em_Subject := em_Subject em\<rparr>"
  have submit: "submitRequests lib box' ?em qs e = submitRequests lib box ?em qs e" if "list_all marked qs" for qs e
    using that assms(5,6) by (cases qs) (simp_all add: submitRequests_def)
  have "mailtrap_SendResult lib (c\<lparr>mt_sdk := Some live', mt_sandboxSDK := Some box'\<rparr>) em e =
      mailtrap_SendResult lib c em e"
  proof (cases "ml_ctxErr lib e")
    case (Pair err e1)
    obtain e2 where f: "f e1 = (True, e2)" using assms(2) by (metis prod.collapse)
    obtain r e3 where q: "mailtrap_requests lib c ?em e2 = (r, e3)" by (cases "mailtrap_requests lib c ?em e2")
    show ?thesis
    proof (cases r)
      case (Inr qs)
      from dry_run_requests_marked [OF q [unfolded Inr]]
      have "submitRequests lib box' ?em (if em_TemplateID em = '''' then markSubjects qs else qs) e3 =
          submitRequests lib box ?em (if em_TemplateID em = '''' then markSubjects qs else qs) e3" by (rule submit)
      with Pair f q Inr assms(1,3,4) show ?thesis
        by (simp add: mailtrap_SendResult_def chooseSDK_def mailtrap_requests_sdk Let_def split: option.split)
    qed (use Pair f q assms(1,3,4) in
      \<open>simp add: mailtrap_SendResult_def chooseSDK_def mailtrap_requests_sdk Let_def split: option.split\<close>)
  qed
  then show ?thesis by (simp add: mailtrap_Send_def)
qed

section \<open>Verification\<close>

definition log_matches :: "'e mailtrap_lib \<Rightarrow> verify_request \<Rightarrow> sdk_log_message \<Rightarrow> bool" where
  "log_matches lib q m \<longleftrightarrow> sm_Variable m CorrelationVariable = Some (vr_CorrelationID q) \<and>
     ml_EqualFold lib (sm_To m) (vr_Recipient q)"

lemma verifyMessages_Inr:
  assumes "verifyMessages lib q r ms = Inr r'"
  shows "(vs_Found r' \<longleftrightarrow> vs_Found r \<or> (\<exists>m. Inr (Some m) \<in> set ms \<and> log_matches lib q m)) \<and>
    (vs_Found r \<longrightarrow> vs_PMUID r' = vs_PMUID r) \<and>
    (\<forall>m. Inr (Some m) \<in> set ms \<longrightarrow> log_matches lib q m \<longrightarrow> vs_PMUID r' = sm_MessageID m \<and> sm_MessageID m \<noteq> '''') \<and>
    (\<forall>x \<in> set ms. \<exists>m. x = Inr (Some m))"
  using assms
proof (induction ms arbitrary: r)
  case (Cons x ms)
  from Cons.prems obtain m where x: "x = Inr (Some m)" by (auto split: sum.splits option.splits)
  show ?case
  proof (cases "log_matches lib q m")
    case True
    let ?r = "\<lparr>vs_Found = True, vs_PMUID = sm_MessageID m\<rparr>"
    from True have "\<not> (sm_Variable m CorrelationVariable \<noteq> Some (vr_CorrelationID q) \<or> \<not> ml_EqualFold lib (sm_To m) (vr_Recipient q))"
      by (simp add: log_matches_def)
    with Cons.prems x have more: "verifyMessages lib q ?r ms = Inr r'" and id: "sm_MessageID m \<noteq> ''''"
      and same: "vs_Found r \<longrightarrow> vs_PMUID r = sm_MessageID m"
      by (auto split: if_splits)
    from Cons.IH [OF more] True x id same show ?thesis by auto
  next
    case False
    then have "sm_Variable m CorrelationVariable \<noteq> Some (vr_CorrelationID q) \<or> \<not> ml_EqualFold lib (sm_To m) (vr_Recipient q)"
      by (simp add: log_matches_def)
    with Cons.prems x have "verifyMessages lib q r ms = Inr r'" by simp
    from Cons.IH [OF this] False x show ?thesis by auto
  qed
qed simp

text \<open>
  C22: A verification through Mailtrap that answers has read all of the provider's log records for the request:
  it finds the message exactly when some record has both the correlation ID and the recipient of the request,
  and then every such record has the identifier it returns. So an identifier is never that of another
  recipient, and two different messages that could be meant are an error, not a choice.
\<close>

theorem mailtrap_verify_exact:
  assumes "mailtrap_Verify lib isZero client tolerance q e = (Inr r, e')"
  shows "\<exists>c provider options e1 messages. client = Some c \<and> mt_sdk c = Some provider \<and>
    sdk_Logs provider options e1 = (messages, e') \<and> sl_ToCIEqual options = [vr_Recipient q] \<and> list_all (\<lambda>x. \<exists>m. x = Inr (Some m)) messages \<and>
    (vs_Found r \<longleftrightarrow> list_ex (\<lambda>x. \<exists>m. x = Inr (Some m) \<and> log_matches lib q m) messages) \<and>
    list_all (\<lambda>x. case x of Inr (Some m) \<Rightarrow> log_matches lib q m \<longrightarrow> vs_PMUID r = sm_MessageID m \<and> sm_MessageID m \<noteq> ''''
                | _ \<Rightarrow> False) messages"
proof -
  let ?none = "\<lparr>vs_Found = False, vs_PMUID = ''''\<rparr>"
  from assms obtain c provider options e1 messages where
    l: "sdk_Logs provider options e1 = (messages, e')" "sl_ToCIEqual options = [vr_Recipient q]"
    and c: "client = Some c" "mt_sdk c = Some provider"
    and run: "verifyMessages lib q ?none messages = Inr r"
    by (auto simp: mailtrap_Verify_def split: prod.splits option.splits if_splits)
  note v = verifyMessages_Inr [OF run]
  then have all: "list_all (\<lambda>x. \<exists>m. x = Inr (Some m)) messages" by (simp add: list_all_iff)
  have "vs_Found r \<longleftrightarrow> list_ex (\<lambda>x. \<exists>m. x = Inr (Some m) \<and> log_matches lib q m) messages"
    using v by (auto simp: list_ex_iff)
  moreover have "list_all (\<lambda>x. case x of Inr (Some m) \<Rightarrow> log_matches lib q m \<longrightarrow> vs_PMUID r = sm_MessageID m \<and> sm_MessageID m \<noteq> ''''
                | _ \<Rightarrow> False) messages"
    using v unfolding list_all_iff by fastforce
  ultimately show ?thesis using l c all by blast
qed

section \<open>A concrete provider\<close>

definition mailtrap_demo_sdk :: "nat mailtrap_sdk" where
  "mailtrap_demo_sdk =
     \<lparr>sdk_Send = (\<lambda>q n. (Inr \<lparr>sr_Success = True, sr_MessageIDs = [''id'']\<rparr>, Suc n)),
      sdk_SendBatch = (\<lambda>qs n. (Inr \<lparr>sb_Success = True, sb_Responses = [], sb_Errors = []\<rparr>, Suc n)),
      sdk_Logs = (\<lambda>options n. ([Inr (Some \<lparr>sm_Variable = (\<lambda>_. Some ''m''), sm_To = ''a'', sm_MessageID = ''id''\<rparr>)], Suc n))\<rparr>"

definition mailtrap_demo_lib :: "nat mailtrap_lib" where
  "mailtrap_demo_lib =
     \<lparr>ml_ParseAddress = (\<lambda>s. Inr \<lparr>ad_Email = s, ad_Name = ''''\<rparr>), ml_EqualFold = (=), ml_Quote = id, ml_Sprint = (\<lambda>_. ''''),
      ml_FormatTime = (\<lambda>_. ''now''), ml_range = (\<lambda>h. []), ml_ctxErr = (\<lambda>n. (None, n))\<rparr>"

definition mailtrap_demo_client :: "nat mailtrap_client" where
  "mailtrap_demo_client =
     \<lparr>mt_sdk = Some mailtrap_demo_sdk, mt_sandboxSDK = Some mailtrap_demo_sdk, mt_Category = '''',
      mt_dryRun = Some (\<lambda>n. (True, n))\<rparr>"

text \<open>A sandbox that answers only marked requests.\<close>

definition strict_sandbox :: "nat mailtrap_sdk" where
  "strict_sandbox = mailtrap_demo_sdk
     \<lparr>sdk_Send := \<lambda>q n. if marked q then sdk_Send mailtrap_demo_sdk q n else (Inl (Err ''unmarked''), n),
      sdk_SendBatch := \<lambda>qs n. if list_all marked qs then sdk_SendBatch mailtrap_demo_sdk qs n
                            else (Inl (Err ''unmarked''), n)\<rparr>"

definition failing_sdk :: "nat mailtrap_sdk" where
  "failing_sdk = mailtrap_demo_sdk\<lparr>sdk_Send := \<lambda>q n. (Inl (Err ''production''), n)\<rparr>"

definition mailtrap_demo_email :: go_email where
  "mailtrap_demo_email =
     \<lparr>em_From = \<lparr>ad_Email = ''s'', ad_Name = ''''\<rparr>,
      em_To = [\<lparr>rp_Address = \<lparr>ad_Email = ''a'', ad_Name = ''''\<rparr>, rp_Variables = []\<rparr>],
      em_Subject = '''', em_TemplateID = ''T'', em_Text = '''', em_Variables = [], em_Headers = Map.empty\<rparr>"

lemma TrimSpace_T: "TrimSpace ''T'' = ''T''"
  by (simp add: TrimSpace_def trimRightSpace.simps trimLeftSpace.simps decodeRune_ascii decodeLastRune_ascii isSpace_def)

lemma mailtrap_demo_sent:
  "mailtrap_Send mailtrap_demo_lib mailtrap_demo_client mailtrap_demo_email 0 = (Inr [''id''], 1)"
  by (simp add: mailtrap_Send_def mailtrap_SendResult_def mailtrap_demo_lib_def mailtrap_demo_client_def chooseSDK_def
      mailtrap_requests_def PrepareDryRun_def Let_def setPrefix_def markDryRun_def mailtrap_demo_email_def
      MaxBatchRecipients_def validateAddress_def contentError_def TrimSpace_T correlationHeader_def newRequest_def
      submitRequests_def mailtrap_demo_sdk_def validMessageID_def)
    (simp add: TrimSpace_def trimRightSpace.simps trimLeftSpace.simps decodeRune_ascii decodeLastRune_ascii isSpace_def)

theorem mailtrap_dry_run_isolated_witness:
  "mailtrap_Send mailtrap_demo_lib
     (mailtrap_demo_client\<lparr>mt_sdk := Some failing_sdk, mt_sandboxSDK := Some strict_sandbox\<rparr>) mailtrap_demo_email 0 =
   (Inr [''id''], 1)"
proof -
  have "mailtrap_Send mailtrap_demo_lib
     (mailtrap_demo_client\<lparr>mt_sdk := Some failing_sdk, mt_sandboxSDK := Some strict_sandbox\<rparr>) mailtrap_demo_email 0 =
     mailtrap_Send mailtrap_demo_lib mailtrap_demo_client mailtrap_demo_email 0"
    by (rule mailtrap_dry_run_isolated [where f = "\<lambda>n. (True, n)" and live = mailtrap_demo_sdk and box = mailtrap_demo_sdk])
      (simp_all add: mailtrap_demo_client_def strict_sandbox_def)
  then show ?thesis by (simp add: mailtrap_demo_sent)
qed

lemma mailtrap_demo_verified:
  "mailtrap_Verify mailtrap_demo_lib (\<lambda>t. t = 0) (Some mailtrap_demo_client) 1
     \<lparr>vr_CorrelationID = ''m'', vr_Recipient = ''a'', vr_SentAt = 5\<rparr> 0 = (Inr \<lparr>vs_Found = True, vs_PMUID = ''id''\<rparr>, 1)"
  by (simp add: mailtrap_Verify_def mailtrap_demo_lib_def mailtrap_demo_client_def validateAddress_def mailtrap_demo_sdk_def)
    (simp add: TrimSpace_def trimRightSpace.simps trimLeftSpace.simps decodeRune_ascii decodeLastRune_ascii isSpace_def)

theorem mailtrap_verify_exact_witness:
  "\<exists>provider options e1 messages. mt_sdk mailtrap_demo_client = Some provider \<and>
    sdk_Logs provider options e1 = (messages, 1) \<and>
    list_ex (\<lambda>x. \<exists>m. x = Inr (Some m) \<and>
      log_matches mailtrap_demo_lib \<lparr>vr_CorrelationID = ''m'', vr_Recipient = ''a'', vr_SentAt = 5\<rparr> m) messages"
  using mailtrap_verify_exact [OF mailtrap_demo_verified] by simp blast

end
