(* ===== verification/AdminDelete.thy ===== *)
theory AdminDelete
  imports Listeners
begin

text \<open>
  services/admindelete and its listener: deleting the account of a user on request of an administrator.
  The listener turns the eligible request documents into truths, the evaluator decides about a request and
  deletes the account, and the persistence handler records the outcome and its audit entry.

  The Firestore client is a parameter: \<open>get\<close> reads a document (\<open>None\<close> when there is none), and a transaction
  is the function from the reads of its documents to the writes it makes. So are the deletion of an account
  and what the libraries say about an error.
\<close>

section \<open>Requests and outcomes\<close>

record delete_snapshot =
  ds_RequestID :: string
  ds_TargetUID :: string
  ds_TargetEmail :: string
  ds_RequestedByUID :: string
  ds_RequestedByEmail :: string
  ds_Reason :: string
  ds_SchemaVersion :: int
  ds_CreatedAt :: go_time

record delete_requested =
  dq_Request :: delete_snapshot

definition DeleteRequested_Identity :: "delete_requested \<Rightarrow> string" where
  "DeleteRequested_Identity truth = ds_RequestID (dq_Request truth)"

definition AdminDeleteRequestedFanout :: handler_name where
  "AdminDeleteRequestedFanout = ''truths.admin_delete_requested''"

definition StatusPending :: string where "StatusPending = ''pending''"
definition OutcomeInvalidRequest :: string where "OutcomeInvalidRequest = ''invalid_request''"
definition OutcomeFailedPrecondition :: string where "OutcomeFailedPrecondition = ''failed_precondition''"
definition OutcomeDeleteBlocked :: string where "OutcomeDeleteBlocked = ''auth_delete_blocked''"
definition OutcomeDryRunValidated :: string where "OutcomeDryRunValidated = ''dry_run_validated''"
definition OutcomeAuthDeleted :: string where "OutcomeAuthDeleted = ''auth_deleted''"
definition OutcomeAuthDeleteFailed :: string where "OutcomeAuthDeleteFailed = ''auth_delete_failed''"

lemmas outcome_defs = StatusPending_def OutcomeInvalidRequest_def OutcomeFailedPrecondition_def OutcomeDeleteBlocked_def
  OutcomeDryRunValidated_def OutcomeAuthDeleted_def OutcomeAuthDeleteFailed_def

record outcome_payload =
  oc_RequestID :: string
  oc_TargetUID :: string
  oc_RequestedByUID :: string
  oc_Reason :: string
  oc_Outcome :: string
  oc_Error :: string
  oc_Idempotent :: bool
  oc_RealDelete :: bool
  oc_UsersDocExists :: bool
  oc_UserPublicDocExists :: bool
  oc_At :: go_time

definition validateOutcome :: "string \<Rightarrow> gerror option" where
  "validateOutcome outcome =
     (if outcome \<in> {OutcomeInvalidRequest, OutcomeFailedPrecondition, OutcomeDeleteBlocked, OutcomeDryRunValidated,
                     OutcomeAuthDeleted, OutcomeAuthDeleteFailed}
      then None else Some (Err ''unknown admin-delete outcome''))"

section \<open>The repository\<close>

definition requestCollection :: string where "requestCollection = ''admin_delete_requests''"
definition deleteAuditCollection :: string where "deleteAuditCollection = ''admin_delete_request_audit''"
definition killSwitchPath :: "string list" where "killSwitchPath = [''config'', ''admin_delete'']"

type_synonym 'f get_document = "string list \<Rightarrow> 'f \<Rightarrow> (gerror + go_map option) \<times> 'f"

definition documentStatus :: "string \<Rightarrow> go_map \<Rightarrow> gerror + string" where
  "documentStatus requestID data =
     (case data ''status'' of
        None \<Rightarrow> Inl (Err (''admin-delete request has no status: '' @ requestID))
      | Some value \<Rightarrow>
          (case asString value of
             None \<Rightarrow> Inl (Err (''admin-delete request status must be a string: '' @ requestID))
           | Some requestStatus \<Rightarrow> Inr requestStatus))"

definition RequestStatus :: "'f get_document \<Rightarrow> string \<Rightarrow> 'f \<Rightarrow> (gerror + string option) \<times> 'f" where
  "RequestStatus get requestID f =
     (case get [requestCollection, requestID] f of
        (Inl e, f1) \<Rightarrow> (Inl (Wrapped e (''read admin-delete request '' @ requestID)), f1)
      | (Inr None, f1) \<Rightarrow> (Inr None, f1)
      | (Inr (Some data), f1) \<Rightarrow> (map_sum id Some (documentStatus requestID data), f1))"

definition pausedOf :: "go_map \<Rightarrow> gerror + bool" where
  "pausedOf data =
     (case data ''paused'' of
        None \<Rightarrow> Inr False
      | Some (ABool paused) \<Rightarrow> Inr paused
      | Some _ \<Rightarrow> Inl (Err ''config/admin_delete.paused must be a boolean''))"

definition IsPaused :: "'f get_document \<Rightarrow> 'f \<Rightarrow> (gerror + bool) \<times> 'f" where
  "IsPaused get f =
     (case get killSwitchPath f of
        (Inl e, f1) \<Rightarrow> (Inl (Wrapped e ''read admin-delete kill switch''), f1)
      | (Inr None, f1) \<Rightarrow> (Inr False, f1)
      | (Inr (Some data), f1) \<Rightarrow> (pausedOf data, f1))"

definition documentExists :: "'f get_document \<Rightarrow> string list \<Rightarrow> 'f \<Rightarrow> (gerror + bool) \<times> 'f" where
  "documentExists get ref f =
     (case get ref f of (Inl e, f1) \<Rightarrow> (Inl e, f1) | (Inr found, f1) \<Rightarrow> (Inr (found \<noteq> None), f1))"

definition ApplicationDataExists :: "'f get_document \<Rightarrow> string \<Rightarrow> 'f \<Rightarrow> (gerror + bool \<times> bool) \<times> 'f" where
  "ApplicationDataExists get targetUID f =
     (case documentExists get [''users'', targetUID] f of
        (Inl e, f1) \<Rightarrow> (Inl (Wrapped e (''check users/'' @ targetUID)), f1)
      | (Inr usersDocExists, f1) \<Rightarrow>
          (case documentExists get [''user-public'', targetUID] f1 of
             (Inl e, f2) \<Rightarrow> (Inl (Wrapped e (''check user-public/'' @ targetUID)), f2)
           | (Inr publicDocExists, f2) \<Rightarrow> (Inr (usersDocExists, publicDocExists), f2)))"

text \<open>
  The writes of a transaction: an update of fields of a document, where the sentinel \<open>Delete\<close> removes the
  field, and the replacement of a document. As for the transactions of the event polls, \<open>buffer\<close> says which
  writes the client refuses.
\<close>

datatype tx_write = TxUpdate "string list" "(string \<times> go_any) list" | TxSet "string list" go_map

fun bufferTx :: "(tx_write \<Rightarrow> gerror option) \<Rightarrow> (tx_write \<times> string) list \<Rightarrow> gerror + tx_write list" where
  "bufferTx buffer [] = Inr []"
| "bufferTx buffer ((w, context) # ws) =
     (case buffer w of
        Some e \<Rightarrow> Inl (Wrapped e context)
      | None \<Rightarrow> (case bufferTx buffer ws of Inl e \<Rightarrow> Inl e | Inr ws' \<Rightarrow> Inr (w # ws')))"

definition outcomeUpdates :: "outcome_payload \<Rightarrow> (string \<times> go_any) list" where
  "outcomeUpdates payload =
     [(''status'', AString (oc_Outcome payload)), (''updatedAt'', ATime (oc_At payload)),
      (''usersDocExists'', ABool (oc_UsersDocExists payload)), (''userPublicDocExists'', ABool (oc_UserPublicDocExists payload)),
      (''lastError'', if oc_Error payload \<noteq> '''' then AString (oc_Error payload) else ASentinel ''Delete'')] @
     (if oc_Outcome payload = OutcomeAuthDeleted then [(''authDeletedAt'', ATime (oc_At payload))] else [])"

definition outcomeAudit :: "outcome_payload \<Rightarrow> go_map option \<Rightarrow> go_map" where
  "outcomeAudit payload dryRunEvidence =
     (let audit0 =
        [''requestId'' \<mapsto> AString (oc_RequestID payload), ''targetUid'' \<mapsto> AString (oc_TargetUID payload),
         ''requestedByUid'' \<mapsto> AString (oc_RequestedByUID payload), ''reason'' \<mapsto> AString (oc_Reason payload),
         ''outcome'' \<mapsto> AString (oc_Outcome payload), ''idempotent'' \<mapsto> ABool (oc_Idempotent payload),
         ''usersDocExists'' \<mapsto> ABool (oc_UsersDocExists payload),
         ''userPublicDocExists'' \<mapsto> ABool (oc_UserPublicDocExists payload), ''at'' \<mapsto> ATime (oc_At payload)];
          audit1 = (if oc_Error payload \<noteq> '''' then audit0(''error'' \<mapsto> AString (oc_Error payload)) else audit0)
      in case dryRunEvidence of None \<Rightarrow> audit1 | Some evidence \<Rightarrow> audit1(''dryRunEvidence'' \<mapsto> AMap evidence))"

text \<open>
  The function of the transaction of \<open>PersistOutcome\<close>. \<open>promoting\<close>: a dry run has validated the request and
  this is the outcome of the real evaluation; the audit entry of the dry run is kept inside the new one.
\<close>

definition promoting :: "outcome_payload \<Rightarrow> string \<Rightarrow> bool" where
  "promoting payload currentStatus \<longleftrightarrow>
     currentStatus = OutcomeDryRunValidated \<and> oc_RealDelete payload \<and> oc_Outcome payload \<noteq> OutcomeDryRunValidated"

definition persist_tx ::
  "(tx_write \<Rightarrow> gerror option) \<Rightarrow> outcome_payload \<Rightarrow> (string list \<Rightarrow> gerror + go_map option) \<Rightarrow> gerror + tx_write list" where
  "persist_tx buffer payload read =
     (let requestRef = [requestCollection, oc_RequestID payload];
          auditRef = [deleteAuditCollection, oc_RequestID payload];
          writes = (\<lambda>evidence.
            bufferTx buffer [(TxUpdate requestRef (outcomeUpdates payload), ''write admin-delete request outcome''),
                             (TxSet auditRef (outcomeAudit payload evidence), ''write admin-delete audit'')])
      in case read requestRef of
           Inl e \<Rightarrow> Inl (Wrapped e ''read request for admin-delete outcome'')
         | Inr None \<Rightarrow> Inr []
         | Inr (Some data) \<Rightarrow>
             (case asString (go_index (Some data) ''status'') of
                None \<Rightarrow> Inl (Err (''admin-delete request status must be a string: '' @ oc_RequestID payload))
              | Some currentStatus \<Rightarrow>
                  if promoting payload currentStatus
                  then (case read auditRef of
                          Inl e \<Rightarrow> Inl (Wrapped e ''read dry-run audit before promotion'')
                        | Inr None \<Rightarrow> Inl (Err ''read dry-run audit before promotion: not found'')
                        | Inr (Some evidence) \<Rightarrow> writes (Some evidence))
                  else if currentStatus = StatusPending then writes None
                  else Inr []))"

text \<open>\<open>runTx\<close> is \<open>RunTransaction\<close> of the client.\<close>

type_synonym 'f run_transaction =
  "((string list \<Rightarrow> gerror + go_map option) \<Rightarrow> gerror + tx_write list) \<Rightarrow> 'f \<Rightarrow> gerror option \<times> 'f"

definition PersistOutcome ::
  "(tx_write \<Rightarrow> gerror option) \<Rightarrow> 'f run_transaction \<Rightarrow> outcome_payload \<Rightarrow> 'f \<Rightarrow> gerror option \<times> 'f" where
  "PersistOutcome buffer runTx payload f =
     (case validateOutcome (oc_Outcome payload) of
        Some e \<Rightarrow> (Some e, f)
      | None \<Rightarrow> runTx (persist_tx buffer payload) f)"

section \<open>Errors of a deletion\<close>

datatype grpc_code = InvalidArgument | NotFound | PermissionDenied | FailedPrecondition | Unauthenticated | OtherCode

text \<open>
  What the libraries say about an error: \<open>IsUserNotFound\<close>, the HTTP status of a wrapped \<open>googleapi.Error\<close>,
  \<open>status.Code\<close>.
\<close>

record delete_errors =
  er_userNotFound :: "gerror \<Rightarrow> bool"
  er_apiCode :: "gerror \<Rightarrow> int option"
  er_status :: "gerror \<Rightarrow> grpc_code"

definition permanentDeleteError :: "delete_errors \<Rightarrow> gerror \<Rightarrow> bool" where
  "permanentDeleteError er e =
     (case er_apiCode er e of
        Some code \<Rightarrow> code \<ge> 400 \<and> code < 500 \<and> code \<noteq> 404 \<and> code \<noteq> 408 \<and> code \<noteq> 429
      | None \<Rightarrow> er_status er e \<in> {InvalidArgument, Unauthenticated, PermissionDenied, FailedPrecondition})"

definition isUserNotFound :: "delete_errors \<Rightarrow> gerror \<Rightarrow> bool" where
  "isUserNotFound er e \<longleftrightarrow> er_userNotFound er e \<or> er_apiCode er e = Some 404 \<or> er_status er e = NotFound"

section \<open>The evaluator\<close>

definition HandlerPersistOutcome :: handler_name where "HandlerPersistOutcome = ''admindelete.persist_outcome''"

definition adminRetryDelay :: go_duration where "adminRetryDelay = 5 * Second"

record 'f repository =
  rp_RequestStatus :: "string \<Rightarrow> 'f \<Rightarrow> (gerror + string option) \<times> 'f"
  rp_IsPaused :: "'f \<Rightarrow> (gerror + bool) \<times> 'f"
  rp_ApplicationDataExists :: "string \<Rightarrow> 'f \<Rightarrow> (gerror + bool \<times> bool) \<times> 'f"
  rp_PersistOutcome :: "outcome_payload \<Rightarrow> 'f \<Rightarrow> gerror option \<times> 'f"

definition FirestoreRepository ::
  "'f get_document \<Rightarrow> (tx_write \<Rightarrow> gerror option) \<Rightarrow> 'f run_transaction \<Rightarrow> 'f repository" where
  "FirestoreRepository get buffer runTx =
     \<lparr>rp_RequestStatus = RequestStatus get, rp_IsPaused = IsPaused get,
      rp_ApplicationDataExists = ApplicationDataExists get, rp_PersistOutcome = PersistOutcome buffer runTx\<rparr>"

type_synonym 'f delete_user = "string \<Rightarrow> 'f \<Rightarrow> gerror option \<times> 'f"

record 'f evaluator =
  va_enabled :: bool
  va_dryRun :: bool
  va_enableRealAuthDelete :: bool
  va_repository :: "'f repository"
  va_auth :: "'f delete_user option"

definition Evaluator_New ::
  "bool \<Rightarrow> bool \<Rightarrow> bool \<Rightarrow> 'f repository option \<Rightarrow> 'f delete_user option \<Rightarrow> gerror + 'f evaluator" where
  "Evaluator_New enabled dryRun realAuthDelete repository auth =
     (case repository of
        None \<Rightarrow> Inl (Err ''admin-delete repository is required'')
      | Some r \<Rightarrow>
          if enabled \<and> \<not> dryRun \<and> realAuthDelete \<and> auth = None
          then Inl (Err ''firebase auth delete client is required when real deletion is enabled'')
          else Inr \<lparr>va_enabled = enabled, va_dryRun = dryRun, va_enableRealAuthDelete = realAuthDelete,
                    va_repository = r, va_auth = auth\<rparr>)"

definition retryLater :: "gerror option \<Rightarrow> 'db result" where
  "retryLater err = RetrySequence (if err \<noteq> None then adminRetryDelay else 60 * Second) [] []"

definition persistCell :: "(outcome_payload \<Rightarrow> gerror + string) \<Rightarrow> outcome_payload \<Rightarrow> 'db result" where
  "persistCell marshal payload =
     (case NewCellDefinition marshal HandlerPersistOutcome payload of
        Inl e \<Rightarrow> ErrorResult ''build admin-delete persistence Cell'' (Some e)
      | Inr definition \<Rightarrow>
          (case definition of
             Inl e \<Rightarrow> ErrorResult ''encode admin-delete persistence Cell'' (Some e)
           | Inr request \<Rightarrow> Complete [request] []))"

definition realDelete :: "'f evaluator \<Rightarrow> bool" where
  "realDelete ev \<longleftrightarrow> \<not> va_dryRun ev \<and> va_enableRealAuthDelete ev"

text \<open>Whether a request of this status is looked at.\<close>

definition evaluatable :: "'f evaluator \<Rightarrow> string option \<Rightarrow> bool" where
  "evaluatable ev status \<longleftrightarrow>
     (\<exists>s \<in> set_option status. s = StatusPending \<or> realDelete ev \<and> s = OutcomeDryRunValidated)"

definition emptyOutcome :: "'f evaluator \<Rightarrow> go_time \<Rightarrow> delete_snapshot \<Rightarrow> outcome_payload" where
  "emptyOutcome ev now snapshot =
     \<lparr>oc_RequestID = ds_RequestID snapshot, oc_TargetUID = ds_TargetUID snapshot,
      oc_RequestedByUID = ds_RequestedByUID snapshot, oc_Reason = ds_Reason snapshot, oc_Outcome = '''', oc_Error = '''',
      oc_Idempotent = False, oc_RealDelete = realDelete ev, oc_UsersDocExists = False, oc_UserPublicDocExists = False,
      oc_At = now\<rparr>"

text \<open>
  The deletion itself. \<open>None\<close> stands for the panic of a call on a nil client; \<open>errText\<close> is \<open>err.Error()\<close>.
\<close>

definition deleteAccount ::
  "delete_errors \<Rightarrow> (gerror \<Rightarrow> string) \<Rightarrow> (outcome_payload \<Rightarrow> gerror + string) \<Rightarrow> 'f evaluator \<Rightarrow> outcome_payload \<Rightarrow> 'f \<Rightarrow>
     'db result option \<times> 'f" where
  "deleteAccount er errText marshal ev outcome f =
     (case va_auth ev of
        None \<Rightarrow> (None, f)
      | Some deleteUser \<Rightarrow>
          (case deleteUser (oc_TargetUID outcome) f of
             (Some e, f1) \<Rightarrow>
               (Some (if isUserNotFound er e
                      then persistCell marshal (outcome\<lparr>oc_Outcome := OutcomeAuthDeleted, oc_Idempotent := True\<rparr>)
                      else if permanentDeleteError er e
                      then persistCell marshal (outcome\<lparr>oc_Outcome := OutcomeAuthDeleteFailed, oc_Error := errText e\<rparr>)
                      else retryLater (Some e)), f1)
           | (None, f1) \<Rightarrow> (Some (persistCell marshal (outcome\<lparr>oc_Outcome := OutcomeAuthDeleted\<rparr>)), f1)))"

definition decideRequest ::
  "delete_errors \<Rightarrow> (gerror \<Rightarrow> string) \<Rightarrow> (outcome_payload \<Rightarrow> gerror + string) \<Rightarrow> 'f evaluator \<Rightarrow> go_time \<Rightarrow> delete_snapshot \<Rightarrow> 'f \<Rightarrow>
     'db result option \<times> 'f" where
  "decideRequest er errText marshal ev now snapshot f =
     (let outcome = emptyOutcome ev now snapshot in
      if ds_SchemaVersion snapshot \<noteq> 1 \<or> TrimSpace (ds_TargetUID snapshot) = ''''
      then (Some (persistCell marshal (outcome\<lparr>oc_Outcome := OutcomeInvalidRequest\<rparr>)), f)
      else case rp_ApplicationDataExists (va_repository ev) (ds_TargetUID snapshot) f of
        (Inl e, f1) \<Rightarrow> (Some (retryLater (Some e)), f1)
      | (Inr (usersDocExists, publicDocExists), f1) \<Rightarrow>
          (let outcome = outcome\<lparr>oc_UsersDocExists := usersDocExists, oc_UserPublicDocExists := publicDocExists\<rparr> in
           if usersDocExists \<or> publicDocExists
           then (Some (persistCell marshal (outcome\<lparr>oc_Outcome := OutcomeFailedPrecondition\<rparr>)), f1)
           else if va_dryRun ev then (Some (persistCell marshal (outcome\<lparr>oc_Outcome := OutcomeDryRunValidated\<rparr>)), f1)
           else if \<not> va_enableRealAuthDelete ev
           then (Some (persistCell marshal (outcome\<lparr>oc_Outcome := OutcomeDeleteBlocked\<rparr>)), f1)
           else deleteAccount er errText marshal ev outcome f1))"

definition Evaluator_Handle ::
  "delete_errors \<Rightarrow> (gerror \<Rightarrow> string) \<Rightarrow> (outcome_payload \<Rightarrow> gerror + string) \<Rightarrow> 'f evaluator \<Rightarrow> go_time \<Rightarrow> delete_requested \<Rightarrow> 'f \<Rightarrow>
     'db result option \<times> 'f" where
  "Evaluator_Handle er errText marshal ev now request f =
     (if \<not> va_enabled ev then (Some (retryLater None), f)
      else if DeleteRequested_Identity request = '''' then (Some (Complete [] []), f)
      else case rp_RequestStatus (va_repository ev) (ds_RequestID (dq_Request request)) f of
        (Inl e, f1) \<Rightarrow> (Some (retryLater (Some e)), f1)
      | (Inr status, f1) \<Rightarrow>
          if \<not> evaluatable ev status then (Some (Complete [] []), f1)
          else (case rp_IsPaused (va_repository ev) f1 of
                  (Inl e, f2) \<Rightarrow> (Some (retryLater (Some e)), f2)
                | (Inr paused, f2) \<Rightarrow>
                    if paused then (Some (RetrySequence (60 * Second) [] []), f2)
                    else decideRequest er errText marshal ev now (dq_Request request) f2))"

definition Persistence_Handle :: "'f repository option \<Rightarrow> outcome_payload \<Rightarrow> 'f \<Rightarrow> 'db result \<times> 'f" where
  "Persistence_Handle repository payload f =
     (case repository of
        None \<Rightarrow> (ErrorResult ''admin-delete repository is required'' None, f)
      | Some r \<Rightarrow>
          (case rp_PersistOutcome r payload f of
             (Some e, f1) \<Rightarrow> (retryLater (Some e), f1)
           | (None, f1) \<Rightarrow> (Complete [] [], f1)))"

section \<open>The listener\<close>

definition ListenerAdminDelete :: string where "ListenerAdminDelete = ''AdminDeleteRequested''"

definition isTerminalStatus :: "string \<Rightarrow> bool" where
  "isTerminalStatus status \<longleftrightarrow>
     status \<in> {OutcomeInvalidRequest, OutcomeFailedPrecondition, OutcomeDeleteBlocked, OutcomeDryRunValidated,
                OutcomeAuthDeleted, OutcomeAuthDeleteFailed}"

definition isEligible :: "bool \<Rightarrow> string \<Rightarrow> bool" where
  "isEligible realDel status \<longleftrightarrow> status = StatusPending \<or> realDel \<and> status = OutcomeDryRunValidated"

definition integerValue :: "go_any \<Rightarrow> int option" where
  "integerValue value = (case value of AInt i \<Rightarrow> Some i | AInt32 i \<Rightarrow> Some i | AInt64 i \<Rightarrow> Some i | _ \<Rightarrow> None)"

text \<open>The local function \<open>stringField\<close> of \<open>decodeTruth\<close>.\<close>

definition requestField :: "go_map \<Rightarrow> string \<Rightarrow> bool \<Rightarrow> gerror + string" where
  "requestField data name nullable =
     (case data name of
        None \<Rightarrow> Inl (Err (''request field is missing: '' @ name))
      | Some value \<Rightarrow>
          if value = ANil \<and> nullable then Inr ''''
          else (case asString value of
                  None \<Rightarrow> Inl (Err (''request field must be a string: '' @ name))
                | Some decoded \<Rightarrow> Inr decoded))"

definition decodeTruth :: "document \<Rightarrow> gerror + delete_requested" where
  "decodeTruth doc =
     (let data = doc_Data doc in
      if doc_ID doc = '''' then Inl (Err ''request document ID is required'')
      else case requestField data ''targetUid'' False of Inl e \<Rightarrow> Inl e | Inr targetUID \<Rightarrow>
      (case requestField data ''targetEmail'' True of Inl e \<Rightarrow> Inl e | Inr targetEmail \<Rightarrow>
      (case requestField data ''requestedByUid'' False of Inl e \<Rightarrow> Inl e | Inr requestedByUID \<Rightarrow>
      (case requestField data ''requestedByEmail'' True of Inl e \<Rightarrow> Inl e | Inr requestedByEmail \<Rightarrow>
      (case requestField data ''reason'' False of Inl e \<Rightarrow> Inl e | Inr reason \<Rightarrow>
      (case integerValue (go_index (Some data) ''schemaVersion'') of
         None \<Rightarrow> Inl (Err ''request field schemaVersion must be an integer'')
       | Some schemaVersion \<Rightarrow>
      (case go_index (Some data) ''createdAt'' of
         ATime createdAt \<Rightarrow>
           Inr \<lparr>dq_Request = \<lparr>ds_RequestID = doc_ID doc, ds_TargetUID = targetUID, ds_TargetEmail = targetEmail,
                 ds_RequestedByUID = requestedByUID, ds_RequestedByEmail = requestedByEmail, ds_Reason = reason,
                 ds_SchemaVersion = schemaVersion, ds_CreatedAt = createdAt\<rparr>\<rparr>
       | _ \<Rightarrow> Inl (Err ''request field createdAt must be a Firestore timestamp''))))))))"

text \<open>
  \<open>enqueue\<close> hands the truth to the idempotency sequence, under another listener name when accounts are really
  deleted: a request that a dry run has validated is observed again.
\<close>

definition deleteListenerName :: "bool \<Rightarrow> string" where
  "deleteListenerName realDel = (if realDel then ListenerAdminDelete @ ''.real_delete'' else ListenerAdminDelete)"

definition delete_enqueue ::
  "(delete_requested \<Rightarrow> gerror + string) \<Rightarrow> ('s, 'db) listener_config \<Rightarrow> bool \<Rightarrow> document \<Rightarrow> 's listener_state \<Rightarrow>
     gerror option \<times> 's listener_state" where
  "delete_enqueue marshal lg realDel doc st =
     (case decodeTruth doc of
        Inl e \<Rightarrow> (Some e, st)
      | Inr truth \<Rightarrow>
          (case NewEnvelope marshal AdminDeleteRequestedFanout truth of
             Inl e \<Rightarrow> (Some (Wrapped e ''marshal admin-delete Truth''), st)
           | Inr env \<Rightarrow>
               (let st1 = st\<lparr>ls_next := Suc (ls_next st)\<rparr> in
                case firebase_NewCellRequest (lg_step lg) (lg_uuid lg (ls_next st)) (deleteListenerName realDel)
                       (DeleteRequested_Identity truth) env of
                  Inl e \<Rightarrow> (Some (Wrapped e ''build admin-delete idempotency Cell''), st1)
                | Inr request \<Rightarrow>
                    (case ops_Add (lg_ops lg) (lg_now lg) [request] (ls_store st) of
                       (Inl e, s) \<Rightarrow> (Some (Wrapped e ''add admin-delete idempotency Cell''), st1\<lparr>ls_store := s\<rparr>)
                     | (Inr _, s) \<Rightarrow> (None, st1\<lparr>ls_store := s\<rparr>)))))"

definition eligibleDocument :: "bool \<Rightarrow> document \<Rightarrow> bool" where
  "eligibleDocument realDel doc =
     (case asString (go_index (Some (doc_Data doc)) ''status'') of None \<Rightarrow> False | Some s \<Rightarrow> isEligible realDel s)"

text \<open>
  A batch of watched documents. The environment \<open>f\<close> is what the kill switch is read from; the first failure
  ends the watch.
\<close>

fun delete_watchBatch ::
  "('f \<Rightarrow> (gerror + bool) \<times> 'f) \<Rightarrow> (document \<Rightarrow> 's \<Rightarrow> gerror option \<times> 's) \<Rightarrow> bool \<Rightarrow> document list \<Rightarrow> 'f \<times> 's \<Rightarrow>
     gerror option \<times> 'f \<times> 's" where
  "delete_watchBatch isPaused enqueue realDel [] (f, st) = (None, f, st)"
| "delete_watchBatch isPaused enqueue realDel (doc # docs) (f, st) =
     (if \<not> eligibleDocument realDel doc then delete_watchBatch isPaused enqueue realDel docs (f, st)
      else case isPaused f of
        (Inl e, f1) \<Rightarrow> (Some e, f1, st)
      | (Inr paused, f1) \<Rightarrow>
          if paused then delete_watchBatch isPaused enqueue realDel docs (f1, st)
          else (case enqueue doc st of
                  (Some e, st1) \<Rightarrow> (Some (Wrapped e (''enqueue admin-delete request '' @ doc_ID doc)), f1, st1)
                | (None, st1) \<Rightarrow> delete_watchBatch isPaused enqueue realDel docs (f1, st1)))"

fun enqueueEligible ::
  "(document \<Rightarrow> 's \<Rightarrow> gerror option \<times> 's) \<Rightarrow> bool \<Rightarrow> document list \<Rightarrow> 's \<Rightarrow> (gerror + string list) \<times> 's" where
  "enqueueEligible enqueue realDel [] st = (Inr [], st)"
| "enqueueEligible enqueue realDel (doc # docs) st =
     (if \<not> eligibleDocument realDel doc then enqueueEligible enqueue realDel docs st
      else case enqueue doc st of
        (Some e, st1) \<Rightarrow> (Inl (Wrapped e (''enqueue admin-delete request '' @ doc_ID doc)), st1)
      | (None, st1) \<Rightarrow>
          (case enqueueEligible enqueue realDel docs st1 of
             (Inl e, st2) \<Rightarrow> (Inl e, st2)
           | (Inr ids, st2) \<Rightarrow> (Inr (doc_ID doc # ids), st2)))"

definition delete_RunOnce ::
  "('f \<Rightarrow> (gerror + bool) \<times> 'f) \<Rightarrow> (bool \<Rightarrow> 'f \<Rightarrow> (gerror + document list) \<times> 'f) \<Rightarrow>
     (document \<Rightarrow> 's \<Rightarrow> gerror option \<times> 's) \<Rightarrow> bool \<Rightarrow> bool \<Rightarrow> 'f \<times> 's \<Rightarrow> (gerror + string list) \<times> 'f \<times> 's" where
  "delete_RunOnce isPaused listEligible enqueue enabled realDel fs =
     (case fs of (f, st) \<Rightarrow>
        if \<not> enabled then (Inl ErrDisabled, f, st)
        else (case isPaused f of
                (Inl e, f1) \<Rightarrow> (Inl e, f1, st)
              | (Inr paused, f1) \<Rightarrow>
                  if paused then (Inr [], f1, st)
                  else (case listEligible realDel f1 of
                          (Inl e, f2) \<Rightarrow> (Inl e, f2, st)
                        | (Inr docs, f2) \<Rightarrow>
                            (case enqueueEligible enqueue realDel docs st of (r, st1) \<Rightarrow> (r, f2, st1)))))"

text \<open>
  \<open>watchPause\<close>: the events of one stream on the kill switch, \<open>None\<close> for a snapshot. The requests are
  enqueued at the first snapshot that is not paused and at each one that follows a pause.
\<close>

fun pauseEvents ::
  "('f \<Rightarrow> (gerror + bool) \<times> 'f) \<Rightarrow> ('f \<times> 's \<Rightarrow> (gerror + string list) \<times> 'f \<times> 's) \<Rightarrow> gerror option list \<Rightarrow> bool \<Rightarrow> bool \<Rightarrow> 'f \<times> 's \<Rightarrow>
     gerror option \<times> 'f \<times> 's" where
  "pauseEvents isPaused runOnce [] known lastPaused fs = (None, fs)"
| "pauseEvents isPaused runOnce (Some e # evs) known lastPaused fs = (Some e, fs)"
| "pauseEvents isPaused runOnce (None # evs) known lastPaused fs =
     (case fs of (f, st) \<Rightarrow>
        case isPaused f of
          (Inl e, f1) \<Rightarrow> (Some e, f1, st)
        | (Inr paused, f1) \<Rightarrow>
            if \<not> paused \<and> (\<not> known \<or> lastPaused)
            then (case runOnce (f1, st) of
                    (Inl e, fs1) \<Rightarrow>
                      if errors_Is e ErrDisabled then pauseEvents isPaused runOnce evs True paused fs1 else (Some e, fs1)
                  | (Inr _, fs1) \<Rightarrow> pauseEvents isPaused runOnce evs True paused fs1)
            else pauseEvents isPaused runOnce evs True paused (f1, st))"

text \<open>
  \<open>WaitForTerminal\<close>: \<open>tick\<close> waits for the ticker or for the end of the context, which it returns as an error.
  The loop on one request may go on for ever, which is \<open>None\<close>.
\<close>

partial_function (option) waitRequest ::
  "(string \<Rightarrow> 'f \<Rightarrow> (gerror + string) \<times> 'f) \<Rightarrow> ('f \<Rightarrow> gerror option \<times> 'f) \<Rightarrow> bool \<Rightarrow> string \<Rightarrow> 'f \<Rightarrow> (gerror option \<times> 'f) option" where
  "waitRequest requestStatus tick realDel requestID f =
     (case requestStatus requestID f of
        (Inl e, f1) \<Rightarrow> Some (Some e, f1)
      | (Inr status, f1) \<Rightarrow>
          if isTerminalStatus status \<and> \<not> isEligible realDel status then Some (None, f1)
          else if \<not> isEligible realDel status
          then Some (Some (Err (''admin-delete request has unknown status: '' @ requestID)), f1)
          else (case tick f1 of
                  (Some e, f2) \<Rightarrow> Some (Some (Wrapped e (''wait for admin-delete request '' @ requestID)), f2)
                | (None, f2) \<Rightarrow> waitRequest requestStatus tick realDel requestID f2))"

fun WaitForTerminal ::
  "(string \<Rightarrow> 'f \<Rightarrow> (gerror + string) \<times> 'f) \<Rightarrow> ('f \<Rightarrow> gerror option \<times> 'f) \<Rightarrow> bool \<Rightarrow> string list \<Rightarrow> 'f \<Rightarrow> (gerror option \<times> 'f) option" where
  "WaitForTerminal requestStatus tick realDel [] f = Some (None, f)"
| "WaitForTerminal requestStatus tick realDel (i # is) f =
     (case waitRequest requestStatus tick realDel i f of
        None \<Rightarrow> None
      | Some (Some e, f1) \<Rightarrow> Some (Some e, f1)
      | Some (None, f1) \<Rightarrow> WaitForTerminal requestStatus tick realDel is f1)"

text \<open>\<open>FirestoreSource\<close>: the status that the waiting loop reads; a missing document is an error of the client.\<close>

definition source_RequestStatus :: "'f get_document \<Rightarrow> string \<Rightarrow> 'f \<Rightarrow> (gerror + string) \<times> 'f" where
  "source_RequestStatus get requestID f =
     (case get [requestCollection, requestID] f of
        (Inl e, f1) \<Rightarrow> (Inl (Wrapped e (''read admin-delete request '' @ requestID)), f1)
      | (Inr None, f1) \<Rightarrow> (Inl (Err (''read admin-delete request '' @ requestID)), f1)
      | (Inr (Some data), f1) \<Rightarrow> (documentStatus requestID data, f1))"

text \<open>The statuses \<open>ListEligible\<close> asks for.\<close>

definition listedStatuses :: "bool \<Rightarrow> string list" where
  "listedStatuses realDel = [StatusPending] @ (if realDel then [OutcomeDryRunValidated] else [])"

section \<open>What is documented of Firestore\<close>

text \<open>
  \<open>docs\<close> reads the documents off the environment. A read leaves them alone and returns the document; a
  transaction is serialisable and commits all its writes or none, and may report an error although it
  committed.
\<close>

type_synonym documents = "string list \<rightharpoonup> go_map"

definition apply_field :: "string \<times> go_any \<Rightarrow> go_map \<Rightarrow> go_map" where
  "apply_field u m = (case u of (k, v) \<Rightarrow> (case v of ASentinel _ \<Rightarrow> m(k := None) | _ \<Rightarrow> m(k \<mapsto> v)))"

fun apply_tx :: "tx_write \<Rightarrow> documents \<Rightarrow> documents" where
  "apply_tx (TxUpdate p us) ds = ds(p := map_option (fold apply_field us) (ds p))"
| "apply_tx (TxSet p m) ds = ds(p \<mapsto> m)"

definition reads_ok :: "('f \<Rightarrow> documents) \<Rightarrow> 'f get_document \<Rightarrow> bool" where
  "reads_ok docs get \<longleftrightarrow>
     (\<forall>p f r f'. get p f = (r, f') \<longrightarrow> docs f' = docs f \<and> (\<forall>d. r = Inr d \<longrightarrow> d = docs f p))"

definition transactions_ok :: "('f \<Rightarrow> documents) \<Rightarrow> 'f run_transaction \<Rightarrow> bool" where
  "transactions_ok docs runTx \<longleftrightarrow>
     (\<forall>body f err f'. runTx body f = (err, f') \<longrightarrow>
        err \<noteq> None \<and> docs f' = docs f \<or>
        (\<exists>ws. body (\<lambda>p. Inr (docs f p)) = Inr ws \<and> docs f' = fold apply_tx ws (docs f)))"

section \<open>Recorded outcomes\<close>

definition request_status :: "documents \<Rightarrow> string \<Rightarrow> string option" where
  "request_status ds i =
     (case ds [requestCollection, i] of None \<Rightarrow> None | Some data \<Rightarrow> asString (go_index (Some data) ''status''))"

definition audit_entry_of :: "documents \<Rightarrow> string \<Rightarrow> go_map option" where
  "audit_entry_of ds i = ds [deleteAuditCollection, i]"

text \<open>
  How the documents of a request may change: not at all, or from pending, or from validated by a dry run, to
  an outcome that the audit entry names, with the audit entry of the dry run kept inside.
\<close>

definition request_step :: "string \<Rightarrow> documents \<Rightarrow> documents \<Rightarrow> bool" where
  "request_step i ds ds' \<longleftrightarrow>
     ds' [requestCollection, i] = ds [requestCollection, i] \<and> audit_entry_of ds' i = audit_entry_of ds i \<or>
     (\<exists>s s' audit. request_status ds i = Some s \<and> request_status ds' i = Some s' \<and> isTerminalStatus s' \<and>
        audit_entry_of ds' i = Some audit \<and> audit ''outcome'' = Some (AString s') \<and>
        (s = StatusPending \<or>
         s = OutcomeDryRunValidated \<and> s' \<noteq> OutcomeDryRunValidated \<and>
         (\<exists>evidence. audit_entry_of ds i = Some evidence \<and> audit ''dryRunEvidence'' = Some (AMap evidence))))"

lemma outcomes_distinct [simp]:
  "StatusPending \<noteq> OutcomeDryRunValidated" "OutcomeDryRunValidated \<noteq> StatusPending" "\<not> isTerminalStatus StatusPending"
  by (simp_all add: outcome_defs isTerminalStatus_def)

lemma delete_collections [simp]:
  "requestCollection \<noteq> deleteAuditCollection" "deleteAuditCollection \<noteq> requestCollection"
  by (simp_all add: requestCollection_def deleteAuditCollection_def)

lemma valid_outcome_terminal: "validateOutcome s = None \<longleftrightarrow> isTerminalStatus s"
  by (simp add: validateOutcome_def isTerminalStatus_def)

lemma updated_status:
  "fold apply_field (outcomeUpdates payload) data ''status'' = Some (AString (oc_Outcome payload))"
  by (simp add: outcomeUpdates_def apply_field_def)

lemma audit_outcome: "outcomeAudit payload evidence ''outcome'' = Some (AString (oc_Outcome payload))"
  by (simp add: outcomeAudit_def Let_def split: option.split)

lemma audit_evidence: "outcomeAudit payload (Some evidence) ''dryRunEvidence'' = Some (AMap evidence)"
  by (simp add: outcomeAudit_def Let_def)

lemma persist_tx_writes:
  assumes "persist_tx buffer payload (\<lambda>p. Inr (ds p)) = Inr ws" "ws \<noteq> []"
  obtains data s evidence where "ds [requestCollection, oc_RequestID payload] = Some data"
    "asString (go_index (Some data) ''status'') = Some s"
    "s = StatusPending \<or> promoting payload s \<and> audit_entry_of ds (oc_RequestID payload) = evidence \<and> evidence \<noteq> None"
    "ws = [TxUpdate [requestCollection, oc_RequestID payload] (outcomeUpdates payload),
           TxSet [deleteAuditCollection, oc_RequestID payload] (outcomeAudit payload evidence)]"
proof -
  from assms obtain data where d: "ds [requestCollection, oc_RequestID payload] = Some data"
    by (auto simp: persist_tx_def Let_def split: option.splits)
  with assms obtain s where s: "asString (go_index (Some data) ''status'') = Some s"
    by (auto simp: persist_tx_def Let_def split: option.splits)
  show thesis
  proof (cases "promoting payload s")
    case True
    with assms d s obtain evidence where a: "audit_entry_of ds (oc_RequestID payload) = Some evidence"
      by (auto simp: persist_tx_def Let_def audit_entry_of_def split: option.splits)
    with assms d s True show thesis
      by (intro that [OF d s, of "Some evidence"]) (auto simp: persist_tx_def Let_def audit_entry_of_def split: option.splits sum.splits)
  next
    case False
    with assms d s show thesis
      by (intro that [OF d s, of None]) (auto simp: persist_tx_def Let_def split: if_splits option.splits sum.splits)
  qed
qed

lemma persist_tx_step:
  assumes "persist_tx buffer payload (\<lambda>p. Inr (ds p)) = Inr ws" "isTerminalStatus (oc_Outcome payload)"
  shows "request_step i ds (fold apply_tx ws ds)"
proof (cases "ws = [] \<or> i \<noteq> oc_RequestID payload")
  case True
  with assms(1) show ?thesis
    by (auto elim!: persist_tx_writes [of buffer payload ds ws] simp: request_step_def audit_entry_of_def)
next
  case False
  then obtain data s evidence where d: "ds [requestCollection, i] = Some data" and s: "asString (go_index (Some data) ''status'') = Some s"
    and c: "s = StatusPending \<or> promoting payload s \<and> audit_entry_of ds i = evidence \<and> evidence \<noteq> None"
    and ws: "ws = [TxUpdate [requestCollection, i] (outcomeUpdates payload), TxSet [deleteAuditCollection, i] (outcomeAudit payload evidence)]"
    using persist_tx_writes [OF assms(1)] by metis
  let ?ds = "fold apply_tx ws ds"
  have before: "request_status ds i = Some s" by (simp add: request_status_def d s)
  have after: "request_status ?ds i = Some (oc_Outcome payload)"
    by (simp add: ws request_status_def d updated_status go_index_def asString_def)
  have audit: "audit_entry_of ?ds i = Some (outcomeAudit payload evidence)" by (simp add: ws audit_entry_of_def)
  have "s = StatusPending \<or> s = OutcomeDryRunValidated \<and> oc_Outcome payload \<noteq> OutcomeDryRunValidated \<and>
      (\<exists>e. audit_entry_of ds i = Some e \<and> outcomeAudit payload evidence ''dryRunEvidence'' = Some (AMap e))"
    using c by (auto simp: promoting_def audit_evidence)
  with before after audit audit_outcome assms(2) show ?thesis unfolding request_step_def by blast
qed

lemma request_step_refl: "request_step i ds ds"
  by (simp add: request_step_def)

lemma PersistOutcome_step:
  assumes "transactions_ok docs runTx" "PersistOutcome buffer runTx payload f = (err, f')"
  shows "request_step i (docs f) (docs f')"
proof (cases "validateOutcome (oc_Outcome payload)")
  case None
  with assms(2) have "runTx (persist_tx buffer payload) f = (err, f')" by (simp add: PersistOutcome_def)
  with assms(1) have "docs f' = docs f \<or>
      (\<exists>ws. persist_tx buffer payload (\<lambda>p. Inr (docs f p)) = Inr ws \<and> docs f' = fold apply_tx ws (docs f))"
    unfolding transactions_ok_def by blast
  moreover have "isTerminalStatus (oc_Outcome payload)" using None by (simp add: valid_outcome_terminal)
  ultimately show ?thesis using persist_tx_step request_step_refl by metis
next
  case (Some e)
  with assms(2) show ?thesis by (simp add: PersistOutcome_def request_step_def)
qed

lemma request_step_same:
  assumes "ds' [requestCollection, i] = ds [requestCollection, i]" "audit_entry_of ds' i = audit_entry_of ds i"
  shows "request_step i ds es \<longleftrightarrow> request_step i ds' es" "request_step i es ds \<longleftrightarrow> request_step i es ds'"
  using assms by (simp_all add: request_step_def request_status_def)

lemma request_step_trans:
  assumes "request_step i a b" "request_step i b c"
  shows "request_step i a c"
proof (cases "b [requestCollection, i] = a [requestCollection, i] \<and> audit_entry_of b i = audit_entry_of a i")
  case True
  with assms(2) show ?thesis using request_step_same(1) by metis
next
  case first: False
  show ?thesis
  proof (cases "c [requestCollection, i] = b [requestCollection, i] \<and> audit_entry_of c i = audit_entry_of b i")
    case True
    with assms(1) show ?thesis using request_step_same(2) by metis
  next
    case False
    from first assms(1) obtain s t where "request_status a i = Some s" "request_status b i = Some t" "isTerminalStatus t"
      and st: "s = StatusPending \<or> s = OutcomeDryRunValidated \<and> t \<noteq> OutcomeDryRunValidated"
      unfolding request_step_def by blast
    moreover from False assms(2) calculation obtain u audit where "request_status c i = Some u" "isTerminalStatus u"
      "audit_entry_of c i = Some audit" "audit ''outcome'' = Some (AString u)" "t = StatusPending \<or> t = OutcomeDryRunValidated"
      unfolding request_step_def by auto
    moreover have "t \<noteq> StatusPending" using \<open>isTerminalStatus t\<close> by auto
    ultimately show ?thesis unfolding request_step_def by auto
  qed
qed

text \<open>The persistence of a sequence of outcomes, whatever each call reports.\<close>

definition persist_all ::
  "(tx_write \<Rightarrow> gerror option) \<Rightarrow> 'f run_transaction \<Rightarrow> outcome_payload list \<Rightarrow> 'f \<Rightarrow> 'f" where
  "persist_all buffer runTx payloads f = fold (\<lambda>payload f. snd (PersistOutcome buffer runTx payload f)) payloads f"

lemma persist_all_step:
  assumes "transactions_ok docs runTx"
  shows "request_step i (docs f) (docs (persist_all buffer runTx payloads f))"
proof (induction payloads arbitrary: f)
  case (Cons payload payloads)
  have "request_step i (docs f) (docs (snd (PersistOutcome buffer runTx payload f)))"
    by (rule PersistOutcome_step [OF assms prod.collapse [symmetric]])
  then show ?case using Cons.IH request_step_trans by (fastforce simp: persist_all_def)
qed (simp add: persist_all_def request_step_refl)

text \<open>
  C35: whatever outcomes are persisted, in any order and repeatedly, with any failures of the client (lost
  replies included), the documents of a request change only from pending, or from validated by a dry run, to
  an outcome; the audit entry then names that outcome, and an entry of a dry run is kept inside the entry
  that replaces it. A request with another outcome keeps its documents.
\<close>

theorem admin_delete_audited:
  assumes "transactions_ok docs runTx"
  shows "request_step i (docs f) (docs (persist_all buffer runTx payloads f)) \<and>
    (\<forall>s. request_status (docs f) i = Some s \<longrightarrow> s \<noteq> StatusPending \<longrightarrow> s \<noteq> OutcomeDryRunValidated \<longrightarrow>
       docs (persist_all buffer runTx payloads f) [requestCollection, i] = docs f [requestCollection, i] \<and>
       audit_entry_of (docs (persist_all buffer runTx payloads f)) i = audit_entry_of (docs f) i)"
  using persist_all_step [OF assms, of i f buffer payloads] by (auto simp: request_step_def)

section \<open>An example\<close>

text \<open>A client that always succeeds, on the documents themselves.\<close>

definition demo_runTx :: "documents run_transaction" where
  "demo_runTx body ds =
     (case body (\<lambda>p. Inr (ds p)) of Inl e \<Rightarrow> (Some e, ds) | Inr ws \<Rightarrow> (None, fold apply_tx ws ds))"

definition demo_doc_get :: "documents get_document" where
  "demo_doc_get p ds = (Inr (ds p), ds)"

lemma demo_client_ok: "transactions_ok (\<lambda>ds. ds) demo_runTx" "reads_ok (\<lambda>ds. ds) demo_doc_get"
  by (auto simp: transactions_ok_def demo_runTx_def reads_ok_def demo_doc_get_def split: sum.splits)

definition demo_requests :: documents where
  "demo_requests = [[requestCollection, ''r1''] \<mapsto> [''status'' \<mapsto> AString OutcomeAuthDeleted]]"

definition demo_outcome :: outcome_payload where
  "demo_outcome = \<lparr>oc_RequestID = ''r1'', oc_TargetUID = ''u1'', oc_RequestedByUID = ''admin'', oc_Reason = ''left'',
     oc_Outcome = OutcomeFailedPrecondition, oc_Error = [], oc_Idempotent = False, oc_RealDelete = True,
     oc_UsersDocExists = True, oc_UserPublicDocExists = False, oc_At = 0\<rparr>"

theorem admin_delete_audited_witness:
  "request_status demo_requests ''r1'' = Some OutcomeAuthDeleted \<and>
   request_step ''r1'' demo_requests (persist_all (\<lambda>_. None) demo_runTx [demo_outcome] demo_requests) \<and>
   persist_all (\<lambda>_. None) demo_runTx [demo_outcome] demo_requests [requestCollection, ''r1''] = Some [''status'' \<mapsto> AString OutcomeAuthDeleted]"
proof -
  have s: "request_status demo_requests ''r1'' = Some OutcomeAuthDeleted"
    by (simp add: demo_requests_def request_status_def go_index_def asString_def)
  have "OutcomeAuthDeleted \<noteq> StatusPending" "OutcomeAuthDeleted \<noteq> OutcomeDryRunValidated" by (simp_all add: outcome_defs)
  with s admin_delete_audited [OF demo_client_ok(1), of "''r1''" demo_requests "\<lambda>_. None" "[demo_outcome]"]
  show ?thesis by (auto simp: demo_requests_def)
qed

section \<open>When an account is deleted\<close>

text \<open>The condition under which the evaluator deletes an account, on the documents as they are.\<close>

definition may_delete :: "'f evaluator \<Rightarrow> documents \<Rightarrow> delete_snapshot \<Rightarrow> bool" where
  "may_delete ev ds q \<longleftrightarrow>
     va_enabled ev \<and> \<not> va_dryRun ev \<and> va_enableRealAuthDelete ev \<and>
     (request_status ds (ds_RequestID q) = Some StatusPending \<or> request_status ds (ds_RequestID q) = Some OutcomeDryRunValidated) \<and>
     (case ds killSwitchPath of None \<Rightarrow> True | Some m \<Rightarrow> pausedOf m = Inr False) \<and>
     ds_SchemaVersion q = 1 \<and> TrimSpace (ds_TargetUID q) \<noteq> '''' \<and>
     ds [''users'', ds_TargetUID q] = None \<and> ds [''user-public'', ds_TargetUID q] = None"

text \<open>Reads change neither the documents nor what \<open>deleted\<close> observes.\<close>

definition quiet_reads :: "('f \<Rightarrow> documents) \<Rightarrow> ('f \<Rightarrow> string list) \<Rightarrow> 'f get_document \<Rightarrow> bool" where
  "quiet_reads docs deleted get \<longleftrightarrow> reads_ok docs get \<and> (\<forall>p f. deleted (snd (get p f)) = deleted f)"

lemma quiet_readsD:
  assumes "quiet_reads docs deleted get" "get p f = (r, f')"
  shows "docs f' = docs f" "deleted f' = deleted f" "r = Inr d \<Longrightarrow> d = docs f p"
proof -
  show "docs f' = docs f" "r = Inr d \<Longrightarrow> d = docs f p"
    using assms by (auto simp: quiet_reads_def reads_ok_def)
  show "deleted f' = deleted f" using assms by (metis quiet_reads_def snd_conv)
qed

lemma RequestStatus_reads:
  assumes "quiet_reads docs deleted get" "RequestStatus get i f = (r, f')"
  shows "docs f' = docs f" "deleted f' = deleted f" "r = Inr (Some s) \<Longrightarrow> request_status (docs f) i = Some s"
proof -
  obtain x where g: "get [requestCollection, i] f = (x, f')" using assms(2)
    by (auto simp: RequestStatus_def split: prod.splits sum.splits option.splits)
  note q = quiet_readsD [OF assms(1) g]
  show "docs f' = docs f" "deleted f' = deleted f" by (rule q)+
  assume "r = Inr (Some s)"
  with assms(2) g obtain data where "x = Inr (Some data)" "documentStatus i data = Inr s"
    by (cases "documentStatus i (the (projr x))") (auto simp: RequestStatus_def split: sum.splits option.splits)
  moreover from this q(3) have "docs f [requestCollection, i] = Some data" by simp
  ultimately show "request_status (docs f) i = Some s"
    by (auto simp: request_status_def documentStatus_def go_index_def split: option.splits)
qed

lemma IsPaused_reads:
  assumes "quiet_reads docs deleted get" "IsPaused get f = (r, f')"
  shows "docs f' = docs f" "deleted f' = deleted f"
    "r = Inr False \<Longrightarrow> case docs f killSwitchPath of None \<Rightarrow> True | Some m \<Rightarrow> pausedOf m = Inr False"
proof -
  obtain x where g: "get killSwitchPath f = (x, f')" using assms(2)
    by (auto simp: IsPaused_def split: prod.splits sum.splits option.splits)
  note q = quiet_readsD [OF assms(1) g]
  show "docs f' = docs f" "deleted f' = deleted f" by (rule q)+
  show "r = Inr False \<Longrightarrow> case docs f killSwitchPath of None \<Rightarrow> True | Some m \<Rightarrow> pausedOf m = Inr False"
    using assms(2) g q(3) by (auto simp: IsPaused_def split: sum.splits option.splits)
qed

lemma documentExists_reads:
  assumes "quiet_reads docs deleted get" "documentExists get p f = (r, f')"
  shows "docs f' = docs f" "deleted f' = deleted f" "r = Inr b \<Longrightarrow> b \<longleftrightarrow> docs f p \<noteq> None"
proof -
  obtain x where g: "get p f = (x, f')" using assms(2) by (auto simp: documentExists_def split: prod.splits sum.splits)
  note q = quiet_readsD [OF assms(1) g]
  show "docs f' = docs f" "deleted f' = deleted f" by (rule q)+
  show "r = Inr b \<Longrightarrow> b \<longleftrightarrow> docs f p \<noteq> None" using assms(2) g q(3) by (auto simp: documentExists_def split: sum.splits)
qed

lemma ApplicationDataExists_reads:
  assumes "quiet_reads docs deleted get" "ApplicationDataExists get u f = (r, f')"
  shows "docs f' = docs f" "deleted f' = deleted f"
    "r = Inr (False, False) \<Longrightarrow> docs f [''users'', u] = None \<and> docs f [''user-public'', u] = None"
proof -
  obtain x f1 where x: "documentExists get [''users'', u] f = (x, f1)" by fastforce
  note q = documentExists_reads [OF assms(1) x]
  obtain y f2 where y: "documentExists get [''user-public'', u] f1 = (y, f2)" by fastforce
  note q' = documentExists_reads [OF assms(1) y]
  show "docs f' = docs f" "deleted f' = deleted f"
    using assms(2) x y q(1,2) q'(1,2) by (auto simp: ApplicationDataExists_def split: sum.splits)
  assume "r = Inr (False, False)"
  with assms(2) x y have "x = Inr False" "y = Inr False" by (auto simp: ApplicationDataExists_def split: sum.splits)
  with q(1,3) q'(3) show "docs f [''users'', u] = None \<and> docs f [''user-public'', u] = None" by auto
qed

lemma decideRequest_deletes:
  assumes reads: "quiet_reads docs deleted get"
    and logged: "\<And>u f. deleted (snd (deleteUser u f)) = deleted f @ [u]"
    and ev: "va_repository ev = FirestoreRepository get buffer runTx" "va_auth ev = Some deleteUser"
    and run: "decideRequest er errText marshal ev now q f = (r, f')"
  shows "deleted f' = deleted f \<or>
    deleted f' = deleted f @ [ds_TargetUID q] \<and> realDelete ev \<and> ds_SchemaVersion q = 1 \<and> TrimSpace (ds_TargetUID q) \<noteq> '''' \<and>
    docs f [''users'', ds_TargetUID q] = None \<and> docs f [''user-public'', ds_TargetUID q] = None"
proof (cases "ds_SchemaVersion q \<noteq> 1 \<or> TrimSpace (ds_TargetUID q) = ''''")
  case True
  with run show ?thesis by (auto simp: decideRequest_def Let_def)
next
  case False
  obtain x f1 where x: "ApplicationDataExists get (ds_TargetUID q) f = (x, f1)" by fastforce
  note a = ApplicationDataExists_reads [OF reads x]
  show ?thesis
  proof (cases "x = Inr (False, False) \<and> realDelete ev")
    case True
    define outcome where "outcome = (emptyOutcome ev now q)\<lparr>oc_UsersDocExists := False, oc_UserPublicDocExists := False\<rparr>"
    have t: "oc_TargetUID outcome = ds_TargetUID q" by (simp add: outcome_def emptyOutcome_def)
    have "deleteAccount er errText marshal ev outcome f1 = (r, f')"
      using run x False True by (simp add: decideRequest_def ev FirestoreRepository_def realDelete_def outcome_def)
    then have "f' = snd (deleteUser (ds_TargetUID q) f1)"
      by (auto simp: deleteAccount_def ev(2) t split: prod.splits option.splits)
    with a True False logged show ?thesis by auto
  next
    case no: False
    with run x False have "f' = f1"
      by (cases x) (auto simp: decideRequest_def Let_def ev FirestoreRepository_def realDelete_def split: if_splits)
    with a(2) show ?thesis by simp
  qed
qed

text \<open>
  C34: the evaluator asks for the deletion of at most one account, the target of the request, and only when
  the service is enabled, is not in a dry run and real deletion is allowed, the request is pending or
  validated by a dry run, the kill switch is not set, the request is of schema version 1 with a target, and
  neither application document of the target exists. An evaluator that \<open>New\<close> returns never calls a missing
  client.
\<close>

theorem account_deletion_guarded:
  assumes reads: "quiet_reads docs deleted get"
    and logged: "\<And>u f. deleted (snd (deleteUser u f)) = deleted f @ [u]"
    and new: "Evaluator_New enabled dryRun realAuthDelete (Some (FirestoreRepository get buffer runTx)) (Some deleteUser) = Inr ev"
    and run: "Evaluator_Handle er errText marshal ev now request f = (r, f')"
  shows "r \<noteq> None \<and>
    (deleted f' = deleted f \<or>
     deleted f' = deleted f @ [ds_TargetUID (dq_Request request)] \<and> may_delete ev (docs f) (dq_Request request))"
proof -
  have ev: "va_repository ev = FirestoreRepository get buffer runTx" "va_auth ev = Some deleteUser"
    using new by (auto simp: Evaluator_New_def)
  have "r \<noteq> None"
    using run by (auto simp: Evaluator_Handle_def decideRequest_def deleteAccount_def ev Let_def
        split: if_splits prod.splits sum.splits option.splits)
  moreover have "deleted f' = deleted f \<or>
     deleted f' = deleted f @ [ds_TargetUID (dq_Request request)] \<and> may_delete ev (docs f) (dq_Request request)"
  proof (cases "va_enabled ev \<and> DeleteRequested_Identity request \<noteq> ''''")
    case True
    obtain x f1 where x: "RequestStatus get (ds_RequestID (dq_Request request)) f = (x, f1)" by fastforce
    note s = RequestStatus_reads [OF reads x]
    obtain y f2 where y: "IsPaused get f1 = (y, f2)" by fastforce
    note p = IsPaused_reads [OF reads y]
    consider (go) st where "x = Inr st" "evaluatable ev st" "y = Inr False" | (stop) "f' = f1 \<or> f' = f2"
      using run x y True by (cases x; cases y) (auto simp: Evaluator_Handle_def ev FirestoreRepository_def split: if_splits)
    then show ?thesis
    proof cases
      case go
      have "decideRequest er errText marshal ev now (dq_Request request) f2 = (r, f')"
        using run x y go True by (simp add: Evaluator_Handle_def ev FirestoreRepository_def)
      note d = decideRequest_deletes [OF reads logged ev this]
      from go obtain t where "st = Some t" "t = StatusPending \<or> t = OutcomeDryRunValidated" by (auto simp: evaluatable_def)
      with go s p d True show ?thesis by (auto simp: may_delete_def realDelete_def)
    next
      case stop
      with s(2) p(2) show ?thesis by auto
    qed
  next
    case False
    with run show ?thesis by (auto simp: Evaluator_Handle_def split: if_splits)
  qed
  ultimately show ?thesis ..
qed

definition demo_pending_requests :: documents where
  "demo_pending_requests = [[requestCollection, ''r1''] \<mapsto> [''status'' \<mapsto> AString StatusPending]]"

definition demo_world_get :: "(documents \<times> string list) get_document" where
  "demo_world_get p w = (Inr (fst w p), w)"

definition demo_delete :: "(documents \<times> string list) delete_user" where
  "demo_delete u w = (None, (fst w, snd w @ [u]))"

definition demo_evaluator :: "(documents \<times> string list) evaluator" where
  "demo_evaluator = \<lparr>va_enabled = True, va_dryRun = False, va_enableRealAuthDelete = True,
     va_repository = FirestoreRepository demo_world_get (\<lambda>_. None) (\<lambda>_ w. (None, w)), va_auth = Some demo_delete\<rparr>"

definition demo_delete_request :: delete_requested where
  "demo_delete_request = \<lparr>dq_Request = \<lparr>ds_RequestID = ''r1'', ds_TargetUID = ''u1'', ds_TargetEmail = [],
     ds_RequestedByUID = ''admin'', ds_RequestedByEmail = [], ds_Reason = ''left'', ds_SchemaVersion = 1, ds_CreatedAt = 0\<rparr>\<rparr>"

definition demo_delete_errors :: delete_errors where
  "demo_delete_errors = \<lparr>er_userNotFound = (\<lambda>_. False), er_apiCode = (\<lambda>_. None), er_status = (\<lambda>_. OtherCode)\<rparr>"

lemma demo_trim_uid: "TrimSpace ''u1'' = ''u1''"
  by (rule TrimSpace_ascii) (simp_all add: isSpace_def)

lemma demo_delete_runs:
  "snd (Evaluator_Handle demo_delete_errors (\<lambda>_. []) (\<lambda>_. Inr ''{}'') demo_evaluator 5 demo_delete_request (demo_pending_requests, [])) =
     (demo_pending_requests, [''u1''])"
  by (simp add: Evaluator_Handle_def decideRequest_def deleteAccount_def demo_evaluator_def FirestoreRepository_def
      demo_delete_request_def DeleteRequested_Identity_def RequestStatus_def documentStatus_def demo_world_get_def
      demo_pending_requests_def evaluatable_def asString_def IsPaused_def killSwitchPath_def requestCollection_def
      demo_trim_uid ApplicationDataExists_def documentExists_def demo_delete_def emptyOutcome_def)

theorem account_deletion_guarded_witness:
  "may_delete demo_evaluator demo_pending_requests (dq_Request demo_delete_request)"
proof -
  have reads: "quiet_reads fst snd demo_world_get"
    by (simp add: quiet_reads_def reads_ok_def demo_world_get_def)
  have logged: "snd (snd (demo_delete u f)) = snd f @ [u]" for u f by (simp add: demo_delete_def)
  have new: "Evaluator_New True False True (Some (FirestoreRepository demo_world_get (\<lambda>_. None) (\<lambda>_ w. (None, w)))) (Some demo_delete) =
      Inr demo_evaluator"
    by (simp add: Evaluator_New_def demo_evaluator_def)
  from account_deletion_guarded [OF reads logged new prod.collapse [symmetric],
      of demo_delete_errors "\<lambda>_. []" "\<lambda>_. Inr ''{}''" 5 demo_delete_request "(demo_pending_requests, [])"]
  show ?thesis unfolding demo_delete_runs by (auto simp: demo_delete_request_def)
qed

section \<open>What is enqueued\<close>

text \<open>
  The one-shot mode enqueues exactly the eligible documents it lists, in their order, and each under an
  identity of its own per mode: a request validated by a dry run is observed again by the real deletion.
\<close>

lemma enqueueEligible_ids:
  "enqueueEligible enqueue realDel docs st = (Inr ids, st') \<Longrightarrow> ids = map doc_ID (filter (eligibleDocument realDel) docs)"
  by (induction docs arbitrary: st ids) (auto split: if_splits prod.splits option.splits sum.splits)

lemma delete_RunOnce_paused:
  "isPaused f = (Inr True, f1) \<Longrightarrow> delete_RunOnce isPaused listEligible enqueue True realDel (f, st) = (Inr [], f1, st)"
  by (simp add: delete_RunOnce_def)

lemma waitRequest_terminal:
  "requestStatus i f = (Inr s, f1) \<Longrightarrow> isTerminalStatus s \<Longrightarrow> \<not> isEligible realDel s \<Longrightarrow>
   waitRequest requestStatus tick realDel i f = Some (None, f1)"
  by (subst waitRequest.simps) simp

text \<open>A request that reaches a final status after \<open>n\<close> more ticks ends the wait.\<close>

lemma waitRequest_ends:
  assumes "\<And>k. k \<le> n \<Longrightarrow> requestStatus i (w k) = (Inr (s k), w' k)"
    and "\<And>k. k < n \<Longrightarrow> isEligible realDel (s k) \<and> tick (w' k) = (None, w (Suc k))"
    and "isTerminalStatus (s n)" "\<not> isEligible realDel (s n)"
  shows "waitRequest requestStatus tick realDel i (w 0) = Some (None, w' n)"
proof -
  have "k \<le> n \<Longrightarrow> waitRequest requestStatus tick realDel i (w (n - k)) = Some (None, w' n)" for k
  proof (induction k)
    case 0
    with assms show ?case by (intro waitRequest_terminal) auto
  next
    case (Suc k)
    then have "n - Suc k < n" "Suc (n - Suc k) = n - k" by auto
    with assms(1) [of "n - Suc k"] assms(2) [of "n - Suc k"] Suc show ?case
      by (subst waitRequest.simps) simp
  qed
  from this [of n] show ?thesis by simp
qed

end
