(* ===== verification/App.thy ===== *)
theory App
  imports Api AdminDelete Timer EmailPlugin PollNotify PushEvents AutoComplete EventPolls
begin

text \<open>
  The composition of the application (app/app.go): which handlers react to which truth, what is registered with
  the runtime and in which order, what \<open>New\<close> opens and releases, what \<open>Run\<close> starts and how it stops.

  The bodies of the handlers are those of the other theories, under the state of each; here \<open>impl\<close> gives the
  registration of a name. The payload types of the truths are one type \<open>'p\<close>.
\<close>

section \<open>Names\<close>

definition ChatMessagePostedFanout :: handler_name where "ChatMessagePostedFanout = ''truths.chat_message_posted''"
definition PushTestRequestedFanout :: handler_name where "PushTestRequestedFanout = ''truths.push_test_requested''"
definition TestEmailRequestedFanout :: handler_name where "TestEmailRequestedFanout = ''truths.test_email_requested''"
definition HandlerPollOpened :: handler_name where "HandlerPollOpened = ''polls.poll_opened''"
definition HandlerPollCompleted :: handler_name where "HandlerPollCompleted = ''polls.poll_completed''"
definition HandlerPollOpenedEmail :: handler_name where "HandlerPollOpenedEmail = ''polls.poll_opened_email''"
definition HandlerPollCompletedEmail :: handler_name where "HandlerPollCompletedEmail = ''polls.poll_completed_email''"
definition HandlerPollOpenedPush :: handler_name where "HandlerPollOpenedPush = ''polls.poll_opened_push''"
definition HandlerPollCompletedPush :: handler_name where "HandlerPollCompletedPush = ''polls.poll_completed_push''"
definition HandlerManualCompletionNeedPush :: handler_name where
  "HandlerManualCompletionNeedPush = ''polls.manual_completion_required_push''"
definition HandlerChatPush :: handler_name where "HandlerChatPush = ''pushevents.chat_push''"
definition HandlerPushTest :: handler_name where "HandlerPushTest = ''pushevents.push_test''"
definition HandlerTestEmail :: handler_name where "HandlerTestEmail = ''testemail.send''"
definition HandlerEvaluateEventVenue :: handler_name where "HandlerEvaluateEventVenue = ''recurrence.evaluate_event_venue''"
definition HandlerStaleEvent :: handler_name where "HandlerStaleEvent = ''recurrence.stale_event''"
definition HandlerCreateEventPoll :: handler_name where "HandlerCreateEventPoll = ''recurrence.create_event_poll''"
definition HandlerLogMessage :: handler_name where "HandlerLogMessage = ''log.message''"
definition HandlerDiscovery :: handler_name where "HandlerDiscovery = ''autocomplete.discovery''"
definition HandlerCandidate :: handler_name where "HandlerCandidate = ''autocomplete.candidate''"
definition HandlerEvaluateRequest :: handler_name where "HandlerEvaluateRequest = ''admindelete.evaluate_request''"
definition AutoCompleteTimerName :: handler_name where "AutoCompleteTimerName = ''autocomplete.daily''"
definition ReevaluateTimerName :: handler_name where "ReevaluateTimerName = ''eventvenues.reevaluate''"

lemmas app_names =
  PollOpenedFanout_def PollCompletedFanout_def EventVenueObservedFanout_def StaleEventFanout_def
  CreateEventPollFanout_def LogMessageFanout_def DailyPollAutoCompleteDueFanout_def PollAutoCompletionDueFanout_def
  PollManualCompletionRequiredFanout_def ChatMessagePostedFanout_def PushTestRequestedFanout_def
  TestEmailRequestedFanout_def AdminDeleteRequestedFanout_def
  HandlerPollOpened_def HandlerPollCompleted_def HandlerPollOpenedEmail_def HandlerPollCompletedEmail_def
  HandlerPollOpenedPush_def HandlerPollCompletedPush_def HandlerManualCompletionNeedPush_def HandlerChatPush_def
  HandlerPushTest_def HandlerTestEmail_def HandlerEvaluateEventVenue_def HandlerStaleEvent_def HandlerCreateEventPoll_def
  HandlerLogMessage_def HandlerDiscovery_def HandlerCandidate_def HandlerEvaluateRequest_def AutoCompleteTimerName_def
  ReevaluateTimerName_def HandlerPersistOutcome_def HandlerClose_def HandlerAmbiguous_def HandlerTestEmailAcked_def
  HandlerSetup_def HandlerPost_def HandlerRecovery_def HandlerRecoveryFanout_def HandlerVerify_def idem_HandlerCheck_def
  HandlerCheck_def HandlerPopulateRemote_def HandlerEmitTruth_def HandlerCompletionMarked_def HandlerDeliver_def
  HandlerWait_def HandlerChatProcessed_def HandlerPushTestCompleted_def

section \<open>The truths and their handlers\<close>

text \<open>
  The registries of the truths are variables of package truths: one per fanout name, kept as long as the process
  runs. \<open>New\<close> registers the handlers in this order.
\<close>

type_synonym truth_registries = "handler_name \<Rightarrow> truth_registry"

definition initial_registries :: truth_registries where "initial_registries f = truth_NewRegistry f"

definition app_declarations :: "(handler_name \<times> handler_name) list" where
  "app_declarations =
     [(PollOpenedFanout, HandlerPollOpened), (PollOpenedFanout, HandlerPollOpenedEmail),
      (PollOpenedFanout, HandlerPollOpenedPush), (PollCompletedFanout, HandlerPollCompleted),
      (PollCompletedFanout, HandlerPollCompletedEmail), (PollCompletedFanout, HandlerPollCompletedPush),
      (PollManualCompletionRequiredFanout, HandlerManualCompletionNeedPush), (ChatMessagePostedFanout, HandlerChatPush),
      (PushTestRequestedFanout, HandlerPushTest), (TestEmailRequestedFanout, HandlerTestEmail),
      (EventVenueObservedFanout, HandlerEvaluateEventVenue), (StaleEventFanout, HandlerStaleEvent),
      (CreateEventPollFanout, HandlerCreateEventPoll), (LogMessageFanout, HandlerLogMessage),
      (DailyPollAutoCompleteDueFanout, HandlerDiscovery), (PollAutoCompletionDueFanout, HandlerCandidate),
      (AdminDeleteRequestedFanout, HandlerEvaluateRequest)]"

definition declare_handler :: "handler_name \<times> handler_name \<Rightarrow> truth_registries \<Rightarrow> truth_registries" where
  "declare_handler d G = (case d of (f, h) \<Rightarrow> G(f := truth_Register [h] (G f)))"

definition app_declare :: "truth_registries \<Rightarrow> truth_registries" where
  "app_declare G = fold declare_handler app_declarations G"

definition app_fanouts :: "handler_name list" where
  "app_fanouts =
     [PollOpenedFanout, PollCompletedFanout, EventVenueObservedFanout, StaleEventFanout, CreateEventPollFanout,
      LogMessageFanout, DailyPollAutoCompleteDueFanout, PollAutoCompletionDueFanout, PollManualCompletionRequiredFanout,
      ChatMessagePostedFanout, PushTestRequestedFanout, TestEmailRequestedFanout, AdminDeleteRequestedFanout]"

section \<open>Registration with the runtime\<close>

type_synonym ('s, 'e, 'db) registrar =
  "('s, 'e, 'db, timer_config) cellar \<Rightarrow> gerror option \<times> ('s, 'e, 'db, timer_config) cellar"

fun run_registrars :: "('s, 'e, 'db) registrar list \<Rightarrow> ('s, 'e, 'db) registrar" where
  "run_registrars [] c = (None, c)"
| "run_registrars (r # rs) c =
     (case r c of (Some e, c1) \<Rightarrow> (Some e, c1) | (None, c1) \<Rightarrow> run_registrars rs c1)"

text \<open>An operation on a pointer to the runtime, which is not nil here.\<close>

definition on_runtime ::
  "(('s, 'e, 'db, timer_config) cellar option \<Rightarrow> 'r \<times> ('s, 'e, 'db, timer_config) cellar option) \<Rightarrow>
     ('s, 'e, 'db, timer_config) cellar \<Rightarrow> 'r \<times> ('s, 'e, 'db, timer_config) cellar" where
  "on_runtime f c = (case f (Some c) of (r, Some c1) \<Rightarrow> (r, c1) | (r, None) \<Rightarrow> (r, c))"

text \<open>What the registrations use: codecs, the clock, the time zones and the handlers.\<close>

record ('p, 'e, 'db) app_parts =
  ap_sha256 :: "string \<Rightarrow> string"
  ap_unmarshal :: "string \<Rightarrow> gerror + 'p"
  ap_marshal :: "'p \<Rightarrow> gerror + string"
  ap_inspect :: "cell \<Rightarrow> timer_config inspection"
  ap_impl :: "handler_name \<Rightarrow> ('e, 'db, timer_config) registration"
  ap_recovery :: "(string, 'e) fanout_expander"
  ap_unmarshalToken :: "string \<Rightarrow> gerror + string"
  ap_loadLocation :: "string \<Rightarrow> gerror + location"
  ap_unmarshalTimer :: "string \<Rightarrow> gerror + timer_config"
  ap_marshalTimer :: "timer_config \<Rightarrow> gerror + string"
  ap_zeroTimer :: timer_config
  ap_now :: go_time
  ap_reevaluateInterval :: go_duration
  ap_runDaily :: "'e timer_callback"
  ap_reevaluate :: "'e timer_callback"

definition registerFanout :: "('p, 'e, 'db) app_parts \<Rightarrow> truth_registry \<Rightarrow> ('s, 'e, 'db) registrar" where
  "registerFanout ap registry c =
     (case truth_Fanout (ap_marshal ap) (Some registry) of
        Inl e \<Rightarrow> (Some e, c)
      | Inr fo \<Rightarrow> on_runtime (fanout_Register (ap_sha256 ap) (ap_unmarshal ap) (ap_inspect ap) (Some fo)) c)"

definition registerTruthFanouts :: "('p, 'e, 'db) app_parts \<Rightarrow> truth_registries \<Rightarrow> ('s, 'e, 'db) registrar" where
  "registerTruthFanouts ap G = run_registrars (map (\<lambda>f. registerFanout ap (G f)) app_fanouts)"

definition register_handler :: "('p, 'e, 'db) app_parts \<Rightarrow> handler_name \<Rightarrow> ('s, 'e, 'db) registrar" where
  "register_handler ap h = Cellar_Register h (Some (ap_impl ap h))"

definition wrap_error :: "string \<Rightarrow> ('s, 'e, 'db) registrar \<Rightarrow> ('s, 'e, 'db) registrar" where
  "wrap_error msg r c = (case r c of (Some e, c1) \<Rightarrow> (Some (Wrapped e msg), c1) | (None, c1) \<Rightarrow> (None, c1))"

definition admin_RegisterHandlers :: "('p, 'e, 'db) app_parts \<Rightarrow> bool \<Rightarrow> ('s, 'e, 'db) registrar" where
  "admin_RegisterHandlers ap hasEvaluator =
     (if \<not> hasEvaluator then run_registrars []
      else run_registrars [register_handler ap HandlerEvaluateRequest, register_handler ap HandlerPersistOutcome])"

text \<open>\<open>durable_email.Register\<close>, whose store, client and verifier the plugin supplies.\<close>

definition email_Register :: "('p, 'e, 'db) app_parts \<Rightarrow> ('s, 'e, 'db) registrar" where
  "email_Register ap =
     run_registrars
       [register_handler ap HandlerSetup, register_handler ap HandlerRecovery,
        (\<lambda>c. case NewFanout HandlerRecoveryFanout (Some (ap_recovery ap)) of
               Inl e \<Rightarrow> (Some e, c)
             | Inr fo \<Rightarrow> on_runtime (fanout_Register (ap_sha256 ap) (ap_unmarshalToken ap) (ap_inspect ap) (Some fo)) c),
        register_handler ap HandlerPost, register_handler ap HandlerVerify]"

definition push_Register :: "('p, 'e, 'db) app_parts \<Rightarrow> ('s, 'e, 'db) registrar" where
  "push_Register ap = run_registrars [register_handler ap HandlerDeliver, register_handler ap HandlerWait]"

definition app_handlers :: "handler_name list" where
  "app_handlers =
     [HandlerPollOpened, HandlerPollOpenedEmail, HandlerPollOpenedPush, HandlerPollCompleted, HandlerPollCompletedEmail,
      HandlerCompletionMarked, HandlerPollCompletedPush, HandlerManualCompletionNeedPush, HandlerChatPush,
      HandlerChatProcessed, HandlerPushTest, HandlerPushTestCompleted, HandlerTestEmail, HandlerTestEmailAcked,
      HandlerCheck, HandlerPopulateRemote, HandlerEmitTruth, idem_HandlerCheck, HandlerLogMessage, HandlerDiscovery,
      HandlerCandidate, HandlerClose, HandlerAmbiguous, HandlerEvaluateEventVenue, HandlerStaleEvent,
      HandlerCreateEventPoll]"

text \<open>A timer is made, registered and, unless the application only evaluates deletions, scheduled if it is new.\<close>

definition timer_stage ::
  "('p, 'e, 'db) app_parts \<Rightarrow> bool \<Rightarrow> handler_name \<Rightarrow> timer_config \<Rightarrow> 'e timer_callback \<Rightarrow> ('s, 'e, 'db) registrar" where
  "timer_stage ap evaluateOnce name config callback c =
     (case NewTimer (ap_loadLocation ap) name config (Some callback) of
        Inl e \<Rightarrow> (Some e, c)
      | Inr timer \<Rightarrow>
          (case on_runtime (Timer_Register (ap_loadLocation ap) (ap_unmarshalTimer ap) (ap_zeroTimer ap) (ap_now ap) (Some timer)) c of
             (Some e, c1) \<Rightarrow> (Some e, c1)
           | (None, c1) \<Rightarrow>
               if evaluateOnce then (None, c1)
               else (case on_runtime (Timer_Schedule (ap_loadLocation ap) (ap_marshalTimer ap) (ap_now ap) (Some timer)) c1 of
                       (Inl e, c2) \<Rightarrow> if errors_Is e ErrTimerAlreadyExists then (None, c2) else (Some e, c2)
                     | (Inr _, c2) \<Rightarrow> (None, c2))))"

definition autoCompleteConfig :: timer_config where
  "autoCompleteConfig =
     \<lparr>tc_Interval = 0, tc_Mode = TimerDailyCalendar, tc_DailyAt = ''16:00'', tc_Location = ''Europe/London''\<rparr>"

definition reevaluateConfig :: "go_duration \<Rightarrow> timer_config" where
  "reevaluateConfig interval = \<lparr>tc_Interval = interval, tc_Mode = TimerFixedRate, tc_DailyAt = '''', tc_Location = ''''\<rparr>"

definition app_register ::
  "('p, 'e, 'db) app_parts \<Rightarrow> truth_registries \<Rightarrow> bool \<Rightarrow> bool \<Rightarrow> ('s, 'e, 'db) registrar" where
  "app_register ap G hasEvaluator evaluateOnce =
     run_registrars
       ([registerTruthFanouts ap G,
         wrap_error ''register admin-delete handlers'' (admin_RegisterHandlers ap hasEvaluator),
         wrap_error ''register email plugin'' (email_Register ap),
         wrap_error ''register push plugin'' (push_Register ap)] @
        map (register_handler ap) app_handlers @
        [timer_stage ap evaluateOnce AutoCompleteTimerName autoCompleteConfig (ap_runDaily ap),
         timer_stage ap evaluateOnce ReevaluateTimerName (reevaluateConfig (ap_reevaluateInterval ap)) (ap_reevaluate ap)])"

section \<open>What a build of the application registers\<close>

definition registered_names :: "('s, 'e, 'db, 'v) cellar \<Rightarrow> handler_name set" where
  "registered_names c = dom (registrations (cl_registry c))"

definition open_runtime :: "('s, 'e, 'db, 'v) cellar \<Rightarrow> bool" where
  "open_runtime c \<longleftrightarrow> \<not> cl_started c \<and> \<not> frozen (cl_registry c)"

text \<open>
  A registrar binds exactly the names of a list, given that they are new, or fails with an error of \<open>F\<close>.
\<close>

definition registers :: "gerror set \<Rightarrow> ('s, 'e, 'db) registrar \<Rightarrow> handler_name list \<Rightarrow> bool" where
  "registers F r hs \<longleftrightarrow>
     (\<forall>c. open_runtime c \<and> distinct hs \<and> '''' \<notin> set hs \<and> set hs \<inter> registered_names c = {} \<longrightarrow>
        (case r c of
           (None, c') \<Rightarrow> open_runtime c' \<and> registered_names c' = registered_names c \<union> set hs
         | (Some e, c') \<Rightarrow> e \<in> F))"

lemma registersI:
  assumes "\<And>c. open_runtime c \<Longrightarrow> distinct hs \<Longrightarrow> '''' \<notin> set hs \<Longrightarrow> set hs \<inter> registered_names c = {} \<Longrightarrow>
    (case r c of (None, c') \<Rightarrow> open_runtime c' \<and> registered_names c' = registered_names c \<union> set hs | (Some e, c') \<Rightarrow> e \<in> F)"
  shows "registers F r hs"
  using assms by (simp add: registers_def)

lemma registersE:
  assumes "registers F r hs" "open_runtime c" "distinct hs" "'''' \<notin> set hs" "set hs \<inter> registered_names c = {}"
  obtains (ok) c' where "r c = (None, c')" "open_runtime c'" "registered_names c' = registered_names c \<union> set hs"
        | (fail) e c' where "r c = (Some e, c')" "e \<in> F"
  using assms unfolding registers_def by (cases "r c"; cases "fst (r c)") auto

lemma registers_handler: "registers F (register_handler ap h) [h]"
  by (rule registersI)
     (simp add: register_handler_def Cellar_Register_def Registry_Register_def open_runtime_def registered_names_def
       domIff insert_commute)

lemma on_fanout:
  assumes "open_runtime c" "fo_name f \<noteq> ''''" "fo_name f \<notin> registered_names c"
  shows "\<exists>c'. on_runtime (fanout_Register sha unm insp (Some f)) c = (None, c') \<and> open_runtime c' \<and>
    registered_names c' = insert (fo_name f) (registered_names c)"
  using assms by (simp add: on_runtime_def fanout_Register_def Registry_Register_def open_runtime_def registered_names_def domIff)

lemma registers_fanout:
  fixes ap :: "('p, 'e, 'db) app_parts"
  assumes "tr_name g = h"
  shows "registers F (registerFanout ap g :: ('s, 'e, 'db) registrar) [h]"
proof (rule registersI)
  fix c :: "('s, 'e, 'db, timer_config) cellar"
  assume "open_runtime c" "'''' \<notin> set [h]" "set [h] \<inter> registered_names c = {}"
  then show "case registerFanout ap g c of
      (None, c') \<Rightarrow> open_runtime c' \<and> registered_names c' = registered_names c \<union> set [h] | (Some e, c') \<Rightarrow> e \<in> F"
    using assms on_fanout [of c "\<lparr>fo_name = h, fo_expander = truth_expand (ap_marshal ap) g\<rparr>"
        "ap_sha256 ap" "ap_unmarshal ap" "ap_inspect ap"]
    by (auto simp: registerFanout_def truth_Fanout_def NewFanout_def)
qed

lemma registers_Nil: "registers F (run_registrars []) []"
  by (rule registersI) simp

lemma registers_run: "list_all2 (registers F) rs Ns \<Longrightarrow> registers F (run_registrars rs) (concat Ns)"
proof (induction rule: list_all2_induct)
  case (Cons r rs N Ns)
  show ?case
  proof (rule registersI)
    fix c :: "('a, 'b, 'c, timer_config) cellar"
    assume c: "open_runtime c" "distinct (concat (N # Ns))" "'''' \<notin> set (concat (N # Ns))"
      "set (concat (N # Ns)) \<inter> registered_names c = {}"
    then have n: "distinct N" "'''' \<notin> set N" "set N \<inter> registered_names c = {}" by auto
    from Cons.hyps(1) c(1) n
    show "case run_registrars (r # rs) c of
        (None, c') \<Rightarrow> open_runtime c' \<and> registered_names c' = registered_names c \<union> set (concat (N # Ns)) | (Some e, c') \<Rightarrow> e \<in> F"
    proof (cases rule: registersE)
      case (ok c')
      have "distinct (concat Ns)" "'''' \<notin> set (concat Ns)" "set (concat Ns) \<inter> registered_names c' = {}"
        using c n ok(3) by auto
      with Cons.IH ok(2) show ?thesis by (cases rule: registersE) (auto simp: ok)
    qed simp
  qed
qed (simp add: registers_def)

lemma registers_wrap: "registers {} r hs \<Longrightarrow> registers F (wrap_error m r) hs"
  unfolding registers_def wrap_error_def by (fastforce split: prod.splits option.splits)

lemma registers_map: "registers F (run_registrars (map (register_handler ap) hs)) hs"
  using registers_run [of F "map (register_handler ap) hs" "map (\<lambda>h. [h]) hs"]
  by (simp add: list_all2_map1 list_all2_map2 list_all2_same registers_handler del: concat_map_singleton) simp

text \<open>The only thing that can go wrong is storing the first cell of a timer.\<close>

definition schedule_errors :: "bool \<Rightarrow> gerror set" where
  "schedule_errors evaluateOnce =
     {e. \<not> evaluateOnce \<and> \<not> errors_Is e ErrTimerAlreadyExists}"

lemma Timer_Schedule_registry:
  "on_runtime (Timer_Schedule lo mj now t) c = (x, c') \<Longrightarrow> cl_registry c' = cl_registry c \<and> cl_started c' = cl_started c"
  by (auto simp: on_runtime_def Timer_Schedule_def split: option.splits sum.splits prod.splits if_splits)

lemma registers_timer:
  fixes ap :: "('p, 'e, 'db) app_parts"
  assumes "NewTimer (ap_loadLocation ap) name config (Some callback) = Inr tm" "tm_name tm = name"
  shows "registers (schedule_errors once) (timer_stage ap once name config callback :: ('s, 'e, 'db) registrar) [name]"
proof (rule registersI)
  fix c :: "('s, 'e, 'db, timer_config) cellar"
  assume c: "open_runtime c" "'''' \<notin> set [name]" "set [name] \<inter> registered_names c = {}"
  then obtain c1 where c1: "on_runtime (Timer_Register (ap_loadLocation ap) (ap_unmarshalTimer ap) (ap_zeroTimer ap) (ap_now ap) (Some tm)) c = (None, c1)"
    "open_runtime c1" "registered_names c1 = insert name (registered_names c)"
    using assms(2) by (simp add: on_runtime_def Timer_Register_def Registry_Register_def open_runtime_def registered_names_def domIff)
  obtain x c2 where x: "on_runtime (Timer_Schedule (ap_loadLocation ap) (ap_marshalTimer ap) (ap_now ap) (Some tm)) c1 = (x, c2)"
    by fastforce
  from Timer_Schedule_registry [OF x] c1(2,3) have "open_runtime c2" "registered_names c2 = insert name (registered_names c)"
    by (simp_all add: open_runtime_def registered_names_def)
  with c1 x assms show "case timer_stage ap once name config callback c of
      (None, c') \<Rightarrow> open_runtime c' \<and> registered_names c' = registered_names c \<union> set [name]
    | (Some e, c') \<Rightarrow> e \<in> schedule_errors once"
    by (cases x) (simp_all add: timer_stage_def schedule_errors_def)
qed

definition all_names :: "bool \<Rightarrow> handler_name list" where
  "all_names hasEvaluator =
     app_fanouts @ (if hasEvaluator then [HandlerEvaluateRequest, HandlerPersistOutcome] else []) @
     [HandlerSetup, HandlerRecovery, HandlerRecoveryFanout, HandlerPost, HandlerVerify, HandlerDeliver, HandlerWait] @
     app_handlers @ [AutoCompleteTimerName, ReevaluateTimerName]"

lemma distinct_all_names: "distinct (all_names True)"
  by (simp add: all_names_def app_fanouts_def app_handlers_def app_names)

lemma all_names_nonempty: "'''' \<notin> set (all_names True)"
  by (simp add: all_names_def app_fanouts_def app_handlers_def app_names)

lemma all_names_usable: "distinct (all_names ev)" "'''' \<notin> set (all_names ev)"
  using distinct_all_names all_names_nonempty by (cases ev; auto simp: all_names_def)+

lemma declare_name: "tr_name (declare_handler d G f) = tr_name (G f)"
  by (cases d) (simp add: declare_handler_def truth_Register_def)

lemma app_declare_name: "tr_name (app_declare G f) = tr_name (G f)"
proof -
  have "tr_name (fold declare_handler ds G f) = tr_name (G f)" for ds
    by (induction ds arbitrary: G) (simp_all add: declare_name)
  then show ?thesis by (simp add: app_declare_def)
qed

lemma concat_names: "concat (map (\<lambda>h. [h]) hs) = hs"
  by (induction hs) auto

lemma registers_fanouts:
  fixes ap :: "('p, 'e, 'db) app_parts"
  assumes "\<And>f. tr_name (G f) = f"
  shows "registers F (registerTruthFanouts ap G :: ('s, 'e, 'db) registrar) app_fanouts"
proof -
  have "list_all2 (registers F) (map (\<lambda>f. registerFanout ap (G f) :: ('s, 'e, 'db) registrar) app_fanouts) (map (\<lambda>f. [f]) app_fanouts)"
    by (simp add: list_all2_map1 list_all2_map2 list_all2_same registers_fanout assms)
  from registers_run [OF this] show ?thesis by (simp only: registerTruthFanouts_def concat_names)
qed

lemma registers_plugins:
  fixes ap :: "('p, 'e, 'db) app_parts"
  shows "registers F (admin_RegisterHandlers ap ev) (if ev then [HandlerEvaluateRequest, HandlerPersistOutcome] else [])"
  "registers F (email_Register ap :: ('s, 'e, 'db) registrar) [HandlerSetup, HandlerRecovery, HandlerRecoveryFanout, HandlerPost, HandlerVerify]"
  "registers F (push_Register ap) [HandlerDeliver, HandlerWait]"
proof -
  show "registers F (admin_RegisterHandlers ap ev) (if ev then [HandlerEvaluateRequest, HandlerPersistOutcome] else [])"
    using registers_map [of F ap "[HandlerEvaluateRequest, HandlerPersistOutcome]"]
    by (cases ev) (simp_all add: admin_RegisterHandlers_def registers_Nil del: run_registrars.simps)
  show "registers F (push_Register ap) [HandlerDeliver, HandlerWait]"
    using registers_map [of F ap "[HandlerDeliver, HandlerWait]"] by (simp add: push_Register_def)
  have "registers F (\<lambda>c :: ('s, 'e, 'db, timer_config) cellar. case NewFanout HandlerRecoveryFanout (Some (ap_recovery ap)) of
      Inl e \<Rightarrow> (Some e, c)
    | Inr fo \<Rightarrow> on_runtime (fanout_Register (ap_sha256 ap) (ap_unmarshalToken ap) (ap_inspect ap) (Some fo)) c) [HandlerRecoveryFanout]"
  proof (rule registersI)
    fix c :: "('s, 'e, 'db, timer_config) cellar"
    assume "open_runtime c" "set [HandlerRecoveryFanout] \<inter> registered_names c = {}"
    then show "case (case NewFanout HandlerRecoveryFanout (Some (ap_recovery ap)) of
        Inl e \<Rightarrow> (Some e, c)
      | Inr fo \<Rightarrow> on_runtime (fanout_Register (ap_sha256 ap) (ap_unmarshalToken ap) (ap_inspect ap) (Some fo)) c) of
        (None, c') \<Rightarrow> open_runtime c' \<and> registered_names c' = registered_names c \<union> set [HandlerRecoveryFanout]
      | (Some e, c') \<Rightarrow> e \<in> F"
      using on_fanout [of c "\<lparr>fo_name = HandlerRecoveryFanout, fo_expander = ap_recovery ap\<rparr>"
          "ap_sha256 ap" "ap_unmarshalToken ap" "ap_inspect ap"]
      by (auto simp: NewFanout_def HandlerRecoveryFanout_def)
  qed
  then have "list_all2 (registers F)
      [register_handler ap HandlerSetup, register_handler ap HandlerRecovery,
       (\<lambda>c :: ('s, 'e, 'db, timer_config) cellar. case NewFanout HandlerRecoveryFanout (Some (ap_recovery ap)) of
          Inl e \<Rightarrow> (Some e, c)
        | Inr fo \<Rightarrow> on_runtime (fanout_Register (ap_sha256 ap) (ap_unmarshalToken ap) (ap_inspect ap) (Some fo)) c),
       register_handler ap HandlerPost, register_handler ap HandlerVerify]
      [[HandlerSetup], [HandlerRecovery], [HandlerRecoveryFanout], [HandlerPost], [HandlerVerify]]"
    by (simp only: list.rel_inject list.rel_intros registers_handler simp_thms)
  from registers_run [OF this, folded email_Register_def]
  show "registers F (email_Register ap :: ('s, 'e, 'db) registrar) [HandlerSetup, HandlerRecovery, HandlerRecoveryFanout, HandlerPost, HandlerVerify]"
    by simp
qed

lemma daily_at: "parseDailyAt ''16:00'' = Inr (16, 0)"
  by code_simp

lemma app_timers:
  assumes "ap_loadLocation ap ''Europe/London'' = Inr london" "0 < ap_reevaluateInterval ap"
  shows "registers (schedule_errors once) (timer_stage ap once AutoCompleteTimerName autoCompleteConfig (ap_runDaily ap)) [AutoCompleteTimerName]"
    "registers (schedule_errors once) (timer_stage ap once ReevaluateTimerName (reevaluateConfig (ap_reevaluateInterval ap)) (ap_reevaluate ap)) [ReevaluateTimerName]"
  using assms
  by (auto intro!: registers_timer simp: NewTimer_def autoCompleteConfig_def reevaluateConfig_def daily_at timer_mode_defs
      AutoCompleteTimerName_def ReevaluateTimerName_def)

lemma registers_app:
  assumes "\<And>f. tr_name (G f) = f"
    and "ap_loadLocation ap ''Europe/London'' = Inr london" "0 < ap_reevaluateInterval ap"
  shows "registers (schedule_errors once) (app_register ap G ev once) (all_names ev)"
proof -
  let ?F = "schedule_errors once"
  have "list_all2 (registers ?F)
     ([registerTruthFanouts ap G, wrap_error ''register admin-delete handlers'' (admin_RegisterHandlers ap ev),
       wrap_error ''register email plugin'' (email_Register ap), wrap_error ''register push plugin'' (push_Register ap)] @
      map (register_handler ap) app_handlers @
      [timer_stage ap once AutoCompleteTimerName autoCompleteConfig (ap_runDaily ap),
       timer_stage ap once ReevaluateTimerName (reevaluateConfig (ap_reevaluateInterval ap)) (ap_reevaluate ap)])
     ([app_fanouts, if ev then [HandlerEvaluateRequest, HandlerPersistOutcome] else [],
       [HandlerSetup, HandlerRecovery, HandlerRecoveryFanout, HandlerPost, HandlerVerify], [HandlerDeliver, HandlerWait]] @
      map (\<lambda>h. [h]) app_handlers @ [[AutoCompleteTimerName], [ReevaluateTimerName]])"
    by (intro list_all2_appendI)
       (simp_all only: list.rel_inject list.rel_intros list_all2_map1 list_all2_map2 list_all2_same simp_thms
          registers_fanouts [OF assms(1)] registers_wrap [OF registers_plugins(1)] registers_wrap [OF registers_plugins(2)]
          registers_wrap [OF registers_plugins(3)] registers_handler app_timers [OF assms(2,3)] ball_triv)
  from registers_run [OF this] show ?thesis
    by (simp add: app_register_def all_names_def concat_names del: list_all2_append)
qed

text \<open>
  Building the application registers every one of its handlers, fanouts and timers with a new runtime,
  none of them twice and nothing else; the only error possible is one of storing the first cell of a timer.
\<close>

theorem app_registration_complete:
  assumes "ap_loadLocation ap ''Europe/London'' = Inr london" "0 < ap_reevaluateInterval ap"
  shows "case app_register ap (app_declare initial_registries) hasEvaluator evaluateOnce (NewCellar ops s) of
      (None, c) \<Rightarrow> \<not> cl_started c \<and> dom (registrations (cl_registry c)) = set (all_names hasEvaluator) \<and> distinct (all_names hasEvaluator)
    | (Some e, c) \<Rightarrow> \<not> evaluateOnce \<and> \<not> errors_Is e ErrTimerAlreadyExists"
proof -
  have G: "tr_name (app_declare initial_registries f) = f" for f
    by (simp add: app_declare_name initial_registries_def truth_NewRegistry_def)
  have c: "open_runtime (NewCellar ops s)" "set (all_names hasEvaluator) \<inter> registered_names (NewCellar ops s) = {}"
    by (simp_all add: open_runtime_def NewCellar_def NewMemoryRegistry_def registered_names_def)
  from registers_app [OF G assms, where once = evaluateOnce and ev = hasEvaluator] c(1) all_names_usable c(2) show ?thesis
  proof (cases rule: registersE)
    case (ok c')
    then show ?thesis
      by (simp add: all_names_usable open_runtime_def registered_names_def NewCellar_def NewMemoryRegistry_def)
  next
    case (fail e c')
    then show ?thesis by (simp add: schedule_errors_def)
  qed
qed

section \<open>The truths reach their handlers\<close>

lemma registerHandlers_append: "registerHandlers hs (as @ bs) = registerHandlers (registerHandlers hs as) bs"
  by (induction as arbitrary: hs) auto

lemma declare_handlers:
  "tr_handlers (fold declare_handler ds G f) = registerHandlers (tr_handlers (G f)) (map snd (filter (\<lambda>d. fst d = f) ds))"
  by (induction ds arbitrary: G) (auto simp: declare_handler_def truth_Register_def)

lemma app_declared:
  "tr_handlers (app_declare initial_registries f) = first_occurrences (map snd (filter (\<lambda>d. fst d = f) app_declarations))"
  using registerHandlers_eq [of "[]" "map snd (filter (\<lambda>d. fst d = f) app_declarations)"]
  by (simp add: app_declare_def declare_handlers initial_registries_def truth_NewRegistry_def)

text \<open>A second application in the same process declares its handlers again, which changes nothing.\<close>

lemma app_declare_idempotent: "app_declare (app_declare initial_registries) = app_declare initial_registries"
proof
  fix f
  let ?hs = "map snd (filter (\<lambda>d. fst d = f) app_declarations)"
  have "first_occurrences (?hs @ ?hs) = first_occurrences ?hs"
    by (simp add: first_occurrences_append)
  moreover have "tr_handlers (app_declare (app_declare initial_registries) f) = registerHandlers (first_occurrences ?hs) ?hs"
    using app_declared [of f] declare_handlers [of app_declarations "app_declare initial_registries" f]
    by (simp add: app_declare_def)
  ultimately have "tr_handlers (app_declare (app_declare initial_registries) f) = tr_handlers (app_declare initial_registries f)"
    by (simp add: registerHandlers_eq app_declared)
  then show "app_declare (app_declare initial_registries) f = app_declare initial_registries f"
    by (simp add: app_declare_name)
qed

definition app_targets :: "handler_name \<Rightarrow> handler_name list" where
  "app_targets f = truth_targets (app_declare initial_registries f)"

lemma declarations_known: "list_all (\<lambda>d. snd d \<in> set (all_names True)) app_declarations"
  by (simp add: app_declarations_def all_names_def app_handlers_def)

lemma app_targets_known: "h \<in> set (app_targets f) \<Longrightarrow> h \<in> set (all_names True)"
  using declarations_known by (auto simp: app_targets_def truth_targets_def app_declared list_all_iff)

lemma fanouts_declared: "list_all (\<lambda>f. f \<in> fst ` set app_declarations) app_fanouts"
  by (simp add: app_fanouts_def app_declarations_def)

lemma app_targets_nonempty: "f \<in> set app_fanouts \<Longrightarrow> app_targets f \<noteq> []"
proof -
  assume "f \<in> set app_fanouts"
  then have "\<exists>h. (f, h) \<in> set app_declarations"
    using fanouts_declared by (force simp: list_all_iff)
  then obtain h where "(f, h) \<in> set app_declarations" by blast
  then have "h \<in> set (app_targets f)"
    by (force simp: app_targets_def truth_targets_def app_declared)
  then show ?thesis by auto
qed

section \<open>Every cell has its handlers\<close>

fun result_cells :: "'db result \<Rightarrow> cell_request list" where
  "result_cells (Complete cs ws) = cs"
| "result_cells (Retry t cs ws) = cs"
| "result_cells (RetrySequence t cs ws) = cs"
| "result_cells (Kill cs ws) = cs"
| "result_cells (ErrorResult m e) = []"
| "result_cells OtherResult = []"

definition known_request :: "cell_request \<Rightarrow> bool" where
  "known_request r \<longleftrightarrow> (\<forall>s \<in> set (req_Steps r). HandlerName s \<in> set (all_names True))"

definition known_result :: "'db result \<Rightarrow> bool" where
  "known_result r \<longleftrightarrow> (\<forall>c \<in> set (result_cells r). known_request c)"

lemma known_result_simps [simp]:
  "known_result (Complete cs ws) \<longleftrightarrow> list_all known_request cs" "known_result (Retry t cs ws) \<longleftrightarrow> list_all known_request cs"
  "known_result (RetrySequence w cs ws) \<longleftrightarrow> list_all known_request cs" "known_result (Kill cs ws) \<longleftrightarrow> list_all known_request cs"
  "known_result (ErrorResult m e)" "known_result OtherResult"
  by (simp_all add: known_result_def list_all_iff)

lemma known_names [simp]:
  "h \<in> set app_fanouts \<Longrightarrow> h \<in> set (all_names True)" "h \<in> set app_handlers \<Longrightarrow> h \<in> set (all_names True)"
  "HandlerEvaluateRequest \<in> set (all_names True)" "HandlerPersistOutcome \<in> set (all_names True)"
  "HandlerSetup \<in> set (all_names True)" "HandlerRecovery \<in> set (all_names True)" "HandlerRecoveryFanout \<in> set (all_names True)"
  "HandlerPost \<in> set (all_names True)" "HandlerVerify \<in> set (all_names True)" "HandlerDeliver \<in> set (all_names True)"
  "HandlerWait \<in> set (all_names True)" "AutoCompleteTimerName \<in> set (all_names True)" "ReevaluateTimerName \<in> set (all_names True)"
  by (simp_all add: all_names_def)

lemma known_chain:
  assumes "push_cellRequest m steps = Inr c" "\<forall>s \<in> set steps. step_HandlerName s \<in> set (all_names True)"
  shows "known_request c"
proof -
  have "HandlerName ` set (req_Steps c) = step_HandlerName ` set steps"
    using arg_cong [OF push_cellRequest_steps [OF assms(1)], of set] by simp
  with assms(2) show ?thesis unfolding known_request_def by (metis imageE image_eqI)
qed

lemma known_cell:
  assumes "NewCellDefinition m h p = Inr (Inr c)" "h \<in> set (all_names True)"
  shows "known_request c" "known_request (c\<lparr>req_NotBefore := t\<rparr>)"
  using assms by (auto simp: known_request_def NewCellDefinition_def NewSequence_Inr cellStepFromStep_Inr split: sum.splits)

lemma known_envelope:
  "Envelope_CellRequest e = Inr c \<Longrightarrow> env_FanoutName e \<in> set app_fanouts \<Longrightarrow> known_request c"
  by (auto simp: known_request_def Envelope_CellRequest_def split: if_splits)

lemma known_idempotency:
  "idem_NewCellRequest m l k e = Inr c \<Longrightarrow> known_request c"
  "firebase_NewCellRequest ms u l k e = Inr c \<Longrightarrow> known_request c"
  by (auto simp: known_request_def idem_NewCellRequest_def firebase_NewCellRequest_def all_names_def app_handlers_def Let_def
      split: sum.splits)

lemma known_list: "list_all2 (\<lambda>x c. P c) xs cs \<Longrightarrow> list_all P cs"
  by (induction rule: list_all2_induct) auto

lemma known_Populate:
  assumes "Populate m flt n eps thn d = Inr r" "\<forall>s \<in> set thn. step_HandlerName s \<in> set (all_names True)"
  shows "known_result r"
proof -
  have deliveries: "list_all known_request cs" if "res_map (\<lambda>ep. push_cellRequest m [deliveryStep n ep]) eps = Inr cs" for cs
    using that unfolding res_map_Inr
    by (intro known_list [of known_request eps]) (auto elim!: list_all2_mono intro: known_chain simp: deliveryStep_def)
  have "known_request c" if "push_cellRequest m (followUpSteps n eps thn) = Inr c" for c
    using that by (rule known_chain) (use assms(2) in \<open>auto simp: followUpSteps_def\<close>)
  with assms(1) deliveries show ?thesis
    by (auto simp: Populate_def Let_def split: option.splits if_splits sum.splits)
qed

lemma known_sends:
  "s \<in> set (sendSteps q) \<Longrightarrow> step_HandlerName s \<in> set (all_names True)"
  "s \<in> set (personalSendSteps q p u) \<Longrightarrow> step_HandlerName s \<in> set (all_names True)"
  "step_HandlerName (lift_mark (markStep co i a k)) \<in> set (all_names True)"
  "step_HandlerName (markStep co i a k) \<in> set (all_names True)"
  by (auto simp: sendSteps_def personalSendSteps_def NewSendSequence_def lift_mark_def markStep_def app_handlers_def)

lemma known_polls:
  "known_result (fst (PollOpenedEmail_Handle mj nd p f))"
  "known_result (fst (PollOpenedPush_Handle pc nd flt now p d f))"
  "known_result (fst (PollCompletedPush_Handle pc nd flt now p d f))"
  "known_result (fst (ManualCompletionPush_Handle pc nd flt now truth d f))"
proof -
  show "known_result (fst (PollOpenedEmail_Handle mj nd p f))"
    by (auto simp: PollOpenedEmail_Handle_def openedMark_def Let_def split: prod.splits sum.splits
        elim!: known_chain dest!: known_sends(1,2) intro: known_sends)
  have populate: "known_result (populate pc flt msg now date i eps (markStep co i' a k) u d)" for msg date i eps co i' a k u
    by (auto simp: populate_def Let_def known_sends split: sum.splits elim!: known_Populate)
  then show "known_result (fst (PollOpenedPush_Handle pc nd flt now p d f))"
    by (simp add: PollOpenedPush_Handle_def openedMark_def split: prod.splits sum.splits)
  show "known_result (fst (PollCompletedPush_Handle pc nd flt now p d f))"
    by (simp add: PollCompletedPush_Handle_def populate Let_def split: prod.splits sum.splits)
  show "known_result (fst (ManualCompletionPush_Handle pc nd flt now truth d f))"
    by (auto simp: ManualCompletionPush_Handle_def split: prod.splits sum.splits elim!: known_Populate)
qed

lemma known_actionCells:
  "actionCells mj nd p key r venue restaurant as f = (Inr cs, f') \<Longrightarrow> list_all known_request cs"
proof (induction as arbitrary: f cs f')
  case (Cons a as)
  have "known_request c" if "actionCell mj nd p key a b venue restaurant f = (Inr c, f1)" for b c f1
    using that
    by (auto simp: actionCell_def Let_def split: prod.splits sum.splits if_splits elim!: known_chain dest!: known_sends(1,2)
        intro: known_sends)
  with Cons show ?case by (fastforce split: if_splits prod.splits sum.splits)
qed simp

lemma known_completed_email: "known_result (fst (PollCompletedEmail_Handle mj nd now p f))"
  by (auto simp: PollCompletedEmail_Handle_def Let_def simp del: actionCells.simps split: prod.splits sum.splits
      dest: known_actionCells)

lemma known_push_events:
  "known_result (fst (ChatPush_Handle px keys docs pf url flt now message d f))"
  "known_result (fst (PushTest_Handle tc docs pf url flt now request d f))"
  by (auto simp: ChatPush_Handle_def PushTest_Handle_def Let_def app_handlers_def split: prod.splits sum.splits option.splits
      elim!: known_Populate)

lemma known_test_email: "known_result (fst (TestEmail_Handle mj none acquire request e))"
proof -
  have "known_request c" if "NewSequence mj steps = Inr (Inr c)" "\<forall>s \<in> set steps. step_HandlerName s \<in> set (all_names True)"
    for c steps
    using known_chain [of mj steps c] that by (simp add: push_cellRequest_def)
  then show ?thesis
    by (auto simp: TestEmail_Handle_def NewSendSequence_def app_handlers_def Let_def split: prod.splits sum.splits)
qed

lemma known_completion:
  "known_result (fst (Discovery_Handle mt mc keys source truth f))"
  "known_result (fst (Candidate_Handle ml ma keys source due f))"
  "known_result (Ambiguous_Handle mm payload)"
proof -
  have "list_all known_request cs" if "res_map (discoveryRequest mt mc keys o') docs = Inr cs" for cs o' docs
    using that unfolding res_map_Inr
    by (intro known_list [of known_request docs])
       (auto elim!: list_all2_mono intro: known_idempotency simp: discoveryRequest_def split: sum.splits)
  then show "known_result (fst (Discovery_Handle mt mc keys source truth f))"
    by (auto simp: Discovery_Handle_def split: option.splits prod.splits sum.splits)
  have "known_result (newCloseCell ml i date v)" "known_result (newAmbiguousCell ma i date v)" for i date v
    by (auto simp: newCloseCell_def newAmbiguousCell_def known_request_def all_names_def app_handlers_def split: sum.splits)
  then show "known_result (fst (Candidate_Handle ml ma keys source due f))"
    by (auto simp: Candidate_Handle_def Let_def split: option.splits prod.splits sum.splits)
  show "known_result (Ambiguous_Handle mm payload)"
    by (auto simp: Ambiguous_Handle_def NewEnvelope_def app_fanouts_def split: sum.splits elim!: known_envelope)
qed

lemma known_events: "known_result (EvaluateEventVenue_Handle co hasStore location venue)"
  by (auto simp: EvaluateEventVenue_Handle_def createStaleEventTruth_def createEventDueTruth_def createTruth_def Let_def
      split: option.splits sum.splits if_splits intro: known_idempotency)

lemma known_deletion: "known_result r" if "Evaluator_Handle er errText marshal ev now request f = (Some r, f')"
proof -
  have "known_result (persistCell marshal payload)" for payload
    by (auto simp: persistCell_def split: sum.splits intro: known_cell)
  then show ?thesis using that
    by (auto simp: Evaluator_Handle_def decideRequest_def deleteAccount_def retryLater_def Let_def split: if_splits option.splits sum.splits prod.splits)
qed

lemma known_recovery:
  "known_result (RecoveryHandler_Handle flt1 flt2 marshalOp now token d)"
  by (auto simp: RecoveryHandler_Handle_def Let_def split: sum.splits list.splits intro: known_cell)

lemma known_idempotency_handlers:
  "env_FanoutName (cp_Truth q) \<in> set app_fanouts \<Longrightarrow> known_result (idem_CheckHandler eflt wflt now q d)"
  "env_FanoutName (sp_Truth q') \<in> set app_fanouts \<Longrightarrow> known_result (EmitTruthHandler q')"
  by (auto simp: idem_CheckHandler_def EmitTruthHandler_def split: sum.splits bool.splits elim!: known_envelope)

lemma known_targets:
  assumes "h \<in> set (app_targets fanout)" "NewCellDefinition mp h truth = Inr (Inr c)"
  shows "known_request c"
  by (rule known_cell(1) [OF assms(2) app_targets_known [OF assms(1)]])


lemma known_first:
  "(\<And>s. s \<in> set ss \<Longrightarrow> Registry_Lookup (HandlerName s) g \<noteq> None) \<Longrightarrow> firstUnregistered g ss = None"
  by (induction ss) (auto split: option.splits)


section \<open>An example\<close>

definition demo_app_handler :: "handler_name \<Rightarrow> (unit, 'db, timer_config) registration" where
  "demo_app_handler h = \<lparr>Execute = (\<lambda>c e. (Complete [] [], e)),
     Inspect = (\<lambda>c. \<lparr>insp_Cell = c, insp_Payload = autoCompleteConfig, insp_PayloadFormat = ''json'', insp_DecodeError = None\<rparr>)\<rparr>"

definition demo_app :: "(string, unit, unit) app_parts" where
  "demo_app = \<lparr>ap_sha256 = id, ap_unmarshal = Inr, ap_marshal = Inr, ap_inspect = Inspect (demo_app_handler [] :: (unit, unit, timer_config) registration),
     ap_impl = demo_app_handler, ap_recovery = (\<lambda>p t e. (Inr [], e)), ap_unmarshalToken = Inr, ap_loadLocation = (\<lambda>_. Inr UTC),
     ap_unmarshalTimer = (\<lambda>_. Inr autoCompleteConfig), ap_marshalTimer = (\<lambda>_. Inr ''{}''), ap_zeroTimer = autoCompleteConfig,
     ap_now = 5, ap_reevaluateInterval = 3600, ap_runDaily = (\<lambda>e. (None, e)), ap_reevaluate = (\<lambda>e. (None, e))\<rparr>"

lemma demo_app_parts: "ap_loadLocation demo_app ''Europe/London'' = Inr UTC" "0 < ap_reevaluateInterval demo_app"
  by (simp_all add: demo_app_def)

theorem app_registration_complete_witness:
  "\<exists>c. app_register demo_app (app_declare initial_registries) False True (NewCellar None ()) = (None, c) \<and>
     dom (registrations (cl_registry c)) = set (all_names False)"
  using app_registration_complete [OF demo_app_parts, of False True None "()"]
  by (cases "app_register demo_app (app_declare initial_registries) False True (NewCellar None ())"; cases "fst (app_register demo_app (app_declare initial_registries) False True (NewCellar None ()))") auto

definition demo_log_request :: cell_request where
  "demo_log_request = \<lparr>req_Steps = [\<lparr>HandlerName = HandlerLogMessage, Payload = ''x''\<rparr>], req_ID = [], req_NotBefore = None\<rparr>"

lemma demo_log_known: "known_request demo_log_request"
  by (simp add: demo_log_request_def known_request_def app_handlers_def)

definition demo_left_ops :: "(sequential_allocator memory_store, unit) store_ops" where
  "demo_left_ops = (memory_ops SequentialAllocator_Next)\<lparr>ops_ListActive := \<lambda>_. Inr [newCell demo_log_request]\<rparr>"


definition demo_log_envelope :: envelope where
  "demo_log_envelope = \<lparr>env_FanoutName = LogMessageFanout, env_Payload = ''{}''\<rparr>"


end
