(* ===== verification/Lifecycle.thy ===== *)
theory Lifecycle
  imports App
begin

text \<open>
  The life of the application (app/app.go): \<open>New\<close> as the sequence of its calls, checks and opened resources,
  with the release of what is open on every failure; \<open>Run\<close> and \<open>RunAdminDeleteEvaluation\<close> as the sequences
  of their actions; \<open>Close\<close>.

  Which call fails is a parameter \<open>string \<Rightarrow> gerror option\<close>, by the name of the call.
\<close>

section \<open>Construction\<close>

text \<open>
  The part of \<open>Config\<close> that decides what \<open>New\<close> does. For the collaborators, which are interfaces, it counts
  only whether they are supplied.
\<close>

record app_config =
  cf_DBPath :: string
  cf_PollDelay :: go_duration
  cf_EnableFirestore :: bool
  cf_FirestoreProjectID :: string
  cf_EmailDailyLimit :: int
  cf_PushDailyLimit :: int
  cf_AdminDeleteEnabled :: bool
  cf_AdminDeleteDryRun :: bool
  cf_EnableRealAuthDelete :: bool
  cf_AdminDeleteEvaluateOnce :: bool
  cf_HTTPAddr :: string
  cf_AllowAuthEmulator :: bool
  cf_AllowedAPIOrigins :: "string list option"
  cf_AllowedAPIPreviewSites :: "string list"
  cf_supplied :: "string set"
  cf_ComponentChecks :: "gerror option option list"

definition EmailDailyLimit :: int where "EmailDailyLimit = 100"
definition PushDailyLimit :: int where "PushDailyLimit = 1000"

definition Millisecond :: go_duration where "Millisecond = 1000000"

definition withDefaults :: "app_config \<Rightarrow> app_config" where
  "withDefaults c =
     c\<lparr>cf_EmailDailyLimit := (if cf_EmailDailyLimit c = 0 then EmailDailyLimit else cf_EmailDailyLimit c),
       cf_PushDailyLimit := (if cf_PushDailyLimit c = 0 then PushDailyLimit else cf_PushDailyLimit c),
       cf_PollDelay := (if cf_PollDelay c \<le> 0 then 50 * Millisecond else cf_PollDelay c),
       cf_FirestoreProjectID := (if cf_EnableFirestore c \<and> cf_FirestoreProjectID c = '''' then ''last-orders-emulator''
                                 else cf_FirestoreProjectID c),
       cf_AllowedAPIOrigins := (if cf_HTTPAddr c \<noteq> '''' \<and> cf_AllowedAPIOrigins c = None
                                then Some [''http://localhost:3000'', ''http://127.0.0.1:3000''] else cf_AllowedAPIOrigins c)\<rparr>"

datatype resource = Database | BaseStore | FirestoreClient | HTTPListener

text \<open>
  A step of \<open>New\<close>: a check that may return an error, a call that may fail, a call that opens a resource, and
  the operations on the stack of clean-ups. The function of a call is applied to its error.
\<close>

datatype new_step =
    Guard "gerror option"
  | Invoke string "gerror \<Rightarrow> gerror"
  | Open string "gerror \<Rightarrow> gerror" resource
  | Cleanup_Add resource
  | NewCleanup

definition plain :: "gerror \<Rightarrow> gerror" where "plain e = e"
definition wrap :: "string \<Rightarrow> gerror \<Rightarrow> gerror" where "wrap m e = Wrapped e m"
definition check :: "bool \<Rightarrow> string \<Rightarrow> new_step" where "check b m = Guard (if b then Some (Err m) else None)"

text \<open>
  \<open>cleanupStack.Run\<close> and the steps with the deferred release: the result, what was opened, in order, and what
  the clean-ups released, in order. The stack holds the latest clean-up first.
\<close>

definition cleanup_Run :: "resource list \<Rightarrow> resource list" where
  "cleanup_Run stack = stack"

fun run_new :: "(string \<Rightarrow> gerror option) \<Rightarrow> new_step list \<Rightarrow> resource list \<Rightarrow> (gerror + unit) \<times> resource list \<times> resource list" where
  "run_new flt [] stack = (Inr (), [], [])"
| "run_new flt (Guard e # ss) stack =
     (case e of Some err \<Rightarrow> (Inl err, [], cleanup_Run stack) | None \<Rightarrow> run_new flt ss stack)"
| "run_new flt (Invoke f w # ss) stack =
     (case flt f of Some err \<Rightarrow> (Inl (w err), [], cleanup_Run stack) | None \<Rightarrow> run_new flt ss stack)"
| "run_new flt (Open f w r # ss) stack =
     (case flt f of
        Some err \<Rightarrow> (Inl (w err), [], cleanup_Run stack)
      | None \<Rightarrow> (case run_new flt ss stack of (res, opened, released) \<Rightarrow> (res, r # opened, released)))"
| "run_new flt (Cleanup_Add r # ss) stack = run_new flt ss (r # stack)"
| "run_new flt (NewCleanup # ss) stack = run_new flt ss []"

text \<open>The checks before anything is opened; \<open>emulator\<close> is the result of \<open>CheckEmulator\<close>.\<close>

definition validate_steps :: "gerror option \<Rightarrow> app_config \<Rightarrow> new_step list" where
  "validate_steps emulator c =
     [check (cf_DBPath c = '''') ''db path is required'',
      check (cf_EmailDailyLimit c < 0 \<or> cf_PushDailyLimit c < 0) ''daily send limits must be positive'',
      check (cf_AdminDeleteEvaluateOnce c \<and> \<not> cf_AdminDeleteEnabled c) ''admin-delete evaluation requires ENABLE_ADMIN_DELETE_REQUESTS''] @
     (if cf_HTTPAddr c \<noteq> ''''
      then Guard emulator # (if ''AuthVerifier'' \<in> cf_supplied c then [] else [Invoke ''firebaseauth.New'' plain])
      else [])"

definition open_steps :: "app_config \<Rightarrow> new_step list" where
  "open_steps c =
     [Open ''sql.Open'' (wrap ''open sqlite db'') Database, Cleanup_Add Database,
      Open ''basestore.New'' plain BaseStore, NewCleanup, Cleanup_Add BaseStore,
      Invoke ''publicsqlite.NewStore'' (wrap ''init cellar store'')] @
     (if cf_EnableFirestore c
      then [Open ''firestore.NewClient'' (wrap ''init firestore client'') FirestoreClient, Cleanup_Add FirestoreClient] else [])"

text \<open>A collaborator that is built from the Firestore client unless it is supplied.\<close>

definition required_source :: "app_config \<Rightarrow> string \<Rightarrow> string \<Rightarrow> string \<Rightarrow> (gerror \<Rightarrow> gerror) \<Rightarrow> new_step list" where
  "required_source c name msg f w =
     (if name \<in> cf_supplied c then [] else [check (\<not> cf_EnableFirestore c) msg, Invoke f w])"

definition projection_steps :: "app_config \<Rightarrow> new_step list" where
  "projection_steps c =
     [Invoke ''venuecache.New'' (wrap ''init venue cache store''),
      Invoke ''notificationprofile.New'' (wrap ''init notification profile store'')] @
     required_source c ''VenueSource'' ''venue source is required: supply Config.VenueSource or enable firestore''
       ''venuecache.NewFirestoreSource'' plain @
     [Invoke ''venuecache.NewService'' plain] @
     required_source c ''NotificationProfileSource''
       ''notification profile source is required: supply Config.NotificationProfileSource or enable firestore''
       ''notificationprofile.NewFirestoreSource'' plain @
     [Invoke ''notificationprofile.NewService'' plain] @
     required_source c ''RecurrenceService'' ''recurrence service is required: supply Config.RecurrenceService or enable firestore''
       ''recurrence.NewService'' (wrap ''init recurrence service'')"

definition plugin_steps :: "app_config \<Rightarrow> new_step list" where
  "plugin_steps c =
     (if ''Email.Tokens'' \<in> cf_supplied c then [] else [Invoke ''ratelimit.New email.send'' plain]) @
     (if ''Push.Tokens'' \<in> cf_supplied c then [] else [Invoke ''ratelimit.New push.send'' plain]) @
     [Invoke ''emailplugin.New'' (wrap ''init email plugin''), Invoke ''pushplugin.New'' (wrap ''init push plugin'')] @
     required_source c ''AutocompleteSource'' ''autocomplete source is required: supply Config.AutocompleteSource or enable firestore''
       ''autocompletesvc.NewFirestoreSource'' plain @
     required_source c ''EventVenueSource'' ''event venue source is required: supply Config.EventVenueSource or enable firestore''
       ''eventvenuelistener.NewFirestoreSource'' plain"

text \<open>The sources of polls and messages, which share the stored date from which polls are watched.\<close>

definition poll_source_steps :: "app_config \<Rightarrow> new_step list" where
  "poll_source_steps c =
     (if {''NewPollSource'', ''CompletedPollSource'', ''ChatMessageSource''} \<subseteq> cf_supplied c then []
      else [check (\<not> cf_EnableFirestore c) ''poll and chat message sources are required: supply them in Config or enable firestore'',
            Invoke ''listenerscope.NewFirestoreStore'' plain, Invoke ''ResolvePollsSince'' (wrap ''resolve polls since'')]) @
     (if ''NewPollSource'' \<in> cf_supplied c then [] else [Invoke ''newpolllistener.NewFirestoreSource'' plain]) @
     (if ''CompletedPollSource'' \<in> cf_supplied c then [] else [Invoke ''completedpolllistener.NewFirestoreSource'' plain]) @
     required_source c ''PushSources'' ''push sources are required: supply Config.PushSources or enable firestore''
       ''pushsources.NewFirestoreSource'' plain @
     (if ''ChatMessageSource'' \<in> cf_supplied c then []
      else [Invoke ''time.ParseInLocation'' (wrap ''parse polls since''), Invoke ''chatmessagelistener.NewFirestoreSource'' plain])"

definition request_source_steps :: "app_config \<Rightarrow> new_step list" where
  "request_source_steps c =
     required_source c ''PushTestSource'' ''push test source is required: supply Config.PushTestSource or enable firestore''
       ''pushtestlistener.NewFirestoreSource'' plain @
     required_source c ''NotificationMirrorSource''
       ''notification mirror source is required: supply Config.NotificationMirrorSource or enable firestore''
       ''notificationmirrorlistener.NewFirestoreSource'' plain @
     required_source c ''TestEmailSource'' ''test email source is required: supply Config.TestEmailSource or enable firestore''
       ''testemaillistener.NewFirestoreSource'' plain"

definition hasAdminSource :: "app_config \<Rightarrow> bool" where
  "hasAdminSource c \<longleftrightarrow> ''AdminDeleteSource'' \<in> cf_supplied c \<or> cf_EnableFirestore c"

definition hasAdminRepository :: "app_config \<Rightarrow> bool" where
  "hasAdminRepository c \<longleftrightarrow> ''AdminDeleteRepository'' \<in> cf_supplied c \<or> cf_EnableFirestore c"

text \<open>The client that can delete accounts is built only when real deletion is asked for in all three settings.\<close>

definition admin_steps :: "app_config \<Rightarrow> new_step list" where
  "admin_steps c =
     (if ''AdminDeleteSource'' \<notin> cf_supplied c \<and> cf_EnableFirestore c
      then [Invoke ''admindeletelistener.NewFirestoreSource'' plain] else []) @
     (if ''AdminDeleteRepository'' \<notin> cf_supplied c \<and> cf_EnableFirestore c
      then [Invoke ''admindeletesvc.NewFirestoreRepository'' plain] else []) @
     [check (cf_AdminDeleteEnabled c \<and> \<not> hasAdminSource c) ''admin-delete source is required when admin delete is enabled'',
      check (cf_AdminDeleteEnabled c \<and> \<not> hasAdminRepository c) ''admin-delete repository is required when admin delete is enabled''] @
     (if hasAdminRepository c
      then (if cf_AdminDeleteEnabled c \<and> \<not> cf_AdminDeleteDryRun c \<and> cf_EnableRealAuthDelete c \<and>
               ''AdminDeleteAuthClient'' \<notin> cf_supplied c
            then [Invoke ''admindeletesvc.NewFirebaseAuthClient'' plain] else []) @
           [Invoke ''admindeletesvc.New'' plain]
      else [])"

definition store_steps :: "app_config \<Rightarrow> new_step list" where
  "store_steps c =
     (if ''TestEmailTokens'' \<in> cf_supplied c then [] else [Invoke ''ratelimit.New email.test'' plain]) @
     required_source c ''IdempotencyRemote'' ''idempotency remote is required: enable firestore or supply Config.IdempotencyRemote''
       ''firebaseidempotency.NewFirestoreRemote'' plain @
     required_source c ''CompletionActions'' ''completion actions are required: enable firestore or supply Config.CompletionActions''
       ''completionactions.NewFirestoreStore'' plain @
     [Invoke ''firebaseidempotency.New'' plain, Invoke ''idempotency.New'' plain] @
     map (\<lambda>e. Guard (map_option (wrap ''startup component check failed'') e)) (map the (filter (\<lambda>k. k \<noteq> None) (cf_ComponentChecks c)))"

text \<open>
  The registrations, whose errors are parameters here (\<open>app_register\<close> in the theory App): the handlers, then
  each timer after the listener it belongs to; then the other listeners.
\<close>

definition listener_steps :: "gerror option \<Rightarrow> gerror option \<Rightarrow> gerror option \<Rightarrow> app_config \<Rightarrow> new_step list" where
  "listener_steps handlers dailyTimer reevaluateTimer c =
     [Guard handlers, Invoke ''autocompletelistener.New'' plain, Guard dailyTimer,
      Invoke ''eventvenuelistener.New'' plain, Guard reevaluateTimer,
      Invoke ''newpolllistener.New'' plain, Invoke ''completedpolllistener.New'' plain] @
     (if hasAdminSource c then [Invoke ''admindeletelistener.New'' plain] else []) @
     map (\<lambda>f. Invoke f plain)
       [''chatmessagelistener.New'', ''pushtestlistener.New'', ''testemaillistener.New'', ''notificationmirrorlistener.New'',
        ''venuecachelistener.New'', ''notificationprofilelistener.New'']"

text \<open>\<open>cors\<close> is the error of \<open>apicors.Wrap\<close>.\<close>

definition http_steps :: "gerror option \<Rightarrow> app_config \<Rightarrow> new_step list" where
  "http_steps cors c =
     (if cf_HTTPAddr c \<noteq> ''''
      then [Guard cors, Open ''net.Listen'' (wrap (''listen on '' @ cf_HTTPAddr c)) HTTPListener, Cleanup_Add HTTPListener] else [])"

definition app_New ::
  "(string \<Rightarrow> gerror option) \<Rightarrow> gerror option \<Rightarrow> gerror option \<Rightarrow> gerror option \<Rightarrow> gerror option \<Rightarrow> gerror option \<Rightarrow> app_config \<Rightarrow>
     (gerror + unit) \<times> resource list \<times> resource list" where
  "app_New flt emulator handlers dailyTimer reevaluateTimer cors config =
     (let c = withDefaults config in
      run_new flt (validate_steps emulator config @ open_steps c @ projection_steps c @ plugin_steps c @ poll_source_steps c @
                   request_source_steps c @ admin_steps c @ store_steps c @
                   listener_steps handlers dailyTimer reevaluateTimer c @ http_steps cors c) [])"

section \<open>Nothing stays open after a failure\<close>

fun pure_step :: "new_step \<Rightarrow> bool" where
  "pure_step (Guard e) = True"
| "pure_step (Invoke f w) = True"
| "pure_step (Open f w r) = False"
| "pure_step (Cleanup_Add r) = False"
| "pure_step NewCleanup = False"

lemma run_new_pure:
  "list_all pure_step ps \<Longrightarrow>
     (\<exists>e. run_new flt (ps @ ss) st = (Inl e, [], st)) \<or> run_new flt (ps @ ss) st = run_new flt ss st"
proof (induction ps)
  case (Cons p ps)
  then show ?case by (cases p) (auto simp: cleanup_Run_def split: option.splits)
qed simp

lemma pure_required [simp]: "list_all pure_step (required_source c n m f w)"
  by (simp add: required_source_def check_def)

lemma pure_steps [simp]:
  "list_all pure_step (validate_steps em c)" "list_all pure_step (projection_steps c)" "list_all pure_step (plugin_steps c)"
  "list_all pure_step (poll_source_steps c)" "list_all pure_step (request_source_steps c)" "list_all pure_step (admin_steps c)"
  "list_all pure_step (store_steps c)" "list_all pure_step (listener_steps h d r c)"
  by (simp_all add: validate_steps_def projection_steps_def plugin_steps_def poll_source_steps_def request_source_steps_def
      admin_steps_def store_steps_def listener_steps_def check_def list.pred_map o_def list.pred_True)

text \<open>Closing the base store closes the database.\<close>

definition open_owners :: "resource list \<Rightarrow> resource list" where
  "open_owners rs = (if BaseStore \<in> set rs then removeAll Database rs else rs)"

text \<open>
  C13: when building the application fails, at whatever call, everything opened until then is released exactly
  once, in the reverse order; when it succeeds nothing is released.
\<close>

theorem new_releases_on_failure:
  assumes "app_New flt emulator handlers dailyTimer reevaluateTimer cors config = (res, opened, released)"
  shows "case res of Inl e \<Rightarrow> released = rev (open_owners opened) \<and> distinct released | Inr _ \<Rightarrow> released = []"
proof -
  define c where "c = withDefaults config"
  define middle where "middle = projection_steps c @ plugin_steps c @ poll_source_steps c @ request_source_steps c @
    admin_steps c @ store_steps c @ listener_steps handlers dailyTimer reevaluateTimer c"
  have m: "list_all pure_step middle" by (simp add: middle_def)
  let ?last = "http_steps cors c"
  have run: "run_new flt (validate_steps emulator config @ open_steps c @ middle @ ?last) [] = (res, opened, released)"
    using assms by (simp add: app_New_def c_def middle_def Let_def)
  have tail: "(\<exists>e. res = Inl e) \<and> opened = [] \<and> released = st \<or> res = Inr () \<and> released = []"
    if "run_new flt (middle @ ?last) st = (res, opened, released)" for st opened
    using run_new_pure [OF m, of flt ?last st] that
    by (auto simp: http_steps_def cleanup_Run_def split: if_splits option.splits prod.splits)
  from run_new_pure [OF pure_steps(1), of flt emulator config "open_steps c @ middle @ ?last" "[]"] run
  consider (refused) e where "res = Inl e" "opened = []" "released = []"
    | (open_db) "run_new flt (open_steps c @ middle @ ?last) [] = (res, opened, released)"
    by auto
  then show ?thesis
  proof cases
    case refused
    then show ?thesis by (simp add: open_owners_def)
  next
    case open_db
    then show ?thesis
      by (auto dest!: tail simp: open_steps_def cleanup_Run_def open_owners_def wrap_def plain_def
          split: if_splits option.splits prod.splits sum.splits)
  qed
qed

section \<open>Running\<close>

datatype component =
    Diagnostics | NotificationProfile | VenueCache | EventVenues | NewPolls | CompletedPolls | AdminDeletes
  | ChatMessages | PushTests | TestEmails | NotificationMirror

datatype action =
    Recover_submissions
  | Start_component component
  | Projection_ready component
  | Start_cellar
  | Serve_http
  | Shutdown_http
  | Cancel_run
  | Close_component component
  | Stop_cellar
  | Await_cellar
  | Evaluate_requests
  | Await_outcomes
  | Await_run
  | Close_firestore
  | Close_base_store

text \<open>The parts of the application that may be missing.\<close>

record app_state =
  as_baseStore :: bool
  as_evaluateOnce :: bool
  as_diagnostics :: bool
  as_eventVenues :: bool
  as_newPolls :: bool
  as_completedPolls :: bool
  as_adminDelete :: bool
  as_http :: bool
  as_firestore :: bool

text \<open>
  What the environment decides: which starts fail; for each of the two waits for a projection, whether it became
  ready or what ended the wait; and what ends the run.
\<close>

datatype ready_event = ProjectionReady | ProfileFailed gerror | VenueCacheFailed gerror | RunCancelled
datatype end_event = ContextDone | ProfileError gerror | VenueCacheError gerror | CellarStopped "gerror option"

record run_events =
  re_recover :: "gerror option"
  re_start :: "component \<Rightarrow> gerror option"
  re_ready :: "component \<Rightarrow> ready_event"
  re_end :: end_event

definition shutdownHTTP :: "app_state \<Rightarrow> action list" where
  "shutdownHTTP a = (if as_http a then [Shutdown_http] else [])"

text \<open>\<open>closeListeners\<close>: every listener is closed, whatever the others return.\<close>

definition closed_components :: "app_state \<Rightarrow> component list" where
  "closed_components a =
     (if as_diagnostics a then [Diagnostics] else []) @ (if as_eventVenues a then [EventVenues] else []) @
     (if as_newPolls a then [NewPolls] else []) @ (if as_completedPolls a then [CompletedPolls] else []) @
     (if as_adminDelete a then [AdminDeletes] else []) @
     [ChatMessages, PushTests, TestEmails, NotificationMirror, VenueCache, NotificationProfile]"

fun errors_Join :: "gerror option list \<Rightarrow> gerror option" where
  "errors_Join [] = None"
| "errors_Join (None # es) = errors_Join es"
| "errors_Join (Some e # es) = (case errors_Join es of None \<Rightarrow> Some e | Some r \<Rightarrow> Some (Joined e r))"

definition closeListeners :: "(component \<Rightarrow> gerror option) \<Rightarrow> app_state \<Rightarrow> gerror option \<times> action list" where
  "closeListeners closeErr a =
     (errors_Join (map closeErr (closed_components a)), map Close_component (closed_components a))"

text \<open>The deferred function of \<open>Run\<close>; \<open>started\<close> says whether the goroutine of the runtime was started.\<close>

definition run_cleanup :: "app_state \<Rightarrow> bool \<Rightarrow> action list" where
  "run_cleanup a started =
     shutdownHTTP a @ [Cancel_run] @ snd (closeListeners (\<lambda>_. None) a) @
     (if started then [Stop_cellar, Await_cellar] else [])"

text \<open>Starting components in order, each with the text its error is wrapped with.\<close>

fun start_components ::
  "run_events \<Rightarrow> (component \<times> string) list \<Rightarrow> gerror option \<times> action list" where
  "start_components ev [] = (None, [])"
| "start_components ev ((c, m) # cs) =
     (case re_start ev c of
        Some e \<Rightarrow> (Some (Wrapped e m), [Start_component c])
      | None \<Rightarrow> (case start_components ev cs of (err, tr) \<Rightarrow> (err, Start_component c # tr)))"

text \<open>Waiting for the projections. \<open>Some None\<close> is the return of nil when the context is cancelled.\<close>

fun await_projections :: "run_events \<Rightarrow> component list \<Rightarrow> gerror option option \<times> action list" where
  "await_projections ev [] = (None, [])"
| "await_projections ev (c # cs) =
     (case re_ready ev c of
        ProjectionReady \<Rightarrow> (case await_projections ev cs of (r, tr) \<Rightarrow> (r, Projection_ready c # tr))
      | ProfileFailed e \<Rightarrow> (Some (Some (Wrapped e ''notification profile projection failed'')), [])
      | VenueCacheFailed e \<Rightarrow> (Some (Some (Wrapped e ''venue cache projection failed'')), [])
      | RunCancelled \<Rightarrow> (Some None, []))"

definition projections :: "component list" where "projections = [NotificationProfile, VenueCache]"

definition observers :: "app_state \<Rightarrow> (component \<times> string) list" where
  "observers a =
     (if as_eventVenues a then [(EventVenues, ''start event venue listener'')] else []) @
     (if as_newPolls a then [(NewPolls, ''start new poll listener'')] else []) @
     (if as_completedPolls a then [(CompletedPolls, ''start completed poll listener'')] else []) @
     (if as_adminDelete a then [(AdminDeletes, ''start admin-delete listener'')] else []) @
     [(ChatMessages, ''start chat message listener''), (PushTests, ''start push test listener''),
      (TestEmails, ''start test email listener''), (NotificationMirror, ''start notification mirror listener'')]"

definition end_error :: "end_event \<Rightarrow> gerror option" where
  "end_error ev =
     (case ev of
        ContextDone \<Rightarrow> None
      | ProfileError e \<Rightarrow> Some (Wrapped e ''notification profile projection failed'')
      | VenueCacheError e \<Rightarrow> Some (Wrapped e ''venue cache projection failed'')
      | CellarStopped e \<Rightarrow> map_option (\<lambda>e. Wrapped e ''run cellar'') e)"

text \<open>The part of \<open>Run\<close> under the deferred clean-up: its result, its actions, whether the runtime was started.\<close>

definition run_body :: "app_state \<Rightarrow> run_events \<Rightarrow> gerror option \<times> action list \<times> bool" where
  "run_body a ev =
     (case start_components ev
             ((if as_diagnostics a then [(Diagnostics, ''start diagnostics configuration'')] else []) @
              map (\<lambda>c. (c, ''start projection listener'')) projections) of
        (Some e, tr) \<Rightarrow> (Some e, tr, False)
      | (None, tr) \<Rightarrow>
          (case await_projections ev projections of
             (Some r, tr1) \<Rightarrow> (r, tr @ tr1, False)
           | (None, tr1) \<Rightarrow>
               (case start_components ev (observers a) of
                  (Some e, tr2) \<Rightarrow> (Some e, tr @ tr1 @ Start_cellar # tr2, True)
                | (None, tr2) \<Rightarrow>
                    (end_error (re_end ev), tr @ tr1 @ Start_cellar # tr2 @ (if as_http a then [Serve_http] else []), True))))"

text \<open>
  \<open>RunAdminDeleteEvaluation\<close>: the results of \<open>RunOnce\<close>, of the wait for the outcomes and of the runtime are
  parameters.
\<close>

definition RunAdminDeleteEvaluation ::
  "app_state \<Rightarrow> gerror + string list \<Rightarrow> gerror option \<Rightarrow> gerror option \<Rightarrow> gerror option \<times> action list" where
  "RunAdminDeleteEvaluation a requests waitErr cellarErr =
     (if \<not> as_baseStore a then (Some (Err ''app is not initialised''), [])
      else if \<not> as_adminDelete a then (Some (Err ''admin-delete listener is not configured''), [])
      else case requests of
        Inl e \<Rightarrow> (Some (Wrapped e ''evaluate pending admin-delete requests''), [Evaluate_requests])
      | Inr ids \<Rightarrow>
          if length ids = 0 then (None, [Evaluate_requests])
          else ((case cellarErr of
                   Some e \<Rightarrow> Some (Wrapped e ''run Cellar for admin-delete evaluation'')
                 | None \<Rightarrow> map_option (\<lambda>e. Wrapped e ''wait for admin-delete request outcomes'') waitErr),
                [Evaluate_requests, Start_cellar, Await_outcomes, Cancel_run, Await_cellar]))"

definition app_Run ::
  "app_state \<Rightarrow> run_events \<Rightarrow> gerror + string list \<Rightarrow> gerror option \<Rightarrow> gerror option \<Rightarrow> gerror option \<times> action list" where
  "app_Run a ev requests waitErr cellarErr =
     (if \<not> as_baseStore a then (Some (Err ''app is not initialised''), [])
      else if as_evaluateOnce a then RunAdminDeleteEvaluation a requests waitErr cellarErr
      else case re_recover ev of
        Some e \<Rightarrow> (Some (Wrapped e ''recover email submissions''), [Recover_submissions])
      | None \<Rightarrow>
          (case run_body a ev of
             (err, tr, started) \<Rightarrow> (err, Recover_submissions # tr @ run_cleanup a started)))"

text \<open>
  \<open>Close\<close>: \<open>running\<close> says whether a run is in progress, whose own clean-up it then waits for.
\<close>

definition app_Close ::
  "app_state \<Rightarrow> bool \<Rightarrow> gerror option \<Rightarrow> gerror option \<Rightarrow> gerror option \<times> action list" where
  "app_Close a running firestoreErr baseErr =
     (let tr = shutdownHTTP a @
          (if running then [Cancel_run, Stop_cellar, Await_run] else snd (closeListeners (\<lambda>_. None) a))
      in if \<not> as_baseStore a then (None, tr)
         else (errors_Join ((if as_firestore a then [firestoreErr] else []) @ [baseErr]),
               tr @ (if as_firestore a then [Close_firestore] else []) @ [Close_base_store]))"

text \<open>\<open>AddCell\<close> of the application, which the log endpoint uses.\<close>

definition app_AddCell :: "('s, 'db) store_ops \<Rightarrow> go_time \<Rightarrow> cell_request \<Rightarrow> 's \<Rightarrow> gerror option \<times> 's" where
  "app_AddCell ops now request s =
     (case ops_Add ops now [request] s of (Inl e, s1) \<Rightarrow> (Some e, s1) | (Inr _, s1) \<Rightarrow> (None, s1))"

definition sqliteDSN :: "string \<Rightarrow> string" where
  "sqliteDSN path = path @ ''?_pragma=busy_timeout(5000)&_pragma=journal_mode(WAL)&_txlock=immediate''"

section \<open>What precedes the runtime, and what follows\<close>

lemma start_components_trace:
  assumes "start_components ev cs = (err, tr)"
  shows "set tr \<subseteq> (\<lambda>c. Start_component (fst c)) ` set cs" "err = None \<Longrightarrow> tr = map (\<lambda>c. Start_component (fst c)) cs"
    "(\<exists>e. err = Some e) \<Longrightarrow> tr \<noteq> []"
proof -
  have "set tr \<subseteq> (\<lambda>c. Start_component (fst c)) ` set cs \<and> (err = None \<longrightarrow> tr = map (\<lambda>c. Start_component (fst c)) cs) \<and>
    ((\<exists>e. err = Some e) \<longrightarrow> tr \<noteq> [])"
    using assms
  proof (induction cs arbitrary: tr)
    case (Cons c cs)
    obtain d m where "c = (d, m)" by fastforce
    with Cons show ?case by (auto split: option.splits prod.splits)
  qed simp
  then show "set tr \<subseteq> (\<lambda>c. Start_component (fst c)) ` set cs" "err = None \<Longrightarrow> tr = map (\<lambda>c. Start_component (fst c)) cs"
    "(\<exists>e. err = Some e) \<Longrightarrow> tr \<noteq> []" by auto
qed

lemma await_projections_trace:
  assumes "await_projections ev cs = (r, tr)"
  shows "set tr \<subseteq> Projection_ready ` set cs" "r = None \<Longrightarrow> tr = map Projection_ready cs"
proof -
  have "set tr \<subseteq> Projection_ready ` set cs \<and> (r = None \<longrightarrow> tr = map Projection_ready cs)"
    using assms by (induction cs arbitrary: tr) (auto split: ready_event.splits prod.splits)
  then show "set tr \<subseteq> Projection_ready ` set cs" "r = None \<Longrightarrow> tr = map Projection_ready cs" by auto
qed

lemma run_body_trace:
  assumes "run_body a ev = (err, tr, started)"
  obtains (early) pre where "tr = pre" "\<not> started" "set pre \<subseteq> Start_component ` set ((if as_diagnostics a then [Diagnostics] else []) @ projections) \<union> Projection_ready ` set projections"
  | (running) post where "started"
      "tr = map Start_component ((if as_diagnostics a then [Diagnostics] else []) @ projections) @ map Projection_ready projections @ Start_cellar # post"
      "Start_cellar \<notin> set post" "set post \<subseteq> (if as_http a then {Serve_http} else {}) \<union> Start_component ` fst ` set (observers a)"
proof -
  let ?first = "(if as_diagnostics a then [(Diagnostics, ''start diagnostics configuration'')] else []) @
    map (\<lambda>c. (c, ''start projection listener'')) projections"
  obtain e1 tr1 where s1: "start_components ev ?first = (e1, tr1)" by fastforce
  obtain r2 tr2 where s2: "await_projections ev projections = (r2, tr2)" by fastforce
  obtain e3 tr3 where s3: "start_components ev (observers a) = (e3, tr3)" by fastforce
  note t1 = start_components_trace [OF s1] and t2 = await_projections_trace [OF s2] and t3 = start_components_trace [OF s3]
  have one: "set tr1 \<subseteq> Start_component ` set ((if as_diagnostics a then [Diagnostics] else []) @ projections)"
    using t1(1) by (auto simp: image_image)
  have three: "Start_cellar \<notin> set tr3" "set tr3 \<subseteq> Start_component ` fst ` set (observers a)" using t3(1) by (auto simp: image_image)
  have body: "run_body a ev =
    (case (e1, tr1) of
       (Some e, tr) \<Rightarrow> (Some e, tr, False)
     | (None, tr) \<Rightarrow> (case (r2, tr2) of
          (Some r, tr1) \<Rightarrow> (r, tr @ tr1, False)
        | (None, tr1) \<Rightarrow> (case (e3, tr3) of
             (Some e, tr2) \<Rightarrow> (Some e, tr @ tr1 @ Start_cellar # tr2, True)
           | (None, tr2) \<Rightarrow> (end_error (re_end ev), tr @ tr1 @ Start_cellar # tr2 @ (if as_http a then [Serve_http] else []), True))))"
    by (simp only: run_body_def s1 s2 s3)
  show thesis
  proof (cases "e1 = None \<and> r2 = None")
    case True
    then have p: "tr1 @ tr2 = map Start_component ((if as_diagnostics a then [Diagnostics] else []) @ projections) @ map Projection_ready projections"
      using t1(2) t2(2) by (simp add: o_def)
    have "\<exists>post. started \<and> tr = (tr1 @ tr2) @ Start_cellar # post \<and> Start_cellar \<notin> set post \<and>
        set post \<subseteq> (if as_http a then {Serve_http} else {}) \<union> Start_component ` fst ` set (observers a)"
      using assms body True three by (auto split: option.splits if_splits)
    then show thesis using running unfolding p append_assoc by blast
  next
    case False
    then show thesis
      using assms body one t2(1) by (intro early [of tr]) (auto split: option.splits)
  qed
qed


text \<open>
  C12: however a run ends, every component it started is closed afterwards, requests over HTTP are refused before
  the runtime stops, and the run does not return before the goroutine of the runtime has.
\<close>

theorem run_stops_what_it_started:
  assumes "app_Run a ev requests waitErr cellarErr = (err, tr)" "\<not> as_evaluateOnce a" "as_baseStore a" "re_recover ev = None"
  shows "\<exists>body. tr = body @ shutdownHTTP a @ Cancel_run # map Close_component (closed_components a) @
        (if Start_cellar \<in> set body then [Stop_cellar, Await_cellar] else []) \<and>
     (\<forall>c. Start_component c \<in> set body \<longrightarrow> c \<in> set (closed_components a)) \<and>
     (Serve_http \<in> set body \<longrightarrow> shutdownHTTP a = [Shutdown_http]) \<and>
     (\<forall>c. Close_component c \<notin> set body) \<and> Stop_cellar \<notin> set body"
proof -
  obtain body started where b: "run_body a ev = (err, body, started)" "tr = Recover_submissions # body @ run_cleanup a started"
    using assms by (auto simp: app_Run_def split: prod.splits)
  have obs: "fst ` set (observers a) \<subseteq> set (closed_components a)"
    by (auto simp: observers_def closed_components_def)
  have body: "(started \<longleftrightarrow> Start_cellar \<in> set body) \<and>
      set body \<subseteq> {Start_cellar, Serve_http} \<union> Start_component ` set (closed_components a) \<union> Projection_ready ` set projections \<and>
      (Serve_http \<in> set body \<longrightarrow> as_http a)"
    using b(1)
  proof (cases rule: run_body_trace)
    case (early pre)
    then show ?thesis by (auto simp: closed_components_def projections_def split: if_splits)
  next
    case (running post)
    then have "set post \<subseteq> (if as_http a then {Serve_http} else {}) \<union> Start_component ` set (closed_components a)"
      using obs by blast
    with running(1,2) show ?thesis by (auto simp: closed_components_def projections_def split: if_splits)
  qed
  have "tr = (Recover_submissions # body) @ shutdownHTTP a @ Cancel_run # map Close_component (closed_components a) @
        (if Start_cellar \<in> set (Recover_submissions # body) then [Stop_cellar, Await_cellar] else [])"
    using body by (simp add: b(2) run_cleanup_def closeListeners_def)
  moreover have "\<forall>c. Start_component c \<in> set (Recover_submissions # body) \<longrightarrow> c \<in> set (closed_components a)"
    "\<forall>c. Close_component c \<notin> set (Recover_submissions # body)" "Stop_cellar \<notin> set (Recover_submissions # body)"
    using body by auto
  moreover have "Serve_http \<in> set (Recover_submissions # body) \<longrightarrow> shutdownHTTP a = [Shutdown_http]"
    using body by (simp add: shutdownHTTP_def)
  ultimately show ?thesis by blast
qed

text \<open>
  An evaluation of deletion requests starts the runtime, with all its handlers, without any of this: submissions
  are not recovered and the projections are not read, although \<open>Run\<close> says that both must precede the runtime.
\<close>

lemma evaluation_skips_preparation:
  assumes "as_baseStore a" "as_evaluateOnce a" "as_adminDelete a" "ids \<noteq> []" "app_Run a ev (Inr ids) w e = (err, tr)"
  shows "Start_cellar \<in> set tr \<and> Recover_submissions \<notin> set tr \<and> Projection_ready p \<notin> set tr \<and> Start_component d \<notin> set tr"
  using assms by (auto simp: app_Run_def RunAdminDeleteEvaluation_def)

section \<open>An example\<close>

definition demo_config :: app_config where
  "demo_config = \<lparr>cf_DBPath = ''x.db'', cf_PollDelay = 0, cf_EnableFirestore = True, cf_FirestoreProjectID = [],
     cf_EmailDailyLimit = 0, cf_PushDailyLimit = 0, cf_AdminDeleteEnabled = False, cf_AdminDeleteDryRun = True,
     cf_EnableRealAuthDelete = False, cf_AdminDeleteEvaluateOnce = False, cf_HTTPAddr = [], cf_AllowAuthEmulator = False,
     cf_AllowedAPIOrigins = None, cf_AllowedAPIPreviewSites = [], cf_supplied = {}, cf_ComponentChecks = []\<rparr>"

definition demo_fault :: "string \<Rightarrow> gerror option" where
  "demo_fault f = (if f = ''venuecache.New'' then Some (Err ''disk full'') else None)"

lemma demo_New:
  "app_New demo_fault None None None None None demo_config =
     (Inl (Wrapped (Err ''disk full'') ''init venue cache store''), [Database, BaseStore, FirestoreClient], [FirestoreClient, BaseStore])"
  by (simp add: app_New_def withDefaults_def demo_config_def validate_steps_def open_steps_def projection_steps_def check_def
      demo_fault_def plain_def wrap_def cleanup_Run_def)

theorem new_releases_on_failure_witness:
  "\<exists>res opened released. app_New demo_fault None None None None None demo_config = (res, opened, released) \<and>
     opened = [Database, BaseStore, FirestoreClient] \<and> released = rev (open_owners opened) \<and> distinct released"
  using new_releases_on_failure [OF demo_New] by (simp add: demo_New open_owners_def)

definition demo_state :: app_state where
  "demo_state = \<lparr>as_baseStore = True, as_evaluateOnce = False, as_diagnostics = True, as_eventVenues = True, as_newPolls = True,
     as_completedPolls = True, as_adminDelete = False, as_http = True, as_firestore = True\<rparr>"

definition demo_events :: run_events where
  "demo_events = \<lparr>re_recover = None, re_start = (\<lambda>c. if c = EventVenues then Some (Err ''no stream'') else None),
     re_ready = (\<lambda>c. ProjectionReady), re_end = ContextDone\<rparr>"

lemma demo_Run:
  "app_Run demo_state demo_events (Inr []) None None =
     (Some (Wrapped (Err ''no stream'') ''start event venue listener''),
      [Recover_submissions, Start_component Diagnostics, Start_component NotificationProfile, Start_component VenueCache,
       Projection_ready NotificationProfile, Projection_ready VenueCache] @ Start_cellar #
      Start_component EventVenues # run_cleanup demo_state True)"
  by (simp add: app_Run_def run_body_def demo_state_def demo_events_def projections_def observers_def)


theorem run_stops_what_it_started_witness:
  "\<exists>err tr body. app_Run demo_state demo_events (Inr []) None None = (err, tr) \<and>
     tr = body @ shutdownHTTP demo_state @ Cancel_run # map Close_component (closed_components demo_state) @
        (if Start_cellar \<in> set body then [Stop_cellar, Await_cellar] else [])"
proof -
  have "\<not> as_evaluateOnce demo_state" "as_baseStore demo_state" "re_recover demo_events = None"
    by (simp_all add: demo_state_def demo_events_def)
  from run_stops_what_it_started [OF demo_Run this] demo_Run show ?thesis by blast
qed

end
