(* ===== verification/Commands.thy ===== *)
theory Commands
  imports Lifecycle
begin

text \<open>
  The commands: cmd/last-orders (main.go, credentials.go), which reads the environment, may delete the local
  database and runs the application, and cmd/cellar/main.go, which prints the cells of a store.

  The environment is a function \<open>lookup\<close>; the file system is a map from paths to whether the file is regular.
  The flag parser, keys and certificates, JSON and times are parameters.
\<close>

section \<open>Values of the environment\<close>

definition os_Getenv :: "(string \<rightharpoonup> string) \<Rightarrow> string \<Rightarrow> string" where
  "os_Getenv lookup name = (case lookup name of None \<Rightarrow> '''' | Some v \<Rightarrow> v)"

text \<open>\<open>strconv.ParseBool\<close> and \<open>strconv.ParseInt(s, 10, 64)\<close>, which is also \<open>strconv.Atoi\<close>.\<close>

definition ParseBool :: "string \<Rightarrow> bool option" where
  "ParseBool s =
     (if s \<in> {''1'', ''t'', ''T'', ''TRUE'', ''true'', ''True''} then Some True
      else if s \<in> {''0'', ''f'', ''F'', ''FALSE'', ''false'', ''False''} then Some False
      else None)"

definition parse_digits :: "string \<Rightarrow> nat option" where
  "parse_digits s = (if s \<noteq> '''' \<and> list_all isDigit s then Some (atoi 0 s) else None)"

definition ParseInt :: "string \<Rightarrow> int option" where
  "ParseInt s =
     (let (negative, digits) = (case s of
            c # cs \<Rightarrow> if c = CHR ''-'' then (True, cs) else if c = CHR ''+'' then (False, cs) else (False, s)
          | [] \<Rightarrow> (False, s))
      in case parse_digits digits of
           None \<Rightarrow> None
         | Some n \<Rightarrow>
             (let v = (if negative then - int n else int n) in
              if - (2 ^ 63) \<le> v \<and> v < 2 ^ 63 then Some v else None))"

definition boolFromEnv :: "string \<Rightarrow> bool \<Rightarrow> (string \<rightharpoonup> string) \<Rightarrow> gerror + bool" where
  "boolFromEnv name fallback lookup =
     (case lookup name of
        None \<Rightarrow> Inr fallback
      | Some raw \<Rightarrow>
          (case ParseBool (TrimSpace raw) of
             None \<Rightarrow> Inl (Err (name @ '' must be a boolean''))
           | Some v \<Rightarrow> Inr v))"

definition dailyLimitFromEnv :: "string \<Rightarrow> int \<Rightarrow> (string \<rightharpoonup> string) \<Rightarrow> gerror + int" where
  "dailyLimitFromEnv name fallback lookup =
     (case lookup name of
        None \<Rightarrow> Inr fallback
      | Some raw \<Rightarrow>
          (case ParseInt (TrimSpace raw) of
             None \<Rightarrow> Inl (Err (name @ '' must be a positive integer''))
           | Some maximum \<Rightarrow> if maximum \<le> 0 then Inl (Err (name @ '' must be a positive integer'')) else Inr maximum))"

record email_options =
  eo_Client :: string
  eo_MailtrapToken :: string
  eo_MailtrapSandboxToken :: string
  eo_MailtrapSandboxID :: int
  eo_SweegoToken :: string
  eo_SweegoProvider :: string
  eo_SweegoBaseURL :: string

definition dummy_options :: email_options where
  "dummy_options =
     \<lparr>eo_Client = ClientDummy, eo_MailtrapToken = '''', eo_MailtrapSandboxToken = '''', eo_MailtrapSandboxID = 0,
      eo_SweegoToken = '''', eo_SweegoProvider = '''', eo_SweegoBaseURL = ''''\<rparr>"

definition emailOptionsFromEnv :: "(string \<Rightarrow> string) \<Rightarrow> gerror + email_options" where
  "emailOptionsFromEnv getenv =
     (let mailtrapToken = TrimSpace (getenv ''MAILTRAP_TOKEN'');
          sweegoToken = TrimSpace (getenv ''SWEEGO_TOKEN'');
          sweegoProvider = TrimSpace (getenv ''SWEEGO_PROVIDER'')
      in if mailtrapToken \<noteq> '''' \<and> sweegoToken \<noteq> ''''
         then Inl (Err ''MAILTRAP_TOKEN and SWEEGO_TOKEN are mutually exclusive'')
         else if mailtrapToken \<noteq> ''''
         then (let options = dummy_options\<lparr>eo_Client := ClientMailtrap, eo_MailtrapToken := mailtrapToken,
                     eo_MailtrapSandboxToken := TrimSpace (getenv ''MAILTRAP_SANDBOX_TOKEN'')\<rparr>;
                   raw = TrimSpace (getenv ''MAILTRAP_SANDBOX_ID'')
               in if raw = '''' then Inr options
                  else case ParseInt raw of
                    None \<Rightarrow> Inl (Err ''MAILTRAP_SANDBOX_ID must be a positive integer'')
                  | Some inboxID \<Rightarrow>
                      if inboxID \<le> 0 then Inl (Err ''MAILTRAP_SANDBOX_ID must be a positive integer'')
                      else Inr (options\<lparr>eo_MailtrapSandboxID := inboxID\<rparr>))
         else if sweegoToken \<noteq> '''' \<or> sweegoProvider \<noteq> ''''
         then Inr (dummy_options\<lparr>eo_Client := ClientSweego, eo_SweegoToken := sweegoToken, eo_SweegoProvider := sweegoProvider,
                     eo_SweegoBaseURL := getenv ''SWEEGO_BASE_URL''\<rparr>)
         else Inr dummy_options)"

text \<open>The parts of a list separated by commas, trimmed, without the empty ones.\<close>

definition commaList :: "string \<Rightarrow> string list" where
  "commaList s = filter (\<lambda>p. p \<noteq> '''') (map TrimSpace (splitOn (CHR '','') [] s))"

definition allowedOrigins :: "(string \<rightharpoonup> string) \<Rightarrow> string list option" where
  "allowedOrigins lookup = map_option commaList (lookup ''LAST_ORDERS_ALLOWED_ORIGINS'')"

section \<open>Firebase\<close>

record service_account =
  sa_Type :: string
  sa_ProjectID :: string
  sa_ClientEmail :: string
  sa_PrivateKey :: string

record firebase_configuration =
  fb_credentials :: "string option"
  fb_firestoreProjectID :: string
  fb_authProjectID :: string

definition DetectProjectID :: string where "DetectProjectID = ''*detect-project-id*''"

text \<open>
  \<open>isRSA\<close> says whether a private key is a PEM block with an RSA key in one of the two formats; \<open>credentials\<close>
  makes the credentials of the account.
\<close>

definition firebaseCredentials ::
  "(string \<Rightarrow> gerror + service_account) \<Rightarrow> (string \<Rightarrow> bool) \<Rightarrow> (string \<Rightarrow> gerror + string) \<Rightarrow> string \<Rightarrow>
     gerror + string \<times> service_account" where
  "firebaseCredentials unmarshal isRSA credentials raw =
     (case unmarshal raw of
        Inl _ \<Rightarrow> Inl (Err ''LAST_ORDERS_FIREBASE_CREDENTIALS_JSON must contain service-account JSON with project_id, client_email and private_key'')
      | Inr account \<Rightarrow>
          if sa_Type account \<noteq> ''service_account'' \<or> TrimSpace (sa_ProjectID account) = '''' \<or>
             TrimSpace (sa_ClientEmail account) = '''' \<or> sa_PrivateKey account = ''''
          then Inl (Err ''LAST_ORDERS_FIREBASE_CREDENTIALS_JSON must contain service-account JSON with project_id, client_email and private_key'')
          else if \<not> isRSA (sa_PrivateKey account)
          then Inl (Err ''LAST_ORDERS_FIREBASE_CREDENTIALS_JSON must contain a valid RSA private_key'')
          else case credentials raw of
            Inl _ \<Rightarrow> Inl (Err ''LAST_ORDERS_FIREBASE_CREDENTIALS_JSON contains invalid service-account credentials'')
          | Inr c \<Rightarrow> Inr (c, account))"

definition firebaseConfigFromEnv ::
  "(string \<Rightarrow> gerror + service_account) \<Rightarrow> (string \<Rightarrow> bool) \<Rightarrow> (string \<Rightarrow> gerror + string) \<Rightarrow> (string \<rightharpoonup> string) \<Rightarrow>
     gerror + firebase_configuration" where
  "firebaseConfigFromEnv unmarshal isRSA credentials lookup =
     (let getenv = (\<lambda>name. TrimSpace (os_Getenv lookup name));
          finish = (\<lambda>cred project.
            (let project' = (if project = ''''
                             then if getenv ''FIRESTORE_EMULATOR_HOST'' \<noteq> '''' then ''last-orders-emulator'' else DetectProjectID
                             else project);
                 auth = getenv ''FIREBASE_AUTH_PROJECT_ID''
             in Inr \<lparr>fb_credentials = cred, fb_firestoreProjectID = project',
                     fb_authProjectID = (if auth = '''' \<and> project' \<noteq> DetectProjectID then project' else auth)\<rparr>));
          project = getenv ''GOOGLE_CLOUD_PROJECT''
      in case lookup ''LAST_ORDERS_FIREBASE_CREDENTIALS_JSON'' of
           None \<Rightarrow> finish None project
         | Some raw \<Rightarrow>
             if getenv ''GOOGLE_APPLICATION_CREDENTIALS'' \<noteq> ''''
             then Inl (Err ''LAST_ORDERS_FIREBASE_CREDENTIALS_JSON and GOOGLE_APPLICATION_CREDENTIALS are mutually exclusive'')
             else (case firebaseCredentials unmarshal isRSA credentials raw of
                     Inl e \<Rightarrow> Inl e
                   | Inr (c, account) \<Rightarrow>
                       finish (Some c)
                         (if project = '''' \<and> getenv ''FIRESTORE_EMULATOR_HOST'' = '''' then sa_ProjectID account else project)))"

section \<open>Deleting the local database\<close>

text \<open>
  The file system: a path has no file or one that is regular or not. \<open>inspect\<close> and \<open>remove\<close> are the errors of
  \<open>Lstat\<close> and \<open>Remove\<close> on an existing file.
\<close>

type_synonym file_system = "string \<rightharpoonup> bool"

definition databaseFiles :: "string \<Rightarrow> string list" where
  "databaseFiles path = [path @ ''-wal'', path @ ''-shm'', path @ ''-journal'', path]"

definition plainPath :: "string \<Rightarrow> bool" where
  "plainPath path \<longleftrightarrow>
     TrimSpace path \<noteq> '''' \<and> path \<noteq> '':memory:'' \<and> \<not> HasPrefix path ''file:'' \<and>
     \<not> list_ex (\<lambda>c. c = CHR ''?'' \<or> c = CHR ''#'') path"

fun inspect_files :: "(string \<Rightarrow> gerror option) \<Rightarrow> string list \<Rightarrow> file_system \<Rightarrow> gerror option" where
  "inspect_files inspect [] fs = None"
| "inspect_files inspect (p # ps) fs =
     (case fs p of
        None \<Rightarrow> inspect_files inspect ps fs
      | Some regular \<Rightarrow>
          (case inspect p of
             Some e \<Rightarrow> Some (Wrapped e (''inspect '' @ p))
           | None \<Rightarrow> if \<not> regular then Some (Err (''refusing to delete non-regular file '' @ p)) else inspect_files inspect ps fs))"

fun remove_files :: "(string \<Rightarrow> gerror option) \<Rightarrow> string list \<Rightarrow> file_system \<Rightarrow> gerror option \<times> file_system" where
  "remove_files remove [] fs = (None, fs)"
| "remove_files remove (p # ps) fs =
     (case fs p of
        None \<Rightarrow> remove_files remove ps fs
      | Some _ \<Rightarrow>
          (case remove p of
             Some e \<Rightarrow> (Some (Wrapped e (''delete '' @ p)), fs)
           | None \<Rightarrow> remove_files remove ps (fs(p := None))))"

definition resetDatabaseFiles ::
  "(string \<Rightarrow> gerror option) \<Rightarrow> (string \<Rightarrow> gerror option) \<Rightarrow> string \<Rightarrow> file_system \<Rightarrow> gerror option \<times> file_system" where
  "resetDatabaseFiles inspect remove path fs =
     (if \<not> plainPath path then (Some (Err ''database reset requires a plain filesystem path''), fs)
      else case inspect_files inspect (databaseFiles path) fs of
        Some e \<Rightarrow> (Some e, fs)
      | None \<Rightarrow> remove_files remove (databaseFiles path) fs)"

section \<open>The command of the application\<close>

record app_flags =
  fl_dbPath :: string
  fl_resetDB :: bool
  fl_pollDelay :: go_duration
  fl_httpAddr :: string
  fl_allowAuthEmulator :: bool
  fl_adminDeleteOnce :: bool
  fl_enableRealAuthDelete :: bool

text \<open>What is left of \<open>Config\<close> when the application is wired to Firestore: nothing is supplied.\<close>

record main_settings =
  ms_config :: app_config
  ms_email :: email_options
  ms_reset :: bool

definition with_context :: "string \<Rightarrow> gerror + 'a \<Rightarrow> ('a \<Rightarrow> gerror + 'b) \<Rightarrow> gerror + 'b" where
  "with_context m r f = (case r of Inl e \<Rightarrow> Inl (Wrapped e m) | Inr x \<Rightarrow> f x)"

definition main_config ::
  "gerror + firebase_configuration \<Rightarrow> app_flags \<Rightarrow> (string \<rightharpoonup> string) \<Rightarrow> gerror + main_settings" where
  "main_config firebase fl lookup =
     with_context ''configure Firestore transport'' (boolFromEnv ''LAST_ORDERS_FIRESTORE_FORCE_IPV4'' True lookup) (\<lambda>_.
     with_context ''configure database reset'' (boolFromEnv ''LAST_ORDERS_RESET_DB'' False lookup) (\<lambda>resetDBFromEnv.
     with_context ''configure admin delete'' (boolFromEnv ''ENABLE_ADMIN_DELETE_REQUESTS'' False lookup) (\<lambda>adminDeleteEnabled.
     with_context ''configure admin delete'' (boolFromEnv ''ADMIN_DELETE_DRY_RUN'' True lookup) (\<lambda>adminDeleteDryRun.
     if fl_adminDeleteOnce fl \<and> \<not> adminDeleteEnabled
     then Inl (Err ''-admin-delete-evaluate-once requires ENABLE_ADMIN_DELETE_REQUESTS=true'')
     else
     with_context ''configure Firebase'' firebase (\<lambda>fb.
     with_context ''configure email client'' (emailOptionsFromEnv (os_Getenv lookup)) (\<lambda>emailOptions.
     with_context ''configure email rate limit'' (dailyLimitFromEnv ''LAST_ORDERS_EMAIL_DAILY_LIMIT'' EmailDailyLimit lookup) (\<lambda>emailLimit.
     with_context ''configure push rate limit'' (dailyLimitFromEnv ''LAST_ORDERS_PUSH_DAILY_LIMIT'' PushDailyLimit lookup) (\<lambda>pushLimit.
     Inr \<lparr>ms_config =
            \<lparr>cf_DBPath = fl_dbPath fl, cf_PollDelay = fl_pollDelay fl, cf_EnableFirestore = True,
             cf_FirestoreProjectID = fb_firestoreProjectID fb, cf_EmailDailyLimit = emailLimit, cf_PushDailyLimit = pushLimit,
             cf_AdminDeleteEnabled = adminDeleteEnabled, cf_AdminDeleteDryRun = adminDeleteDryRun,
             cf_EnableRealAuthDelete = fl_enableRealAuthDelete fl, cf_AdminDeleteEvaluateOnce = fl_adminDeleteOnce fl,
             cf_HTTPAddr = (if fl_adminDeleteOnce fl then '''' else fl_httpAddr fl),
             cf_AllowAuthEmulator = fl_allowAuthEmulator fl, cf_AllowedAPIOrigins = allowedOrigins lookup,
             cf_AllowedAPIPreviewSites = commaList (os_Getenv lookup ''LAST_ORDERS_ALLOWED_PREVIEW_SITES''),
             cf_supplied = {}, cf_ComponentChecks = []\<rparr>,
          ms_email = emailOptions, ms_reset = fl_resetDB fl \<or> resetDBFromEnv\<rparr>))))))))"

text \<open>
  \<open>main\<close>: the exit code. \<open>newApp\<close> and \<open>runApp\<close> are the errors of \<open>app.New\<close> and \<open>Run\<close>, which see the file
  system as the reset has left it.
\<close>

definition last_orders_main ::
  "(string \<Rightarrow> gerror option) \<Rightarrow> (string \<Rightarrow> gerror option) \<Rightarrow> gerror + firebase_configuration \<Rightarrow>
     (main_settings \<Rightarrow> file_system \<Rightarrow> gerror option) \<Rightarrow> (main_settings \<Rightarrow> gerror option) \<Rightarrow> app_flags \<Rightarrow>
     (string \<rightharpoonup> string) \<Rightarrow> file_system \<Rightarrow> int \<times> file_system" where
  "last_orders_main inspect remove firebase newApp runApp fl lookup fs =
     (case main_config firebase fl lookup of
        Inl e \<Rightarrow> (1, fs)
      | Inr settings \<Rightarrow>
          (case (if ms_reset settings then resetDatabaseFiles inspect remove (fl_dbPath fl) fs else (None, fs)) of
             (Some e, fs1) \<Rightarrow> (1, fs1)
           | (None, fs1) \<Rightarrow>
               (case newApp settings fs1 of
                  Some e \<Rightarrow> (1, fs1)
                | None \<Rightarrow> (case runApp settings of Some e \<Rightarrow> (1, fs1) | None \<Rightarrow> (0, fs1)))))"

section \<open>The inspection command of the queue\<close>

record snapshot_cell =
  sn_ID :: string
  sn_Steps :: "cell_step list"
  sn_CurrentStep :: int
  sn_State :: string
  sn_NotBefore :: "string option"

text \<open>\<open>parseTime\<close> is \<open>time.Parse(time.RFC3339Nano, _)\<close>; a state is its text.\<close>

definition snapshot_toCell :: "(string \<Rightarrow> gerror + go_time) \<Rightarrow> snapshot_cell \<Rightarrow> gerror + cell" where
  "snapshot_toCell parseTime s =
     (if sn_ID s = '''' then Inl (Err ''id is required'')
      else if length (sn_Steps s) = 0 then Inl (Err ''steps are required'')
      else case (case sn_NotBefore s of
                   None \<Rightarrow> Inr None
                 | Some t \<Rightarrow> if TrimSpace t = '''' then Inr None
                             else case parseTime t of Inl e \<Rightarrow> Inl (Wrapped e ''invalid notBefore'') | Inr x \<Rightarrow> Inr (Some x)) of
        Inl e \<Rightarrow> Inl e
      | Inr notBefore \<Rightarrow>
          Inr \<lparr>Steps = sn_Steps s, CurrentStep = sn_CurrentStep s, ID = sn_ID s, State = sn_State s, NotBefore = notBefore\<rparr>)"

definition loadCellsSnapshot ::
  "(string \<Rightarrow> gerror + string) \<Rightarrow> (string \<Rightarrow> gerror + snapshot_cell list) \<Rightarrow> (string \<Rightarrow> gerror + go_time) \<Rightarrow> string \<Rightarrow>
     gerror + cell list" where
  "loadCellsSnapshot readFile unmarshal parseTime path =
     (case readFile path of
        Inl e \<Rightarrow> Inl e
      | Inr raw \<Rightarrow>
          (case unmarshal raw of
             Inl e \<Rightarrow> Inl e
           | Inr payload \<Rightarrow>
               res_map (\<lambda>(i, entry). case snapshot_toCell parseTime entry of
                                       Inl e \<Rightarrow> Inl (Wrapped e (''entry '' @ itoa i)) | Inr c \<Rightarrow> Inr c)
                 (enumerate 0 payload)))"

fun load_cells :: "cell list \<Rightarrow> 'a memory_store \<Rightarrow> gerror + 'a memory_store" where
  "load_cells [] s = Inr s"
| "load_cells (c # cs) s =
     (case ForceUpdate c s of
        (Inl e, _) \<Rightarrow> Inl (Wrapped e (''load snapshot cell '' @ ID c))
      | (Inr _, s1) \<Rightarrow> load_cells cs s1)"

text \<open>The reads of a store the command uses; \<open>openSqlite\<close> opens the other kind of store.\<close>

record debuggable_store =
  db_Get :: "cell_id \<Rightarrow> gerror + cell"
  db_ListAll :: "gerror + cell list"

definition buildInspectStore ::
  "(string \<Rightarrow> gerror + debuggable_store) \<Rightarrow> (string \<Rightarrow> gerror + string) \<Rightarrow> (string \<Rightarrow> gerror + snapshot_cell list) \<Rightarrow>
     (string \<Rightarrow> gerror + go_time) \<Rightarrow> 'a \<Rightarrow> string \<Rightarrow> string \<Rightarrow> gerror + debuggable_store" where
  "buildInspectStore openSqlite readFile unmarshal parseTime alloc inputPath sqlitePath =
     (if sqlitePath \<noteq> '''' then openSqlite sqlitePath
      else case loadCellsSnapshot readFile unmarshal parseTime inputPath of
        Inl e \<Rightarrow> Inl e
      | Inr cs \<Rightarrow>
          (case load_cells cs (NewMemoryStore alloc) of
             Inl e \<Rightarrow> Inl e
           | Inr s \<Rightarrow> Inr \<lparr>db_Get = (\<lambda>i. GetCell i s), db_ListAll = ListAll s\<rparr>))"

record 'v inspection_output =
  io_ID :: cell_id
  io_HandlerName :: handler_name
  io_State :: string
  io_NotBefore :: "go_time option"
  io_PayloadFormat :: string
  io_Payload :: 'v
  io_DecodeError :: string

definition currentCellHandler :: "cell \<Rightarrow> handler_name" where
  "currentCellHandler c =
     (if CurrentStep c \<ge> 0 \<and> CurrentStep c < int (length (Steps c)) then HandlerName (Steps c ! nat (CurrentStep c)) else '''')"

definition inspectionView :: "(gerror \<Rightarrow> string) \<Rightarrow> 'v inspection \<Rightarrow> 'v inspection_output" where
  "inspectionView errText i =
     \<lparr>io_ID = ID (insp_Cell i), io_HandlerName = currentCellHandler (insp_Cell i), io_State = State (insp_Cell i),
      io_NotBefore = NotBefore (insp_Cell i), io_PayloadFormat = insp_PayloadFormat i, io_Payload = insp_Payload i,
      io_DecodeError = (case insp_DecodeError i of None \<Rightarrow> '''' | Some e \<Rightarrow> errText e)\<rparr>"

definition parseCSV :: "string \<Rightarrow> string list" where
  "parseCSV s = (if TrimSpace s = '''' then [] else commaList s)"

record 'v inspect_tools =
  it_utf8 :: "string \<Rightarrow> bool"
  it_base64 :: "string \<Rightarrow> string"
  it_text :: "string \<Rightarrow> 'v"
  it_nil :: 'v
  it_jsonAny :: "'v payload_decoder"
  it_errText :: "gerror \<Rightarrow> string"

text \<open>
  \<open>runInspect\<close> with the parsed flags: one view (\<open>Inl\<close> of the result) or all of them, by identifier.
\<close>

definition runInspect ::
  "'v inspect_tools \<Rightarrow> (string \<Rightarrow> string \<Rightarrow> gerror + debuggable_store) \<Rightarrow> string \<Rightarrow> string \<Rightarrow> string \<Rightarrow> string \<Rightarrow>
     gerror + ('v inspection_output + 'v inspection_output list)" where
  "runInspect it build inputPath sqlitePath i jsonHandlers =
     (if inputPath = '''' \<and> sqlitePath = '''' then Inl (Err ''one of -input or -sqlite is required'')
      else if inputPath \<noteq> '''' \<and> sqlitePath \<noteq> '''' then Inl (Err ''-input and -sqlite are mutually exclusive'')
      else case build inputPath sqlitePath of
        Inl e \<Rightarrow> Inl e
      | Inr store \<Rightarrow>
          (let inspector = fold (\<lambda>name. RegisterDecoder name (it_jsonAny it)) (parseCSV jsonHandlers) Map.empty;
               view = (\<lambda>c. inspectionView (it_errText it)
                             (InspectCell (it_utf8 it) (it_base64 it) (it_text it) (it_nil it) inspector c))
           in if i \<noteq> ''''
              then (case db_Get store i of Inl e \<Rightarrow> Inl e | Inr c \<Rightarrow> Inr (Inl (view c)))
              else (case db_ListAll store of
                      Inl e \<Rightarrow> Inl e
                    | Inr cs \<Rightarrow> Inr (Inr (sort_key io_ID (map view cs))))))"

section \<open>Deleting the database is all or nothing\<close>

lemma inspect_files_regular: "inspect_files inspect ps fs = None \<Longrightarrow> p \<in> set ps \<Longrightarrow> fs p \<noteq> Some False"
  by (induction ps) (auto split: option.splits if_splits)

lemma remove_files_spec:
  assumes "remove_files remove ps fs = (err, fs')"
  shows "p \<notin> set ps \<Longrightarrow> fs' p = fs p" "err = None \<Longrightarrow> p \<in> set ps \<Longrightarrow> fs' p = None" "fs' p = fs p \<or> fs' p = None"
proof -
  have "(p \<notin> set ps \<longrightarrow> fs' p = fs p) \<and> (err = None \<longrightarrow> p \<in> set ps \<longrightarrow> fs' p = None) \<and> (fs' p = fs p \<or> fs' p = None)"
    using assms
  proof (induction ps arbitrary: fs)
    case (Cons q qs)
    show ?case
    proof (cases "fs q")
      case None
      with Cons.prems have "remove_files remove qs fs = (err, fs')" by simp
      with Cons.IH None show ?thesis by fastforce
    next
      case (Some b)
      show ?thesis
      proof (cases "remove q")
        case None
        with Some Cons.prems have "remove_files remove qs (fs(q := None)) = (err, fs')" by simp
        from Cons.IH [OF this] show ?thesis by (cases "p = q") (auto simp del: fun_upd_apply simp: fun_upd_same fun_upd_other)
      next
        case Some2: (Some e)
        with Some Cons.prems show ?thesis by auto
      qed
    qed
  qed simp
  then show "p \<notin> set ps \<Longrightarrow> fs' p = fs p" "err = None \<Longrightarrow> p \<in> set ps \<Longrightarrow> fs' p = None" "fs' p = fs p \<or> fs' p = None"
    by auto
qed

lemma remove_files_append:
  "remove_files remove (ps @ qs) fs =
     (case remove_files remove ps fs of (Some e, fs1) \<Rightarrow> (Some e, fs1) | (None, fs1) \<Rightarrow> remove_files remove qs fs1)"
  by (induction ps arbitrary: fs) (auto split: option.splits)

text \<open>
  C36: deleting the local database touches only the database and its side files; it removes nothing when one of
  them is not a regular file or the path is not plain; it removes the database itself only after the side files,
  and when it succeeds none of them is left.
\<close>

theorem reset_all_or_nothing:
  assumes "resetDatabaseFiles inspect remove path fs = (err, fs')"
  shows "(\<forall>p. p \<notin> set (databaseFiles path) \<longrightarrow> fs' p = fs p) \<and>
    ((\<exists>p \<in> set (databaseFiles path). fs p = Some False) \<or> \<not> plainPath path \<longrightarrow> err \<noteq> None \<and> fs' = fs) \<and>
    (fs path \<noteq> None \<and> fs' path = None \<longrightarrow> (\<forall>p \<in> set (databaseFiles path). fs' p = None)) \<and>
    (err = None \<longrightarrow> (\<forall>p \<in> set (databaseFiles path). fs' p = None))"
proof (cases "plainPath path \<and> inspect_files inspect (databaseFiles path) fs = None")
  case False
  then have "\<exists>e. resetDatabaseFiles inspect remove path fs = (Some e, fs)"
    by (cases "plainPath path"; cases "inspect_files inspect (databaseFiles path) fs") (simp_all add: resetDatabaseFiles_def)
  then have "err \<noteq> None \<and> fs' = fs" using assms by auto
  then show ?thesis by auto
next
  case True
  then have r: "remove_files remove (databaseFiles path) fs = (err, fs')" using assms by (simp add: resetDatabaseFiles_def)
  let ?side = "[path @ ''-wal'', path @ ''-shm'', path @ ''-journal'']"
  have split: "databaseFiles path = ?side @ [path]" by (simp add: databaseFiles_def)
  obtain e1 fs1 where side: "remove_files remove ?side fs = (e1, fs1)" by fastforce
  have "\<forall>p \<in> set (databaseFiles path). fs' p = None" if "fs path \<noteq> None" "fs' path = None"
  proof (cases e1)
    case None
    then have "remove_files remove [path] fs1 = (err, fs')"
      using r unfolding split remove_files_append side by simp
    from remove_files_spec(1,3) [OF this] remove_files_spec(2) [OF side None] that(2) show ?thesis
      unfolding split by auto
  next
    case (Some e)
    then have "fs' = fs1" using r unfolding split remove_files_append side by simp
    moreover have "fs1 path = fs path" by (rule remove_files_spec(1) [OF side]) simp
    ultimately show ?thesis using that by simp
  qed
  moreover have "\<not> (\<exists>p \<in> set (databaseFiles path). fs p = Some False)"
    using True inspect_files_regular by metis
  ultimately show ?thesis using True remove_files_spec [OF r] by blast
qed

section \<open>Accounts are deleted only on request\<close>

text \<open>
  The command configures the application to delete accounts only when the flag is given and the
  environment both enables the requests and turns the dry run off explicitly.
\<close>

theorem main_deletes_only_if_asked:
  assumes "main_config firebase fl lookup = Inr settings"
    and "cf_AdminDeleteEnabled (ms_config settings)" "\<not> cf_AdminDeleteDryRun (ms_config settings)"
    and "cf_EnableRealAuthDelete (ms_config settings)"
  shows "fl_enableRealAuthDelete fl \<and>
    (\<exists>v. lookup ''ENABLE_ADMIN_DELETE_REQUESTS'' = Some v \<and> ParseBool (TrimSpace v) = Some True) \<and>
    (\<exists>v. lookup ''ADMIN_DELETE_DRY_RUN'' = Some v \<and> ParseBool (TrimSpace v) = Some False)"
proof -
  have given: "\<exists>v. lookup name = Some v \<and> ParseBool (TrimSpace v) = Some b"
    if "boolFromEnv name (\<not> b) lookup = Inr b" for name b
    using that by (auto simp: boolFromEnv_def split: option.splits)
  have "boolFromEnv ''ENABLE_ADMIN_DELETE_REQUESTS'' False lookup = Inr True \<and>
      boolFromEnv ''ADMIN_DELETE_DRY_RUN'' True lookup = Inr False \<and> fl_enableRealAuthDelete fl"
    using assms by (auto simp: main_config_def with_context_def split: sum.splits if_splits)
  with given [of "''ENABLE_ADMIN_DELETE_REQUESTS''" True] given [of "''ADMIN_DELETE_DRY_RUN''" False] show ?thesis by simp
qed

section \<open>What the inspection shows\<close>

lemma load_cells_keeps:
  "load_cells cs s = Inr s' \<Longrightarrow> cells s' i = (if i \<in> ID ` set cs then map_of (rev (map (\<lambda>c. (ID c, c)) cs)) i else cells s i)"
proof (induction cs arbitrary: s)
  case (Cons c cs)
  then obtain s1 where "ForceUpdate c s = (Inr (), s1)" "load_cells cs s1 = Inr s'"
    by (auto split: prod.splits sum.splits)
  moreover from this(1) have "cells s1 = (cells s)(ID c \<mapsto> c)"
    by (auto simp: ForceUpdate_def Let_def split: option.splits if_splits)
  moreover have "map_of (rev (map (\<lambda>c. (ID c, c)) cs)) i \<noteq> None \<longleftrightarrow> i \<in> ID ` set cs"
    by (simp add: map_of_eq_None_iff image_image)
  ultimately show ?case using Cons.IH [of s1] by (auto simp: map_add_def split: option.splits)
qed simp

section \<open>An example\<close>

definition demo_fs :: file_system where
  "demo_fs = [''x.db'' \<mapsto> True, ''x.db-wal'' \<mapsto> True, ''y'' \<mapsto> False]"

lemma demo_plain: "plainPath ''x.db''"
proof -
  have "TrimSpace ''x.db'' = ''x.db''" by (rule TrimSpace_ascii) (simp_all add: isSpace_def)
  then show ?thesis by (simp add: plainPath_def HasPrefix_def)
qed

lemma demo_reset: "resetDatabaseFiles (\<lambda>_. None) (\<lambda>_. None) ''x.db'' demo_fs = (None, [''y'' \<mapsto> False])"
  by (auto simp: resetDatabaseFiles_def demo_plain databaseFiles_def demo_fs_def fun_eq_iff)

theorem reset_all_or_nothing_witness:
  "\<exists>fs'. resetDatabaseFiles (\<lambda>_. None) (\<lambda>_. None) ''x.db'' demo_fs = (None, fs') \<and> fs' ''y'' = Some False \<and> fs' ''x.db'' = None"
  using reset_all_or_nothing [OF demo_reset] demo_reset by (simp add: databaseFiles_def demo_fs_def)

definition demo_environment :: "string \<rightharpoonup> string" where
  "demo_environment = [''ENABLE_ADMIN_DELETE_REQUESTS'' \<mapsto> ''1'', ''ADMIN_DELETE_DRY_RUN'' \<mapsto> ''0'']"

definition demo_flags :: app_flags where
  "demo_flags = \<lparr>fl_dbPath = ''x.db'', fl_resetDB = False, fl_pollDelay = 60, fl_httpAddr = [], fl_allowAuthEmulator = False,
     fl_adminDeleteOnce = False, fl_enableRealAuthDelete = True\<rparr>"

lemma demo_trim_flags: "TrimSpace ''1'' = ''1''" "TrimSpace ''0'' = ''0''" "TrimSpace [] = []"
proof -
  show "TrimSpace ''1'' = ''1''" "TrimSpace ''0'' = ''0''" by (rule TrimSpace_ascii, simp_all add: isSpace_def)+
  show "TrimSpace [] = []" by code_simp
qed

definition demo_settings :: "gerror + main_settings" where
  "demo_settings = main_config (Inr \<lparr>fb_credentials = None, fb_firestoreProjectID = ''p'', fb_authProjectID = ''p''\<rparr>) demo_flags demo_environment"

lemma demo_main: "\<exists>s. demo_settings = Inr s \<and> cf_AdminDeleteEnabled (ms_config s) \<and> \<not> cf_AdminDeleteDryRun (ms_config s) \<and>
    cf_EnableRealAuthDelete (ms_config s)"
  by (simp add: demo_settings_def main_config_def with_context_def boolFromEnv_def demo_environment_def demo_trim_flags ParseBool_def
      emailOptionsFromEnv_def os_Getenv_def dailyLimitFromEnv_def demo_flags_def Let_def)

theorem main_deletes_only_if_asked_witness:
  "fl_enableRealAuthDelete demo_flags \<and>
    (\<exists>v. demo_environment ''ADMIN_DELETE_DRY_RUN'' = Some v \<and> ParseBool (TrimSpace v) = Some False)"
proof -
  from demo_main obtain s where "demo_settings = Inr s" "cf_AdminDeleteEnabled (ms_config s)"
    "\<not> cf_AdminDeleteDryRun (ms_config s)" "cf_EnableRealAuthDelete (ms_config s)" by blast
  from main_deletes_only_if_asked [OF this(1) [unfolded demo_settings_def] this(2-4)] show ?thesis by blast
qed

end
