(* ===== verification/EmailCommands.thy ===== *)
theory EmailCommands
  imports SweegoLogs Mailtrap Commands
begin

text \<open>
  The command lines of the email clients: email_clients/internal/mailtrapcli and email_clients/internal/cli.

  A command gets its flags after parsing, as in Commands; the record \<open>email_cli\<close> has the files, the decoders,
  the parsers of addresses and times, the environment variables, the clock and the random bytes. A command
  returns its error and what it prints for each recipient; the rest of its output is left out.
\<close>

section \<open>What the commands use\<close>

record target =
  tg_Dest :: string
  tg_Vars :: "go_any vars"

record batch_document =
  bd_From :: string
  bd_Subject :: string
  bd_Body :: string
  bd_Template :: string
  bd_Variables :: "go_any vars"
  bd_Targets :: "target list"

record bulk_document =
  ud_Template :: string
  ud_Body :: string
  ud_Subject :: string
  ud_From :: string
  ud_CampaignType :: string
  ud_Targets :: "target list"

record 'e email_cli =
  ec_lookup :: "string \<rightharpoonup> string"
  ec_readFile :: "string \<Rightarrow> gerror + string"
  ec_isAbs :: "string \<Rightarrow> bool"
  ec_joinDir :: "string \<Rightarrow> string \<Rightarrow> string"
  ec_base :: "string \<Rightarrow> string"
  ec_ParseAddress :: "string \<Rightarrow> gerror + address"
  ec_ParseAddressList :: "string \<Rightarrow> gerror + address list"
  ec_parseTime :: "string \<Rightarrow> string \<Rightarrow> gerror + go_time"
  ec_decodeBatch :: "string \<Rightarrow> gerror + batch_document"
  ec_oneDocument :: "string \<Rightarrow> bool"
  ec_decodeBulk :: "string \<Rightarrow> gerror + bulk_document"
  ec_decodeVars :: "string \<Rightarrow> gerror + go_any vars"
  ec_rand :: "'e \<Rightarrow> (gerror + string) \<times> 'e"
  ec_randText :: "'e \<Rightarrow> string \<times> 'e"
  ec_now :: "'e \<Rightarrow> go_time \<times> 'e"

text \<open>A body file is named relative to the document.\<close>

definition bodyPath :: "'e email_cli \<Rightarrow> string \<Rightarrow> string \<Rightarrow> string" where
  "bodyPath io path body = (if \<not> ec_isAbs io body then ec_joinDir io path body else body)"

section \<open>mailtrap-client\<close>

record mailtrap_config =
  mc_Token :: string
  mc_Sandbox :: bool
  mc_SandboxID :: int

definition mailtrap_loadConfig :: "(string \<rightharpoonup> string) \<Rightarrow> gerror + mailtrap_config" where
  "mailtrap_loadConfig lookup =
     (let token = TrimSpace (os_Getenv lookup ''MAILTRAP_TOKEN'');
          sandbox = TrimSpace (os_Getenv lookup ''MAILTRAP_USE_SANDBOX'');
          sandboxID = TrimSpace (os_Getenv lookup ''MAILTRAP_SANDBOX_ID'') in
      if token = '''' then Inl (Err ''MAILTRAP_TOKEN is required'')
      else
     (case (if sandbox \<noteq> '''' then ParseBool sandbox else Some False) of
        None \<Rightarrow> Inl (Err ''MAILTRAP_USE_SANDBOX must be a boolean'')
      | Some useSandbox \<Rightarrow>
     (case (if sandboxID \<noteq> ''''
            then (case ParseInt sandboxID of None \<Rightarrow> None | Some i \<Rightarrow> if i \<le> 0 then None else Some i)
            else Some 0) of
        None \<Rightarrow> Inl (Err ''MAILTRAP_SANDBOX_ID must be a positive integer'')
      | Some i \<Rightarrow>
          if useSandbox \<and> i = 0 then Inl (Err ''MAILTRAP_SANDBOX_ID is required in sandbox mode'')
          else Inr \<lparr>mc_Token = token, mc_Sandbox = useSandbox, mc_SandboxID = i\<rparr>)))"

definition mailtrap_client_of ::
  "'e email_cli \<Rightarrow> (mailtrap_config \<Rightarrow> gerror + 'e mailtrap_client) \<Rightarrow> gerror + 'e mailtrap_client \<times> mailtrap_config" where
  "mailtrap_client_of io newClient =
     (case mailtrap_loadConfig (ec_lookup io) of
        Inl err \<Rightarrow> Inl (Wrapped err ''config'')
      | Inr cfg \<Rightarrow> (case newClient cfg of Inl err \<Rightarrow> Inl err | Inr client \<Rightarrow> Inr (client, cfg)))"

record submission_options =
  sn_from :: string
  sn_category :: string
  sn_messageID :: string

definition trimmedAddress :: "'e email_cli \<Rightarrow> string \<Rightarrow> gerror + address" where
  "trimmedAddress io v = ec_ParseAddress io (TrimSpace v)"

text \<open>The lines about the recipients: the address and the identifier, or that there is none.\<close>

definition recipientLines :: "go_email \<Rightarrow> send_result \<Rightarrow> (string \<times> string) list" where
  "recipientLines em ids =
     map (\<lambda>(index, r). (ad_Email (rp_Address r),
            if index < length ids \<and> ids ! index \<noteq> '''' then ids ! index else ''no confirmed PMUID''))
       (enumerate 0 (em_To em))"

definition mailtrap_submit ::
  "'e email_cli \<Rightarrow> 'e mailtrap_lib \<Rightarrow> (mailtrap_config \<Rightarrow> gerror + 'e mailtrap_client) \<Rightarrow> go_email \<Rightarrow>
     submission_options \<Rightarrow> 'e \<Rightarrow> (gerror option \<times> (string \<times> string) list) \<times> 'e" where
  "mailtrap_submit io lib newClient em options e =
     (case mailtrap_client_of io newClient of
        Inl err \<Rightarrow> ((Some err, []), e)
      | Inr (client, cfg) \<Rightarrow>
     (case (if TrimSpace (sn_messageID options) = ''''
            then (case ec_randText io e of (t, e1) \<Rightarrow> (''mt-'' @ t, e1))
            else (TrimSpace (sn_messageID options), e)) of
        (correlationID, e1) \<Rightarrow>
          (let em1 = em\<lparr>em_Headers := [MessageIDHeader \<mapsto> correlationID]\<rparr> in
           case mailtrap_SendResult lib (mailtrap_WithSendOptions (sn_category options) client) em1 e1 of
             ((ids, sendErr), e2) \<Rightarrow> ((sendErr, recipientLines em1 ids), e2))))"

record send_flags =
  sf_options :: submission_options
  sf_to :: string
  sf_subject :: string
  sf_text :: string
  sf_templateID :: string
  sf_variables :: string
  sf_NArg :: nat

definition mailtrap_runSend ::
  "'e email_cli \<Rightarrow> 'e mailtrap_lib \<Rightarrow> (mailtrap_config \<Rightarrow> gerror + 'e mailtrap_client) \<Rightarrow> send_flags \<Rightarrow> 'e \<Rightarrow>
     (gerror option \<times> (string \<times> string) list) \<times> 'e" where
  "mailtrap_runSend io lib newClient flags e =
     (if sf_NArg flags \<noteq> 0 then ((Some (Err ''send does not accept positional arguments''), []), e)
      else case trimmedAddress io (sn_from (sf_options flags)) of
        Inl err \<Rightarrow> ((Some (Wrapped err ''invalid --from''), []), e)
      | Inr from \<Rightarrow>
     (case (case ec_ParseAddressList io (sf_to flags) of Inl err \<Rightarrow> [] | Inr addresses \<Rightarrow> addresses) of
        [] \<Rightarrow> ((Some (Err ''--to must contain at least one valid email address''), []), e)
      | a # as \<Rightarrow>
     (case (if sf_variables flags \<noteq> '''' then ec_decodeVars io (sf_variables flags) else Inr []) of
        Inl err \<Rightarrow> ((Some (Wrapped err ''invalid --variables JSON object''), []), e)
      | Inr variables \<Rightarrow>
          mailtrap_submit io lib newClient
            \<lparr>em_From = from, em_To = map (\<lambda>a. \<lparr>rp_Address = a, rp_Variables = []\<rparr>) (a # as),
             em_Subject = sf_subject flags, em_TemplateID = sf_templateID flags, em_Text = sf_text flags,
             em_Variables = variables, em_Headers = Map.empty\<rparr> (sf_options flags) e)))"

text \<open>The recipients of a document; both clients report the index of the first address that does not parse.\<close>

definition targetRecipients ::
  "(string \<Rightarrow> gerror + address) \<Rightarrow> target list \<Rightarrow> gerror + go_any vars recipient list" where
  "targetRecipients parse targets =
     res_map (\<lambda>(index, t). case parse (tg_Dest t) of
                Inl err \<Rightarrow> Inl (Wrapped err (''invalid target '' @ itoa index))
              | Inr address \<Rightarrow> Inr \<lparr>rp_Address = address, rp_Variables = tg_Vars t\<rparr>) (enumerate 0 targets)"

definition batchContentError :: "batch_document \<Rightarrow> gerror option" where
  "batchContentError d =
     (let hasBody = TrimSpace (bd_Body d) \<noteq> ''''; hasTemplate = TrimSpace (bd_Template d) \<noteq> '''' in
      if hasBody = hasTemplate then Some (Err ''supply exactly one of body (text-file path) or template (Mailtrap UUID)'')
      else if hasBody \<and> TrimSpace (bd_Subject d) = '''' then Some (Err ''subject is required for raw sends'')
      else if hasTemplate \<and> bd_Subject d \<noteq> '''' then Some (Err ''subject must be empty for hosted-template sends'')
      else None)"

definition loadBatchDocument :: "'e email_cli \<Rightarrow> string \<Rightarrow> string \<Rightarrow> gerror + go_email" where
  "loadBatchDocument io path fromOverride =
     (case ec_readFile io path of
        Inl err \<Rightarrow> Inl (Wrapped err ''read targets file'')
      | Inr content \<Rightarrow>
     (case ec_decodeBatch io content of
        Inl err \<Rightarrow> Inl (Wrapped err ''decode targets JSON'')
      | Inr d \<Rightarrow>
          if \<not> ec_oneDocument io content then Inl (Err ''targets file must contain exactly one JSON document'')
          else
     (case batchContentError d of
        Some err \<Rightarrow> Inl err
      | None \<Rightarrow>
     (case trimmedAddress io (if fromOverride \<noteq> '''' then fromOverride else bd_From d) of
        Inl err \<Rightarrow> Inl (Wrapped err ''invalid sender'')
      | Inr from \<Rightarrow>
     (case (if TrimSpace (bd_Body d) \<noteq> '''' then ec_readFile io (bodyPath io path (bd_Body d)) else Inr '''') of
        Inl err \<Rightarrow> Inl (Wrapped err ''read body file'')
      | Inr text \<Rightarrow>
     (case targetRecipients (trimmedAddress io) (bd_Targets d) of
        Inl err \<Rightarrow> Inl err
      | Inr recipients \<Rightarrow>
          Inr \<lparr>em_From = from, em_To = recipients, em_Subject = bd_Subject d, em_TemplateID = bd_Template d,
               em_Text = text, em_Variables = bd_Variables d, em_Headers = Map.empty\<rparr>))))))"

definition runBatchDocument ::
  "'e email_cli \<Rightarrow> 'e mailtrap_lib \<Rightarrow> (mailtrap_config \<Rightarrow> gerror + 'e mailtrap_client) \<Rightarrow> string list \<Rightarrow>
     submission_options \<Rightarrow> 'e \<Rightarrow> (gerror option \<times> (string \<times> string) list) \<times> 'e" where
  "runBatchDocument io lib newClient args options e =
     (if length args \<noteq> 1
      then ((Some (Err ''exactly one targets-file argument is required; place flags before the file''), []), e)
      else case loadBatchDocument io (hd args) (sn_from options) of
        Inl err \<Rightarrow> ((Some err, []), e)
      | Inr em \<Rightarrow>
          if length (em_To em) = 0 then ((None, []), e) else mailtrap_submit io lib newClient em options e)"

record verify_flags =
  vf_to :: string
  vf_messageID :: string
  vf_sentAt :: string
  vf_tolerance :: go_duration
  vf_NArg :: nat

definition mailtrap_runVerify ::
  "'e email_cli \<Rightarrow> 'e mailtrap_lib \<Rightarrow> (go_time \<Rightarrow> bool) \<Rightarrow> (mailtrap_config \<Rightarrow> gerror + 'e mailtrap_client) \<Rightarrow>
     verify_flags \<Rightarrow> 'e \<Rightarrow> (gerror + string) \<times> 'e" where
  "mailtrap_runVerify io lib isZero newClient flags e =
     (if vf_NArg flags \<noteq> 0 \<or> TrimSpace (vf_messageID flags) = '''' \<or> vf_tolerance flags < 0
      then (Inl (Err ''verify requires --to, --message-id, --sent-at and a non-negative tolerance''), e)
      else case trimmedAddress io (vf_to flags) of
        Inl err \<Rightarrow> (Inl (Wrapped err ''invalid --to''), e)
      | Inr address \<Rightarrow>
     (case ec_parseTime io ''RFC3339Nano'' (vf_sentAt flags) of
        Inl err \<Rightarrow> (Inl (Wrapped err ''invalid --sent-at''), e)
      | Inr sentAt \<Rightarrow>
     (case mailtrap_client_of io newClient of
        Inl err \<Rightarrow> (Inl err, e)
      | Inr (client, cfg) \<Rightarrow>
          if mc_Sandbox cfg
          then (Inl (Err ''verification uses production email logs and is not available in sandbox mode''), e)
          else
     (case mailtrap_Verify lib isZero (Some client) (vf_tolerance flags)
             \<lparr>vr_CorrelationID = TrimSpace (vf_messageID flags), vr_Recipient = ad_Email address, vr_SentAt = sentAt\<rparr> e of
        (Inl err, e1) \<Rightarrow> (Inl err, e1)
      | (Inr result, e1) \<Rightarrow>
          if \<not> vs_Found result
          then (Inl (Err ''no matching provider log found; this is not proof of refusal''), e1)
          else (Inr (vs_PMUID result), e1)))))"

section \<open>sweego-client\<close>

definition defaultVerifyTolerance :: go_duration where "defaultVerifyTolerance = 300 * Second"

record sweego_config =
  sc_Token :: string
  sc_Provider :: string
  sc_BaseURL :: string
  sc_ClientUUID :: string

definition sweego_loadConfig :: "(string \<rightharpoonup> string) \<Rightarrow> gerror + sweego_config" where
  "sweego_loadConfig lookup =
     (let token = TrimSpace (os_Getenv lookup ''SWEEGO_TOKEN'');
          provider = TrimSpace (os_Getenv lookup ''SWEEGO_PROVIDER'');
          baseURL = TrimSpace (os_Getenv lookup ''SWEEGO_BASE_URL'') in
      if token = '''' then Inl (Err ''SWEEGO_TOKEN is required'')
      else if provider = '''' then Inl (Err ''SWEEGO_PROVIDER is required'')
      else Inr \<lparr>sc_Token = token, sc_Provider = provider,
                sc_BaseURL = TrimRight (CHR ''/'') (if baseURL = '''' then ''https://api.sweego.io'' else baseURL),
                sc_ClientUUID = TrimSpace (os_Getenv lookup ''SWEEGO_CLIENT_UUID'')\<rparr>)"

definition requireClientUUID :: "sweego_config \<Rightarrow> gerror + string" where
  "requireClientUUID cfg =
     (if sc_ClientUUID cfg = '''' then Inl (Err ''SWEEGO_CLIENT_UUID is required for template commands'')
      else Inr (sc_ClientUUID cfg))"

text \<open>\<open>NewCorrelationID\<close>, and the operation's own value when the flag gives one.\<close>

definition NewCorrelationID :: "'e email_cli \<Rightarrow> 'e \<Rightarrow> (gerror + string) \<times> 'e" where
  "NewCorrelationID io e =
     (case ec_rand io e of
        (Inl err, e1) \<Rightarrow> (Inl (Wrapped err ''generate correlation id''), e1)
      | (Inr bytes, e1) \<Rightarrow> (Inr (''pn-'' @ hex_encode bytes), e1))"

definition correlationOr :: "'e email_cli \<Rightarrow> string \<Rightarrow> 'e \<Rightarrow> (gerror + string) \<times> 'e" where
  "correlationOr io given e = (if given = '''' then NewCorrelationID io e else (Inr given, e))"

record bulk_options =
  bk_discardResponse :: bool
  bk_recovery :: recovery_options
  bk_from :: string
  bk_recipients :: string
  bk_subject :: string
  bk_text :: string
  bk_templateID :: string
  bk_campaignType :: string
  bk_messageID :: string
  bk_dryRun :: bool

definition recoveryOptions_validate :: "recovery_options \<Rightarrow> gerror option" where
  "recoveryOptions_validate o' =
     (if rv_Attempts o' < 1 \<or> rv_RetryDelay o' < 0 \<or> rv_Tolerance o' < 0
      then Some (Err ''--attempts must be positive and timing values cannot be negative'') else None)"

text \<open>\<open>parseBulkOptions\<close> after the flags are parsed.\<close>

definition checkBulkOptions :: "bulk_options \<Rightarrow> gerror option" where
  "checkBulkOptions o' =
     (if TrimSpace (bk_from o') = '''' \<or> TrimSpace (bk_recipients o') = ''''
      then Some (Err ''--from and --to are required'') else recoveryOptions_validate (bk_recovery o'))"

fun parseRecipientValues ::
  "(string \<Rightarrow> gerror + address) \<Rightarrow> string list \<Rightarrow> gerror + go_any vars recipient list" where
  "parseRecipientValues parse [] = Inr []"
| "parseRecipientValues parse (v # vs) =
     (let value = TrimSpace v in
      if value = '''' then parseRecipientValues parse vs
      else case parse value of
        Inl err \<Rightarrow> Inl (Wrapped err (''invalid recipient '' @ value))
      | Inr address \<Rightarrow>
          (case parseRecipientValues parse vs of
             Inl err \<Rightarrow> Inl err
           | Inr rs \<Rightarrow> Inr (\<lparr>rp_Address = address, rp_Variables = []\<rparr> # rs)))"

text \<open>\<open>strings.SplitSeq(raw, ",")\<close>.\<close>

fun splitCommas :: "string \<Rightarrow> string \<Rightarrow> string list" where
  "splitCommas acc [] = [acc]"
| "splitCommas acc (c # cs) = (if c = CHR '','' then acc # splitCommas [] cs else splitCommas (acc @ [c]) cs)"

definition parseRecipients :: "(string \<Rightarrow> gerror + address) \<Rightarrow> string \<Rightarrow> gerror + go_any vars recipient list" where
  "parseRecipients parse raw =
     (case parseRecipientValues parse (splitCommas '''' raw) of
        Inl err \<Rightarrow> Inl err
      | Inr [] \<Rightarrow> Inl (Err ''--to must contain at least one recipient'')
      | Inr (r # rs) \<Rightarrow> Inr (r # rs))"

text \<open>
  What a bulk send reports: the recipients with the identifiers of the response (empty when unknown), the report
  of the recovery, and whether a recovery without the response found all of it.
\<close>

record bulk_report =
  bp_Recipients :: "(string \<times> string) list"
  bp_Recovery :: "recovery_result list"
  bp_Complete :: bool

definition responseMap :: "(string \<times> string) list \<Rightarrow> string_map" where
  "responseMap rs = foldl (\<lambda>m (address, u). m(address \<mapsto> u)) Map.empty rs"

definition completeRecovery :: "recovery_result list \<Rightarrow> string_map \<Rightarrow> bool" where
  "completeRecovery results actual \<longleftrightarrow>
     length results > 0 \<and>
     list_all (\<lambda>r. rs_Status r = Recovered \<and> string_index actual (rs_Recipient r) = rs_SwgUID r) results"

text \<open>The common part of \<open>runBulkSend\<close> and \<open>runBulkSendDocument\<close>; the error of the Send comes first.\<close>

definition bulkSubmit ::
  "'e email_cli \<Rightarrow> log_lib \<Rightarrow> 'e sweego_io \<Rightarrow> (go_duration \<Rightarrow> 'e \<Rightarrow> gerror option \<times> 'e) \<Rightarrow> 'e sweego_client \<Rightarrow>
     string \<Rightarrow> string \<Rightarrow> bulk_options \<Rightarrow> string \<Rightarrow> go_email \<Rightarrow> 'e \<Rightarrow> (gerror option \<times> bulk_report) \<times> 'e" where
  "bulkSubmit io lib sio wait client provider campaignType options correlationID em e =
     (case ec_now io e of
        (submittedAt, e1) \<Rightarrow>
     (case sweego_Send sio
             (WithSendOptions \<lparr>so_Provider = provider, so_CampaignType = campaignType, so_DryRun = bk_dryRun options\<rparr> client)
             em e1 of
        (response, e2) \<Rightarrow>
          (let addresses = map (\<lambda>r. ad_Email (rp_Address r)) (em_To em);
               ids = (case response of Inl err \<Rightarrow> [] | Inr us \<Rightarrow> us);
               actual = responseMap (zip addresses ids);
               operation = \<lparr>ro_TransactionID = '''', ro_SubmittedAt = submittedAt, ro_Sender = ad_Email (em_From em),
                            ro_Recipients = addresses\<rparr>
           in case logs_Recover lib sio wait client operation correlationID (bk_recovery options) e2 of
                ((results, obs, recoveryErr), e3) \<Rightarrow>
                  (((case response of Inl err \<Rightarrow> Some err | Inr us \<Rightarrow> recoveryErr),
                    \<lparr>bp_Recipients = zip addresses (ids @ replicate (length addresses - length ids) ''''),
                     bp_Recovery = results,
                     bp_Complete = (bk_discardResponse options \<and> completeRecovery results actual)\<rparr>), e3))))"

definition no_report :: bulk_report where
  "no_report = \<lparr>bp_Recipients = [], bp_Recovery = [], bp_Complete = False\<rparr>"

definition runBulkSend ::
  "'e email_cli \<Rightarrow> log_lib \<Rightarrow> 'e sweego_io \<Rightarrow> (go_duration \<Rightarrow> 'e \<Rightarrow> gerror option \<times> 'e) \<Rightarrow> 'e sweego_client \<Rightarrow>
     string \<Rightarrow> bulk_options \<Rightarrow> 'e \<Rightarrow> (gerror option \<times> bulk_report) \<times> 'e" where
  "runBulkSend io lib sio wait client provider options e =
     (case checkBulkOptions options of
        Some err \<Rightarrow> ((Some err, no_report), e)
      | None \<Rightarrow>
     (case ec_ParseAddress io (bk_from options) of
        Inl err \<Rightarrow> ((Some (Wrapped err ''invalid --from''), no_report), e)
      | Inr from \<Rightarrow>
     (case parseRecipients (ec_ParseAddress io) (bk_recipients options) of
        Inl err \<Rightarrow> ((Some err, no_report), e)
      | Inr recipients \<Rightarrow>
     (case correlationOr io (bk_messageID options) e of
        (Inl err, e1) \<Rightarrow> ((Some err, no_report), e1)
      | (Inr correlationID, e1) \<Rightarrow>
          bulkSubmit io lib sio wait client provider (bk_campaignType options) options correlationID
            \<lparr>em_From = from, em_To = recipients, em_Subject = bk_subject options,
             em_TemplateID = bk_templateID options, em_Text = bk_text options, em_Variables = [],
             em_Headers = [MessageIDHeader \<mapsto> correlationID]\<rparr> e1))))"

definition bulkContentError :: "bulk_document \<Rightarrow> gerror option" where
  "bulkContentError d =
     (let hasTemplate = TrimSpace (ud_Template d) \<noteq> ''''; hasBody = TrimSpace (ud_Body d) \<noteq> '''' in
      if hasTemplate \<and> hasBody then Some (Err ''template and body are mutually exclusive: supply exactly one'')
      else if \<not> hasTemplate \<and> \<not> hasBody
      then Some (Err ''one of template (a Sweego template UUID) or body (a plain-text file path) is required'')
      else if TrimSpace (ud_Subject d) = '''' then Some (Err ''subject is required'') else None)"

definition loadBulkSendDocument :: "'e email_cli \<Rightarrow> string \<Rightarrow> gerror + bulk_document \<times> string" where
  "loadBulkSendDocument io path =
     (case ec_readFile io path of
        Inl err \<Rightarrow> Inl (Wrapped err ''read targets file'')
      | Inr content \<Rightarrow>
     (case ec_decodeBulk io content of
        Inl err \<Rightarrow> Inl (Wrapped err ''decode targets JSON'')
      | Inr d \<Rightarrow>
     (case bulkContentError d of
        Some err \<Rightarrow> Inl err
      | None \<Rightarrow>
          if TrimSpace (ud_Body d) = '''' then Inr (d, '''')
          else case ec_readFile io (bodyPath io path (ud_Body d)) of
            Inl err \<Rightarrow> Inl (Wrapped err ''read body file'')
          | Inr text \<Rightarrow> Inr (d, text))))"

definition runBulkSendDocument ::
  "'e email_cli \<Rightarrow> log_lib \<Rightarrow> 'e sweego_io \<Rightarrow> (go_duration \<Rightarrow> 'e \<Rightarrow> gerror option \<times> 'e) \<Rightarrow> 'e sweego_client \<Rightarrow>
     string \<Rightarrow> string list \<Rightarrow> bulk_options \<Rightarrow> 'e \<Rightarrow> (gerror option \<times> bulk_report) \<times> 'e" where
  "runBulkSendDocument io lib sio wait client provider positionals options e =
     (if length positionals \<noteq> 1
      then ((Some (Err ''exactly one <targets-file> argument is required''), no_report), e)
      else case recoveryOptions_validate (bk_recovery options) of
        Some err \<Rightarrow> ((Some err, no_report), e)
      | None \<Rightarrow>
     (case loadBulkSendDocument io (hd positionals) of
        Inl err \<Rightarrow> ((Some err, no_report), e)
      | Inr (d, messageTxt) \<Rightarrow>
          (let fromRaw = (if TrimSpace (bk_from options) = '''' then ud_From d else bk_from options) in
           if TrimSpace fromRaw = ''''
           then ((Some (Err ''a sender is required: set from in the document or pass --from''), no_report), e)
           else
     (case ec_ParseAddress io fromRaw of
        Inl err \<Rightarrow> ((Some (Wrapped err (''invalid sender '' @ fromRaw)), no_report), e)
      | Inr from \<Rightarrow>
     (case targetRecipients (ec_ParseAddress io) (ud_Targets d) of
        Inl err \<Rightarrow> ((Some err, no_report), e)
      | Inr recipients \<Rightarrow>
          if length recipients = 0 then ((None, no_report), e)
          else
     (case correlationOr io (TrimSpace (bk_messageID options)) e of
        (Inl err, e1) \<Rightarrow> ((Some err, no_report), e1)
      | (Inr correlationID, e1) \<Rightarrow>
          bulkSubmit io lib sio wait client provider
            (if TrimSpace (ud_CampaignType d) = '''' then ''transac'' else ud_CampaignType d) options correlationID
            \<lparr>em_From = from, em_To = recipients, em_Subject = ud_Subject d, em_TemplateID = ud_Template d,
             em_Text = messageTxt, em_Variables = [], em_Headers = [MessageIDHeader \<mapsto> correlationID]\<rparr> e1))))))"

text \<open>One message: what was sent, and what a verification says of it right after.\<close>

record single_flags =
  si_from :: string
  si_to :: string
  si_subject :: string
  si_text :: string
  si_messageID :: string
  si_tolerance :: go_duration
  si_dryRun :: bool

definition sweego_runSend ::
  "'e email_cli \<Rightarrow> log_lib \<Rightarrow> 'e sweego_io \<Rightarrow> 'e sweego_client \<Rightarrow> string \<Rightarrow> single_flags \<Rightarrow> 'e \<Rightarrow>
     (gerror option \<times> (gerror + send_result) option \<times> (gerror + verify_result) option) \<times> 'e" where
  "sweego_runSend io lib sio client provider flags e =
     (if TrimSpace (si_from flags) = '''' \<or> TrimSpace (si_to flags) = '''' \<or> TrimSpace (si_subject flags) = ''''
         \<or> TrimSpace (si_text flags) = ''''
      then ((Some (Err ''--from, --to, --subject, and --text are required''), None, None), e)
      else case ec_ParseAddress io (si_from flags) of
        Inl err \<Rightarrow> ((Some (Wrapped err ''invalid --from''), None, None), e)
      | Inr from \<Rightarrow>
     (case ec_ParseAddress io (si_to flags) of
        Inl err \<Rightarrow> ((Some (Wrapped err ''invalid --to''), None, None), e)
      | Inr to \<Rightarrow>
     (case correlationOr io (TrimSpace (si_messageID flags)) e of
        (Inl err, e1) \<Rightarrow> ((Some err, None, None), e1)
      | (Inr correlationID, e1) \<Rightarrow>
     (case ec_now io e1 of
        (sentAt, e2) \<Rightarrow>
     (case sweego_Send sio
             (WithSendOptions \<lparr>so_Provider = provider, so_CampaignType = ''transac'', so_DryRun = si_dryRun flags\<rparr> client)
             \<lparr>em_From = from, em_To = [\<lparr>rp_Address = to, rp_Variables = []\<rparr>], em_Subject = si_subject flags,
              em_TemplateID = '''', em_Text = si_text flags, em_Variables = [],
              em_Headers = [MessageIDHeader \<mapsto> correlationID]\<rparr> e2 of
        (sent, e3) \<Rightarrow>
     (case sweego_Verify lib sio client (NewVerifier (si_tolerance flags))
             \<lparr>vr_CorrelationID = correlationID, vr_Recipient = ad_Email to, vr_SentAt = sentAt\<rparr> e3 of
        (verified, e4) \<Rightarrow>
          (((case sent of Inl err \<Rightarrow> Some err | Inr ids \<Rightarrow> (case verified of Inl err \<Rightarrow> Some err | Inr v \<Rightarrow> None)),
            Some sent, Some verified), e4)))))))"

definition sweego_runLogs ::
  "'e email_cli \<Rightarrow> 'e sweego_io \<Rightarrow> 'e sweego_client \<Rightarrow> string \<Rightarrow> string \<Rightarrow> string \<Rightarrow> 'e \<Rightarrow>
     (gerror option \<times> http_result option) \<times> 'e" where
  "sweego_runLogs io sio client uid0 to0 date0 e =
     (let uid = TrimSpace uid0; to = TrimSpace to0; date = TrimSpace date0 in
      if uid = '''' \<and> to = '''' then ((Some (Err ''at least one of --uid or --to is required''), None), e)
      else case (if date \<noteq> '''' then (case ec_parseTime io ''2006-01-02'' date of Inl err \<Rightarrow> Some err | Inr t \<Rightarrow> None)
                 else None) of
        Some err \<Rightarrow> ((Some (Wrapped err ''invalid --date, expected YYYY-MM-DD''), None), e)
      | None \<Rightarrow>
     (case logs_Query sio client
             \<lparr>lq_Channel = ''email'', lq_StartDate = date, lq_EndDate = date,
              lq_SearchWord = (if uid \<noteq> '''' then uid else to), lq_Offset = 0, lq_Size = 0\<rparr> e of
        ((response, Some err), e1) \<Rightarrow> ((Some err, None), e1)
      | ((response, None), e1) \<Rightarrow>
          ((if non2xx (hs_Status response) then Some (Err (''non-2xx response: '' @ sprint_int (hs_Status response)))
            else None, Some response), e1)))"

definition sweego_runVerify ::
  "'e email_cli \<Rightarrow> log_lib \<Rightarrow> 'e sweego_io \<Rightarrow> 'e sweego_client \<Rightarrow> string \<Rightarrow> string \<Rightarrow> string \<Rightarrow> go_duration \<Rightarrow> 'e \<Rightarrow>
     (gerror + verify_result) \<times> 'e" where
  "sweego_runVerify io lib sio client to0 messageID0 sentAtRaw tolerance e =
     (let to = TrimSpace to0; messageID = TrimSpace messageID0 in
      if to = '''' \<or> messageID = '''' then (Inl (Err ''--to and --message-id are required''), e)
      else case ec_now io e of
        (now, e1) \<Rightarrow>
     (case (if sentAtRaw \<noteq> '''' then ec_parseTime io ''RFC3339'' sentAtRaw else Inr now) of
        Inl err \<Rightarrow> (Inl (Wrapped err ''invalid --sent-at, expected RFC3339''), e1)
      | Inr sentAt \<Rightarrow>
          sweego_Verify lib sio client (NewVerifier tolerance)
            \<lparr>vr_CorrelationID = messageID, vr_Recipient = to, vr_SentAt = sentAt\<rparr> e1))"

text \<open>The template commands report the identifier when the answer has one; only the status is an error.\<close>

definition reportTemplateResult :: "'e sweego_io \<Rightarrow> http_result \<Rightarrow> gerror option \<times> string option" where
  "reportTemplateResult sio response =
     (if non2xx (hs_Status response) then Some (Err (''non-2xx response: '' @ sprint_int (hs_Status response))) else None,
      case TemplateUUID sio (hs_Body response) of Inl err \<Rightarrow> None | Inr uuid \<Rightarrow> Some uuid)"

definition readTemplateSource :: "'e email_cli \<Rightarrow> string \<Rightarrow> gerror + string" where
  "readTemplateSource io path =
     (case ec_readFile io path of Inl err \<Rightarrow> Inl (Wrapped err ''read template file'') | Inr content \<Rightarrow> Inr content)"

definition runTemplateUpload ::
  "'e email_cli \<Rightarrow> 'e sweego_io \<Rightarrow> 'e sweego_client \<Rightarrow> string \<Rightarrow> string list \<Rightarrow> string \<Rightarrow> 'e \<Rightarrow>
     (gerror option \<times> string option) \<times> 'e" where
  "runTemplateUpload io sio client clientUUID positionals name e =
     (if length positionals \<noteq> 1 then ((Some (Err ''exactly one <template-file> argument is required''), None), e)
      else case readTemplateSource io (positionals ! 0) of
        Inl err \<Rightarrow> ((Some err, None), e)
      | Inr source \<Rightarrow>
     (case sweego_CreateTemplate sio client clientUUID
             \<lparr>ct_Name = (if TrimSpace name = '''' then ec_base io (positionals ! 0) else name), ct_Template = source\<rparr> e of
        ((response, Some err), e1) \<Rightarrow> ((Some err, None), e1)
      | ((response, None), e1) \<Rightarrow> (reportTemplateResult sio response, e1)))"

definition runTemplateUpdate ::
  "'e email_cli \<Rightarrow> 'e sweego_io \<Rightarrow> 'e sweego_client \<Rightarrow> string \<Rightarrow> string list \<Rightarrow> string \<Rightarrow> 'e \<Rightarrow>
     (gerror option \<times> string option) \<times> 'e" where
  "runTemplateUpdate io sio client clientUUID positionals name e =
     (if length positionals \<noteq> 2
      then ((Some (Err ''exactly two arguments are required: <template-uuid> <template-file>''), None), e)
      else
        (let templateUUID = TrimSpace (positionals ! 0) in
         if templateUUID = '''' then ((Some (Err ''<template-uuid> cannot be blank''), None), e)
         else case readTemplateSource io (positionals ! 1) of
           Inl err \<Rightarrow> ((Some err, None), e)
         | Inr source \<Rightarrow>
        (case sweego_UpdateTemplate sio client clientUUID templateUUID
                \<lparr>ut_Name = (if TrimSpace name = '''' then ec_base io (positionals ! 1) else name), ut_Template = source,
                 ut_TemplateType = ''email''\<rparr> e of
           ((response, Some err), e1) \<Rightarrow> ((Some err, None), e1)
         | ((response, None), e1) \<Rightarrow> (reportTemplateResult sio response, e1))))"

definition runTemplateDelete ::
  "'e sweego_io \<Rightarrow> 'e sweego_client \<Rightarrow> string \<Rightarrow> string list \<Rightarrow> 'e \<Rightarrow> (gerror option \<times> string option) \<times> 'e" where
  "runTemplateDelete sio client clientUUID positionals e =
     (if length positionals \<noteq> 1 then ((Some (Err ''exactly one <template-uuid> argument is required''), None), e)
      else
        (let templateUUID = TrimSpace (positionals ! 0) in
         if templateUUID = '''' then ((Some (Err ''<template-uuid> cannot be blank''), None), e)
         else case sweego_DeleteTemplate sio client clientUUID templateUUID e of
           ((response, Some err), e1) \<Rightarrow> ((Some err, None), e1)
         | ((response, None), e1) \<Rightarrow>
             if non2xx (hs_Status response)
             then ((Some (Err (''non-2xx response: '' @ sprint_int (hs_Status response))), None), e1)
             else ((None, Some templateUUID), e1)))"

section \<open>Reports and documents\<close>

text \<open>
  A complete recovery is announced only when the logs alone gave every recipient of the email back: its own
  record, not one of another operation, and with the identifier that the hidden response had for it.
\<close>

lemma bulk_complete_sound:
  assumes "bulkSubmit io lib sio wait client provider campaignType options correlationID em e = ((err, report), e')"
    "bp_Complete report"
  shows "map rs_Recipient (bp_Recovery report) = map (\<lambda>r. ad_Email (rp_Address r)) (em_To em) \<and>
    (\<forall>r \<in> set (bp_Recovery report). \<exists>m :: log_record. rs_SwgUID r = lr_SwgUID m \<and> sameEmail lib (lr_EmailTo m) (rs_Recipient r) \<and>
       HeaderValue (ll_EqualFold lib) (lr_Headers m) MessageIDHeader \<in> {None, Some correlationID})"
proof -
  from assms obtain operation e2 obs rerr actual where
    rec: "logs_Recover lib sio wait client operation correlationID (bk_recovery options) e2 = ((bp_Recovery report, obs, rerr), e')"
    and op: "ro_Recipients operation = map (\<lambda>r. ad_Email (rp_Address r)) (em_To em)"
    and complete: "completeRecovery (bp_Recovery report) actual"
    by (auto simp: bulkSubmit_def Let_def split: prod.splits)
  note inv = Recover_inv [OF rec]
  have "\<exists>m :: log_record. rs_SwgUID r = lr_SwgUID m \<and> sameEmail lib (lr_EmailTo m) (rs_Recipient r) \<and>
      HeaderValue (ll_EqualFold lib) (lr_Headers m) MessageIDHeader \<in> {None, Some correlationID}"
    if r: "r \<in> set (bp_Recovery report)" for r
  proof -
    from complete r have st: "rs_Status r = Recovered" by (simp add: completeRecovery_def list_all_iff)
    from inv(2) r have ok: "result_ok lib sio operation correlationID (rv_Tolerance (bk_recovery options)) obs r"
      by (simp add: list_all_iff)
    from result_ok_record [OF ok disjI2 [OF st]] show ?thesis by blast
  qed
  with inv(1) op show ?thesis by simp
qed

text \<open>
  A template of blanks beside a body: the document is accepted as one with a body, but the blanks are handed on
  as the template's identifier, and the client refuses the email.
\<close>

lemma blank_template_accepted_then_refused:
  assumes "bd_Template d \<noteq> ''''" "TrimSpace (bd_Template d) = ''''" "TrimSpace (bd_Body d) \<noteq> ''''"
    "TrimSpace (bd_Subject d) \<noteq> ''''"
  shows "batchContentError d = None \<and>
    (\<forall>io path from content em. ec_readFile io path = Inr content \<longrightarrow> ec_decodeBatch io content = Inr d \<longrightarrow>
       loadBatchDocument io path from = Inr em \<longrightarrow> contentError em \<noteq> None)"
  using assms
  by (auto simp: batchContentError_def Let_def loadBatchDocument_def contentError_def split: sum.splits if_splits)

section \<open>The clients under the durable sender\<close>

text \<open>
  C17: When Post submits through Sweego or through Mailtrap and the client reports success, Post accepts every
  pending recipient with the identifier the client gave for that recipient, in order. The recovery of a lost
  answer starts only from an error of the client, never from the shape of an answer it let through.
\<close>

theorem provider_answer_accepted:
  fixes sio :: "'e sweego_io" and mlib :: "'e mailtrap_lib"
  assumes "client = sweego_Send sio sc \<or> client = mailtrap_Send mlib mc"
    and "markSubmitted flt token now d = (None, d')" "client (newEmail common pending) e = (Inr ids, e')"
  shows "length ids = length pending \<and>
    submitPending flt now token common pending client d e =
      (Complete [] (map2 (\<lambda>r u. Some (acceptWork token (rc_email r) u)) pending ids), d', e')"
proof -
  have "length ids = length (em_To (newEmail common pending))"
    using assms(1,3) sweego_provider.one_pmuid_each mailtrap_provider.one_pmuid_each by metis
  moreover have "submitPending flt now token common pending client d e =
      (Complete [] (map2 (\<lambda>r u. Some (acceptWork token (rc_email r) u)) pending ids), d', e')"
    using assms(1)
  proof
    assume c: "client = sweego_Send sio sc"
    show ?thesis
      unfolding c by (rule sweego_provider.submitPending_answer [OF assms(2) assms(3) [unfolded c]])
  next
    assume c: "client = mailtrap_Send mlib mc"
    show ?thesis
      unfolding c by (rule mailtrap_provider.submitPending_answer [OF assms(2) assms(3) [unfolded c]])
  qed
  ultimately show ?thesis by (simp add: newEmail_def)
qed

definition provider_demo_pending :: "go_any vars durable_recipient list" where
  "provider_demo_pending =
     [\<lparr>rc_email = ''b'', rc_name = '''', rc_variables = []\<rparr>, \<lparr>rc_email = ''a'', rc_name = '''', rc_variables = []\<rparr>]"

lemma provider_demo_sent:
  "sweego_Send sweego_demo_io (NewSweegoClient ''u'' ''t'') (newEmail dummy_demo_request provider_demo_pending) 0 =
     (Inr [''ub'', ''ua''], 1)"
  by (simp add: sweego_Send_def sweego_demo_io_def NewSweegoClient_def newEmail_def dummy_demo_request_def
      provider_demo_pending_def WithSendOptions_def Let_def PrepareDryRun_def sweego_Do_def non2xx_def parsePMUIDs_def
      normalizedKey_def collectIdentifiers_def sendResults_def recipientPMUID_def requiresBulkEndpoint_def)

theorem provider_answer_accepted_witness:
  "\<exists>d'. submitPending (\<lambda>_. None) 5 ''t'' dummy_demo_request provider_demo_pending
      (sweego_Send sweego_demo_io (NewSweegoClient ''u'' ''t'')) demo_pending 0 =
     (Complete [] [Some (acceptWork ''t'' ''b'' ''ub''), Some (acceptWork ''t'' ''a'' ''ua'')], d', 1)"
proof -
  obtain d' where m: "markSubmitted (\<lambda>_. None) ''t'' 5 demo_pending = (None, d')"
    by (simp add: markSubmitted_def)
  have "sweego_Send sweego_demo_io (NewSweegoClient ''u'' ''t'') = sweego_Send sweego_demo_io (NewSweegoClient ''u'' ''t'') \<or>
      sweego_Send sweego_demo_io (NewSweegoClient ''u'' ''t'') = mailtrap_Send mailtrap_demo_lib mailtrap_demo_client" by simp
  from provider_answer_accepted [OF this m provider_demo_sent] show ?thesis
    by (simp add: provider_demo_pending_def)
qed

end
