(* ===== verification/EmailSetup.thy ===== *)
theory EmailSetup
  imports EmailCommands EmailPlugin
begin

text \<open>
  How plugins/email builds its clients from its options (\<open>New\<close> in plugins/email/email.go), and what that means for
  silenced notifications.

  The world of a call holds the two dummy clients of a plugin beside the rest of the environment. The SDK of
  Mailtrap and the network under Sweego are made by the operations of the record \<open>provider_factory\<close>, given
  the token, the sandbox, if any, and the timeout.
\<close>

section \<open>Building the clients\<close>

record 'e mail_world =
  mw_live :: "(unit, 'e) dummy_client"
  mw_suppressed :: "(unit, 'e) dummy_client"
  mw_env :: 'e

record new_options = email_options +
  eo_MailtrapTimeout :: go_duration
  eo_MailtrapVerifyTolerance :: go_duration
  eo_SweegoTimeout :: go_duration
  eo_SweegoVerifyTolerance :: go_duration

record 'e provider_factory =
  pf_sdk :: "string \<Rightarrow> int option \<Rightarrow> go_duration \<Rightarrow> gerror + 'e mail_world mailtrap_sdk"
  pf_mailtrapLib :: "'e mail_world mailtrap_lib"
  pf_isZero :: "go_time \<Rightarrow> bool"
  pf_sweegoIO :: "go_duration \<Rightarrow> 'e mail_world sweego_io"
  pf_logLib :: log_lib
  pf_sprint :: "go_any \<Rightarrow> string"
  pf_rand :: "'e \<Rightarrow> (gerror + string) \<times> 'e"
  pf_ctxErr :: "'e \<Rightarrow> gerror option \<times> 'e"
  pf_EqualFold :: "string \<Rightarrow> string \<Rightarrow> bool"

type_synonym 'e mail_client = "(go_any vars, 'e mail_world) email_client"

text \<open>\<open>newDummyClient\<close> logs and accepts; the dry-run callback is set by the caller.\<close>

definition newDummyClient :: "bool \<Rightarrow> (unit, 'e) dummy_client" where
  "newDummyClient dryRun =
     SetDryRunCallback (Some (\<lambda>e. (dryRun, e)))
       (OnAccepted (Some RecordHook)
          (NewDummyClient (Some (\<lambda>address message headers e.
             (Inr \<lparr>ds_Status = 0, ds_Body = '''', ds_PMUID = ''''\<rparr>, e)))))"

definition live_dummy :: "'e provider_factory \<Rightarrow> 'e mail_client" where
  "live_dummy nf em w =
     (case dummyClient_Send (pf_sprint nf) (\<lambda>_ _ e. e) (pf_rand nf) (pf_ctxErr nf) em (mw_live w, mw_env w) of
        (r, c, e) \<Rightarrow> (r, w\<lparr>mw_live := c, mw_env := e\<rparr>))"

definition suppressed_dummy :: "'e provider_factory \<Rightarrow> 'e mail_client" where
  "suppressed_dummy nf em w =
     (case dummyClient_Send (pf_sprint nf) (\<lambda>_ _ e. e) (pf_rand nf) (pf_ctxErr nf) em (mw_suppressed w, mw_env w) of
        (r, c, e) \<Rightarrow> (r, w\<lparr>mw_suppressed := c, mw_env := e\<rparr>))"

definition verify_dummy :: "'e provider_factory \<Rightarrow> 'e mail_world email_verifier" where
  "verify_dummy nf q w =
     (case dummy_Verify (pf_EqualFold nf) (pf_ctxErr nf) q (mw_live w, mw_env w) of
        (r, c, e) \<Rightarrow> (r, w\<lparr>mw_live := c, mw_env := e\<rparr>))"

record 'e email_clients =
  cl_client :: "'e mail_client"
  cl_suppressed :: "'e mail_client"
  cl_verifier :: "'e mail_world email_verifier"

definition defaulted :: "go_duration \<Rightarrow> go_duration \<Rightarrow> go_duration" where
  "defaulted d fallback = (if d \<le> 0 then fallback else d)"

definition mailtrap_SetDryRunCallback :: "('e \<Rightarrow> bool \<times> 'e) option \<Rightarrow> 'e mailtrap_client \<Rightarrow> 'e mailtrap_client" where
  "mailtrap_SetDryRunCallback f c = c\<lparr>mt_dryRun := f\<rparr>"

definition sweego_SetDryRunCallback :: "('e \<Rightarrow> bool \<times> 'e) option \<Rightarrow> 'e sweego_client \<Rightarrow> 'e sweego_client" where
  "sweego_SetDryRunCallback f c = c\<lparr>sg_dryRun := f\<rparr>"

text \<open>The sandbox of the suppressed client, when one is configured.\<close>

definition withSandbox ::
  "'e provider_factory \<Rightarrow> new_options \<Rightarrow> string \<Rightarrow> go_duration \<Rightarrow> 'e mail_world mailtrap_client \<Rightarrow>
     gerror + 'e mail_world mailtrap_client" where
  "withSandbox nf opts mailtrapToken timeout c =
     (if eo_MailtrapSandboxID opts > 0
      then (let own = TrimSpace (eo_MailtrapSandboxToken opts);
                token = (if own = '''' then mailtrapToken else own)
            in case pf_sdk nf token (Some (eo_MailtrapSandboxID opts)) timeout of
                 Inl err \<Rightarrow> Inl (Wrapped err ''init Mailtrap sandbox'')
               | Inr sandboxSDK \<Rightarrow> WithSandboxClient (Some sandboxSDK) c)
      else Inr c)"

definition new_mailtrap :: "'e provider_factory \<Rightarrow> new_options \<Rightarrow> gerror + 'e email_clients" where
  "new_mailtrap nf opts =
     (let mailtrapToken = TrimSpace (eo_MailtrapToken opts);
          timeout = defaulted (eo_MailtrapTimeout opts) (30 * Second) in
      if mailtrapToken = '''' then Inl (Err ''a token is required for Mailtrap'')
      else
     (case pf_sdk nf mailtrapToken None timeout of
        Inl err \<Rightarrow> Inl (Wrapped err ''init Mailtrap client'')
      | Inr sdkClient \<Rightarrow>
     (case NewMailtrapClient (Some sdkClient) of
        Inl err \<Rightarrow> Inl err
      | Inr suppressed0 \<Rightarrow>
          if eo_MailtrapSandboxID opts < 0 then Inl (Err ''sandbox ID for Mailtrap must be positive'')
          else
     (case withSandbox nf opts mailtrapToken timeout suppressed0 of
        Inl err \<Rightarrow> Inl err
      | Inr suppressed1 \<Rightarrow>
     (case NewMailtrapClient (Some sdkClient) of
        Inl err \<Rightarrow> Inl (Wrapped err ''init Mailtrap client'')
      | Inr client0 \<Rightarrow>
          (let suppressed = mailtrap_SetDryRunCallback (Some (\<lambda>e. (True, e))) suppressed1;
               client = mailtrap_SetDryRunCallback (Some (\<lambda>e. (False, e))) client0
           in Inr \<lparr>cl_client = mailtrap_Send (pf_mailtrapLib nf) client,
                   cl_suppressed = mailtrap_Send (pf_mailtrapLib nf) suppressed,
                   cl_verifier = mailtrap_Verify (pf_mailtrapLib nf) (pf_isZero nf) (Some client)
                     (defaulted (eo_MailtrapVerifyTolerance opts) (300 * Second))\<rparr>))))))"

definition new_sweego :: "'e provider_factory \<Rightarrow> new_options \<Rightarrow> gerror + 'e email_clients" where
  "new_sweego nf opts =
     (let token = TrimSpace (eo_SweegoToken opts); provider = TrimSpace (eo_SweegoProvider opts);
          trimmed = TrimRight (CHR ''/'') (TrimSpace (eo_SweegoBaseURL opts));
          baseURL = (if trimmed = '''' then ''https://api.sweego.io'' else trimmed);
          io = pf_sweegoIO nf (defaulted (eo_SweegoTimeout opts) (30 * Second));
          options = \<lparr>so_Provider = provider, so_CampaignType = '''', so_DryRun = False\<rparr> in
      if token = '''' \<or> provider = '''' then Inl (Err ''both token and provider are required for Sweego'')
      else
        (let client = sweego_SetDryRunCallback (Some (\<lambda>e. (False, e))) (WithSendOptions options (NewSweegoClient baseURL token));
             suppressed = sweego_SetDryRunCallback (Some (\<lambda>e. (True, e))) (WithSendOptions options (NewSweegoClient baseURL token))
         in Inr \<lparr>cl_client = sweego_Send io client, cl_suppressed = sweego_Send io suppressed,
                 cl_verifier = sweego_Verify (pf_logLib nf) io client
                   (NewVerifier (defaulted (eo_SweegoVerifyTolerance opts) (300 * Second)))\<rparr>))"

definition email_New ::
  "'e provider_factory \<Rightarrow> gerror option \<Rightarrow> ('e mail_world \<Rightarrow> settings \<times> bool) option \<Rightarrow>
     (int \<Rightarrow> 'e mail_world \<Rightarrow> (int \<times> gerror option) \<times> 'e mail_world) option \<Rightarrow> new_options \<Rightarrow>
     gerror + (go_any vars, 'e mail_world) email_plugin \<times> 'e mail_world email_verifier" where
  "email_New nf newStore settings tokens opts =
     (case tokens of
        None \<Rightarrow> Inl (Err ''email send token source is required'')
      | Some acquireN \<Rightarrow>
          if TrimSpace (eo_MailtrapToken opts) \<noteq> '''' \<and> TrimSpace (eo_SweegoToken opts) \<noteq> ''''
          then Inl (Err ''tokens for Mailtrap and Sweego are mutually exclusive'')
          else
     (case (if eo_Client opts = ClientDummy
            then Inr \<lparr>cl_client = live_dummy nf, cl_suppressed = suppressed_dummy nf, cl_verifier = verify_dummy nf\<rparr>
            else if eo_Client opts = ClientMailtrap then new_mailtrap nf opts
            else if eo_Client opts = ClientSweego then new_sweego nf opts
            else if eo_Client opts = '''' then Inl (Err ''email client kind is required'')
            else Inl (Err (''unknown email client kind '' @ eo_Client opts))) of
        Inl err \<Rightarrow> Inl err
      | Inr cl \<Rightarrow>
     (case newStore of
        Some err \<Rightarrow> Inl (Wrapped err ''init durable email store'')
      | None \<Rightarrow>
          Inr (\<lparr>pg_clientKind = eo_Client opts, pg_client = cl_client cl, pg_suppressedClient = cl_suppressed cl,
                pg_settings = settings, pg_acquireN = acquireN\<rparr>, cl_verifier cl))))"

definition initial_world :: "'e \<Rightarrow> 'e mail_world" where
  "initial_world e = \<lparr>mw_live = newDummyClient False, mw_suppressed = newDummyClient True, mw_env = e\<rparr>"

section \<open>The suppressed clients\<close>

lemma mailtrap_dry_run_live_irrelevant:
  assumes "mt_dryRun c = Some (\<lambda>e. (True, e))"
  shows "mailtrap_Send lib (c\<lparr>mt_sdk := Some x\<rparr>) = mailtrap_Send lib (c\<lparr>mt_sdk := Some y\<rparr>)"
proof (intro ext)
  fix em e
  have r: "mailtrap_requests lib (c\<lparr>mt_sdk := Some z\<rparr>) em' e' = mailtrap_requests lib c em' e'" for z em' e'
    using mailtrap_requests_sdk [where lib = lib and c = c and x = "Some z" and y = "mt_sandboxSDK c"] by simp
  show "mailtrap_Send lib (c\<lparr>mt_sdk := Some x\<rparr>) em e = mailtrap_Send lib (c\<lparr>mt_sdk := Some y\<rparr>) em e"
  proof (cases "ml_ctxErr lib e")
    case (Pair err e1)
    with assms show ?thesis
      by (cases err; cases "mt_sandboxSDK c") (simp_all add: mailtrap_Send_def mailtrap_SendResult_def chooseSDK_def r)
  qed
qed

text \<open>The requests to Sweego that ask for a dry run.\<close>

fun dryPayload :: "sweego_payload \<Rightarrow> bool" where
  "dryPayload (SingleSend r) = ser_DryRun r"
| "dryPayload (BulkSend r) = ber_DryRun r"
| "dryPayload _ = False"

lemma sweego_Do_marshal:
  "m p = si_marshal io p \<Longrightarrow> sweego_Do (io\<lparr>si_marshal := m\<rparr>) c meth path (Some p) e = sweego_Do io c meth path (Some p) e"
  by (simp add: sweego_Do_def Let_def split: sum.split option.split)

lemma sweego_dry_run_isolated:
  assumes "sg_dryRun c = Some (\<lambda>e. (True, e))" "\<forall>p. dryPayload p \<longrightarrow> m p = si_marshal io p"
  shows "sweego_Send (io\<lparr>si_marshal := m\<rparr>) c = sweego_Send io c"
proof (intro ext)
  fix em e
  let ?c = "WithSendOptions ((sg_sendOptions c)\<lparr>so_DryRun := True\<rparr>) c"
  have "m (BulkSend (bulkRequest ?c em')) = si_marshal io (BulkSend (bulkRequest ?c em'))"
    "m (SingleSend (singleRequest ?c em')) = si_marshal io (SingleSend (singleRequest ?c em'))" for em'
    using assms(2) by (simp_all add: bulkRequest_def singleRequest_def WithSendOptions_def)
  then have "sweego_Do (io\<lparr>si_marshal := m\<rparr>) ?c meth path (Some (BulkSend (bulkRequest ?c em'))) e' =
      sweego_Do io ?c meth path (Some (BulkSend (bulkRequest ?c em'))) e'"
    "sweego_Do (io\<lparr>si_marshal := m\<rparr>) ?c meth path (Some (SingleSend (singleRequest ?c em'))) e' =
      sweego_Do io ?c meth path (Some (SingleSend (singleRequest ?c em'))) e'" for em' e' meth path
    by (simp_all add: sweego_Do_marshal)
  moreover have "parsePMUIDs (io\<lparr>si_marshal := m\<rparr>) b = parsePMUIDs io b" for b
    by (simp add: parsePMUIDs_def split: sum.split)
  ultimately show "sweego_Send (io\<lparr>si_marshal := m\<rparr>) c em e = sweego_Send io c em e"
    using assms(1) by (simp add: sweego_Send_def Let_def split: option.split prod.split)
qed

text \<open>
  Two factories with the same sandboxes and the same encoding of the requests that ask for a dry run. They may
  differ in the production account of Mailtrap, and in all other requests to Sweego.
\<close>

definition dry_equal :: "'e provider_factory \<Rightarrow> 'e provider_factory \<Rightarrow> bool" where
  "dry_equal nf nf' \<longleftrightarrow>
     (\<exists>sdk m. nf' = nf\<lparr>pf_sdk := sdk, pf_sweegoIO := (\<lambda>t. (pf_sweegoIO nf t)\<lparr>si_marshal := m t\<rparr>)\<rparr> \<and>
        (\<forall>token i t. sdk token (Some i) t = pf_sdk nf token (Some i) t) \<and>
        (\<forall>t p. dryPayload p \<longrightarrow> m t p = si_marshal (pf_sweegoIO nf t) p))"

lemma new_mailtrap_suppressed:
  assumes "dry_equal nf nf'" "new_mailtrap nf opts = Inr cl" "new_mailtrap nf' opts = Inr cl'"
  shows "cl_suppressed cl' = cl_suppressed cl"
proof -
  let ?t = "defaulted (eo_MailtrapTimeout opts) (30 * Second)" and ?token = "TrimSpace (eo_MailtrapToken opts)"
  obtain sdk m where nf': "nf' = nf\<lparr>pf_sdk := sdk, pf_sweegoIO := m\<rparr>"
    and sandbox: "\<And>token i t. sdk token (Some i) t = pf_sdk nf token (Some i) t"
    using assms(1) by (auto simp: dry_equal_def)
  have start: "NewMailtrapClient (Some x) = Inr (c\<lparr>mt_sdk := Some x\<rparr>)"
    if "c = \<lparr>mt_sdk = None, mt_sandboxSDK = None, mt_Category = '''', mt_dryRun = None\<rparr>"
    for x :: "'a mail_world mailtrap_sdk" and c using that by (simp add: NewMailtrapClient_def)
  define c0 :: "'a mail_world mailtrap_client" where
    "c0 = \<lparr>mt_sdk = None, mt_sandboxSDK = None, mt_Category = '''', mt_dryRun = None\<rparr>"
  from assms(2) obtain x s where x: "withSandbox nf opts ?token ?t (c0\<lparr>mt_sdk := Some x\<rparr>) = Inr s"
    "cl_suppressed cl = mailtrap_Send (pf_mailtrapLib nf) (mailtrap_SetDryRunCallback (Some (\<lambda>e. (True, e))) s)"
    by (auto simp: new_mailtrap_def Let_def start [OF c0_def] split: if_splits sum.splits)
  from assms(3) obtain y s' where y: "withSandbox nf' opts ?token ?t (c0\<lparr>mt_sdk := Some y\<rparr>) = Inr s'"
    "cl_suppressed cl' = mailtrap_Send (pf_mailtrapLib nf) (mailtrap_SetDryRunCallback (Some (\<lambda>e. (True, e))) s')"
    by (auto simp: new_mailtrap_def Let_def start [OF c0_def] nf' split: if_splits sum.splits)
  from x(1) y(1) have z: "s = s\<lparr>mt_sdk := Some x\<rparr>" "s' = s\<lparr>mt_sdk := Some y\<rparr>"
    by (auto simp: withSandbox_def Let_def nf' sandbox WithSandboxClient_def c0_def split: if_splits sum.splits)
  let ?z = "mailtrap_SetDryRunCallback (Some (\<lambda>e. (True, e))) s"
  have "mailtrap_SetDryRunCallback (Some (\<lambda>e. (True, e))) s' = ?z\<lparr>mt_sdk := Some y\<rparr>"
    by (subst z(2)) (simp add: mailtrap_SetDryRunCallback_def)
  moreover have "?z = ?z\<lparr>mt_sdk := Some x\<rparr>" by (subst z(1)) (simp add: mailtrap_SetDryRunCallback_def)
  moreover have "mt_dryRun ?z = Some (\<lambda>e. (True, e))" by (simp add: mailtrap_SetDryRunCallback_def)
  ultimately show ?thesis using x(2) y(2) mailtrap_dry_run_live_irrelevant by metis
qed

lemma new_sweego_suppressed:
  assumes "dry_equal nf nf'" "new_sweego nf opts = Inr cl" "new_sweego nf' opts = Inr cl'"
  shows "cl_suppressed cl' = cl_suppressed cl"
proof -
  obtain sdk m where nf': "nf' = nf\<lparr>pf_sdk := sdk, pf_sweegoIO := (\<lambda>t. (pf_sweegoIO nf t)\<lparr>si_marshal := m t\<rparr>)\<rparr>"
    and dry: "\<forall>t p. dryPayload p \<longrightarrow> m t p = si_marshal (pf_sweegoIO nf t) p"
    using assms(1) by (auto simp: dry_equal_def)
  have "sweego_Send ((pf_sweegoIO nf t)\<lparr>si_marshal := m t\<rparr>) (sweego_SetDryRunCallback (Some (\<lambda>e. (True, e))) c) =
      sweego_Send (pf_sweegoIO nf t) (sweego_SetDryRunCallback (Some (\<lambda>e. (True, e))) c)" for t c
    using dry by (intro sweego_dry_run_isolated) (simp_all add: sweego_SetDryRunCallback_def)
  with assms(2,3) show ?thesis by (auto simp: new_sweego_def Let_def nf' split: if_splits)
qed

lemma email_New_suppressed:
  assumes "dry_equal nf nf'" "email_New nf store st tokens opts = Inr (p, v)" "email_New nf' store st tokens opts = Inr (p', v')"
  shows "p' = p\<lparr>pg_client := pg_client p'\<rparr>" "pg_settings p = st"
proof -
  obtain sdk m where nf': "nf' = nf\<lparr>pf_sdk := sdk, pf_sweegoIO := m\<rparr>" using assms(1) by (auto simp: dry_equal_def)
  have dummy: "suppressed_dummy nf' = suppressed_dummy nf" by (intro ext) (simp add: suppressed_dummy_def nf')
  define clients where "clients f = (if eo_Client opts = ClientDummy
      then Inr \<lparr>cl_client = live_dummy f, cl_suppressed = suppressed_dummy f, cl_verifier = verify_dummy f\<rparr>
      else if eo_Client opts = ClientMailtrap then new_mailtrap f opts
      else if eo_Client opts = ClientSweego then new_sweego f opts
      else if eo_Client opts = '''' then Inl (Err ''email client kind is required'')
      else Inl (Err (''unknown email client kind '' @ eo_Client opts)))" for f :: "'a provider_factory"
  have plugin: "\<exists>acquireN cl. tokens = Some acquireN \<and> clients f = Inr cl \<and>
      q = \<lparr>pg_clientKind = eo_Client opts, pg_client = cl_client cl, pg_suppressedClient = cl_suppressed cl,
           pg_settings = st, pg_acquireN = acquireN\<rparr>"
    if "email_New f store st tokens opts = Inr (q, u)" for f q u
    using that unfolding email_New_def clients_def [symmetric] by (auto split: option.splits if_splits sum.splits)
  from plugin [OF assms(2)] plugin [OF assms(3)] obtain acquireN cl cl' where
    t: "tokens = Some acquireN" and cl: "clients nf = Inr cl" and cl': "clients nf' = Inr cl'"
    and p: "p = \<lparr>pg_clientKind = eo_Client opts, pg_client = cl_client cl, pg_suppressedClient = cl_suppressed cl,
       pg_settings = st, pg_acquireN = acquireN\<rparr>"
    and p': "p' = \<lparr>pg_clientKind = eo_Client opts, pg_client = cl_client cl', pg_suppressedClient = cl_suppressed cl',
       pg_settings = st, pg_acquireN = acquireN\<rparr>" by auto
  have "cl_suppressed cl' = cl_suppressed cl"
    using cl cl' dummy new_mailtrap_suppressed [OF assms(1)] new_sweego_suppressed [OF assms(1)]
    unfolding clients_def by (auto split: if_splits)
  then show "p' = p\<lparr>pg_client := pg_client p'\<rparr>" by (simp add: p p')
  show "pg_settings p = st" by (simp add: p)
qed

section \<open>Silenced notifications stay dry\<close>

text \<open>
  C25: While notifications are silenced, what a Post does through a plugin built by New does not depend on the
  production account of Mailtrap, nor on any request to Sweego that does not ask for a dry run: two plugins built
  from the same options, whose providers differ only there, handle it alike. The exception is a Post to a single
  recipient who is the actor of the poll and has asked to be notified.
\<close>

theorem silenced_post_stays_dry:
  assumes "dry_equal nf nf'"
    and "email_New nf store (Some f) tokens opts = Inr (p, v)" "email_New nf' store (Some f) tokens opts = Inr (p', v')"
    and "f e = (s, True)" "SilenceNotifications s"
  shows "PostHandler_Handle flts um umm (plugin_post p') now token d e =
      PostHandler_Handle flts um umm (plugin_post p) now token d e \<or>
    (\<exists>r common. pendingRecipients (flts ReadPending) um token d = Inr [r] \<and>
       readRequest (flts ReadRequest) um umm token d = Inr common \<and> NotifyPollActorWhenSilenced s \<and>
       string_index (dr_metadata common) ''actor_uid'' \<noteq> '''' \<and>
       string_index (dr_metadata common) ''recipient_uid'' = string_index (dr_metadata common) ''actor_uid'')"
proof -
  note p' = email_New_suppressed(1) [OF assms(1-3)] and st = email_New_suppressed(2) [OF assms(1-3)]
  from silenced_email_never_live [OF st assms(4,5), where flts = flts and um = um and umm = umm and token = token
      and d = d and now = now] show ?thesis
  proof
    assume "\<forall>c. PostHandler_Handle flts um umm (plugin_post p) now token d e =
        PostHandler_Handle flts um umm (plugin_post (p\<lparr>pg_client := c\<rparr>)) now token d e"
    then have "PostHandler_Handle flts um umm (plugin_post p) now token d e =
        PostHandler_Handle flts um umm (plugin_post (p\<lparr>pg_client := pg_client p'\<rparr>)) now token d e" by blast
    then show ?thesis unfolding p' [symmetric] by simp
  qed blast
qed

definition setup_sdk :: "nat mail_world mailtrap_sdk" where
  "setup_sdk =
     \<lparr>sdk_Send = (\<lambda>q w. (Inr \<lparr>sr_Success = True, sr_MessageIDs = [''id'']\<rparr>, w)),
      sdk_SendBatch = (\<lambda>qs w. (Inr \<lparr>sb_Success = True, sb_Responses = [], sb_Errors = []\<rparr>, w)),
      sdk_Logs = (\<lambda>options w. ([], w))\<rparr>"

definition setup_factory :: "nat provider_factory" where
  "setup_factory =
     \<lparr>pf_sdk = (\<lambda>token i t. Inr setup_sdk),
      pf_mailtrapLib = \<lparr>ml_ParseAddress = (\<lambda>s. Inr \<lparr>ad_Email = s, ad_Name = ''''\<rparr>), ml_EqualFold = (=), ml_Quote = id,
        ml_Sprint = (\<lambda>_. ''''), ml_FormatTime = (\<lambda>_. ''now''), ml_range = (\<lambda>h. []), ml_ctxErr = (\<lambda>w. (None, w))\<rparr>,
      pf_isZero = (\<lambda>t. t = 0),
      pf_sweegoIO = (\<lambda>t. \<lparr>si_marshal = (\<lambda>_. Inr ''{}''), si_newRequest = (\<lambda>_ _. None),
        si_http = (\<lambda>r w. (Inl (Err ''no network''), w)), si_pathEscape = id, si_decodeAny = (\<lambda>_. Inr JNull),
        si_decodeUUID = Inr, si_decodeLogs = (\<lambda>_. Inr []), si_toLower = id, si_ctxErr = (\<lambda>w. (None, w))\<rparr>),
      pf_logLib = logs_demo_lib, pf_sprint = (\<lambda>_. ''''), pf_rand = (\<lambda>n. (Inr ''b'', n)), pf_ctxErr = (\<lambda>n. (None, n)),
      pf_EqualFold = (=)\<rparr>"

text \<open>The same, with a production account that refuses everything.\<close>

definition refusing_factory :: "nat provider_factory" where
  "refusing_factory = setup_factory
     \<lparr>pf_sdk := (\<lambda>token i t. if i = None then Inr (setup_sdk\<lparr>sdk_Send := (\<lambda>q w. (Inl (Err ''refused''), w))\<rparr>)
                           else Inr setup_sdk),
      pf_sweegoIO := (\<lambda>t. (pf_sweegoIO setup_factory t)\<lparr>si_marshal := (\<lambda>_. Inr ''{}'')\<rparr>)\<rparr>"

definition setup_options :: new_options where
  "setup_options =
     \<lparr>eo_Client = ClientMailtrap, eo_MailtrapToken = ''T'', eo_MailtrapSandboxToken = ''T'', eo_MailtrapSandboxID = 7,
      eo_SweegoToken = '''', eo_SweegoProvider = '''', eo_SweegoBaseURL = '''', eo_MailtrapTimeout = 0,
      eo_MailtrapVerifyTolerance = 0, eo_SweegoTimeout = 0, eo_SweegoVerifyTolerance = 0\<rparr>"

lemma setup_dry_equal: "dry_equal setup_factory refusing_factory"
  unfolding dry_equal_def refusing_factory_def
  by (rule exI, rule exI [of _ "\<lambda>_ _. Inr ''{}''"], intro conjI, rule refl) (simp_all add: setup_factory_def)

lemma setup_built:
  "\<exists>p v. email_New setup_factory None st (Some (\<lambda>n w. ((0, None), w))) setup_options = Inr (p, v)"
  "\<exists>p v. email_New refusing_factory None st (Some (\<lambda>n w. ((0, None), w))) setup_options = Inr (p, v)"
  by (simp_all add: email_New_def setup_options_def ClientMailtrap_def ClientDummy_def new_mailtrap_def Let_def TrimSpace_T
      refusing_factory_def setup_factory_def NewMailtrapClient_def withSandbox_def WithSandboxClient_def)

theorem silenced_post_stays_dry_witness:
  "\<exists>p v p' v'. email_New setup_factory None (Some (\<lambda>w. (no_settings\<lparr>SilenceNotifications := True\<rparr>, True)))
      (Some (\<lambda>n w. ((0, None), w))) setup_options = Inr (p, v) \<and>
    email_New refusing_factory None (Some (\<lambda>w. (no_settings\<lparr>SilenceNotifications := True\<rparr>, True)))
      (Some (\<lambda>n w. ((0, None), w))) setup_options = Inr (p', v') \<and>
    PostHandler_Handle (\<lambda>_ _. None) (\<lambda>_. Inr []) demo_unmarshalMap (plugin_post p') 5 ''t'' demo_pending (initial_world 0) =
    PostHandler_Handle (\<lambda>_ _. None) (\<lambda>_. Inr []) demo_unmarshalMap (plugin_post p) 5 ''t'' demo_pending (initial_world 0)"
proof -
  let ?f = "\<lambda>w :: nat mail_world. (no_settings\<lparr>SilenceNotifications := True\<rparr>, True)"
  obtain p v where p: "email_New setup_factory None (Some ?f) (Some (\<lambda>n w. ((0, None), w))) setup_options = Inr (p, v)"
    using setup_built(1) by blast
  obtain p' v' where p': "email_New refusing_factory None (Some ?f) (Some (\<lambda>n w. ((0, None), w))) setup_options = Inr (p', v')"
    using setup_built(2) by blast
  have "SilenceNotifications (no_settings\<lparr>SilenceNotifications := True\<rparr>)"
    "\<not> NotifyPollActorWhenSilenced (no_settings\<lparr>SilenceNotifications := True\<rparr>)"
    by (simp_all add: no_settings_def)
  with silenced_post_stays_dry [OF setup_dry_equal p p' refl, where e = "initial_world 0" and flts = "\<lambda>_ _. None"
      and um = "\<lambda>_. Inr []" and umm = demo_unmarshalMap and now = 5 and token = "''t''" and d = demo_pending]
  have "PostHandler_Handle (\<lambda>_ _. None) (\<lambda>_. Inr []) demo_unmarshalMap (plugin_post p') 5 ''t'' demo_pending (initial_world 0) =
    PostHandler_Handle (\<lambda>_ _. None) (\<lambda>_. Inr []) demo_unmarshalMap (plugin_post p) 5 ''t'' demo_pending (initial_world 0)"
    by simp
  with p p' show ?thesis by blast
qed

end
