(* ===== verification/Spec2Isabelle.thy ===== *)
theory Spec2Isabelle
  imports Scheduler EmailQuery EmailSetup
begin

text \<open>
  A verification of the Go part of pubnightpicker: the durable work queue \<open>cellar\<close> (src/cellar), durable email
  (src/durable_email, src/email_clients), and the application \<open>last_orders\<close> (src/last_orders) that watches
  Firestore and sends the notifications of a pub night.

  How the parts work together. A cell is a durable sequence of handler invocations. The store keeps the cells
  (in memory, or in SQLite together with the tables of the application), the scheduler claims the cells that
  are due and runs their current step, and the result of a handler decides what happens to the cell, together
  with the new cells and the writes to the application's tables that the result carries, in one transaction.
  The listeners turn what they observe into truths; a truth goes through an idempotency sequence, which emits
  it at most once, and is then fanned out to the handlers registered for it. Those handlers are the plugins:
  polls (emails and pushes about polls), push events (chat and tests), recurrence (polls of event venues),
  automatic completion, deletion of accounts, test emails. Emails are sent by the sequence Setup, Recovery, Post
  of durable email, pushes by one delivery cell per endpoint.

  Theories, each with the sources it models:

  \<^item> Prelude, Calendar, Utf8: what the sources use of Go: errors as sums, loops with early return, 64-bit
    arithmetic, durations and civil dates with time zones, runes and trimming.
  \<^item> Sql: the SQL statements the stores send, on tables as lists of rows; which calls of the database fail is a
    parameter of type \<open>db_call \<Rightarrow> gerror option\<close>.
  \<^item> Cells, StoreSpec, MemoryStore, SqliteStore: cells, requests and results; the transition a result stands for,
    as an abstract specification; the two stores (cellar/pkg/cellar/memory_store.go, cellar/internal/sqlite).
    The SQLite store refines the memory store, rolls back on every failure, and both keep their invariant.
  \<^item> Runtime, Fanout, Scheduler, Timer: registry, inspection, worker and the runtime's operations; expansion of a
    cell into children; the loop of the scheduler and its goroutines as an interleaving step relation; durable
    timers (cellar/pkg/cellar/{cellar,registry_impl,worker,fanout,scheduler,timer}.go).
  \<^item> EmailStore, EmailSend, EmailQuery: the tables of durable email, the handlers of a Send, the progress queries
    (durable_email/{store,send,query}.go).
  \<^item> Truths, Idempotency: the dispatch of truths and both variants of the idempotency sequence
    (truths/dispatch.go, components/idempotency, components/firebaseidempotency).
  \<^item> Recurrence, VenueCache, EventPolls: rules and occurrences, the venue cache, the polls of event venues
    (components/recurrence, components/venuecache, plugins/recurrence).
  \<^item> NotificationProfile, Diagnostics, RateLimit: preferences and endpoints, the settings that silence
    notifications, the daily allowance (components/{notificationprofile,diagnosticsconfig,ratelimit}).
  \<^item> Push, EmailPlugin, PollNotify, PushEvents: push deliveries, the email policy and the test email, the
    notifications of polls, chat and tests (plugins/{push,email,testemail,polls,pushevents},
    components/{completionactions,pushsources}).
  \<^item> AutoComplete, AdminDelete, Listeners: completing polls from their votes, deleting accounts, and the listeners
    (services/{autocomplete,admindelete}, database/listeners, components/listenerscope).

  \<^item> Api: the HTTP interface from CORS to the endpoints (components/{apicors,firebaseauth,apirequest}, endpoints).
    A history is seen only by the user it belongs to, through the whole stack of handlers.
  \<^item> App, Lifecycle: the composition (app/app.go). App says which handlers react to which truth and what is
    registered, and proves that every cell any handler creates is served by a registered handler, so that a later
    build accepts the cells an earlier one left. Lifecycle has construction with the release of what was opened,
    and runs as sequences of actions: what precedes the runtime and what is stopped.
  \<^item> Commands: cmd/last-orders (settings, deletion of the local database) and cmd/cellar (inspection).

  \<^item> TextTemplate, DummyClient, SweegoClient, SweegoLogs, Mailtrap: the clients behind durable email
    (email_clients/clients, email_clients/internal/texttemplate). The locale \<open>email_provider\<close> says what Post asks of a
    client, one identifier per recipient, and all three clients keep it. Identifiers are those the provider's answer
    reports for the recipient; recovery from Sweego's logs and Mailtrap's verification take no record of another
    message (Sweego's verification may take one of another recipient), and a dry run of Mailtrap stays in the sandbox.
  \<^item> EmailCommands, EmailSetup: the commands of the two email tools (email_clients/internal/{cli,mailtrapcli}), and the
    clients that plugins/email builds: what is silenced does not reach a production account.

  Conventions. A Go struct is a record, an interface a record of the operations the client calls or a parameter
  of the definition, an error an \<open>Inl\<close> or \<open>Some\<close>; state is passed explicitly. What is not in the repository is a
  parameter: encoders (JSON, base64, SHA-256), random identifiers, the clock, Firestore, the mail and push
  services. A theorem that relies on what such a service documents says so in a named predicate
  (\<open>creates_ok\<close>, \<open>transactions_ok\<close>, \<open>reads_ok\<close>, \<open>history_ok\<close>), and its witness gives a concrete service.

  Bounds. Nothing is bounded by fuel: loops are recursive on their data, and the waiting loops are partial
  functions whose value is \<open>None\<close> when they do not return, with lemmas that say when they do. Integers that
  overflow in Go wrap (\<open>wrap64\<close>); identifiers and times are unbounded where the source's range does not matter.

  Not modelled, and why: the sources that only forward Firestore queries, and the values that the constructors of
  app/app.go return (calls of libraries outside the repository); the goroutines, timeouts and channels behind the
  actions of a run; opening databases and creating their schema; the parsing of command-line flags; logging and
  printing. The generated and test-helper packages (those ending in
  \<open>test\<close>) are left out.
\<close>

end
